(* ===== verification/Js_Prelude.thy ===== *)
theory Js_Prelude
  imports Complex_Main "HOL-Library.Sublist" "HOL-Library.Multiset"
begin

text \<open>
  Shared vocabulary of the development: the JavaScript values the gateway computes with
  (numbers that may be NaN or infinite, plain objects with insertion-ordered keys), and the
  generic facts on lists and objects that the components share.

  Finite numbers are rationals (\<open>rat\<close>) or, where the code keeps integers, \<open>int\<close>: the
  scaled counters of the gate, the millisecond clocks and the model weights (1, 1/2, 1/4) are
  far below 2^53, where a double computes them exactly.
\<close>

subsection \<open>Collections of rewrite rules\<close>

named_theorems obj_simps \<open>lookup and update laws of insertion-ordered objects\<close>
named_theorems gate_defs \<open>definitions of the gate's operations\<close>

subsection \<open>Numbers\<close>

datatype jsnum = Fin rat | NaN | PInf | NInf

definition js_is_finite :: "jsnum \<Rightarrow> bool" where
  "js_is_finite x = (case x of Fin _ \<Rightarrow> True | _ \<Rightarrow> False)"

definition js_round :: "rat \<Rightarrow> int" where
  "js_round r = \<lfloor>r + 1 / 2\<rfloor>"

lemma js_round_of_int [simp]: "js_round (of_int n) = n"
  unfolding js_round_def by linarith

lemma js_round_mono: "a \<le> b \<Longrightarrow> js_round a \<le> js_round b"
  unfolding js_round_def by (intro floor_mono) simp

lemma js_round_numeral [simp]: "js_round (numeral n) = numeral n"
  using js_round_of_int[of "numeral n"] by simp

lemma js_round_0 [simp]: "js_round 0 = 0" and js_round_1 [simp]: "js_round 1 = 1"
  using js_round_of_int[of 0] js_round_of_int[of 1] by simp_all

subsection \<open>Objects\<close>

text \<open>
  A plain object (\<open>Record\<close>) or a \<open>Map\<close> is the list of its entries in insertion order.
  Assigning to an existing key keeps its place, a new key goes to the end, as
  \<open>JSON.stringify\<close> and \<open>Object.keys\<close> see them (for keys that are not array indices).
\<close>

type_synonym 'v obj = "(string \<times> 'v) list"

abbreviation obj_get :: "('k \<times> 'v) list \<Rightarrow> 'k \<Rightarrow> 'v option" where
  "obj_get \<equiv> map_of"

abbreviation obj_keys :: "('k \<times> 'v) list \<Rightarrow> 'k list" where
  "obj_keys d \<equiv> map fst d"

fun obj_set :: "('k \<times> 'v) list \<Rightarrow> 'k \<Rightarrow> 'v \<Rightarrow> ('k \<times> 'v) list" where
  "obj_set [] k v = [(k, v)]"
| "obj_set ((k', v') # d) k v = (if k' = k then (k, v) # d else (k', v') # obj_set d k v)"

definition obj_del :: "('k \<times> 'v) list \<Rightarrow> 'k \<Rightarrow> ('k \<times> 'v) list" where
  "obj_del d k = filter (\<lambda>(k', _). k' \<noteq> k) d"

definition obj_num :: "('k \<times> int) list \<Rightarrow> 'k \<Rightarrow> int" where
  "obj_num d k = (case obj_get d k of None \<Rightarrow> 0 | Some v \<Rightarrow> v)"

text \<open>Lookups stay lookups: the simplifier does not turn them into list membership.\<close>

declare map_of_eq_Some_iff [simp del]

lemma obj_get_set [simp, obj_simps]:
  "obj_get (obj_set d k v) = (obj_get d)(k \<mapsto> v)"
  by (induction d k v rule: obj_set.induct) auto

lemma obj_get_del [simp, obj_simps]:
  "obj_get (obj_del d k) = (obj_get d)(k := None)"
  unfolding obj_del_def by (induction d) auto

lemma obj_num_set [simp, obj_simps]:
  "obj_num (obj_set d k v) k' = (if k' = k then v else obj_num d k')"
  by (simp add: obj_num_def)

lemma obj_num_Nil [simp, obj_simps]: "obj_num [] k = 0"
  by (simp add: obj_num_def)

lemma set_keys_obj_set [simp, obj_simps]:
  "fst ` set (obj_set d k v) = insert k (fst ` set d)"
  by (induction d k v rule: obj_set.induct) auto

lemma distinct_keys_obj_set [simp, intro]:
  "distinct (obj_keys d) \<Longrightarrow> distinct (obj_keys (obj_set d k v))"
  by (induction d k v rule: obj_set.induct) auto

lemma distinct_keys_obj_del [simp, intro]:
  "distinct (obj_keys d) \<Longrightarrow> distinct (obj_keys (obj_del d k))"
  unfolding obj_del_def by (induction d) (auto simp: image_iff)

lemma obj_keys_set_present:
  "k \<in> fst ` set d \<Longrightarrow> obj_keys (obj_set d k v) = obj_keys d"
  by (induction d k v rule: obj_set.induct) auto

lemma obj_keys_set_absent:
  "k \<notin> fst ` set d \<Longrightarrow> obj_set d k v = d @ [(k, v)]"
  by (induction d k v rule: obj_set.induct) auto

lemma obj_set_idem [simp]: "obj_set (obj_set d k v) k w = obj_set d k w"
  by (induction d k v rule: obj_set.induct) auto

lemma obj_set_same: "obj_get d k = Some v \<Longrightarrow> obj_set d k v = d"
  by (induction d k v rule: obj_set.induct) (auto split: if_splits)

lemma obj_del_absent: "k \<notin> fst ` set d \<Longrightarrow> obj_del d k = d"
  unfolding obj_del_def by (rule filter_True) (force simp: image_iff)

lemma obj_del_idem [simp]: "obj_del (obj_del d k) k = obj_del d k"
  unfolding obj_del_def by simp

text \<open>\<open>{...d, ...e}\<close>\<close>

fun obj_merge :: "'v obj \<Rightarrow> 'v obj \<Rightarrow> 'v obj" where
  "obj_merge d [] = d"
| "obj_merge d ((k, v) # e) = obj_merge (obj_set d k v) e"

lemma obj_get_merge:
  "distinct (obj_keys e) \<Longrightarrow>
   obj_get (obj_merge d e) k = (case obj_get e k of None \<Rightarrow> obj_get d k | Some v \<Rightarrow> Some v)"
proof (induction d e rule: obj_merge.induct)
  case (2 d k' v e)
  have "k' = k \<Longrightarrow> obj_get e k = None"
    using 2(2) by (auto simp: map_of_eq_None_iff)
  then show ?case using 2 by (auto split: option.splits)
qed simp

lemma obj_keys_merge_present:
  "set (obj_keys e) \<subseteq> set (obj_keys d) \<Longrightarrow> obj_keys (obj_merge d e) = obj_keys d"
  by (induction d e rule: obj_merge.induct) (auto simp: obj_keys_set_present)

lemma set_keys_merge: "set (obj_keys (obj_merge d e)) = set (obj_keys d) \<union> set (obj_keys e)"
  by (induction d e rule: obj_merge.induct) auto

lemma distinct_merge: "distinct (obj_keys d) \<Longrightarrow> distinct (obj_keys (obj_merge d e))"
  by (induction d e rule: obj_merge.induct) (auto simp: distinct_keys_obj_set)

lemma obj_get_present: "k \<in> set (obj_keys d) \<Longrightarrow> \<exists>v. obj_get d k = Some v"
  by (metis map_of_eq_None_iff not_None_eq set_map)

text \<open>Two objects with the same keys in the same order and the same values are equal.\<close>

lemma obj_eqI:
  assumes "obj_keys d = obj_keys e" "distinct (obj_keys d)" "obj_get d = obj_get e"
  shows "d = e"
  using assms
proof (induction d arbitrary: e)
  case (Cons p d)
  obtain k v where p: "p = (k, v)" by (cases p)
  obtain v' e' where e: "e = (k, v') # e'"
    using Cons.prems(1) p by (cases e) auto
  have "v' = v"
    using fun_cong [OF Cons.prems(3), of k] by (simp add: p e)
  moreover have "obj_get d = obj_get e'"
  proof
    fix k'
    have "obj_get d k = None" "obj_get e' k = None"
      using Cons.prems(1,2) by (auto simp: p e map_of_eq_None_iff simp flip: set_map)
    then show "obj_get d k' = obj_get e' k'"
      using fun_cong [OF Cons.prems(3), of k'] by (cases "k' = k") (auto simp: p e)
  qed
  ultimately show ?case
    using Cons.IH [of e'] Cons.prems by (simp add: p e)
qed simp

subsection \<open>Lists\<close>

lemma sum_list_map_filter_split:
  "(\<Sum>x\<leftarrow>xs. (f x::int)) = (\<Sum>x\<leftarrow>filter P xs. f x) + (\<Sum>x\<leftarrow>filter (\<lambda>x. \<not> P x) xs. f x)"
  by (induction xs) auto

lemma sum_list_nonneg_int: "(\<And>x. x \<in> set xs \<Longrightarrow> 0 \<le> (f x::int)) \<Longrightarrow> 0 \<le> (\<Sum>x\<leftarrow>xs. f x)"
  by (induction xs) (auto intro: add_nonneg_nonneg)

lemma sum_list_mono_int:
  "(\<And>x. x \<in> set xs \<Longrightarrow> (f x::int) \<le> g x) \<Longrightarrow> (\<Sum>x\<leftarrow>xs. f x) \<le> (\<Sum>x\<leftarrow>xs. g x)"
  by (induction xs) (auto intro: add_mono)

lemma distinct_map_remove1: "distinct (map f xs) \<Longrightarrow> distinct (map f (remove1 x xs))"
  by (induction xs) (auto dest: set_remove1_subset [THEN subsetD])

text \<open>Two sums over distinct keys that differ at one key by at most \<open>c\<close>.\<close>

lemma sum_list_one_key:
  assumes "distinct ks" "\<And>k. k \<in> set ks \<Longrightarrow> k \<noteq> j \<Longrightarrow> f k = g k" "f j \<le> g j + c" "0 \<le> (c::int)"
  shows "(\<Sum>k\<leftarrow>ks. f k) \<le> (\<Sum>k\<leftarrow>ks. g k) + c"
  using assms(1,2)
proof (induction ks)
  case (Cons k ks)
  show ?case
  proof (cases "k = j")
    case True
    then have "(\<Sum>k\<leftarrow>ks. f k) = (\<Sum>k\<leftarrow>ks. g k)"
      using Cons.prems by (intro arg_cong [where f = sum_list] map_cong) auto
    then show ?thesis using True assms(3) by simp
  next
    case False
    then show ?thesis using Cons by simp
  qed
qed (use assms(4) in simp)

subsection \<open>Transition systems\<close>

text \<open>
  The components with asynchronous callbacks are relations \<open>step s e s'\<close> on a state and an event;
  \<open>steps step s es s'\<close> is a run. An invariant of the steps is an invariant of the runs; a
  stronger one may hold for the runs of some events only.
\<close>

inductive steps :: "('s \<Rightarrow> 'e \<Rightarrow> 's \<Rightarrow> bool) \<Rightarrow> 's \<Rightarrow> 'e list \<Rightarrow> 's \<Rightarrow> bool" for step where
  none: "steps step s [] s"
| more: "steps step s es s' \<Longrightarrow> step s' e s'' \<Longrightarrow> steps step s (es @ [e]) s''"

locale invariant_system =
  fixes step :: "'s \<Rightarrow> 'e \<Rightarrow> 's \<Rightarrow> bool" and inv :: "'s \<Rightarrow> bool"
  assumes step_inv: "step s e s' \<Longrightarrow> inv s \<Longrightarrow> inv s'"
begin

lemma run_inv: "steps step s es s' \<Longrightarrow> inv s \<Longrightarrow> inv s'"
  by (induction rule: steps.induct) (auto intro: step_inv)

end

locale guarded_invariant = invariant_system +
  fixes allowed :: "'e \<Rightarrow> bool" and extra :: "'s \<Rightarrow> bool"
  assumes step_extra: "step s e s' \<Longrightarrow> inv s \<Longrightarrow> extra s \<Longrightarrow> allowed e \<Longrightarrow> extra s'"
begin

lemma run_extra:
  "steps step s es s' \<Longrightarrow> inv s \<Longrightarrow> extra s \<Longrightarrow> (\<And>e. e \<in> set es \<Longrightarrow> allowed e) \<Longrightarrow> inv s' \<and> extra s'"
  by (induction rule: steps.induct) (auto intro: step_inv step_extra)

end

end
