(* ===== verification/Breaker.thy ===== *)
theory Breaker
  imports Js_Prelude
begin

text \<open>
  The circuit breaker of the concurrency gate, \<open>src/limiter/circuit-breaker.ts\<close>: its state
  (\<open>closed\<close>, \<open>open\<close>, \<open>half_open\<close>), the window of recorded 429 responses and the
  single-flight probe. Every use of \<open>Date.now()\<close> is an explicit argument \<open>now\<close>.
\<close>

subsection \<open>State and operations\<close>

datatype breaker_state = Closed | Opened | HalfOpen

datatype kind429 = Concurrency | RateLimit | GatewayCdn

record breaker =
  br_state :: breaker_state
  br_429s :: "int list"
  br_opened_at :: int
  br_threshold :: int
  br_window_ms :: int
  br_cooldown_ms :: int
  br_probe_started :: bool

definition new_breaker :: "int \<Rightarrow> int \<Rightarrow> int \<Rightarrow> breaker" where
  "new_breaker threshold windowMs cooldownMs =
     \<lparr>br_state = Closed, br_429s = [], br_opened_at = 0, br_threshold = threshold,
      br_window_ms = windowMs, br_cooldown_ms = cooldownMs, br_probe_started = False\<rparr>"

definition br_prune :: "int \<Rightarrow> int \<Rightarrow> int list \<Rightarrow> int list" where
  "br_prune window now ts = filter (\<lambda>t. now - t < window) ts"

definition br_reconfigure ::
    "int \<Rightarrow> int option \<Rightarrow> int option \<Rightarrow> int option \<Rightarrow> breaker \<Rightarrow> breaker" where
  "br_reconfigure now threshold windowMs cooldownMs b =
     (let b1 = (case threshold of None \<Rightarrow> b | Some v \<Rightarrow> b\<lparr>br_threshold := v\<rparr>);
          b2 = (case windowMs of None \<Rightarrow> b1 | Some v \<Rightarrow> b1\<lparr>br_window_ms := v\<rparr>);
          b3 = (case cooldownMs of None \<Rightarrow> b2 | Some v \<Rightarrow> b2\<lparr>br_cooldown_ms := v\<rparr>)
      in b3\<lparr>br_429s := br_prune (br_window_ms b3) now (br_429s b3)\<rparr>)"

definition maybe_half_open :: "int \<Rightarrow> breaker \<Rightarrow> breaker \<times> breaker_state" where
  "maybe_half_open now b =
     (if br_state b = Opened then
        (if br_probe_started b then (b, Opened)
         else if now - br_opened_at b \<ge> br_cooldown_ms b
           then (b\<lparr>br_probe_started := True, br_state := HalfOpen\<rparr>, HalfOpen)
           else (b, br_state b))
      else if br_state b = HalfOpen \<and> br_probe_started b then (b, Opened)
      else (b, br_state b))"

definition record_429 :: "int \<Rightarrow> kind429 \<Rightarrow> breaker \<Rightarrow> breaker" where
  "record_429 now kind b =
     (if kind \<noteq> Concurrency then b
      else let b1 = b\<lparr>br_429s := br_prune (br_window_ms b) now (br_429s b @ [now])\<rparr>
           in if int (length (br_429s b1)) \<ge> br_threshold b1
              then (if br_state b1 = Closed \<or> br_state b1 = HalfOpen
                    then b1\<lparr>br_state := Opened, br_opened_at := now, br_probe_started := False\<rparr>
                    else b1)
              else b1)"

definition record_success :: "breaker \<Rightarrow> breaker" where
  "record_success b =
     (if br_state b = HalfOpen
      then b\<lparr>br_state := Closed, br_429s := [], br_probe_started := False\<rparr> else b)"

definition reset_half_open_probe :: "int \<Rightarrow> breaker \<Rightarrow> breaker" where
  "reset_half_open_probe now b =
     (if br_state b = HalfOpen \<and> br_probe_started b
      then b\<lparr>br_probe_started := False, br_state := Opened, br_opened_at := now\<rparr> else b)"

lemmas breaker_defs = new_breaker_def br_prune_def br_reconfigure_def maybe_half_open_def
  record_429_def record_success_def reset_half_open_probe_def

subsection \<open>The breaker as a state machine\<close>

text \<open>
  \<open>BAcquire\<close> is the call \<open>maybeHalfOpen()\<close> that every \<open>acquire\<close> of the gate begins with.
\<close>

datatype breaker_event =
    BAcquire int
  | B429 int kind429
  | BSuccess
  | BProbeReset int
  | BReconfigure int "int option" "int option" "int option"

fun breaker_step :: "breaker \<Rightarrow> breaker_event \<Rightarrow> breaker" where
  "breaker_step b (BAcquire now) = fst (maybe_half_open now b)"
| "breaker_step b (B429 now kind) = record_429 now kind b"
| "breaker_step b BSuccess = record_success b"
| "breaker_step b (BProbeReset now) = reset_half_open_probe now b"
| "breaker_step b (BReconfigure now t w c) = br_reconfigure now t w c b"

definition breaker_run :: "breaker \<Rightarrow> breaker_event list \<Rightarrow> breaker" where
  "breaker_run = foldl breaker_step"

text \<open>The probe flag and the half-open state always go together.\<close>

definition breaker_inv :: "breaker \<Rightarrow> bool" where
  "breaker_inv b = (br_probe_started b = (br_state b = HalfOpen))"

lemma breaker_inv_new [simp]: "breaker_inv (new_breaker t w c)"
  by (simp add: breaker_inv_def new_breaker_def)

lemma breaker_step_inv: "breaker_inv b \<Longrightarrow> breaker_inv (breaker_step b e)"
  by (cases e) (auto simp: breaker_inv_def breaker_defs Let_def split: option.splits)

lemma breaker_run_inv: "breaker_inv b \<Longrightarrow> breaker_inv (breaker_run b es)"
  by (induction es arbitrary: b) (auto simp: breaker_run_def dest: breaker_step_inv)

subsection \<open>Tripping and the single-flight probe\<close>

lemma record_429_opened [simp]: "br_state b = Opened \<Longrightarrow> br_state (record_429 now k b) = Opened"
  by (simp add: record_429_def Let_def)

lemma run_429_opened:
  "br_state b = Opened \<Longrightarrow>
   br_state (breaker_run b (map (\<lambda>t. B429 t Concurrency) ts)) = Opened"
  by (induction ts arbitrary: b) (simp_all add: breaker_run_def)

lemma breaker_run_Cons [simp]: "breaker_run b (e # es) = breaker_run (breaker_step b e) es"
  by (simp add: breaker_run_def)

lemma breaker_run_Nil [simp]: "breaker_run b [] = b"
  by (simp add: breaker_run_def)

text \<open>While the breaker stays closed, every 429 of a burst inside the window is remembered.\<close>

lemma run_429_trips:
  assumes "br_state b = Closed"
    "\<forall>t\<in>set (br_429s b) \<union> set ts. \<forall>u\<in>set ts. u - t < br_window_ms b"
    "int (length (br_429s b) + length ts) \<ge> br_threshold b" "ts \<noteq> []"
  shows "br_state (breaker_run b (map (\<lambda>t. B429 t Concurrency) ts)) = Opened"
  using assms
proof (induction ts arbitrary: b)
  case (Cons t ts)
  let ?b = "record_429 t Concurrency b"
  have keep: "br_prune (br_window_ms b) t (br_429s b @ [t]) = br_429s b @ [t]"
    unfolding br_prune_def by (rule filter_True) (use Cons.prems(2) in auto)
  show ?case
  proof (cases "br_state ?b = Opened")
    case True
    then show ?thesis using run_429_opened by simp
  next
    case False
    then have b: "br_state ?b = Closed" "br_429s ?b = br_429s b @ [t]"
      "br_window_ms ?b = br_window_ms b" "br_threshold ?b = br_threshold b"
      and small: "int (length (br_429s b) + 1) < br_threshold b"
      using Cons.prems(1) keep by (auto simp: record_429_def Let_def split: if_splits)
    then have "ts \<noteq> []" using Cons.prems(3) by auto
    then show ?thesis
      using Cons.IH [of ?b] b Cons.prems by auto
  qed
qed simp

text \<open>
  The breaker trips. If a closed breaker sees, within one window, at least
  \<open>threshold\<close> 429 responses of the kind \<open>concurrency\<close> (those it remembers and the new
  ones together), it is open afterwards.
\<close>

theorem breaker_trips:
  assumes "br_state b = Closed" "ts \<noteq> []"
    "\<forall>t\<in>set (br_429s b) \<union> set ts. \<forall>u\<in>set ts. u - t < br_window_ms b"
    "int (length (br_429s b) + length ts) \<ge> br_threshold b"
  shows "br_state (breaker_run b (map (\<lambda>t. B429 t Concurrency) ts)) = Opened"
  using run_429_trips assms by blast

theorem breaker_trips_witness:
  "br_state (breaker_run (new_breaker 3 1000 500)
     (map (\<lambda>t. B429 t Concurrency) [10, 20, 30])) = Opened"
  by (rule breaker_trips) (simp_all add: new_breaker_def)

text \<open>Events that leave a probe in flight: everything but its success, its 429, its reset.\<close>

fun leaves_probe :: "breaker_event \<Rightarrow> bool" where
  "leaves_probe BSuccess = False"
| "leaves_probe (B429 now kind) = (kind \<noteq> Concurrency)"
| "leaves_probe (BProbeReset now) = False"
| "leaves_probe _ = True"

lemma leaves_probe_step:
  "breaker_inv b \<Longrightarrow> br_state b = HalfOpen \<Longrightarrow> leaves_probe e \<Longrightarrow>
   breaker_inv (breaker_step b e) \<and> br_state (breaker_step b e) = HalfOpen"
  by (cases e) (auto simp: breaker_inv_def breaker_defs Let_def split: option.splits)

lemma leaves_probe_run:
  "breaker_inv b \<Longrightarrow> br_state b = HalfOpen \<Longrightarrow> \<forall>e\<in>set es. leaves_probe e \<Longrightarrow>
   breaker_inv (breaker_run b es) \<and> br_state (breaker_run b es) = HalfOpen"
proof (induction es arbitrary: b)
  case (Cons e es)
  then show ?case using leaves_probe_step [of b e] by simp
qed simp

lemma half_open_rejects:
  "breaker_inv b \<Longrightarrow> br_state b = HalfOpen \<Longrightarrow> maybe_half_open now b = (b, Opened)"
  by (simp add: maybe_half_open_def breaker_inv_def)

text \<open>
  The probe is single-flight. An open breaker lets exactly one caller through as
  \<open>half_open\<close>, the first one after the cooldown; before the cooldown and after that caller,
  every other caller sees \<open>open\<close>, however much time passes, until a success closes the
  breaker, a concurrency 429 is recorded or the probe is reset.
\<close>

theorem probe_single_flight:
  assumes inv: "breaker_inv b" and opened: "br_state b = Opened"
    and es: "\<forall>e\<in>set es. leaves_probe e"
  shows "(now < br_opened_at b + br_cooldown_ms b \<longrightarrow> maybe_half_open now b = (b, Opened)) \<and>
    (br_opened_at b + br_cooldown_ms b \<le> now \<longrightarrow>
      snd (maybe_half_open now b) = HalfOpen \<and>
      snd (maybe_half_open later (breaker_run (fst (maybe_half_open now b)) es)) = Opened)"
proof (rule conjI)
  show "now < br_opened_at b + br_cooldown_ms b \<longrightarrow> maybe_half_open now b = (b, Opened)"
    using inv opened by (auto simp: maybe_half_open_def breaker_inv_def)
  have flag: "\<not> br_probe_started b" using inv opened by (simp add: breaker_inv_def)
  let ?p = "b\<lparr>br_probe_started := True, br_state := HalfOpen\<rparr>"
  have "breaker_inv ?p" "br_state ?p = HalfOpen" by (simp_all add: breaker_inv_def)
  from leaves_probe_run [OF this es]
  have "snd (maybe_half_open later (breaker_run ?p es)) = Opened"
    by (simp add: half_open_rejects)
  then show "br_opened_at b + br_cooldown_ms b \<le> now \<longrightarrow>
      snd (maybe_half_open now b) = HalfOpen \<and>
      snd (maybe_half_open later (breaker_run (fst (maybe_half_open now b)) es)) = Opened"
    using opened flag by (auto simp: maybe_half_open_def)
qed

definition tripped_breaker :: breaker where
  "tripped_breaker = breaker_run (new_breaker 1 1000 500) [B429 10 Concurrency]"

theorem probe_single_flight_witness:
  "br_state tripped_breaker = Opened \<and>
   maybe_half_open 20 tripped_breaker = (tripped_breaker, Opened) \<and>
   snd (maybe_half_open 900 tripped_breaker) = HalfOpen \<and>
   snd (maybe_half_open 5000 (breaker_run (fst (maybe_half_open 900 tripped_breaker))
     [BAcquire 901, B429 902 RateLimit, BAcquire 4000])) = Opened"
proof -
  have b: "breaker_inv tripped_breaker"
    unfolding tripped_breaker_def by (intro breaker_run_inv breaker_inv_new)
  have o: "br_state tripped_breaker = Opened"
    "br_opened_at tripped_breaker = 10" "br_cooldown_ms tripped_breaker = 500"
    by (simp_all add: tripped_breaker_def breaker_defs)
  note single = probe_single_flight [OF b o(1), of  "[BAcquire 901, B429 902 RateLimit, BAcquire 4000]"]
  show ?thesis using single [of 20] single [of 900 5000] o by simp
qed

end
