(* ===== verification/Semaphore.thy ===== *)
theory Semaphore
  imports Js_Prelude
begin

text \<open>
  The weighted semaphore of the concurrency gate, class \<open>Semaphore\<close> of
  \<open>src/limiter/gate.ts\<close>: scaled counters, the waiter queue, per-intention reservations and
  the batched release cooldown. One definition per method, in the order of the class.

  A waiter is identified by \<open>w_id\<close> (the code compares object references). Resolving a waiter's
  promise is the caller's business: a drain returns the waiters it granted, in order. The set
  \<open>cooldownTimers\<close> holds exactly the release timer, so both are the one flag
  \<open>sem_timer_armed\<close>. The share of an over-subscribed reservation is computed on exact
  rationals where the code divides doubles.
\<close>

subsection \<open>Data\<close>

definition SCALE :: int where
  "SCALE = 1000"

record waiter =
  w_id :: nat
  w_enqueued_at :: int
  w_weight :: int
  w_intention :: string
  w_was_probe :: bool

record gate_options =
  o_hard_cap :: rat
  o_soft_limit :: rat
  o_release_cooldown_ms :: int
  o_breaker_threshold :: int
  o_breaker_window_ms :: int
  o_breaker_cooldown_ms :: int
  o_max_queue_depth :: int
  o_queue_timeout_ms :: int
  o_intentions :: "rat obj option"

record partial_options =
  po_release_cooldown_ms :: "int option"
  po_breaker_threshold :: "int option"
  po_breaker_window_ms :: "int option"
  po_breaker_cooldown_ms :: "int option"
  po_max_queue_depth :: "int option"
  po_queue_timeout_ms :: "int option"
  po_intentions :: "rat obj option"

record semaphore =
  sem_active :: int
  sem_limit :: int
  sem_hard_cap :: int
  sem_soft_limit :: int
  sem_release_cooldown_ms :: int
  sem_max_queue_depth :: int
  sem_queue_timeout_ms :: int
  sem_waiters :: "waiter list"
  sem_reservations :: "int obj"
  sem_active_by :: "int obj"
  sem_queued_by :: "int obj"
  sem_pending :: "(int \<times> string) list"
  sem_timer_armed :: bool
  sem_shutdown :: bool

subsection \<open>Construction and reconfiguration\<close>

definition scale_reservations :: "rat obj \<Rightarrow> int obj" where
  "scale_reservations src = map (\<lambda>(k, r). (k, js_round (r * of_int SCALE))) src"

definition new_semaphore :: "gate_options \<Rightarrow> semaphore" where
  "new_semaphore opts =
     (let hardCap = max 1 \<lfloor>o_hard_cap opts\<rfloor> * SCALE;
          softLimit = max 1 \<lfloor>o_soft_limit opts\<rfloor> * SCALE;
          src = (case o_intentions opts of None \<Rightarrow> [(''main'', 1)] | Some i \<Rightarrow> i);
          res = scale_reservations src
      in \<lparr>sem_active = 0, sem_limit = max SCALE (min softLimit hardCap),
          sem_hard_cap = hardCap, sem_soft_limit = softLimit,
          sem_release_cooldown_ms = o_release_cooldown_ms opts,
          sem_max_queue_depth = o_max_queue_depth opts,
          sem_queue_timeout_ms = o_queue_timeout_ms opts,
          sem_waiters = [], sem_reservations = res,
          sem_active_by = map (\<lambda>k. (k, 0)) (obj_keys res),
          sem_queued_by = map (\<lambda>k. (k, 0)) (obj_keys res),
          sem_pending = [], sem_timer_armed = False, sem_shutdown = False\<rparr>)"

fun ensure_zero :: "string list \<Rightarrow> int obj \<Rightarrow> int obj" where
  "ensure_zero [] d = d"
| "ensure_zero (k # ks) d =
     ensure_zero ks (case obj_get d k of None \<Rightarrow> obj_set d k 0 | Some _ \<Rightarrow> d)"

definition sem_reconfigure :: "partial_options \<Rightarrow> semaphore \<Rightarrow> semaphore" where
  "sem_reconfigure opts s =
     (let s1 = (case po_release_cooldown_ms opts of None \<Rightarrow> s
                | Some v \<Rightarrow> s\<lparr>sem_release_cooldown_ms := v\<rparr>);
          s2 = (case po_max_queue_depth opts of None \<Rightarrow> s1
                | Some v \<Rightarrow> s1\<lparr>sem_max_queue_depth := v\<rparr>);
          s3 = (case po_queue_timeout_ms opts of None \<Rightarrow> s2
                | Some v \<Rightarrow> s2\<lparr>sem_queue_timeout_ms := v\<rparr>)
      in case po_intentions opts of None \<Rightarrow> s3
         | Some i \<Rightarrow>
             (let res = scale_reservations i
              in s3\<lparr>sem_reservations := res,
                    sem_active_by := ensure_zero (obj_keys res) (sem_active_by s3),
                    sem_queued_by := ensure_zero (obj_keys res) (sem_queued_by s3)\<rparr>))"

subsection \<open>Admission: reservations, capacity, canGrant\<close>

definition reservation_share :: "int \<Rightarrow> int \<Rightarrow> int \<Rightarrow> int" where
  "reservation_share r sumRes bound = \<lfloor>(rat_of_int r / rat_of_int sumRes) * rat_of_int bound\<rfloor>"

fun split_reservations :: "int \<Rightarrow> int \<Rightarrow> int \<Rightarrow> int obj \<Rightarrow> int obj" where
  "split_reservations bound sumRes remaining [] = []"
| "split_reservations bound sumRes remaining ((k, r) # d) =
     (let scaled = reservation_share r sumRes bound;
          v = max 0 (min scaled remaining)
      in (k, v) # split_reservations bound sumRes (remaining - v) d)"

definition effective_reservations :: "semaphore \<Rightarrow> int obj" where
  "effective_reservations s =
     (let sumRes = (\<Sum>k\<leftarrow>obj_keys (sem_reservations s). obj_num (sem_reservations s) k)
      in if sumRes \<le> sem_limit s then sem_reservations s
         else split_reservations (sem_limit s) sumRes (sem_limit s) (sem_reservations s))"

definition reserved_for_others :: "semaphore \<Rightarrow> string \<Rightarrow> int obj \<Rightarrow> int" where
  "reserved_for_others s intention effRes =
     (\<Sum>k\<leftarrow>obj_keys effRes.
        if k = intention then 0
        else if obj_num (sem_active_by s) k + obj_num (sem_queued_by s) k = 0 then 0
        else max 0 (obj_num effRes k - obj_num (sem_active_by s) k))"

definition capacity :: "semaphore \<Rightarrow> string \<Rightarrow> int obj \<Rightarrow> int" where
  "capacity s intention effRes = sem_limit s - reserved_for_others s intention effRes"

definition over_subscribed :: "semaphore \<Rightarrow> bool" where
  "over_subscribed s =
     list_ex (\<lambda>k. obj_num (sem_reservations s) k > obj_num (effective_reservations s) k)
       (obj_keys (sem_reservations s))"

definition can_grant :: "semaphore \<Rightarrow> string \<Rightarrow> int \<Rightarrow> bool" where
  "can_grant s intention weight =
     (let effRes = effective_reservations s;
          reserved = obj_num effRes intention
      in if sem_active s + weight > sem_limit s then False
         else if obj_num (sem_active_by s) intention + weight \<le> reserved then True
         else if over_subscribed s then sem_active s + weight \<le> sem_limit s
         else sem_active s + weight \<le> capacity s intention effRes)"

definition grant :: "int \<Rightarrow> string \<Rightarrow> semaphore \<Rightarrow> semaphore" where
  "grant weight intention s =
     s\<lparr>sem_active := sem_active s + weight,
       sem_active_by := obj_set (sem_active_by s) intention
                          (obj_num (sem_active_by s) intention + weight)\<rparr>"

subsection \<open>The queue\<close>

definition enqueue :: "waiter \<Rightarrow> semaphore \<Rightarrow> semaphore \<times> bool" where
  "enqueue w s =
     (if int (length (sem_waiters s)) \<ge> sem_max_queue_depth s then (s, False)
      else (s\<lparr>sem_waiters := sem_waiters s @ [w],
              sem_queued_by := obj_set (sem_queued_by s) (w_intention w)
                                 (obj_num (sem_queued_by s) (w_intention w) + 1)\<rparr>, True))"

definition dec_queued :: "string \<Rightarrow> semaphore \<Rightarrow> semaphore" where
  "dec_queued intention s =
     s\<lparr>sem_queued_by := obj_set (sem_queued_by s) intention
                          (max 0 (obj_num (sem_queued_by s) intention - 1))\<rparr>"

definition remove_waiter :: "nat \<Rightarrow> semaphore \<Rightarrow> semaphore \<times> bool" where
  "remove_waiter wid s =
     (case find (\<lambda>w. w_id w = wid) (sem_waiters s) of
        None \<Rightarrow> (s, False)
      | Some w \<Rightarrow>
          (dec_queued (w_intention w) (s\<lparr>sem_waiters := remove1 w (sem_waiters s)\<rparr>), True))"

fun drain_loop :: "semaphore \<Rightarrow> waiter list \<Rightarrow> semaphore \<times> waiter list \<times> waiter list" where
  "drain_loop s [] = (s, [], [])"
| "drain_loop s (w # ws) =
     (if \<not> can_grant s (w_intention w) (w_weight w)
      then (let (s', remaining, granted) = drain_loop s ws in (s', w # remaining, granted))
      else (let (s', remaining, granted) =
                  drain_loop (grant (w_weight w) (w_intention w) (dec_queued (w_intention w) s)) ws
            in (s', remaining, w # granted)))"

definition drain_waiters :: "semaphore \<Rightarrow> semaphore \<times> waiter list" where
  "drain_waiters s =
     (if sem_waiters s = [] then (s, [])
      else (let (s', remaining, granted) = drain_loop s (sem_waiters s)
            in (s'\<lparr>sem_waiters := remaining\<rparr>, granted)))"

subsection \<open>Resizing\<close>

text \<open>
  \<open>resize\<close> has no test for NaN: a NaN argument would make the limit itself NaN, a state with
  no admission at all, which is the result \<open>None\<close>. The results are the new state, the value
  the method returns, and the waiters granted on the way.
\<close>

definition clamp_limit :: "jsnum \<Rightarrow> int \<Rightarrow> int option" where
  "clamp_limit newLimit hardCap =
     (case newLimit of
        Fin r \<Rightarrow> Some (max SCALE (min (js_round (r * of_int SCALE)) hardCap))
      | PInf \<Rightarrow> Some (max SCALE hardCap)
      | NInf \<Rightarrow> Some SCALE
      | NaN \<Rightarrow> None)"

definition resize :: "jsnum \<Rightarrow> semaphore \<Rightarrow> (semaphore \<times> bool \<times> waiter list) option" where
  "resize newLimit s =
     (case clamp_limit newLimit (sem_hard_cap s) of
        None \<Rightarrow> None
      | Some c \<Rightarrow>
          (if c = sem_limit s then Some (s, False, [])
           else (let (s', granted) = drain_waiters (s\<lparr>sem_limit := c\<rparr>)
                 in Some (s', True, granted))))"

definition safe_whole :: "jsnum \<Rightarrow> int" where
  "safe_whole x = (case x of Fin r \<Rightarrow> max 1 \<lfloor>r\<rfloor> | _ \<Rightarrow> 1)"

definition set_hard_cap :: "jsnum \<Rightarrow> semaphore \<Rightarrow> semaphore \<times> bool \<times> waiter list" where
  "set_hard_cap newHardCap s =
     (let cap = safe_whole newHardCap * SCALE
      in if cap = sem_hard_cap s then (s, False, [])
         else (let s1 = s\<lparr>sem_hard_cap := cap,
                           sem_soft_limit := (if sem_soft_limit s > cap then cap
                                              else sem_soft_limit s)\<rparr>;
                   (s2, granted) = (if sem_limit s1 > cap
                                    then drain_waiters (s1\<lparr>sem_limit := cap\<rparr>) else (s1, []))
               in (s2, True, granted)))"

definition set_soft_limit :: "jsnum \<Rightarrow> semaphore \<Rightarrow> semaphore \<times> bool" where
  "set_soft_limit newSoftLimit s =
     (let v = safe_whole newSoftLimit * SCALE
      in if v = sem_soft_limit s then (s, False) else (s\<lparr>sem_soft_limit := v\<rparr>, True))"

subsection \<open>Release and shutdown\<close>

definition release_permit :: "int \<Rightarrow> string \<Rightarrow> semaphore \<Rightarrow> semaphore" where
  "release_permit weight intention s =
     (if sem_shutdown s then s
      else (let s1 = s\<lparr>sem_pending := sem_pending s @ [(weight, intention)]\<rparr>
            in if \<not> sem_timer_armed s1 then s1\<lparr>sem_timer_armed := True\<rparr> else s1))"

fun return_batch :: "(int \<times> string) list \<Rightarrow> semaphore \<Rightarrow> semaphore" where
  "return_batch [] s = s"
| "return_batch ((weight, intention) # batch) s =
     return_batch batch
       (s\<lparr>sem_active := max 0 (sem_active s - weight),
          sem_active_by := obj_set (sem_active_by s) intention
                             (max 0 (obj_num (sem_active_by s) intention - weight))\<rparr>)"

definition release_timer_fire :: "semaphore \<Rightarrow> semaphore \<times> waiter list" where
  "release_timer_fire s =
     drain_waiters (return_batch (sem_pending s)
       (s\<lparr>sem_timer_armed := False, sem_pending := []\<rparr>))"

fun dec_all_queued :: "waiter list \<Rightarrow> semaphore \<Rightarrow> semaphore" where
  "dec_all_queued [] s = s"
| "dec_all_queued (w # ws) s = dec_all_queued ws (dec_queued (w_intention w) s)"

definition sem_shut_down :: "semaphore \<Rightarrow> semaphore \<times> waiter list" where
  "sem_shut_down s =
     (let s1 = s\<lparr>sem_shutdown := True, sem_timer_armed := False, sem_pending := []\<rparr>;
          s2 = dec_all_queued (sem_waiters s1) s1
      in (s2\<lparr>sem_waiters := [], sem_active := 0,
             sem_active_by := map (\<lambda>(k, _). (k, 0)) (sem_active_by s2)\<rparr>, sem_waiters s))"

subsection \<open>The runtime checks\<close>

text \<open>
  \<open>assertInvariants\<close> logs what it finds. Its integrality checks cannot fail here: the scaled
  counters are of type \<open>int\<close>.
\<close>

datatype gate_warning = LimitOutOfRange | TransientOverCap | NegativeActive

definition assert_invariants :: "semaphore \<Rightarrow> gate_warning list" where
  "assert_invariants s =
     (if \<not> (SCALE \<le> sem_limit s \<and> sem_limit s \<le> sem_hard_cap s) then [LimitOutOfRange] else []) @
     (if sem_active s > sem_hard_cap s then [TransientOverCap] else []) @
     (if sem_active s < 0 then [NegativeActive] else [])"

end
