(* ===== verification/Semaphore_Laws.thy ===== *)
theory Semaphore_Laws
  imports Semaphore
begin

text \<open>
  What the semaphore guarantees: the arithmetic of effective reservations, the invariant
  \<open>sem_wf\<close> kept by every method, and the laws of a drain (nothing grantable is left behind,
  first-in first-out inside an intention, progress of an idle gate).
\<close>

subsection \<open>Measures on waiter lists\<close>

definition qcount :: "waiter list \<Rightarrow> string \<Rightarrow> int" where
  "qcount ws k = int (length (filter (\<lambda>w. w_intention w = k) ws))"

definition wsum :: "waiter list \<Rightarrow> int" where
  "wsum ws = (\<Sum>w\<leftarrow>ws. w_weight w)"

definition wsum_by :: "waiter list \<Rightarrow> string \<Rightarrow> int" where
  "wsum_by ws k = wsum (filter (\<lambda>w. w_intention w = k) ws)"

lemma qcount_simps [simp]:
  "qcount [] k = 0"
  "qcount (w # ws) k = (if w_intention w = k then 1 else 0) + qcount ws k"
  "qcount (us @ ws) k = qcount us k + qcount ws k"
  by (simp_all add: qcount_def)

lemma qcount_nonneg: "0 \<le> qcount ws k"
  by (simp add: qcount_def)

lemma qcount_pos_iff: "0 < qcount ws k \<longleftrightarrow> (\<exists>w\<in>set ws. w_intention w = k)"
  by (auto simp: qcount_def filter_empty_conv)

lemma wsum_simps [simp]:
  "wsum [] = 0" "wsum (w # ws) = w_weight w + wsum ws" "wsum (us @ ws) = wsum us + wsum ws"
  by (simp_all add: wsum_def)

lemma wsum_by_simps [simp]:
  "wsum_by [] k = 0"
  "wsum_by (w # ws) k = (if w_intention w = k then w_weight w else 0) + wsum_by ws k"
  by (simp_all add: wsum_by_def)

lemma wsum_nonneg: "(\<And>w. w \<in> set ws \<Longrightarrow> 0 < w_weight w) \<Longrightarrow> 0 \<le> wsum ws"
  unfolding wsum_def by (intro sum_list_nonneg_int) force

lemma wsum_by_nonneg: "(\<And>w. w \<in> set ws \<Longrightarrow> 0 < w_weight w) \<Longrightarrow> 0 \<le> wsum_by ws k"
  unfolding wsum_by_def by (intro wsum_nonneg) auto

lemma qcount_remove1:
  "w \<in> set ws \<Longrightarrow> qcount (remove1 w ws) k = qcount ws k - (if w_intention w = k then 1 else 0)"
  by (induction ws) auto

subsection \<open>Effective reservations\<close>

definition total_reserved :: "semaphore \<Rightarrow> int" where
  "total_reserved s = (\<Sum>k\<leftarrow>obj_keys (sem_reservations s). obj_num (sem_reservations s) k)"

definition res_ok :: "int obj \<Rightarrow> bool" where
  "res_ok d = (distinct (obj_keys d) \<and> (\<forall>(k, r)\<in>set d. 0 \<le> r))"

lemma obj_num_in: "distinct (obj_keys d) \<Longrightarrow> (k, v) \<in> set d \<Longrightarrow> obj_num d k = v"
  by (simp add: obj_num_def)

lemma sum_obj_num:
  "distinct (obj_keys d) \<Longrightarrow> (\<Sum>k\<leftarrow>obj_keys d. obj_num d k) = (\<Sum>(k, v)\<leftarrow>d. v)"
proof -
  assume d: "distinct (obj_keys d)"
  have "map (obj_num d) (obj_keys d) = map (\<lambda>(k, v). v) d"
    using d by (auto simp: obj_num_in)
  then show ?thesis by (rule arg_cong)
qed

lemma obj_num_nonneg: "res_ok d \<Longrightarrow> 0 \<le> obj_num d k"
  unfolding res_ok_def obj_num_def by (auto split: option.splits dest!: map_of_SomeD)

lemma split_keys [simp]: "obj_keys (split_reservations b t r d) = obj_keys d"
  by (induction b t r d rule: split_reservations.induct) (auto simp: Let_def)

lemma split_nonneg: "(k, v) \<in> set (split_reservations b t r d) \<Longrightarrow> 0 \<le> v"
  by (induction b t r d rule: split_reservations.induct) (auto simp: Let_def)

lemma split_sum_le:
  "0 \<le> r \<Longrightarrow> (\<Sum>(k, v)\<leftarrow>split_reservations b t r d. v) \<le> r"
proof (induction d arbitrary: r)
  case (Cons kr d)
  obtain k q where kr: "kr = (k, q)" by force
  define v where "v = max 0 (min (reservation_share q t b) r)"
  have "v \<le> r" using Cons.prems by (simp add: v_def)
  then have "(\<Sum>(k, v)\<leftarrow>split_reservations b t (r - v) d. v) \<le> r - v"
    by (intro Cons.IH) simp
  then show ?case by (simp add: kr Let_def v_def [symmetric])
qed simp

lemma scaled_share_le:
  assumes "0 \<le> r" "b \<le> t" "0 < t"
  shows "reservation_share r t b \<le> r"
proof -
  have "(rat_of_int r / rat_of_int t) * rat_of_int b = rat_of_int r * (rat_of_int b / rat_of_int t)"
    by simp
  also have "\<dots> \<le> rat_of_int r * 1"
    using assms by (intro mult_left_mono) auto
  finally show ?thesis unfolding reservation_share_def by linarith
qed

lemma split_le_res:
  assumes "b \<le> t" "0 < t"
  shows "\<forall>(k, r)\<in>set d. 0 \<le> r \<Longrightarrow>
    list_all2 (\<lambda>(k, v) (k', r). k = k' \<and> v \<le> r) (split_reservations b t m d) d"
proof (induction d arbitrary: m)
  case (Cons kr d)
  obtain k q where kr: "kr = (k, q)" by force
  have "reservation_share q t b \<le> q" "0 \<le> q"
    using Cons.prems assms by (auto simp: kr intro!: scaled_share_le)
  then show ?case
    using Cons.IH Cons.prems by (simp add: kr Let_def min.coboundedI1)
qed simp

lemma effective_keys [simp]:
  "obj_keys (effective_reservations s) = obj_keys (sem_reservations s)"
  by (simp add: effective_reservations_def Let_def)

lemma effective_res_ok:
  "res_ok (sem_reservations s) \<Longrightarrow> res_ok (effective_reservations s)"
  unfolding res_ok_def effective_keys
  by (auto simp: effective_reservations_def Let_def dest: split_nonneg)

lemma effective_sum_le:
  assumes "res_ok (sem_reservations s)" "0 \<le> sem_limit s"
  shows "(\<Sum>k\<leftarrow>obj_keys (effective_reservations s). obj_num (effective_reservations s) k)
           \<le> sem_limit s"
proof (cases "total_reserved s \<le> sem_limit s")
  case True
  then show ?thesis by (simp add: effective_reservations_def total_reserved_def)
next
  case False
  then have eq: "effective_reservations s =
      split_reservations (sem_limit s) (total_reserved s) (sem_limit s) (sem_reservations s)"
    by (simp add: effective_reservations_def total_reserved_def)
  have d: "distinct (obj_keys (effective_reservations s))"
    using assms(1) by (simp add: res_ok_def)
  show ?thesis
    unfolding sum_obj_num [OF d] unfolding eq by (rule split_sum_le) (fact assms(2))
qed

lemma effective_le_reserved:
  assumes "res_ok (sem_reservations s)" "0 \<le> sem_limit s"
  shows "obj_num (effective_reservations s) k \<le> obj_num (sem_reservations s) k"
proof (cases "total_reserved s \<le> sem_limit s")
  case True
  then show ?thesis by (simp add: effective_reservations_def total_reserved_def)
next
  case False
  let ?E = "split_reservations (sem_limit s) (total_reserved s) (sem_limit s) (sem_reservations s)"
  have eq: "effective_reservations s = ?E"
    using False by (simp add: effective_reservations_def total_reserved_def)
  have all2: "list_all2 (\<lambda>(k, v) (k', r). k = k' \<and> v \<le> r) ?E (sem_reservations s)"
    using False assms by (intro split_le_res) (auto simp: res_ok_def)
  have gen: "list_all2 (\<lambda>(k, v) (k', r). k = k' \<and> v \<le> r) E d \<Longrightarrow> obj_num E k \<le> obj_num d k"
    for E d :: "int obj"
    by (induction rule: list_all2_induct) (auto simp: obj_num_def)
  show ?thesis unfolding eq by (rule gen [OF all2])
qed

text \<open>
  \<open>canGrant\<close> looks for a reservation that the proportional split reduced; there is one exactly
  when the raw reservations add up to more than the limit.
\<close>

lemma over_subscribed_iff:
  assumes "res_ok (sem_reservations s)" "0 \<le> sem_limit s"
  shows "over_subscribed s \<longleftrightarrow> sem_limit s < total_reserved s"
proof
  assume "over_subscribed s"
  then show "sem_limit s < total_reserved s"
    by (rule contrapos_pp)
      (simp add: over_subscribed_def effective_reservations_def total_reserved_def
        Let_def list_ex_iff)
next
  assume big: "sem_limit s < total_reserved s"
  show "over_subscribed s"
  proof (rule ccontr)
    assume "\<not> over_subscribed s"
    then have "total_reserved s \<le>
        (\<Sum>k\<leftarrow>obj_keys (sem_reservations s). obj_num (effective_reservations s) k)"
      unfolding total_reserved_def
      by (intro sum_list_mono_int) (auto simp: over_subscribed_def list_ex_iff not_less)
    also have "\<dots> \<le> sem_limit s" using effective_sum_le [OF assms] by simp
    finally show False using big by simp
  qed
qed

lemma reserved_for_others_nonneg: "0 \<le> reserved_for_others s i e"
  unfolding reserved_for_others_def by (intro sum_list_nonneg_int) auto

lemma can_grant_within_limit: "can_grant s i w \<Longrightarrow> sem_active s + w \<le> sem_limit s"
  by (auto simp: can_grant_def Let_def split: if_splits)

lemma can_grant_iff:
  "can_grant s i w \<longleftrightarrow>
     sem_active s + w \<le> sem_limit s \<and>
     (obj_num (sem_active_by s) i + w \<le> obj_num (effective_reservations s) i
      \<or> over_subscribed s
      \<or> sem_active s + w \<le> capacity s i (effective_reservations s))"
  by (auto simp: can_grant_def Let_def)

lemma can_grant_weight_mono: "can_grant s i w' \<Longrightarrow> w \<le> w' \<Longrightarrow> can_grant s i w"
  by (auto simp: can_grant_iff)

subsection \<open>One admission\<close>

definition admit :: "waiter \<Rightarrow> semaphore \<Rightarrow> semaphore" where
  "admit w s = grant (w_weight w) (w_intention w) (dec_queued (w_intention w) s)"

lemma admit_fields [simp]:
  "sem_active (admit w s) = sem_active s + w_weight w"
  "sem_limit (admit w s) = sem_limit s"
  "sem_hard_cap (admit w s) = sem_hard_cap s"
  "sem_reservations (admit w s) = sem_reservations s"
  "sem_waiters (admit w s) = sem_waiters s"
  "sem_pending (admit w s) = sem_pending s"
  "sem_timer_armed (admit w s) = sem_timer_armed s"
  "sem_shutdown (admit w s) = sem_shutdown s"
  "obj_num (sem_active_by (admit w s)) k =
     obj_num (sem_active_by s) k + (if w_intention w = k then w_weight w else 0)"
  "obj_num (sem_queued_by (admit w s)) k =
     (if w_intention w = k then max 0 (obj_num (sem_queued_by s) k - 1)
      else obj_num (sem_queued_by s) k)"
  by (auto simp: admit_def grant_def dec_queued_def)

lemma effective_cong:
  "sem_limit s' = sem_limit s \<Longrightarrow> sem_reservations s' = sem_reservations s \<Longrightarrow>
   effective_reservations s' = effective_reservations s"
  by (simp only: effective_reservations_def)

lemma over_subscribed_cong:
  "sem_limit s' = sem_limit s \<Longrightarrow> sem_reservations s' = sem_reservations s \<Longrightarrow>
   over_subscribed s' = over_subscribed s"
  using effective_cong [of s' s] by (simp add: over_subscribed_def)

text \<open>The conditions under which a drain of the list \<open>ws\<close> runs.\<close>

definition drainable :: "semaphore \<Rightarrow> waiter list \<Rightarrow> bool" where
  "drainable s ws =
     (res_ok (sem_reservations s) \<and> 0 \<le> sem_limit s \<and>
      (\<forall>k. 0 \<le> obj_num (sem_active_by s) k) \<and>
      (\<forall>k. qcount ws k \<le> obj_num (sem_queued_by s) k) \<and>
      (\<forall>w\<in>set ws. 0 < w_weight w))"

lemma drainable_queued:
  "drainable s (w # ws) \<Longrightarrow>
   qcount ws k + (if w_intention w = k then 1 else 0) \<le> obj_num (sem_queued_by s) k"
  by (auto simp: drainable_def dest!: spec [where x = k])

lemma drainable_queued_pos:
  assumes "drainable s (w # ws)"
  shows "0 < obj_num (sem_queued_by s) (w_intention w)"
proof -
  have "0 \<le> qcount ws (w_intention w)" by (rule qcount_nonneg)
  then show ?thesis using drainable_queued [OF assms, of "w_intention w"] by simp
qed

lemma drainable_tl:
  assumes "drainable s (w # ws)"
  shows "drainable s ws"
proof -
  have "qcount ws k \<le> obj_num (sem_queued_by s) k" for k
    using drainable_queued [OF assms, of k] by (simp split: if_splits)
  then show ?thesis
    using assms by (auto simp: drainable_def)
qed

lemma drainable_admit:
  assumes "drainable s (w # ws)"
  shows "drainable (admit w s) ws"
proof -
  have "qcount ws k \<le> obj_num (sem_queued_by (admit w s)) k" for k
    using drainable_queued [OF assms, of k] by (simp split: if_splits)
  then show ?thesis
    using assms by (auto simp: drainable_def)
qed

lemma reserved_for_others_admit:
  assumes "drainable s (w # ws)" "distinct (obj_keys e)"
  shows "reserved_for_others s i e \<le> reserved_for_others (admit w s) i e + w_weight w"
proof -
  let ?j = "w_intention w"
  have q: "0 < obj_num (sem_queued_by s) ?j" and a: "0 \<le> obj_num (sem_active_by s) ?j"
    and w: "0 < w_weight w"
    using assms(1) drainable_queued_pos [OF assms(1)] by (auto simp: drainable_def)
  show ?thesis
    unfolding reserved_for_others_def
    by (rule sum_list_one_key [where j = ?j]) (use assms(2) q a w in auto)
qed

text \<open>
  Granting a queued waiter never makes another admission possible: the capacity it takes is at
  least what it gives back to the others' reservations.
\<close>

lemma can_grant_antimono:
  assumes "drainable s (w # ws)" "can_grant (admit w s) i wt"
  shows "can_grant s i wt"
proof -
  have eff: "effective_reservations (admit w s) = effective_reservations s"
    and over: "over_subscribed (admit w s) = over_subscribed s"
    by (intro effective_cong over_subscribed_cong; simp)+
  have w: "0 < w_weight w" using assms(1) by (simp add: drainable_def)
  have d: "distinct (obj_keys (effective_reservations s))"
    using assms(1) by (simp add: drainable_def res_ok_def)
  show ?thesis
    using assms(2) reserved_for_others_admit [OF assms(1) d, of i] w
    unfolding can_grant_iff eff over capacity_def by (auto split: if_splits)
qed

subsection \<open>The drain loop\<close>

lemma drain_loop_frame:
  "drain_loop s ws = (s', r, g) \<Longrightarrow>
   s' = s\<lparr>sem_active := sem_active s', sem_active_by := sem_active_by s',
          sem_queued_by := sem_queued_by s'\<rparr>"
  by (induction s ws arbitrary: s' r g rule: drain_loop.induct)
    (auto simp: grant_def dec_queued_def split: prod.splits if_splits)

lemma drain_loop_same:
  assumes "drain_loop s ws = (s', r, g)"
  shows "sem_limit s' = sem_limit s" "sem_hard_cap s' = sem_hard_cap s"
    "sem_soft_limit s' = sem_soft_limit s" "sem_reservations s' = sem_reservations s"
    "sem_waiters s' = sem_waiters s" "sem_pending s' = sem_pending s"
    "sem_timer_armed s' = sem_timer_armed s" "sem_shutdown s' = sem_shutdown s"
    "sem_max_queue_depth s' = sem_max_queue_depth s"
  by (subst drain_loop_frame [OF assms], simp)+

lemma drain_loop_Cons_admit:
  "drain_loop s (w # ws) =
     (if \<not> can_grant s (w_intention w) (w_weight w)
      then (let (s', r, g) = drain_loop s ws in (s', w # r, g))
      else (let (s', r, g) = drain_loop (admit w s) ws in (s', r, w # g)))"
  by (simp add: admit_def)

lemma drain_loop_append:
  "drain_loop s (us @ vs) =
     (let (s1, r1, g1) = drain_loop s us; (s2, r2, g2) = drain_loop s1 vs
      in (s2, r1 @ r2, g1 @ g2))"
proof (induction us arbitrary: s)
  case (Cons u us)
  then show ?case
    by (simp add: drain_loop_Cons_admit del: drain_loop.simps(2) split: prod.split)
qed (simp split: prod.split)

text \<open>Every fact on a drain is proved for its head: the waiter is admitted or it stays.\<close>

lemma drain_loop_ConsE:
  assumes "drain_loop s (w # ws) = (s', r, g)"
  obtains
    (stays) r1 where "\<not> can_grant s (w_intention w) (w_weight w)"
      "drain_loop s ws = (s', r1, g)" "r = w # r1"
  | (admitted) g1 where "can_grant s (w_intention w) (w_weight w)"
      "drain_loop (admit w s) ws = (s', r, g1)" "g = w # g1"
  using assms
  by (auto simp: drain_loop_Cons_admit simp del: drain_loop.simps(2)
      split: if_splits prod.splits)

lemma drain_loop_sums:
  assumes "drain_loop s ws = (s', r, g)"
  shows "sem_active s' = sem_active s + wsum g"
    "obj_num (sem_active_by s') k = obj_num (sem_active_by s) k + wsum_by g k"
  using assms
proof (induction ws arbitrary: s s' r g)
  case (Cons w ws)
  { case 1 then show ?case
      by (elim drain_loop_ConsE) (auto dest: Cons.IH(1)) }
  { case 2 then show ?case
      by (elim drain_loop_ConsE) (auto dest: Cons.IH(2)) }
qed auto

lemma drain_loop_queued:
  "drain_loop s ws = (s', r, g) \<Longrightarrow> drainable s ws \<Longrightarrow>
   obj_num (sem_queued_by s') k = obj_num (sem_queued_by s) k - qcount g k"
proof (induction ws arbitrary: s s' r g)
  case (Cons w ws)
  from Cons.prems(1) show ?case
  proof (cases rule: drain_loop_ConsE)
    case stays
    then show ?thesis using Cons drainable_tl by blast
  next
    case (admitted g1)
    have "0 < obj_num (sem_queued_by s) (w_intention w)"
      by (rule drainable_queued_pos [OF Cons.prems(2)])
    then show ?thesis
      using Cons.IH [OF admitted(2) drainable_admit [OF Cons.prems(2)]] admitted(3) by auto
  qed
qed auto

lemma subseq_set_subset: "subseq xs ys \<Longrightarrow> x \<in> set xs \<Longrightarrow> x \<in> set ys"
  by (induction rule: list_emb.induct) auto

lemma subseq_distinct: "subseq xs ys \<Longrightarrow> distinct ys \<Longrightarrow> distinct xs"
  by (induction rule: list_emb.induct) (auto dest: subseq_set_subset)

lemma drain_loop_parts:
  "drain_loop s ws = (s', r, g) \<Longrightarrow>
     subseq r ws \<and> subseq g ws \<and> mset r + mset g = mset ws"
proof (induction ws arbitrary: s s' r g)
  case (Cons w ws)
  from Cons.prems show ?case
  proof (cases rule: drain_loop_ConsE)
    case (stays r1)
    then show ?thesis using Cons.IH [OF stays(2)] by (auto intro: list_emb_Cons)
  next
    case (admitted g1)
    then show ?thesis using Cons.IH [OF admitted(2)] by (auto intro: list_emb_Cons)
  qed
qed auto

lemma qcount_mset: "qcount ws k = int (size (filter_mset (\<lambda>w. w_intention w = k) (mset ws)))"
  by (simp add: qcount_def flip: mset_filter)

lemma qcount_parts: "mset r + mset g = mset ws \<Longrightarrow> qcount r k + qcount g k = qcount ws k"
  unfolding qcount_mset by (metis filter_union_mset of_nat_add size_union)

lemma set_parts: "mset r + mset g = mset ws \<Longrightarrow> set r \<union> set g = set ws"
  by (metis set_mset_mset set_mset_union)

subsection \<open>What a drain leaves behind\<close>

lemma drain_loop_antimono:
  "drain_loop s ws = (s', r, g) \<Longrightarrow> drainable s ws \<Longrightarrow> can_grant s' i wt \<Longrightarrow> can_grant s i wt"
proof (induction ws arbitrary: s s' r g)
  case (Cons w ws)
  from Cons.prems(1) show ?case
  proof (cases rule: drain_loop_ConsE)
    case stays
    then show ?thesis using Cons drainable_tl by blast
  next
    case (admitted g1)
    then show ?thesis
      using Cons.IH [OF admitted(2) drainable_admit [OF Cons.prems(2)] Cons.prems(3)]
        can_grant_antimono [OF Cons.prems(2)] by blast
  qed
qed auto

lemma drain_loop_complete:
  "drain_loop s ws = (s', r, g) \<Longrightarrow> drainable s ws \<Longrightarrow> w \<in> set r \<Longrightarrow>
   \<not> can_grant s' (w_intention w) (w_weight w)"
proof (induction ws arbitrary: s s' r g)
  case (Cons v ws)
  from Cons.prems(1) show ?case
  proof (cases rule: drain_loop_ConsE)
    case (stays r1)
    then show ?thesis
      using Cons.IH [OF stays(2) drainable_tl [OF Cons.prems(2)]] Cons.prems(3)
        drain_loop_antimono [OF stays(2) drainable_tl [OF Cons.prems(2)]] by auto
  next
    case (admitted g1)
    then show ?thesis
      using Cons.IH [OF admitted(2) drainable_admit [OF Cons.prems(2)]] Cons.prems(3) by auto
  qed
qed auto

lemma drain_loop_drainable:
  "drain_loop s ws = (s', r, g) \<Longrightarrow> drainable s (ws @ vs) \<Longrightarrow> drainable s' vs"
proof (induction ws arbitrary: s s' r g)
  case (Cons w ws)
  from Cons.prems(1) show ?case
  proof (cases rule: drain_loop_ConsE)
    case stays
    then show ?thesis using Cons drainable_tl by (metis append_Cons)
  next
    case admitted
    then show ?thesis using Cons drainable_admit by (metis append_Cons)
  qed
qed auto

lemma drainable_prefix: "drainable s (us @ vs) \<Longrightarrow> drainable s us"
  using qcount_nonneg [of vs] by (fastforce simp: drainable_def intro: order_trans [rotated])

lemma drain_loop_head_granted:
  "drain_loop s (b # ws) = (s', r, g) \<Longrightarrow> b \<in> set g \<Longrightarrow> b \<notin> set ws \<Longrightarrow>
   can_grant s (w_intention b) (w_weight b)"
  by (erule drain_loop_ConsE) (auto dest!: drain_loop_parts dest: subseq_set_subset)

text \<open>First-in first-out: inside an intention a waiter is never overtaken by a later one that
  asks for at least as much.\<close>

lemma drain_loop_fifo:
  assumes run: "drain_loop s (us @ a # vs @ b # xs) = (s', r, g)"
    and ok: "drainable s (us @ a # vs @ b # xs)"
    and dist: "distinct (us @ a # vs @ b # xs)"
    and same: "w_intention a = w_intention b" "w_weight a \<le> w_weight b"
    and b: "b \<in> set g"
  shows "a \<in> set g"
proof -
  obtain s1 r1 g1 where p1: "drain_loop s us = (s1, r1, g1)" by (metis prod_cases3)
  obtain s2 r2 g2 where p2: "drain_loop s1 (a # vs) = (s2, r2, g2)" by (metis prod_cases3)
  obtain r3 g3 where p3: "drain_loop s2 (b # xs) = (s', r3, g3)" and g: "g = g1 @ g2 @ g3"
    using run p1 p2 drain_loop_append [of s us "(a # vs) @ b # xs"]
      drain_loop_append [of s1 "a # vs" "b # xs"]
    by (auto split: prod.splits)
  have d1: "drainable s1 ((a # vs) @ b # xs)"
    using drain_loop_drainable [OF p1] ok by simp
  have "set g1 \<subseteq> set us" "set g2 \<subseteq> set (a # vs)"
    using drain_loop_parts [OF p1] drain_loop_parts [OF p2] by (auto dest: subseq_set_subset)
  then have "b \<in> set g3" using b g dist by auto
  then have "can_grant s2 (w_intention b) (w_weight b)"
    using drain_loop_head_granted [OF p3] dist by auto
  then have "can_grant s1 (w_intention a) (w_weight a)"
    using drain_loop_antimono [OF p2 drainable_prefix [OF d1]] same
    by (auto intro: can_grant_weight_mono)
  then have "a \<in> set g2" using p2 by (elim drain_loop_ConsE) auto
  then show ?thesis using g by simp
qed

subsection \<open>The invariant of the semaphore\<close>

definition sem_wf :: "semaphore \<Rightarrow> bool" where
  "sem_wf s =
     (SCALE \<le> sem_limit s \<and> sem_limit s \<le> sem_hard_cap s \<and>
      res_ok (sem_reservations s) \<and>
      0 \<le> sem_active s \<and> (\<forall>k. 0 \<le> obj_num (sem_active_by s) k) \<and>
      (\<forall>k. obj_num (sem_queued_by s) k = qcount (sem_waiters s) k) \<and>
      (\<forall>w\<in>set (sem_waiters s). 0 < w_weight w) \<and> distinct (map w_id (sem_waiters s)) \<and>
      (\<forall>(w, i)\<in>set (sem_pending s). 0 < w) \<and> (sem_timer_armed s = (sem_pending s \<noteq> [])))"

definition intentions_ok :: "rat obj \<Rightarrow> bool" where
  "intentions_ok d = (distinct (obj_keys d) \<and> (\<forall>(k, r)\<in>set d. 0 \<le> r))"

lemma scale_reservations_ok: "intentions_ok d \<Longrightarrow> res_ok (scale_reservations d)"
  using js_round_mono [of 0]
  by (fastforce simp: intentions_ok_def res_ok_def scale_reservations_def o_def
      case_prod_unfold SCALE_def)

lemma obj_num_zeros [simp]: "obj_num (map (\<lambda>k. (k, 0)) ks) k = 0"
  by (induction ks) (auto simp: obj_num_def)

lemma obj_num_zeros' [simp]: "obj_num (map ((\<lambda>k. (k, 0)) \<circ> f) d) k = 0"
  by (induction d) (auto simp: obj_num_def)

lemma new_semaphore_wf:
  assumes "case o_intentions opts of None \<Rightarrow> True | Some i \<Rightarrow> intentions_ok i"
  shows "sem_wf (new_semaphore opts)"
proof -
  have "intentions_ok [(''main'', 1 :: rat)]" by (simp add: intentions_ok_def)
  then show ?thesis
    using assms by (auto simp: new_semaphore_def sem_wf_def Let_def SCALE_def
        scale_reservations_ok split: option.split)
qed

lemma obj_num_ensure_zero [simp]: "obj_num (ensure_zero ks d) k = obj_num d k"
  by (induction ks d rule: ensure_zero.induct) (auto simp: obj_num_def split: option.splits)

lemma sem_reconfigure_wf:
  assumes "sem_wf s" "case po_intentions opts of None \<Rightarrow> True | Some i \<Rightarrow> intentions_ok i"
  shows "sem_wf (sem_reconfigure opts s)"
  using assms
  by (auto simp: sem_reconfigure_def sem_wf_def Let_def scale_reservations_ok
      split: option.splits)

lemma grant_wf:
  assumes "sem_wf s" "0 < w"
  shows "sem_wf (grant w i s)"
  using assms by (auto simp: sem_wf_def grant_def)

lemma enqueue_wf:
  assumes "sem_wf s" "0 < w_weight w" "w_id w \<notin> w_id ` set (sem_waiters s)"
  shows "sem_wf (fst (enqueue w s))"
  using assms by (auto simp: sem_wf_def enqueue_def)

lemma find_waiter:
  "find (\<lambda>w. w_id w = i) ws = Some w \<Longrightarrow> w \<in> set ws \<and> w_id w = i"
  by (auto simp: find_Some_iff)

lemma remove_waiter_wf:
  assumes "sem_wf s"
  shows "sem_wf (fst (remove_waiter i s))"
proof (cases "find (\<lambda>w. w_id w = i) (sem_waiters s)")
  case (Some w)
  then have w: "w \<in> set (sem_waiters s)" by (auto dest: find_waiter)
  then have "0 < qcount (sem_waiters s) (w_intention w)" by (auto simp: qcount_pos_iff)
  then show ?thesis
    using assms Some w
    by (auto simp: sem_wf_def remove_waiter_def dec_queued_def qcount_remove1
        distinct_map_filter dest: notin_set_remove1 in_set_remove1
        intro!: distinct_map_remove1)
qed (use assms in \<open>simp add: remove_waiter_def\<close>)

text \<open>Admission does not read the queue itself, nor the timer.\<close>

lemma can_grant_cong:
  assumes "sem_active s' = sem_active s" "sem_limit s' = sem_limit s"
    "sem_reservations s' = sem_reservations s" "sem_active_by s' = sem_active_by s"
    "sem_queued_by s' = sem_queued_by s"
  shows "can_grant s' i w = can_grant s i w"
proof -
  have "reserved_for_others s' i e = reserved_for_others s i e" for e
    by (simp only: reserved_for_others_def assms)
  then show ?thesis
    using effective_cong [of s' s] over_subscribed_cong [of s' s] assms
    by (simp add: can_grant_iff capacity_def)
qed

lemma sem_wf_drainable: "sem_wf s \<Longrightarrow> drainable s (sem_waiters s)"
  by (auto simp: sem_wf_def drainable_def SCALE_def)

text \<open>
  The one fact about a drain that every caller needs: it keeps the invariant, it only moves
  weight from the queue to the active counters, and no waiter it leaves could be granted.
\<close>

lemma drain_waiters_spec:
  assumes wf: "sem_wf s" and run: "drain_waiters s = (s', g)"
  shows "sem_wf s'"
    and "sem_active s' = sem_active s + wsum g"
    and "obj_num (sem_active_by s') k = obj_num (sem_active_by s) k + wsum_by g k"
    and "mset (sem_waiters s') + mset g = mset (sem_waiters s)"
    and "subseq (sem_waiters s') (sem_waiters s)" "subseq g (sem_waiters s)"
    and "\<forall>w\<in>set (sem_waiters s'). \<not> can_grant s' (w_intention w) (w_weight w)"
    and "sem_limit s' = sem_limit s" "sem_hard_cap s' = sem_hard_cap s"
      "sem_reservations s' = sem_reservations s" "sem_pending s' = sem_pending s"
      "sem_timer_armed s' = sem_timer_armed s" "sem_shutdown s' = sem_shutdown s"
proof -
  obtain s1 r where loop: "drain_loop s (sem_waiters s) = (s1, r, g)"
    and s': "s' = s1\<lparr>sem_waiters := r\<rparr>"
    using run by (cases "sem_waiters s") (auto simp: drain_waiters_def split: prod.splits)
  note dr = sem_wf_drainable [OF wf]
  note same = drain_loop_same [OF loop] and sums = drain_loop_sums [OF loop]
  note parts = drain_loop_parts [OF loop]
  have sub: "set r \<subseteq> set (sem_waiters s)" "set g \<subseteq> set (sem_waiters s)"
    using parts by (auto dest: subseq_set_subset)
  have pos: "0 < w_weight w" if "w \<in> set g" for w
    using that sub wf by (auto simp: sem_wf_def)
  have q: "obj_num (sem_queued_by s1) k = qcount r k" for k
    using drain_loop_queued [OF loop dr, of k] qcount_parts [of r g "sem_waiters s" k] parts wf
    by (simp add: sem_wf_def)
  have "distinct (map w_id r)"
    using parts wf subseq_map [of r "sem_waiters s" w_id] subseq_distinct
    by (auto simp: sem_wf_def)
  then show "sem_wf s'"
    using wf same sums q sub pos wsum_nonneg [of g] wsum_by_nonneg [of g]
    by (auto simp: sem_wf_def s')
  show "sem_active s' = sem_active s + wsum g"
    "obj_num (sem_active_by s') k = obj_num (sem_active_by s) k + wsum_by g k"
    using sums by (simp_all add: s')
  show "mset (sem_waiters s') + mset g = mset (sem_waiters s)"
    "subseq (sem_waiters s') (sem_waiters s)" "subseq g (sem_waiters s)"
    using parts by (simp_all add: s')
  show "\<forall>w\<in>set (sem_waiters s'). \<not> can_grant s' (w_intention w) (w_weight w)"
    using drain_loop_complete [OF loop dr] can_grant_cong [of s' s1] by (simp add: s')
  show "sem_limit s' = sem_limit s" "sem_hard_cap s' = sem_hard_cap s"
    "sem_reservations s' = sem_reservations s" "sem_pending s' = sem_pending s"
    "sem_timer_armed s' = sem_timer_armed s" "sem_shutdown s' = sem_shutdown s"
    using same by (simp_all add: s')
qed

subsection \<open>Resizing, release and shutdown\<close>

text \<open>
  \<open>moved s g s'\<close>: the waiters \<open>g\<close> left the queue and their weight became active; nothing else
  of the accounting changed.
\<close>

definition moved :: "semaphore \<Rightarrow> waiter list \<Rightarrow> semaphore \<Rightarrow> bool" where
  "moved s g s' =
     (sem_active s' = sem_active s + wsum g \<and>
      (\<forall>k. obj_num (sem_active_by s') k = obj_num (sem_active_by s) k + wsum_by g k) \<and>
      mset (sem_waiters s') + mset g = mset (sem_waiters s) \<and>
      sem_pending s' = sem_pending s \<and> sem_timer_armed s' = sem_timer_armed s \<and>
      sem_shutdown s' = sem_shutdown s)"

lemma moved_refl [simp]: "moved s [] s"
  by (simp add: moved_def)

lemma drain_waiters_moved: "sem_wf s \<Longrightarrow> drain_waiters s = (s', g) \<Longrightarrow> moved s g s'"
  using drain_waiters_spec [of s s' g] by (simp add: moved_def)

lemma moved_cong:
  assumes "moved s g s'" "sem_active s = sem_active t" "sem_active_by s = sem_active_by t"
    "sem_waiters s = sem_waiters t" "sem_pending s = sem_pending t"
    "sem_timer_armed s = sem_timer_armed t" "sem_shutdown s = sem_shutdown t"
  shows "moved t g s'"
  using assms by (simp add: moved_def)

lemma sem_wf_hard_cap: "sem_wf s \<Longrightarrow> SCALE \<le> sem_hard_cap s"
  by (simp add: sem_wf_def)

lemma clamp_limit_bounds:
  "clamp_limit x h = Some c \<Longrightarrow> SCALE \<le> h \<Longrightarrow> SCALE \<le> c \<and> c \<le> h"
  by (cases x) (auto simp: clamp_limit_def)

lemma resize_spec:
  assumes wf: "sem_wf s" and run: "resize x s = Some (s', changed, g)"
  shows "sem_wf s'" "moved s g s'" "sem_hard_cap s' = sem_hard_cap s"
    "sem_reservations s' = sem_reservations s"
    "changed \<Longrightarrow> \<forall>w\<in>set (sem_waiters s'). \<not> can_grant s' (w_intention w) (w_weight w)"
    "\<not> changed \<Longrightarrow> s' = s"
proof -
  obtain c where cl: "clamp_limit x (sem_hard_cap s) = Some c"
    and run': "(if c = sem_limit s then Some (s, False, [])
              else (let (s', granted) = drain_waiters (s\<lparr>sem_limit := c\<rparr>)
                    in Some (s', True, granted))) = Some (s', changed, g)"
    using run by (auto simp: resize_def split: option.splits)
  have c: "SCALE \<le> c" "c \<le> sem_hard_cap s"
    using clamp_limit_bounds [OF cl sem_wf_hard_cap [OF wf]] by simp_all
  have wf': "sem_wf (s\<lparr>sem_limit := c\<rparr>)" using wf c by (simp add: sem_wf_def)
  note dr = drain_waiters_spec [OF wf', of s' g]
  consider (same) "\<not> changed" "s' = s" "g = []"
    | (drained) changed "drain_waiters (s\<lparr>sem_limit := c\<rparr>) = (s', g)"
    using run' by (auto split: if_splits prod.splits)
  then have *: "sem_wf s' \<and> moved s g s' \<and> sem_hard_cap s' = sem_hard_cap s \<and>
      sem_reservations s' = sem_reservations s \<and>
      (changed \<longrightarrow> (\<forall>w\<in>set (sem_waiters s'). \<not> can_grant s' (w_intention w) (w_weight w))) \<and>
      (\<not> changed \<longrightarrow> s' = s)"
  proof cases
    case same
    then show ?thesis using wf by simp
  next
    case drained
    then show ?thesis
      using dr(1,7,9,10) moved_cong [OF drain_waiters_moved [OF wf' drained(2)], of s] by simp
  qed
  then show "sem_wf s'" "moved s g s'" "sem_hard_cap s' = sem_hard_cap s"
    "sem_reservations s' = sem_reservations s"
    "changed \<Longrightarrow> \<forall>w\<in>set (sem_waiters s'). \<not> can_grant s' (w_intention w) (w_weight w)"
    "\<not> changed \<Longrightarrow> s' = s"
    by blast+
qed

lemma safe_whole_ge [simp]: "1 \<le> safe_whole x"
  by (cases x) (simp_all add: safe_whole_def)

lemma set_hard_cap_spec:
  assumes wf: "sem_wf s" and run: "set_hard_cap x s = (s', changed, g)"
  shows "sem_wf s'" "moved s g s'" "sem_reservations s' = sem_reservations s"
    "sem_hard_cap s' = safe_whole x * SCALE"
    "sem_limit s' = min (sem_limit s) (safe_whole x * SCALE)"
proof -
  define cap where "cap = safe_whole x * SCALE"
  define s1 where "s1 = s\<lparr>sem_hard_cap := cap,
    sem_soft_limit := (if sem_soft_limit s > cap then cap else sem_soft_limit s)\<rparr>"
  have cap: "SCALE \<le> cap" using safe_whole_ge [of x] by (simp add: SCALE_def cap_def)
  have f: "sem_active s1 = sem_active s" "sem_active_by s1 = sem_active_by s"
    "sem_waiters s1 = sem_waiters s" "sem_pending s1 = sem_pending s"
    "sem_timer_armed s1 = sem_timer_armed s" "sem_shutdown s1 = sem_shutdown s"
    "sem_limit s1 = sem_limit s" "sem_hard_cap s1 = cap"
    "sem_reservations s1 = sem_reservations s" "sem_queued_by s1 = sem_queued_by s"
    by (simp_all add: s1_def)
  have wf3: "sem_wf (s1\<lparr>sem_limit := cap\<rparr>)"
    using wf cap f by (simp add: sem_wf_def)
  consider (same) "cap = sem_hard_cap s" "s' = s" "g = []"
    | (keep) "sem_limit s \<le> cap" "s' = s1" "g = []"
    | (cut) "cap < sem_limit s" "drain_waiters (s1\<lparr>sem_limit := cap\<rparr>) = (s', g)"
    using run unfolding set_hard_cap_def cap_def [symmetric] Let_def s1_def [symmetric] f
    by (fastforce split: if_splits prod.splits)
  then have "sem_wf s' \<and> moved s g s' \<and> sem_reservations s' = sem_reservations s \<and>
      sem_hard_cap s' = cap \<and> sem_limit s' = min (sem_limit s) cap"
  proof cases
    case same
    then show ?thesis using wf by (simp add: sem_wf_def)
  next
    case keep
    then show ?thesis using wf f by (simp add: sem_wf_def moved_def)
  next
    case cut
    then show ?thesis
      using drain_waiters_spec(1,8,9,10) [OF wf3 cut(2)] f
        moved_cong [OF drain_waiters_moved [OF wf3 cut(2)], of s] by simp
  qed
  then show "sem_wf s'" "moved s g s'" "sem_reservations s' = sem_reservations s"
    "sem_hard_cap s' = safe_whole x * SCALE"
    "sem_limit s' = min (sem_limit s) (safe_whole x * SCALE)"
    by (simp_all add: cap_def)
qed

lemma set_soft_limit_spec:
  assumes "sem_wf s"
  shows "sem_wf (fst (set_soft_limit x s))" "moved s [] (fst (set_soft_limit x s))"
  using assms by (auto simp: set_soft_limit_def sem_wf_def moved_def Let_def)

lemma release_permit_wf: "sem_wf s \<Longrightarrow> 0 < w \<Longrightarrow> sem_wf (release_permit w i s)"
  by (auto simp: release_permit_def sem_wf_def Let_def)

definition psum :: "(int \<times> string) list \<Rightarrow> int" where
  "psum b = (\<Sum>(w, i)\<leftarrow>b. w)"

definition psum_by :: "(int \<times> string) list \<Rightarrow> string \<Rightarrow> int" where
  "psum_by b k = (\<Sum>(w, i)\<leftarrow>b. if i = k then w else 0)"

lemma psum_simps [simp]:
  "psum [] = 0" "psum ((w, i) # b) = w + psum b" "psum (a @ b) = psum a + psum b"
  "psum_by [] k = 0" "psum_by ((w, i) # b) k = (if i = k then w else 0) + psum_by b k"
  "psum_by (a @ b) k = psum_by a k + psum_by b k"
  by (simp_all add: psum_def psum_by_def)

lemma psum_nonneg: "\<forall>(w, i)\<in>set b. 0 < w \<Longrightarrow> 0 \<le> psum b \<and> 0 \<le> psum_by b k"
  by (induction b) auto

lemma return_batch_frame:
  "sem_limit (return_batch b s) = sem_limit s"
  "sem_hard_cap (return_batch b s) = sem_hard_cap s"
  "sem_reservations (return_batch b s) = sem_reservations s"
  "sem_queued_by (return_batch b s) = sem_queued_by s"
  "sem_waiters (return_batch b s) = sem_waiters s"
  "sem_pending (return_batch b s) = sem_pending s"
  "sem_timer_armed (return_batch b s) = sem_timer_armed s"
  "sem_shutdown (return_batch b s) = sem_shutdown s"
  by (induction b s rule: return_batch.induct) auto

lemma return_batch_nonneg:
  "0 \<le> sem_active s \<Longrightarrow> \<forall>k. 0 \<le> obj_num (sem_active_by s) k \<Longrightarrow>
   0 \<le> sem_active (return_batch b s) \<and> (\<forall>k. 0 \<le> obj_num (sem_active_by (return_batch b s)) k)"
  by (induction b s rule: return_batch.induct) auto

text \<open>
  The clamping at zero of a returned weight never takes effect as long as the batch was
  accounted for.
\<close>

lemma return_batch_exact:
  "\<forall>(w, i)\<in>set b. 0 < w \<Longrightarrow> psum b \<le> sem_active s \<Longrightarrow>
   \<forall>k. psum_by b k \<le> obj_num (sem_active_by s) k \<Longrightarrow>
   sem_active (return_batch b s) = sem_active s - psum b \<and>
   (\<forall>k. obj_num (sem_active_by (return_batch b s)) k = obj_num (sem_active_by s) k - psum_by b k)"
proof (induction b s rule: return_batch.induct)
  case (2 w i b s)
  let ?t = "s\<lparr>sem_active := max 0 (sem_active s - w),
               sem_active_by := obj_set (sem_active_by s) i
                 (max 0 (obj_num (sem_active_by s) i - w))\<rparr>"
  have pos: "\<forall>(w, i)\<in>set b. 0 < w" and le: "w + psum b \<le> sem_active s"
    and le_by: "\<And>k. (if i = k then w else 0) + psum_by b k \<le> obj_num (sem_active_by s) k"
    using "2.prems" by simp_all
  have t: "sem_active ?t = sem_active s - w"
    "obj_num (sem_active_by ?t) k = obj_num (sem_active_by s) k - (if i = k then w else 0)" for k
    using psum_nonneg [OF pos, of i] le le_by [of i] by auto
  have "sem_active (return_batch b ?t) = sem_active ?t - psum b \<and>
     (\<forall>k. obj_num (sem_active_by (return_batch b ?t)) k = obj_num (sem_active_by ?t) k - psum_by b k)"
    using le le_by by (intro "2.IH" pos allI) (simp_all only: t, simp_all add: algebra_simps)
  then show ?case unfolding return_batch.simps t by (simp add: algebra_simps)
qed simp

lemma release_timer_fire_spec:
  assumes wf: "sem_wf s" and run: "release_timer_fire s = (s', g)"
  shows "sem_wf s'" "sem_pending s' = []" "\<not> sem_timer_armed s'"
    "sem_shutdown s' = sem_shutdown s" "sem_limit s' = sem_limit s"
    "sem_hard_cap s' = sem_hard_cap s" "sem_reservations s' = sem_reservations s"
    "mset (sem_waiters s') + mset g = mset (sem_waiters s)"
    "\<forall>w\<in>set (sem_waiters s'). \<not> can_grant s' (w_intention w) (w_weight w)"
    "psum (sem_pending s) \<le> sem_active s \<Longrightarrow>
     \<forall>k. psum_by (sem_pending s) k \<le> obj_num (sem_active_by s) k \<Longrightarrow>
     sem_active s' = sem_active s - psum (sem_pending s) + wsum g \<and>
     (\<forall>k. obj_num (sem_active_by s') k =
            obj_num (sem_active_by s) k - psum_by (sem_pending s) k + wsum_by g k)"
proof -
  let ?t = "s\<lparr>sem_timer_armed := False, sem_pending := []\<rparr>"
  let ?b = "return_batch (sem_pending s) ?t"
  have wfb: "sem_wf ?b"
    using wf return_batch_nonneg [of ?t "sem_pending s"]
    by (auto simp: sem_wf_def return_batch_frame)
  have dr: "drain_waiters ?b = (s', g)" using run by (simp add: release_timer_fire_def)
  note spec = drain_waiters_spec [OF wfb dr]
  show "sem_wf s'" "sem_pending s' = []" "\<not> sem_timer_armed s'"
    "sem_shutdown s' = sem_shutdown s" "sem_limit s' = sem_limit s"
    "sem_hard_cap s' = sem_hard_cap s" "sem_reservations s' = sem_reservations s"
    "mset (sem_waiters s') + mset g = mset (sem_waiters s)"
    "\<forall>w\<in>set (sem_waiters s'). \<not> can_grant s' (w_intention w) (w_weight w)"
    using spec by (simp_all add: return_batch_frame)
  assume "psum (sem_pending s) \<le> sem_active s"
    "\<forall>k. psum_by (sem_pending s) k \<le> obj_num (sem_active_by s) k"
  then show "sem_active s' = sem_active s - psum (sem_pending s) + wsum g \<and>
     (\<forall>k. obj_num (sem_active_by s') k =
            obj_num (sem_active_by s) k - psum_by (sem_pending s) k + wsum_by g k)"
    using return_batch_exact [of "sem_pending s" ?t] wf spec(2,3) by (simp add: sem_wf_def)
qed

lemma dec_all_queued_frame:
  "dec_all_queued ws s = s\<lparr>sem_queued_by := sem_queued_by (dec_all_queued ws s)\<rparr>"
  by (induction ws s rule: dec_all_queued.induct) (simp_all add: dec_queued_def)

lemma dec_all_queued_count:
  "\<forall>k. qcount ws k \<le> obj_num (sem_queued_by s) k \<Longrightarrow>
   obj_num (sem_queued_by (dec_all_queued ws s)) k = obj_num (sem_queued_by s) k - qcount ws k"
proof (induction ws s rule: dec_all_queued.induct)
  case (2 w ws s)
  let ?i = "w_intention w"
  have "0 < obj_num (sem_queued_by s) ?i"
    using spec [OF "2.prems", of ?i] qcount_nonneg [of ws ?i] by simp
  moreover have "qcount ws k \<le> obj_num (sem_queued_by (dec_queued ?i s)) k" for k
    using spec [OF "2.prems", of k] by (simp add: dec_queued_def split: if_splits)
  ultimately show ?case using "2.IH" by (simp add: dec_queued_def)
qed simp

lemma obj_num_map_zero [simp]: "obj_num (map (\<lambda>(k, _). (k, 0)) d) k = 0"
  by (induction d) (auto simp: obj_num_def)

lemma sem_shut_down_spec:
  assumes wf: "sem_wf s" and run: "sem_shut_down s = (s', ws)"
  shows "sem_wf s'" "ws = sem_waiters s" "sem_waiters s' = []" "sem_active s' = 0"
    "sem_pending s' = []" "sem_shutdown s'" "sem_reservations s' = sem_reservations s"
proof -
  let ?t = "s\<lparr>sem_shutdown := True, sem_timer_armed := False, sem_pending := []\<rparr>"
  let ?d = "dec_all_queued (sem_waiters s) ?t"
  have q: "obj_num (sem_queued_by ?d) k = 0" for k
    using dec_all_queued_count [of "sem_waiters s" ?t k] wf by (simp add: sem_wf_def)
  have fr: "sem_limit ?d = sem_limit s" "sem_hard_cap ?d = sem_hard_cap s"
    "sem_reservations ?d = sem_reservations s" "sem_pending ?d = []" "\<not> sem_timer_armed ?d"
    "sem_shutdown ?d" "sem_active_by ?d = sem_active_by s"
    by (subst dec_all_queued_frame, simp)+
  have eq: "s' = ?d\<lparr>sem_waiters := [], sem_active := 0,
      sem_active_by := map (\<lambda>(k, _). (k, 0)) (sem_active_by ?d)\<rparr>"
    and "ws = sem_waiters s"
    using run by (auto simp: sem_shut_down_def Let_def)
  then show "sem_wf s'" "ws = sem_waiters s" "sem_waiters s' = []" "sem_active s' = 0"
    "sem_pending s' = []" "sem_shutdown s'" "sem_reservations s' = sem_reservations s"
    using wf q by (simp_all add: sem_wf_def fr)
qed

subsection \<open>Progress of an idle gate\<close>

text \<open>
  The reservations the configuration produces are whole slots: none, or at least one full
  permit. A request weighs at most one permit.
\<close>

definition whole_slots :: "semaphore \<Rightarrow> bool" where
  "whole_slots s = (\<forall>k. obj_num (sem_reservations s) k = 0 \<or> SCALE \<le> obj_num (sem_reservations s) k)"

lemma sum_list_pos_ex:
  "0 < (\<Sum>k\<leftarrow>ks. (f k::int)) \<Longrightarrow> \<exists>k\<in>set ks. 0 < f k"
proof (induction ks)
  case (Cons k ks)
  then show ?case by (cases "0 < f k") auto
qed simp

lemma idle_grantable:
  assumes wf: "sem_wf s" and slots: "whole_slots s"
    and light: "\<forall>w\<in>set (sem_waiters s). w_weight w \<le> SCALE"
    and idle: "sem_active s = 0" "\<forall>k. obj_num (sem_active_by s) k = 0"
    and queued: "sem_waiters s \<noteq> []"
  shows "\<exists>w\<in>set (sem_waiters s). can_grant s (w_intention w) (w_weight w)"
proof (rule ccontr)
  assume none: "\<not> ?thesis"
  obtain w where w: "w \<in> set (sem_waiters s)" using queued by (cases "sem_waiters s") auto
  let ?e = "effective_reservations s"
  let ?i = "w_intention w"
  have lim: "SCALE \<le> sem_limit s" and res: "res_ok (sem_reservations s)"
    using wf by (auto simp: sem_wf_def)
  have fits: "v \<in> set (sem_waiters s) \<Longrightarrow> sem_active s + w_weight v \<le> sem_limit s" for v
    using light lim idle(1) by force
  have no_over: "\<not> over_subscribed s" and short: "sem_limit s - reserved_for_others s ?i ?e < w_weight w"
    using none w fits [OF w] idle(1) by (auto simp: can_grant_iff capacity_def)
  have eff: "?e = sem_reservations s"
    using no_over over_subscribed_iff [OF res] lim
    by (simp add: effective_reservations_def total_reserved_def SCALE_def)
  have "0 < reserved_for_others s ?i ?e"
    using short fits [OF w] idle(1) by simp
  then obtain k where k: "0 < obj_num (sem_reservations s) k" "0 < obj_num (sem_queued_by s) k"
    unfolding reserved_for_others_def
  proof (elim sum_list_pos_ex [THEN bexE])
    fix k
    assume pos: "0 < (if k = ?i then 0
        else if obj_num (sem_active_by s) k + obj_num (sem_queued_by s) k = 0 then 0
        else max 0 (obj_num ?e k - obj_num (sem_active_by s) k))"
      and hyp: "\<And>k. 0 < obj_num (sem_reservations s) k \<Longrightarrow> 0 < obj_num (sem_queued_by s) k \<Longrightarrow> thesis"
    have "0 \<le> obj_num (sem_queued_by s) k" using wf qcount_nonneg by (simp add: sem_wf_def)
    then show thesis using pos hyp [of k] spec [OF idle(2), of k] eff by (auto split: if_splits)
  qed
  then obtain v where v: "v \<in> set (sem_waiters s)" "w_intention v = k"
    using wf by (auto simp: sem_wf_def qcount_pos_iff)
  have "SCALE \<le> obj_num (sem_reservations s) k" 
    using k(1) spec [OF slots [unfolded whole_slots_def], of k] by simp
  then have "can_grant s k (w_weight v)"
    using fits [OF v(1)] light v(1) idle(2) eff by (force simp: can_grant_iff)
  then show False using none v by blast
qed

lemma can_grant_enqueue:
  assumes "enqueue w s = (s', True)"
  shows "can_grant s' (w_intention w) v = can_grant s (w_intention w) v"
proof -
  have f: "sem_active s' = sem_active s" "sem_limit s' = sem_limit s"
    "sem_reservations s' = sem_reservations s" "sem_active_by s' = sem_active_by s"
    "\<And>k. k \<noteq> w_intention w \<Longrightarrow> obj_num (sem_queued_by s') k = obj_num (sem_queued_by s) k"
    using assms by (auto simp: enqueue_def split: if_splits)
  have "reserved_for_others s' (w_intention w) e = reserved_for_others s (w_intention w) e" for e
    unfolding reserved_for_others_def by (intro arg_cong [where f = sum_list] map_cong) (auto simp: f)
  then show ?thesis
    using effective_cong [of s' s] over_subscribed_cong [of s' s] f
    by (simp add: can_grant_iff capacity_def)
qed

subsection \<open>Grants stay inside the limit\<close>

lemma drain_loop_within:
  "drain_loop s ws = (s', r, g) \<Longrightarrow> g \<noteq> [] \<Longrightarrow> sem_active s' \<le> sem_limit s'"
proof (induction ws arbitrary: s s' r g)
  case (Cons w ws)
  from Cons.prems(1) show ?case
  proof (cases rule: drain_loop_ConsE)
    case stays
    then show ?thesis using Cons by blast
  next
    case (admitted g1)
    note same = drain_loop_same(1) [OF admitted(2)] and sums = drain_loop_sums(1) [OF admitted(2)]
    show ?thesis
      using Cons.IH [OF admitted(2)] same sums can_grant_within_limit [OF admitted(1)]
      by (cases "g1 = []") simp_all
  qed
qed simp

lemma drain_waiters_within:
  "drain_waiters s = (s', g) \<Longrightarrow> g \<noteq> [] \<Longrightarrow> sem_active s' \<le> sem_limit s'"
  by (auto simp: drain_waiters_def dest!: drain_loop_within split: if_splits prod.splits)

lemma resize_within:
  "resize x s = Some (s', c, g) \<Longrightarrow> g \<noteq> [] \<Longrightarrow> sem_active s' \<le> sem_limit s'"
  by (auto simp: resize_def dest!: drain_waiters_within split: option.splits if_splits prod.splits)

lemma set_hard_cap_within:
  "set_hard_cap x s = (s', c, g) \<Longrightarrow> g \<noteq> [] \<Longrightarrow> sem_active s' \<le> sem_limit s'"
  unfolding set_hard_cap_def Let_def
  by (auto dest!: drain_waiters_within split: if_splits prod.splits)

subsection \<open>Order of service\<close>

text \<open>
  \<open>drains s ws s'\<close>: the waiters \<open>ws\<close> were granted by one pass of \<open>drainWaiters\<close> over the
  queue of \<open>s\<close>. Every operation that grants from the queue does so by such a pass.
\<close>

definition drains :: "semaphore \<Rightarrow> waiter list \<Rightarrow> semaphore \<Rightarrow> bool" where
  "drains s ws s' = (\<exists>t. sem_wf t \<and> sem_waiters t = sem_waiters s \<and> drain_waiters t = (s', ws))"

lemma drains_fifo:
  assumes "drains s g s'" "sem_waiters s = us @ a # vs @ b # xs"
    "w_intention a = w_intention b" "w_weight a \<le> w_weight b" "b \<in> set g"
  shows "a \<in> set g"
proof -
  obtain t where wf: "sem_wf t" and ws: "sem_waiters t = us @ a # vs @ b # xs"
    and run: "drain_waiters t = (s', g)"
    using assms(1,2) by (auto simp: drains_def)
  obtain s1 r where loop: "drain_loop t (us @ a # vs @ b # xs) = (s1, r, g)"
    using run ws by (auto simp: drain_waiters_def split: prod.splits)
  have "distinct (us @ a # vs @ b # xs)"
    using wf ws by (metis distinct_map sem_wf_def)
  then show ?thesis
    using drain_loop_fifo [OF loop _ _ assms(3,4,5)] sem_wf_drainable [OF wf] ws by simp
qed

lemma resize_drains:
  assumes "sem_wf s" "resize x s = Some (s', c, g)" "g \<noteq> []"
  shows "drains s g s'"
proof -
  obtain n where n: "clamp_limit x (sem_hard_cap s) = Some n" and r: "drain_waiters (s\<lparr>sem_limit := n\<rparr>) = (s', g)"
    using assms(2,3) by (auto simp: resize_def split: option.splits if_splits prod.splits)
  have "sem_wf (s\<lparr>sem_limit := n\<rparr>)"
    using assms(1) clamp_limit_bounds [OF n sem_wf_hard_cap [OF assms(1)]] by (simp add: sem_wf_def)
  then show ?thesis unfolding drains_def by (intro exI [of _ "s\<lparr>sem_limit := n\<rparr>"]) (simp add: r)
qed

lemma set_hard_cap_drains:
  assumes wf: "sem_wf s" and run: "set_hard_cap x s = (s', c, g)" and g: "g \<noteq> []"
  shows "drains s g s'"
proof -
  define cap where "cap = safe_whole x * SCALE"
  define t where "t = s\<lparr>sem_hard_cap := cap,
    sem_soft_limit := (if sem_soft_limit s > cap then cap else sem_soft_limit s), sem_limit := cap\<rparr>"
  have "drain_waiters t = (s', g)"
    using run g unfolding set_hard_cap_def cap_def [symmetric] Let_def t_def
    by (auto split: if_splits prod.splits)
  moreover have "SCALE \<le> cap" using safe_whole_ge [of x] by (simp add: SCALE_def cap_def)
  then have "sem_wf t" using wf by (simp add: sem_wf_def t_def)
  ultimately show ?thesis unfolding drains_def by (intro exI [of _ t]) (simp add: t_def)
qed

lemma release_timer_fire_drains:
  assumes "sem_wf s" "release_timer_fire s = (s', g)"
  shows "drains s g s'"
proof -
  let ?t = "s\<lparr>sem_timer_armed := False, sem_pending := []\<rparr>"
  have "sem_wf (return_batch (sem_pending s) ?t)"
    using assms(1) return_batch_nonneg [of ?t "sem_pending s"]
    by (auto simp: sem_wf_def return_batch_frame)
  then show ?thesis
    using assms(2) unfolding drains_def release_timer_fire_def
    by (intro exI [of _ "return_batch (sem_pending s) ?t"]) (simp add: return_batch_frame)
qed

lemma drains_subset: "drains s g s' \<Longrightarrow> set g \<subseteq> set (sem_waiters s)"
  unfolding drains_def using drain_waiters_spec(6) subseq_set_subset by fastforce

end
