(* ===== verification/Gate.thy ===== *)
theory Gate
  imports Breaker Semaphore_Laws
begin

text \<open>
  The class \<open>ConcurrencyGate\<close> of \<open>src/limiter/gate.ts\<close>: the breaker and the semaphore composed,
  the promise every \<open>acquire\<close> returns, and the permits handed out.

  A call of \<open>acquire\<close> has a request number \<open>rid\<close>; its promise is an entry of \<open>g_settled\<close> once
  it is settled (the first settlement wins, as for every promise), its permit an entry of
  \<open>g_permits\<close> with the closure's \<open>released\<close> flag. Timers are events: the queue timeout of a
  waiter and the release cooldown fire when the environment chooses, but only while the code
  has them armed. The callbacks \<open>onAcquire\<close> and \<open>onStatsChange\<close> do not call back into the gate.
\<close>

subsection \<open>State\<close>

datatype gate_error = InvalidWeight | CircuitOpen | QueueFull | QueueTimeout | Aborted | ShuttingDown

datatype settlement = Acquired | Rejected gate_error

record permit =
  p_weight :: int
  p_intention :: string
  p_released :: bool

record gate =
  g_sem :: semaphore
  g_brk :: breaker
  g_permits :: "(nat \<times> permit) list"
  g_settled :: "(nat \<times> settlement) list"

definition new_gate :: "gate_options \<Rightarrow> gate" where
  "new_gate opts =
     \<lparr>g_sem = new_semaphore opts,
      g_brk = new_breaker (o_breaker_threshold opts) (o_breaker_window_ms opts)
                (o_breaker_cooldown_ms opts),
      g_permits = [], g_settled = []\<rparr>"

definition settle :: "nat \<Rightarrow> settlement \<Rightarrow> gate \<Rightarrow> gate" where
  "settle rid outcome g =
     (case obj_get (g_settled g) rid of
        None \<Rightarrow> g\<lparr>g_settled := obj_set (g_settled g) rid outcome\<rparr> | Some _ \<Rightarrow> g)"

definition hand_out :: "nat \<Rightarrow> int \<Rightarrow> string \<Rightarrow> gate \<Rightarrow> gate" where
  "hand_out rid weight intention g =
     settle rid Acquired
       (g\<lparr>g_permits := obj_set (g_permits g) rid
            \<lparr>p_weight = weight, p_intention = intention, p_released = False\<rparr>\<rparr>)"

fun hand_out_all :: "waiter list \<Rightarrow> gate \<Rightarrow> gate" where
  "hand_out_all [] g = g"
| "hand_out_all (w # ws) g =
     hand_out_all ws (hand_out (w_id w) (w_weight w) (w_intention w) g)"

subsection \<open>Operations\<close>

definition gate_reconfigure :: "int \<Rightarrow> partial_options \<Rightarrow> gate \<Rightarrow> gate" where
  "gate_reconfigure now opts g =
     g\<lparr>g_sem := sem_reconfigure opts (g_sem g),
       g_brk := br_reconfigure now (po_breaker_threshold opts) (po_breaker_window_ms opts)
                  (po_breaker_cooldown_ms opts) (g_brk g)\<rparr>"

definition gate_resize :: "jsnum \<Rightarrow> gate \<Rightarrow> gate option" where
  "gate_resize x g =
     (case resize x (g_sem g) of
        None \<Rightarrow> None
      | Some (s, _, granted) \<Rightarrow> Some (hand_out_all granted (g\<lparr>g_sem := s\<rparr>)))"

definition gate_set_hard_cap :: "jsnum \<Rightarrow> gate \<Rightarrow> gate" where
  "gate_set_hard_cap x g =
     (let (s, _, granted) = set_hard_cap x (g_sem g)
      in hand_out_all granted (g\<lparr>g_sem := s\<rparr>))"

definition gate_set_soft_limit :: "jsnum \<Rightarrow> gate \<Rightarrow> gate" where
  "gate_set_soft_limit x g = g\<lparr>g_sem := fst (set_soft_limit x (g_sem g))\<rparr>"

definition scaled_weight :: "rat option \<Rightarrow> int" where
  "scaled_weight weight =
     js_round ((case weight of None \<Rightarrow> 1 | Some w \<Rightarrow> w) * of_int SCALE)"

definition acquire :: "int \<Rightarrow> nat \<Rightarrow> rat option \<Rightarrow> string option \<Rightarrow> gate \<Rightarrow> gate" where
  "acquire now rid weight intention g =
     (let w = scaled_weight weight;
          i = (case intention of None \<Rightarrow> ''main'' | Some i \<Rightarrow> i)
      in if w \<le> 0 then settle rid (Rejected InvalidWeight) g
         else (let (b, breakerState) = maybe_half_open now (g_brk g);
                   g1 = g\<lparr>g_brk := b\<rparr>
               in if breakerState = Opened then settle rid (Rejected CircuitOpen) g1
                  else (let wasProbe = (breakerState = HalfOpen)
                        in if can_grant (g_sem g1) i w
                           then hand_out rid w i (g1\<lparr>g_sem := grant w i (g_sem g1)\<rparr>)
                           else (let (s, queued) = enqueue
                                       \<lparr>w_id = rid, w_enqueued_at = now, w_weight = w,
                                        w_intention = i, w_was_probe = wasProbe\<rparr> (g_sem g1)
                                 in if \<not> queued then settle rid (Rejected QueueFull) g1
                                    else g1\<lparr>g_sem := s\<rparr>))))"

definition leave_queue :: "int \<Rightarrow> nat \<Rightarrow> gate_error \<Rightarrow> gate \<Rightarrow> gate" where
  "leave_queue now rid err g =
     (let probe = (case find (\<lambda>w. w_id w = rid) (sem_waiters (g_sem g)) of
                     None \<Rightarrow> False | Some w \<Rightarrow> w_was_probe w);
          (s, removed) = remove_waiter rid (g_sem g);
          g1 = g\<lparr>g_sem := s,
                 g_brk := (if removed \<and> probe then reset_half_open_probe now (g_brk g)
                           else g_brk g)\<rparr>
      in settle rid (Rejected err) g1)"

definition queue_timeout :: "int \<Rightarrow> nat \<Rightarrow> gate \<Rightarrow> gate" where
  "queue_timeout now rid = leave_queue now rid QueueTimeout"

definition client_abort :: "int \<Rightarrow> nat \<Rightarrow> gate \<Rightarrow> gate" where
  "client_abort now rid = leave_queue now rid Aborted"

definition release :: "nat \<Rightarrow> gate \<Rightarrow> gate" where
  "release rid g =
     (case obj_get (g_permits g) rid of
        None \<Rightarrow> g
      | Some p \<Rightarrow>
          (if p_released p then g
           else g\<lparr>g_permits := obj_set (g_permits g) rid (p\<lparr>p_released := True\<rparr>),
                  g_sem := release_permit (p_weight p) (p_intention p) (g_sem g)\<rparr>))"

definition cooldown_fire :: "gate \<Rightarrow> gate" where
  "cooldown_fire g =
     (let (s, granted) = release_timer_fire (g_sem g)
      in hand_out_all granted (g\<lparr>g_sem := s\<rparr>))"

definition gate_record_429 :: "int \<Rightarrow> kind429 \<Rightarrow> gate \<Rightarrow> gate" where
  "gate_record_429 now kind g = g\<lparr>g_brk := record_429 now kind (g_brk g)\<rparr>"

definition gate_record_success :: "gate \<Rightarrow> gate" where
  "gate_record_success g = g\<lparr>g_brk := record_success (g_brk g)\<rparr>"

fun reject_all :: "waiter list \<Rightarrow> gate \<Rightarrow> gate" where
  "reject_all [] g = g"
| "reject_all (w # ws) g = reject_all ws (settle (w_id w) (Rejected ShuttingDown) g)"

definition gate_shutdown :: "gate \<Rightarrow> gate" where
  "gate_shutdown g =
     (let (s, ws) = sem_shut_down (g_sem g) in reject_all ws (g\<lparr>g_sem := s\<rparr>))"

subsection \<open>The transition system\<close>

datatype gate_event =
    Acquire int nat "rat option" "string option"
  | QueueTimer int nat
  | ClientAbort int nat
  | Release nat
  | CooldownTimer
  | Record429 int kind429
  | RecordSuccess
  | Resize jsnum
  | SetHardCap jsnum
  | SetSoftLimit jsnum
  | Reconfigure int partial_options
  | Shutdown

definition known :: "nat \<Rightarrow> gate \<Rightarrow> bool" where
  "known rid g = (rid \<in> w_id ` set (sem_waiters (g_sem g)) \<or> rid \<in> fst ` set (g_settled g))"

text \<open>
  Guards: a request number is used once; a queue timer is armed as long as its waiter is in the
  queue (it is cleared when the waiter leaves); the cooldown timer fires only when armed; an
  \<open>abort\<close> listener exists only for a request that was made; reservations of a new configuration
  are non-negative.
\<close>

inductive gate_step :: "gate \<Rightarrow> gate_event \<Rightarrow> gate \<Rightarrow> bool" where
  acquire: "\<not> known rid g \<Longrightarrow>
     gate_step g (Acquire now rid weight intention) (acquire now rid weight intention g)"
| queue_timer: "rid \<in> w_id ` set (sem_waiters (g_sem g)) \<Longrightarrow>
     gate_step g (QueueTimer now rid) (queue_timeout now rid g)"
| client_abort: "known rid g \<Longrightarrow> gate_step g (ClientAbort now rid) (client_abort now rid g)"
| release: "gate_step g (Release rid) (release rid g)"
| cooldown: "sem_timer_armed (g_sem g) \<Longrightarrow> gate_step g CooldownTimer (cooldown_fire g)"
| record_429: "gate_step g (Record429 now kind) (gate_record_429 now kind g)"
| record_success: "gate_step g RecordSuccess (gate_record_success g)"
| resize: "gate_resize x g = Some g' \<Longrightarrow> gate_step g (Resize x) g'"
| set_hard_cap: "gate_step g (SetHardCap x) (gate_set_hard_cap x g)"
| set_soft_limit: "gate_step g (SetSoftLimit x) (gate_set_soft_limit x g)"
| reconfigure: "case po_intentions opts of None \<Rightarrow> True | Some i \<Rightarrow> intentions_ok i \<Longrightarrow>
     gate_step g (Reconfigure now opts) (gate_reconfigure now opts g)"
| shutdown: "gate_step g Shutdown (gate_shutdown g)"

inductive_cases gate_stepE: "gate_step g e g'"
inductive_simps gate_step_simps:
  "gate_step g (Acquire now rid weight intention) g'" "gate_step g (QueueTimer now rid) g'"
  "gate_step g (ClientAbort now rid) g'" "gate_step g (Release rid) g'"
  "gate_step g CooldownTimer g'" "gate_step g (Record429 now kind) g'"
  "gate_step g RecordSuccess g'" "gate_step g (Resize x) g'" "gate_step g (SetHardCap x) g'"
  "gate_step g (SetSoftLimit x) g'" "gate_step g (Reconfigure now opts) g'" "gate_step g Shutdown g'"

abbreviation gate_run :: "gate \<Rightarrow> gate_event list \<Rightarrow> gate \<Rightarrow> bool" where
  "gate_run \<equiv> steps gate_step"

lemmas gate_run_none = steps.none [where step = gate_step]
lemmas gate_run_more = steps.more [where step = gate_step]

definition options_ok :: "gate_options \<Rightarrow> bool" where
  "options_ok opts = (case o_intentions opts of None \<Rightarrow> True | Some i \<Rightarrow> intentions_ok i)"

definition reachable :: "gate \<Rightarrow> bool" where
  "reachable g = (\<exists>opts es. options_ok opts \<and> gate_run (new_gate opts) es g)"

end
