(* ===== verification/Gate_Laws.thy ===== *)
theory Gate_Laws
  imports Gate
begin

text \<open>
  The invariant of the gate and the theorems on its runs: conservation of slots, the grant
  boundary, settlement of promises, progress, and the behaviour of the breaker's probe inside
  the gate.
\<close>

subsection \<open>The ledger of permits\<close>

definition live_weight :: "permit \<Rightarrow> int" where
  "live_weight p = (if p_released p then 0 else p_weight p)"

definition ledger :: "(nat \<times> permit) list \<Rightarrow> int" where
  "ledger ps = (\<Sum>(rid, p)\<leftarrow>ps. live_weight p)"

definition ledger_by :: "(nat \<times> permit) list \<Rightarrow> string \<Rightarrow> int" where
  "ledger_by ps k = (\<Sum>(rid, p)\<leftarrow>ps. if p_intention p = k then live_weight p else 0)"

lemma ledger_simps [simp]:
  "ledger [] = 0" "ledger ((r, p) # ps) = live_weight p + ledger ps"
  "ledger_by [] k = 0"
  "ledger_by ((r, p) # ps) k = (if p_intention p = k then live_weight p else 0) + ledger_by ps k"
  by (simp_all add: ledger_def ledger_by_def)

lemma ledger_nonneg:
  "\<forall>(rid, p)\<in>set ps. 0 < p_weight p \<Longrightarrow> 0 \<le> ledger ps \<and> 0 \<le> ledger_by ps k \<and> ledger_by ps k \<le> ledger ps"
  by (induction ps) (auto simp: live_weight_def)

lemma ledger_new:
  "rid \<notin> fst ` set ps \<Longrightarrow> ledger (obj_set ps rid p) = ledger ps + live_weight p"
  "rid \<notin> fst ` set ps \<Longrightarrow>
   ledger_by (obj_set ps rid p) k = ledger_by ps k + (if p_intention p = k then live_weight p else 0)"
  by (induction ps rid p rule: obj_set.induct) auto

lemma ledger_release:
  "obj_get ps rid = Some p \<Longrightarrow> \<not> p_released p \<Longrightarrow>
   ledger (obj_set ps rid (p\<lparr>p_released := True\<rparr>)) = ledger ps - p_weight p"
  "obj_get ps rid = Some p \<Longrightarrow> \<not> p_released p \<Longrightarrow>
   ledger_by (obj_set ps rid (p\<lparr>p_released := True\<rparr>)) k =
     ledger_by ps k - (if p_intention p = k then p_weight p else 0)"
  by (induction ps) (auto simp: live_weight_def split: if_splits)

subsection \<open>The invariant\<close>

definition books :: "gate \<Rightarrow> bool" where
  "books g =
     (distinct (obj_keys (g_permits g)) \<and> distinct (obj_keys (g_settled g)) \<and>
      (\<forall>rid. rid \<in> fst ` set (g_permits g) \<longleftrightarrow> obj_get (g_settled g) rid = Some Acquired) \<and>
      (\<forall>(rid, p)\<in>set (g_permits g). 0 < p_weight p) \<and>
      w_id ` set (sem_waiters (g_sem g)) \<inter> fst ` set (g_settled g) = {})"

definition balanced :: "gate \<Rightarrow> bool" where
  "balanced g =
     (sem_active (g_sem g) = ledger (g_permits g) + psum (sem_pending (g_sem g)) \<and>
      (\<forall>k. obj_num (sem_active_by (g_sem g)) k =
             ledger_by (g_permits g) k + psum_by (sem_pending (g_sem g)) k))"

definition gate_inv :: "gate \<Rightarrow> bool" where
  "gate_inv g =
     (sem_wf (g_sem g) \<and> breaker_inv (g_brk g) \<and> books g \<and>
      (\<not> sem_shutdown (g_sem g) \<longrightarrow> balanced g))"

lemma settle_fields [simp]:
  "g_sem (settle r out g) = g_sem g" "g_brk (settle r out g) = g_brk g"
  "g_permits (settle r out g) = g_permits g"
  by (simp_all add: settle_def split: option.split)

lemma settle_get [simp]:
  "obj_get (g_settled (settle r out g)) r' =
     (case obj_get (g_settled g) r' of Some x \<Rightarrow> Some x
      | None \<Rightarrow> if r' = r then Some out else None)"
  by (auto simp: settle_def split: option.splits)

lemma settle_keys [simp]:
  "fst ` set (g_settled (settle r out g)) = insert r (fst ` set (g_settled g))"
  by (auto simp: settle_def split: option.splits) (metis image_eqI map_of_SomeD fst_conv)

lemma settle_distinct [simp]:
  "distinct (obj_keys (g_settled g)) \<Longrightarrow> distinct (obj_keys (g_settled (settle r out g)))"
  by (auto simp: settle_def split: option.splits)


text \<open>Handing out permits for freshly granted waiters.\<close>

lemma hand_out_all_frame [simp]:
  "g_sem (hand_out_all ws g) = g_sem g" "g_brk (hand_out_all ws g) = g_brk g"
  by (induction ws g rule: hand_out_all.induct) (simp_all add: hand_out_def)

lemma hand_out_books:
  assumes "books g" "rid \<notin> fst ` set (g_settled g)" "0 < w"
    "rid \<notin> w_id ` set (sem_waiters (g_sem g))"
  shows "books (hand_out rid w i g)"
    "ledger (g_permits (hand_out rid w i g)) = ledger (g_permits g) + w"
    "ledger_by (g_permits (hand_out rid w i g)) k =
       ledger_by (g_permits g) k + (if i = k then w else 0)"
proof -
  have new: "rid \<notin> fst ` set (g_permits g)" "obj_get (g_settled g) rid = None"
    using assms(1,2) by (auto simp: books_def map_of_eq_None_iff) (metis option.simps(3) map_of_eq_None_iff)
  then show "ledger (g_permits (hand_out rid w i g)) = ledger (g_permits g) + w"
    "ledger_by (g_permits (hand_out rid w i g)) k =
       ledger_by (g_permits g) k + (if i = k then w else 0)"
    by (simp_all add: hand_out_def ledger_new live_weight_def)
  have "\<forall>(r, p)\<in>set (obj_set (g_permits g) rid
      \<lparr>p_weight = w, p_intention = i, p_released = False\<rparr>). 0 < p_weight p"
    using assms(1,3) unfolding obj_keys_set_absent [OF new(1)] by (auto simp: books_def)
  then show "books (hand_out rid w i g)"
    using assms new by (auto simp: books_def hand_out_def split: option.splits)
qed

definition fresh_batch :: "waiter list \<Rightarrow> gate \<Rightarrow> bool" where
  "fresh_batch ws g =
     (books g \<and> distinct (map w_id ws) \<and> (\<forall>w\<in>set ws. 0 < w_weight w) \<and>
      w_id ` set ws \<inter> fst ` set (g_settled g) = {} \<and>
      w_id ` set ws \<inter> w_id ` set (sem_waiters (g_sem g)) = {})"

lemma fresh_batch_tl:
  assumes "fresh_batch (w # ws) g"
  shows "fresh_batch ws (hand_out (w_id w) (w_weight w) (w_intention w) g)"
proof -
  have "books (hand_out (w_id w) (w_weight w) (w_intention w) g)"
    using assms by (intro hand_out_books) (auto simp: fresh_batch_def)
  then show ?thesis using assms by (auto simp: fresh_batch_def hand_out_def)
qed

lemma hand_out_all_books:
  "fresh_batch ws g \<Longrightarrow> books (hand_out_all ws g) \<and>
   ledger (g_permits (hand_out_all ws g)) = ledger (g_permits g) + wsum ws \<and>
   ledger_by (g_permits (hand_out_all ws g)) k = ledger_by (g_permits g) k + wsum_by ws k"
proof (induction ws arbitrary: g)
  case (Cons w ws)
  let ?h = "hand_out (w_id w) (w_weight w) (w_intention w) g"
  have "books g" "w_id w \<notin> fst ` set (g_settled g)" "0 < w_weight w"
    "w_id w \<notin> w_id ` set (sem_waiters (g_sem g))"
    using Cons.prems by (auto simp: fresh_batch_def)
  note h = hand_out_books(2,3) [OF this, where i = "w_intention w"]
  show ?case
    using Cons.IH [OF fresh_batch_tl [OF Cons.prems]] h by simp
qed (simp add: fresh_batch_def)

text \<open>The step every draining operation shares.\<close>

lemma moved_fresh:
  assumes inv: "gate_inv g" and mv: "moved (g_sem g) ws s"
  shows "fresh_batch ws (g\<lparr>g_sem := s\<rparr>)"
proof -
  let ?g = "g\<lparr>g_sem := s\<rparr>"
  have ms: "mset (sem_waiters s) + mset ws = mset (sem_waiters (g_sem g))"
    using mv by (simp add: moved_def)
  have "distinct (map w_id (sem_waiters (g_sem g)))"
    using inv by (simp add: gate_inv_def sem_wf_def)
  moreover have "mset (map w_id (sem_waiters (g_sem g))) = mset (map w_id (sem_waiters s @ ws))"
    using ms by (metis mset_append mset_map)
  ultimately have dist: "distinct (map w_id (sem_waiters s @ ws))"
    by (metis mset_eq_imp_distinct_iff)
  have sets: "set (sem_waiters s) \<union> set ws = set (sem_waiters (g_sem g))"
    using set_parts [OF ms] .
  have ids: "w_id ` set (sem_waiters s) \<union> w_id ` set ws = w_id ` set (sem_waiters (g_sem g))"
    unfolding sets [symmetric] by (rule image_Un [symmetric])
  have bk: "books g" and pos: "\<forall>w\<in>set (sem_waiters (g_sem g)). 0 < w_weight w"
    using inv by (simp_all add: gate_inv_def sem_wf_def)
  have disj: "w_id ` set (sem_waiters (g_sem g)) \<inter> fst ` set (g_settled g) = {}"
    using bk by (simp add: books_def)
  have "w_id ` set (sem_waiters s) \<inter> fst ` set (g_settled g) = {}"
    and "w_id ` set ws \<inter> fst ` set (g_settled g) = {}"
    using disj ids by blast+
  moreover from this have "books ?g" using bk by (simp add: books_def)
  moreover have "\<forall>w\<in>set ws. 0 < w_weight w" using pos sets by blast
  moreover have "w_id ` set ws \<inter> w_id ` set (sem_waiters s) = {}" using dist by auto
  moreover have "distinct (map w_id ws)" using dist by simp
  ultimately show ?thesis by (simp add: fresh_batch_def)
qed

lemma moved_inv:
  assumes inv: "gate_inv g" and wf: "sem_wf s" and mv: "moved (g_sem g) ws s"
  shows "gate_inv (hand_out_all ws (g\<lparr>g_sem := s\<rparr>))"
  using inv wf mv hand_out_all_books [OF moved_fresh [OF inv mv]]
  by (simp add: gate_inv_def balanced_def moved_def)

subsection \<open>Every operation keeps the invariant\<close>

lemma gate_invD:
  assumes "gate_inv g"
  shows "sem_wf (g_sem g)" "breaker_inv (g_brk g)" "books g"
    "\<not> sem_shutdown (g_sem g) \<Longrightarrow> balanced g"
  using assms by (simp_all add: gate_inv_def)

lemma gate_inv_brk: "gate_inv g \<Longrightarrow> breaker_inv b \<Longrightarrow> gate_inv (g\<lparr>g_brk := b\<rparr>)"
  by (simp add: gate_inv_def books_def balanced_def)

lemma gate_inv_sem:
  assumes "gate_inv g" "sem_wf s" "moved (g_sem g) [] s"
  shows "gate_inv (g\<lparr>g_sem := s\<rparr>)"
  using moved_inv [OF assms] by simp

lemma books_settle_rejected:
  assumes "books g" "rid \<notin> w_id ` set (sem_waiters (g_sem g))"
  shows "books (settle rid (Rejected e) g)"
  using assms by (auto simp: books_def split: option.splits)

lemma settle_rejected_inv:
  assumes "gate_inv g" "rid \<notin> w_id ` set (sem_waiters (g_sem g))"
  shows "gate_inv (settle rid (Rejected e) g)"
  using assms books_settle_rejected [of g rid e] by (simp add: gate_inv_def balanced_def)

lemma maybe_half_open_inv:
  "breaker_inv b \<Longrightarrow> maybe_half_open now b = (b', st) \<Longrightarrow> breaker_inv b'"
  using breaker_step_inv [of b "BAcquire now"] by simp

lemma hand_out_grant_inv:
  assumes inv: "gate_inv g" and new: "\<not> known rid g" and w: "0 < w"
  shows "gate_inv (hand_out rid w i (g\<lparr>g_sem := grant w i (g_sem g)\<rparr>))"
proof -
  let ?g = "g\<lparr>g_sem := grant w i (g_sem g)\<rparr>"
  have f: "sem_waiters (grant w i s) = sem_waiters s" "sem_pending (grant w i s) = sem_pending s"
    "sem_shutdown (grant w i s) = sem_shutdown s" for s
    by (simp_all add: grant_def)
  have "books ?g" using gate_invD(3) [OF inv] by (simp add: books_def f)
  moreover have "rid \<notin> fst ` set (g_settled ?g)" "rid \<notin> w_id ` set (sem_waiters (g_sem ?g))"
    using new by (auto simp: known_def f)
  ultimately have b: "books (hand_out rid w i ?g)"
    "ledger (g_permits (hand_out rid w i ?g)) = ledger (g_permits ?g) + w"
    "\<And>k. ledger_by (g_permits (hand_out rid w i ?g)) k =
       ledger_by (g_permits ?g) k + (if i = k then w else 0)"
    using w by (intro hand_out_books; simp)+
  have s: "g_sem (hand_out rid w i ?g) = grant w i (g_sem g)"
    "g_brk (hand_out rid w i ?g) = g_brk g" by (simp_all add: hand_out_def)
  show ?thesis
    using gate_invD [OF inv] grant_wf [OF gate_invD(1) [OF inv] w] b
    by (auto simp: gate_inv_def balanced_def s f) (auto simp: grant_def)
qed

lemma enqueue_moved:
  assumes "enqueue w s = (s', True)"
  shows "sem_active s' = sem_active s" "sem_active_by s' = sem_active_by s"
    "sem_pending s' = sem_pending s" "sem_shutdown s' = sem_shutdown s"
    "sem_waiters s' = sem_waiters s @ [w]"
  using assms by (auto simp: enqueue_def split: if_splits)

lemma enqueue_inv:
  assumes inv: "gate_inv g" and new: "\<not> known (w_id w) g" and pos: "0 < w_weight w"
    and enq: "enqueue w (g_sem g) = (s', True)"
  shows "gate_inv (g\<lparr>g_sem := s'\<rparr>)"
proof -
  note e = enqueue_moved [OF enq]
  have "sem_wf s'"
    using enqueue_wf [OF gate_invD(1) [OF inv] pos] new enq by (auto simp: known_def)
  then show ?thesis
    using inv new by (auto simp: gate_inv_def books_def balanced_def known_def e)
qed

lemma known_cong [simp]: "known rid (g\<lparr>g_brk := b\<rparr>) = known rid g"
  by (simp add: known_def)

lemma acquire_inv:
  assumes inv: "gate_inv g" and new: "\<not> known rid g"
  shows "gate_inv (acquire now rid weight intention g)"
proof (cases "scaled_weight weight \<le> 0")
  case True
  then show ?thesis
    using settle_rejected_inv [OF inv] new by (simp add: acquire_def known_def)
next
  case False
  define w where "w = scaled_weight weight"
  define i where "i = (case intention of None \<Rightarrow> ''main'' | Some i \<Rightarrow> i)"
  obtain b st where mho: "maybe_half_open now (g_brk g) = (b, st)" by force
  let ?g = "g\<lparr>g_brk := b\<rparr>"
  have inv1: "gate_inv ?g"
    using gate_inv_brk [OF inv maybe_half_open_inv [OF gate_invD(2) [OF inv] mho]] .
  have new1: "\<not> known rid ?g" using new by simp
  let ?w = "\<lparr>w_id = rid, w_enqueued_at = now, w_weight = w, w_intention = i,
             w_was_probe = (st = HalfOpen)\<rparr>"
  obtain s ok where enq: "enqueue ?w (g_sem g) = (s, ok)" by force
  have eq: "acquire now rid weight intention g =
     (if st = Opened then settle rid (Rejected CircuitOpen) ?g
      else if can_grant (g_sem g) i w then hand_out rid w i (?g\<lparr>g_sem := grant w i (g_sem ?g)\<rparr>)
      else if \<not> ok then settle rid (Rejected QueueFull) ?g else ?g\<lparr>g_sem := s\<rparr>)"
    using False by (simp add: acquire_def mho enq w_def [symmetric] i_def [symmetric] Let_def)
  have "rid \<notin> w_id ` set (sem_waiters (g_sem ?g))" using new1 by (auto simp: known_def)
  then show ?thesis
    unfolding eq
    using settle_rejected_inv [OF inv1] hand_out_grant_inv [OF inv1 new1] False
      enqueue_inv [OF inv1, of ?w s] enq new
    by (auto simp: w_def)
qed

lemma remove_waiter_facts:
  assumes "remove_waiter rid s = (s', ok)" "distinct (map w_id (sem_waiters s))"
  shows "sem_active s' = sem_active s" "sem_active_by s' = sem_active_by s"
    "sem_pending s' = sem_pending s" "sem_shutdown s' = sem_shutdown s"
    "w_id ` set (sem_waiters s') = w_id ` set (sem_waiters s) - {rid}"
    "ok = (rid \<in> w_id ` set (sem_waiters s))"
proof -
  have rem: "w_id ` set (remove1 w ws) = w_id ` set ws - {w_id w}"
    if "w \<in> set ws" "distinct (map w_id ws)" for w and ws :: "waiter list"
    using that by (induction ws) auto
  show "sem_active s' = sem_active s" "sem_active_by s' = sem_active_by s"
    "sem_pending s' = sem_pending s" "sem_shutdown s' = sem_shutdown s"
    using assms(1) by (auto simp: remove_waiter_def dec_queued_def split: option.splits)
  show "w_id ` set (sem_waiters s') = w_id ` set (sem_waiters s) - {rid}"
    "ok = (rid \<in> w_id ` set (sem_waiters s))"
  proof (induct "find (\<lambda>w. w_id w = rid) (sem_waiters s)")
    case None
    then have "sem_waiters s' = sem_waiters s" "\<not> ok" "rid \<notin> w_id ` set (sem_waiters s)"
      using assms(1) find_None_iff [of "\<lambda>w. w_id w = rid" "sem_waiters s"]
      by (auto simp: remove_waiter_def)
    then show "w_id ` set (sem_waiters s') = w_id ` set (sem_waiters s) - {rid}"
      "ok = (rid \<in> w_id ` set (sem_waiters s))" by simp_all
  next
    case (Some w)
    note w = find_waiter [OF Some [symmetric]]
    have "sem_waiters s' = remove1 w (sem_waiters s)" ok
      using assms(1) Some [symmetric] by (auto simp: remove_waiter_def dec_queued_def)
    then show "w_id ` set (sem_waiters s') = w_id ` set (sem_waiters s) - {rid}"
      "ok = (rid \<in> w_id ` set (sem_waiters s))"
      using rem [OF _ assms(2), of w] w by auto
  qed
qed

lemma leave_queue_inv:
  assumes inv: "gate_inv g"
  shows "gate_inv (leave_queue now rid err g)"
proof -
  obtain s ok where rw: "remove_waiter rid (g_sem g) = (s, ok)" by force
  note r = remove_waiter_facts [OF rw]
  have dist: "distinct (map w_id (sem_waiters (g_sem g)))"
    using gate_invD(1) [OF inv] by (simp add: sem_wf_def)
  have wf: "sem_wf s" using remove_waiter_wf [OF gate_invD(1) [OF inv], of rid] rw by simp
  have brk: "breaker_inv (reset_half_open_probe now (g_brk g))"
    using breaker_step_inv [of "g_brk g" "BProbeReset now"] gate_invD(2) [OF inv] by simp
  have "books (g\<lparr>g_sem := s\<rparr>)"
    using gate_invD(3) [OF inv] r(5) [OF dist] unfolding books_def by auto
  then have "gate_inv (g\<lparr>g_sem := s\<rparr>)"
    using inv wf r(1-4) [OF dist] by (simp add: gate_inv_def balanced_def)
  then have inv1: "gate_inv (g\<lparr>g_sem := s, g_brk := b\<rparr>)" if "breaker_inv b" for b
    using gate_inv_brk [OF _ that, of "g\<lparr>g_sem := s\<rparr>"] by simp
  define b where "b = (if ok \<and> (case find (\<lambda>w. w_id w = rid) (sem_waiters (g_sem g)) of
      None \<Rightarrow> False | Some w \<Rightarrow> w_was_probe w) then reset_half_open_probe now (g_brk g) else g_brk g)"
  have b: "breaker_inv b"
    "leave_queue now rid err g = settle rid (Rejected err) (g\<lparr>g_sem := s, g_brk := b\<rparr>)"
    using brk gate_invD(2) [OF inv] by (simp_all add: leave_queue_def rw Let_def b_def)
  have "rid \<notin> w_id ` set (sem_waiters s)" using r(5) [OF dist] by simp
  then show ?thesis unfolding b(2) by (intro settle_rejected_inv inv1 b(1)) simp
qed

lemma release_inv:
  assumes inv: "gate_inv g"
  shows "gate_inv (release rid g)"
proof (cases "obj_get (g_permits g) rid")
  case (Some p)
  show ?thesis
  proof (cases "p_released p")
    case False
    let ?ps = "obj_set (g_permits g) rid (p\<lparr>p_released := True\<rparr>)"
    let ?s = "release_permit (p_weight p) (p_intention p) (g_sem g)"
    have eq: "release rid g = g\<lparr>g_permits := ?ps, g_sem := ?s\<rparr>"
      using Some False by (simp add: release_def)
    have mem: "(rid, p) \<in> set (g_permits g)" using Some by (rule map_of_SomeD)
    have key: "rid \<in> fst ` set (g_permits g)" using mem by (rule rev_image_eqI) simp
    have pos: "0 < p_weight p" using mem gate_invD(3) [OF inv] by (auto simp: books_def)
    have s: "sem_waiters ?s = sem_waiters (g_sem g)" "sem_active ?s = sem_active (g_sem g)"
      "sem_active_by ?s = sem_active_by (g_sem g)" "sem_shutdown ?s = sem_shutdown (g_sem g)"
      "\<not> sem_shutdown (g_sem g) \<Longrightarrow>
         sem_pending ?s = sem_pending (g_sem g) @ [(p_weight p, p_intention p)]"
      by (simp_all add: release_permit_def Let_def)
    have "\<forall>(r, q)\<in>set ?ps. 0 < p_weight q"
    proof -
      have "set (obj_set d k v) \<subseteq> insert (k, v) (set d)" for d :: "(nat \<times> permit) list" and k v
        by (induction d k v rule: obj_set.induct) auto
      then have "set ?ps \<subseteq> insert (rid, p\<lparr>p_released := True\<rparr>) (set (g_permits g))" .
      then show ?thesis using gate_invD(3) [OF inv] pos unfolding books_def by auto
    qed
    moreover have "fst ` set ?ps = fst ` set (g_permits g)"
      using key by (simp add: insert_absorb)
    ultimately have "books (release rid g)"
      using gate_invD(3) [OF inv] unfolding eq books_def by (simp add: s del: set_keys_obj_set)
    moreover have "\<not> sem_shutdown (g_sem g) \<Longrightarrow> balanced (release rid g)"
      using gate_invD(4) [OF inv] ledger_release [OF Some False]
      unfolding eq balanced_def by (auto simp: s)
    ultimately show ?thesis
      using gate_invD(1,2) [OF inv] release_permit_wf [OF gate_invD(1) [OF inv] pos]
      by (simp add: gate_inv_def eq s)
  qed (use inv Some in \<open>simp add: release_def\<close>)
qed (use inv in \<open>simp add: release_def\<close>)

lemma cooldown_fire_inv:
  assumes inv: "gate_inv g"
  shows "gate_inv (cooldown_fire g)"
proof -
  let ?t = "(g_sem g)\<lparr>sem_timer_armed := False, sem_pending := []\<rparr>"
  let ?b = "return_batch (sem_pending (g_sem g)) ?t"
  obtain s ws where run: "release_timer_fire (g_sem g) = (s, ws)" by force
  then have dr: "drain_waiters ?b = (s, ws)" by (simp add: release_timer_fire_def)
  have wfb: "sem_wf ?b"
    using gate_invD(1) [OF inv] return_batch_nonneg [of ?t "sem_pending (g_sem g)"]
    by (auto simp: sem_wf_def return_batch_frame)
  have "balanced (g\<lparr>g_sem := ?b\<rparr>)" if "balanced g"
  proof -
    have pos: "\<forall>(w, i)\<in>set (sem_pending (g_sem g)). 0 < w"
      using gate_invD(1) [OF inv] by (simp add: sem_wf_def)
    have led: "0 \<le> ledger (g_permits g)" "\<And>k. 0 \<le> ledger_by (g_permits g) k"
      using gate_invD(3) [OF inv] ledger_nonneg by (auto simp: books_def)
    then have "psum (sem_pending (g_sem g)) \<le> sem_active ?t"
      "\<forall>k. psum_by (sem_pending (g_sem g)) k \<le> obj_num (sem_active_by ?t) k"
      using that by (simp_all add: balanced_def)
    then show ?thesis
      using return_batch_exact [OF pos, of ?t] that
      by (simp add: balanced_def return_batch_frame)
  qed
  then have "gate_inv (g\<lparr>g_sem := ?b\<rparr>)"
    using inv wfb by (simp add: gate_inv_def books_def return_batch_frame)
  from moved_inv [OF this drain_waiters_spec(1) [OF wfb dr]] drain_waiters_moved [OF wfb dr]
  show ?thesis by (simp add: cooldown_fire_def run)
qed

lemma gate_resize_inv:
  assumes inv: "gate_inv g" and run: "gate_resize x g = Some g'"
  shows "gate_inv g'"
proof -
  obtain s c ws where r: "resize x (g_sem g) = Some (s, c, ws)"
    and g': "g' = hand_out_all ws (g\<lparr>g_sem := s\<rparr>)"
    using run by (auto simp: gate_resize_def split: option.splits)
  show ?thesis
    unfolding g' using resize_spec(1,2) [OF gate_invD(1) [OF inv] r] by (rule moved_inv [OF inv])
qed

lemma gate_set_hard_cap_inv:
  assumes inv: "gate_inv g"
  shows "gate_inv (gate_set_hard_cap x g)"
proof -
  obtain s c ws where r: "set_hard_cap x (g_sem g) = (s, c, ws)" by (metis prod_cases3)
  show ?thesis
    using moved_inv [OF inv set_hard_cap_spec(1,2) [OF gate_invD(1) [OF inv] r]]
    by (simp add: gate_set_hard_cap_def r)
qed

lemma gate_set_soft_limit_inv: "gate_inv g \<Longrightarrow> gate_inv (gate_set_soft_limit x g)"
  using gate_inv_sem [OF _ set_soft_limit_spec] gate_invD(1)
  by (auto simp: gate_set_soft_limit_def)

lemma sem_reconfigure_moved: "moved s [] (sem_reconfigure opts s)"
  by (auto simp: sem_reconfigure_def moved_def Let_def split: option.split)

lemma gate_reconfigure_inv:
  assumes "gate_inv g" "case po_intentions opts of None \<Rightarrow> True | Some i \<Rightarrow> intentions_ok i"
  shows "gate_inv (gate_reconfigure now opts g)"
proof -
  have "breaker_inv (br_reconfigure now t w c (g_brk g))" for t w c
    using breaker_step_inv [of "g_brk g" "BReconfigure now t w c"] gate_invD(2) [OF assms(1)] by simp
  then show ?thesis
    using gate_inv_brk [OF gate_inv_sem [OF assms(1) sem_reconfigure_wf sem_reconfigure_moved]]
      gate_invD(1) [OF assms(1)] assms(2)
    by (simp add: gate_reconfigure_def)
qed

lemma reject_all_frame [simp]:
  "g_sem (reject_all ws g) = g_sem g" "g_brk (reject_all ws g) = g_brk g"
  by (induction ws g rule: reject_all.induct) simp_all

lemma reject_all_books:
  "books g \<Longrightarrow> sem_waiters (g_sem g) = [] \<Longrightarrow> books (reject_all ws g)"
  by (induction ws g rule: reject_all.induct) (simp_all add: books_settle_rejected)

lemma gate_shutdown_inv:
  assumes "gate_inv g"
  shows "gate_inv (gate_shutdown g)"
proof -
  obtain s ws where run: "sem_shut_down (g_sem g) = (s, ws)" by force
  note spec = sem_shut_down_spec [OF gate_invD(1) [OF assms] run]
  have "books (g\<lparr>g_sem := s\<rparr>)" using gate_invD(3) [OF assms] spec(3) by (simp add: books_def)
  then show ?thesis
    using reject_all_books [of "g\<lparr>g_sem := s\<rparr>" ws] gate_invD(2) [OF assms] spec
    by (simp add: gate_shutdown_def run gate_inv_def)
qed

lemma new_gate_inv: "options_ok opts \<Longrightarrow> gate_inv (new_gate opts)"
  using new_semaphore_wf [of opts]
  by (simp add: gate_inv_def options_ok_def new_gate_def books_def balanced_def)
    (simp add: new_semaphore_def Let_def)

lemmas gate_op_invs = acquire_inv leave_queue_inv release_inv cooldown_fire_inv gate_resize_inv
  gate_set_hard_cap_inv gate_set_soft_limit_inv gate_reconfigure_inv gate_shutdown_inv

lemma gate_step_inv: "gate_step g e g' \<Longrightarrow> gate_inv g \<Longrightarrow> gate_inv g'"
proof (induction rule: gate_step.induct)
  case (record_429 g now kind)
  then show ?case
    using gate_inv_brk breaker_step_inv [of "g_brk g" "B429 now kind"] gate_invD(2)
    by (simp add: gate_record_429_def)
next
  case (record_success g)
  then show ?case
    using gate_inv_brk breaker_step_inv [of "g_brk g" BSuccess] gate_invD(2)
    by (simp add: gate_record_success_def)
qed (simp_all add: gate_op_invs queue_timeout_def client_abort_def)

interpretation gate_runs: invariant_system gate_step gate_inv
  by unfold_locales (rule gate_step_inv)

lemmas gate_run_inv = gate_runs.run_inv

lemma reachable_inv: "reachable g \<Longrightarrow> gate_inv g"
  by (auto simp: reachable_def dest: gate_run_inv new_gate_inv)

subsection \<open>Progress\<close>

text \<open>
  What the gateway sends to the gate: requests that weigh at most one permit (the model weights
  are 1, 1/2 and 1/4) and reservations of whole slots.
\<close>

definition whole_intentions :: "rat obj \<Rightarrow> bool" where
  "whole_intentions i = (intentions_ok i \<and> (\<forall>(k, r)\<in>set i. r = 0 \<or> 1 \<le> r))"

fun light_event :: "gate_event \<Rightarrow> bool" where
  "light_event (Acquire now rid weight intention) = (scaled_weight weight \<le> SCALE)"
| "light_event (Reconfigure now opts) =
     (case po_intentions opts of None \<Rightarrow> True | Some i \<Rightarrow> whole_intentions i)"
| "light_event _ = True"

definition light_options :: "gate_options \<Rightarrow> bool" where
  "light_options opts = (case o_intentions opts of None \<Rightarrow> True | Some i \<Rightarrow> whole_intentions i)"

definition lively :: "gate \<Rightarrow> bool" where
  "lively g =
     (whole_slots (g_sem g) \<and> (\<forall>w\<in>set (sem_waiters (g_sem g)). w_weight w \<le> SCALE) \<and>
      (\<not> sem_shutdown (g_sem g) \<longrightarrow> sem_active (g_sem g) = 0 \<longrightarrow> sem_waiters (g_sem g) = []))"

lemma whole_slots_cong: "sem_reservations s' = sem_reservations s \<Longrightarrow> whole_slots s' = whole_slots s"
  by (simp only: whole_slots_def)

lemma whole_scale: "whole_intentions i \<Longrightarrow>
   obj_num (scale_reservations i) k = 0 \<or> SCALE \<le> obj_num (scale_reservations i) k"
proof -
  assume w: "whole_intentions i"
  have r: "1 \<le> r \<Longrightarrow> SCALE \<le> js_round (r * rat_of_int SCALE)" for r
    using js_round_mono [of "of_int SCALE" "r * of_int SCALE"] by (simp add: SCALE_def)
  show ?thesis
  proof (cases "obj_get (scale_reservations i) k")
    case (Some v)
    then obtain q where "(k, q) \<in> set i" "v = js_round (q * rat_of_int SCALE)"
      by (auto simp: scale_reservations_def dest!: map_of_SomeD)
    then show ?thesis using w r Some by (auto simp: whole_intentions_def obj_num_def)
  qed (simp add: obj_num_def)
qed

lemma active_by_idle:
  assumes "gate_inv g" "\<not> sem_shutdown (g_sem g)" "sem_active (g_sem g) = 0"
  shows "obj_num (sem_active_by (g_sem g)) k = 0"
proof -
  have bal: "balanced g" using assms by (simp add: gate_inv_def)
  have pos: "\<forall>(w, i)\<in>set (sem_pending (g_sem g)). 0 < w"
    using gate_invD(1) [OF assms(1)] by (simp add: sem_wf_def)
  have pp: "\<forall>(rid, p)\<in>set (g_permits g). 0 < p_weight p"
    using gate_invD(3) [OF assms(1)] by (simp add: books_def)
  have by_le: "psum_by b k \<le> psum b" if "\<forall>(w, i)\<in>set b. 0 < w" for b :: "(int \<times> string) list"
    using that by (induction b) auto
  show ?thesis
    using bal assms(3) ledger_nonneg [OF pp, of k] psum_nonneg [OF pos, of k] by_le [OF pos]
    by (simp add: balanced_def)
qed

lemma moved_lively:
  assumes lv: "lively g" and inv: "gate_inv g" and mv: "moved (g_sem g) ws s"
    and res: "sem_reservations s = sem_reservations (g_sem g)"
  shows "lively (hand_out_all ws (g\<lparr>g_sem := s\<rparr>))"
proof -
  have sets: "set (sem_waiters s) \<union> set ws = set (sem_waiters (g_sem g))"
    using mv by (intro set_parts) (simp add: moved_def)
  have "0 \<le> wsum ws"
    using sets gate_invD(1) [OF inv] by (intro wsum_nonneg) (auto simp: sem_wf_def)
  moreover have "0 \<le> sem_active (g_sem g)" using gate_invD(1) [OF inv] by (simp add: sem_wf_def)
  ultimately have "sem_active s = 0 \<Longrightarrow> sem_active (g_sem g) = 0" using mv by (simp add: moved_def)
  then show ?thesis
    using lv mv sets whole_slots_cong [OF res] by (auto simp: lively_def moved_def)
qed

lemma lively_same:
  assumes "lively g" "sem_reservations (g_sem g') = sem_reservations (g_sem g)"
    "sem_active (g_sem g') = sem_active (g_sem g)" "sem_shutdown (g_sem g') = sem_shutdown (g_sem g)"
    "set (sem_waiters (g_sem g')) \<subseteq> set (sem_waiters (g_sem g))"
  shows "lively g'"
  using assms whole_slots_cong [OF assms(2)] by (auto simp: lively_def)

lemma acquire_lively:
  assumes inv: "gate_inv g" and lv: "lively g" and new: "\<not> known rid g"
    and light: "scaled_weight weight \<le> SCALE"
  shows "lively (acquire now rid weight intention g)"
proof -
  define w where "w = scaled_weight weight"
  define i where "i = (case intention of None \<Rightarrow> ''main'' | Some i \<Rightarrow> i)"
  obtain b st where mho: "maybe_half_open now (g_brk g) = (b, st)" by force
  let ?w = "\<lparr>w_id = rid, w_enqueued_at = now, w_weight = w, w_intention = i,
             w_was_probe = (st = HalfOpen)\<rparr>"
  obtain s ok where enq: "enqueue ?w (g_sem g) = (s, ok)" by force
  have sem: "g_sem (acquire now rid weight intention g) =
     (if w \<le> 0 \<or> st = Opened then g_sem g
      else if can_grant (g_sem g) i w then grant w i (g_sem g)
      else if \<not> ok then g_sem g else s)"
    by (simp add: acquire_def mho enq w_def [symmetric] i_def [symmetric] Let_def hand_out_def)
  consider (same) "g_sem (acquire now rid weight intention g) = g_sem g"
    | (granted) "0 < w" "g_sem (acquire now rid weight intention g) = grant w i (g_sem g)"
    | (queued) "0 < w" "\<not> can_grant (g_sem g) i w" ok
        "g_sem (acquire now rid weight intention g) = s"
    using sem by (auto split: if_splits)
  then show ?thesis
  proof cases
    case same
    then show ?thesis using lv by (simp add: lively_def)
  next
    case granted
    have "whole_slots (grant w i (g_sem g)) = whole_slots (g_sem g)"
      by (rule whole_slots_cong) (simp add: grant_def)
    moreover have "sem_waiters (grant w i (g_sem g)) = sem_waiters (g_sem g)"
      "sem_active (grant w i (g_sem g)) = sem_active (g_sem g) + w"
      by (simp_all add: grant_def)
    moreover have "0 \<le> sem_active (g_sem g)" using gate_invD(1) [OF inv] by (simp add: sem_wf_def)
    ultimately show ?thesis using lv granted by (simp add: lively_def)
  next
    case queued
    have e: "enqueue ?w (g_sem g) = (s, True)" using enq queued(3) by simp
    note f = enqueue_moved [OF e]
    have res: "sem_reservations s = sem_reservations (g_sem g)"
      using e by (auto simp: enqueue_def split: if_splits)
    have inv': "gate_inv (g\<lparr>g_sem := s\<rparr>)"
      using enqueue_inv [OF inv _ _ e] new queued(1) by simp
    have "sem_active s \<noteq> 0" if sd: "\<not> sem_shutdown s"
    proof
      assume idle: "sem_active s = 0"
      have empty: "sem_waiters s = [?w]" using lv idle sd f by (simp add: lively_def)
      have "whole_slots s" using lv whole_slots_cong [OF res] by (simp add: lively_def)
      moreover have "\<forall>k. obj_num (sem_active_by s) k = 0"
        using active_by_idle [OF inv'] idle sd by simp
      ultimately have "\<exists>v\<in>set (sem_waiters s). can_grant s (w_intention v) (w_weight v)"
        using gate_invD(1) [OF inv'] light idle by (intro idle_grantable) (auto simp: empty w_def)
      then show False
        using can_grant_enqueue [OF e] queued(2) by (simp add: empty)
    qed
    then show ?thesis
      using lv light queued(4) f whole_slots_cong [OF res] by (auto simp: lively_def w_def)
  qed
qed

lemma cooldown_lively:
  assumes inv: "gate_inv g" and lv: "lively g"
  shows "lively (cooldown_fire g)"
proof -
  obtain s ws where run: "release_timer_fire (g_sem g) = (s, ws)" by force
  note spec = release_timer_fire_spec [OF gate_invD(1) [OF inv] run]
  have sem: "g_sem (cooldown_fire g) = s" by (simp add: cooldown_fire_def run)
  have sub: "set (sem_waiters s) \<subseteq> set (sem_waiters (g_sem g))"
    using set_parts [OF spec(8)] by blast
  have ws: "whole_slots s" "\<forall>w\<in>set (sem_waiters s). w_weight w \<le> SCALE"
    using lv sub whole_slots_cong [OF spec(7)] by (auto simp: lively_def)
  have "sem_waiters s = []" if "\<not> sem_shutdown s" "sem_active s = 0"
  proof (rule ccontr)
    assume ne: "sem_waiters s \<noteq> []"
    have "\<forall>k. obj_num (sem_active_by s) k = 0"
      using active_by_idle [OF cooldown_fire_inv [OF inv]] that by (simp add: sem)
    then have "\<exists>w\<in>set (sem_waiters s). can_grant s (w_intention w) (w_weight w)"
      using idle_grantable [OF spec(1) ws that(2) _ ne] by blast
    then show False using spec(9) by blast
  qed
  then show ?thesis using ws by (simp add: lively_def sem)
qed

lemma leave_queue_sem:
  assumes "gate_inv g"
  shows "sem_active (g_sem (leave_queue now rid err g)) = sem_active (g_sem g)"
    "sem_shutdown (g_sem (leave_queue now rid err g)) = sem_shutdown (g_sem g)"
    "sem_reservations (g_sem (leave_queue now rid err g)) = sem_reservations (g_sem g)"
    "set (sem_waiters (g_sem (leave_queue now rid err g))) \<subseteq> set (sem_waiters (g_sem g))"
    "w_id ` set (sem_waiters (g_sem (leave_queue now rid err g))) =
       w_id ` set (sem_waiters (g_sem g)) - {rid}"
    "g_permits (leave_queue now rid err g) = g_permits g"
    "g_settled (leave_queue now rid err g) = g_settled (settle rid (Rejected err) g)"
proof -
  obtain s ok where rw: "remove_waiter rid (g_sem g) = (s, ok)" by force
  have dist: "distinct (map w_id (sem_waiters (g_sem g)))"
    using gate_invD(1) [OF assms] by (simp add: sem_wf_def)
  note r = remove_waiter_facts [OF rw dist]
  have s: "g_sem (leave_queue now rid err g) = s"
    by (simp add: leave_queue_def rw Let_def)
  show "sem_active (g_sem (leave_queue now rid err g)) = sem_active (g_sem g)"
    "sem_shutdown (g_sem (leave_queue now rid err g)) = sem_shutdown (g_sem g)"
    "w_id ` set (sem_waiters (g_sem (leave_queue now rid err g))) =
       w_id ` set (sem_waiters (g_sem g)) - {rid}"
    using r s by simp_all
  show "sem_reservations (g_sem (leave_queue now rid err g)) = sem_reservations (g_sem g)"
    "set (sem_waiters (g_sem (leave_queue now rid err g))) \<subseteq> set (sem_waiters (g_sem g))"
    using rw unfolding s
    by (auto simp: remove_waiter_def dec_queued_def split: option.splits
        dest: set_remove1_subset [THEN subsetD])
  show "g_permits (leave_queue now rid err g) = g_permits g"
    "g_settled (leave_queue now rid err g) = g_settled (settle rid (Rejected err) g)"
    by (simp_all add: leave_queue_def rw Let_def settle_def split: option.split)
qed

lemma release_sem:
  "sem_active (g_sem (release rid g)) = sem_active (g_sem g)"
  "sem_shutdown (g_sem (release rid g)) = sem_shutdown (g_sem g)"
  "sem_reservations (g_sem (release rid g)) = sem_reservations (g_sem g)"
  "sem_waiters (g_sem (release rid g)) = sem_waiters (g_sem g)"
  "g_settled (release rid g) = g_settled g"
  by (auto simp: release_def release_permit_def Let_def split: option.split)

lemma sem_reconfigure_same:
  "sem_active (sem_reconfigure opts s) = sem_active s"
  "sem_shutdown (sem_reconfigure opts s) = sem_shutdown s"
  "sem_waiters (sem_reconfigure opts s) = sem_waiters s"
  "sem_reservations (sem_reconfigure opts s) =
     (case po_intentions opts of None \<Rightarrow> sem_reservations s | Some i \<Rightarrow> scale_reservations i)"
  by (auto simp: sem_reconfigure_def Let_def split: option.split)

lemma gate_step_lively:
  "gate_step g e g' \<Longrightarrow> gate_inv g \<Longrightarrow> lively g \<Longrightarrow> light_event e \<Longrightarrow> lively g'"
proof (induction rule: gate_step.induct)
  case (resize x g g')
  obtain s c ws where r: "Semaphore.resize x (g_sem g) = Some (s, c, ws)"
    and g': "g' = hand_out_all ws (g\<lparr>g_sem := s\<rparr>)"
    using resize.hyps by (auto simp: gate_resize_def split: option.splits)
  note spec = resize_spec [OF gate_invD(1) [OF resize.prems(1)] r]
  show ?case
    unfolding g' using resize.prems spec by (intro moved_lively) auto
next
  case (set_hard_cap g x)
  obtain s c ws where r: "Semaphore.set_hard_cap x (g_sem g) = (s, c, ws)" by (metis prod_cases3)
  note spec = set_hard_cap_spec [OF gate_invD(1) [OF set_hard_cap.prems(1)] r]
  show ?case
    using moved_lively [OF set_hard_cap.prems(2,1) spec(2,3)] by (simp add: gate_set_hard_cap_def r)
next
  case (set_soft_limit g x)
  have "sem_reservations (fst (Semaphore.set_soft_limit x (g_sem g))) = sem_reservations (g_sem g)"
    by (simp add: set_soft_limit_def Let_def)
  then show ?case
    using moved_lively [OF set_soft_limit.prems(2,1)
        set_soft_limit_spec(2) [OF gate_invD(1) [OF set_soft_limit.prems(1)]]]
    by (simp add: gate_set_soft_limit_def)
next
  case (reconfigure opts g now)
  have "whole_slots (sem_reconfigure opts (g_sem g))"
    using reconfigure.prems whole_scale
    by (auto simp: lively_def whole_slots_def sem_reconfigure_same split: option.splits)
  then show ?case
    using reconfigure.prems(2)
    by (simp add: lively_def gate_reconfigure_def sem_reconfigure_same)
next
  case (shutdown g)
  obtain s ws where run: "sem_shut_down (g_sem g) = (s, ws)" by force
  note spec = sem_shut_down_spec [OF gate_invD(1) [OF shutdown.prems(1)] run]
  show ?case
    using shutdown.prems(2) spec whole_slots_cong [OF spec(7)]
    by (simp add: lively_def gate_shutdown_def run)
next
  case (queue_timer rid g now)
  show ?case unfolding queue_timeout_def
    using queue_timer.prems(2)
    by (rule lively_same) (use leave_queue_sem [OF queue_timer.prems(1)] in auto)
next
  case (client_abort rid g now)
  show ?case unfolding client_abort_def
    using client_abort.prems(2)
    by (rule lively_same) (use leave_queue_sem [OF client_abort.prems(1)] in auto)
next
  case (release g rid)
  show ?case using release.prems(2) by (rule lively_same) (simp_all add: release_sem)
next
  case (acquire rid g now weight intention)
  then show ?case by (intro acquire_lively) auto
next
  case (cooldown g)
  then show ?case by (intro cooldown_lively)
qed (simp_all add: lively_def gate_record_429_def gate_record_success_def)

interpretation light_runs: guarded_invariant gate_step gate_inv light_event lively
  by unfold_locales (rule gate_step_lively)

lemma new_gate_lively: "light_options opts \<Longrightarrow> lively (new_gate opts)"
proof -
  assume light: "light_options opts"
  have main: "whole_intentions [(''main'', 1 :: rat)]"
    by (simp add: whole_intentions_def intentions_ok_def)
  have "whole_slots (new_semaphore opts)"
    using light whole_scale whole_scale [OF main]
    by (auto simp: new_semaphore_def whole_slots_def light_options_def Let_def split: option.splits)
  then show ?thesis
    by (simp add: lively_def new_gate_def) (simp add: new_semaphore_def Let_def)
qed

subsection \<open>The outcomes of an acquire\<close>

definition intention_of :: "string option \<Rightarrow> string" where
  "intention_of intention = (case intention of None \<Rightarrow> ''main'' | Some i \<Rightarrow> i)"

text \<open>The five ways an \<open>acquire\<close> can end, with the state each leaves.\<close>

lemma acquire_cases [consumes 0, case_names invalid rejected granted full queued]:
  fixes g :: gate and weight intention now rid
  defines "w \<equiv> scaled_weight weight" and "i \<equiv> intention_of intention"
    and "b \<equiv> fst (maybe_half_open now (g_brk g))"
  obtains (invalid) "w \<le> 0" "acquire now rid weight intention g = settle rid (Rejected InvalidWeight) g"
    | (rejected) "0 < w" "snd (maybe_half_open now (g_brk g)) = Opened"
        "acquire now rid weight intention g = settle rid (Rejected CircuitOpen) (g\<lparr>g_brk := b\<rparr>)"
    | (granted) "0 < w" "snd (maybe_half_open now (g_brk g)) \<noteq> Opened" "can_grant (g_sem g) i w"
        "acquire now rid weight intention g =
           hand_out rid w i (g\<lparr>g_brk := b, g_sem := grant w i (g_sem g)\<rparr>)"
    | (full) "0 < w" "snd (maybe_half_open now (g_brk g)) \<noteq> Opened" "\<not> can_grant (g_sem g) i w"
        "sem_max_queue_depth (g_sem g) \<le> int (length (sem_waiters (g_sem g)))"
        "acquire now rid weight intention g = settle rid (Rejected QueueFull) (g\<lparr>g_brk := b\<rparr>)"
    | (queued) s where "0 < w" "snd (maybe_half_open now (g_brk g)) \<noteq> Opened"
        "\<not> can_grant (g_sem g) i w"
        "enqueue \<lparr>w_id = rid, w_enqueued_at = now, w_weight = w, w_intention = i,
           w_was_probe = (snd (maybe_half_open now (g_brk g)) = HalfOpen)\<rparr> (g_sem g) = (s, True)"
        "acquire now rid weight intention g = g\<lparr>g_brk := b, g_sem := s\<rparr>"
proof -
  obtain b' st where mho: "maybe_half_open now (g_brk g) = (b', st)" by force
  obtain s ok where enq: "enqueue \<lparr>w_id = rid, w_enqueued_at = now, w_weight = w, w_intention = i,
           w_was_probe = (st = HalfOpen)\<rparr> (g_sem g) = (s, ok)" by force
  have full: "\<not> ok \<Longrightarrow> sem_max_queue_depth (g_sem g) \<le> int (length (sem_waiters (g_sem g)))"
    using enq by (simp add: enqueue_def split: if_splits)
  have acq: "acquire now rid weight intention g =
    (if w \<le> 0 then settle rid (Rejected InvalidWeight) g
     else if st = Opened then settle rid (Rejected CircuitOpen) (g\<lparr>g_brk := b'\<rparr>)
     else if can_grant (g_sem g) i w
       then hand_out rid w i (g\<lparr>g_brk := b', g_sem := grant w i (g_sem g)\<rparr>)
     else if \<not> ok then settle rid (Rejected QueueFull) (g\<lparr>g_brk := b'\<rparr>)
     else g\<lparr>g_brk := b', g_sem := s\<rparr>)"
    by (simp add: acquire_def mho Let_def w_def [symmetric] i_def [symmetric]
        i_def [unfolded intention_of_def, symmetric] enq)
  consider "w \<le> 0" | "0 < w" "st = Opened" | "0 < w" "st \<noteq> Opened" "can_grant (g_sem g) i w"
    | "0 < w" "st \<noteq> Opened" "\<not> can_grant (g_sem g) i w" "\<not> ok"
    | "0 < w" "st \<noteq> Opened" "\<not> can_grant (g_sem g) i w" ok
    by fastforce
  then show thesis
    using that mho acq full enq by cases (simp_all add: b_def)
qed

end
