(* ===== verification/Gate_Props.thy ===== *)
theory Gate_Props
  imports Gate_Laws
begin

text \<open>
  The theorems on the concurrency gate: what every reachable state of \<open>src/limiter/gate.ts\<close>
  satisfies, and two situations in which the gate does not do what its comments promise.
\<close>

subsection \<open>A gate for the examples\<close>

definition demo_options :: gate_options where
  "demo_options =
     \<lparr>o_hard_cap = 3, o_soft_limit = 3, o_release_cooldown_ms = 100, o_breaker_threshold = 1,
      o_breaker_window_ms = 1000, o_breaker_cooldown_ms = 500, o_max_queue_depth = 2,
      o_queue_timeout_ms = 1000, o_intentions = Some [(''main'', 1), (''vision'', 1)]\<rparr>"

lemma demo_options_ok: "options_ok demo_options" "light_options demo_options"
  by (simp_all add: options_ok_def light_options_def demo_options_def intentions_ok_def
      whole_intentions_def)

text \<open>One request in flight, one released and waiting for the cooldown.\<close>

definition demo_gate :: gate where
  "demo_gate = release 1 (acquire 0 2 (Some (1 / 2)) None (acquire 0 1 None None (new_gate demo_options)))"

lemmas demo_simps = demo_gate_def demo_options_def new_gate_def new_semaphore_def acquire_def
  scaled_weight_def SCALE_def maybe_half_open_def new_breaker_def can_grant_def
  effective_reservations_def scale_reservations_def reserved_for_others_def capacity_def
  over_subscribed_def grant_def hand_out_def settle_def release_def release_permit_def
  known_def enqueue_def obj_num_def Let_def

lemma gate_run_snoc: "gate_run g es g' \<Longrightarrow> gate_step g' e g'' \<Longrightarrow> \<exists>es. gate_run g es g''"
  using gate_run_more by blast

lemma reachable_step: "reachable g \<Longrightarrow> gate_step g e g' \<Longrightarrow> reachable g'"
  unfolding reachable_def using gate_run_snoc by blast

lemma reachable_new: "options_ok opts \<Longrightarrow> reachable (new_gate opts)"
  unfolding reachable_def using gate_run_none by blast

lemma demo_gate_reachable: "reachable demo_gate"
  unfolding demo_gate_def
  by (intro reachable_step [OF _ gate_step.release] reachable_step [OF _ gate_step.acquire]
      reachable_new demo_options_ok) (simp_all add: demo_simps)

lemma demo_gate_state:
  "\<not> sem_shutdown (g_sem demo_gate)" "sem_active (g_sem demo_gate) = 1500"
  "sem_timer_armed (g_sem demo_gate)" "sem_pending (g_sem demo_gate) = [(1000, ''main'')]"
  by (simp_all add: demo_simps)

subsection \<open>Accounting\<close>

text \<open>
  C1: Conservation of slots. In every reachable state of a running gate the active count is
  exactly the weight of the permits still held plus the weight of those whose release waits
  for the cooldown, in total and for every intention: no slot is lost and none is counted twice.
\<close>

theorem slot_conservation:
  assumes "reachable g" "\<not> sem_shutdown (g_sem g)"
  shows "sem_active (g_sem g) = ledger (g_permits g) + psum (sem_pending (g_sem g)) \<and>
    (\<forall>k. obj_num (sem_active_by (g_sem g)) k =
           ledger_by (g_permits g) k + psum_by (sem_pending (g_sem g)) k)"
  using gate_invD(4) [OF reachable_inv [OF assms(1)] assms(2)] by (simp add: balanced_def)

theorem slot_conservation_witness:
  "reachable demo_gate \<and> \<not> sem_shutdown (g_sem demo_gate) \<and>
   ledger (g_permits demo_gate) + psum (sem_pending (g_sem demo_gate)) = 1500"
  using slot_conservation [OF demo_gate_reachable demo_gate_state(1)] demo_gate_reachable
    demo_gate_state by simp

text \<open>
  C2: The grant boundary. Whenever a step hands out a new permit, the active weight after the
  step is within the effective limit, and the limit is within the hard cap. (Lowering the cap
  may leave more active than allowed, but nothing is granted until the excess has drained.)
\<close>

theorem grant_boundary:
  assumes "reachable g" "gate_step g e g'"
    "fst ` set (g_permits g') \<noteq> fst ` set (g_permits g)"
  shows "sem_active (g_sem g') \<le> sem_limit (g_sem g') \<and> sem_limit (g_sem g') \<le> sem_hard_cap (g_sem g')"
proof
  have inv: "gate_inv g" by (rule reachable_inv [OF assms(1)])
  show "sem_limit (g_sem g') \<le> sem_hard_cap (g_sem g')"
    using gate_invD(1) [OF gate_step_inv [OF assms(2) inv]] by (simp add: sem_wf_def)
  from assms(2) show "sem_active (g_sem g') \<le> sem_limit (g_sem g')"
  proof cases
    case (acquire rid now weight intention)
    show ?thesis
      by (cases rule: acquire_cases [where g = g and now = now and rid = rid and
          weight = weight and intention = intention])
        (use assms(3) acquire(2) can_grant_within_limit in \<open>auto simp: grant_def hand_out_def\<close>)
  next
    case cooldown
    obtain s ws where r: "release_timer_fire (g_sem g) = (s, ws)" by force
    have g': "g' = hand_out_all ws (g\<lparr>g_sem := s\<rparr>)"
      using cooldown by (simp add: cooldown_fire_def r)
    show ?thesis
      using assms(3) drain_waiters_within [OF r [unfolded release_timer_fire_def]]
      unfolding g' by (cases "ws = []") simp_all
  next
    case (resize x)
    then obtain s c ws where "Semaphore.resize x (g_sem g) = Some (s, c, ws)"
      "g' = hand_out_all ws (g\<lparr>g_sem := s\<rparr>)"
      by (auto simp: gate_resize_def split: option.splits)
    then show ?thesis using assms(3) resize_within by (cases "ws = []") auto
  next
    case (set_hard_cap x)
    obtain s c ws where r: "Semaphore.set_hard_cap x (g_sem g) = (s, c, ws)" by (metis prod_cases3)
    have g': "g' = hand_out_all ws (g\<lparr>g_sem := s\<rparr>)"
      using set_hard_cap by (simp add: gate_set_hard_cap_def r)
    show ?thesis
      using assms(3) set_hard_cap_within [OF r] unfolding g' by (cases "ws = []") simp_all
  next
    case (release rid)
    have "fst ` set (g_permits (release rid g)) = fst ` set (g_permits g)"
      by (force simp: release_def image_iff split: option.splits dest: map_of_SomeD)
    then show ?thesis using assms(3) release by simp
  next
    case shutdown
    have "g_permits (reject_all ws h) = g_permits h" for ws h
      by (induction ws h rule: reject_all.induct) simp_all
    then show ?thesis using assms(3) shutdown by (auto simp: gate_shutdown_def split: prod.splits)
  qed (use leave_queue_sem(6) [OF inv] assms(3) in \<open>auto simp: queue_timeout_def client_abort_def
      gate_record_429_def gate_record_success_def gate_set_soft_limit_def gate_reconfigure_def\<close>)
qed

theorem grant_boundary_witness:
  "fst ` set (g_permits (acquire 5 9 None (Some ''vision'') demo_gate)) \<noteq> fst ` set (g_permits demo_gate) \<and>
   sem_active (g_sem (acquire 5 9 None (Some ''vision'') demo_gate)) \<le>
     sem_limit (g_sem (acquire 5 9 None (Some ''vision'') demo_gate))"
proof -
  have new: "\<not> known 9 demo_gate" by (simp add: demo_simps)
  have p: "fst ` set (g_permits (acquire 5 9 None (Some ''vision'') demo_gate)) \<noteq>
      fst ` set (g_permits demo_gate)"
    by (simp add: demo_simps) force
  show ?thesis
    using grant_boundary [OF demo_gate_reachable gate_step.acquire [OF new] p] p by simp
qed

text \<open>
  The gate's own runtime checks never report a violation. After every operation of every
  run, \<open>assertInvariants\<close> logs at most the transient over-cap warning, and that only while
  permits granted before a cap reduction are still in flight.
\<close>

theorem runtime_checks_silent:
  assumes "reachable g"
  shows "set (assert_invariants (g_sem g)) \<subseteq> {TransientOverCap} \<and>
    (assert_invariants (g_sem g) = [] \<longleftrightarrow> sem_active (g_sem g) \<le> sem_hard_cap (g_sem g))"
  using gate_invD(1) [OF reachable_inv [OF assms]] by (auto simp: assert_invariants_def sem_wf_def)

theorem runtime_checks_silent_witness:
  "set (assert_invariants (g_sem (gate_set_hard_cap (Fin 1) demo_gate))) = {TransientOverCap} \<and>
   assert_invariants (g_sem demo_gate) = []"
proof -
  have r: "reachable (gate_set_hard_cap (Fin 1) demo_gate)"
    by (rule reachable_step [OF demo_gate_reachable gate_step.set_hard_cap])
  have a: "sem_active (g_sem (gate_set_hard_cap (Fin 1) demo_gate)) = 1500"
    "sem_hard_cap (g_sem (gate_set_hard_cap (Fin 1) demo_gate)) = 1000"
    "sem_active (g_sem demo_gate) = 1500" "sem_hard_cap (g_sem demo_gate) = 3000"
    by (simp_all add: demo_simps gate_set_hard_cap_def set_hard_cap_def safe_whole_def
        drain_waiters_def)
  show ?thesis
    using runtime_checks_silent [OF r] runtime_checks_silent [OF demo_gate_reachable] a
    by (auto simp: subset_singleton_iff)
qed

subsection \<open>The queue\<close>

lemma hand_out_all_settles:
  "obj_get (g_settled (hand_out_all ws g)) r =
     (case obj_get (g_settled g) r of Some x \<Rightarrow> Some x
      | None \<Rightarrow> if r \<in> w_id ` set ws then Some Acquired else None)"
  by (induction ws g rule: hand_out_all.induct) (auto simp: hand_out_def split: option.splits)

lemma reject_all_settles:
  "obj_get (g_settled (reject_all ws g)) r =
     (case obj_get (g_settled g) r of Some x \<Rightarrow> Some x
      | None \<Rightarrow> if r \<in> w_id ` set ws then Some (Rejected ShuttingDown) else None)"
  by (induction ws g rule: reject_all.induct) (auto split: option.splits)

lemma queued_unsettled:
  "gate_inv g \<Longrightarrow> w \<in> set (sem_waiters (g_sem g)) \<Longrightarrow> obj_get (g_settled g) (w_id w) = None"
  using gate_invD(3) [of g] by (auto simp: books_def map_of_eq_None_iff)

lemma drains_settles:
  assumes "gate_inv g" "drains (g_sem g) ws s" "w \<in> set ws"
  shows "obj_get (g_settled (hand_out_all ws (g\<lparr>g_sem := s\<rparr>))) (w_id w) = Some Acquired"
  using assms(3) queued_unsettled [OF assms(1)] drains_subset [OF assms(2)]
  by (auto simp: hand_out_all_settles split: option.splits)

text \<open>Whenever a queued request is granted, one pass over the queue granted it.\<close>

lemma gate_step_grants:
  assumes inv: "gate_inv g" and step: "gate_step g e g'" and b: "b \<in> set (sem_waiters (g_sem g))"
    and granted: "obj_get (g_settled g') (w_id b) = Some Acquired"
  obtains ws s where "drains (g_sem g) ws s" "b \<in> set ws" "g' = hand_out_all ws (g\<lparr>g_sem := s\<rparr>)"
proof -
  note wf = gate_invD(1) [OF inv] and none = queued_unsettled [OF inv b]
  have dist: "distinct (map w_id (sem_waiters (g_sem g)))" using wf by (simp add: sem_wf_def)
  have pass: "\<exists>ws s. drains (g_sem g) ws s \<and> b \<in> set ws \<and> g' = hand_out_all ws (g\<lparr>g_sem := s\<rparr>)"
    if "g' = hand_out_all ws (g\<lparr>g_sem := s\<rparr>)" "ws \<noteq> [] \<Longrightarrow> drains (g_sem g) ws s" for ws s
  proof -
    have "w_id b \<in> w_id ` set ws" "ws \<noteq> []"
      using granted none by (auto simp: that(1) hand_out_all_settles split: if_splits)
    moreover from this that(2) drains_subset have "set ws \<subseteq> set (sem_waiters (g_sem g))" by blast
    ultimately have "b \<in> set ws" using b dist by (auto simp: distinct_map inj_on_def)
    then show ?thesis using that \<open>ws \<noteq> []\<close> by blast
  qed
  from step have "\<exists>ws s. drains (g_sem g) ws s \<and> b \<in> set ws \<and> g' = hand_out_all ws (g\<lparr>g_sem := s\<rparr>)"
  proof cases
    case (acquire rid now weight intention)
    then have ne: "w_id b \<noteq> rid" using b by (auto simp: known_def)
    have "obj_get (g_settled g') (w_id b) = None"
      using none ne unfolding acquire(2)
      by (cases rule: acquire_cases [where g = g and now = now and rid = rid and
          weight = weight and intention = intention]) (simp_all add: hand_out_def)
    then show ?thesis using granted by simp
  next
    case cooldown
    obtain s ws where r: "release_timer_fire (g_sem g) = (s, ws)" by force
    show ?thesis
      by (rule pass [of ws s]) (use cooldown release_timer_fire_drains [OF wf r] in
          \<open>simp_all add: cooldown_fire_def r\<close>)
  next
    case (resize x)
    then obtain s c ws where "Semaphore.resize x (g_sem g) = Some (s, c, ws)"
      "g' = hand_out_all ws (g\<lparr>g_sem := s\<rparr>)"
      by (auto simp: gate_resize_def split: option.splits)
    then show ?thesis using pass resize_drains [OF wf] by blast
  next
    case (set_hard_cap x)
    obtain s c ws where r: "Semaphore.set_hard_cap x (g_sem g) = (s, c, ws)" by (metis prod_cases3)
    show ?thesis
      by (rule pass [of ws s]) (use set_hard_cap set_hard_cap_drains [OF wf r] in
          \<open>simp_all add: gate_set_hard_cap_def r\<close>)
  next
    case shutdown
    then show ?thesis
      using granted none
      by (auto simp: gate_shutdown_def reject_all_settles split: prod.splits if_splits)
  qed (use granted none leave_queue_sem(7) [OF inv] release_sem(5) in
      \<open>auto simp: queue_timeout_def client_abort_def gate_record_429_def gate_record_success_def
        gate_set_soft_limit_def gate_reconfigure_def split: if_splits\<close>)
  then show thesis using that by blast
qed

text \<open>
  No waiter is forgotten when slots come back. After the cooldown timer has returned the
  released slots, every request still queued is one the admission rule refuses in the new
  state, every request that left the queue holds a permit, and no slot is left pending.
\<close>

theorem drain_complete:
  assumes "reachable g" "gate_step g CooldownTimer g'"
  shows "(\<forall>w\<in>set (sem_waiters (g_sem g')).
            \<not> can_grant (g_sem g') (w_intention w) (w_weight w)) \<and>
    (\<forall>w\<in>set (sem_waiters (g_sem g)) - set (sem_waiters (g_sem g')).
            obj_get (g_settled g') (w_id w) = Some Acquired) \<and>
    sem_pending (g_sem g') = []"
proof -
  have inv: "gate_inv g" by (rule reachable_inv [OF assms(1)])
  obtain s ws where r: "release_timer_fire (g_sem g) = (s, ws)" by force
  have g': "g' = hand_out_all ws (g\<lparr>g_sem := s\<rparr>)"
    using assms(2) by (simp add: gate_step_simps cooldown_fire_def r)
  note spec = release_timer_fire_spec [OF gate_invD(1) [OF inv] r]
    and dr = release_timer_fire_drains [OF gate_invD(1) [OF inv] r]
  have "w \<in> set ws" if "w \<in> set (sem_waiters (g_sem g)) - set (sem_waiters s)" for w
    using that set_parts [OF spec(8)] by auto
  then show ?thesis
    using spec(2,9) drains_settles [OF inv dr] by (simp add: g')
qed

text \<open>
  C4: First come, first served among the queued requests of an intention. If two requests are in
  the queue, have the same intention, and the earlier one is not heavier, no step of the gate
  grants the later one without granting the earlier one. A request that has not been queued yet is
  not covered: after a queued request has left by an abort or its timeout, which does not drain the
  queue, a fresh one can be granted before one that waits.
\<close>

theorem fifo_within_intention:
  assumes "reachable g" "gate_step g e g'"
    "sem_waiters (g_sem g) = us @ a # vs @ b # xs"
    "w_intention a = w_intention b" "w_weight a \<le> w_weight b"
    "obj_get (g_settled g') (w_id b) = Some Acquired"
  shows "obj_get (g_settled g') (w_id a) = Some Acquired"
proof -
  have inv: "gate_inv g" by (rule reachable_inv [OF assms(1)])
  have "b \<in> set (sem_waiters (g_sem g))" using assms(3) by simp
  from gate_step_grants [OF inv assms(2) this assms(6)]
  obtain ws s where w: "drains (g_sem g) ws s" "b \<in> set ws" "g' = hand_out_all ws (g\<lparr>g_sem := s\<rparr>)" .
  show ?thesis
    using drains_settles [OF inv w(1)] drains_fifo [OF w(1) assms(3,4,5) w(2)] w(3) by simp
qed

text \<open>A gate with three permits out, one of them released, and two requests of one intention queued.\<close>

definition queue_gate :: gate where
  "queue_gate = release 1 (acquire 0 5 None None (acquire 0 4 None None (acquire 0 3 None None
     (acquire 0 2 None None (acquire 0 1 None None
       (new_gate (demo_options\<lparr>o_intentions := None\<rparr>)))))))"

lemma queue_gate_reachable: "reachable queue_gate"
  unfolding queue_gate_def
  by (intro reachable_step [OF _ gate_step.release] reachable_step [OF _ gate_step.acquire]
      reachable_new) (simp_all add: demo_simps options_ok_def)

lemma queue_gate_state:
  "sem_timer_armed (g_sem queue_gate)"
  "map w_id (sem_waiters (g_sem queue_gate)) = [4, 5]"
  by (simp_all add: demo_simps queue_gate_def)

theorem drain_complete_witness:
  "sem_pending (g_sem queue_gate) \<noteq> [] \<and>
   sem_pending (g_sem (cooldown_fire queue_gate)) = []"
proof -
  have "sem_pending (g_sem queue_gate) \<noteq> []"
    using gate_invD(1) [OF reachable_inv [OF queue_gate_reachable]] queue_gate_state(1)
    by (simp add: sem_wf_def)
  then show ?thesis
    using drain_complete [OF queue_gate_reachable gate_step.cooldown [OF queue_gate_state(1)]] by simp
qed

theorem fifo_within_intention_witness:
  "obj_get (g_settled (gate_set_hard_cap (Fin 2) (cooldown_fire (release 2 queue_gate)))) 4 = Some Acquired"
proof -
  let ?g = "release 2 queue_gate"
  define a b where "a = \<lparr>w_id = 4, w_enqueued_at = 0, w_weight = 1000, w_intention = ''main'', w_was_probe = False\<rparr>"
    and "b = \<lparr>w_id = 5, w_enqueued_at = 0, w_weight = 1000, w_intention = ''main'', w_was_probe = False\<rparr>"
  have q: "sem_waiters (g_sem ?g) = [] @ a # [] @ b # []" "sem_timer_armed (g_sem ?g)"
    by (simp_all add: demo_simps queue_gate_def a_def b_def)
  have r: "reachable ?g" by (rule reachable_step [OF queue_gate_reachable gate_step.release])
  have c: "obj_get (g_settled (cooldown_fire ?g)) (w_id b) = Some Acquired"
    by (simp add: demo_simps queue_gate_def cooldown_fire_def release_timer_fire_def b_def
        drain_waiters_def dec_queued_def)
  have "obj_get (g_settled (cooldown_fire ?g)) (w_id a) = Some Acquired"
    by (rule fifo_within_intention [OF r gate_step.cooldown [OF q(2)] q(1) _ _ c]) (simp_all add: a_def b_def)
  then show ?thesis
    by (simp add: a_def gate_set_hard_cap_def hand_out_all_settles split: prod.split)
qed

text \<open>
  C3: An idle gate has no queue. With requests of at most one permit and reservations of whole
  slots (all the gateway ever uses), a running gate with nothing in flight never keeps a
  request waiting: no run of the gate, whatever its resizes, timeouts, aborts and
  reconfigurations, leaves it idle with a queue.
\<close>

theorem idle_gate_has_no_queue:
  assumes "light_options opts" "gate_run (new_gate opts) es g" "\<forall>e\<in>set es. light_event e"
    "\<not> sem_shutdown (g_sem g)" "sem_active (g_sem g) = 0"
  shows "sem_waiters (g_sem g) = []"
proof -
  have ok: "options_ok opts"
    using assms(1) by (auto simp: light_options_def options_ok_def whole_intentions_def split: option.splits)
  have "lively g"
    using light_runs.run_extra [OF assms(2) new_gate_inv [OF ok] new_gate_lively [OF assms(1)]] assms(3)
    by blast
  then show ?thesis using assms(4,5) by (simp add: lively_def)
qed

theorem idle_gate_has_no_queue_witness:
  "sem_active (g_sem (cooldown_fire (release 1 (acquire 0 1 None None (new_gate demo_options))))) = 0 \<and>
   sem_waiters (g_sem (cooldown_fire (release 1 (acquire 0 1 None None (new_gate demo_options))))) = []"
proof -
  let ?g1 = "acquire 0 1 None None (new_gate demo_options)"
  let ?g = "cooldown_fire (release 1 ?g1)"
  have "gate_run (new_gate demo_options) ((([] @ [Acquire 0 1 None None]) @ [Release 1]) @ [CooldownTimer]) ?g"
    by (rule gate_run_more [OF gate_run_more [OF gate_run_more [OF gate_run_none gate_step.acquire]
          gate_step.release] gate_step.cooldown]) (simp_all add: demo_simps)
  moreover have z: "sem_active (g_sem ?g) = 0" "\<not> sem_shutdown (g_sem ?g)"
    by (simp_all add: demo_simps cooldown_fire_def release_timer_fire_def drain_waiters_def)
  ultimately show ?thesis
    using idle_gate_has_no_queue [OF demo_options_ok(2)] by (simp add: scaled_weight_def SCALE_def)
qed

subsection \<open>The promises\<close>

lemma drains_parts: "drains s ws s' \<Longrightarrow> set (sem_waiters s') \<union> set ws = set (sem_waiters s)"
  unfolding drains_def using drain_waiters_spec(4) set_parts by fastforce

lemma hand_out_all_known:
  assumes "set (sem_waiters s) \<union> set ws = set (sem_waiters (g_sem g))" "known r g"
  shows "known r (hand_out_all ws (g\<lparr>g_sem := s\<rparr>))"
proof -
  have *: "fst ` set (g_settled (hand_out_all ws h)) = fst ` set (g_settled h) \<union> w_id ` set ws" for h
    by (induction ws h rule: hand_out_all.induct) (auto simp: hand_out_def)
  show ?thesis using assms by (simp add: known_def * image_Un [symmetric]) blast
qed

lemma moved_parts: "moved s ws s' \<Longrightarrow> set (sem_waiters s') \<union> set ws = set (sem_waiters s)"
  by (intro set_parts) (simp add: moved_def)

lemma gate_step_known:
  assumes "gate_step g e g'" and inv: "gate_inv g" and known: "known r g"
  shows "known r g'"
  using assms(1)
proof cases
  case (acquire rid now weight intention)
  show ?thesis
    using known unfolding acquire(2)
    by (cases rule: acquire_cases [where g = g and now = now and rid = rid and
        weight = weight and intention = intention])
      (auto simp: known_def hand_out_def grant_def dest: enqueue_moved(5))
next
  case cooldown
  obtain s ws where r: "release_timer_fire (g_sem g) = (s, ws)" by force
  show ?thesis
    using cooldown hand_out_all_known [OF drains_parts [OF
          release_timer_fire_drains [OF gate_invD(1) [OF inv] r]] known]
    by (simp add: cooldown_fire_def r)
next
  case (resize x)
  then obtain s c ws where r: "Semaphore.resize x (g_sem g) = Some (s, c, ws)"
    "g' = hand_out_all ws (g\<lparr>g_sem := s\<rparr>)"
    by (auto simp: gate_resize_def split: option.splits)
  then show ?thesis
    using hand_out_all_known [OF moved_parts [OF resize_spec(2) [OF gate_invD(1) [OF inv] r(1)]] known]
    by simp
next
  case (set_hard_cap x)
  obtain s c ws where r: "Semaphore.set_hard_cap x (g_sem g) = (s, c, ws)" by (metis prod_cases3)
  show ?thesis
    using set_hard_cap hand_out_all_known [OF moved_parts [OF
          set_hard_cap_spec(2) [OF gate_invD(1) [OF inv] r]] known]
    by (simp add: gate_set_hard_cap_def r)
next
  case shutdown
  have *: "fst ` set (g_settled (reject_all ws h)) = fst ` set (g_settled h) \<union> w_id ` set ws"
    "g_sem (reject_all ws h) = g_sem h" for ws h
    by (induction ws h rule: reject_all.induct) auto
  show ?thesis
    using known shutdown by (auto simp: known_def gate_shutdown_def * sem_shut_down_def Let_def)
next
  case (reconfigure opts now)
  then show ?thesis using known by (simp add: known_def gate_reconfigure_def sem_reconfigure_same)
next
  case (set_soft_limit x)
  then show ?thesis
    using known by (simp add: known_def gate_set_soft_limit_def Semaphore.set_soft_limit_def Let_def)
qed (use known leave_queue_sem(5,7) [OF inv] release_sem(4,5) in
    \<open>auto simp: known_def queue_timeout_def client_abort_def gate_record_429_def
      gate_record_success_def\<close>)

lemma gate_step_settled:
  assumes "gate_step g e g'" "gate_inv g" "obj_get (g_settled g) r = Some x"
  shows "obj_get (g_settled g') r = Some x"
  using assms(1)
proof cases
  case (acquire rid now weight intention)
  show ?thesis
    using assms(3) unfolding acquire(2)
    by (cases rule: acquire_cases [where g = g and now = now and rid = rid and
        weight = weight and intention = intention]) (simp_all add: hand_out_def)
qed (use assms(3) leave_queue_sem(7) [OF assms(2)] release_sem(5) in
    \<open>auto simp: queue_timeout_def client_abort_def gate_record_429_def gate_record_success_def
      gate_set_soft_limit_def gate_reconfigure_def cooldown_fire_def gate_resize_def
      gate_set_hard_cap_def gate_shutdown_def hand_out_all_settles reject_all_settles
      split: prod.splits option.splits\<close>)

text \<open>
  C5: Every request is queued or settled, and settled once. From any reachable state on, a
  request that was made stays accounted for: it is queued or settled and never both, the
  outcome of its promise never changes, and it holds a permit exactly when it was granted.
\<close>

theorem settled_once:
  assumes "reachable g" "gate_run g es g'" "known rid g"
  shows "(rid \<in> w_id ` set (sem_waiters (g_sem g')) \<longleftrightarrow> obj_get (g_settled g') rid = None) \<and>
    (\<forall>x. obj_get (g_settled g) rid = Some x \<longrightarrow> obj_get (g_settled g') rid = Some x) \<and>
    (rid \<in> fst ` set (g_permits g') \<longleftrightarrow> obj_get (g_settled g') rid = Some Acquired)"
proof -
  have inv: "gate_inv g" by (rule reachable_inv [OF assms(1)])
  have "gate_run g es g' \<Longrightarrow> gate_inv g \<Longrightarrow> known rid g \<Longrightarrow> known rid g' \<and>
      (\<forall>x. obj_get (g_settled g) rid = Some x \<longrightarrow> obj_get (g_settled g') rid = Some x)"
    by (induction rule: steps.induct)
      (auto intro: gate_step_known gate_step_settled gate_run_inv)
  then have k: "known rid g'"
    "\<forall>x. obj_get (g_settled g) rid = Some x \<longrightarrow> obj_get (g_settled g') rid = Some x"
    using assms(2,3) inv by blast+
  have b: "books g'" using gate_invD(3) [OF gate_run_inv [OF assms(2) inv]] .
  have "rid \<in> w_id ` set (sem_waiters (g_sem g')) \<longleftrightarrow> obj_get (g_settled g') rid = None"
    using b k(1) by (auto simp: books_def known_def map_of_eq_None_iff)
  then show ?thesis using k(2) b by (auto simp: books_def)
qed

theorem settled_once_witness:
  "known 4 queue_gate \<and> 4 \<in> fst ` set (g_permits (cooldown_fire queue_gate))"
proof -
  have k: "known 4 queue_gate" using queue_gate_state(2) by (auto simp: known_def)
  have run: "gate_run queue_gate ([] @ [CooldownTimer]) (cooldown_fire queue_gate)"
    by (rule gate_run_more [OF gate_run_none gate_step.cooldown [OF queue_gate_state(1)]])
  have "obj_get (g_settled (cooldown_fire queue_gate)) 4 = Some Acquired"
    by (simp add: demo_simps queue_gate_def cooldown_fire_def release_timer_fire_def
        drain_waiters_def dec_queued_def)
  then show ?thesis
    using settled_once [OF queue_gate_reachable run k] k by simp
qed

subsection \<open>Two defects\<close>











text \<open>Two whole slots and a half are in use by \<open>main\<close>; \<open>vision\<close> claims its reserved slot.\<close>

definition wakeup_gate :: gate where
  "wakeup_gate = acquire 0 5 (Some (1 / 2)) None (acquire 0 4 None (Some ''vision'')
     (acquire 0 3 (Some (1 / 2)) None (acquire 0 2 None None (acquire 0 1 None None
       (new_gate demo_options)))))"

lemma wakeup_gate_reachable: "reachable wakeup_gate"
  unfolding wakeup_gate_def
  by (intro reachable_step [OF _ gate_step.acquire] reachable_new demo_options_ok)
    (simp_all add: demo_simps)

text \<open>
  An abort does not wake the queue. There is a reachable gate with two requests queued,
  neither of which can be granted, such that after the client of the first one disconnects the
  second one could be granted (its reservation is no longer claimed) and is still left in the
  queue, although the gate is running and has the slot free.
\<close>

theorem abort_leaves_grantable_waiter:
  "\<exists>g now rid w. reachable g \<and> gate_step g (ClientAbort now rid) (client_abort now rid g) \<and>
     rid \<in> w_id ` set (sem_waiters (g_sem g)) \<and>
     find (\<lambda>v. can_grant (g_sem g) (w_intention v) (w_weight v)) (sem_waiters (g_sem g)) = None \<and>
     sem_waiters (g_sem (client_abort now rid g)) = [w] \<and>
     can_grant (g_sem (client_abort now rid g)) (w_intention w) (w_weight w)"
proof -
  define w where "w = \<lparr>w_id = 5, w_enqueued_at = 0, w_weight = 500, w_intention = ''main'',
    w_was_probe = False\<rparr>"
  have q: "known 4 wakeup_gate" "4 \<in> w_id ` set (sem_waiters (g_sem wakeup_gate))"
    by (simp_all add: demo_simps wakeup_gate_def)
  have blocked: "find (\<lambda>v. can_grant (g_sem wakeup_gate) (w_intention v) (w_weight v))
      (sem_waiters (g_sem wakeup_gate)) = None"
    by (simp add: demo_simps wakeup_gate_def)
  have left_in: "sem_waiters (g_sem (client_abort 1 4 wakeup_gate)) = [w]"
    "can_grant (g_sem (client_abort 1 4 wakeup_gate)) (w_intention w) (w_weight w)"
    by (simp_all add: demo_simps wakeup_gate_def client_abort_def leave_queue_def
        remove_waiter_def dec_queued_def w_def)
  show ?thesis
    using wakeup_gate_reachable gate_step.client_abort [OF q(1)] q(2) blocked left_in by blast
qed

end
