(* ===== verification/Js_Text.thy ===== *)
theory Js_Text
  imports Js_Prelude
begin

text \<open>
  JavaScript's text primitives as the gateway uses them, on strings of ASCII characters:
  searching, trimming, case folding, and the conversions \<open>Number(s)\<close> and \<open>parseInt\<close>-like scans.
  A decimal literal denotes its exact rational value; rounding to a double is not modelled,
  the overflow to \<open>Infinity\<close> is.
\<close>

subsection \<open>Searching\<close>

definition starts_with :: "string \<Rightarrow> string \<Rightarrow> bool" where
  "starts_with s p = (take (length p) s = p)"

definition ends_with :: "string \<Rightarrow> string \<Rightarrow> bool" where
  "ends_with s p = (length p \<le> length s \<and> drop (length s - length p) s = p)"

fun js_includes :: "string \<Rightarrow> string \<Rightarrow> bool" where
  "js_includes [] p = (p = [])"
| "js_includes (c # s) p = (starts_with (c # s) p \<or> js_includes s p)"

lemma starts_with_append [simp]: "starts_with (p @ s) p"
  by (simp add: starts_with_def)

lemma includes_iff: "js_includes s p \<longleftrightarrow> (\<exists>u v. s = u @ p @ v)"
proof (induction s)
  case (Cons c s)
  have "starts_with (c # s) p \<longleftrightarrow> (\<exists>v. c # s = p @ v)"
    by (metis append_eq_conv_conj append_take_drop_id starts_with_def)
  then show ?case
    using Cons by (auto simp: Cons_eq_append_conv)
qed simp

subsection \<open>Characters\<close>

definition is_space :: "char \<Rightarrow> bool" where
  "is_space c = (c \<in> set [CHR 0x09, CHR 0x0A, CHR 0x0B, CHR 0x0C, CHR 0x0D, CHR 0x20])"

definition trim_start :: "string \<Rightarrow> string" where
  "trim_start s = dropWhile is_space s"

definition trim :: "string \<Rightarrow> string" where
  "trim s = rev (trim_start (rev (trim_start s)))"

definition lower_char :: "char \<Rightarrow> char" where
  "lower_char c =
     (let n = of_char c :: nat in if 65 \<le> n \<and> n \<le> 90 then char_of (n + 32) else c)"

definition to_lower :: "string \<Rightarrow> string" where
  "to_lower s = map lower_char s"

definition digit :: "nat \<Rightarrow> char \<Rightarrow> nat option" where
  "digit base c =
     (let n = of_char c :: nat;
          v = (if 48 \<le> n \<and> n \<le> 57 then n - 48
               else if 97 \<le> n \<and> n \<le> 122 then n - 87
               else if 65 \<le> n \<and> n \<le> 90 then n - 55 else 99)
      in if v < base then Some v else None)"

definition digits_value :: "nat \<Rightarrow> string \<Rightarrow> nat" where
  "digits_value base ds = foldl (\<lambda>n c. n * base + (case digit base c of None \<Rightarrow> 0 | Some d \<Rightarrow> d)) 0 ds"

definition span_digits :: "nat \<Rightarrow> string \<Rightarrow> string \<times> string" where
  "span_digits base s =
     (takeWhile (\<lambda>c. digit base c \<noteq> None) s, dropWhile (\<lambda>c. digit base c \<noteq> None) s)"

subsection \<open>Numbers\<close>

definition pow10 :: "int \<Rightarrow> rat" where
  "pow10 k = (if 0 \<le> k then 10 ^ nat k else 1 / 10 ^ nat (- k))"

text \<open>From this magnitude on a literal rounds to \<open>Infinity\<close>.\<close>

definition overflow_bound :: rat where
  "overflow_bound = 2 ^ 1024 - 2 ^ 970"

definition to_double :: "rat \<Rightarrow> jsnum" where
  "to_double r = (if overflow_bound \<le> r then PInf else if r \<le> - overflow_bound then NInf else Fin r)"

definition parse_exponent :: "string \<Rightarrow> int option" where
  "parse_exponent s =
     (case s of
        [] \<Rightarrow> Some 0
      | c # r \<Rightarrow>
          (if c \<in> set ''eE'' then
             (let (neg, ds) = (case r of CHR ''-'' # r' \<Rightarrow> (True, r') | CHR ''+'' # r' \<Rightarrow> (False, r')
                               | _ \<Rightarrow> (False, r));
                  (ds1, rest) = span_digits 10 ds
              in if ds1 \<noteq> [] \<and> rest = []
                 then Some ((if neg then -1 else 1) * int (digits_value 10 ds1)) else None)
           else None))"

definition parse_unsigned :: "string \<Rightarrow> rat option" where
  "parse_unsigned s =
     (let (ip, r1) = span_digits 10 s;
          (fp, r2) = (case r1 of CHR ''.'' # r \<Rightarrow> span_digits 10 r | _ \<Rightarrow> ([], r1))
      in if ip = [] \<and> fp = [] then None
         else (case parse_exponent r2 of
                 None \<Rightarrow> None
               | Some e \<Rightarrow> Some (of_nat (digits_value 10 (ip @ fp)) * pow10 (e - int (length fp)))))"

definition parse_radix :: "nat \<Rightarrow> string \<Rightarrow> jsnum" where
  "parse_radix base s =
     (let (ds, rest) = span_digits base s
      in if ds \<noteq> [] \<and> rest = [] then to_double (of_nat (digits_value base ds)) else NaN)"

definition js_number :: "string \<Rightarrow> jsnum" where
  "js_number str =
     (let s = trim str;
          (neg, u) = (case s of CHR ''-'' # r \<Rightarrow> (True, r) | CHR ''+'' # r \<Rightarrow> (False, r)
                      | _ \<Rightarrow> (False, s));
          unsigned = (case s of c # d # _ \<Rightarrow> if c = CHR ''0'' then to_lower [d] else [] | _ \<Rightarrow> [])
      in if s = [] then Fin 0
         else if unsigned = ''x'' then parse_radix 16 (drop 2 s)
         else if unsigned = ''o'' then parse_radix 8 (drop 2 s)
         else if unsigned = ''b'' then parse_radix 2 (drop 2 s)
         else if u = ''Infinity'' then (if neg then NInf else PInf)
         else (case parse_unsigned u of
                 None \<Rightarrow> NaN | Some r \<Rightarrow> to_double (if neg then - r else r)))"

text \<open>\<open>x \<le> y\<close> on numbers: every comparison with NaN is false.\<close>

fun js_le :: "jsnum \<Rightarrow> jsnum \<Rightarrow> bool" where
  "js_le NaN y = False"
| "js_le x NaN = False"
| "js_le NInf y = True"
| "js_le x PInf = True"
| "js_le (Fin a) (Fin b) = (a \<le> b)"
| "js_le x y = False"

definition js_lt :: "jsnum \<Rightarrow> jsnum \<Rightarrow> bool" where
  "js_lt x y = (x \<noteq> NaN \<and> y \<noteq> NaN \<and> \<not> js_le y x)"

subsection \<open>Decimal literals\<close>

lemmas js_number_simps = js_number_def Js_Text.trim_def trim_start_def is_space_def span_digits_def digit_def
  digits_value_def to_lower_def lower_char_def parse_unsigned_def parse_exponent_def parse_radix_def
  pow10_def to_double_def overflow_bound_def

lemma js_number_examples:
  "js_number '' 12 '' = Fin 12" "js_number ''1.5'' = Fin (3 / 2)" "js_number ''0x1F'' = Fin 31"
  "js_number ''-2e3'' = Fin (- 2000)" "js_number ''12px'' = NaN" "js_number [] = Fin 0"
  "js_number ''-Infinity'' = NInf" "js_number ''.5'' = Fin (1 / 2)"
  by (simp_all add: js_number_simps)

end
