(* ===== verification/RateLimit.thy ===== *)
theory RateLimit
  imports Js_Text Breaker
begin

text \<open>
  The two sliding windows of the gateway, the weighted request limiter (\<open>src/rate.ts\<close>) and the
  authentication lockout (\<open>src/auth.ts\<close>), and the request gate (\<open>src/request-gate.ts\<close>).
  Both windows keep a list of stamped entries and cut its expired front off on every call, one by
  binary search, one by \<open>findIndex\<close>. The locale \<open>window_prune\<close> states the law both routines
  satisfy; what a pruned log still knows of the full history is proved once from it.
  Clocks are explicit arguments in milliseconds; weights and limits are rationals.
\<close>

subsection \<open>Pruning a stamped log\<close>

definition in_window :: "('e \<Rightarrow> int) \<Rightarrow> int \<Rightarrow> 'e list \<Rightarrow> 'e list" where
  "in_window stamp cutoff xs = filter (\<lambda>e. cutoff \<le> stamp e) xs"

lemma in_window_later:
  "c \<le> c' \<Longrightarrow> in_window stamp c' (in_window stamp c xs) = in_window stamp c' xs"
  by (auto simp: in_window_def intro!: filter_cong)

lemma in_window_snoc [simp]:
  "in_window stamp c (xs @ [e]) = in_window stamp c xs @ (if c \<le> stamp e then [e] else [])"
  by (simp add: in_window_def)

lemma sorted_in_window:
  "sorted (map stamp xs) \<Longrightarrow> sorted (map stamp (in_window stamp c xs))"
  unfolding in_window_def by (rule sorted_filter)

text \<open>In a sorted log the entries of the window are a suffix.\<close>

lemma in_window_suffix:
  assumes "sorted (map stamp xs)" "\<forall>e\<in>set (take n xs). stamp e < c"
    "\<forall>e\<in>set (drop n xs). c \<le> stamp e"
  shows "drop n xs = in_window stamp c xs"
proof -
  have "in_window stamp c (take n xs @ drop n xs) = drop n xs"
    using assms(2,3) unfolding in_window_def filter_append by (auto simp: filter_empty_conv)
  then show ?thesis by simp
qed

locale window_prune =
  fixes stamp :: "'e \<Rightarrow> int" and prune :: "int \<Rightarrow> 'e list \<Rightarrow> 'e list"
  assumes prune_window: "sorted (map stamp xs) \<Longrightarrow> prune cutoff xs = in_window stamp cutoff xs"
begin

text \<open>\<open>knows log hist seen\<close>: the log holds at least what a cutoff from \<open>seen\<close> on needs of the history.\<close>

definition knows :: "'e list \<Rightarrow> 'e list \<Rightarrow> int \<Rightarrow> bool" where
  "knows kept hist seen \<longleftrightarrow>
     sorted (map stamp hist) \<and> sorted (map stamp kept) \<and>
     (\<forall>c \<ge> seen. in_window stamp c kept = in_window stamp c hist)"

lemma knows_new: "knows [] [] seen"
  by (simp add: knows_def in_window_def)

lemma knows_prune:
  assumes "knows kept hist seen" "seen \<le> c"
  shows "knows (prune c kept) hist c" "prune c kept = in_window stamp c hist"
proof -
  have p: "prune c kept = in_window stamp c kept"
    using assms(1) by (intro prune_window) (simp add: knows_def)
  then show "prune c kept = in_window stamp c hist" using assms by (simp add: knows_def)
  show "knows (prune c kept) hist c"
    using assms sorted_in_window [of stamp kept c] in_window_later [of c _ stamp kept]
    unfolding p by (auto simp: knows_def)
qed

lemma knows_snoc:
  assumes "knows kept hist seen" "\<forall>x\<in>set hist. stamp x \<le> stamp e" "\<forall>x\<in>set kept. stamp x \<le> stamp e"
  shows "knows (kept @ [e]) (hist @ [e]) seen"
  using assms by (auto simp: knows_def sorted_append)

lemma knows_later: "knows kept hist seen \<Longrightarrow> seen \<le> c \<Longrightarrow> knows kept hist c"
  by (auto simp: knows_def)

end

subsection \<open>The weighted request limiter\<close>

record entry =
  e_time :: int
  e_weight :: rat

record rate_limiter =
  rl_entries :: "entry list"
  rl_sum :: rat
  rl_limit :: rat
  rl_window_ms :: int

record rate_check_result =
  rc_allowed :: bool
  rc_remaining :: rat
  rc_retry_after :: "int option"

definition new_rate_limiter :: "rat \<Rightarrow> int \<Rightarrow> rate_limiter" where
  "new_rate_limiter limit windowSeconds =
     \<lparr>rl_entries = [], rl_sum = 0, rl_limit = limit, rl_window_ms = windowSeconds * 1000\<rparr>"

function bsearch :: "int \<Rightarrow> entry list \<Rightarrow> nat \<Rightarrow> nat \<Rightarrow> nat" where
  "bsearch cutoff es lo hi =
     (if lo < hi then
        (let mid = (lo + hi) div 2
         in if e_time (es ! mid) < cutoff then bsearch cutoff es (mid + 1) hi
            else bsearch cutoff es lo mid)
      else lo)"
  by pat_completeness auto
termination by (relation "measure (\<lambda>(_, _, lo, hi). hi - lo)") auto

declare bsearch.simps [simp del]

definition prune_entries :: "int \<Rightarrow> entry list \<Rightarrow> entry list" where
  "prune_entries cutoff es = drop (bsearch cutoff es 0 (length es)) es"

definition rl_prune :: "int \<Rightarrow> rate_limiter \<Rightarrow> rate_limiter" where
  "rl_prune now rl =
     (let cutoff = now - rl_window_ms rl;
          lo = bsearch cutoff (rl_entries rl) 0 (length (rl_entries rl))
      in if lo > 0
         then rl\<lparr>rl_sum := foldl (\<lambda>s e. s - e_weight e) (rl_sum rl) (take lo (rl_entries rl)),
                 rl_entries := prune_entries cutoff (rl_entries rl)\<rparr>
         else rl)"

definition denied :: "int \<Rightarrow> rate_limiter \<Rightarrow> rate_check_result" where
  "denied now rl =
     (let retryAfter = (case rl_entries rl of
                          oldest # _ \<Rightarrow> \<lceil>of_int (e_time oldest + rl_window_ms rl - now) / (1000::rat)\<rceil>
                        | [] \<Rightarrow> 1)
      in \<lparr>rc_allowed = False, rc_remaining = max 0 (rl_limit rl - rl_sum rl),
          rc_retry_after = Some (max 1 retryAfter)\<rparr>)"

definition rl_check :: "rat \<Rightarrow> int \<Rightarrow> rate_limiter \<Rightarrow> rate_limiter \<times> rate_check_result" where
  "rl_check weight now rl0 =
     (let rl = rl_prune now rl0; currentWeight = rl_sum rl
      in if currentWeight + weight > rl_limit rl then (rl, denied now rl)
         else (rl\<lparr>rl_entries := rl_entries rl @ [\<lparr>e_time = now, e_weight = weight\<rparr>],
                  rl_sum := rl_sum rl + weight\<rparr>,
               \<lparr>rc_allowed = True, rc_remaining = max 0 (rl_limit rl - currentWeight - weight),
                rc_retry_after = None\<rparr>))"

definition rl_peek :: "rat \<Rightarrow> int \<Rightarrow> rate_limiter \<Rightarrow> rate_limiter \<times> rate_check_result" where
  "rl_peek weight now rl0 =
     (let rl = rl_prune now rl0; currentWeight = rl_sum rl
      in if currentWeight + weight > rl_limit rl then (rl, denied now rl)
         else (rl, \<lparr>rc_allowed = True, rc_remaining = max 0 (rl_limit rl - currentWeight - weight),
                    rc_retry_after = None\<rparr>))"

definition rl_count :: "int \<Rightarrow> rate_limiter \<Rightarrow> rate_limiter \<times> rat" where
  "rl_count now rl0 = (let rl = rl_prune now rl0 in (rl, rl_sum rl))"

subsection \<open>The binary search\<close>

text \<open>The search keeps: everything before \<open>lo\<close> is expired, everything from \<open>hi\<close> on is not.\<close>

lemma bsearch_bounds:
  assumes sorted: "sorted (map e_time es)"
  shows "lo \<le> hi \<Longrightarrow> hi \<le> length es \<Longrightarrow> \<forall>i<lo. e_time (es ! i) < c \<Longrightarrow>
    \<forall>i. hi \<le> i \<and> i < length es \<longrightarrow> c \<le> e_time (es ! i) \<Longrightarrow>
    bsearch c es lo hi \<le> length es \<and> (\<forall>i<bsearch c es lo hi. e_time (es ! i) < c) \<and>
    (\<forall>i. bsearch c es lo hi \<le> i \<and> i < length es \<longrightarrow> c \<le> e_time (es ! i))"
proof (induction "hi - lo" arbitrary: lo hi rule: less_induct)
  case less
  have mono: "e_time (es ! i) \<le> e_time (es ! j)" if "i \<le> j" "j < length es" for i j
    using sorted_nth_mono [OF sorted, of i j] that by simp
  show ?case
  proof (cases "lo < hi")
    case True
    define mid where "mid = (lo + hi) div 2"
    have mid: "lo \<le> mid" "mid < hi" using True by (simp_all add: mid_def)
    have step: "bsearch c es lo hi =
        (if e_time (es ! mid) < c then bsearch c es (mid + 1) hi else bsearch c es lo mid)"
      using True by (subst bsearch.simps) (simp add: mid_def Let_def)
    show ?thesis
    proof (cases "e_time (es ! mid) < c")
      case small: True
      have "e_time (es ! i) < c" if "i < mid + 1" for i
        using mono [of i mid] small that mid less.prems(2) by simp
      then have below: "\<forall>i<mid + 1. e_time (es ! i) < c" by blast
      have "mid + 1 \<le> hi" "hi - (mid + 1) < hi - lo" using mid by simp_all
      from less.hyps [OF this(2,1) less.prems(2) below less.prems(4)]
      show ?thesis unfolding step if_P [OF small] .
    next
      case False
      have "c \<le> e_time (es ! i)" if "mid \<le> i" "i < length es" for i
        using mono [of mid i] False that by simp
      then have above: "\<forall>i. mid \<le> i \<and> i < length es \<longrightarrow> c \<le> e_time (es ! i)" by blast
      have "mid - lo < hi - lo" "mid \<le> length es" using mid less.prems(2) by simp_all
      from less.hyps [OF this(1) mid(1) this(2) less.prems(3) above]
      show ?thesis unfolding step if_not_P [OF False] .
    qed
  next
    case False
    then show ?thesis using less.prems by (simp add: bsearch.simps)
  qed
qed

lemma prune_entries_window:
  assumes "sorted (map e_time es)"
  shows "prune_entries c es = in_window e_time c es"
    "take (bsearch c es 0 (length es)) es = filter (\<lambda>e. \<not> c \<le> e_time e) es"
proof -
  let ?n = "bsearch c es 0 (length es)"
  have b: "?n \<le> length es" "\<forall>i<?n. e_time (es ! i) < c"
    "\<forall>i. ?n \<le> i \<and> i < length es \<longrightarrow> c \<le> e_time (es ! i)"
    using bsearch_bounds [OF assms, of 0 "length es" c] by simp_all
  have front: "\<forall>e\<in>set (take ?n es). e_time e < c"
    using b(1,2) by (auto simp: in_set_conv_nth)
  have rest: "\<forall>e\<in>set (drop ?n es). c \<le> e_time e"
    using b(3) by (auto simp: in_set_conv_nth)
  show "prune_entries c es = in_window e_time c es"
    unfolding prune_entries_def by (rule in_window_suffix [OF assms front rest])
  have "filter (\<lambda>e. \<not> c \<le> e_time e) (take ?n es @ drop ?n es) = take ?n es"
    using front rest unfolding filter_append by (auto simp: filter_empty_conv filter_id_conv)
  then show "take ?n es = filter (\<lambda>e. \<not> c \<le> e_time e) es" by simp
qed

interpretation requests: window_prune e_time prune_entries
  by unfold_locales (rule prune_entries_window(1))

text \<open>The running sum is the weight of the entries that are left.\<close>

definition rl_ok :: "rate_limiter \<Rightarrow> bool" where
  "rl_ok rl = (sorted (map e_time (rl_entries rl)) \<and> rl_sum rl = (\<Sum>e\<leftarrow>rl_entries rl. e_weight e))"

lemma foldl_minus: "foldl (\<lambda>s e. s - f e) (a::rat) xs = a - (\<Sum>e\<leftarrow>xs. f e)"
  by (induction xs arbitrary: a) auto

lemma rl_prune_spec:
  assumes "rl_ok rl"
  shows "rl_entries (rl_prune now rl) = prune_entries (now - rl_window_ms rl) (rl_entries rl)"
    "rl_ok (rl_prune now rl)" "rl_limit (rl_prune now rl) = rl_limit rl"
    "rl_window_ms (rl_prune now rl) = rl_window_ms rl"
proof -
  let ?c = "now - rl_window_ms rl" and ?es = "rl_entries rl"
  let ?n = "bsearch ?c ?es 0 (length ?es)"
  have sorted: "sorted (map e_time ?es)" using assms by (simp add: rl_ok_def)
  show e: "rl_entries (rl_prune now rl) = prune_entries ?c ?es"
    by (auto simp: rl_prune_def Let_def prune_entries_def)
  show "rl_limit (rl_prune now rl) = rl_limit rl" "rl_window_ms (rl_prune now rl) = rl_window_ms rl"
    by (auto simp: rl_prune_def Let_def)
  have "(\<Sum>e\<leftarrow>take ?n ?es @ drop ?n ?es. e_weight e) =
      (\<Sum>e\<leftarrow>take ?n ?es. e_weight e) + (\<Sum>e\<leftarrow>drop ?n ?es. e_weight e)"
    by (simp only: map_append sum_list_append)
  then have "(\<Sum>e\<leftarrow>?es. e_weight e) =
      (\<Sum>e\<leftarrow>take ?n ?es. e_weight e) + (\<Sum>e\<leftarrow>drop ?n ?es. e_weight e)"
    by (simp only: append_take_drop_id)
  moreover have "rl_sum rl = (\<Sum>e\<leftarrow>?es. e_weight e)" using assms by (simp add: rl_ok_def)
  moreover have "rl_sum (rl_prune now rl) = rl_sum rl - (\<Sum>e\<leftarrow>take ?n ?es. e_weight e)"
    unfolding rl_prune_def Let_def foldl_minus by (cases "?n > 0") simp_all
  ultimately have "rl_sum (rl_prune now rl) = (\<Sum>e\<leftarrow>prune_entries ?c ?es. e_weight e)"
    unfolding prune_entries_def by linarith
  moreover have "sorted (map e_time (prune_entries ?c ?es))"
    unfolding prune_entries_window(1) [OF sorted] by (rule sorted_in_window [OF sorted])
  ultimately show "rl_ok (rl_prune now rl)" unfolding rl_ok_def e by blast
qed

subsection \<open>The limiter against the full history\<close>

datatype rate_call = Check rat int | Peek rat int

fun call_time :: "rate_call \<Rightarrow> int" where
  "call_time (Check weight now) = now"
| "call_time (Peek weight now) = now"

fun rl_call :: "rate_call \<Rightarrow> rate_limiter \<Rightarrow> rate_limiter \<times> rate_check_result" where
  "rl_call (Check weight now) rl = rl_check weight now rl"
| "rl_call (Peek weight now) rl = rl_peek weight now rl"

fun rl_calls :: "rate_call list \<Rightarrow> rate_limiter \<Rightarrow> rate_check_result list" where
  "rl_calls [] rl = []"
| "rl_calls (c # cs) rl = (let (rl', r) = rl_call c rl in r # rl_calls cs rl')"

text \<open>
  The specification never forgets: \<open>hist\<close> is every request ever admitted, and a request is
  admitted when the weight of the last window, together with its own, is within the limit. A
  denied one is told the seconds, rounded up and at least one, until the oldest request of the
  window is as old as the window.
\<close>

definition window_weight :: "int \<Rightarrow> entry list \<Rightarrow> rat" where
  "window_weight cutoff hist = (\<Sum>e\<leftarrow>in_window e_time cutoff hist. e_weight e)"

definition come_back :: "int \<Rightarrow> int \<Rightarrow> entry list \<Rightarrow> int" where
  "come_back window now hist =
     (case in_window e_time (now - window) hist of
        [] \<Rightarrow> 1
      | oldest # _ \<Rightarrow> max 1 \<lceil>of_int (e_time oldest + window - now) / (1000::rat)\<rceil>)"

definition spec_answer :: "rat \<Rightarrow> int \<Rightarrow> rat \<Rightarrow> int \<Rightarrow> entry list \<Rightarrow> rate_check_result" where
  "spec_answer limit window weight now hist =
     (let cur = window_weight (now - window) hist
      in if cur + weight \<le> limit
         then \<lparr>rc_allowed = True, rc_remaining = max 0 (limit - cur - weight), rc_retry_after = None\<rparr>
         else \<lparr>rc_allowed = False, rc_remaining = max 0 (limit - cur),
               rc_retry_after = Some (come_back window now hist)\<rparr>)"

fun spec_calls :: "rat \<Rightarrow> int \<Rightarrow> rate_call list \<Rightarrow> entry list \<Rightarrow> rate_check_result list" where
  "spec_calls limit window [] hist = []"
| "spec_calls limit window (Check weight now # cs) hist =
     (let r = spec_answer limit window weight now hist
      in r # spec_calls limit window cs
        (if rc_allowed r then hist @ [\<lparr>e_time = now, e_weight = weight\<rparr>] else hist))"
| "spec_calls limit window (Peek weight now # cs) hist =
     spec_answer limit window weight now hist # spec_calls limit window cs hist"

definition tracks :: "rate_limiter \<Rightarrow> entry list \<Rightarrow> int \<Rightarrow> bool" where
  "tracks rl hist seen =
     (rl_ok rl \<and> requests.knows (rl_entries rl) hist (seen - rl_window_ms rl) \<and>
      (\<forall>e\<in>set hist \<union> set (rl_entries rl). e_time e \<le> seen))"

lemma tracks_prune:
  assumes "tracks rl hist seen" "seen \<le> now"
  shows "tracks (rl_prune now rl) hist now"
    "rl_sum (rl_prune now rl) = window_weight (now - rl_window_ms rl) hist"
    "rl_entries (rl_prune now rl) = in_window e_time (now - rl_window_ms rl) hist"
proof -
  let ?c = "now - rl_window_ms rl"
  have ok: "rl_ok rl" and k: "requests.knows (rl_entries rl) hist (seen - rl_window_ms rl)"
    using assms(1) by (simp_all add: tracks_def)
  note p = rl_prune_spec [OF ok, of now]
  have le: "seen - rl_window_ms rl \<le> ?c" using assms(2) by simp
  note kp = requests.knows_prune [OF k le]
  have "set (rl_entries (rl_prune now rl)) \<subseteq> set hist"
    unfolding p(1) kp(2) in_window_def by auto
  moreover have "e_time e \<le> now" if "e \<in> set hist" for e
    using assms that by (force simp: tracks_def)
  ultimately show "tracks (rl_prune now rl) hist now"
    using p(2,4) kp(1) unfolding tracks_def p(1) by auto
  show "rl_sum (rl_prune now rl) = window_weight ?c hist"
    using p(1,2) kp(2) by (simp add: rl_ok_def window_weight_def)
  show "rl_entries (rl_prune now rl) = in_window e_time ?c hist"
    unfolding p(1) by (rule kp(2))
qed

lemma denied_spec:
  assumes "tracks rl hist seen" "seen \<le> now"
  shows "denied now (rl_prune now rl) =
    \<lparr>rc_allowed = False, rc_remaining = max 0 (rl_limit rl - window_weight (now - rl_window_ms rl) hist),
     rc_retry_after = Some (come_back (rl_window_ms rl) now hist)\<rparr>"
proof -
  have ok: "rl_ok rl" using assms(1) by (simp add: tracks_def)
  show ?thesis
    unfolding denied_def tracks_prune [OF assms] rl_prune_spec(3,4) [OF ok] come_back_def
    by (simp split: list.split)
qed

lemma tracks_admit:
  fixes w :: rat
  assumes "tracks rl hist now"
  defines "e \<equiv> \<lparr>e_time = now, e_weight = w\<rparr>"
  shows "tracks (rl\<lparr>rl_entries := rl_entries rl @ [e], rl_sum := rl_sum rl + w\<rparr>) (hist @ [e]) now"
proof -
  have "requests.knows (rl_entries rl @ [e]) (hist @ [e]) (now - rl_window_ms rl)"
    using assms by (intro requests.knows_snoc) (auto simp: tracks_def)
  then show ?thesis using assms by (auto simp: tracks_def rl_ok_def sorted_append)
qed

lemma tracks_calls:
  "tracks rl hist seen \<Longrightarrow> sorted (seen # map call_time cs) \<Longrightarrow>
   rl_calls cs rl = spec_calls (rl_limit rl) (rl_window_ms rl) cs hist"
proof (induction cs arbitrary: rl hist seen)
  case (Cons c cs)
  have le: "seen \<le> call_time c" and rest: "sorted (call_time c # map call_time cs)"
    using Cons.prems(2) by simp_all
  let ?p = "rl_prune (call_time c) rl"
  note t = tracks_prune(1,2) [OF Cons.prems(1) le]
  have ok: "rl_ok rl" using Cons.prems(1) by (simp add: tracks_def)
  note p = rl_prune_spec [OF ok, of "call_time c"]
  note denied = denied_spec [OF Cons.prems(1) le]
  note ih = Cons.IH [OF _ rest]
  show ?case
  proof (cases c)
    case (Check weight now)
    then show ?thesis
      using ih [OF t(1)] ih [OF tracks_admit [OF t(1), of weight]] t(2) p(3,4)
      by (auto simp: rl_check_def spec_answer_def denied [simplified Check call_time.simps] Let_def not_less [symmetric])
  next
    case (Peek weight now)
    then show ?thesis
      using ih [OF t(1)] t(2) p(3,4)
      by (auto simp: rl_peek_def spec_answer_def denied [simplified Peek call_time.simps] Let_def not_less [symmetric])
  qed
qed simp

text \<open>
  C7: The request limiter is the sliding-window limiter. On a clock that does not run
  backwards, every answer of \<open>check\<close> and \<open>peek\<close>, the decision, the remaining budget and the
  delay after which to retry, is the one computed from the complete history of admitted
  requests: pruning by binary search and the running sum lose nothing.
\<close>

theorem rate_limiter_refines_history:
  assumes "sorted (map call_time calls)"
  shows "rl_calls calls (new_rate_limiter limit windowSeconds) =
    spec_calls limit (windowSeconds * 1000) calls []"
proof (cases calls)
  case (Cons c cs)
  let ?rl = "new_rate_limiter limit windowSeconds"
  have "tracks ?rl [] (call_time c)"
    by (simp add: tracks_def new_rate_limiter_def rl_ok_def requests.knows_new)
  moreover have "sorted (call_time c # map call_time calls)" using assms Cons by simp
  ultimately show ?thesis
    using tracks_calls [of ?rl "[]" "call_time c" calls] by (simp add: new_rate_limiter_def)
qed simp

theorem rate_limiter_refines_history_witness:
  "map (\<lambda>r. (rc_allowed r, rc_remaining r, rc_retry_after r))
     (rl_calls [Check 1 0, Check (1 / 2) 400, Check 1 900, Check 1 2300] (new_rate_limiter 2 2)) =
     [(True, 1, None), (True, 1 / 2, None), (False, 1 / 2, Some 2), (True, 1 / 2, None)]"
proof -
  have c: "\<lceil>(11 / 10 :: rat)\<rceil> = 2" by (simp add: ceiling_eq_iff)
  have m: "sorted (map call_time [Check 1 0, Check (1 / 2) 400, Check 1 900, Check 1 2300])" by simp
  show ?thesis
    unfolding rate_limiter_refines_history [OF m]
    by (simp add: window_weight_def in_window_def spec_answer_def come_back_def c Let_def)
qed

text \<open>
  A denial names the right time to come back. The reported delay is at least one second; at
  any time more than that delay later the oldest entry that caused the denial has left the
  window, and one second earlier it had not (unless the delay is the minimum). Exactly at the
  delay it may still count, because the window is closed at its lower end.
\<close>

theorem retry_after_exact:
  assumes "rl_ok rl0" "rl_check weight now rl0 = (rl, r)" "\<not> rc_allowed r"
    "rl_entries rl = oldest # rest" "rc_retry_after r = Some k"
  shows "1 \<le> k \<and> (\<forall>later > now + 1000 * k. oldest \<notin> set (rl_entries (rl_prune later rl))) \<and>
    (1 < k \<longrightarrow> oldest \<in> set (rl_entries (rl_prune (now + 1000 * (k - 1)) rl)))"
proof -
  have rl: "rl = rl_prune now rl0" "r = denied now rl"
    using assms(2,3) by (auto simp: rl_check_def Let_def split: if_splits)
  have ok: "rl_ok rl" unfolding rl(1) by (rule rl_prune_spec(2) [OF assms(1)])
  have sorted: "sorted (map e_time (rl_entries rl))" using ok by (simp add: rl_ok_def)
  define d where "d = e_time oldest + rl_window_ms rl - now"
  have k: "k = max 1 \<lceil>of_int d / (1000::rat)\<rceil>"
    using assms(4,5) by (simp add: rl(2) denied_def d_def)
  have up: "d \<le> 1000 * k"
  proof -
    have "of_int d / (1000::rat) \<le> of_int k" unfolding k by linarith
    then have "(of_int d :: rat) \<le> of_int (1000 * k)" by simp
    then show ?thesis by linarith
  qed
  have low: "1000 * (k - 1) < d" if "1 < k"
  proof -
    have "of_int (k - 1) < of_int d / (1000::rat)" using that unfolding k by linarith
    then have "of_int (1000 * (k - 1)) < (of_int d :: rat)" by simp
    then show ?thesis by linarith
  qed
  have mem: "x \<in> set (rl_entries (rl_prune t rl)) \<longleftrightarrow>
      x \<in> set (rl_entries rl) \<and> t - rl_window_ms rl \<le> e_time x" for x t
    using rl_prune_spec(1) [OF ok] prune_entries_window(1) [OF sorted] by (auto simp: in_window_def)
  have "1 \<le> k" unfolding k by simp
  moreover have "oldest \<notin> set (rl_entries (rl_prune later rl))" if "now + 1000 * k < later" for later
    using up that unfolding mem d_def by linarith
  moreover have "oldest \<in> set (rl_entries (rl_prune (now + 1000 * (k - 1)) rl))" if "1 < k"
    using low [OF that] assms(4) unfolding mem d_def by simp
  ultimately show ?thesis by blast
qed

theorem retry_after_exact_witness:
  "let e = \<lparr>e_time = 0, e_weight = 1\<rparr>;
       rl = \<lparr>rl_entries = [e], rl_sum = 1, rl_limit = 1, rl_window_ms = 10000\<rparr>
   in rc_retry_after (snd (rl_check 1 5000 rl)) = Some 5 \<and>
      e \<notin> set (rl_entries (rl_prune 10001 (fst (rl_check 1 5000 rl))))"
proof -
  define e :: entry where "e = \<lparr>e_time = 0, e_weight = 1\<rparr>"
  define rl where "rl = \<lparr>rl_entries = [e], rl_sum = 1, rl_limit = 1, rl_window_ms = 10000\<rparr>"
  have ok: "rl_ok rl" by (simp add: rl_def rl_ok_def e_def)
  have "bsearch (- 5000) [e] 0 (Suc 0) = 0"
    by (simp add: e_def bsearch.simps [of _ _ _ "Suc 0"] bsearch.simps [of _ _ _ 0])
  then have p: "rl_prune 5000 rl = rl" by (simp add: rl_prune_def rl_def)
  have c: "rl_check 1 5000 rl = (rl, \<lparr>rc_allowed = False, rc_remaining = 0, rc_retry_after = Some 5\<rparr>)"
    unfolding rl_check_def p by (simp add: rl_def denied_def e_def)
  have "e \<notin> set (rl_entries (rl_prune 10001 rl))"
    using retry_after_exact [OF ok c] by (simp add: rl_def)
  then show ?thesis
    unfolding e_def [symmetric] Let_def rl_def [symmetric] c by simp
qed

subsection \<open>The authentication lockout\<close>

record auth_limiter =
  al_failures :: "int list"
  al_max_failures :: int
  al_window_ms :: int

definition new_auth_limiter :: "int \<Rightarrow> int \<Rightarrow> auth_limiter" where
  "new_auth_limiter maxFailures windowSeconds =
     \<lparr>al_failures = [], al_max_failures = maxFailures, al_window_ms = windowSeconds * 1000\<rparr>"

fun find_index :: "('a \<Rightarrow> bool) \<Rightarrow> 'a list \<Rightarrow> nat option" where
  "find_index P [] = None"
| "find_index P (x # xs) = (if P x then Some 0 else map_option Suc (find_index P xs))"

definition prune_failures :: "int \<Rightarrow> int list \<Rightarrow> int list" where
  "prune_failures cutoff ts =
     (case find_index (\<lambda>t. cutoff \<le> t) ts of
        None \<Rightarrow> []
      | Some idx \<Rightarrow> if idx > 0 then drop idx ts else ts)"

definition al_prune :: "int \<Rightarrow> auth_limiter \<Rightarrow> auth_limiter" where
  "al_prune now al = al\<lparr>al_failures := prune_failures (now - al_window_ms al) (al_failures al)\<rparr>"

definition record_failure :: "int \<Rightarrow> auth_limiter \<Rightarrow> auth_limiter" where
  "record_failure now al0 =
     (let al = al_prune now al0 in al\<lparr>al_failures := al_failures al @ [now]\<rparr>)"

definition is_locked_out :: "int \<Rightarrow> auth_limiter \<Rightarrow> auth_limiter \<times> bool" where
  "is_locked_out now al0 =
     (let al = al_prune now al0 in (al, int (length (al_failures al)) \<ge> al_max_failures al))"

definition al_reset :: "auth_limiter \<Rightarrow> auth_limiter" where
  "al_reset al = al\<lparr>al_failures := []\<rparr>"

lemma prune_failures_dropWhile: "prune_failures c ts = dropWhile (\<lambda>t. \<not> c \<le> t) ts"
proof -
  have "(case find_index P xs of None \<Rightarrow> [] | Some i \<Rightarrow> drop i xs) = dropWhile (\<lambda>t. \<not> P t) xs"
    for P and xs :: "int list"
    by (induction xs) (auto split: option.split)
  from this [where P = "\<lambda>t. c \<le> t" and xs = ts] show ?thesis
    by (auto simp: prune_failures_def split: option.splits)
qed

interpretation failures: window_prune "\<lambda>t. t" prune_failures
proof
  fix xs :: "int list" and c
  assume "sorted (map (\<lambda>t. t) xs)"
  then show "prune_failures c xs = in_window (\<lambda>t. t) c xs"
    unfolding prune_failures_dropWhile in_window_def
    by (induction xs) (auto intro!: filter_True [symmetric])
qed

datatype auth_event = Failure int | LockCheck int | AuthReset

fun auth_step :: "auth_limiter \<Rightarrow> auth_event \<Rightarrow> auth_limiter" where
  "auth_step al (Failure now) = record_failure now al"
| "auth_step al (LockCheck now) = fst (is_locked_out now al)"
| "auth_step al AuthReset = al_reset al"

text \<open>The failures a history of events leaves on record, with no pruning at all.\<close>

fun on_record :: "auth_event list \<Rightarrow> int list \<Rightarrow> int list" where
  "on_record [] ts = ts"
| "on_record (Failure now # es) ts = on_record es (ts @ [now])"
| "on_record (LockCheck now # es) ts = on_record es ts"
| "on_record (AuthReset # es) ts = on_record es []"

fun event_times :: "auth_event list \<Rightarrow> int list" where
  "event_times [] = []"
| "event_times (Failure now # es) = now # event_times es"
| "event_times (LockCheck now # es) = now # event_times es"
| "event_times (AuthReset # es) = event_times es"

lemma auth_run_knows:
  assumes "failures.knows (al_failures al) hist (seen - al_window_ms al)"
    "\<forall>t\<in>set hist \<union> set (al_failures al). t \<le> seen" "sorted (seen # event_times es @ [now])"
  shows "failures.knows (al_failures (foldl auth_step al es)) (on_record es hist) (now - al_window_ms al) \<and>
    al_window_ms (foldl auth_step al es) = al_window_ms al \<and>
    al_max_failures (foldl auth_step al es) = al_max_failures al"
  using assms
proof (induction es arbitrary: al hist seen)
  case Nil
  then show ?case by (auto intro: failures.knows_later)
next
  case (Cons e es)
  have prune: "failures.knows (al_failures (al_prune t al)) hist (t - al_window_ms al)"
    "\<forall>x\<in>set (al_failures (al_prune t al)). x \<in> set hist"
    "al_window_ms (al_prune t al) = al_window_ms al"
    "al_max_failures (al_prune t al) = al_max_failures al" if "seen \<le> t" for t
    using failures.knows_prune [OF Cons.prems(1), of "t - al_window_ms al"] that
    by (auto simp: al_prune_def in_window_def)
  show ?case
  proof (cases e)
    case (Failure t)
    let ?al = "record_failure t al"
    have t: "seen \<le> t" "sorted (t # event_times es @ [now])" using Cons.prems(3) Failure by simp_all
    have le: "\<forall>x\<in>set hist. x \<le> t" using Cons.prems(2) t(1) by force
    have "failures.knows (al_failures ?al) (hist @ [t]) (t - al_window_ms al)"
      unfolding record_failure_def Let_def
      using failures.knows_snoc [OF prune(1) [OF t(1)], of t] prune(2) [OF t(1)] le by simp
    moreover have "al_window_ms ?al = al_window_ms al" "al_max_failures ?al = al_max_failures al"
      using prune(3,4) [OF t(1)] by (simp_all add: record_failure_def Let_def)
    moreover have "\<forall>x\<in>set (hist @ [t]) \<union> set (al_failures ?al). x \<le> t"
      using prune(2) [OF t(1)] le by (auto simp: record_failure_def Let_def)
    ultimately show ?thesis using Cons.IH [of ?al "hist @ [t]" t] t(2) Failure by simp
  next
    case (LockCheck t)
    let ?al = "al_prune t al"
    have t: "seen \<le> t" "sorted (t # event_times es @ [now])" using Cons.prems(3) LockCheck by simp_all
    have "\<forall>x\<in>set hist \<union> set (al_failures ?al). x \<le> t"
      using prune(2) [OF t(1)] Cons.prems(2) t(1) by force
    then show ?thesis
      using Cons.IH [of ?al hist t] prune(1,3,4) [OF t(1)] t(2) LockCheck
      by (simp add: is_locked_out_def Let_def)
  next
    case AuthReset
    then show ?thesis
      using Cons.IH [of "al_reset al" "[]" seen] Cons.prems(3) failures.knows_new
      by (simp add: al_reset_def)
  qed
qed

text \<open>
  Lockout counts exactly the failures of the last window. On a clock that does not run
  backwards, the limiter locks out at time \<open>now\<close> exactly when the failures recorded since the
  last reset and not older than the window number at least \<open>maxFailures\<close>.
\<close>

theorem lockout_counts_window:
  assumes "sorted (event_times es @ [now])"
  shows "snd (is_locked_out now (foldl auth_step (new_auth_limiter maxFailures windowSeconds) es)) \<longleftrightarrow>
    maxFailures \<le> int (length (filter (\<lambda>t. now - windowSeconds * 1000 \<le> t) (on_record es [])))"
proof -
  let ?al = "new_auth_limiter maxFailures windowSeconds"
  define seen where "seen = (case event_times es of [] \<Rightarrow> now | t # _ \<Rightarrow> t)"
  have "sorted (seen # event_times es @ [now])"
    using assms by (cases "event_times es") (simp_all add: seen_def)
  from auth_run_knows [of ?al "[]" seen, OF _ _ this]
  have k: "failures.knows (al_failures (foldl auth_step ?al es)) (on_record es []) (now - windowSeconds * 1000)"
    "al_window_ms (foldl auth_step ?al es) = windowSeconds * 1000"
    "al_max_failures (foldl auth_step ?al es) = maxFailures"
    by (simp_all add: new_auth_limiter_def failures.knows_new)
  show ?thesis
    using failures.knows_prune(2) [OF k(1)] k(2,3)
    by (simp add: is_locked_out_def al_prune_def in_window_def Let_def)
qed

theorem lockout_counts_window_witness:
  "snd (is_locked_out 900 (foldl auth_step (new_auth_limiter 2 1) [Failure 10, LockCheck 20, Failure 30])) \<and>
   \<not> snd (is_locked_out 1020 (foldl auth_step (new_auth_limiter 2 1) [Failure 10, LockCheck 20, Failure 30]))"
  using lockout_counts_window [of "[Failure 10, LockCheck 20, Failure 30]" 900 2 1]
    lockout_counts_window [of "[Failure 10, LockCheck 20, Failure 30]" 1020 2 1] by simp

end
