(* ===== verification/Requests.thy ===== *)
theory Requests
  imports Js_Text Breaker
begin

text \<open>
  Decisions on a single request or response: the request gate on the upstream window
  (\<open>src/request-gate.ts\<close>), the classification of a 429 (\<open>src/shared/classify-429.ts\<close>), the weight
  of a request (\<open>src/shared/weight.ts\<close>), incident attribution (\<open>src/incidents.ts\<close>) and the
  treatment of headers (\<open>src/shared/http-headers.ts\<close>). Headers are lists of name/value pairs.
\<close>

subsection \<open>The request gate\<close>

record request_gate_stats =
  rg_requests_in_window :: rat
  rg_requests_hard_cap :: "rat option"
  rg_requests_limit :: "rat option"

record request_gate_decision =
  rg_block :: bool
  rg_cap :: "rat option"
  rg_threshold :: "rat option"

definition sanitized_margin :: "jsnum \<Rightarrow> rat" where
  "sanitized_margin margin = (case margin of Fin r \<Rightarrow> max 0 (of_int \<lfloor>r\<rfloor>) | _ \<Rightarrow> 0)"

definition request_gate_decide :: "request_gate_stats \<Rightarrow> jsnum \<Rightarrow> bool \<Rightarrow> request_gate_decision" where
  "request_gate_decide stats margin useHardCap =
     (let chosen = (if useHardCap then rg_requests_hard_cap stats else rg_requests_limit stats);
          fallback = (if useHardCap then rg_requests_limit stats else rg_requests_hard_cap stats)
      in case (case chosen of None \<Rightarrow> fallback | Some c \<Rightarrow> Some c) of
           None \<Rightarrow> \<lparr>rg_block = False, rg_cap = None, rg_threshold = None\<rparr>
         | Some cap \<Rightarrow>
             (let effectiveMargin = (if sanitized_margin margin \<ge> cap then 0 else sanitized_margin margin);
                  threshold = max 0 (cap - effectiveMargin)
              in \<lparr>rg_block = (rg_requests_in_window stats \<ge> threshold), rg_cap = Some cap,
                  rg_threshold = Some threshold\<rparr>))"

text \<open>
  The request gate blocks at the cap and no earlier than the margin allows. With no known
  limit it never blocks. With an effective cap it blocks every window at or over a positive cap,
  never blocks a window below the cap by more than the margin, never blocks an empty window
  under a positive cap (whatever the configured margin, NaN and infinities included), and the
  chosen field of the upstream limits wins over the other.
\<close>

theorem request_gate_correct:
  fixes stats margin useHardCap
  defines "d \<equiv> request_gate_decide stats margin useHardCap"
  defines "chosen \<equiv> (if useHardCap then rg_requests_hard_cap stats else rg_requests_limit stats)"
  defines "other \<equiv> (if useHardCap then rg_requests_limit stats else rg_requests_hard_cap stats)"
  shows "(rg_cap d = None \<longleftrightarrow> chosen = None \<and> other = None) \<and> (rg_cap d = None \<longrightarrow> \<not> rg_block d) \<and>
    (chosen \<noteq> None \<longrightarrow> rg_cap d = chosen) \<and>
    (\<forall>cap. rg_cap d = Some cap \<longrightarrow> 0 < cap \<longrightarrow>
       (cap \<le> rg_requests_in_window stats \<longrightarrow> rg_block d) \<and>
       (rg_requests_in_window stats \<le> 0 \<longrightarrow> \<not> rg_block d) \<and>
       (rg_requests_in_window stats < cap - sanitized_margin margin \<longrightarrow> \<not> rg_block d))"
  unfolding d_def chosen_def other_def
  by (auto simp: request_gate_decide_def Let_def sanitized_margin_def split: option.splits jsnum.splits)

definition demo_stats :: request_gate_stats where
  "demo_stats = \<lparr>rg_requests_in_window = 90, rg_requests_hard_cap = Some 100, rg_requests_limit = None\<rparr>"

theorem request_gate_correct_witness:
  "rg_cap (request_gate_decide demo_stats (Fin 5) False) = Some 100 \<and>
   \<not> rg_block (request_gate_decide demo_stats (Fin 5) False)"
proof -
  have c: "rg_cap (request_gate_decide demo_stats (Fin 5) False) = Some 100"
    by (simp add: demo_stats_def request_gate_decide_def Let_def)
  show ?thesis
    using request_gate_correct [of demo_stats "Fin 5" False] c
    by (simp add: sanitized_margin_def) (simp add: demo_stats_def)
qed

subsection \<open>Classification and weight\<close>

definition classify_429 :: "string obj \<Rightarrow> kind429" where
  "classify_429 headers =
     (let server = (case obj_get headers ''server'' of None \<Rightarrow> [] | Some s \<Rightarrow> s)
      in if js_includes server ''cloudflare'' \<or> js_includes server ''fastly'' then GatewayCdn
         else case obj_get headers ''retry-after'' of
                Some ra \<Rightarrow> (if ra \<noteq> [] \<and> js_le (js_number ra) (Fin 10) then Concurrency else RateLimit)
              | None \<Rightarrow> RateLimit)"

definition request_weight :: "string option \<Rightarrow> (string \<Rightarrow> rat) option \<Rightarrow> rat" where
  "request_weight modelName models =
     (case modelName of
        None \<Rightarrow> 1
      | Some m \<Rightarrow> if m = [] then 1 else (case models of Some getWeight \<Rightarrow> getWeight m | None \<Rightarrow> 1))"

text \<open>Only a short numeric delay from the origin itself counts against the breaker.\<close>

lemma classify_concurrency_iff:
  "classify_429 headers = Concurrency \<longleftrightarrow>
   (\<forall>s. obj_get headers ''server'' = Some s \<longrightarrow>
      \<not> js_includes s ''cloudflare'' \<and> \<not> js_includes s ''fastly'') \<and>
   (\<exists>ra. obj_get headers ''retry-after'' = Some ra \<and> ra \<noteq> [] \<and> js_le (js_number ra) (Fin 10))"
  by (auto simp: classify_429_def Let_def starts_with_def split: option.splits)

subsection \<open>Incident attribution\<close>

datatype responsible_party = Upstream | Proxy | Client
datatype incident_type = UpstreamError | TtftTimeout | IdRewrite | RateLimited | GateRejected | ClientAborted
datatype status_source = FromUpstream | FromGate

definition derive_incident :: "nat \<Rightarrow> status_source \<Rightarrow> bool \<Rightarrow> responsible_party \<times> incident_type" where
  "derive_incident status source clientAborted =
     (if source = FromUpstream then (Upstream, UpstreamError)
      else if clientAborted then (Client, ClientAborted)
      else if status = 429 then (Proxy, RateLimited)
      else if status = 504 then (Proxy, TtftTimeout)
      else (Proxy, GateRejected))"

subsection \<open>Headers\<close>

definition HOP :: "string list" where
  "HOP = [''connection'', ''keep-alive'', ''proxy-authenticate'', ''proxy-authorization'', ''te'',
          ''trailers'', ''transfer-encoding'', ''upgrade'', ''content-length'', ''host'']"

fun headers_to_object :: "(string \<times> string) list \<Rightarrow> string obj \<Rightarrow> string obj" where
  "headers_to_object [] out = out"
| "headers_to_object ((k, v) # hs) out =
     (let lk = to_lower k
      in headers_to_object hs
           (obj_set out lk (case obj_get out lk of None \<Rightarrow> v | Some old \<Rightarrow> old @ '', '' @ v)))"

definition REDACTED_HEADERS :: "string list" where
  "REDACTED_HEADERS = [''authorization'', ''x-api-key'', ''api-key'']"

fun redact_loop :: "(string \<times> string) list \<Rightarrow> string obj \<Rightarrow> string obj" where
  "redact_loop [] out = out"
| "redact_loop ((k, v) # hs) out =
     redact_loop hs (obj_set out k (if to_lower k \<in> set REDACTED_HEADERS then ''[REDACTED]'' else v))"

definition redact_headers :: "string obj \<Rightarrow> string obj" where
  "redact_headers headers = redact_loop headers []"

lemma redact_loop_map:
  "distinct (obj_keys (out @ hs)) \<Longrightarrow> redact_loop hs out = out @
     map (\<lambda>(k, v). (k, if to_lower k \<in> set REDACTED_HEADERS then ''[REDACTED]'' else v)) hs"
proof (induction hs arbitrary: out)
  case (Cons h hs)
  obtain k v where h: "h = (k, v)" by force
  have "k \<notin> fst ` set out" using Cons.prems by (auto simp: h)
  then show ?case
    using Cons.IH [of "out @ [(k, if to_lower k \<in> set REDACTED_HEADERS then ''[REDACTED]'' else v)]"]
      Cons.prems obj_keys_set_absent [of k out] by (simp add: h)
qed simp

text \<open>
  No credential reaches the capture store. The redacted headers have the same names in the
  same order; the value of every header whose name is, in any letter case, one of the
  credential headers is replaced by the marker, and every other value is unchanged.
\<close>

theorem redact_headers_correct:
  assumes "distinct (obj_keys headers)"
  shows "obj_keys (redact_headers headers) = obj_keys headers \<and>
    (\<forall>(k, v)\<in>set (redact_headers headers).
       if to_lower k \<in> {''authorization'', ''x-api-key'', ''api-key''} then v = ''[REDACTED]''
       else (k, v) \<in> set headers)"
  using redact_loop_map [of "[]" headers] assms
  by (auto simp: redact_headers_def REDACTED_HEADERS_def split_def comp_def)

theorem redact_headers_correct_witness:
  "obj_get (redact_headers [(''Accept'', ''*/*''), (''X-Api-Key'', ''secret'')]) ''X-Api-Key'' = Some ''[REDACTED]''"
proof -
  let ?h = "[(''Accept'', ''*/*''), (''X-Api-Key'', ''secret'')]"
  have low: "to_lower ''X-Api-Key'' = ''x-api-key''" "to_lower ''Accept'' = ''accept''" by code_simp+
  then have "redact_headers ?h = [(''Accept'', ''*/*''), (''X-Api-Key'', ''[REDACTED]'')]"
    by (simp add: redact_headers_def REDACTED_HEADERS_def)
  moreover have "obj_keys (redact_headers ?h) = [''Accept'', ''X-Api-Key'']"
    using redact_headers_correct [of ?h] by simp
  ultimately show ?thesis by simp
qed

end
