(* ===== verification/Write_Queue.thy ===== *)
theory Write_Queue
  imports Js_Prelude
begin

text \<open>
  The write-behind queue of capture updates, \<open>src/queue.ts\<close>. Updates are values of a type \<open>'u\<close>.
  The asynchronous parts are events: a flush timer, the retry timer, the completion of a
  \<open>batchUpdate\<close> (the \<open>await\<close> in \<open>flushNow\<close>) and the callbacks chained to a running flush with
  \<open>.then\<close>. The store and the listener are the environment: they decide whether a batch is
  written or fails, and whether announcing a written batch throws.
  The fields \<open>wq_written\<close>, \<open>wq_dropped\<close> and \<open>wq_lost\<close> record what became of the updates:
  written by the store, handed to \<open>onDrop\<close>, or discarded without it.
\<close>

subsection \<open>State and operations\<close>

definition MAX_FLUSH_RETRIES :: nat where
  "MAX_FLUSH_RETRIES = 10"

definition RETRY_BASE_MS :: nat where
  "RETRY_BASE_MS = 1000"

definition RETRY_MAX_MS :: nat where
  "RETRY_MAX_MS = 30000"

text \<open>
  \<open>wq_live_timers\<close> counts the \<open>setTimeout\<close>s that will still fire: \<open>flushNow\<close> forgets the
  handle without clearing it. \<open>wq_running\<close> are the flushes awaiting the store, each with a flag
  for the one that \<open>guardedFlush\<close> started; \<open>wq_waiting\<close> counts the callbacks on that one,
  \<open>wq_chained\<close> those that are due.
\<close>

record 'u write_queue =
  wq_flush_batch :: nat
  wq_max_depth :: nat
  wq_queue :: "'u list"
  wq_flush_timer :: bool
  wq_live_timers :: nat
  wq_retry_timer :: "nat option"
  wq_retry_count :: nat
  wq_flushing :: bool
  wq_running :: "('u list \<times> bool) list"
  wq_waiting :: nat
  wq_chained :: nat
  wq_dropped_count :: nat
  wq_written :: "'u list"
  wq_dropped :: "'u list"
  wq_lost :: "'u list"

definition new_write_queue :: "nat \<Rightarrow> nat \<Rightarrow> 'u write_queue" where
  "new_write_queue flushBatch queueMaxDepth =
     \<lparr>wq_flush_batch = flushBatch, wq_max_depth = queueMaxDepth, wq_queue = [],
      wq_flush_timer = False, wq_live_timers = 0, wq_retry_timer = None, wq_retry_count = 0,
      wq_flushing = False, wq_running = [], wq_waiting = 0, wq_chained = 0,
      wq_dropped_count = 0, wq_written = [], wq_dropped = [], wq_lost = []\<rparr>"

definition flush_now :: "bool \<Rightarrow> 'u write_queue \<Rightarrow> 'u write_queue" where
  "flush_now guarded q0 =
     (let q = q0\<lparr>wq_flush_timer := False\<rparr>
      in if wq_queue q = [] then (if guarded then q\<lparr>wq_running := wq_running q @ [([], True)]\<rparr> else q)
         else q\<lparr>wq_queue := [], wq_running := wq_running q @ [(wq_queue q, guarded)]\<rparr>)"

definition guarded_flush :: "'u write_queue \<Rightarrow> 'u write_queue" where
  "guarded_flush q =
     (if wq_flushing q then q\<lparr>wq_waiting := wq_waiting q + 1\<rparr>
      else (flush_now True q)\<lparr>wq_flushing := True\<rparr>)"

definition clear_flush_timer :: "'u write_queue \<Rightarrow> 'u write_queue" where
  "clear_flush_timer q =
     (if wq_flush_timer q
      then q\<lparr>wq_flush_timer := False, wq_live_timers := wq_live_timers q - 1\<rparr> else q)"

definition drop_oldest :: "'u write_queue \<Rightarrow> 'u write_queue" where
  "drop_oldest q =
     (case wq_queue q of
        [] \<Rightarrow> q
      | u # us \<Rightarrow> q\<lparr>wq_queue := us, wq_dropped_count := wq_dropped_count q + 1,
                    wq_dropped := wq_dropped q @ [u]\<rparr>)"

definition queue_update :: "'u \<Rightarrow> 'u write_queue \<Rightarrow> 'u write_queue" where
  "queue_update u q0 =
     (let q = q0\<lparr>wq_queue := wq_queue q0 @ [u]\<rparr>;
          shouldFlush = (length (wq_queue q) \<ge> wq_flush_batch q \<or> length (wq_queue q) \<ge> wq_max_depth q)
      in if \<not> shouldFlush \<and> \<not> wq_flush_timer q
         then q\<lparr>wq_flush_timer := True, wq_live_timers := wq_live_timers q + 1\<rparr>
         else (let q1 = guarded_flush (clear_flush_timer q)
               in if length (wq_queue q1) \<ge> wq_max_depth q1 then drop_oldest q1 else q1))"

definition flush_timer_fire :: "'u write_queue \<Rightarrow> 'u write_queue" where
  "flush_timer_fire q =
     guarded_flush (q\<lparr>wq_live_timers := wq_live_timers q - 1, wq_flush_timer := False\<rparr>)"

definition retry_timer_fire :: "'u write_queue \<Rightarrow> 'u write_queue" where
  "retry_timer_fire q = guarded_flush (q\<lparr>wq_retry_timer := None\<rparr>)"

definition retry_delay :: "nat \<Rightarrow> nat" where
  "retry_delay retryCount = min (RETRY_BASE_MS * 2 ^ (retryCount - 1)) RETRY_MAX_MS"

definition flush_failed :: "'u list \<Rightarrow> 'u write_queue \<Rightarrow> 'u write_queue" where
  "flush_failed batch q0 =
     (let q = q0\<lparr>wq_queue := batch @ wq_queue q0, wq_retry_count := wq_retry_count q0 + 1\<rparr>
      in if wq_retry_count q \<ge> MAX_FLUSH_RETRIES
         then q\<lparr>wq_retry_count := 0, wq_retry_timer := None, wq_queue := [],
                wq_lost := wq_lost q @ wq_queue q\<rparr>
         else q\<lparr>wq_retry_timer := Some (retry_delay (wq_retry_count q))\<rparr>)"

definition flush_written :: "'u list \<Rightarrow> 'u write_queue \<Rightarrow> 'u write_queue" where
  "flush_written batch q =
     q\<lparr>wq_retry_timer := None, wq_retry_count := 0, wq_written := wq_written q @ batch\<rparr>"

definition flush_settled :: "'u write_queue \<Rightarrow> 'u write_queue" where
  "flush_settled q =
     q\<lparr>wq_flushing := False, wq_chained := wq_chained q + wq_waiting q, wq_waiting := 0\<rparr>"

text \<open>
  The promise of the flush rejects when building or sending the messages throws; the chained
  callbacks were registered with \<open>.then\<close> alone, so none of them runs.
\<close>

definition flush_rejected :: "'u write_queue \<Rightarrow> 'u write_queue" where
  "flush_rejected q = q\<lparr>wq_flushing := False, wq_waiting := 0\<rparr>"

datatype store_outcome = Store_Failed | Store_Written | Written_Untold

definition flush_complete :: "nat \<Rightarrow> store_outcome \<Rightarrow> 'u write_queue \<Rightarrow> 'u write_queue" where
  "flush_complete i outcome q0 =
     (let (batch, guarded) = wq_running q0 ! i;
          q = q0\<lparr>wq_running := take i (wq_running q0) @ drop (Suc i) (wq_running q0)\<rparr>;
          q1 = (if batch = [] then q else if outcome = Store_Failed then flush_failed batch q
                else flush_written batch q)
      in if \<not> guarded then q1
         else if batch \<noteq> [] \<and> outcome = Written_Untold then flush_rejected q1
         else flush_settled q1)"

definition chained_flush :: "'u write_queue \<Rightarrow> 'u write_queue" where
  "chained_flush q0 =
     (let q = q0\<lparr>wq_chained := wq_chained q0 - 1\<rparr>
      in if wq_queue q \<noteq> [] \<and> \<not> wq_flushing q then guarded_flush q else q)"

definition drain_for_shutdown :: "'u write_queue \<Rightarrow> 'u write_queue" where
  "drain_for_shutdown q0 =
     (let q = clear_flush_timer q0
      in q\<lparr>wq_retry_timer := None, wq_queue := [],
           wq_dropped_count := wq_dropped_count q + length (wq_queue q),
           wq_dropped := wq_dropped q @ wq_queue q\<rparr>)"

subsection \<open>The transition system\<close>

datatype 'u queue_event =
    QueueUpdate 'u
  | FlushTimer
  | RetryTimer
  | StoreDone nat store_outcome
  | Chained
  | FlushNow
  | DrainForShutdown

inductive wq_step :: "'u write_queue \<Rightarrow> 'u queue_event \<Rightarrow> 'u write_queue \<Rightarrow> bool" where
  update: "wq_step q (QueueUpdate u) (queue_update u q)"
| flush_timer: "0 < wq_live_timers q \<Longrightarrow> wq_step q FlushTimer (flush_timer_fire q)"
| retry_timer: "wq_retry_timer q \<noteq> None \<Longrightarrow> wq_step q RetryTimer (retry_timer_fire q)"
| store_done: "i < length (wq_running q) \<Longrightarrow> wq_step q (StoreDone i outcome) (flush_complete i outcome q)"
| chained: "0 < wq_chained q \<Longrightarrow> wq_step q Chained (chained_flush q)"
| flush_now: "wq_step q FlushNow (flush_now False q)"
| drain: "wq_step q DrainForShutdown (drain_for_shutdown q)"

inductive_cases wq_stepE: "wq_step q e q'"
inductive_simps wq_step_simps:
  "wq_step q (QueueUpdate u) q'" "wq_step q FlushTimer q'" "wq_step q RetryTimer q'"
  "wq_step q (StoreDone i outcome) q'" "wq_step q Chained q'" "wq_step q FlushNow q'"
  "wq_step q DrainForShutdown q'"

lemmas wq_run_none = steps.none [where step = wq_step]
lemmas wq_run_more = steps.more [where step = wq_step]

fun submitted :: "'u queue_event list \<Rightarrow> 'u list" where
  "submitted [] = []"
| "submitted (QueueUpdate u # es) = u # submitted es"
| "submitted (_ # es) = submitted es"

lemma submitted_append [simp]: "submitted (es @ es') = submitted es @ submitted es'"
  by (induction es rule: submitted.induct) simp_all

lemmas wq_ops = queue_update_def flush_timer_fire_def retry_timer_fire_def chained_flush_def
  drain_for_shutdown_def guarded_flush_def flush_now_def clear_flush_timer_def drop_oldest_def
  flush_settled_def flush_rejected_def flush_written_def flush_failed_def

subsection \<open>Nothing disappears\<close>

definition holding :: "'u write_queue \<Rightarrow> 'u multiset" where
  "holding q = mset (concat (map fst (wq_running q))) + mset (wq_queue q) + mset (wq_written q) +
     mset (wq_dropped q) + mset (wq_lost q)"

lemma nth_split: "i < length xs \<Longrightarrow> xs = take i xs @ xs ! i # drop (Suc i) xs"
  by (simp add: id_take_nth_drop)

lemma mset_running_remove:
  assumes "i < length (rs :: ('u list \<times> bool) list)"
  shows "mset (concat (map fst rs)) =
    mset (fst (rs ! i)) + mset (concat (map fst (take i rs @ drop (Suc i) rs)))"
  by (subst nth_split [OF assms]) simp

lemma flush_complete_holding:
  assumes "i < length (wq_running q)"
  shows "holding (flush_complete i w q) = holding q"
proof -
  obtain batch guarded where r: "wq_running q ! i = (batch, guarded)" by force
  note m = mset_running_remove [OF assms]
  show ?thesis
    unfolding holding_def m
    by (auto simp: r flush_complete_def Let_def flush_settled_def flush_rejected_def flush_written_def
        flush_failed_def ac_simps)
qed

lemma holding_parts:
  "holding (guarded_flush q) = holding q" "holding (clear_flush_timer q) = holding q"
  "holding (drop_oldest q) = holding q"
  by (auto simp: holding_def wq_ops Let_def split: list.splits)

lemma queue_update_holding: "holding (queue_update u q) = add_mset u (holding q)"
proof -
  have "holding (q\<lparr>wq_queue := wq_queue q @ [u]\<rparr>) = add_mset u (holding q)"
    by (simp add: holding_def)
  moreover have "holding (r\<lparr>wq_flush_timer := a, wq_live_timers := b\<rparr>) = holding r" for r :: "'a write_queue" and a b
    by (simp add: holding_def)
  ultimately show ?thesis by (simp add: queue_update_def Let_def holding_parts)
qed

lemma wq_step_holding:
  "wq_step q e q' \<Longrightarrow> holding q' = holding q + mset (submitted [e])"
proof (induction rule: wq_step.induct)
  case (store_done i q outcome)
  then show ?case by (simp add: flush_complete_holding)
next
  case (update q u)
  then show ?case by (simp add: queue_update_holding)
qed (auto simp: holding_def wq_ops Let_def)

lemma dropped_count_step:
  "wq_step q e q' \<Longrightarrow> wq_dropped_count q = length (wq_dropped q) \<Longrightarrow>
   wq_dropped_count q' = length (wq_dropped q')"
  by (elim wq_stepE) (auto simp: wq_ops Let_def flush_complete_def split: list.splits prod.splits)

interpretation drop_counter: invariant_system wq_step "\<lambda>q. wq_dropped_count q = length (wq_dropped q)"
  by unfold_locales (rule dropped_count_step)

text \<open>
  C8: Every update is accounted for. In every run of the queue, each submitted update is, with
  its multiplicity, in exactly one place: still queued, in a batch the store is working on,
  written, handed to \<open>onDrop\<close>, or discarded after the retries; and \<open>droppedCount\<close> counts the
  updates handed to \<open>onDrop\<close>.
\<close>

theorem updates_conserved:
  assumes "steps wq_step (new_write_queue flushBatch maxDepth) es q"
  shows "mset (submitted es) = mset (concat (map fst (wq_running q))) + mset (wq_queue q) +
      mset (wq_written q) + mset (wq_dropped q) + mset (wq_lost q) \<and>
    wq_dropped_count q = length (wq_dropped q)"
proof -
  have "steps wq_step q0 es q \<Longrightarrow> holding q = holding q0 + mset (submitted es)" for q0
    by (induction rule: steps.induct) (simp_all add: wq_step_holding)
  then have "holding q = mset (submitted es)"
    using assms by (simp add: holding_def new_write_queue_def)
  moreover have "wq_dropped_count q = length (wq_dropped q)"
    using drop_counter.run_inv [OF assms] by (simp add: new_write_queue_def)
  ultimately show ?thesis by (simp add: holding_def)
qed

theorem updates_conserved_witness:
  "wq_lost (flush_complete 0 Store_Written (queue_update 2 (queue_update (1::nat) (new_write_queue 25 100)))) = [] \<and>
   wq_written (flush_complete 0 Store_Written (queue_update 2 (queue_update (1::nat) (new_write_queue 25 100)))) = [1, 2]"
proof -
  let ?q = "flush_complete 0 Store_Written (queue_update 2 (queue_update (1::nat) (new_write_queue 25 100)))"
  have w: "wq_running ?q = []" "wq_queue ?q = []" "wq_written ?q = [1, 2]"
    by (simp_all add: wq_ops new_write_queue_def flush_complete_def Let_def)
  have "steps wq_step (new_write_queue 25 100) ((([] @ [QueueUpdate 1]) @ [QueueUpdate 2]) @ [StoreDone 0 Store_Written]) ?q"
    by (rule wq_run_more [OF wq_run_more [OF wq_run_more [OF wq_run_none wq_step.update]
        wq_step.update] wq_step.store_done])
      (simp add: wq_ops new_write_queue_def Let_def)
  from updates_conserved [OF this] show ?thesis using w by simp
qed

subsection \<open>Single flight and order\<close>

text \<open>Runs without a direct \<open>flushNow\<close>, which only the shutdown performs.\<close>

fun guarded_event :: "'u queue_event \<Rightarrow> bool" where
  "guarded_event FlushNow = False"
| "guarded_event _ = True"

text \<open>Runs in which announcing a written batch does not throw either.\<close>

fun told_event :: "'u queue_event \<Rightarrow> bool" where
  "told_event (StoreDone i Written_Untold) = False"
| "told_event _ = True"

definition single_flight :: "'u write_queue \<Rightarrow> bool" where
  "single_flight q =
     (if wq_flushing q then \<exists>batch. wq_running q = [(batch, True)]
      else wq_running q = [] \<and> wq_waiting q = 0)"

text \<open>An update in the queue always has a callback that will flush it.\<close>

definition not_stranded :: "'u write_queue \<Rightarrow> bool" where
  "not_stranded q =
     ((wq_flush_timer q \<longrightarrow> 0 < wq_live_timers q) \<and>
      (wq_queue q \<noteq> [] \<longrightarrow>
         0 < wq_live_timers q \<or>
         (if wq_flushing q then 0 < wq_waiting q
          else wq_retry_timer q \<noteq> None \<or> 0 < wq_chained q)))"

lemma guarded_flush_cases:
  obtains (busy) "wq_flushing q" "guarded_flush q = q\<lparr>wq_waiting := wq_waiting q + 1\<rparr>"
    | (free) "\<not> wq_flushing q" "guarded_flush q = q\<lparr>wq_flush_timer := False, wq_queue := [],
        wq_running := wq_running q @ [(wq_queue q, True)], wq_flushing := True\<rparr>"
  by (cases "wq_flushing q") (auto simp: guarded_flush_def flush_now_def Let_def)

lemma single_flight_parts:
  "single_flight q \<Longrightarrow> single_flight (guarded_flush q)"
  "single_flight (clear_flush_timer q) = single_flight q"
  "single_flight (drop_oldest q) = single_flight q"
  "single_flight (q\<lparr>wq_queue := us\<rparr>) = single_flight q"
  by (cases q rule: guarded_flush_cases; simp add: single_flight_def)
    (simp_all add: single_flight_def clear_flush_timer_def drop_oldest_def split: list.split)

lemma single_flight_step:
  assumes "wq_step q e q'" "single_flight q" "guarded_event e"
  shows "single_flight q'"
  using assms(1)
proof cases
  case (update u)
  have "single_flight (q\<lparr>wq_queue := wq_queue q @ [u]\<rparr>)" using assms(2) by (simp add: single_flight_parts)
  moreover have "single_flight (r\<lparr>wq_flush_timer := a, wq_live_timers := b\<rparr>) = single_flight r"
    for r :: "'a write_queue" and a b by (simp add: single_flight_def)
  ultimately show ?thesis
    unfolding update queue_update_def Let_def by (auto simp: single_flight_parts)
next
  case flush_timer
  have "single_flight (q\<lparr>wq_live_timers := wq_live_timers q - 1, wq_flush_timer := False\<rparr>)"
    using assms(2) by (simp add: single_flight_def)
  then show ?thesis unfolding flush_timer flush_timer_fire_def by (rule single_flight_parts)
next
  case retry_timer
  have "single_flight (q\<lparr>wq_retry_timer := None\<rparr>)" using assms(2) by (simp add: single_flight_def)
  then show ?thesis unfolding retry_timer retry_timer_fire_def by (rule single_flight_parts)
next
  case chained
  have "single_flight (q\<lparr>wq_chained := wq_chained q - 1\<rparr>)" using assms(2) by (simp add: single_flight_def)
  then show ?thesis unfolding chained chained_flush_def Let_def by (auto intro: single_flight_parts)
next
  case (store_done i outcome)
  then obtain batch where "wq_running q = [(batch, True)]" "i = 0"
    using assms(2) by (auto simp: single_flight_def split: if_splits)
  then show ?thesis
    unfolding store_done by (simp add: flush_complete_def Let_def flush_settled_def flush_rejected_def single_flight_def
        flush_written_def flush_failed_def)
next
  case flush_now
  then show ?thesis using assms(3) by simp
next
  case drain
  then show ?thesis using assms(2) by (simp add: drain_for_shutdown_def single_flight_def clear_flush_timer_def Let_def)
qed

text \<open>The updates on their way to the store, oldest first.\<close>

definition line :: "'u write_queue \<Rightarrow> 'u list" where
  "line q = wq_written q @ concat (map fst (wq_running q)) @ wq_queue q"

lemma subseq_keep: "subseq xs ys \<Longrightarrow> subseq (zs @ xs) (zs @ ys)"
  by (induction zs) auto

lemma line_parts:
  "single_flight q \<Longrightarrow> line (guarded_flush q) = line q"
  "line (clear_flush_timer q) = line q" "subseq (line (drop_oldest q)) (line q)"
  by (cases q rule: guarded_flush_cases; simp add: line_def single_flight_def)
    (auto simp: line_def clear_flush_timer_def drop_oldest_def intro!: subseq_keep split: list.split)

lemma line_step:
  assumes "wq_step q e q'" "single_flight q" "guarded_event e"
  shows "subseq (line q') (line q @ submitted [e])"
  using assms(1)
proof cases
  case (update u)
  let ?q = "q\<lparr>wq_queue := wq_queue q @ [u]\<rparr>"
  have l: "line ?q = line q @ [u]" and sf: "single_flight ?q"
    using assms(2) by (simp_all add: line_def single_flight_parts)
  have t: "line (r\<lparr>wq_flush_timer := a, wq_live_timers := b\<rparr>) = line r" for r :: "'a write_queue" and a b
    by (simp add: line_def)
  have f: "line (guarded_flush (clear_flush_timer ?q)) = line q @ [u]"
    using sf by (simp add: line_parts single_flight_parts l)
  show ?thesis
    using line_parts(3) [of "guarded_flush (clear_flush_timer ?q)"]
    unfolding update queue_update_def Let_def f by (simp add: l t f)
next
  case flush_timer
  have "line (flush_timer_fire q) = line q"
    using assms(2) unfolding flush_timer_fire_def
    by (subst line_parts(1)) (simp_all add: line_def single_flight_def)
  then show ?thesis using flush_timer by simp
next
  case retry_timer
  have "line (retry_timer_fire q) = line q"
    using assms(2) unfolding retry_timer_fire_def
    by (subst line_parts(1)) (simp_all add: line_def single_flight_def)
  then show ?thesis using retry_timer by simp
next
  case chained
  let ?q = "q\<lparr>wq_chained := wq_chained q - 1\<rparr>"
  have "single_flight ?q" "line ?q = line q" using assms(2) by (simp_all add: line_def single_flight_def)
  then have "line (chained_flush q) = line q" by (simp add: chained_flush_def Let_def line_parts)
  then show ?thesis using chained by simp
next
  case (store_done i outcome)
  then obtain batch where "wq_running q = [(batch, True)]" "i = 0"
    using assms(2) by (auto simp: single_flight_def split: if_splits)
  then show ?thesis
    unfolding store_done
    by (auto simp: flush_complete_def Let_def flush_settled_def flush_rejected_def flush_written_def flush_failed_def line_def)
next
  case flush_now
  then show ?thesis using assms(3) by simp
next
  case drain
  then show ?thesis by (auto simp: drain_for_shutdown_def clear_flush_timer_def Let_def line_def)
qed

lemma not_stranded_flush:
  assumes "single_flight q"
  shows "not_stranded (guarded_flush q) \<longleftrightarrow> (wq_flushing q \<longrightarrow> wq_flush_timer q \<longrightarrow> 0 < wq_live_timers q)"
  by (cases q rule: guarded_flush_cases) (auto simp: not_stranded_def)

lemma not_stranded_step:
  assumes "wq_step q e q'" and sf: "single_flight q" and ns: "not_stranded q" and "guarded_event e" and told: "told_event e"
  shows "not_stranded q'"
  using assms(1)
proof cases
  case (update u)
  have drop: "not_stranded r \<Longrightarrow> not_stranded (drop_oldest r)" for r :: "'a write_queue"
    by (auto simp: not_stranded_def drop_oldest_def split: list.split)
  have "not_stranded (guarded_flush (clear_flush_timer (q\<lparr>wq_queue := wq_queue q @ [u]\<rparr>)))"
  proof (rule iffD2 [OF not_stranded_flush])
    show "single_flight (clear_flush_timer (q\<lparr>wq_queue := wq_queue q @ [u]\<rparr>))"
      using sf by (simp add: single_flight_parts)
  qed (simp add: clear_flush_timer_def)
  then show ?thesis
    using drop unfolding update queue_update_def Let_def
    by (auto simp: not_stranded_def [of "_\<lparr>wq_live_timers := _\<rparr>"])
next
  case flush_timer
  have "single_flight (q\<lparr>wq_live_timers := wq_live_timers q - 1, wq_flush_timer := False\<rparr>)"
    using sf by (simp add: single_flight_def)
  then show ?thesis unfolding flush_timer flush_timer_fire_def by (subst not_stranded_flush) simp_all
next
  case retry_timer
  have "single_flight (q\<lparr>wq_retry_timer := None\<rparr>)" using sf by (simp add: single_flight_def)
  then show ?thesis
    using ns unfolding retry_timer retry_timer_fire_def
    by (subst not_stranded_flush) (simp_all add: not_stranded_def)
next
  case chained
  let ?q = "q\<lparr>wq_chained := wq_chained q - 1\<rparr>"
  have "single_flight ?q" using sf by (simp add: single_flight_def)
  then show ?thesis
    using ns unfolding chained chained_flush_def Let_def
    by (auto simp: not_stranded_flush) (auto simp: not_stranded_def)
next
  case (store_done i outcome)
  then obtain batch where "wq_running q = [(batch, True)]" "i = 0" "wq_flushing q"
    using sf by (auto simp: single_flight_def split: if_splits)
  moreover have "outcome \<noteq> Written_Untold" using told unfolding store_done by (cases outcome) simp_all
  ultimately show ?thesis
    using ns unfolding store_done
    by (auto simp: flush_complete_def Let_def flush_settled_def flush_rejected_def flush_written_def flush_failed_def
        not_stranded_def)
next
  case flush_now
  then show ?thesis using assms(4) by simp
next
  case drain
  then show ?thesis using ns by (auto simp: drain_for_shutdown_def not_stranded_def clear_flush_timer_def Let_def)
qed

interpretation flights: guarded_invariant wq_step "\<lambda>q. True" guarded_event single_flight
  by unfold_locales (auto intro: single_flight_step)

interpretation told_flights: guarded_invariant wq_step "\<lambda>q. True"
    "\<lambda>e. guarded_event e \<and> told_event e" "\<lambda>q. single_flight q \<and> not_stranded q"
  by unfold_locales (auto intro: single_flight_step not_stranded_step)

lemma new_queue_flights:
  "single_flight (new_write_queue b d)" "not_stranded (new_write_queue b d)"
  by (simp_all add: single_flight_def not_stranded_def new_write_queue_def)

lemma flights_run:
  "steps wq_step (new_write_queue b d) es q \<Longrightarrow> (\<And>e. e \<in> set es \<Longrightarrow> guarded_event e) \<Longrightarrow> single_flight q"
  using flights.run_extra [OF _ TrueI new_queue_flights(1)] by blast

text \<open>
  C9: Updates reach the store in order, one batch at a time. In every run without a direct
  \<open>flushNow\<close>, which only the shutdown calls, at most one batch is with the store, and what is
  written, then what is with the store, then what is queued, is a subsequence of the updates in
  the order they were submitted: a failed batch goes back to the front and never overtakes or is
  overtaken.
\<close>

theorem updates_in_order:
  assumes "steps wq_step (new_write_queue flushBatch maxDepth) es q" "\<forall>e\<in>set es. guarded_event e"
  shows "length (wq_running q) \<le> 1 \<and>
    subseq (wq_written q @ concat (map fst (wq_running q)) @ wq_queue q) (submitted es)"
proof
  show "length (wq_running q) \<le> 1"
    using flights_run [OF assms(1)] assms(2) by (auto simp: single_flight_def split: if_splits)
  have "steps wq_step q0 es q \<Longrightarrow> single_flight q0 \<Longrightarrow> \<forall>e\<in>set es. guarded_event e \<Longrightarrow>
      subseq (line q) (line q0 @ submitted es)" for q0
  proof (induction rule: steps.induct)
    case (more q1 es q2 e q3)
    have "single_flight q2"
      using flights.run_extra [OF more.hyps(1) TrueI more.prems(1)] more.prems(2) by simp
    then have "subseq (line q3) (line q2 @ submitted [e])"
      using line_step [OF more.hyps(2)] more.prems(2) by simp
    moreover have "subseq (line q2) (line q1 @ submitted es)"
      using more.IH more.prems by simp
    then have "subseq (line q2 @ submitted [e]) ((line q1 @ submitted es) @ submitted [e])"
      by (rule list_emb_append_mono) simp
    ultimately have "subseq (line q3) ((line q1 @ submitted es) @ submitted [e])"
      by (rule subseq_order.trans)
    then show ?case by (simp only: submitted_append append_assoc)
  qed simp
  from this [OF assms(1) new_queue_flights(1) assms(2)]
  show "subseq (wq_written q @ concat (map fst (wq_running q)) @ wq_queue q) (submitted es)"
    by (simp add: line_def new_write_queue_def)
qed

text \<open>A run in which the first write fails while a third update is queued behind it.\<close>

definition demo_events :: "nat queue_event list" where
  "demo_events = (((([] @ [QueueUpdate 1]) @ [QueueUpdate 2]) @ [QueueUpdate 3]) @ [StoreDone 0 Store_Failed])"

definition demo_queue :: "nat write_queue" where
  "demo_queue = flush_complete 0 Store_Failed (queue_update 3 (queue_update 2 (queue_update 1 (new_write_queue 25 100))))"

lemma demo_queue_run: "steps wq_step (new_write_queue 25 100) demo_events demo_queue"
  unfolding demo_events_def demo_queue_def
  by (rule wq_run_more [OF wq_run_more [OF wq_run_more [OF wq_run_more [OF wq_run_none wq_step.update]
      wq_step.update] wq_step.update] wq_step.store_done])
    (simp add: wq_ops new_write_queue_def Let_def)

lemma demo_queue_state:
  "wq_queue demo_queue = [1, 2, 3]" "\<forall>e\<in>set demo_events. guarded_event e"
  "\<forall>e\<in>set demo_events. told_event e"
  by (simp_all add: demo_queue_def demo_events_def wq_ops new_write_queue_def Let_def flush_complete_def
      MAX_FLUSH_RETRIES_def)

theorem updates_in_order_witness:
  "wq_queue demo_queue = [1, 2, 3] \<and> length (wq_running demo_queue) \<le> 1"
  using updates_in_order [OF demo_queue_run demo_queue_state(2)] demo_queue_state(1) by simp

text \<open>
  C10: No update is stranded. In every run without a direct \<open>flushNow\<close> in which announcing a
  written batch to the dashboards does not throw, as long as an update is queued, a flush of it is
  on its way: a flush timer, a retry timer or a chained callback is due, or a flush is running that
  will start another one when it completes. When the announcement throws, the callbacks chained to
  the flush are skipped and the updates behind it do wait (\<open>throwing_announcement_strands\<close>).
\<close>

theorem no_update_stranded:
  assumes "steps wq_step (new_write_queue flushBatch maxDepth) es q" "\<forall>e\<in>set es. guarded_event e"
    "\<forall>e\<in>set es. told_event e" "wq_queue q \<noteq> []"
  shows "0 < wq_live_timers q \<or> (wq_flushing q \<and> 0 < wq_waiting q) \<or> wq_retry_timer q \<noteq> None \<or>
    0 < wq_chained q"
proof -
  have "not_stranded q"
    using told_flights.run_extra [OF assms(1) TrueI] new_queue_flights assms(2,3) by blast
  then show ?thesis using assms(4) by (auto simp: not_stranded_def split: if_splits)
qed

theorem no_update_stranded_witness:
  "0 < wq_live_timers demo_queue \<or> (wq_flushing demo_queue \<and> 0 < wq_waiting demo_queue) \<or>
   wq_retry_timer demo_queue \<noteq> None \<or> 0 < wq_chained demo_queue"
  using no_update_stranded [OF demo_queue_run demo_queue_state(2,3)] demo_queue_state(1) by simp

text \<open>
  Two updates are queued behind a batch that is written, but whose announcement throws: nothing
  is due any more that would flush them.
\<close>

lemma throwing_announcement_strands:
  defines "q \<equiv> flush_complete 0 Written_Untold
    (queue_update 4 (queue_update 3 (queue_update 2 (queue_update (1::nat) (new_write_queue 25 100)))))"
  shows "wq_queue q = [3, 4] \<and> wq_live_timers q = 0 \<and> \<not> wq_flushing q \<and> wq_retry_timer q = None \<and>
    wq_chained q = 0"
  by (simp add: q_def wq_ops new_write_queue_def Let_def flush_complete_def)

subsection \<open>What the retries give up\<close>

text \<open>
  The tenth failure in a row discards the whole queue, the updates submitted while the last
  attempt was running included, and neither \<open>onDrop\<close> nor \<open>droppedCount\<close> learns of it.
\<close>

lemma exhausted_retries_discard_all:
  assumes "wq_retry_count q + 1 = MAX_FLUSH_RETRIES"
  shows "wq_lost (flush_failed batch q) = wq_lost q @ batch @ wq_queue q"
    "wq_dropped (flush_failed batch q) = wq_dropped q"
    "wq_dropped_count (flush_failed batch q) = wq_dropped_count q"
  using assms by (simp_all add: flush_failed_def)

text \<open>With the flush timer armed and no flush running, the second update is flushed at once.\<close>

lemma second_update_flushes:
  assumes "wq_flush_timer q" "\<not> wq_flushing q"
  shows "wq_queue (queue_update u q) = []"
  using assms by (simp add: wq_ops Let_def)

end
