(* ===== verification/Json.thy ===== *)
theory Json
  imports Js_Text
begin

text \<open>
  Parsed JSON values and JavaScript's operations on them. \<open>undefined\<close> is \<open>None\<close>; a result
  \<open>None\<close> of an operation whose type ends in \<open>option\<close> and whose comment says so is a thrown
  \<open>TypeError\<close>. An object is the list of its entries in insertion order; an entry assigned the
  value \<open>undefined\<close> is the same as an absent one, as \<open>JSON.stringify\<close> sees it. \<open>JInf\<close> is an infinite
  number, the value \<open>JSON.parse\<close> gives a literal like \<open>1e999\<close> (\<open>JInf True\<close> the positive one).
\<close>

datatype json =
    JNull
  | JBool bool
  | JNum rat
  | JInf bool
  | JStr string
  | JArr "json list"
  | JObj "(string \<times> json) list"

subsection \<open>Reading\<close>

text \<open>\<open>v.k\<close> for a value that is not null: arrays and primitives have no data property \<open>k\<close>.\<close>

fun jget :: "json \<Rightarrow> string \<Rightarrow> json option" where
  "jget (JObj d) k = obj_get d k"
| "jget _ k = None"

text \<open>\<open>v?.k\<close>\<close>

definition jopt :: "json option \<Rightarrow> string \<Rightarrow> json option" where
  "jopt v k = (case v of None \<Rightarrow> None | Some j \<Rightarrow> jget j k)"

text \<open>\<open>v == null\<close>\<close>

definition is_nullish :: "json option \<Rightarrow> bool" where
  "is_nullish v = (v = None \<or> v = Some JNull)"

text \<open>\<open>typeof v === "object" && v !== null\<close>\<close>

fun is_object :: "json \<Rightarrow> bool" where
  "is_object (JObj d) = True"
| "is_object (JArr vs) = True"
| "is_object _ = False"

fun truthy :: "json \<Rightarrow> bool" where
  "truthy JNull = False"
| "truthy (JBool b) = b"
| "truthy (JNum r) = (r \<noteq> 0)"
| "truthy (JStr s) = (s \<noteq> [])"
| "truthy _ = True"

fun jarr :: "json option \<Rightarrow> json list option" where
  "jarr (Some (JArr vs)) = Some vs"
| "jarr _ = None"

fun jstr :: "json option \<Rightarrow> string option" where
  "jstr (Some (JStr s)) = Some s"
| "jstr _ = None"

fun jnum :: "json option \<Rightarrow> rat option" where
  "jnum (Some (JNum r)) = Some r"
| "jnum _ = None"

lemma jarr_Some: "jarr v = Some vs \<longleftrightarrow> v = Some (JArr vs)"
  by (cases v rule: jarr.cases) auto

lemma jstr_Some: "jstr v = Some s \<longleftrightarrow> v = Some (JStr s)"
  by (cases v rule: jstr.cases) auto

lemma jnum_Some: "jnum v = Some r \<longleftrightarrow> v = Some (JNum r)"
  by (cases v rule: jnum.cases) auto

lemma jopt_simps [simp]:
  "jopt None k = None" "jopt (Some j) k = jget j k"
  by (simp_all add: jopt_def)

subsection \<open>Writing\<close>

text \<open>\<open>v.k = x\<close> and \<open>delete v.k\<close> on an object; on an array they leave its JSON text unchanged.\<close>

fun jset :: "json \<Rightarrow> string \<Rightarrow> json \<Rightarrow> json" where
  "jset (JObj d) k x = JObj (obj_set d k x)"
| "jset v k x = v"

fun jdel :: "json \<Rightarrow> string \<Rightarrow> json" where
  "jdel (JObj d) k = JObj (obj_del d k)"
| "jdel v k = v"

text \<open>The decimal numeral of an index, and the entries a spread \<open>{...v}\<close> copies.\<close>

fun digits_of :: "nat \<Rightarrow> string" where
  "digits_of n = (if n < 10 then [char_of (48 + n)] else digits_of (n div 10) @ [char_of (48 + n mod 10)])"

declare digits_of.simps [simp del]

fun indexed :: "nat \<Rightarrow> 'a list \<Rightarrow> (string \<times> 'a) list" where
  "indexed i [] = []"
| "indexed i (x # xs) = (digits_of i, x) # indexed (Suc i) xs"

fun spread :: "json \<Rightarrow> (string \<times> json) list" where
  "spread (JObj d) = d"
| "spread (JArr vs) = indexed 0 vs"
| "spread (JStr s) = map (\<lambda>(i, c). (i, JStr [c])) (indexed 0 s)"
| "spread _ = []"

definition spread_set :: "json \<Rightarrow> string \<Rightarrow> json \<Rightarrow> json" where
  "spread_set v k x = JObj (obj_set (spread v) k x)"

text \<open>The model a request body names.\<close>

definition extract_model_name :: "json \<Rightarrow> string option" where
  "extract_model_name body = jstr (jget body ''model'')"

subsection \<open>Laws\<close>

lemma jget_jset_other [simp, obj_simps]: "k' \<noteq> k \<Longrightarrow> jget (jset v k x) k' = jget v k'"
  by (cases v) simp_all

lemma jget_jset_same [simp, obj_simps]:
  "jget (jset v k x) k = (case v of JObj _ \<Rightarrow> Some x | _ \<Rightarrow> None)"
  by (cases v) simp_all

lemma jget_jdel [simp, obj_simps]: "jget (jdel v k) k' = (if k' = k then None else jget v k')"
  by (cases v) auto

lemma jget_spread_set_obj [simp, obj_simps]:
  "jget (spread_set (JObj d) k x) k' = (if k' = k then Some x else obj_get d k')"
  by (simp add: spread_set_def)

lemma jget_spread_set_same [simp, obj_simps]: "jget (spread_set v k x) k = Some x"
  by (simp add: spread_set_def)

lemma is_object_jset [simp]: "is_object (jset v k x) = is_object v"
  by (cases v) simp_all

lemma is_object_jdel [simp]: "is_object (jdel v k) = is_object v"
  by (cases v) simp_all

lemma jset_same: "jget v k = Some x \<Longrightarrow> jset v k x = v"
  by (cases v) (simp_all add: obj_set_same)

lemma jget_Some_obj: "jget v k = Some x \<Longrightarrow> \<exists>d. v = JObj d"
  by (cases v) simp_all

lemma digits_of_ne: "digits_of n \<noteq> []"
  by (subst digits_of.simps) simp

lemma digits_of_digit: "c \<in> set (digits_of n) \<Longrightarrow> \<exists>d<(10::nat). c = char_of (48 + d)"
proof (induction n rule: digits_of.induct)
  case (1 n)
  show ?case
  proof (cases "n < 10")
    case True
    then show ?thesis using 1(2) by (auto simp: digits_of.simps [of n])
  next
    case False
    then have "c \<in> set (digits_of (n div 10)) \<or> c = char_of (48 + n mod 10)"
      using 1(2) by (auto simp: digits_of.simps [of n])
    then show ?thesis
      using 1(1) [OF False] by (metis mod_less_divisor zero_less_numeral)
  qed
qed

lemma indexed_keys: "k \<in> fst ` set (indexed i xs) \<Longrightarrow> \<exists>n. k = digits_of n"
  by (induction i xs rule: indexed.induct) auto

text \<open>A property whose name does not start with a digit is not an index.\<close>

definition named :: "string \<Rightarrow> bool" where
  "named k = (case k of [] \<Rightarrow> False | c # _ \<Rightarrow> digit 10 c = None)"

lemma named_not_index: "named k \<Longrightarrow> k \<noteq> digits_of n"
proof
  assume n: "named k" and k: "k = digits_of n"
  obtain c cs where c: "digits_of n = c # cs" using digits_of_ne [of n] by (cases "digits_of n") auto
  then have "c \<in> set (digits_of n)" by simp
  from digits_of_digit [OF this] obtain d :: nat where d: "d < 10" "c = char_of (48 + d)" by blast
  then have "of_char c = 48 + d" by simp
  then have "digit 10 c = Some d" using d(1) by (simp add: digit_def)
  then show False using n k c by (simp add: named_def)
qed

lemma spread_named:
  assumes "named k" "\<not> (\<exists>d. v = JObj d)"
  shows "k \<notin> fst ` set (spread v)"
proof -
  have chars: "k \<notin> fst ` set (indexed 0 s)" for s :: string
    using indexed_keys [of k 0 s] named_not_index [OF assms(1)] by blast
  have vals: "k \<notin> fst ` set (indexed 0 vs)" for vs :: "json list"
    using indexed_keys [of k 0 vs] named_not_index [OF assms(1)] by blast
  show ?thesis
  proof (cases v)
    case (JStr s)
    then show ?thesis using chars [of s] by (auto simp: image_iff)
  next
    case (JArr vs)
    then show ?thesis using vals [of vs] by simp
  qed (use assms(2) in auto)
qed

lemma jget_spread_set_prim:
  assumes "named k'" "\<not> (\<exists>d. v = JObj d)" "k' \<noteq> k"
  shows "jget (spread_set v k x) k' = None"
  using spread_named [OF assms(1,2)] assms(3) by (simp add: spread_set_def map_of_eq_None_iff)

end
