(* ===== verification/Cache_Stamps.thy ===== *)
theory Cache_Stamps
  imports Json
begin

text \<open>
  The steps that place prompt-cache breakpoints on Anthropic bodies:
  \<open>src/restamp-breakpoints.ts\<close>, \<open>src/stamp.ts\<close> and the reminder filter
  \<open>src/experiments/strip-omo-reminder.ts\<close>. A step maps a body to the new body and whether it
  changed; the result \<open>None\<close> is a thrown \<open>TypeError\<close>. The locale \<open>settling_step\<close> is the
  contract that the comments of these files state: applying a step twice is applying it once,
  and a step that reports no change has changed nothing.
\<close>

subsection \<open>The contract of a body transformation\<close>

locale settling_step =
  fixes apply_step :: "'b \<Rightarrow> ('b \<times> bool) option"
  assumes settled: "apply_step b = Some (b', c) \<Longrightarrow> apply_step b' = Some (b', False)"
    and unchanged: "apply_step b = Some (b', False) \<Longrightarrow> b' = b"
begin

primrec again :: "nat \<Rightarrow> 'b \<Rightarrow> 'b option" where
  "again 0 b = Some b"
| "again (Suc n) b = (case apply_step b of None \<Rightarrow> None | Some (b', _) \<Rightarrow> again n b')"

lemma again_stays: "apply_step b = Some (b, False) \<Longrightarrow> again n b = Some b"
  by (induction n) simp_all

lemma again_once:
  assumes "apply_step b = Some (b', c)"
  shows "again (Suc n) b = Some b'"
  using again_stays [OF settled [OF assms]] assms by simp

end

subsection \<open>Breakpoints\<close>

definition BREAKPOINT :: json where
  "BREAKPOINT = JObj [(''type'', JStr ''ephemeral'')]"

definition is_text_block :: "json \<Rightarrow> bool option" where
  "is_text_block block =
     (if block = JNull then None
      else Some (jget block ''type'' = Some (JStr ''text'') \<or> jget block ''type'' = None))"

definition has_breakpoint :: "json \<Rightarrow> bool" where
  "has_breakpoint block = (jopt (jget block ''cache_control'') ''type'' = Some (JStr ''ephemeral''))"

definition strip_breakpoint :: "json \<Rightarrow> json" where
  "strip_breakpoint block = (if \<not> has_breakpoint block then block else jdel block ''cache_control'')"

definition with_breakpoint :: "json \<Rightarrow> json" where
  "with_breakpoint block =
     (if has_breakpoint block then block else spread_set block ''cache_control'' BREAKPOINT)"

subsection \<open>Layout B\<close>

fun map_index :: "(nat \<Rightarrow> 'a \<Rightarrow> 'b) \<Rightarrow> nat \<Rightarrow> 'a list \<Rightarrow> 'b list" where
  "map_index f i [] = []"
| "map_index f i (x # xs) = f i x # map_index f (Suc i) xs"

definition is_target :: "json \<Rightarrow> bool" where
  "is_target m =
     (jget m ''role'' = Some (JStr ''user'') \<and>
      (case jarr (jget m ''content'') of None \<Rightarrow> False | Some content \<Rightarrow> content \<noteq> []))"

text \<open>The index of the last target among the first \<open>n\<close> messages, \<open>-1\<close> being \<open>None\<close>.\<close>

fun last_user_index :: "json list \<Rightarrow> nat \<Rightarrow> nat option" where
  "last_user_index messages 0 = None"
| "last_user_index messages (Suc i) =
     (if is_target (messages ! i) then Some i else last_user_index messages i)"

definition restamp_block :: "bool \<Rightarrow> json \<Rightarrow> json" where
  "restamp_block shouldHaveBp b =
     (if shouldHaveBp \<and> \<not> has_breakpoint b then with_breakpoint b
      else if \<not> shouldHaveBp \<and> has_breakpoint b then strip_breakpoint b else b)"

definition wants_breakpoint :: "bool \<Rightarrow> nat \<Rightarrow> nat \<Rightarrow> bool" where
  "wants_breakpoint isLastUser len bi = (isLastUser \<and> Suc bi = len)"

definition restamp_content :: "bool \<Rightarrow> json list \<Rightarrow> json list" where
  "restamp_content isLastUser content =
     map_index (\<lambda>bi. restamp_block (wants_breakpoint isLastUser (length content) bi)) 0 content"

definition content_changed :: "bool \<Rightarrow> json list \<Rightarrow> bool" where
  "content_changed isLastUser content =
     list_ex id (map_index
       (\<lambda>bi b. wants_breakpoint isLastUser (length content) bi \<noteq> has_breakpoint b) 0 content)"

definition restamp_message :: "bool \<Rightarrow> json \<Rightarrow> json \<times> bool" where
  "restamp_message isLastUser m =
     (case jarr (jget m ''content'') of
        None \<Rightarrow> (m, False)
      | Some content \<Rightarrow>
          (if content_changed isLastUser content
           then (spread_set m ''content'' (JArr (restamp_content isLastUser content)), True)
           else (m, False)))"

definition restamp_system :: "json list \<Rightarrow> (json list \<times> bool) option" where
  "restamp_system blocks =
     (case blocks of
        [] \<Rightarrow> Some ([], False)
      | b # bs \<Rightarrow>
          (case is_text_block b of
             None \<Rightarrow> None
           | Some text \<Rightarrow>
               Some ((if text then with_breakpoint b else b) # map strip_breakpoint bs,
                     (text \<and> \<not> has_breakpoint b) \<or> list_ex has_breakpoint bs)))"

definition restamp_breakpoints :: "json \<Rightarrow> (json \<times> bool) option" where
  "restamp_breakpoints body =
     (case jarr (jget body ''messages'') of
        None \<Rightarrow> Some (body, False)
      | Some messages \<Rightarrow>
          (if messages = [] then Some (body, False)
           else (let lastUserIdx = last_user_index messages (length messages);
                     stamped = map_index (\<lambda>mi. restamp_message (lastUserIdx = Some mi)) 0 messages;
                     changed = list_ex snd stamped
                 in case (case jarr (jget body ''system'') of
                            None \<Rightarrow> Some (jget body ''system'', False)
                          | Some blocks \<Rightarrow>
                              (case restamp_system blocks of
                                 None \<Rightarrow> None
                               | Some (rebuilt, c) \<Rightarrow>
                                   Some (if c then Some (JArr rebuilt) else jget body ''system'', c))) of
                      None \<Rightarrow> None
                    | Some (newSystem, sysChanged) \<Rightarrow>
                        (if \<not> changed \<and> \<not> sysChanged then Some (body, False)
                         else Some (jset (case newSystem of None \<Rightarrow> body
                                          | Some s \<Rightarrow> jset body ''system'' s)
                                      ''messages'' (JArr (map fst stamped)), True)))))"

subsection \<open>Cache lifetime\<close>

definition needs_ttl :: "json \<Rightarrow> bool" where
  "needs_ttl b =
     (case jget b ''cache_control'' of
        None \<Rightarrow> False
      | Some cc \<Rightarrow> jget cc ''type'' = Some (JStr ''ephemeral'') \<and>
                   (case jget cc ''ttl'' of None \<Rightarrow> True | Some t \<Rightarrow> \<not> truthy t))"

definition stamp_block :: "string \<Rightarrow> json \<Rightarrow> json" where
  "stamp_block ttl b =
     (if needs_ttl b
      then (case jget b ''cache_control'' of
              None \<Rightarrow> b | Some cc \<Rightarrow> jset b ''cache_control'' (jset cc ''ttl'' (JStr ttl)))
      else b)"

definition stamp_blocks :: "string \<Rightarrow> json option \<Rightarrow> json option \<times> nat" where
  "stamp_blocks ttl blocks =
     (case blocks of
        Some (JArr bs) \<Rightarrow> (Some (JArr (map (stamp_block ttl) bs)), length (filter needs_ttl bs))
      | _ \<Rightarrow> (blocks, 0))"

definition put_back :: "json \<Rightarrow> string \<Rightarrow> json option \<Rightarrow> json" where
  "put_back v k x = (case x of None \<Rightarrow> v | Some j \<Rightarrow> jset v k j)"

fun stamp_messages :: "string \<Rightarrow> json list \<Rightarrow> (json list \<times> nat) option" where
  "stamp_messages ttl [] = Some ([], 0)"
| "stamp_messages ttl (m # ms) =
     (if m = JNull then None
      else (let (content, n) = stamp_blocks ttl (jget m ''content'')
            in case stamp_messages ttl ms of
                 None \<Rightarrow> None
               | Some (ms', n') \<Rightarrow> Some (put_back m ''content'' content # ms', n + n')))"

definition stamp_cache_ttl :: "json \<Rightarrow> string \<Rightarrow> (json \<times> nat) option" where
  "stamp_cache_ttl body ttl =
     (let (system, n) = stamp_blocks ttl (jget body ''system'');
          body1 = put_back body ''system'' system
      in case jget body1 ''messages'' of
           None \<Rightarrow> Some (body1, n)
         | Some JNull \<Rightarrow> Some (body1, n)
         | Some (JStr s) \<Rightarrow> Some (body1, n)
         | Some (JArr ms) \<Rightarrow>
             (case stamp_messages ttl ms of
                None \<Rightarrow> None
              | Some (ms', n') \<Rightarrow> Some (jset body1 ''messages'' (JArr ms'), n + n'))
         | Some _ \<Rightarrow> None)"

subsection \<open>The reminder filter\<close>

definition OMO_REMINDER_MARKER :: string where
  "OMO_REMINDER_MARKER = CHR 0x0A # ''[Category+Skill Reminder]''"

definition is_omo_reminder_block :: "json \<Rightarrow> bool" where
  "is_omo_reminder_block block =
     (case jstr (jget block ''text'') of None \<Rightarrow> False | Some t \<Rightarrow> starts_with t OMO_REMINDER_MARKER)"

definition strip_omo_reminder :: "json \<Rightarrow> json \<times> bool" where
  "strip_omo_reminder body =
     (case jarr (jget body ''messages'') of
        None \<Rightarrow> (body, False)
      | Some messages \<Rightarrow>
          (case messages of
             [] \<Rightarrow> (body, False)
           | first # rest \<Rightarrow>
               (case jarr (jget first ''content'') of
                  None \<Rightarrow> (body, False)
                | Some content \<Rightarrow>
                    (let nextContent = filter (\<lambda>b. \<not> is_omo_reminder_block b) content;
                         removed = (nextContent \<noteq> content)
                     in if \<not> removed then (body, False)
                        else (jset body ''messages''
                                (JArr (spread_set first ''content'' (JArr nextContent) # rest)), True)))))"

lemmas cache_defs = has_breakpoint_def strip_breakpoint_def with_breakpoint_def restamp_block_def

subsection \<open>Blocks\<close>

lemma named_keys [simp]:
  "named ''type''" "named ''cache_control''" "named ''role''" "named ''content''" "named ''text''"
  by (simp_all add: named_def digit_def)

lemma jget_spread_set:
  "named k' \<Longrightarrow> jget (spread_set v k x) k' = (if k' = k then Some x else jget v k')"
  by (cases "\<exists>d. v = JObj d") (auto simp: jget_spread_set_prim, cases v, auto)

lemma has_with [simp]: "has_breakpoint (with_breakpoint b)"
  by (simp add: cache_defs BREAKPOINT_def)

lemma has_strip [simp]: "\<not> has_breakpoint (strip_breakpoint b)"
  by (simp add: cache_defs)

lemma strip_id: "\<not> has_breakpoint b \<Longrightarrow> strip_breakpoint b = b"
  by (simp add: cache_defs)

lemma has_restamp [simp]: "has_breakpoint (restamp_block w b) = w"
  unfolding restamp_block_def by (cases "has_breakpoint b"; cases w) simp_all

lemma restamp_block_same: "has_breakpoint b = w \<Longrightarrow> restamp_block w b = b"
  by (auto simp: restamp_block_def)

text \<open>Apart from the breakpoint a restamped block is the same block.\<close>

lemma restamp_block_frame:
  "named k \<Longrightarrow> k \<noteq> ''cache_control'' \<Longrightarrow> jget (restamp_block w b) k = jget b k"
  by (simp add: restamp_block_def with_breakpoint_def strip_breakpoint_def jget_spread_set)

lemma length_map_index [simp]: "length (map_index f i xs) = length xs"
  by (induction f i xs rule: map_index.induct) simp_all

lemma nth_map_index [simp]: "j < length xs \<Longrightarrow> map_index f i xs ! j = f (i + j) (xs ! j)"
  by (induction f i xs arbitrary: j rule: map_index.induct) (auto simp: nth_Cons split: nat.splits)

lemma map_index_eqI:
  "length ys = length xs \<Longrightarrow> (\<And>j. j < length xs \<Longrightarrow> f (i + j) (xs ! j) = ys ! j) \<Longrightarrow> map_index f i xs = ys"
  by (rule nth_equalityI) simp_all

lemma list_ex_nth: "list_ex P xs \<longleftrightarrow> (\<exists>j<length xs. P (xs ! j))"
  unfolding list_ex_iff by (metis in_set_conv_nth)

subsection \<open>Messages\<close>

lemma restamp_content_nth:
  "length (restamp_content u c) = length c"
  "j < length c \<Longrightarrow> restamp_content u c ! j = restamp_block (wants_breakpoint u (length c) j) (c ! j)"
  by (simp_all add: restamp_content_def)

lemma content_changed_iff:
  "content_changed u c \<longleftrightarrow> (\<exists>j<length c. wants_breakpoint u (length c) j \<noteq> has_breakpoint (c ! j))"
  by (auto simp: content_changed_def list_ex_nth)

lemma restamp_content_same: "\<not> content_changed u c \<Longrightarrow> restamp_content u c = c"
  by (rule nth_equalityI) (auto simp: restamp_content_nth content_changed_iff restamp_block_same)

lemma restamped_unchanged: "\<not> content_changed u (restamp_content u c)"
  by (auto simp: content_changed_iff restamp_content_nth)

lemma restamp_message_content:
  "jarr (jget (fst (restamp_message u m)) ''content'') =
     map_option (restamp_content u) (jarr (jget m ''content''))"
  by (auto simp: restamp_message_def jarr_Some restamp_content_same split: option.splits)

lemma restamp_message_frame:
  "named k \<Longrightarrow> k \<noteq> ''content'' \<Longrightarrow> jget (fst (restamp_message u m)) k = jget m k"
  by (auto simp: restamp_message_def jget_spread_set split: option.splits)

lemma restamp_message_again:
  "restamp_message u (fst (restamp_message u m)) = (fst (restamp_message u m), False)"
proof (cases "jarr (jget m ''content'')")
  case None
  then show ?thesis by (simp add: restamp_message_def)
next
  case (Some c)
  then have "jarr (jget (fst (restamp_message u m)) ''content'') = Some (restamp_content u c)"
    by (simp add: restamp_message_content)
  then show ?thesis
    by (simp add: restamp_message_def [of u "fst (restamp_message u m)"] restamped_unchanged)
qed

lemma restamp_message_unchanged: "restamp_message u m = (m', False) \<Longrightarrow> m' = m"
  by (auto simp: restamp_message_def split: option.splits if_splits)

lemma is_target_restamp [simp]: "is_target (fst (restamp_message u m)) = is_target m"
  by (simp add: is_target_def restamp_message_content restamp_message_frame split: option.split)
    (metis length_0_conv restamp_content_nth(1))

lemma last_user_index_cong:
  "(\<And>i. i < n \<Longrightarrow> is_target (ms ! i) = is_target (ms' ! i)) \<Longrightarrow> last_user_index ms n = last_user_index ms' n"
  by (induction n) auto

lemma last_user_index_Some:
  "last_user_index ms n = Some i \<Longrightarrow> i < n \<and> is_target (ms ! i) \<and> (\<forall>j. i < j \<and> j < n \<longrightarrow> \<not> is_target (ms ! j))"
  by (induction n) (auto split: if_splits simp: less_Suc_eq)

subsection \<open>System blocks\<close>

lemma is_text_with: "is_text_block b = Some t \<Longrightarrow> is_text_block (with_breakpoint b) = Some t"
proof -
  assume t: "is_text_block b = Some t"
  have "with_breakpoint b \<noteq> JNull" if "b \<noteq> JNull"
    using that by (simp add: with_breakpoint_def spread_set_def)
  moreover have "jget (with_breakpoint b) ''type'' = jget b ''type''"
    by (simp add: with_breakpoint_def jget_spread_set)
  ultimately show ?thesis using t by (auto simp: is_text_block_def split: if_splits)
qed

lemma restamp_system_again:
  assumes "restamp_system bs = Some (bs', c)"
  shows "restamp_system bs' = Some (bs', False)" "\<not> c \<Longrightarrow> bs' = bs" "length bs' = length bs"
    "\<forall>j<length bs'. 0 < j \<longrightarrow> \<not> has_breakpoint (bs' ! j)"
    "bs \<noteq> [] \<Longrightarrow> is_text_block (hd bs) = Some True \<Longrightarrow> has_breakpoint (hd bs')"
    "bs \<noteq> [] \<Longrightarrow> is_text_block (hd bs) \<noteq> Some True \<Longrightarrow> hd bs' = hd bs"
proof -
  have m: "map strip_breakpoint (map strip_breakpoint xs) = map strip_breakpoint xs"
    "\<not> list_ex has_breakpoint (map strip_breakpoint xs)" for xs
    by (auto simp: list_ex_iff strip_id)
  have u: "\<not> list_ex has_breakpoint xs \<Longrightarrow> map strip_breakpoint xs = xs" for xs
    by (induction xs) (simp_all add: strip_id)
  have w: "with_breakpoint (with_breakpoint b) = with_breakpoint b" for b
    by (simp add: with_breakpoint_def [of "with_breakpoint b"])
  have v: "has_breakpoint b \<Longrightarrow> with_breakpoint b = b" for b by (simp add: with_breakpoint_def)
  show "restamp_system bs' = Some (bs', False)" "\<not> c \<Longrightarrow> bs' = bs" "length bs' = length bs"
    "\<forall>j<length bs'. 0 < j \<longrightarrow> \<not> has_breakpoint (bs' ! j)"
    "bs \<noteq> [] \<Longrightarrow> is_text_block (hd bs) = Some True \<Longrightarrow> has_breakpoint (hd bs')"
    "bs \<noteq> [] \<Longrightarrow> is_text_block (hd bs) \<noteq> Some True \<Longrightarrow> hd bs' = hd bs"
    using assms unfolding restamp_system_def
    by (auto simp: m u w v is_text_with nth_Cons list_ex_nth simp del: map_map list.map_comp split: list.splits option.splits nat.splits if_splits)
qed

subsection \<open>The whole body\<close>

definition restamped :: "json list \<Rightarrow> json list" where
  "restamped ms = map fst (map_index (\<lambda>mi. restamp_message (last_user_index ms (length ms) = Some mi)) 0 ms)"

lemma restamped_nth:
  "length (restamped ms) = length ms"
  "i < length ms \<Longrightarrow> restamped ms ! i = fst (restamp_message (last_user_index ms (length ms) = Some i) (ms ! i))"
  by (simp_all add: restamped_def)

lemma restamped_unchanged_ms:
  assumes "\<not> list_ex snd (map_index (\<lambda>mi. restamp_message (u mi)) 0 ms)"
  shows "map fst (map_index (\<lambda>mi. restamp_message (u mi)) 0 ms) = ms"
proof (rule nth_equalityI)
  fix i
  assume "i < length (map fst (map_index (\<lambda>mi. restamp_message (u mi)) 0 ms))"
  then have i: "i < length ms" by simp
  then have "restamp_message (u i) (ms ! i) = (fst (restamp_message (u i) (ms ! i)), False)"
    using assms by (auto simp: list_ex_nth prod_eq_iff)
  then show "map fst (map_index (\<lambda>mi. restamp_message (u mi)) 0 ms) ! i = ms ! i"
    using restamp_message_unchanged i by fastforce
qed simp

lemma restamped_target: "last_user_index (restamped ms) n = last_user_index ms n" if "n \<le> length ms"
  using that by (intro last_user_index_cong) (simp add: restamped_nth)

lemma restamped_again:
  "map_index (\<lambda>mi. restamp_message (last_user_index (restamped ms) (length (restamped ms)) = Some mi)) 0 (restamped ms)
   = map (\<lambda>m. (m, False)) (restamped ms)"
  by (rule nth_equalityI) (simp_all add: restamped_nth restamped_target restamp_message_again)

lemma restamp_body_cases:
  assumes "restamp_breakpoints body = Some (body', c)"
  obtains (skip) "body' = body" "\<not> c" "case jarr (jget body ''messages'') of None \<Rightarrow> True | Some ms \<Rightarrow> ms = []"
    | (rebuilt) ms where "jarr (jget body ''messages'') = Some ms" "ms \<noteq> []"
        "jget body' ''messages'' = Some (JArr (restamped ms))"
        "\<And>k. k \<noteq> ''messages'' \<Longrightarrow> k \<noteq> ''system'' \<Longrightarrow> jget body' k = jget body k"
        "case jarr (jget body ''system'') of None \<Rightarrow> jget body' ''system'' = jget body ''system''
         | Some bs \<Rightarrow> \<exists>bs' sc. restamp_system bs = Some (bs', sc) \<and> jget body' ''system'' = Some (JArr bs')"
        "\<not> c \<Longrightarrow> body' = body"
proof (cases "jarr (jget body ''messages'')")
  case None
  then show thesis using assms by (intro skip) (simp_all add: restamp_breakpoints_def)
next
  case (Some ms)
  show thesis
  proof (cases "ms = []")
    case True
    then show thesis using assms Some by (intro skip) (simp_all add: restamp_breakpoints_def)
  next
    case False
    define stamped where "stamped =
      map_index (\<lambda>mi. restamp_message (last_user_index ms (length ms) = Some mi)) 0 ms"
    have st: "map fst stamped = restamped ms" by (simp add: stamped_def restamped_def)
    have keep: "\<not> list_ex snd stamped \<Longrightarrow> restamped ms = ms"
      using restamped_unchanged_ms [of "\<lambda>mi. last_user_index ms (length ms) = Some mi" ms]
      by (simp add: stamped_def restamped_def)
    obtain d where d: "body = JObj d" using Some by (auto simp: jarr_Some dest: jget_Some_obj)
    have m: "obj_get d ''messages'' = Some (JArr ms)" using Some d by (simp add: jarr_Some)
    show thesis
    proof (cases "jarr (jget body ''system'')")
      case None
      then show thesis
        using assms Some False keep
        by (intro rebuilt [OF Some False])
          (auto simp: restamp_breakpoints_def Let_def stamped_def [symmetric] st jarr_Some d m
            split: option.splits if_splits)
    next
      case sys: (Some bs)
      then obtain bs' sc where r: "restamp_system bs = Some (bs', sc)"
        using assms Some False by (auto simp: restamp_breakpoints_def Let_def split: option.splits)
      have same: "\<not> sc \<Longrightarrow> bs' = bs" using restamp_system_again(2) [OF r] .
      have y: "obj_get d ''system'' = Some (JArr bs)" using sys d by (simp add: jarr_Some)
      show thesis
        using assms keep same
        by (intro rebuilt [OF Some False])
          (auto simp: restamp_breakpoints_def Let_def stamped_def [symmetric] st sys r Some False d m y
            split: if_splits)
    qed
  qed
qed

interpretation restamp: settling_step restamp_breakpoints
proof
  fix body body' c
  assume r: "restamp_breakpoints body = Some (body', c)"
  then show "restamp_breakpoints body' = Some (body', False)"
  proof (cases rule: restamp_body_cases)
    case skip
    then show ?thesis using r by simp
  next
    case (rebuilt ms)
    have ne: "restamped ms \<noteq> []" using rebuilt(2) by (metis length_0_conv restamped_nth(1))
    have st: "\<not> list_ex snd (map (\<lambda>m. (m, False)) (restamped ms))" by (auto simp: list_ex_iff)
    have "(case jarr (jget body' ''system'') of None \<Rightarrow> Some (jget body' ''system'', False)
        | Some bs \<Rightarrow> (case restamp_system bs of None \<Rightarrow> None
            | Some (bs2, c) \<Rightarrow> Some (if c then Some (JArr bs2) else jget body' ''system'', c)))
        = Some (jget body' ''system'', False)"
      using rebuilt(5) by (auto simp: restamp_system_again split: option.splits)
    then show ?thesis
      using ne st by (simp add: restamp_breakpoints_def rebuilt(3) Let_def restamped_again)
  qed
next
  fix body body'
  assume "restamp_breakpoints body = Some (body', False)"
  then show "body' = body" by (cases rule: restamp_body_cases) simp_all
qed

text \<open>Where a body carries breakpoints: message \<open>i\<close>, block \<open>j\<close>, and system block \<open>j\<close>.\<close>

definition message_block :: "json \<Rightarrow> nat \<Rightarrow> nat \<Rightarrow> json option" where
  "message_block body i j =
     (case jarr (jget body ''messages'') of
        Some ms \<Rightarrow> (if i < length ms
                   then (case jarr (jget (ms ! i) ''content'') of
                           Some c \<Rightarrow> if j < length c then Some (c ! j) else None | None \<Rightarrow> None)
                   else None)
      | None \<Rightarrow> None)"

definition system_block :: "json \<Rightarrow> nat \<Rightarrow> json option" where
  "system_block body j =
     (case jarr (jget body ''system'') of
        Some bs \<Rightarrow> if j < length bs then Some (bs ! j) else None | None \<Rightarrow> None)"

definition marked :: "json option \<Rightarrow> bool" where
  "marked b = (case b of None \<Rightarrow> False | Some b \<Rightarrow> has_breakpoint b)"

text \<open>The rolling tip: the last block of the last user message with content blocks.\<close>

definition is_tip :: "json \<Rightarrow> nat \<Rightarrow> nat \<Rightarrow> bool" where
  "is_tip body i j =
     (case jarr (jget body ''messages'') of
        None \<Rightarrow> False
      | Some ms \<Rightarrow> last_user_index ms (length ms) = Some i \<and>
          message_block body i j \<noteq> None \<and> message_block body i (Suc j) = None)"

lemma message_block_restamp:
  assumes "jarr (jget body ''messages'') = Some ms" "jget body' ''messages'' = Some (JArr (restamped ms))"
  shows "message_block body' i j = map_option (restamp_block (is_tip body i j)) (message_block body i j)"
proof (cases "message_block body i j")
  case None
  then show ?thesis
    using assms
    by (auto simp: message_block_def restamped_nth restamp_message_content restamp_content_nth
        split: option.splits if_splits)
next
  case (Some b)
  then obtain c where i: "i < length ms" and c: "jarr (jget (ms ! i) ''content'') = Some c"
    and j: "j < length c" and b: "b = c ! j"
    using assms(1) by (auto simp: message_block_def split: option.splits if_splits)
  have "message_block body i (Suc j) = None \<longleftrightarrow> Suc j = length c"
    using assms(1) i c j by (auto simp: message_block_def)
  then have tip: "is_tip body i j \<longleftrightarrow>
      wants_breakpoint (last_user_index ms (length ms) = Some i) (length c) j"
    using assms(1) Some by (simp add: is_tip_def wants_breakpoint_def)
  have "message_block body' i j = Some (restamp_block
      (wants_breakpoint (last_user_index ms (length ms) = Some i) (length c) j) (c ! j))"
    using assms(2) i c j
    by (simp add: message_block_def restamped_nth restamp_message_content restamp_content_nth)
  then show ?thesis unfolding Some tip b by simp
qed

text \<open>
  C11: Restamping yields Layout B. In the restamped body a message block carries a breakpoint
  exactly when it is the last block of the last user message with content blocks; no system block
  after the first carries one; and the first system block carries one if it is itself a text block
  (a text block behind another first block gets none).
  Bodies without a non-empty message list are returned as they are.
\<close>

theorem restamp_layout_b:
  assumes "restamp_breakpoints body = Some (body', c)"
  shows "if jarr (jget body ''messages'') \<in> {None, Some []} then body' = body
    else (\<forall>i j. marked (message_block body' i j) \<longleftrightarrow> is_tip body i j) \<and>
      (\<forall>j>0. \<not> marked (system_block body' j)) \<and>
      (\<forall>b. system_block body 0 = Some b \<longrightarrow> is_text_block b = Some True \<longrightarrow> marked (system_block body' 0))"
  using assms
proof (cases rule: restamp_body_cases)
  case skip
  then show ?thesis by (auto split: option.splits)
next
  case (rebuilt ms)
  have "marked (message_block body' i j) \<longleftrightarrow> is_tip body i j" for i j
    using message_block_restamp [OF rebuilt(1,3), of i j] rebuilt(1)
    by (cases "message_block body i j") (auto simp: marked_def is_tip_def)
  moreover have "\<forall>j>0. \<not> marked (system_block body' j)"
    using rebuilt(5) restamp_system_again(4)
    by (auto simp: marked_def system_block_def split: option.splits)
  moreover have "\<forall>b. system_block body 0 = Some b \<longrightarrow> is_text_block b = Some True \<longrightarrow> marked (system_block body' 0)"
  proof (intro allI impI)
    fix b
    assume b: "system_block body 0 = Some b" "is_text_block b = Some True"
    then obtain bs where bs: "jarr (jget body ''system'') = Some bs" "bs \<noteq> []" "hd bs = b"
      by (auto simp: system_block_def hd_conv_nth split: option.splits if_splits)
    then obtain bs' sc where r: "restamp_system bs = Some (bs', sc)" "jget body' ''system'' = Some (JArr bs')"
      using rebuilt(5) by auto
    have "bs' \<noteq> []" using restamp_system_again(3) [OF r(1)] bs(2) by auto
    then show "marked (system_block body' 0)"
      using restamp_system_again(5) [OF r(1) bs(2)] b(2) bs(3) r(2)
      by (simp add: marked_def system_block_def hd_conv_nth)
  qed
  ultimately show ?thesis using rebuilt(1,2) by simp
qed

text \<open>A conversation whose breakpoints ride on the tip of the previous turn.\<close>

definition demo_body :: json where
  "demo_body =
     (let eph = (''cache_control'', JObj [(''type'', JStr ''ephemeral'')]);
          text = (\<lambda>t. [(''type'', JStr ''text''), (''text'', JStr t)]);
          msg = (\<lambda>r bs. JObj [(''role'', JStr r), (''content'', JArr bs)])
      in JObj [(''model'', JStr ''umans-glm-5''), (''system'', JArr [JObj (text ''s0''), JObj (text ''s1'' @ [eph])]),
               (''messages'', JArr [msg ''user'' [JObj (text ''hi'' @ [eph])],
                                    msg ''assistant'' [JObj (text ''yes'' @ [eph])],
                                    msg ''user'' [JObj (text ''a''), JObj (text ''b'')]])])"

definition demo_restamped :: json where
  "demo_restamped = fst (the (restamp_breakpoints demo_body))"

lemma demo_restamp: "restamp_breakpoints demo_body = Some (demo_restamped, True)"
  unfolding demo_restamped_def by code_simp

theorem restamp_layout_b_witness:
  "marked (message_block demo_restamped 2 1) \<and> \<not> marked (message_block demo_restamped 0 0) \<and>
   marked (system_block demo_restamped 0) \<and> \<not> marked (system_block demo_restamped 1)"
proof -
  have a: "\<not> jarr (jget demo_body ''messages'') \<in> {None, Some []}"
    "is_tip demo_body 2 1" "\<not> is_tip demo_body 0 0"
    by (simp_all add: demo_body_def Let_def is_tip_def message_block_def is_target_def numeral_2_eq_2)
  have b: "system_block demo_body 0 = Some (JObj [(''type'', JStr ''text''), (''text'', JStr ''s0'')])"
    "is_text_block (JObj [(''type'', JStr ''text''), (''text'', JStr ''s0'')]) = Some True"
    by code_simp+
  show ?thesis using restamp_layout_b [OF demo_restamp] a b by simp
qed

definition same_block :: "json option \<Rightarrow> json option \<Rightarrow> bool" where
  "same_block b b' =
     (case (b, b') of
        (None, None) \<Rightarrow> True
      | (Some b, Some b') \<Rightarrow> \<forall>k. named k \<longrightarrow> k \<noteq> ''cache_control'' \<longrightarrow> jget b' k = jget b k
      | _ \<Rightarrow> False)"

lemma same_block_refl: "same_block b b"
  by (simp add: same_block_def split: option.split)

text \<open>The restamped system list, block by block.\<close>

lemma restamp_system_same:
  assumes "restamp_system bs = Some (bs', c)" "j < length bs"
  shows "same_block (Some (bs ! j)) (Some (bs' ! j))"
proof -
  have w: "named k \<Longrightarrow> k \<noteq> ''cache_control'' \<Longrightarrow> jget (with_breakpoint b) k = jget b k" for b k
    by (simp add: with_breakpoint_def jget_spread_set)
  have t: "k \<noteq> ''cache_control'' \<Longrightarrow> jget (strip_breakpoint b) k = jget b k" for b k
    by (simp add: strip_breakpoint_def)
  show ?thesis
    using assms unfolding restamp_system_def same_block_def
    by (auto simp: w t nth_Cons split: list.splits option.splits nat.splits if_splits)
qed

text \<open>
  Restamping changes breakpoints and nothing else. The restamped body has the same entries
  outside \<open>system\<close> and \<open>messages\<close>, the same messages with the same named fields outside their
  content, and the same content and system blocks in the same places, each with the same named
  fields apart from \<open>cache_control\<close>; string contents and string systems stay as they are.
\<close>

theorem restamp_preserves:
  assumes "restamp_breakpoints body = Some (body', c)"
  shows "(\<forall>k. k \<noteq> ''messages'' \<longrightarrow> k \<noteq> ''system'' \<longrightarrow> jget body' k = jget body k) \<and>
    (\<forall>i j. same_block (message_block body i j) (message_block body' i j)) \<and>
    (\<forall>j. same_block (system_block body j) (system_block body' j)) \<and>
    (jarr (jget body ''system'') = None \<longrightarrow> jget body' ''system'' = jget body ''system'') \<and>
    (\<forall>ms. jarr (jget body ''messages'') = Some ms \<longrightarrow>
      (\<exists>ms'. jget body' ''messages'' = Some (JArr ms') \<and> length ms' = length ms \<and>
        (\<forall>i<length ms. \<forall>k. named k \<longrightarrow> k \<noteq> ''content'' \<longrightarrow> jget (ms' ! i) k = jget (ms ! i) k)))"
  using assms
proof (cases rule: restamp_body_cases)
  case skip
  then show ?thesis by (auto simp: same_block_refl jarr_Some)
next
  case (rebuilt ms)
  have "same_block (message_block body i j) (message_block body' i j)" for i j
    unfolding message_block_restamp [OF rebuilt(1,3)]
    by (simp add: same_block_def restamp_block_frame split: option.split)
  moreover have "same_block (system_block body j) (system_block body' j)" for j
  proof (cases "jarr (jget body ''system'')")
    case None
    then have "system_block body' j = system_block body j" using rebuilt(5) by (simp add: system_block_def)
    then show ?thesis by (simp add: same_block_refl)
  next
    case (Some bs)
    then obtain bs' sc where r: "restamp_system bs = Some (bs', sc)" "jget body' ''system'' = Some (JArr bs')"
      using rebuilt(5) by auto
    show ?thesis
      using restamp_system_same [OF r(1)] restamp_system_again(3) [OF r(1)] Some r(2)
      by (auto simp: system_block_def same_block_refl)
  qed
  moreover have "jarr (jget body ''system'') = None \<longrightarrow> jget body' ''system'' = jget body ''system''"
    using rebuilt(5) by auto
  moreover have "\<exists>ms'. jget body' ''messages'' = Some (JArr ms') \<and> length ms' = length ms \<and>
      (\<forall>i<length ms. \<forall>k. named k \<longrightarrow> k \<noteq> ''content'' \<longrightarrow> jget (ms' ! i) k = jget (ms ! i) k)"
    using rebuilt(3) by (auto simp: restamped_nth restamp_message_frame)
  ultimately show ?thesis using rebuilt(1,4) by simp
qed

theorem restamp_preserves_witness:
  "jget demo_restamped ''model'' = Some (JStr ''umans-glm-5'')"
proof -
  have "jget demo_body ''model'' = Some (JStr ''umans-glm-5'')" by (simp add: demo_body_def Let_def)
  then show ?thesis using restamp_preserves [OF demo_restamp] by simp
qed

text \<open>
  Restamping is idempotent. Applied to its own result it changes nothing and says so, and
  applied any positive number of times it gives what it gives once; when it reports no change
  the body is the given one.
\<close>

theorem restamp_idempotent:
  assumes "restamp_breakpoints body = Some (body', c)"
  shows "restamp_breakpoints body' = Some (body', False) \<and> restamp.again (Suc n) body = Some body' \<and>
    (\<not> c \<longrightarrow> body' = body)"
  using restamp.settled [OF assms] restamp.again_once [OF assms] restamp.unchanged [of body body'] assms
  by auto

theorem restamp_idempotent_witness:
  "restamp_breakpoints demo_restamped = Some (demo_restamped, False) \<and> demo_restamped \<noteq> demo_body"
proof -
  have "demo_restamped \<noteq> demo_body" by code_simp
  then show ?thesis using restamp_idempotent [OF demo_restamp] by simp
qed

subsection \<open>Lifetimes\<close>

lemma stamp_block_has [simp]: "has_breakpoint (stamp_block ttl b) = has_breakpoint b"
proof (cases "needs_ttl b")
  case True
  then obtain cc where cc: "jget b ''cache_control'' = Some cc" "jget cc ''type'' = Some (JStr ''ephemeral'')"
    by (auto simp: needs_ttl_def split: option.splits)
  obtain d e where "b = JObj d" "cc = JObj e" using cc by (blast dest: jget_Some_obj)
  then show ?thesis using True cc by (simp add: stamp_block_def has_breakpoint_def)
qed (simp add: stamp_block_def)

lemma stamp_block_settles: "ttl \<noteq> [] \<Longrightarrow> \<not> needs_ttl (stamp_block ttl b)"
proof (cases "needs_ttl b")
  case True
  then obtain cc where cc: "jget b ''cache_control'' = Some cc" "jget cc ''type'' = Some (JStr ''ephemeral'')"
    by (auto simp: needs_ttl_def split: option.splits)
  obtain d e where "b = JObj d" "cc = JObj e" using cc by (blast dest: jget_Some_obj)
  then show "ttl \<noteq> [] \<Longrightarrow> ?thesis" using True cc by (simp add: stamp_block_def needs_ttl_def)
qed (simp add: stamp_block_def)

lemma stamp_block_id: "\<not> needs_ttl b \<Longrightarrow> stamp_block ttl b = b"
  by (simp add: stamp_block_def)

lemma stamp_block_frame: "k \<noteq> ''cache_control'' \<Longrightarrow> jget (stamp_block ttl b) k = jget b k"
  by (cases b) (auto simp: stamp_block_def split: option.splits)

lemma stamp_blocks_spec:
  assumes "stamp_blocks ttl blocks = (blocks', n)"
  shows "jarr blocks' = map_option (map (stamp_block ttl)) (jarr blocks)"
    "jarr blocks = None \<Longrightarrow> blocks' = blocks" "n = 0 \<Longrightarrow> blocks' = blocks"
    "ttl \<noteq> [] \<Longrightarrow> stamp_blocks ttl blocks' = (blocks', 0)" "blocks' = None \<longleftrightarrow> blocks = None"
  using assms
  by (auto simp: stamp_blocks_def stamp_block_settles stamp_block_id filter_empty_conv
      split: option.splits json.splits intro!: map_idI)

lemma put_back_self [simp]: "put_back v k (jget v k) = v"
  by (auto simp: put_back_def jset_same split: option.split)

lemma jget_put_back:
  "(x = None \<longleftrightarrow> jget v k = None) \<Longrightarrow> jget (put_back v k x) k' = (if k' = k then x else jget v k')"
  by (cases v) (auto simp: put_back_def split: option.split)

lemma stamp_messages_spec:
  assumes "stamp_messages ttl ms = Some (ms', n)"
  shows "length ms' = length ms \<and>
    (\<forall>i<length ms. jget (ms' ! i) ''content'' = fst (stamp_blocks ttl (jget (ms ! i) ''content''))) \<and>
    (n = 0 \<longrightarrow> ms' = ms) \<and> (ttl \<noteq> [] \<longrightarrow> stamp_messages ttl ms' = Some (ms', 0))"
  using assms
proof (induction ms arbitrary: ms' n)
  case (Cons m ms)
  obtain content k where c: "stamp_blocks ttl (jget m ''content'') = (content, k)" by force
  then obtain ms2 n2 where r: "m \<noteq> JNull" "stamp_messages ttl ms = Some (ms2, n2)"
    "ms' = put_back m ''content'' content # ms2" "n = k + n2"
    using Cons.prems by (auto split: if_splits option.splits)
  note b = stamp_blocks_spec [OF c]
  have get: "jget (put_back m ''content'' content) ''content'' = content"
    using jget_put_back [of content m "''content''"] b(5) by simp
  have nn: "put_back m ''content'' content \<noteq> JNull"
    using r(1) by (cases m) (auto simp: put_back_def split: option.split)
  have "put_back (put_back m ''content'' content) ''content'' content = put_back m ''content'' content"
    using put_back_self [of "put_back m ''content'' content" "''content''"] get by simp
  then show ?case
    using Cons.IH [OF r(2)] get nn b(3,4) c put_back_self [of m "''content''"]
    by (auto simp: r(3,4) nth_Cons split: nat.split)
qed simp

lemma stamp_cache_ttl_blocks:
  assumes "stamp_cache_ttl body ttl = Some (body', n)"
  shows "system_block body' j = map_option (stamp_block ttl) (system_block body j)"
    "message_block body' i j = map_option (stamp_block ttl) (message_block body i j)"
    "n = 0 \<Longrightarrow> body' = body" "ttl \<noteq> [] \<Longrightarrow> stamp_cache_ttl body' ttl = Some (body', 0)"
    "k \<noteq> ''system'' \<Longrightarrow> k \<noteq> ''messages'' \<Longrightarrow> jget body' k = jget body k"
proof -
  obtain system k0 where s: "stamp_blocks ttl (jget body ''system'') = (system, k0)" by force
  define body1 where "body1 = put_back body ''system'' system"
  note sp = stamp_blocks_spec [OF s]
  have get1: "jget body1 k' = (if k' = ''system'' then system else jget body k')" for k'
    unfolding body1_def using sp(5) by (intro jget_put_back) simp
  have self1: "put_back body1 ''system'' system = body1"
    using put_back_self [of body1 "''system''"] get1 by simp
  consider (none) "body' = body1" "n = k0" "jarr (jget body ''messages'') = None"
      "case jget body ''messages'' of None \<Rightarrow> True | Some JNull \<Rightarrow> True | Some (JStr s) \<Rightarrow> True | _ \<Rightarrow> False"
    | (arr) ms ms' n' where "jget body ''messages'' = Some (JArr ms)" "stamp_messages ttl ms = Some (ms', n')"
        "body' = jset body1 ''messages'' (JArr ms')" "n = k0 + n'"
    using assms by (auto simp: stamp_cache_ttl_def s body1_def [symmetric] get1 Let_def
        split: option.splits json.splits)
  then have "system_block body' j = map_option (stamp_block ttl) (system_block body j) \<and>
    message_block body' i j = map_option (stamp_block ttl) (message_block body i j) \<and>
    (n = 0 \<longrightarrow> body' = body) \<and> (ttl \<noteq> [] \<longrightarrow> stamp_cache_ttl body' ttl = Some (body', 0)) \<and>
    (\<forall>k'. k' \<noteq> ''system'' \<longrightarrow> k' \<noteq> ''messages'' \<longrightarrow> jget body' k' = jget body k')" for i j
  proof cases
    case none
    have "n = 0 \<Longrightarrow> body1 = body" using sp(3) none(2) by (simp add: body1_def)
    then show ?thesis
      using none sp(1,4) self1
      by (auto simp: system_block_def message_block_def get1 stamp_cache_ttl_def split: option.splits json.splits)
  next
    case (arr ms ms' n')
    obtain d where d: "body1 = JObj d" using arr(1) get1 [of "''messages''"] by (auto dest: jget_Some_obj)
    have get: "jget body' k' = (if k' = ''messages'' then Some (JArr ms') else if k' = ''system'' then system
        else jget body k')" for k'
      using get1 [of k'] by (simp add: arr(3) d)
    note sm = stamp_messages_spec [OF arr(2)]
    have self: "put_back body' ''system'' system = body'" "jset body' ''messages'' (JArr ms') = body'"
      using put_back_self [of body' "''system''"] get jset_same by simp_all
    have sys: "system_block body' j = map_option (stamp_block ttl) (system_block body j)"
      using sp(1) by (simp add: system_block_def get split: option.split)
    have msg: "message_block body' i j = map_option (stamp_block ttl) (message_block body i j)"
    proof (cases "i < length ms")
      case True
      obtain cs q where c: "stamp_blocks ttl (jget (ms ! i) ''content'') = (cs, q)" by force
      have "jget (ms' ! i) ''content'' = cs" using sm True c by simp
      then show ?thesis
        using sm True stamp_blocks_spec(1) [OF c] by (simp add: message_block_def get arr(1) split: option.split)
    qed (use sm in \<open>simp add: message_block_def get arr(1)\<close>)
    have zero: "n = 0 \<longrightarrow> body' = body"
      using sm sp(3) arr jset_same by (auto simp: body1_def)
    have again: "ttl \<noteq> [] \<longrightarrow> stamp_cache_ttl body' ttl = Some (body', 0)"
      using sp(4) sm self by (auto simp: stamp_cache_ttl_def get)
    show ?thesis using sys msg zero again by (simp add: get)
  qed
  then show "system_block body' j = map_option (stamp_block ttl) (system_block body j)"
    "message_block body' i j = map_option (stamp_block ttl) (message_block body i j)"
    "n = 0 \<Longrightarrow> body' = body" "ttl \<noteq> [] \<Longrightarrow> stamp_cache_ttl body' ttl = Some (body', 0)"
    "k \<noteq> ''system'' \<Longrightarrow> k \<noteq> ''messages'' \<Longrightarrow> jget body' k = jget body k"
    by blast+
qed

lemma stamp_cache_ttl_settles:
  assumes "ttl \<noteq> []"
  shows "settling_step (\<lambda>body. map_option (\<lambda>(b, n). (b, 0 < n)) (stamp_cache_ttl body ttl))"
  using assms stamp_cache_ttl_blocks(3,4) by unfold_locales fastforce+

definition STAMP_CACHE_TTL_VALUE :: string where
  "STAMP_CACHE_TTL_VALUE = ''1h''"

interpretation cache_ttl: settling_step
    "\<lambda>body. map_option (\<lambda>(b, n). (b, 0 < n)) (stamp_cache_ttl body STAMP_CACHE_TTL_VALUE)"
  by (rule stamp_cache_ttl_settles) (simp add: STAMP_CACHE_TTL_VALUE_def)

text \<open>
  Every breakpoint gets a lifetime. After stamping, every block has the breakpoint it had, no
  breakpoint is without a lifetime, blocks that needed none are unchanged, all other entries of
  the body are unchanged, a count of zero means an unchanged body, and stamping again stamps
  nothing.
\<close>

theorem ttl_stamps_all:
  assumes "stamp_cache_ttl body ttl = Some (body', n)" "ttl \<noteq> []"
  shows "(\<forall>i j. case message_block body i j of
        None \<Rightarrow> message_block body' i j = None
      | Some b \<Rightarrow> \<exists>b'. message_block body' i j = Some b' \<and> has_breakpoint b' = has_breakpoint b \<and>
          \<not> needs_ttl b' \<and> (\<not> needs_ttl b \<longrightarrow> b' = b)) \<and>
    (\<forall>j. case system_block body j of
        None \<Rightarrow> system_block body' j = None
      | Some b \<Rightarrow> \<exists>b'. system_block body' j = Some b' \<and> has_breakpoint b' = has_breakpoint b \<and>
          \<not> needs_ttl b' \<and> (\<not> needs_ttl b \<longrightarrow> b' = b)) \<and>
    (\<forall>k. k \<noteq> ''system'' \<longrightarrow> k \<noteq> ''messages'' \<longrightarrow> jget body' k = jget body k) \<and>
    (n = 0 \<longrightarrow> body' = body) \<and> stamp_cache_ttl body' ttl = Some (body', 0)"
  using stamp_cache_ttl_blocks [OF assms(1)] stamp_block_settles [OF assms(2)] assms(2)
  by (simp add: stamp_block_id split: option.split)

theorem ttl_stamps_all_witness:
  "\<not> needs_ttl (the (message_block (fst (the (stamp_cache_ttl demo_restamped ''1h''))) 2 1)) \<and>
   needs_ttl (the (message_block demo_restamped 2 1))"
proof -
  have d: "stamp_cache_ttl demo_restamped ''1h'' \<noteq> None" "message_block demo_restamped 2 1 \<noteq> None"
    and x: "needs_ttl (the (message_block demo_restamped 2 1))"
    by code_simp+
  obtain r0 where r0: "stamp_cache_ttl demo_restamped ''1h'' = Some r0" using d(1) by blast
  obtain b n where "r0 = (b, n)" by (rule prod.exhaust)
  then have r: "stamp_cache_ttl demo_restamped ''1h'' = Some (b, n)" using r0 by simp
  obtain b0 where b0: "message_block demo_restamped 2 1 = Some b0" using d(2) by blast
  have t: "''1h'' \<noteq> []" by simp
  note all = ttl_stamps_all [OF r t, THEN conjunct1, THEN spec [where x = 2], THEN spec [where x = 1]]
  from all have "\<exists>b'. message_block b 2 1 = Some b' \<and> \<not> needs_ttl b'" unfolding b0 option.case by blast
  then show ?thesis using x unfolding r b0 by auto
qed

subsection \<open>The reminder\<close>

lemma strip_omo_cases:
  obtains (same) "strip_omo_reminder body = (body, False)"
    | (stripped) first rest content where "jget body ''messages'' = Some (JArr (first # rest))"
        "jget first ''content'' = Some (JArr content)"
        "strip_omo_reminder body = (jset body ''messages'' (JArr (spread_set first ''content''
           (JArr (filter (\<lambda>b. \<not> is_omo_reminder_block b) content)) # rest)), True)"
proof (cases "snd (strip_omo_reminder body)")
  case False
  then show thesis
    by (intro same) (auto simp: strip_omo_reminder_def Let_def split: option.splits list.splits if_splits)
next
  case True
  then obtain first rest content where "jget body ''messages'' = Some (JArr (first # rest))"
    "jget first ''content'' = Some (JArr content)"
    "filter (\<lambda>b. \<not> is_omo_reminder_block b) content \<noteq> content"
    by (auto simp: strip_omo_reminder_def Let_def jarr_Some split: option.splits list.splits if_splits)
  then show thesis by (intro stripped) (auto simp: strip_omo_reminder_def Let_def)
qed

interpretation strip_omo: settling_step "\<lambda>body. Some (strip_omo_reminder body)"
proof
  fix body body' c
  assume r: "Some (strip_omo_reminder body) = Some (body', c)"
  show "Some (strip_omo_reminder body') = Some (body', False)"
  proof (cases rule: strip_omo_cases [of body])
    case same
    then show ?thesis using r by simp
  next
    case (stripped first rest content)
    obtain d where "body = JObj d" using stripped(1) by (auto dest: jget_Some_obj)
    then have "jget body' ''messages'' = Some (JArr (spread_set first ''content''
           (JArr (filter (\<lambda>b. \<not> is_omo_reminder_block b) content)) # rest))"
      using r stripped(3) by auto
    then show ?thesis by (simp add: strip_omo_reminder_def Let_def)
  qed
next
  fix body body'
  assume "Some (strip_omo_reminder body) = Some (body', False)"
  then show "body' = body" by (cases rule: strip_omo_cases [of body]) auto
qed

end
