(* ===== verification/Body_Stamps.thy ===== *)
theory Body_Stamps
  imports Cache_Stamps
begin

text \<open>
  The remaining stamps and the pipeline that runs all of them: \<open>src/stamp-catalog.ts\<close>,
  \<open>src/stamp-thinking.ts\<close>, \<open>src/stamp-reasoning.ts\<close>, \<open>src/stamp-topk.ts\<close>,
  \<open>src/stamp-temperature.ts\<close>, \<open>src/models/name.ts\<close> and \<open>src/stamp-pipeline.ts\<close>.
  Every step is \<open>apply body ctx\<close> with the changed body and the flag it returns; \<open>None\<close> is a
  thrown \<open>TypeError\<close>, on which the proxy forwards the original request.
\<close>

subsection \<open>Policies\<close>

record stamp_policy =
  sp_max_tokens :: rat
  sp_effort :: string
  sp_thinking :: bool
  sp_top_k :: "rat option"
  sp_can_disable :: bool
  sp_shape :: "json obj"

record per_model_rule =
  pr_pattern :: string
  pr_anthropic_shape :: "json obj option"
  pr_openai_shape :: "json obj option"
  pr_extra_body :: "json obj option"
  pr_veto :: bool
  pr_force_when_absent :: bool

definition adaptive :: "json obj" where
  "adaptive = [(''type'', JStr ''adaptive'')]"

definition policy :: "rat \<Rightarrow> string \<Rightarrow> rat option \<Rightarrow> bool \<Rightarrow> json obj \<Rightarrow> stamp_policy" where
  "policy maxTokens effort topK canDisable shape =
     \<lparr>sp_max_tokens = maxTokens, sp_effort = effort, sp_thinking = True, sp_top_k = topK,
      sp_can_disable = canDisable, sp_shape = shape\<rparr>"

definition STAMP_OVERLAY :: "(string \<times> stamp_policy) list" where
  "STAMP_OVERLAY =
     [(''umans-glm*'', policy 131071 ''max'' (Some 20) True adaptive),
      (''umans-coder'', policy 32767 ''high'' None False adaptive),
      (''umans-flash'', policy 32767 ''high'' None True adaptive),
      (''umans-deepseek-v4-flash-0731'', policy 32767 ''high'' None True [(''type'', JStr ''enabled'')]),
      (''umans-kimi-k3'', policy 131071 ''max'' None True adaptive),
      (''umans-kimi*'', policy 32767 ''high'' None False adaptive),
      (''umans-qwen*'', policy 32767 ''high'' None True adaptive),
      (''*'', policy 32767 ''high'' None True adaptive)]"

definition glob_match :: "string \<Rightarrow> string \<Rightarrow> bool" where
  "glob_match pattern name =
     (if pattern = ''*'' then True
      else if ends_with pattern ''*'' then starts_with name (take (length pattern - 1) pattern)
      else name = pattern)"

definition default_policy :: stamp_policy where
  "default_policy = (case obj_get STAMP_OVERLAY ''*'' of None \<Rightarrow> policy 0 [] None True [] | Some p \<Rightarrow> p)"

definition match_stamp_overlay :: "string \<Rightarrow> stamp_policy" where
  "match_stamp_overlay modelName =
     (case find (\<lambda>(pattern, _). glob_match pattern modelName) STAMP_OVERLAY of
        Some (_, p) \<Rightarrow> p | None \<Rightarrow> default_policy)"

definition resolve_stamp_policy :: "string option \<Rightarrow> stamp_policy obj \<Rightarrow> stamp_policy" where
  "resolve_stamp_policy modelName catalog =
     (case modelName of
        Some m \<Rightarrow> (case obj_get catalog m of Some stamps \<Rightarrow> stamps | None \<Rightarrow> match_stamp_overlay m)
      | None \<Rightarrow> default_policy)"

definition resolve_per_model_rule :: "string option \<Rightarrow> per_model_rule list \<Rightarrow> per_model_rule option" where
  "resolve_per_model_rule modelName rules =
     (case modelName of None \<Rightarrow> None | Some m \<Rightarrow> find (\<lambda>r. glob_match (pr_pattern r) m) rules)"

subsection \<open>Single stamps\<close>

definition stamp_temperature :: "json \<Rightarrow> rat \<Rightarrow> json \<times> bool" where
  "stamp_temperature body temperature =
     (case body of
        JObj _ \<Rightarrow> (if jget body ''temperature'' = Some (JNum temperature) then (body, False)
                  else (jset body ''temperature'' (JNum temperature), True))
      | _ \<Rightarrow> (body, False))"

definition stamp_top_k :: "json \<Rightarrow> rat \<Rightarrow> stamp_policy option \<Rightarrow> json \<times> bool" where
  "stamp_top_k body topK pol =
     (case body of
        JObj b \<Rightarrow>
          (case extract_model_name body of
             None \<Rightarrow> (body, False)
           | Some model \<Rightarrow>
               (let resolved = (case pol of Some p \<Rightarrow> p | None \<Rightarrow> match_stamp_overlay model)
                in if sp_top_k resolved = None then (body, False)
                   else if jget body ''top_k'' \<noteq> None then (body, False)
                   else (JObj ([(''model'', JStr model), (''top_k'', JNum topK)] @
                               filter (\<lambda>(k, _). k \<noteq> ''model'' \<and> k \<noteq> ''top_k'') b), True)))
      | _ \<Rightarrow> (body, False))"

definition DISABLED_THINKING_TYPES :: "string list" where
  "DISABLED_THINKING_TYPES = [''disabled'', ''off'', ''none'']"

definition is_thinking_disabled :: "json option \<Rightarrow> bool" where
  "is_thinking_disabled thinking =
     (case thinking of
        None \<Rightarrow> False
      | Some t \<Rightarrow>
          is_object t \<and>
          ((case jstr (jget t ''type'') of None \<Rightarrow> False
            | Some ty \<Rightarrow> to_lower ty \<in> set DISABLED_THINKING_TYPES) \<or>
           jget t ''enabled'' = Some (JBool False)))"

definition is_thinking_enabled :: "json option \<Rightarrow> bool" where
  "is_thinking_enabled thinking = (\<not> is_nullish thinking \<and> \<not> is_thinking_disabled thinking)"

text \<open>\<open>a === b\<close> for values of different origin: objects and arrays are never the same.\<close>

fun strict_eq :: "json \<Rightarrow> json \<Rightarrow> bool" where
  "strict_eq (JArr _) _ = False"
| "strict_eq (JObj _) _ = False"
| "strict_eq a b = (a = b)"

definition same_field :: "json \<Rightarrow> json obj \<Rightarrow> string \<Rightarrow> bool" where
  "same_field a b k =
     (case (jget a k, obj_get b k) of (Some x, Some y) \<Rightarrow> strict_eq x y | (None, None) \<Rightarrow> True | _ \<Rightarrow> False)"

definition thinking_equals :: "json \<Rightarrow> json obj \<Rightarrow> bool" where
  "thinking_equals a b =
     (let has = (\<lambda>k. jget a k \<noteq> None); hasb = (\<lambda>k. obj_get b k \<noteq> None)
      in if \<not> same_field a b ''type'' then False
         else if jget a ''type'' = Some (JStr ''enabled'') then
           (if has ''keep'' \<and> hasb ''keep'' then same_field a b ''keep''
            else if has ''clear_thinking'' \<and> hasb ''clear_thinking'' then same_field a b ''clear_thinking''
            else \<not> has ''keep'' \<and> \<not> hasb ''keep'' \<and> \<not> has ''clear_thinking'' \<and> \<not> hasb ''clear_thinking'')
         else True)"

datatype output_option = NoOutput | DefaultOutput | Output json

record stamp_options =
  so_max_tokens :: bool
  so_output_config :: output_option
  so_thinking :: bool
  so_policy :: "stamp_policy option"

definition effort_config :: "stamp_policy \<Rightarrow> json" where
  "effort_config p = JObj [(''effort'', JStr (sp_effort p))]"

definition body_policy :: "json \<Rightarrow> stamp_policy option \<Rightarrow> stamp_policy" where
  "body_policy body pol =
     (case pol of Some p \<Rightarrow> p
      | None \<Rightarrow> match_stamp_overlay (case extract_model_name body of None \<Rightarrow> [] | Some m \<Rightarrow> m))"

definition stamp_max_tokens :: "stamp_policy \<Rightarrow> bool \<Rightarrow> json \<Rightarrow> json \<times> bool" where
  "stamp_max_tokens p maxTokens body =
     (if maxTokens \<and> is_thinking_enabled (jget body ''thinking'')
      then (jset body ''max_tokens'' (JNum (sp_max_tokens p)), True) else (body, False))"

definition force_thinking :: "stamp_policy \<Rightarrow> bool \<Rightarrow> json \<Rightarrow> json \<times> bool" where
  "force_thinking p thinking body =
     (case jget body ''thinking'' of
        None \<Rightarrow> (body, False)
      | Some current \<Rightarrow>
          (if thinking \<and> current \<noteq> JNull \<and>
              (\<not> is_thinking_disabled (Some current) \<or> \<not> sp_can_disable p) \<and>
              \<not> thinking_equals current (sp_shape p)
           then (jset body ''thinking'' (JObj (sp_shape p)), True) else (body, False)))"

definition stamp_output_config :: "stamp_policy \<Rightarrow> output_option \<Rightarrow> json \<Rightarrow> json \<times> bool" where
  "stamp_output_config p outputConfig body =
     (if outputConfig \<noteq> NoOutput \<and> is_thinking_enabled (jget body ''thinking'') \<and> sp_thinking p
      then (jset body ''output_config''
              (case outputConfig of Output c \<Rightarrow> c | _ \<Rightarrow> effort_config p), True)
      else (body, False))"

definition stamp_thinking :: "json \<Rightarrow> stamp_options \<Rightarrow> json \<times> bool" where
  "stamp_thinking body options =
     (let p = body_policy body (so_policy options);
          (b1, c1) = stamp_max_tokens p (so_max_tokens options) body;
          (b2, c2) = force_thinking p (so_thinking options) b1;
          (b3, c3) = stamp_output_config p (so_output_config options) b2
      in (b3, c1 \<or> c2 \<or> c3))"

definition DISABLED_EFFORT_VALUES :: "string list" where
  "DISABLED_EFFORT_VALUES = [''off'', ''none'', ''null'']"

definition is_reasoning_effort_disabled :: "json option \<Rightarrow> bool" where
  "is_reasoning_effort_disabled value =
     (is_nullish value \<or>
      (case jstr value of None \<Rightarrow> False | Some s \<Rightarrow> to_lower s \<in> set DISABLED_EFFORT_VALUES))"

definition reasoning_fields :: "json \<Rightarrow> json \<times> bool" where
  "reasoning_fields body =
     (let b1 = jdel body ''output_config''; c1 = (jget body ''output_config'' \<noteq> None);
          b2 = jdel b1 ''context_management''; c2 = (jget b1 ''context_management'' \<noteq> None)
      in if jget b2 ''temperature'' \<noteq> Some (JNum 1)
         then (jset b2 ''temperature'' (JNum 1), True) else (b2, c1 \<or> c2))"

definition stamp_reasoning ::
    "json \<Rightarrow> string option \<Rightarrow> stamp_policy option \<Rightarrow> bool \<Rightarrow> json \<times> bool" where
  "stamp_reasoning body reasoningEffort pol veto =
     (let p = body_policy body pol;
          hasReasoning = (jget body ''reasoning_effort'' \<noteq> None);
          hasThinking = (jget body ''thinking'' \<noteq> None);
          inject = jset body ''reasoning_effort'' (JStr (sp_effort p))
      in if reasoningEffort = None then (body, False)
         else if \<not> hasReasoning \<and> \<not> hasThinking then (body, False)
         else if veto then
           (if \<not> hasThinking \<or> is_thinking_disabled (jget body ''thinking'') then (body, False)
            else reasoning_fields body)
         else if \<not> hasReasoning then
           (if is_thinking_disabled (jget body ''thinking'') \<or> \<not> sp_thinking p then (body, False)
            else (fst (reasoning_fields inject), True))
         else if is_reasoning_effort_disabled (jget body ''reasoning_effort'') \<and> sp_can_disable p
           then (body, False)
         else (fst (reasoning_fields inject), True))"

subsection \<open>The steps\<close>

record stamp_context =
  ctx_stamp_claude_code :: bool
  ctx_reasoning_effort :: "string option"
  ctx_model_rules :: "per_model_rule list"
  ctx_strip_omo :: bool
  ctx_is_openai :: bool
  ctx_model_name :: "string option"
  ctx_catalog :: "stamp_policy obj"

record stamp_step =
  ss_label :: string
  ss_applies :: "stamp_context \<Rightarrow> bool"
  ss_apply :: "json \<Rightarrow> stamp_context \<Rightarrow> (json \<times> bool) option"

definition ctx_policy :: "stamp_context \<Rightarrow> stamp_policy" where
  "ctx_policy ctx = resolve_stamp_policy (ctx_model_name ctx) (ctx_catalog ctx)"

definition ctx_rule :: "stamp_context \<Rightarrow> per_model_rule option" where
  "ctx_rule ctx = resolve_per_model_rule (ctx_model_name ctx) (ctx_model_rules ctx)"

definition claude_code :: "stamp_context \<Rightarrow> bool" where
  "claude_code ctx = (ctx_stamp_claude_code ctx \<and> \<not> ctx_is_openai ctx)"

definition openai_reasoning :: "stamp_context \<Rightarrow> bool" where
  "openai_reasoning ctx = (ctx_is_openai ctx \<and> ctx_reasoning_effort ctx \<noteq> None)"

definition STAMP_TOP_K_VALUE :: rat where
  "STAMP_TOP_K_VALUE = 20"

definition STAMP_TEMPERATURE_VALUE :: rat where
  "STAMP_TEMPERATURE_VALUE = 1"

definition STAMP_CONTEXT_MANAGEMENT_VALUE :: json where
  "STAMP_CONTEXT_MANAGEMENT_VALUE =
     JObj [(''edits'', JArr [JObj [(''type'', JStr ''clear_thinking_20251015''), (''keep'', JStr ''all'')]])]"

definition RestampBreakpointsStep :: stamp_step where
  "RestampBreakpointsStep =
     \<lparr>ss_label = ''restamp-breakpoints'', ss_applies = claude_code,
      ss_apply = (\<lambda>body ctx. if \<not> is_object body then Some (body, False) else restamp_breakpoints body)\<rparr>"

definition CacheTtlStep :: stamp_step where
  "CacheTtlStep =
     \<lparr>ss_label = ''ttl'', ss_applies = claude_code,
      ss_apply = (\<lambda>body ctx. if \<not> is_object body then Some (body, False)
                  else map_option (\<lambda>(b, n). (b, 0 < n)) (stamp_cache_ttl body STAMP_CACHE_TTL_VALUE))\<rparr>"

definition apply_anthropic_body :: "json \<Rightarrow> stamp_context \<Rightarrow> json \<times> bool" where
  "apply_anthropic_body body ctx =
     (let p = ctx_policy ctx;
          (b1, c1) = stamp_thinking body
            \<lparr>so_max_tokens = True, so_output_config = Output (effort_config p), so_thinking = True,
             so_policy = Some p\<rparr>
      in if jget b1 ''reasoning_effort'' \<noteq> None then (jdel b1 ''reasoning_effort'', True) else (b1, c1))"

definition AnthropicBodyStep :: stamp_step where
  "AnthropicBodyStep =
     \<lparr>ss_label = ''anthropic-body'', ss_applies = claude_code,
      ss_apply = (\<lambda>body ctx. Some (if \<not> is_object body then (body, False)
                                   else apply_anthropic_body body ctx))\<rparr>"

definition rule_shape :: "per_model_rule \<Rightarrow> stamp_context \<Rightarrow> json \<Rightarrow> json \<times> bool" where
  "rule_shape rule ctx body =
     (case (if ctx_is_openai ctx then pr_openai_shape rule else pr_anthropic_shape rule) of
        None \<Rightarrow> (body, False)
      | Some shape \<Rightarrow>
          (let existing = jget body ''thinking'';
               forced = jset body ''thinking'' (JObj shape)
           in if ctx_is_openai ctx then
                (let effort = jget body ''reasoning_effort''
                 in if is_thinking_enabled existing \<or> \<not> is_reasoning_effort_disabled effort \<or>
                       (pr_force_when_absent rule \<and> is_nullish effort \<and> is_nullish existing)
                    then (forced, True) else (body, False))
              else
                (let p = ctx_policy ctx
                 in if is_thinking_enabled existing \<or> \<not> sp_can_disable p \<or>
                       (pr_force_when_absent rule \<and> is_nullish existing)
                    then (if is_thinking_enabled existing then forced
                          else jset (jset forced ''max_tokens'' (JNum (sp_max_tokens p)))
                                 ''output_config'' (effort_config p), True)
                    else (body, False))))"

fun assign_all :: "json \<Rightarrow> json obj \<Rightarrow> json" where
  "assign_all b [] = b"
| "assign_all b ((k, v) # kvs) = assign_all (jset b k v) kvs"

definition apply_rule :: "per_model_rule \<Rightarrow> stamp_context \<Rightarrow> json \<Rightarrow> json \<times> bool" where
  "apply_rule rule ctx body =
     (let (b1, c1) = rule_shape rule ctx body
      in case pr_extra_body rule of
           None \<Rightarrow> (b1, c1) | Some extra \<Rightarrow> (assign_all b1 extra, True))"

definition PerModelRuleStep :: stamp_step where
  "PerModelRuleStep =
     \<lparr>ss_label = ''per-model-rule'', ss_applies = (\<lambda>ctx. ctx_model_rules ctx \<noteq> [] \<and> ctx_rule ctx \<noteq> None),
      ss_apply = (\<lambda>body ctx. Some (if \<not> is_object body then (body, False)
                    else (case ctx_rule ctx of None \<Rightarrow> (body, False) | Some rule \<Rightarrow> apply_rule rule ctx body)))\<rparr>"

definition ContextManagementStep :: stamp_step where
  "ContextManagementStep =
     \<lparr>ss_label = ''context-management'', ss_applies = claude_code,
      ss_apply = (\<lambda>body ctx. Some (if \<not> is_object body \<or> \<not> is_thinking_enabled (jget body ''thinking'')
                    then (body, False)
                    else (jset body ''context_management'' STAMP_CONTEXT_MANAGEMENT_VALUE, True)))\<rparr>"

definition OpenAiReasoningStep :: stamp_step where
  "OpenAiReasoningStep =
     \<lparr>ss_label = ''openai-reasoning'', ss_applies = openai_reasoning,
      ss_apply = (\<lambda>body ctx. Some (if \<not> is_object body then (body, False)
                    else stamp_reasoning body (ctx_reasoning_effort ctx) (Some (ctx_policy ctx))
                           (case ctx_rule ctx of None \<Rightarrow> False | Some rule \<Rightarrow> pr_veto rule)))\<rparr>"

definition OpenAiStreamUsageStep :: stamp_step where
  "OpenAiStreamUsageStep =
     \<lparr>ss_label = ''openai-stream-usage'', ss_applies = openai_reasoning,
      ss_apply = (\<lambda>body ctx. Some
        (if \<not> is_object body \<or> jget body ''stream'' \<noteq> Some (JBool True) \<or>
            jopt (jget body ''stream_options'') ''include_usage'' = Some (JBool True)
         then (body, False)
         else (jset body ''stream_options'' (JObj [(''include_usage'', JBool True)]), True)))\<rparr>"

definition TopKStep :: stamp_step where
  "TopKStep =
     \<lparr>ss_label = ''top-k'',
      ss_applies = (\<lambda>ctx. (if ctx_is_openai ctx then ctx_reasoning_effort ctx \<noteq> None
                           else ctx_stamp_claude_code ctx) \<and> sp_top_k (ctx_policy ctx) \<noteq> None),
      ss_apply = (\<lambda>body ctx. Some
        (if \<not> is_object body then (body, False)
         else if (if ctx_is_openai ctx then jget body ''reasoning_effort'' = None
                  else \<not> is_thinking_enabled (jget body ''thinking'')) then (body, False)
         else stamp_top_k body STAMP_TOP_K_VALUE (Some (ctx_policy ctx))))\<rparr>"

definition TemperatureStep :: stamp_step where
  "TemperatureStep =
     \<lparr>ss_label = ''temperature'', ss_applies = claude_code,
      ss_apply = (\<lambda>body ctx. Some
        (if \<not> is_object body \<or> \<not> is_thinking_enabled (jget body ''thinking'') then (body, False)
         else stamp_temperature body STAMP_TEMPERATURE_VALUE))\<rparr>"

definition StripOmoReminderStep :: stamp_step where
  "StripOmoReminderStep =
     \<lparr>ss_label = ''strip-omo-reminder'', ss_applies = (\<lambda>ctx. ctx_strip_omo ctx \<and> \<not> ctx_is_openai ctx),
      ss_apply = (\<lambda>body ctx. Some (if \<not> is_object body then (body, False) else strip_omo_reminder body))\<rparr>"

definition STAMP_PIPELINE :: "stamp_step list" where
  "STAMP_PIPELINE =
     [RestampBreakpointsStep, CacheTtlStep, AnthropicBodyStep, PerModelRuleStep, ContextManagementStep,
      OpenAiReasoningStep, OpenAiStreamUsageStep, TopKStep, TemperatureStep, StripOmoReminderStep]"

fun run_steps :: "stamp_step list \<Rightarrow> stamp_context \<Rightarrow> json \<Rightarrow> (json \<times> bool) option" where
  "run_steps [] ctx body = Some (body, False)"
| "run_steps (s # ss) ctx body =
     (if \<not> ss_applies s ctx then run_steps ss ctx body
      else (case ss_apply s body ctx of
              None \<Rightarrow> None
            | Some (b, c) \<Rightarrow>
                (case run_steps ss ctx b of None \<Rightarrow> None | Some (b', c') \<Rightarrow> Some (b', c \<or> c'))))"

text \<open>The body the upstream gets: the original one after an exception or without a change.\<close>

definition stamped_request :: "stamp_context \<Rightarrow> json \<Rightarrow> json" where
  "stamped_request ctx body =
     (case run_steps STAMP_PIPELINE ctx body of
        None \<Rightarrow> body | Some (b, changed) \<Rightarrow> if changed then b else body)"

end
