(* ===== verification/Stamp_Props.thy ===== *)
theory Stamp_Props
  imports Body_Stamps
begin

text \<open>
  What the stamp pipeline does to a request as a whole: the fields it may touch, the requests it
  leaves alone, and the requests it completes. The locale \<open>framed_step\<close> is the contract every
  step of \<open>STAMP_PIPELINE\<close> satisfies.
\<close>

subsection \<open>The contract of a pipeline step\<close>

locale framed_step =
  fixes step :: stamp_step and writes :: "stamp_context \<Rightarrow> string set"
  assumes frame: "ss_apply step body ctx = Some (b', c) \<Longrightarrow> k \<notin> writes ctx \<Longrightarrow> jget b' k = jget body k"
    and honest: "ss_apply step body ctx = Some (b', False) \<Longrightarrow> b' = body"

definition extra_keys :: "stamp_context \<Rightarrow> string set" where
  "extra_keys ctx =
     (case ctx_rule ctx of None \<Rightarrow> {}
      | Some r \<Rightarrow> (case pr_extra_body r of None \<Rightarrow> {} | Some d \<Rightarrow> fst ` set d))"

lemma jget_assign_all: "k \<notin> fst ` set d \<Longrightarrow> jget (assign_all b d) k = jget b k"
  by (induction b d rule: assign_all.induct) (auto simp: jget_jset_other)

interpretation restamp_step: framed_step RestampBreakpointsStep "\<lambda>_. {''system'', ''messages''}"
proof
  fix body ctx b' c k
  assume a: "ss_apply RestampBreakpointsStep body ctx = Some (b', c)"
  have r: "b' = body \<or> restamp_breakpoints body = Some (b', c)"
    using a by (auto simp: RestampBreakpointsStep_def split: if_splits)
  show "k \<notin> {''system'', ''messages''} \<Longrightarrow> jget b' k = jget body k"
    using r by (auto elim: restamp_body_cases)
next
  fix body ctx b'
  assume "ss_apply RestampBreakpointsStep body ctx = Some (b', False)"
  then show "b' = body" by (auto simp: RestampBreakpointsStep_def restamp.unchanged split: if_splits)
qed

interpretation ttl_step: framed_step CacheTtlStep "\<lambda>_. {''system'', ''messages''}"
proof
  fix body ctx b' c k
  assume a: "ss_apply CacheTtlStep body ctx = Some (b', c)"
  then show "k \<notin> {''system'', ''messages''} \<Longrightarrow> jget b' k = jget body k"
    using stamp_cache_ttl_blocks(5) by (auto simp: CacheTtlStep_def split: if_splits)
next
  fix body ctx b'
  assume "ss_apply CacheTtlStep body ctx = Some (b', False)"
  then show "b' = body" using stamp_cache_ttl_blocks(3) by (auto simp: CacheTtlStep_def split: if_splits)
qed

lemma stamp_parts_frame:
  "stamp_max_tokens p t body = (b', c) \<Longrightarrow> k \<noteq> ''max_tokens'' \<Longrightarrow> jget b' k = jget body k"
  "force_thinking p t body = (b', c) \<Longrightarrow> k \<noteq> ''thinking'' \<Longrightarrow> jget b' k = jget body k"
  "stamp_output_config p oc body = (b', c) \<Longrightarrow> k \<noteq> ''output_config'' \<Longrightarrow> jget b' k = jget body k"
  by (auto simp: stamp_max_tokens_def force_thinking_def stamp_output_config_def jget_jset_other
      split: if_splits option.splits)

lemma stamp_parts_honest:
  "stamp_max_tokens p t body = (b', False) \<Longrightarrow> b' = body"
  "force_thinking p t body = (b', False) \<Longrightarrow> b' = body"
  "stamp_output_config p oc body = (b', False) \<Longrightarrow> b' = body"
  by (auto simp: stamp_max_tokens_def force_thinking_def stamp_output_config_def
      split: if_splits option.splits)

lemma stamp_thinking_frame:
  "stamp_thinking body opts = (b', c) \<Longrightarrow> k \<notin> {''max_tokens'', ''thinking'', ''output_config''} \<Longrightarrow>
   jget b' k = jget body k"
  by (auto simp: stamp_thinking_def Let_def stamp_parts_frame split: prod.splits)

lemma stamp_thinking_honest: "stamp_thinking body opts = (b', False) \<Longrightarrow> b' = body"
  by (auto simp: stamp_thinking_def Let_def split: prod.splits dest!: stamp_parts_honest)

interpretation anthropic_step: framed_step AnthropicBodyStep
    "\<lambda>_. {''max_tokens'', ''thinking'', ''output_config'', ''reasoning_effort''}"
proof
  fix body ctx b' c k
  assume "ss_apply AnthropicBodyStep body ctx = Some (b', c)"
  then show "k \<notin> {''max_tokens'', ''thinking'', ''output_config'', ''reasoning_effort''} \<Longrightarrow> jget b' k = jget body k"
    by (auto simp: AnthropicBodyStep_def apply_anthropic_body_def Let_def stamp_thinking_frame
        split: if_splits prod.splits)
next
  fix body ctx b'
  assume "ss_apply AnthropicBodyStep body ctx = Some (b', False)"
  then show "b' = body"
    by (auto simp: AnthropicBodyStep_def apply_anthropic_body_def Let_def stamp_thinking_honest
        split: if_splits prod.splits)
qed

interpretation rule_step: framed_step PerModelRuleStep
    "\<lambda>ctx. {''max_tokens'', ''thinking'', ''output_config''} \<union> extra_keys ctx"
proof
  fix body ctx b' c k
  assume a: "ss_apply PerModelRuleStep body ctx = Some (b', c)"
  have s: "rule_shape r ctx body = (b1, c1) \<Longrightarrow> k \<notin> {''max_tokens'', ''thinking'', ''output_config''} \<Longrightarrow>
      jget b1 k = jget body k" for r b1 c1
    by (auto simp: rule_shape_def Let_def jget_jset_other split: option.splits if_splits)
  show "k \<notin> {''max_tokens'', ''thinking'', ''output_config''} \<union> extra_keys ctx \<Longrightarrow> jget b' k = jget body k"
    using a s
    by (auto simp: PerModelRuleStep_def apply_rule_def extra_keys_def Let_def jget_assign_all
        split: if_splits option.splits prod.splits)
next
  fix body ctx b'
  assume "ss_apply PerModelRuleStep body ctx = Some (b', False)"
  then show "b' = body"
    by (auto simp: PerModelRuleStep_def apply_rule_def rule_shape_def Let_def
        split: if_splits option.splits prod.splits)
qed

interpretation context_step: framed_step ContextManagementStep "\<lambda>_. {''context_management''}"
  by unfold_locales (auto simp: ContextManagementStep_def jget_jset_other split: if_splits)

lemma reasoning_fields_frame:
  "reasoning_fields body = (b', c) \<Longrightarrow> k \<notin> {''output_config'', ''context_management'', ''temperature''} \<Longrightarrow>
   jget b' k = jget body k"
  by (auto simp: reasoning_fields_def Let_def jget_jset_other split: if_splits)

lemma jdel_absent: "jget v k = None \<Longrightarrow> jdel v k = v"
  by (cases v) (simp_all add: obj_del_absent map_of_eq_None_iff)

lemma reasoning_fields_honest: "reasoning_fields body = (b', False) \<Longrightarrow> b' = body"
  by (auto simp: reasoning_fields_def Let_def jdel_absent split: if_splits)

lemma stamp_reasoning_cases:
  obtains (kept) "stamp_reasoning body effort pol veto = (body, False)"
    | (vetoed) "veto" "stamp_reasoning body effort pol veto = reasoning_fields body"
    | (forced) "effort \<noteq> None" "stamp_reasoning body effort pol veto =
        (fst (reasoning_fields (jset body ''reasoning_effort'' (JStr (sp_effort (body_policy body pol))))), True)"
proof -
  consider "stamp_reasoning body effort pol veto = (body, False)"
    | "veto" "stamp_reasoning body effort pol veto = reasoning_fields body"
    | "effort \<noteq> None" "stamp_reasoning body effort pol veto =
        (fst (reasoning_fields (jset body ''reasoning_effort'' (JStr (sp_effort (body_policy body pol))))), True)"
    unfolding stamp_reasoning_def Let_def by presburger
  then show thesis using that by cases
qed

interpretation reasoning_step: framed_step OpenAiReasoningStep
    "\<lambda>_. {''reasoning_effort'', ''output_config'', ''context_management'', ''temperature''}"
proof
  fix body ctx b' c k
  assume a: "ss_apply OpenAiReasoningStep body ctx = Some (b', c)"
    and k: "k \<notin> {''reasoning_effort'', ''output_config'', ''context_management'', ''temperature''}"
  let ?veto = "case ctx_rule ctx of None \<Rightarrow> False | Some rule \<Rightarrow> pr_veto rule"
  have r: "b' = body \<or> stamp_reasoning body (ctx_reasoning_effort ctx) (Some (ctx_policy ctx)) ?veto = (b', c)"
    using a by (auto simp: OpenAiReasoningStep_def split: if_splits)
  have f: "jget (fst (reasoning_fields v)) k = jget v k" for v
    using reasoning_fields_frame [OF surjective_pairing, of k v] k by simp
  show "jget b' k = jget body k"
    using stamp_reasoning_cases [of body "ctx_reasoning_effort ctx" "Some (ctx_policy ctx)" ?veto]
  proof cases
    case vetoed
    then show ?thesis using r f [of body] by auto
  next
    case forced
    then show ?thesis using r f [of "jset body ''reasoning_effort'' (JStr (sp_effort (body_policy body (Some (ctx_policy ctx)))))"] k
      by auto
  qed (use r in auto)
next
  fix body ctx b'
  assume a: "ss_apply OpenAiReasoningStep body ctx = Some (b', False)"
  let ?veto = "case ctx_rule ctx of None \<Rightarrow> False | Some rule \<Rightarrow> pr_veto rule"
  have r: "b' = body \<or> stamp_reasoning body (ctx_reasoning_effort ctx) (Some (ctx_policy ctx)) ?veto = (b', False)"
    using a by (auto simp: OpenAiReasoningStep_def split: if_splits)
  show "b' = body"
    using stamp_reasoning_cases [of body "ctx_reasoning_effort ctx" "Some (ctx_policy ctx)" ?veto]
    by cases (use r in \<open>auto simp: reasoning_fields_honest\<close>)
qed

interpretation stream_step: framed_step OpenAiStreamUsageStep "\<lambda>_. {''stream_options''}"
  by unfold_locales (auto simp: OpenAiStreamUsageStep_def jget_jset_other split: if_splits)

lemma map_of_filter_key: "map_of (filter (\<lambda>(k, _). P k) d) k = (if P k then map_of d k else None)"
  by (induction d) auto

lemma stamp_top_k_get:
  "stamp_top_k body t pol = (b', c) \<Longrightarrow>
   jget b' k = (if c \<and> k = ''top_k'' then Some (JNum t) else jget body k) \<and> (\<not> c \<longrightarrow> b' = body)"
  by (auto simp: stamp_top_k_def Let_def extract_model_name_def jstr_Some
      map_of_filter_key [where P = "\<lambda>k. k \<noteq> ''model'' \<and> k \<noteq> ''top_k''"]
      split: json.splits option.splits if_splits)

interpretation top_k_step: framed_step TopKStep "\<lambda>_. {''top_k''}"
  using stamp_top_k_get by unfold_locales (auto simp: TopKStep_def split: if_splits)

lemma stamp_temperature_get:
  "stamp_temperature body t = (b', c) \<Longrightarrow> k \<noteq> ''temperature'' \<Longrightarrow> jget b' k = jget body k"
  "stamp_temperature body t = (b', False) \<Longrightarrow> b' = body"
  by (auto simp: stamp_temperature_def split: json.splits if_splits)

interpretation temperature_step: framed_step TemperatureStep "\<lambda>_. {''temperature''}"
  by unfold_locales (auto simp: TemperatureStep_def stamp_temperature_get split: if_splits)

interpretation omo_step: framed_step StripOmoReminderStep "\<lambda>_. {''messages''}"
proof
  fix body ctx b' c k
  assume "ss_apply StripOmoReminderStep body ctx = Some (b', c)"
  then show "k \<notin> {''messages''} \<Longrightarrow> jget b' k = jget body k"
    by (cases rule: strip_omo_cases [of body])
      (auto simp: StripOmoReminderStep_def jget_jset_other split: if_splits)
next
  fix body ctx b'
  assume "ss_apply StripOmoReminderStep body ctx = Some (b', False)"
  then show "b' = body"
    by (cases rule: strip_omo_cases [of body]) (auto simp: StripOmoReminderStep_def split: if_splits)
qed

subsection \<open>The pipeline\<close>

definition stamped_fields :: "string set" where
  "stamped_fields = {''system'', ''messages'', ''max_tokens'', ''thinking'', ''output_config'',
     ''reasoning_effort'', ''context_management'', ''temperature'', ''stream_options'', ''top_k''}"

lemma run_steps_frame:
  assumes "\<forall>s\<in>set ss. \<exists>W. framed_step s W \<and> W ctx \<subseteq> K"
  shows "run_steps ss ctx body = Some (b', c) \<Longrightarrow>
    (\<forall>k. k \<notin> K \<longrightarrow> jget b' k = jget body k) \<and> (\<not> c \<longrightarrow> b' = body)"
  using assms
proof (induction ss arbitrary: body c)
  case (Cons s ss)
  show ?case
  proof (cases "ss_applies s ctx")
    case False
    then show ?thesis using Cons by simp
  next
    case True
    then obtain b c1 where b: "ss_apply s body ctx = Some (b, c1)"
      using Cons.prems(1) by (cases "ss_apply s body ctx") auto
    then obtain c2 where r: "ss_apply s body ctx = Some (b, c1)" "run_steps ss ctx b = Some (b', c2)"
      "c = (c1 \<or> c2)"
      using Cons.prems(1) True by (cases "run_steps ss ctx b") auto
    obtain W where W: "framed_step s W" "W ctx \<subseteq> K" using Cons.prems(2) by auto
    have "k \<notin> K \<Longrightarrow> jget b k = jget body k" for k using framed_step.frame [OF W(1) r(1)] W(2) by blast
    moreover have "\<not> c1 \<Longrightarrow> b = body" using framed_step.honest [OF W(1)] r(1) by auto
    ultimately show ?thesis using Cons.IH [OF r(2)] Cons.prems(2) r(3) by auto
  qed
qed simp

lemma framed_within: "framed_step s W \<Longrightarrow> W ctx \<subseteq> K \<Longrightarrow> \<exists>W. framed_step s W \<and> W ctx \<subseteq> K"
  by blast

lemmas step_frames = restamp_step.framed_step_axioms ttl_step.framed_step_axioms
  anthropic_step.framed_step_axioms rule_step.framed_step_axioms context_step.framed_step_axioms
  reasoning_step.framed_step_axioms stream_step.framed_step_axioms top_k_step.framed_step_axioms
  temperature_step.framed_step_axioms omo_step.framed_step_axioms

lemma pipeline_framed:
  "\<forall>s\<in>set STAMP_PIPELINE. \<exists>W. framed_step s W \<and> W ctx \<subseteq> stamped_fields \<union> extra_keys ctx"
  unfolding STAMP_PIPELINE_def list.set ball_simps
  by (intro conjI TrueI step_frames [THEN framed_within]) (auto simp: stamped_fields_def)

text \<open>
  The pipeline touches the declared fields and nothing else. Whatever the configuration, every
  entry of the request outside the ten stamped fields and the extra entries of the matching
  per-model rule is forwarded as the client sent it; when no step reports a change, or a step
  throws, the request is the client's.
\<close>

theorem pipeline_frame:
  assumes "k \<notin> {''system'', ''messages'', ''max_tokens'', ''thinking'', ''output_config'', ''reasoning_effort'',
     ''context_management'', ''temperature'', ''stream_options'', ''top_k''}"
    "\<forall>rule extra. ctx_rule ctx = Some rule \<longrightarrow> pr_extra_body rule = Some extra \<longrightarrow> k \<notin> fst ` set extra"
  shows "jget (stamped_request ctx body) k = jget body k \<and>
    (\<forall>b. run_steps STAMP_PIPELINE ctx body = Some (b, False) \<longrightarrow> b = body)"
proof -
  have k: "k \<notin> stamped_fields \<union> extra_keys ctx"
    using assms by (auto simp: stamped_fields_def extra_keys_def split: option.splits)
  show ?thesis
    using run_steps_frame [OF pipeline_framed] k
    by (auto simp: stamped_request_def split: option.split)
qed

definition demo_ctx :: stamp_context where
  "demo_ctx =
     \<lparr>ctx_stamp_claude_code = True, ctx_reasoning_effort = Some ''high'', ctx_model_rules = [],
      ctx_strip_omo = False, ctx_is_openai = False, ctx_model_name = Some ''umans-glm-5'', ctx_catalog = []\<rparr>"

theorem pipeline_frame_witness:
  "jget (stamped_request demo_ctx demo_body) ''model'' = Some (JStr ''umans-glm-5'')"
proof -
  have "ctx_rule demo_ctx = None" by (simp add: ctx_rule_def resolve_per_model_rule_def demo_ctx_def)
  then have "jget (stamped_request demo_ctx demo_body) ''model'' = jget demo_body ''model''"
    using pipeline_frame [of "''model''" demo_ctx demo_body] by simp
  then show ?thesis by (simp add: demo_body_def Let_def)
qed

subsection \<open>The Claude Code bundle\<close>

lemma run_stepsE:
  assumes "run_steps (s # ss) ctx body = Some (b', c)"
  obtains b c1 c2 where "if ss_applies s ctx then ss_apply s body ctx = Some (b, c1) else b = body \<and> \<not> c1"
    "run_steps ss ctx b = Some (b', c2)" "c = (c1 \<or> c2)"
proof (cases "ss_applies s ctx")
  case False
  then show thesis using assms that [of body False c] by simp
next
  case True
  then obtain b c1 where b: "ss_apply s body ctx = Some (b, c1)"
    using assms by (cases "ss_apply s body ctx") auto
  then obtain c2 where "run_steps ss ctx b = Some (b', c2)" "c = (c1 \<or> c2)"
    using assms True by (cases "run_steps ss ctx b") auto
  then show thesis using that b True by simp
qed

lemma thinking_enabled_obj: "is_thinking_enabled (jget body ''thinking'') \<Longrightarrow> \<exists>d. body = JObj d"
  by (cases body) (simp_all add: is_thinking_enabled_def is_nullish_def)

text \<open>What the body step leaves in the fields it writes.\<close>

lemma anthropic_body_enabled:
  assumes "is_thinking_enabled (jget body ''thinking'')" "sp_thinking (ctx_policy ctx)"
    "\<not> is_thinking_disabled (Some (JObj (sp_shape (ctx_policy ctx))))"
    "apply_anthropic_body body ctx = (b', c)"
  shows "c" "jget b' ''max_tokens'' = Some (JNum (sp_max_tokens (ctx_policy ctx)))"
    "jget b' ''output_config'' = Some (effort_config (ctx_policy ctx))"
    "jget b' ''reasoning_effort'' = None" "is_thinking_enabled (jget b' ''thinking'')"
    "jget b' ''thinking'' = Some (JObj (sp_shape (ctx_policy ctx))) \<or>
     (\<exists>t. jget body ''thinking'' = Some t \<and> jget b' ''thinking'' = Some t \<and>
          thinking_equals t (sp_shape (ctx_policy ctx)))"
proof -
  let ?p = "ctx_policy ctx"
  obtain d where d: "body = JObj d" using thinking_enabled_obj [OF assms(1)] by blast
  obtain t where t: "obj_get d ''thinking'' = Some t" "t \<noteq> JNull" "\<not> is_thinking_disabled (Some t)"
    using assms(1) d by (auto simp: is_thinking_enabled_def is_nullish_def)
  define th where "th = (if thinking_equals t (sp_shape ?p) then t else JObj (sp_shape ?p))"
  have en: "is_thinking_enabled (Some th)"
    using t assms(3) by (simp add: th_def is_thinking_enabled_def is_nullish_def)
  define d1 where "d1 = obj_set d ''max_tokens'' (JNum (sp_max_tokens ?p))"
  define d2 where "d2 = (if thinking_equals t (sp_shape ?p) then d1 else obj_set d1 ''thinking'' (JObj (sp_shape ?p)))"
  define d3 where "d3 = obj_set d2 ''output_config'' (effort_config ?p)"
  have g2: "obj_get d2 ''thinking'' = Some th" "obj_get d2 ''max_tokens'' = Some (JNum (sp_max_tokens ?p))"
    using t by (simp_all add: d2_def d1_def th_def)
  have s1: "stamp_max_tokens ?p True body = (JObj d1, True)"
    using assms(1) d by (simp add: stamp_max_tokens_def d1_def)
  have f2: "force_thinking ?p True (JObj d1) = (JObj d2, \<not> thinking_equals t (sp_shape ?p))"
    using t by (simp add: force_thinking_def d1_def d2_def)
  have s3: "stamp_output_config ?p (Output (effort_config ?p)) (JObj d2) = (JObj d3, True)"
    using g2 en assms(2) by (simp add: stamp_output_config_def d3_def)
  have b': "b' = (if obj_get d3 ''reasoning_effort'' \<noteq> None then JObj (obj_del d3 ''reasoning_effort'') else JObj d3)"
    and c: "c"
    using assms(4) by (simp_all add: apply_anthropic_body_def stamp_thinking_def body_policy_def s1 f2 s3 Let_def
        split: if_splits)
  show "c" by (rule c)
  show "jget b' ''max_tokens'' = Some (JNum (sp_max_tokens ?p))"
    "jget b' ''output_config'' = Some (effort_config ?p)" "jget b' ''reasoning_effort'' = None"
    "is_thinking_enabled (jget b' ''thinking'')"
    using g2 en by (simp_all add: b' d3_def)
  show "jget b' ''thinking'' = Some (JObj (sp_shape ?p)) \<or>
     (\<exists>t. jget body ''thinking'' = Some t \<and> jget b' ''thinking'' = Some t \<and> thinking_equals t (sp_shape ?p))"
    using g2 t d by (auto simp: b' d3_def th_def)
qed

text \<open>
  The Anthropic pipeline without a per-model rule, step by step: \<open>b0\<close> after the cache steps,
  \<open>b1\<close> after the body step, \<open>b2\<close> after context management, \<open>b3\<close> after top-k, \<open>b4\<close> after
  temperature.
\<close>

lemma enabled_object: "is_thinking_enabled (jget b ''thinking'') \<Longrightarrow> is_object b"
  by (cases b) (simp_all add: is_thinking_enabled_def is_nullish_def)

lemma anthropic_not_object:
  "\<not> is_object b \<Longrightarrow> apply_anthropic_body b ctx = (b, False)"
  by (cases b) (simp_all add: apply_anthropic_body_def stamp_thinking_def stamp_max_tokens_def
      force_thinking_def stamp_output_config_def is_thinking_enabled_def is_nullish_def Let_def)

definition claude_trace ::
    "stamp_context \<Rightarrow> json \<Rightarrow> json \<Rightarrow> bool \<Rightarrow> json \<Rightarrow> json \<Rightarrow> json \<Rightarrow> json \<Rightarrow> json \<Rightarrow> bool" where
  "claude_trace ctx body b' c b0 b1 b2 b3 b4 \<longleftrightarrow>
     (\<forall>k. k \<noteq> ''system'' \<longrightarrow> k \<noteq> ''messages'' \<longrightarrow> jget b0 k = jget body k) \<and>
     (\<exists>c1. apply_anthropic_body b0 ctx = (b1, c1) \<and> (c1 \<longrightarrow> c)) \<and>
     b2 = (if is_thinking_enabled (jget b1 ''thinking'')
           then jset b1 ''context_management'' STAMP_CONTEXT_MANAGEMENT_VALUE else b1) \<and>
     b3 = (if sp_top_k (ctx_policy ctx) \<noteq> None \<and> is_thinking_enabled (jget b2 ''thinking'')
           then fst (stamp_top_k b2 STAMP_TOP_K_VALUE (Some (ctx_policy ctx))) else b2) \<and>
     b4 = (if is_thinking_enabled (jget b3 ''thinking'')
           then fst (stamp_temperature b3 STAMP_TEMPERATURE_VALUE) else b3) \<and>
     (\<forall>k. k \<noteq> ''messages'' \<longrightarrow> jget b' k = jget b4 k)"

lemma claude_pipeline:
  assumes cc: "claude_code ctx" "ctx_rule ctx = None" and run: "run_steps STAMP_PIPELINE ctx body = Some (b', c)"
  shows "\<exists>b0 b1 b2 b3 b4. claude_trace ctx body b' c b0 b1 b2 b3 b4"
proof -
  have off: "\<not> ctx_is_openai ctx" "ctx_stamp_claude_code ctx" "\<not> openai_reasoning ctx"
    using cc(1) by (simp_all add: claude_code_def openai_reasoning_def)
  let ?L10 = "[] :: stamp_step list"
  let ?L9 = "StripOmoReminderStep # ?L10"
  let ?L8 = "TemperatureStep # ?L9"
  let ?L7 = "TopKStep # ?L8"
  let ?L6 = "OpenAiStreamUsageStep # ?L7"
  let ?L5 = "OpenAiReasoningStep # ?L6"
  let ?L4 = "ContextManagementStep # ?L5"
  let ?L3 = "PerModelRuleStep # ?L4"
  let ?L2 = "AnthropicBodyStep # ?L3"
  let ?L1 = "CacheTtlStep # ?L2"
  let ?L0 = "RestampBreakpointsStep # ?L1"
  have r0: "run_steps ?L0 ctx body = Some (b', c)" using run by (simp add: STAMP_PIPELINE_def)
  obtain a0 e0 d0 where s0: "if ss_applies RestampBreakpointsStep ctx then ss_apply RestampBreakpointsStep body ctx = Some (a0, e0)
      else a0 = body \<and> \<not> e0" and r1: "run_steps ?L1 ctx a0 = Some (b', d0)" and c0: "c = (e0 \<or> d0)"
    by (rule run_stepsE [OF r0])
  obtain a1 e1 d1 where s1: "if ss_applies CacheTtlStep ctx then ss_apply CacheTtlStep a0 ctx = Some (a1, e1)
      else a1 = a0 \<and> \<not> e1" and r2: "run_steps ?L2 ctx a1 = Some (b', d1)" and c1: "d0 = (e1 \<or> d1)"
    by (rule run_stepsE [OF r1])
  obtain a2 e2 d2 where s2: "if ss_applies AnthropicBodyStep ctx then ss_apply AnthropicBodyStep a1 ctx = Some (a2, e2)
      else a2 = a1 \<and> \<not> e2" and r3: "run_steps ?L3 ctx a2 = Some (b', d2)" and c2: "d1 = (e2 \<or> d2)"
    by (rule run_stepsE [OF r2])
  obtain a3 e3 d3 where s3: "if ss_applies PerModelRuleStep ctx then ss_apply PerModelRuleStep a2 ctx = Some (a3, e3)
      else a3 = a2 \<and> \<not> e3" and r4: "run_steps ?L4 ctx a3 = Some (b', d3)" and c3: "d2 = (e3 \<or> d3)"
    by (rule run_stepsE [OF r3])
  obtain a4 e4 d4 where s4: "if ss_applies ContextManagementStep ctx then ss_apply ContextManagementStep a3 ctx = Some (a4, e4)
      else a4 = a3 \<and> \<not> e4" and r5: "run_steps ?L5 ctx a4 = Some (b', d4)" and c4: "d3 = (e4 \<or> d4)"
    by (rule run_stepsE [OF r4])
  obtain a5 e5 d5 where s5: "if ss_applies OpenAiReasoningStep ctx then ss_apply OpenAiReasoningStep a4 ctx = Some (a5, e5)
      else a5 = a4 \<and> \<not> e5" and r6: "run_steps ?L6 ctx a5 = Some (b', d5)" and c5: "d4 = (e5 \<or> d5)"
    by (rule run_stepsE [OF r5])
  obtain a6 e6 d6 where s6: "if ss_applies OpenAiStreamUsageStep ctx then ss_apply OpenAiStreamUsageStep a5 ctx = Some (a6, e6)
      else a6 = a5 \<and> \<not> e6" and r7: "run_steps ?L7 ctx a6 = Some (b', d6)" and c6: "d5 = (e6 \<or> d6)"
    by (rule run_stepsE [OF r6])
  obtain a7 e7 d7 where s7: "if ss_applies TopKStep ctx then ss_apply TopKStep a6 ctx = Some (a7, e7)
      else a7 = a6 \<and> \<not> e7" and r8: "run_steps ?L8 ctx a7 = Some (b', d7)" and c7: "d6 = (e7 \<or> d7)"
    by (rule run_stepsE [OF r7])
  obtain a8 e8 d8 where s8: "if ss_applies TemperatureStep ctx then ss_apply TemperatureStep a7 ctx = Some (a8, e8)
      else a8 = a7 \<and> \<not> e8" and r9: "run_steps ?L9 ctx a8 = Some (b', d8)" and c8: "d7 = (e8 \<or> d8)"
    by (rule run_stepsE [OF r8])
  obtain a9 e9 d9 where s9: "if ss_applies StripOmoReminderStep ctx then ss_apply StripOmoReminderStep a8 ctx = Some (a9, e9)
      else a9 = a8 \<and> \<not> e9" and r10: "run_steps ?L10 ctx a9 = Some (b', d9)" and c9: "d8 = (e9 \<or> d9)"
    by (rule run_stepsE [OF r9])
  have t1: "\<forall>k. k \<noteq> ''system'' \<longrightarrow> k \<noteq> ''messages'' \<longrightarrow> jget a1 k = jget body k"
  proof (intro allI impI)
    fix k :: string assume "k \<noteq> ''system''" "k \<noteq> ''messages''"
    then show "jget a1 k = jget body k"
      using restamp_step.frame [of body ctx a0 e0 k] ttl_step.frame [of a0 ctx a1 e1 k] s0 s1
      by (auto split: if_splits)
  qed
  have "apply_anthropic_body a1 ctx = (a2, e2)"
    using s2 cc(1) anthropic_not_object [of a1 ctx] by (auto simp: AnthropicBodyStep_def split: if_splits)
  moreover have "e2 \<longrightarrow> c" using c0 c1 c2 by simp
  ultimately have t2: "\<exists>c1. apply_anthropic_body a1 ctx = (a2, c1) \<and> (c1 \<longrightarrow> c)" by blast
  have a3: "a3 = a2" using s3 cc(2) by (simp add: PerModelRuleStep_def)
  have t3: "a4 = (if is_thinking_enabled (jget a2 ''thinking'')
      then jset a2 ''context_management'' STAMP_CONTEXT_MANAGEMENT_VALUE else a2)"
    using s4 cc(1) enabled_object [of a2] by (auto simp: ContextManagementStep_def a3 split: if_splits)
  have a6: "a5 = a4" "a6 = a5"
    using s5 s6 off by (simp_all add: OpenAiReasoningStep_def OpenAiStreamUsageStep_def)
  have t4: "a7 = (if sp_top_k (ctx_policy ctx) \<noteq> None \<and> is_thinking_enabled (jget a4 ''thinking'')
      then fst (stamp_top_k a4 STAMP_TOP_K_VALUE (Some (ctx_policy ctx))) else a4)"
    using s7 off enabled_object [of a4] unfolding a6 by (auto simp: TopKStep_def split: if_splits)
  have t5: "a8 = (if is_thinking_enabled (jget a7 ''thinking'')
      then fst (stamp_temperature a7 STAMP_TEMPERATURE_VALUE) else a7)"
    using s8 cc(1) enabled_object [of a7] by (auto simp: TemperatureStep_def split: if_splits)
  have t6: "\<forall>k. k \<noteq> ''messages'' \<longrightarrow> jget b' k = jget a8 k"
    using omo_step.frame [of a8 ctx a9 e9] s9 r10 by (auto split: if_splits)
  have "claude_trace ctx body b' c a1 a2 a4 a7 a8"
    unfolding claude_trace_def by (intro conjI t1 t2 t3 t4 t5 t6)
  then show ?thesis by blast
qed

lemma top_k_if_get:
  "k \<noteq> ''top_k'' \<Longrightarrow> jget (if a then fst (stamp_top_k b t p) else b) k = jget b k"
  using stamp_top_k_get [OF surjective_pairing, of b t p k] by auto

lemma temperature_if_get:
  "k \<noteq> ''temperature'' \<Longrightarrow> jget (if a then fst (stamp_temperature b t) else b) k = jget b k"
  using stamp_temperature_get(1) [OF surjective_pairing, of k b t] by auto

text \<open>
  The Claude Code bundle is complete. When the bundle is on, the client sends thinking that is
  not disabled and no per-model rule matches, the forwarded request has the policy's
  \<open>max_tokens\<close> and effort, a context management block, temperature 1, no \<open>reasoning_effort\<close>,
  thinking of the policy's shape, and \<open>top_k\<close> 20 if the policy asks for it and the client,
  naming a model, set none.
\<close>

theorem claude_bundle_complete:
  assumes "claude_code ctx" "ctx_rule ctx = None"
    "is_thinking_enabled (jget body ''thinking'')" "sp_thinking (ctx_policy ctx)"
    "\<not> is_thinking_disabled (Some (JObj (sp_shape (ctx_policy ctx))))"
    "run_steps STAMP_PIPELINE ctx body = Some (b, c)"
  shows "stamped_request ctx body = b \<and>
    jget b ''max_tokens'' = Some (JNum (sp_max_tokens (ctx_policy ctx))) \<and>
    jget b ''output_config'' = Some (JObj [(''effort'', JStr (sp_effort (ctx_policy ctx)))]) \<and>
    jget b ''context_management'' = Some STAMP_CONTEXT_MANAGEMENT_VALUE \<and>
    jget b ''temperature'' = Some (JNum 1) \<and> jget b ''reasoning_effort'' = None \<and>
    (jget b ''thinking'' = Some (JObj (sp_shape (ctx_policy ctx))) \<or>
      (\<exists>t. jget body ''thinking'' = Some t \<and> jget b ''thinking'' = Some t \<and>
           thinking_equals t (sp_shape (ctx_policy ctx)))) \<and>
    (sp_top_k (ctx_policy ctx) \<noteq> None \<longrightarrow> extract_model_name body \<noteq> None \<longrightarrow> jget body ''top_k'' = None \<longrightarrow>
       jget b ''top_k'' = Some (JNum 20))"
proof -
  let ?p = "ctx_policy ctx"
  obtain b0 b1 b2 b3 b4 where tr: "claude_trace ctx body b c b0 b1 b2 b3 b4"
    using claude_pipeline [OF assms(1,2,6)] by blast
  have f0: "k \<noteq> ''system'' \<Longrightarrow> k \<noteq> ''messages'' \<Longrightarrow> jget b0 k = jget body k"
    and fb: "k \<noteq> ''messages'' \<Longrightarrow> jget b k = jget b4 k" for k
    using tr by (simp_all add: claude_trace_def)
  obtain c1 where a: "apply_anthropic_body b0 ctx = (b1, c1)" and c: "c1 \<Longrightarrow> c"
    using tr by (auto simp: claude_trace_def)
  note b2 = tr [unfolded claude_trace_def, THEN conjunct2, THEN conjunct2, THEN conjunct1]
    and b3 = tr [unfolded claude_trace_def, THEN conjunct2, THEN conjunct2, THEN conjunct2, THEN conjunct1]
    and b4 = tr [unfolded claude_trace_def, THEN conjunct2, THEN conjunct2, THEN conjunct2, THEN conjunct2,
        THEN conjunct1]
  have en: "is_thinking_enabled (jget b0 ''thinking'')" using assms(3) f0 by simp
  note ab = anthropic_body_enabled [OF en assms(4,5) a]
  obtain d where d: "b1 = JObj d" using thinking_enabled_obj [OF ab(5)] by blast
  have b2': "b2 = JObj (obj_set d ''context_management'' STAMP_CONTEXT_MANAGEMENT_VALUE)"
    using ab(5) by (simp add: b2 d)
  have g2: "jget b2 k = (if k = ''context_management'' then Some STAMP_CONTEXT_MANAGEMENT_VALUE else jget b1 k)" for k
    by (simp add: b2' d)
  have g3: "k \<noteq> ''top_k'' \<Longrightarrow> jget b3 k = jget b2 k" for k unfolding b3 by (rule top_k_if_get)
  have en3: "is_thinking_enabled (jget b3 ''thinking'')" using ab(5) g2 g3 by simp
  have g4: "k \<noteq> ''temperature'' \<Longrightarrow> jget b4 k = jget b3 k" for k unfolding b4 by (rule temperature_if_get)
  obtain d3 where "b3 = JObj d3" using thinking_enabled_obj [OF en3] by blast
  then have t4: "jget b4 ''temperature'' = Some (JNum 1)"
    using en3 by (simp add: b4 stamp_temperature_def STAMP_TEMPERATURE_VALUE_def)
  have keep: "jget b k = jget b1 k" if "k \<notin> {''messages'', ''temperature'', ''top_k'', ''context_management''}" for k
    using that fb [of k] g4 [of k] g3 [of k] g2 [of k] by simp
  have topk: "jget b ''top_k'' = Some (JNum 20)"
    if tk: "sp_top_k ?p \<noteq> None" "extract_model_name body \<noteq> None" "jget body ''top_k'' = None"
  proof -
    obtain m where "jget body ''model'' = Some (JStr m)"
      using tk(2) by (auto simp: extract_model_name_def jstr_Some)
    moreover have "jget b1 k = jget b0 k" if k: "k \<in> {''model'', ''top_k''}" for k
      using anthropic_step.frame [of b0 ctx b1 c1 k] a k anthropic_not_object [of b0 ctx]
      by (cases "is_object b0") (auto simp: AnthropicBodyStep_def)
    ultimately have "jget b2 ''model'' = Some (JStr m)" "jget b2 ''top_k'' = None"
      using tk(3) f0 g2 by simp_all
    then have "jget b3 ''top_k'' = Some (JNum 20)"
      using tk(1) ab(5) g2 [of "''thinking''"]
      by (simp add: b3) (simp add: b2' stamp_top_k_def extract_model_name_def STAMP_TOP_K_VALUE_def Let_def)
    then show ?thesis using fb g4 by simp
  qed
  have "stamped_request ctx body = b" using assms(6) c ab(1) by (simp add: stamped_request_def)
  moreover have "jget b ''context_management'' = Some STAMP_CONTEXT_MANAGEMENT_VALUE"
    using fb g4 g3 g2 by simp
  moreover have "jget b ''temperature'' = Some (JNum 1)" using fb t4 by simp
  moreover have "jget b0 ''thinking'' = jget body ''thinking''" using f0 by simp
  ultimately show ?thesis
    using keep ab topk by (simp add: effort_config_def)
qed

definition thinking_body :: json where
  "thinking_body = jset demo_body ''thinking'' (JObj [(''type'', JStr ''enabled''), (''budget_tokens'', JNum 1024)])"

lemma demo_ctx_facts:
  "ctx_rule demo_ctx = None" "claude_code demo_ctx" "ctx_stamp_claude_code demo_ctx" "\<not> ctx_is_openai demo_ctx"
  by (simp_all add: ctx_rule_def resolve_per_model_rule_def demo_ctx_def claude_code_def)

lemma demo_policy: "ctx_policy demo_ctx = policy 131071 ''max'' (Some 20) True adaptive"
  by (simp add: ctx_policy_def demo_ctx_def resolve_stamp_policy_def match_stamp_overlay_def STAMP_OVERLAY_def
      glob_match_def ends_with_def starts_with_def)

theorem claude_bundle_complete_witness:
  "jget (stamped_request demo_ctx thinking_body) ''max_tokens'' = Some (JNum 131071) \<and>
   jget (stamped_request demo_ctx thinking_body) ''top_k'' = Some (JNum 20)"
proof -
  have ok: "run_steps STAMP_PIPELINE demo_ctx thinking_body \<noteq> None" by code_simp
  then obtain r where r: "run_steps STAMP_PIPELINE demo_ctx thinking_body = Some r" by blast
  obtain b c where "r = (b, c)" by (rule prod.exhaust)
  then have run: "run_steps STAMP_PIPELINE demo_ctx thinking_body = Some (b, c)" using r by simp
  have en: "is_thinking_enabled (jget thinking_body ''thinking'')" "extract_model_name thinking_body \<noteq> None"
    "jget thinking_body ''top_k'' = None" by code_simp+
  have p: "sp_thinking (ctx_policy demo_ctx)" "sp_top_k (ctx_policy demo_ctx) \<noteq> None"
    "\<not> is_thinking_disabled (Some (JObj (sp_shape (ctx_policy demo_ctx))))"
    "sp_max_tokens (ctx_policy demo_ctx) = 131071"
    unfolding demo_policy by code_simp+
  show ?thesis
    using claude_bundle_complete [OF demo_ctx_facts(2,1) en(1) p(1,3) run] p(2,4) en(2,3) by simp
qed

text \<open>
  Disabled thinking is respected. When the bundle is on, the policy lets the client disable
  thinking, the request's thinking is absent or disabled and no per-model rule matches, the
  request is forwarded with its thinking, \<open>max_tokens\<close>, \<open>output_config\<close>,
  \<open>context_management\<close>, \<open>temperature\<close> and \<open>top_k\<close> as the client sent them.
\<close>

theorem disabled_thinking_respected:
  assumes "ctx_stamp_claude_code ctx" "\<not> ctx_is_openai ctx" "ctx_rule ctx = None" "sp_can_disable (ctx_policy ctx)"
    "\<not> is_thinking_enabled (jget body ''thinking'')"
    "k \<in> {''thinking'', ''max_tokens'', ''output_config'', ''context_management'', ''temperature'', ''top_k''}"
  shows "jget (stamped_request ctx body) k = jget body k"
proof (cases "run_steps STAMP_PIPELINE ctx body")
  case None
  then show ?thesis by (simp add: stamped_request_def)
next
  case (Some r)
  obtain b c where r: "r = (b, c)" by force
  have cc: "claude_code ctx" using assms(1,2) by (simp add: claude_code_def)
  have run: "run_steps STAMP_PIPELINE ctx body = Some (b, c)" using Some r by simp
  obtain b0 b1 b2 b3 b4 where tr: "claude_trace ctx body b c b0 b1 b2 b3 b4"
    using claude_pipeline [OF cc assms(3) run] by blast
  have f0: "k \<noteq> ''system'' \<Longrightarrow> k \<noteq> ''messages'' \<Longrightarrow> jget b0 k = jget body k"
    and fb: "k \<noteq> ''messages'' \<Longrightarrow> jget b k = jget b4 k" for k
    using tr by (simp_all add: claude_trace_def)
  obtain c1 where a: "apply_anthropic_body b0 ctx = (b1, c1)" using tr by (auto simp: claude_trace_def)
  note b2 = tr [unfolded claude_trace_def, THEN conjunct2, THEN conjunct2, THEN conjunct1]
    and b3 = tr [unfolded claude_trace_def, THEN conjunct2, THEN conjunct2, THEN conjunct2, THEN conjunct1]
    and b4 = tr [unfolded claude_trace_def, THEN conjunct2, THEN conjunct2, THEN conjunct2, THEN conjunct2,
        THEN conjunct1]
  have dis: "\<not> is_thinking_enabled (jget b0 ''thinking'')" using assms(5) f0 by simp
  have "stamp_max_tokens (ctx_policy ctx) True b0 = (b0, False)"
    "stamp_output_config (ctx_policy ctx) oc b0 = (b0, False)" for oc
    using dis by (simp_all add: stamp_max_tokens_def stamp_output_config_def)
  moreover have "force_thinking (ctx_policy ctx) True b0 = (b0, False)"
  proof (cases "jget b0 ''thinking''")
    case (Some t)
    then have "t = JNull \<or> is_thinking_disabled (Some t)"
      using dis by (simp add: is_thinking_enabled_def is_nullish_def)
    then show ?thesis using Some assms(4) by (auto simp: force_thinking_def)
  qed (simp add: force_thinking_def)
  ultimately have st: "stamp_thinking b0
      \<lparr>so_max_tokens = True, so_output_config = oc, so_thinking = True, so_policy = Some (ctx_policy ctx)\<rparr>
      = (b0, False)" for oc
    by (simp add: stamp_thinking_def body_policy_def Let_def)
  have g1: "k \<noteq> ''reasoning_effort'' \<Longrightarrow> jget b1 k = jget b0 k" for k
    using a by (auto simp: apply_anthropic_body_def st Let_def split: if_splits)
  have "b4 = b1" using dis g1 [of "''thinking''"] by (simp add: b2 b3 b4)
  moreover have "k \<noteq> ''messages''" "k \<noteq> ''system''" "k \<noteq> ''reasoning_effort''" using assms(6) by auto
  ultimately have "jget b k = jget body k" using fb [of k] f0 [of k] g1 [of k] by simp
  then show ?thesis by (simp add: stamped_request_def run)
qed

theorem disabled_thinking_respected_witness:
  "jget (stamped_request demo_ctx demo_body) ''temperature'' = None"
proof -
  have d: "\<not> is_thinking_enabled (jget demo_body ''thinking'')" "jget demo_body ''temperature'' = None"
    by code_simp+
  have p: "sp_can_disable (ctx_policy demo_ctx)" unfolding demo_policy by (simp add: policy_def)
  show ?thesis
    using disabled_thinking_respected [OF demo_ctx_facts(3,4,1) p d(1), of "''temperature''"] d(2) by simp
qed

subsection \<open>OpenAI requests\<close>

lemma reasoning_fields_result:
  "is_object b \<Longrightarrow> \<exists>d. b = JObj d \<Longrightarrow>
   jget (fst (reasoning_fields b)) ''output_config'' = None \<and>
   jget (fst (reasoning_fields b)) ''context_management'' = None \<and>
   jget (fst (reasoning_fields b)) ''temperature'' = Some (JNum 1)"
  by (auto simp: reasoning_fields_def Let_def)

lemma run_steps_filter:
  "run_steps (filter (\<lambda>s. ss_applies s ctx) ss) ctx body = run_steps ss ctx body"
  by (induction ss arbitrary: body) (auto split: option.splits)

lemma openai_pipeline:
  assumes "ctx_is_openai ctx" "ctx_rule ctx = None"
  shows "run_steps STAMP_PIPELINE ctx body =
    run_steps [OpenAiReasoningStep, OpenAiStreamUsageStep, TopKStep] ctx body"
proof -
  have "\<not> claude_code ctx" using assms(1) by (simp add: claude_code_def)
  then have skip: "\<not> ss_applies s ctx"
    if "s \<in> {RestampBreakpointsStep, CacheTtlStep, AnthropicBodyStep, PerModelRuleStep, ContextManagementStep,
      TemperatureStep, StripOmoReminderStep}" for s
    using that assms by (auto simp: RestampBreakpointsStep_def CacheTtlStep_def AnthropicBodyStep_def
        PerModelRuleStep_def ContextManagementStep_def TemperatureStep_def StripOmoReminderStep_def)
  have "filter (\<lambda>s. ss_applies s ctx) STAMP_PIPELINE =
      filter (\<lambda>s. ss_applies s ctx) [OpenAiReasoningStep, OpenAiStreamUsageStep, TopKStep]"
    by (simp add: STAMP_PIPELINE_def skip)
  then show ?thesis by (metis run_steps_filter)
qed

text \<open>
  Reasoning requests are normalised for strict OpenAI upstreams. When effort stamping is on, no
  per-model rule matches and the client asks for a reasoning effort (a disabled one counts only
  if the policy lets the client disable reasoning), the forwarded request has the policy's effort
  and temperature 1, no \<open>output_config\<close> and no \<open>context_management\<close>, its own \<open>thinking\<close>, and
  if it streams, usage reports are on.
\<close>

theorem openai_reasoning_normalised:
  assumes "openai_reasoning ctx" "ctx_rule ctx = None"
    "jget body ''reasoning_effort'' \<noteq> None"
    "\<not> is_reasoning_effort_disabled (jget body ''reasoning_effort'') \<or> \<not> sp_can_disable (ctx_policy ctx)"
  shows "jget (stamped_request ctx body) ''reasoning_effort'' = Some (JStr (sp_effort (ctx_policy ctx))) \<and>
    jget (stamped_request ctx body) ''temperature'' = Some (JNum 1) \<and>
    jget (stamped_request ctx body) ''output_config'' = None \<and>
    jget (stamped_request ctx body) ''context_management'' = None \<and>
    jget (stamped_request ctx body) ''thinking'' = jget body ''thinking'' \<and>
    (jget body ''stream'' = Some (JBool True) \<longrightarrow>
      jopt (jget (stamped_request ctx body) ''stream_options'') ''include_usage'' = Some (JBool True))"
proof -
  let ?p = "ctx_policy ctx"
  have oa: "ctx_is_openai ctx" "ctx_reasoning_effort ctx \<noteq> None"
    using assms(1) by (simp_all add: openai_reasoning_def)
  obtain d where d: "body = JObj d" using assms(3) by (cases body) auto
  define inj where "inj = JObj (obj_set d ''reasoning_effort'' (JStr (sp_effort ?p)))"
  define r1 where "r1 = fst (reasoning_fields inj)"
  have g1: "jget r1 k = jget inj k" if "k \<notin> {''output_config'', ''context_management'', ''temperature''}" for k
    using reasoning_fields_frame [OF surjective_pairing, of k inj] that by (simp add: r1_def)
  have n1: "jget r1 ''output_config'' = None" "jget r1 ''context_management'' = None"
    "jget r1 ''temperature'' = Some (JNum 1)"
    using reasoning_fields_result [of inj] by (simp_all add: r1_def inj_def)
  obtain e where e: "r1 = JObj e" using n1(3) by (cases r1) auto
  have s1: "ss_apply OpenAiReasoningStep body ctx = Some (r1, True)"
    using assms(2-4) oa(2) d
    by (auto simp: OpenAiReasoningStep_def stamp_reasoning_def body_policy_def inj_def r1_def Let_def)
  obtain r2 c2 where s2: "ss_apply OpenAiStreamUsageStep r1 ctx = Some (r2, c2)"
    by (cases "ss_apply OpenAiStreamUsageStep r1 ctx") (auto simp: OpenAiStreamUsageStep_def)
  have use: "jget body ''stream'' = Some (JBool True) \<Longrightarrow> jopt (jget r2 ''stream_options'') ''include_usage'' = Some (JBool True)"
    using s2 g1 [of "''stream''"] d by (auto simp: OpenAiStreamUsageStep_def inj_def e split: if_splits)
  have "ss_apply TopKStep r2 ctx \<noteq> None" by (simp add: TopKStep_def)
  then obtain q where "ss_apply TopKStep r2 ctx = Some q" by blast
  then obtain r3 c3 where s3: "run_steps [TopKStep] ctx r2 = Some (r3, c3)"
    by (cases q; cases "ss_applies TopKStep ctx") auto
  have g3: "jget r3 k = jget r2 k" if "k \<noteq> ''top_k''" for k
    using run_steps_frame [of "[TopKStep]" ctx "{''top_k''}" r2 r3 c3] s3 that
      framed_within [OF step_frames(8)] by auto
  have "run_steps STAMP_PIPELINE ctx body = Some (r3, True)"
    using s1 s2 s3 assms(1) unfolding openai_pipeline [OF oa(1) assms(2)]
    by (simp add: OpenAiReasoningStep_def OpenAiStreamUsageStep_def)
  then have "stamped_request ctx body = r3" by (simp add: stamped_request_def)
  moreover have "jget r3 k = jget r1 k" if "k \<notin> {''top_k'', ''stream_options''}" for k
    using that g3 stream_step.frame [OF s2] by simp
  ultimately show ?thesis
    using n1 g1 use g3 by (simp add: inj_def d)
qed

definition openai_ctx :: stamp_context where
  "openai_ctx = demo_ctx\<lparr>ctx_is_openai := True\<rparr>"

theorem openai_reasoning_normalised_witness:
  "jget (stamped_request openai_ctx (JObj [(''model'', JStr ''umans-glm-5''), (''reasoning_effort'', JStr ''low''),
     (''temperature'', JNum 0)])) ''reasoning_effort'' = Some (JStr ''max'')"
proof -
  let ?b = "JObj [(''model'', JStr ''umans-glm-5''), (''reasoning_effort'', JStr ''low''), (''temperature'', JNum 0)]"
  have a: "openai_reasoning openai_ctx" "ctx_rule openai_ctx = None" "ctx_policy openai_ctx = ctx_policy demo_ctx"
    by (simp_all add: openai_reasoning_def openai_ctx_def demo_ctx_def ctx_rule_def ctx_policy_def
        resolve_per_model_rule_def)
  have b: "jget ?b ''reasoning_effort'' \<noteq> None" "\<not> is_reasoning_effort_disabled (jget ?b ''reasoning_effort'')"
    by code_simp+
  show ?thesis
    using openai_reasoning_normalised [OF a(1,2) b(1)] b(2) a(3) by (simp add: demo_policy policy_def)
qed

subsection \<open>The overlay\<close>

lemma starts_with_trans:
  "starts_with s (p @ q) \<Longrightarrow> starts_with s p"
proof -
  assume "starts_with s (p @ q)"
  then have "take (length p) (take (length (p @ q)) s) = take (length p) (p @ q)"
    by (simp only: starts_with_def)
  then show ?thesis by (simp add: starts_with_def)
qed

text \<open>
  Which models cannot switch thinking off. By the overlay these are \<open>umans-coder\<close> and the
  models named \<open>umans-kimi...\<close> except \<open>umans-kimi-k3\<close>; only the \<open>umans-glm...\<close> models get a
  \<open>top_k\<close>; and the large token budget goes with effort \<open>max\<close>.
\<close>

theorem overlay_policies:
  "(\<not> sp_can_disable (match_stamp_overlay m) \<longleftrightarrow>
      m = ''umans-coder'' \<or> (starts_with m ''umans-kimi'' \<and> m \<noteq> ''umans-kimi-k3'')) \<and>
   (sp_top_k (match_stamp_overlay m) \<noteq> None \<longleftrightarrow> starts_with m ''umans-glm'') \<and>
   (sp_effort (match_stamp_overlay m) = ''max'' \<longleftrightarrow> sp_max_tokens (match_stamp_overlay m) = 131071)"
proof -
  have g: "glob_match ''umans-glm*'' m = starts_with m ''umans-glm''" "glob_match ''umans-coder'' m = (m = ''umans-coder'')"
    "glob_match ''umans-flash'' m = (m = ''umans-flash'')"
    "glob_match ''umans-deepseek-v4-flash-0731'' m = (m = ''umans-deepseek-v4-flash-0731'')"
    "glob_match ''umans-kimi-k3'' m = (m = ''umans-kimi-k3'')" "glob_match ''umans-kimi*'' m = starts_with m ''umans-kimi''"
    "glob_match ''umans-qwen*'' m = starts_with m ''umans-qwen''" "glob_match ''*'' m"
    by (simp_all add: glob_match_def ends_with_def)
  have x: "\<not> starts_with ''umans-coder'' ''umans-glm''" "\<not> starts_with ''umans-flash'' ''umans-glm''"
    "\<not> starts_with ''umans-deepseek-v4-flash-0731'' ''umans-glm''" "\<not> starts_with ''umans-kimi-k3'' ''umans-glm''"
    "\<not> starts_with ''umans-coder'' ''umans-kimi''" "\<not> starts_with ''umans-flash'' ''umans-kimi''"
    "\<not> starts_with ''umans-deepseek-v4-flash-0731'' ''umans-kimi''" "starts_with ''umans-kimi-k3'' ''umans-kimi''"
    by (simp_all add: starts_with_def)
  have y: "\<not> (starts_with m ''umans-glm'' \<and> starts_with m ''umans-kimi'')"
    "\<not> (starts_with m ''umans-qwen'' \<and> starts_with m ''umans-kimi'')"
    "\<not> (starts_with m ''umans-qwen'' \<and> starts_with m ''umans-glm'')"
    using starts_with_trans [of m "''umans-g''" "''lm''"] starts_with_trans [of m "''umans-k''" "''imi''"]
      starts_with_trans [of m "''umans-q''" "''wen''"]
    by (auto simp: starts_with_def)
  show ?thesis
    using x y by (auto simp: match_stamp_overlay_def STAMP_OVERLAY_def g policy_def)
qed

end
