(* ===== verification/Config_Values.thy ===== *)
theory Config_Values
  imports Json
begin

text \<open>
  The raw configuration: the values a JSON config file and the process environment hold, the
  conversions of \<open>src/config/env.ts\<close> that read them, and the default config file of
  \<open>src/config/defaults.ts\<close>. A raw config is an object of JSON values; a missing key is \<open>undefined\<close>.
\<close>

subsection \<open>Conversions\<close>

text \<open>
  \<open>Number(v)\<close> for a JSON value. An array converts through its text: none for the empty array,
  that of its element for a singleton (null becomes the empty text, an element true or false is
  no numeral), a text with a comma otherwise.
\<close>

fun js_to_number :: "json \<Rightarrow> jsnum" where
  "js_to_number JNull = Fin 0"
| "js_to_number (JBool b) = Fin (if b then 1 else 0)"
| "js_to_number (JNum r) = Fin r"
| "js_to_number (JInf positive) = (if positive then PInf else NInf)"
| "js_to_number (JStr s) = js_number s"
| "js_to_number (JArr []) = Fin 0"
| "js_to_number (JArr [v]) = (case v of JNull \<Rightarrow> Fin 0 | JBool _ \<Rightarrow> NaN | _ \<Rightarrow> js_to_number v)"
| "js_to_number (JArr (v # v' # vs)) = NaN"
| "js_to_number (JObj _) = NaN"

text \<open>A number as a value; there is no JSON value for NaN.\<close>

fun num_json :: "jsnum \<Rightarrow> json option" where
  "num_json (Fin r) = Some (JNum r)"
| "num_json PInf = Some (JInf True)"
| "num_json NInf = Some (JInf False)"
| "num_json NaN = None"

definition num :: "json option \<Rightarrow> rat \<Rightarrow> jsnum" where
  "num v fallback =
     (case v of
        None \<Rightarrow> Fin fallback
      | Some JNull \<Rightarrow> Fin fallback
      | Some x \<Rightarrow> (if js_to_number x = NaN then Fin fallback else js_to_number x))"

definition str :: "json option \<Rightarrow> string \<Rightarrow> json" where
  "str v fallback = (case v of None \<Rightarrow> JStr fallback | Some JNull \<Rightarrow> JStr fallback | Some x \<Rightarrow> x)"

definition bool :: "json option \<Rightarrow> bool \<Rightarrow> bool" where
  "bool v fallback =
     (case v of
        Some (JBool b) \<Rightarrow> b
      | Some (JStr s) \<Rightarrow> s = ''true'' \<or> s = ''1''
      | Some (JNum r) \<Rightarrow> r \<noteq> 0
      | Some (JInf _) \<Rightarrow> True
      | _ \<Rightarrow> fallback)"

text \<open>\<open>None\<close>: a value that is not a string has no \<open>toLowerCase\<close>, the \<open>TypeError\<close> is not caught.\<close>

definition resolve_upstream_protocol :: "json option \<Rightarrow> string option" where
  "resolve_upstream_protocol raw =
     (case (case raw of None \<Rightarrow> JStr ''http1.1'' | Some JNull \<Rightarrow> JStr ''http1.1'' | Some v \<Rightarrow> v) of
        JStr s \<Rightarrow> Some (if to_lower s = ''http2'' \<or> to_lower s = ''h2'' then ''http2'' else ''http1.1'')
      | _ \<Rightarrow> None)"

definition env_or_raw_num :: "string option \<Rightarrow> json \<Rightarrow> string \<Rightarrow> rat \<Rightarrow> jsnum" where
  "env_or_raw_num envVal raw key fallback =
     (case envVal of
        Some s \<Rightarrow> num (Some (JStr s)) fallback
      | None \<Rightarrow> (case jget raw key of
                   Some (JNum r) \<Rightarrow> Fin r
                 | Some (JInf positive) \<Rightarrow> (if positive then PInf else NInf)
                 | _ \<Rightarrow> Fin fallback))"

definition env_or_raw_bool :: "string option \<Rightarrow> json \<Rightarrow> string \<Rightarrow> bool \<Rightarrow> bool" where
  "env_or_raw_bool envVal raw key fallback =
     (case envVal of
        Some s \<Rightarrow> bool (Some (JStr s)) fallback
      | None \<Rightarrow> (case jget raw key of Some (JBool b) \<Rightarrow> b | _ \<Rightarrow> fallback))"

text \<open>The parsed text of the file, \<open>None\<close> when there is no file or its text is not JSON.\<close>

definition load_json_config :: "json option \<Rightarrow> json" where
  "load_json_config parsed =
     (case parsed of None \<Rightarrow> JObj [] | Some JNull \<Rightarrow> JObj [] | Some v \<Rightarrow> v)"

subsection \<open>The default config\<close>

abbreviation NL :: string where
  "NL \<equiv> [CHR 0x0A]"

definition VISION_PROMPT :: string where
  "VISION_PROMPT =
      ''You are an expert visual analyst with perfect vision and meticulous attention to detail. '' @
      ''Your task is to produce an exhaustive, accurate description of an image for a downstream '' @
      ''text-only language model that cannot see the image.'' @
      NL @
      NL @
      ''Structure your description as:'' @
      NL @
      NL @
      ''1. IMAGE TYPE: What kind of image is this (photograph, screenshot, diagram, chart, '' @
      ''illustration, document scan, UI mockup, etc.)?'' @
      NL @
      NL @
      ''2. OVERALL CONTENT: A comprehensive summary of everything visible.'' @
      NL @
      NL @
      ''3. TEXT/OCR: Transcribe ALL visible text exactly as written, preserving:'' @
      NL @
      ''   - Original spelling, formatting, and hierarchy'' @
      NL @
      ''   - Line breaks and spatial layout'' @
      NL @
      ''   - Numbers, codes, identifiers, and labels'' @
      NL @
      ''   - Captions, watermarks, signatures'' @
      NL @
      ''   If text is partially visible, transcribe what you can and mark gaps with [...].'' @
      NL @
      NL @
      ''4. VISUAL ELEMENTS: Describe in detail:'' @
      NL @
      ''   - Objects, people, and their positions/relationships'' @
      NL @
      ''   - Colors, shapes, textures'' @
      NL @
      ''   - Spatial layout and composition'' @
      NL @
      ''   - UI elements (buttons, menus, fields, tabs) if a screenshot'' @
      NL @
      NL @
      ''5. DATA/CHARTS: If charts, tables, or data visualizations are present:'' @
      NL @
      ''   - Chart type and axes'' @
      NL @
      ''   - Data values, ranges, and trends'' @
      NL @
      ''   - Table structure and cell contents'' @
      NL @
      NL @
      ''6. CONTEXTUAL CLUES: Date/time indicators, language, cultural context, technical domain '' @
      ''indicators.'' @
      NL @
      NL @
      ''7. QUALITY NOTES: Any blur, artifacts, obstructions, or ambiguity.'' @
      NL @
      NL @
      ''Rules:'' @
      NL @
      ''- Describe what is VISIBLE, not what you infer.'' @
      NL @
      ''- Be exhaustive: omit nothing visible. When in doubt, include it.'' @
      NL @
      ''- For uncertain elements, state your uncertainty rather than guessing.'' @
      NL @
      ''- Do not summarize or abbreviate.'' @
      NL @
      ''- Output only the description, no preamble.''"

definition DEFAULT_RULES :: json where
  "DEFAULT_RULES =
     JArr [JObj [(''pattern'', JStr ''umans-deepseek-v4-flash-0731''),
                 (''anthropic_thinking_shape'', JObj [(''type'', JStr ''enabled'')]),
                 (''openai_thinking_shape'', JObj [(''type'', JStr ''enabled'')]),
                 (''force_thinking_when_absent'', JBool True)]]"

definition DEFAULT_CONFIG :: "json obj" where
  "DEFAULT_CONFIG =
     [(''port'', JNum 1945), (''max_captures'', JNum 200), (''db_path'', JStr ''./umans-gate.db''),
      (''idle_timeout'', JNum 255), (''upstream_protocol'', JStr ''http1.1''),
      (''stamp_claude_code_enabled'', JBool True), (''stamp_model_rules'', DEFAULT_RULES),
      (''stamp_reasoning_effort_enabled'', JBool True), (''warmer_enabled'', JBool True),
      (''warmer_interval_ms'', JNum 20000), (''umans_api_key'', JStr []), (''dashboard_token'', JStr []),
      (''usage_refresh_ms'', JNum 60000), (''usage_history_enabled'', JBool True),
      (''usage_raw_retention_days'', JNum 7), (''usage_gap_threshold_minutes'', JNum 60),
      (''usage_idle_session_timeout_minutes'', JNum 5), (''models_refresh_ms'', JNum 3600000),
      (''concurrency_hard_cap'', JNum 16), (''concurrency_soft_limit'', JNum 8),
      (''use_hard_cap'', JBool True), (''rate_limit_requests'', JNum 0),
      (''request_use_hard_cap'', JBool True), (''request_hard_cap'', JNum 1000),
      (''request_soft_limit'', JNum 500), (''request_rate_margin'', JNum 50),
      (''never_limit_requests'', JBool True), (''queue_timeout_ms'', JNum 180000),
      (''max_queue_depth'', JNum 256), (''release_cooldown_ms'', JNum 1000),
      (''breaker_threshold'', JNum 5), (''breaker_window_ms'', JNum 300000),
      (''breaker_cooldown_ms'', JNum 60000), (''vision_strategy'', JStr ''never''),
      (''vision_model'', JStr ''umans-flash''), (''vision_prompt'', JStr VISION_PROMPT),
      (''vision_prompt_version'', JNum 2), (''vision_max_images'', JNum 20),
      (''vision_max_description_tokens'', JNum 4096), (''vision_reasoning_effort'', JStr ''none''),
      (''vision_timeout_ms'', JNum 0), (''vision_cache_size'', JNum 1000),
      (''vision_cache_ttl_ms'', JNum 604800000), (''vision_cache_max_rows'', JNum 10000),
      (''vision_persistent_cache'', JBool True), (''vision_concurrency'', JNum 4),
      (''vision_max_dimension'', JNum 2048), (''vision_jpeg_quality'', JNum 92),
      (''vision_image_format'', JStr ''png''), (''vision_image_detail'', JStr ''high''),
      (''vision_intent_strategy'', JStr ''auto''), (''vision_decomposition_enabled'', JBool True),
      (''vision_decomposition_timeout_ms'', JNum 3000), (''vision_crafting_timeout_ms'', JNum 3000),
      (''vision_adjacent_text_max_chars'', JNum 500), (''vision_recent_messages_count'', JNum 6),
      (''vision_system_prompt_max_chars'', JNum 1000), (''concurrency_main_reservation'', JNum 1),
      (''concurrency_vision_reservation'', JNum 1), (''capture_body_max_bytes'', JNum 10000000),
      (''queue_max_depth'', JNum 100), (''ws_backpressure_limit'', JNum 1048576),
      (''ws_close_on_backpressure_limit'', JBool True), (''vision_pending_max_batch'', JNum 50),
      (''compression_enabled'', JBool True), (''upstream_timeout_ms'', JNum 1800000),
      (''experiment_rewrite_ids'', JBool True), (''experiment_rewrite_ttl_ms'', JNum 3600000),
      (''experiment_strip_omo_reminder'', JBool True), (''experiment_ttft_watchdog'', JBool True),
      (''ttft_timeout_ms'', JNum 60000), (''ttft_retry_max_attempts'', JNum 3),
      (''ttft_retry_gate_saturation_pct'', JNum 80), (''ttft_retry_cooldown_ms'', JNum 5000),
      (''ttft_watchdog_multiplier'', JNum 5), (''ttft_watchdog_hard_cap_ms'', JNum 300000),
      (''performance_sample_count'', JNum 200), (''incident_retention_days'', JNum 30)]"

text \<open>\<open>Object.keys(DEFAULT_CONFIG)\<close>: the keys a config may have.\<close>

definition KNOWN_KEYS :: "string list" where
  "KNOWN_KEYS = obj_keys DEFAULT_CONFIG"

end
