(* ===== verification/Config_Loader.thy ===== *)
theory Config_Loader
  imports Config_Values Semaphore
begin

text \<open>
  The loader of \<open>src/config/loader.ts\<close>: environment over config file over defaults. The loaded
  config is an object of settings; a setting is a number, a boolean or another value, taken as it
  is found. The loader checks nothing beyond the conversions. \<open>None\<close> is the uncaught
  \<open>TypeError\<close> of a protocol that is not a string.
\<close>

subsection \<open>Constants\<close>

definition UPSTREAM_TARGET :: string where
  "UPSTREAM_TARGET = ''https://api.code.umans.ai''"

definition OPENAI_CHAT_PATH :: string where
  "OPENAI_CHAT_PATH = ''chat/completions''"

definition WARMER_PATH :: string where
  "WARMER_PATH = ''/v1/models''"

definition VISION_TARGET_PATH :: string where
  "VISION_TARGET_PATH = ''/v1/chat/completions''"

definition STAMP_REASONING_EFFORT_VALUE :: string where
  "STAMP_REASONING_EFFORT_VALUE = ''high''"

subsection \<open>Settings\<close>

datatype setting = SNum jsnum | SBool bool | SVal json

text \<open>\<open>env.VAR ?? raw.key\<close>, and \<open>v ?? d\<close>\<close>

definition env_or :: "(string \<times> string) list \<Rightarrow> json \<Rightarrow> string \<Rightarrow> string \<Rightarrow> json option" where
  "env_or env raw var key = (case obj_get env var of Some s \<Rightarrow> Some (JStr s) | None \<Rightarrow> jget raw key)"

definition coalesce :: "json option \<Rightarrow> json \<Rightarrow> json" where
  "coalesce v d = (case v of None \<Rightarrow> d | Some JNull \<Rightarrow> d | Some x \<Rightarrow> x)"

text \<open>\<open>DEFAULT_CONFIG.key ?? d\<close> for a number, a boolean and a text.\<close>

definition default_num :: "string \<Rightarrow> rat \<Rightarrow> rat" where
  "default_num key d = (case obj_get DEFAULT_CONFIG key of Some (JNum r) \<Rightarrow> r | _ \<Rightarrow> d)"

definition default_bool :: "string \<Rightarrow> bool \<Rightarrow> bool" where
  "default_bool key d = (case obj_get DEFAULT_CONFIG key of Some (JBool b) \<Rightarrow> b | _ \<Rightarrow> d)"

definition default_text :: "string \<Rightarrow> string \<Rightarrow> string" where
  "default_text key d = (case obj_get DEFAULT_CONFIG key of Some (JStr s) \<Rightarrow> s | _ \<Rightarrow> d)"

text \<open>\<open>env.VAR !== undefined ? env.VAR !== "false" && env.VAR !== "0" : raw.key !== false\<close>\<close>

definition unless_false :: "(string \<times> string) list \<Rightarrow> json \<Rightarrow> string \<Rightarrow> string \<Rightarrow> bool" where
  "unless_false env raw var key =
     (case obj_get env var of
        Some s \<Rightarrow> s \<noteq> ''false'' \<and> s \<noteq> ''0''
      | None \<Rightarrow> jget raw key \<noteq> Some (JBool False))"

definition strip_slashes :: "string \<Rightarrow> string" where
  "strip_slashes s = rev (dropWhile (\<lambda>c. c = CHR ''/'') (rev s))"

text \<open>\<open>Math.min\<close> and \<open>Math.max\<close>\<close>

definition js_min :: "jsnum \<Rightarrow> jsnum \<Rightarrow> jsnum" where
  "js_min x y = (if x = NaN \<or> y = NaN then NaN else if js_le x y then x else y)"

definition js_max :: "jsnum \<Rightarrow> jsnum \<Rightarrow> jsnum" where
  "js_max x y = (if x = NaN \<or> y = NaN then NaN else if js_le x y then y else x)"

definition vision_strategy :: "(string \<times> string) list \<Rightarrow> json \<Rightarrow> json" where
  "vision_strategy env raw = str (env_or env raw ''VISION_STRATEGY'' ''vision_strategy'') ''never''"

text \<open>An entry keeps the fields that are set, under the loader's names.\<close>

definition renamed :: "json \<Rightarrow> (string \<times> string) list \<Rightarrow> json" where
  "renamed r names =
     JObj (concat (map (\<lambda>(old, new). case jget r old of None \<Rightarrow> [] | Some v \<Rightarrow> [(new, v)]) names))"

definition parse_stamp_model_rules :: "json option \<Rightarrow> json list" where
  "parse_stamp_model_rules raw =
     (case raw of
        Some (JArr rs) \<Rightarrow>
          map (\<lambda>r. renamed r
                 [(''pattern'', ''pattern''), (''anthropic_thinking_shape'', ''anthropicThinkingShape''),
                  (''openai_thinking_shape'', ''openaiThinkingShape''),
                  (''openai_extra_body'', ''openaiExtraBody''),
                  (''openai_veto_reasoning_effort'', ''openaiVetoReasoningEffort''),
                  (''force_thinking_when_absent'', ''forceThinkingWhenAbsent'')])
            (filter (\<lambda>r. case jget r ''pattern'' of Some (JStr s) \<Rightarrow> s \<noteq> [] | _ \<Rightarrow> False) rs)
      | _ \<Rightarrow> [])"

text \<open>What the startup banner looks at: stamping on without the user having set it.\<close>

definition stamping_implicitly_enabled :: "(string \<times> string) list \<Rightarrow> json \<Rightarrow> bool \<times> bool" where
  "stamping_implicitly_enabled env raw =
     (obj_get env ''STAMP_CLAUDE_CODE_ENABLED'' = None \<and> jget raw ''stamp_claude_code_enabled'' = None,
      obj_get env ''STAMP_REASONING_EFFORT_ENABLED'' = None \<and>
        jget raw ''stamp_reasoning_effort_enabled'' = None)"

subsection \<open>Loading\<close>

definition load_server :: "string \<Rightarrow> (string \<times> string) list \<Rightarrow> json \<Rightarrow> setting obj" where
  "load_server protocol env raw =
     [(''port'', SNum (num (env_or env raw ''PORT'' ''port'') 1945)),
      (''host'', SVal (JStr ''127.0.0.1'')),
      (''target'', SVal (JStr (strip_slashes (case obj_get env ''TARGET'' of None \<Rightarrow> UPSTREAM_TARGET | Some t \<Rightarrow> t)))),
      (''maxCaptures'', SNum (num (env_or env raw ''MAX_CAPTURES'' ''max_captures'') 200)),
      (''dbPath'', SVal (str (env_or env raw ''DB_PATH'' ''db_path'') ''./umans-gate.db'')),
      (''idleTimeout'', SNum (js_min (num (env_or env raw ''IDLE_TIMEOUT'' ''idle_timeout'') 255) (Fin 255))),
      (''upstreamProtocol'', SVal (JStr protocol)),
      (''stampClaudeCode'', SBool (bool (env_or env raw ''STAMP_CLAUDE_CODE_ENABLED'' ''stamp_claude_code_enabled'') True)),
      (''stampModelRules'', SVal (JArr (parse_stamp_model_rules (jget raw ''stamp_model_rules'')))),
      (''stampReasoningEffort'', SVal (if bool (env_or env raw ''STAMP_REASONING_EFFORT_ENABLED'' ''stamp_reasoning_effort_enabled'') True
        then JStr STAMP_REASONING_EFFORT_VALUE else JNull)),
      (''openaiPath'', SVal (JStr OPENAI_CHAT_PATH)),
      (''warmerEnabled'', SBool (unless_false env raw ''WARMER_ENABLED'' ''warmer_enabled'')),
      (''warmerIntervalMs'', SNum (num (env_or env raw ''WARMER_INTERVAL_MS'' ''warmer_interval_ms'') 20000)),
      (''warmerPath'', SVal (JStr WARMER_PATH)),
      (''umansApiKey'', SVal (coalesce (env_or env raw ''UMANS_API_KEY'' ''umans_api_key'') JNull)),
      (''dashboardToken'', SVal (coalesce (env_or env raw ''DASHBOARD_TOKEN'' ''dashboard_token'') JNull)),
      (''usageRefreshMs'', SNum (num (env_or env raw ''USAGE_REFRESH_MS'' ''usage_refresh_ms'') 60000))]"

definition load_usage :: "(string \<times> string) list \<Rightarrow> json \<Rightarrow> setting obj" where
  "load_usage env raw =
     [(''usageHistoryEnabled'', SBool (env_or_raw_bool (obj_get env ''USAGE_HISTORY_ENABLED'') raw ''usage_history_enabled'' (default_bool ''usage_history_enabled'' True))),
      (''usageRawRetentionDays'', SNum (num (env_or env raw ''USAGE_RAW_RETENTION_DAYS'' ''usage_raw_retention_days'') (default_num ''usage_raw_retention_days'' 7))),
      (''usageGapThresholdMinutes'', SNum (num (env_or env raw ''USAGE_GAP_THRESHOLD_MINUTES'' ''usage_gap_threshold_minutes'') (default_num ''usage_gap_threshold_minutes'' 60))),
      (''usageIdleSessionTimeoutMinutes'', SNum (num (env_or env raw ''USAGE_IDLE_SESSION_TIMEOUT_MINUTES'' ''usage_idle_session_timeout_minutes'') (default_num ''usage_idle_session_timeout_minutes'' 5))),
      (''modelsRefreshMs'', SNum (num (env_or env raw ''MODELS_REFRESH_MS'' ''models_refresh_ms'') 3600000))]"

definition load_gate :: "(string \<times> string) list \<Rightarrow> json \<Rightarrow> setting obj" where
  "load_gate env raw =
     [(''concurrencyHardCap'', SNum (num (env_or env raw ''CONCURRENCY_HARD_CAP'' ''concurrency_hard_cap'') 16)),
      (''concurrencySoftLimit'', SNum (num (env_or env raw ''CONCURRENCY_SOFT_LIMIT'' ''concurrency_soft_limit'') 8)),
      (''useHardCap'', SBool (bool (env_or env raw ''USE_HARD_CAP'' ''use_hard_cap'') True)),
      (''rateLimitRequests'', SNum (num (env_or env raw ''RATE_LIMIT_REQUESTS'' ''rate_limit_requests'') 0)),
      (''requestHardCap'', SNum (num (env_or env raw ''REQUEST_HARD_CAP'' ''request_hard_cap'') 1000)),
      (''requestSoftLimit'', SNum (num (env_or env raw ''REQUEST_SOFT_LIMIT'' ''request_soft_limit'') 500)),
      (''requestUseHardCap'', SBool (bool (env_or env raw ''REQUEST_USE_HARD_CAP'' ''request_use_hard_cap'') True)),
      (''neverLimitRequests'', SBool (bool (env_or env raw ''NEVER_LIMIT_REQUESTS'' ''never_limit_requests'') True)),
      (''requestRateMargin'', SNum (num (env_or env raw ''REQUEST_RATE_MARGIN'' ''request_rate_margin'') 50)),
      (''queueTimeoutMs'', SNum (num (env_or env raw ''QUEUE_TIMEOUT_MS'' ''queue_timeout_ms'') 180000)),
      (''maxQueueDepth'', SNum (num (env_or env raw ''MAX_QUEUE_DEPTH'' ''max_queue_depth'') 256)),
      (''releaseCooldownMs'', SNum (num (env_or env raw ''RELEASE_COOLDOWN_MS'' ''release_cooldown_ms'') 1000)),
      (''breakerThreshold'', SNum (num (env_or env raw ''BREAKER_THRESHOLD'' ''breaker_threshold'') 5)),
      (''breakerWindowMs'', SNum (num (env_or env raw ''BREAKER_WINDOW_MS'' ''breaker_window_ms'') 300000)),
      (''breakerCooldownMs'', SNum (num (env_or env raw ''BREAKER_COOLDOWN_MS'' ''breaker_cooldown_ms'') 60000))]"

definition load_vision :: "(string \<times> string) list \<Rightarrow> json \<Rightarrow> setting obj" where
  "load_vision env raw =
     [(''visionStrategy'', SVal (vision_strategy env raw)),
      (''visionTarget'', SVal (case obj_get env ''VISION_TARGET'' of Some t \<Rightarrow> JStr t
        | None \<Rightarrow> JStr (strip_slashes UPSTREAM_TARGET @ VISION_TARGET_PATH))),
      (''visionModel'', SVal (coalesce (env_or env raw ''VISION_MODEL'' ''vision_model'') (JStr ''umans-flash''))),
      (''visionPrompt'', SVal (str (env_or env raw ''VISION_PROMPT'' ''vision_prompt'')
        (default_text ''vision_prompt'' ''Describe this image concisely.''))),
      (''visionPromptVersion'', SNum (num (env_or env raw ''VISION_PROMPT_VERSION'' ''vision_prompt_version'') 2)),
      (''visionMaxImages'', SNum (num (env_or env raw ''VISION_MAX_IMAGES'' ''vision_max_images'') 20)),
      (''visionMaxDescriptionTokens'', SNum (num (env_or env raw ''VISION_MAX_DESCRIPTION_TOKENS'' ''vision_max_description_tokens'') 4096)),
      (''visionReasoningEffort'', SVal (coalesce (env_or env raw ''VISION_REASONING_EFFORT'' ''vision_reasoning_effort'') JNull)),
      (''visionTimeoutMs'', SNum (num (env_or env raw ''VISION_TIMEOUT_MS'' ''vision_timeout_ms'') 0)),
      (''visionCacheSize'', SNum (num (env_or env raw ''VISION_CACHE_SIZE'' ''vision_cache_size'') 1000)),
      (''visionCacheTtlMs'', SNum (num (env_or env raw ''VISION_CACHE_TTL_MS'' ''vision_cache_ttl_ms'') 604800000)),
      (''visionCacheMaxRows'', SNum (num (env_or env raw ''VISION_CACHE_MAX_ROWS'' ''vision_cache_max_rows'') 10000)),
      (''visionPersistentCache'', SBool (unless_false env raw ''VISION_PERSISTENT_CACHE'' ''vision_persistent_cache'')),
      (''visionConcurrency'', SNum (num (env_or env raw ''VISION_CONCURRENCY'' ''vision_concurrency'') 4)),
      (''visionMaxDimension'', SNum (num (env_or env raw ''VISION_MAX_DIMENSION'' ''vision_max_dimension'') 2048)),
      (''visionJpegQuality'', SNum (num (env_or env raw ''VISION_JPEG_QUALITY'' ''vision_jpeg_quality'') 92)),
      (''visionImageFormat'', SVal (coalesce (env_or env raw ''VISION_IMAGE_FORMAT'' ''vision_image_format'') (JStr ''png''))),
      (''visionImageDetail'', SVal (coalesce (env_or env raw ''VISION_IMAGE_DETAIL'' ''vision_image_detail'') (JStr ''high''))),
      (''visionIntentStrategy'', SVal (coalesce (env_or env raw ''VISION_INTENT_STRATEGY'' ''vision_intent_strategy'') (JStr ''auto'')))]"

definition load_vision_intent :: "(string \<times> string) list \<Rightarrow> json \<Rightarrow> setting obj" where
  "load_vision_intent env raw =
     [(''visionDecompositionEnabled'', SBool (env_or_raw_bool (obj_get env ''VISION_DECOMPOSITION_ENABLED'') raw ''vision_decomposition_enabled'' (default_bool ''vision_decomposition_enabled'' True))),
      (''visionDecompositionTimeoutMs'', SNum (env_or_raw_num (obj_get env ''VISION_DECOMPOSITION_TIMEOUT_MS'') raw ''vision_decomposition_timeout_ms'' (default_num ''vision_decomposition_timeout_ms'' 3000))),
      (''visionCraftingTimeoutMs'', SNum (env_or_raw_num (obj_get env ''VISION_CRAFTING_TIMEOUT_MS'') raw ''vision_crafting_timeout_ms'' (default_num ''vision_crafting_timeout_ms'' 3000))),
      (''visionAdjacentTextMaxChars'', SNum (env_or_raw_num (obj_get env ''VISION_ADJACENT_TEXT_MAX_CHARS'') raw ''vision_adjacent_text_max_chars'' (default_num ''vision_adjacent_text_max_chars'' 500))),
      (''visionRecentMessagesCount'', SNum (env_or_raw_num (obj_get env ''VISION_RECENT_MESSAGES_COUNT'') raw ''vision_recent_messages_count'' (default_num ''vision_recent_messages_count'' 6))),
      (''visionSystemPromptMaxChars'', SNum (env_or_raw_num (obj_get env ''VISION_SYSTEM_PROMPT_MAX_CHARS'') raw ''vision_system_prompt_max_chars'' (default_num ''vision_system_prompt_max_chars'' 1000))),
      (''backgroundVision'', SBool (vision_strategy env raw = JStr ''catalog'')),
      (''concurrencyMainReservation'', SNum (num (env_or env raw ''CONCURRENCY_MAIN_RESERVATION'' ''concurrency_main_reservation'') 1)),
      (''concurrencyVisionReservation'', SNum (if vision_strategy env raw = JStr ''never'' then Fin 0
        else js_max (Fin 1) (num (env_or env raw ''CONCURRENCY_VISION_RESERVATION'' ''concurrency_vision_reservation'') 1))),
      (''visionForceInterceptCapable'', SBool (vision_strategy env raw = JStr ''always''))]"

definition load_relay :: "(string \<times> string) list \<Rightarrow> json \<Rightarrow> setting obj" where
  "load_relay env raw =
     [(''captureBodyMaxBytes'', SNum (env_or_raw_num (obj_get env ''CAPTURE_BODY_MAX_BYTES'') raw ''capture_body_max_bytes'' (default_num ''capture_body_max_bytes'' 1000000))),
      (''queueMaxDepth'', SNum (env_or_raw_num (obj_get env ''QUEUE_MAX_DEPTH'') raw ''queue_max_depth'' (default_num ''queue_max_depth'' 100))),
      (''wsBackpressureLimit'', SNum (env_or_raw_num (obj_get env ''WS_BACKPRESSURE_LIMIT'') raw ''ws_backpressure_limit'' (default_num ''ws_backpressure_limit'' 1048576))),
      (''wsCloseOnBackpressureLimit'', SBool (env_or_raw_bool (obj_get env ''WS_CLOSE_ON_BACKPRESSURE_LIMIT'') raw ''ws_close_on_backpressure_limit'' (default_bool ''ws_close_on_backpressure_limit'' True))),
      (''visionPendingMaxBatch'', SNum (env_or_raw_num (obj_get env ''VISION_PENDING_MAX_BATCH'') raw ''vision_pending_max_batch'' (default_num ''vision_pending_max_batch'' 50))),
      (''compressionEnabled'', SBool (env_or_raw_bool (obj_get env ''COMPRESSION_ENABLED'') raw ''compression_enabled'' (default_bool ''compression_enabled'' True))),
      (''useWriteWorker'', SBool False),
      (''upstreamTimeoutMs'', SNum (env_or_raw_num (obj_get env ''UPSTREAM_TIMEOUT_MS'') raw ''upstream_timeout_ms'' (default_num ''upstream_timeout_ms'' 300000)))]"

definition load_experiments :: "(string \<times> string) list \<Rightarrow> json \<Rightarrow> setting obj" where
  "load_experiments env raw =
     [(''experimentRewriteIds'', SBool (env_or_raw_bool (obj_get env ''EXPERIMENT_REWRITE_IDS'') raw ''experiment_rewrite_ids'' (default_bool ''experiment_rewrite_ids'' True))),
      (''experimentRewriteTtlMs'', SNum (env_or_raw_num (obj_get env ''EXPERIMENT_REWRITE_TTL_MS'') raw ''experiment_rewrite_ttl_ms'' (default_num ''experiment_rewrite_ttl_ms'' 3600000))),
      (''experimentStripOmoReminder'', SBool (env_or_raw_bool (obj_get env ''EXPERIMENT_STRIP_OMO_REMINDER'') raw ''experiment_strip_omo_reminder'' (default_bool ''experiment_strip_omo_reminder'' True))),
      (''experimentTtftWatchdog'', SBool (env_or_raw_bool (obj_get env ''EXPERIMENT_TTFT_WATCHDOG'') raw ''experiment_ttft_watchdog'' (default_bool ''experiment_ttft_watchdog'' True))),
      (''ttftTimeoutMs'', SNum (env_or_raw_num (obj_get env ''TTFT_TIMEOUT_MS'') raw ''ttft_timeout_ms'' (default_num ''ttft_timeout_ms'' 60000))),
      (''ttftRetryMaxAttempts'', SNum (env_or_raw_num (obj_get env ''TTFT_RETRY_MAX_ATTEMPTS'') raw ''ttft_retry_max_attempts'' (default_num ''ttft_retry_max_attempts'' 2))),
      (''ttftRetryGateSaturationPct'', SNum (env_or_raw_num (obj_get env ''TTFT_RETRY_GATE_SATURATION_PCT'') raw ''ttft_retry_gate_saturation_pct'' (default_num ''ttft_retry_gate_saturation_pct'' 80))),
      (''ttftRetryCooldownMs'', SNum (env_or_raw_num (obj_get env ''TTFT_RETRY_COOLDOWN_MS'') raw ''ttft_retry_cooldown_ms'' (default_num ''ttft_retry_cooldown_ms'' 5000))),
      (''ttftWatchdogMultiplier'', SNum (env_or_raw_num (obj_get env ''TTFT_WATCHDOG_MULTIPLIER'') raw ''ttft_watchdog_multiplier'' (default_num ''ttft_watchdog_multiplier'' 5))),
      (''ttftWatchdogHardCapMs'', SNum (env_or_raw_num (obj_get env ''TTFT_WATCHDOG_HARD_CAP_MS'') raw ''ttft_watchdog_hard_cap_ms'' (default_num ''ttft_watchdog_hard_cap_ms'' 300000))),
      (''performanceSampleCount'', SNum (env_or_raw_num (obj_get env ''PERFORMANCE_SAMPLE_COUNT'') raw ''performance_sample_count'' (default_num ''performance_sample_count'' 200))),
      (''incidentRetentionDays'', SNum (env_or_raw_num (obj_get env ''INCIDENT_RETENTION_DAYS'') raw ''incident_retention_days'' (default_num ''incident_retention_days'' 30)))]"

definition load_config :: "(string \<times> string) list \<Rightarrow> json \<Rightarrow> setting obj option" where
  "load_config env raw =
     (case resolve_upstream_protocol (env_or env raw ''UPSTREAM_PROTOCOL'' ''upstream_protocol'') of
        None \<Rightarrow> None
      | Some protocol \<Rightarrow> Some
          (load_server protocol env raw @ load_usage env raw @ load_gate env raw @ load_vision env raw @
           load_vision_intent env raw @ load_relay env raw @ load_experiments env raw @
           [(''viewerPrefix'', SVal (JStr ''/dashboard'')), (''flushIntervalMs'', SNum (Fin 50)),
            (''flushBatch'', SNum (Fin 25)), (''incomingProtocol'', SVal (JStr ''http1.1''))]))"

subsection \<open>The gate's options\<close>

text \<open>
  \<open>gateOptionsFromConfig\<close> copies ten settings. The gate's model has finite limits and whole
  millisecond and count fields; for other settings there are no options in the model.
\<close>

definition finite_setting :: "setting obj \<Rightarrow> string \<Rightarrow> rat option" where
  "finite_setting cfg f = (case obj_get cfg f of Some (SNum (Fin r)) \<Rightarrow> Some r | _ \<Rightarrow> None)"

definition whole_setting :: "setting obj \<Rightarrow> string \<Rightarrow> int option" where
  "whole_setting cfg f =
     (case finite_setting cfg f of Some r \<Rightarrow> if of_int \<lfloor>r\<rfloor> = r then Some \<lfloor>r\<rfloor> else None | None \<Rightarrow> None)"

definition gate_options_from_config :: "setting obj \<Rightarrow> gate_options option" where
  "gate_options_from_config cfg =
     (case (finite_setting cfg ''concurrencyHardCap'', finite_setting cfg ''concurrencySoftLimit'',
            whole_setting cfg ''releaseCooldownMs'', whole_setting cfg ''breakerThreshold'',
            whole_setting cfg ''breakerWindowMs'', whole_setting cfg ''breakerCooldownMs'',
            whole_setting cfg ''maxQueueDepth'', whole_setting cfg ''queueTimeoutMs'',
            finite_setting cfg ''concurrencyMainReservation'',
            finite_setting cfg ''concurrencyVisionReservation'') of
        (Some hardCap, Some softLimit, Some releaseCooldownMs, Some breakerThreshold,
         Some breakerWindowMs, Some breakerCooldownMs, Some maxQueueDepth, Some queueTimeoutMs,
         Some mainReservation, Some visionReservation) \<Rightarrow> Some
          \<lparr>o_hard_cap = hardCap, o_soft_limit = softLimit, o_release_cooldown_ms = releaseCooldownMs,
           o_breaker_threshold = breakerThreshold, o_breaker_window_ms = breakerWindowMs,
           o_breaker_cooldown_ms = breakerCooldownMs, o_max_queue_depth = maxQueueDepth,
           o_queue_timeout_ms = queueTimeoutMs,
           o_intentions = Some [(''main'', mainReservation), (''vision'', visionReservation)]\<rparr>
      | _ \<Rightarrow> None)"

end
