(* ===== verification/Config_Validation.thy ===== *)
theory Config_Validation
  imports Config_Values
begin

text \<open>
  Validation of a raw config (\<open>src/config/validation.ts\<close>) and saving it (\<open>src/config/file.ts\<close>). A
  field rule maps the config with the defaults filled in to its error messages; the config is
  accepted when no rule reports one. Two warnings have a dash outside ASCII, written \<open>--\<close> here.
  The number in the two messages about reservations is printed in full, which
  JavaScript does below 10^21.
\<close>

subsection \<open>Coercion\<close>

definition INT_FIELDS :: "string list" where
  "INT_FIELDS =
     [''port'', ''max_captures'', ''idle_timeout'', ''warmer_interval_ms'', ''usage_refresh_ms'',
      ''models_refresh_ms'', ''usage_raw_retention_days'', ''usage_gap_threshold_minutes'',
      ''usage_idle_session_timeout_minutes'', ''concurrency_hard_cap'', ''concurrency_soft_limit'',
      ''rate_limit_requests'', ''request_rate_margin'', ''queue_timeout_ms'', ''max_queue_depth'',
      ''release_cooldown_ms'', ''breaker_threshold'', ''breaker_window_ms'', ''breaker_cooldown_ms'',
      ''vision_prompt_version'', ''vision_max_images'', ''vision_max_description_tokens'',
      ''vision_timeout_ms'', ''vision_cache_size'', ''vision_cache_ttl_ms'', ''vision_cache_max_rows'',
      ''vision_max_dimension'', ''vision_jpeg_quality'', ''vision_concurrency'',
      ''concurrency_main_reservation'', ''concurrency_vision_reservation'', ''capture_body_max_bytes'',
      ''queue_max_depth'', ''ws_backpressure_limit'', ''vision_pending_max_batch'', ''upstream_timeout_ms'',
      ''ttft_timeout_ms'', ''ttft_retry_max_attempts'', ''ttft_retry_gate_saturation_pct'',
      ''ttft_retry_cooldown_ms'', ''ttft_watchdog_multiplier'', ''ttft_watchdog_hard_cap_ms'',
      ''vision_decomposition_timeout_ms'', ''vision_crafting_timeout_ms'',
      ''vision_adjacent_text_max_chars'', ''vision_recent_messages_count'',
      ''vision_system_prompt_max_chars'', ''incident_retention_days'']"

text \<open>A numeric text becomes the number; other values, the empty text included, stay.\<close>

definition coerce_value :: "json \<Rightarrow> json" where
  "coerce_value v =
     (case v of
        JStr s \<Rightarrow> (if s = [] then v else case num_json (js_number s) of None \<Rightarrow> v | Some n \<Rightarrow> n)
      | _ \<Rightarrow> v)"

fun coerce_fields :: "string list \<Rightarrow> json obj \<Rightarrow> json obj" where
  "coerce_fields [] out = out"
| "coerce_fields (k # ks) out =
     coerce_fields ks (case obj_get out k of None \<Rightarrow> out | Some v \<Rightarrow> obj_set out k (coerce_value v))"

definition coerce_raw_for_validation :: "json obj \<Rightarrow> json obj" where
  "coerce_raw_for_validation raw =
     coerce_fields INT_FIELDS (filter (\<lambda>(k, _). k \<in> set KNOWN_KEYS) raw)"

subsection \<open>Field rules\<close>

record field_rule =
  fr_name :: string
  fr_errors :: "json obj \<Rightarrow> string list"

definition field_rule :: "string \<Rightarrow> (json \<Rightarrow> bool) \<Rightarrow> string \<Rightarrow> field_rule" where
  "field_rule name bad msg =
     \<lparr>fr_name = name,
      fr_errors = (\<lambda>n. case obj_get n name of None \<Rightarrow> [] | Some v \<Rightarrow> if bad v then [msg] else [])\<rparr>"

text \<open>\<open>!Number.isInteger(v) || v < lo || v > hi\<close>\<close>

definition is_integer :: "json \<Rightarrow> bool" where
  "is_integer v = (case v of JNum r \<Rightarrow> of_int \<lfloor>r\<rfloor> = r | _ \<Rightarrow> False)"

definition not_int_in :: "rat \<Rightarrow> rat option \<Rightarrow> json \<Rightarrow> bool" where
  "not_int_in lo hi v =
     (case v of
        JNum r \<Rightarrow> of_int \<lfloor>r\<rfloor> \<noteq> r \<or> r < lo \<or> (case hi of None \<Rightarrow> False | Some h \<Rightarrow> h < r)
      | _ \<Rightarrow> True)"

definition or_null :: "(json \<Rightarrow> bool) \<Rightarrow> json \<Rightarrow> bool" where
  "or_null bad v = (v \<noteq> JNull \<and> bad v)"

definition not_text :: "json \<Rightarrow> bool" where
  "not_text v = (case v of JStr _ \<Rightarrow> False | _ \<Rightarrow> True)"

definition empty_or_not_text :: "json \<Rightarrow> bool" where
  "empty_or_not_text v = (case v of JStr s \<Rightarrow> s = [] | _ \<Rightarrow> True)"

definition not_one_of :: "string list \<Rightarrow> json \<Rightarrow> bool" where
  "not_one_of names v = (case v of JStr s \<Rightarrow> s \<notin> set names | _ \<Rightarrow> True)"

definition not_bool :: "json \<Rightarrow> bool" where
  "not_bool v = (case v of JBool _ \<Rightarrow> False | _ \<Rightarrow> True)"

definition bool_rule :: "string \<Rightarrow> field_rule" where
  "bool_rule name = field_rule name not_bool (name @ '' must be a boolean'')"

definition quoted :: "string \<Rightarrow> string" where
  "quoted s = [CHR 0x27] @ s @ [CHR 0x27]"

text \<open>
  The text \<open>String(v)\<close> when it may be a protocol name: that of a string, or of a singleton array
  of one. Null, booleans, numbers, objects and longer arrays give texts that are no such name.
\<close>

fun name_text :: "json \<Rightarrow> string option" where
  "name_text (JStr s) = Some s"
| "name_text (JArr [v]) = name_text v"
| "name_text _ = None"

definition bad_protocol :: "json \<Rightarrow> bool" where
  "bad_protocol v =
     (case name_text v of
        None \<Rightarrow> True
      | Some s \<Rightarrow> to_lower s \<noteq> ''http1.1'' \<and> to_lower s \<noteq> ''http2'' \<and> to_lower s \<noteq> ''h2'')"

definition upstream_protocol_rule :: field_rule where
  "upstream_protocol_rule =
     field_rule ''upstream_protocol'' bad_protocol
       (''upstream_protocol must be '' @ quoted ''http1.1'' @ '' or '' @ quoted ''http2'')"

definition db_path_rule :: field_rule where
  "db_path_rule =
     \<lparr>fr_name = ''db_path'',
      fr_errors = (\<lambda>n. case obj_get n ''db_path'' of
          None \<Rightarrow> []
        | Some v \<Rightarrow> (if empty_or_not_text v then [''db_path must be a non-empty string'']
                     else case v of
                            JStr s \<Rightarrow> if js_includes s ''..''
                                      then [''db_path must not contain path traversal (..)''] else []
                          | _ \<Rightarrow> []))\<rparr>"

text \<open>\<open>hard_cap - 2\<close> when the hard cap is an integer and leaves room for reservations.\<close>

definition reservation_max :: "json obj \<Rightarrow> rat option" where
  "reservation_max n =
     (case obj_get n ''concurrency_hard_cap'' of
        Some (JNum r) \<Rightarrow> (if of_int \<lfloor>r\<rfloor> = r \<and> 1 \<le> r - 2 then Some (r - 2) else None)
      | _ \<Rightarrow> None)"

definition too_many :: "string \<Rightarrow> rat \<Rightarrow> string" where
  "too_many name resMax = name @ '' must be <= hard_cap - 2 (='' @ digits_of (nat \<lfloor>resMax\<rfloor>) @ '')''"

definition concurrency_main_reservation_rule :: field_rule where
  "concurrency_main_reservation_rule =
     \<lparr>fr_name = ''concurrency_main_reservation'',
      fr_errors = (\<lambda>n. case (reservation_max n, obj_get n ''concurrency_main_reservation'') of
          (Some resMax, Some v) \<Rightarrow>
            (if not_int_in 1 None v
             then [''concurrency_main_reservation must be a positive integer (min 1)'']
             else if not_int_in 1 (Some resMax) v
             then [too_many ''concurrency_main_reservation'' resMax] else [])
        | _ \<Rightarrow> [])\<rparr>"

definition concurrency_vision_reservation_rule :: field_rule where
  "concurrency_vision_reservation_rule =
     \<lparr>fr_name = ''concurrency_vision_reservation'',
      fr_errors = (\<lambda>n. case (reservation_max n, obj_get n ''concurrency_vision_reservation'') of
          (Some resMax, Some v) \<Rightarrow>
            (if \<not> is_integer v then [''concurrency_vision_reservation must be an integer'']
             else if obj_get n ''vision_strategy'' = Some (JStr ''never'') then []
             else if not_int_in 1 None v
             then [''concurrency_vision_reservation must be a positive integer (min 1)'']
             else if not_int_in 1 (Some resMax) v
             then [too_many ''concurrency_vision_reservation'' resMax] else [])
        | _ \<Rightarrow> [])\<rparr>"

definition SERVER_RULES :: "field_rule list" where
  "SERVER_RULES =
     [field_rule ''port'' (not_int_in 1 (Some 65535)) ''port must be an integer between 1 and 65535'',
      field_rule ''max_captures'' (not_int_in 200 None) ''max_captures must be an integer >= 200'',
      db_path_rule,
      field_rule ''idle_timeout'' (not_int_in 1 (Some 255)) ''idle_timeout must be an integer between 1 and 255'',
      upstream_protocol_rule] @
     map bool_rule
      [''stamp_claude_code_enabled'', ''stamp_reasoning_effort_enabled'', ''compression_enabled'',
       ''use_hard_cap'', ''request_use_hard_cap'', ''never_limit_requests'',
       ''experiment_strip_omo_reminder'', ''experiment_ttft_watchdog'', ''usage_history_enabled''] @
     [bool_rule ''warmer_enabled'',
      field_rule ''warmer_interval_ms'' (not_int_in 1000 None) ''warmer_interval_ms must be an integer >= 1000'',
      field_rule ''umans_api_key'' not_text ''umans_api_key must be a string'',
      field_rule ''dashboard_token'' not_text ''dashboard_token must be a string'',
      field_rule ''usage_refresh_ms'' (not_int_in 1000 None) ''usage_refresh_ms must be an integer >= 1000'',
      field_rule ''usage_raw_retention_days'' (not_int_in 1 None) ''usage_raw_retention_days must be an integer >= 1'',
      field_rule ''incident_retention_days'' (not_int_in 1 None) ''incident_retention_days must be an integer >= 1'',
      field_rule ''usage_gap_threshold_minutes'' (not_int_in 5 None) ''usage_gap_threshold_minutes must be an integer >= 5'',
      field_rule ''usage_idle_session_timeout_minutes'' (not_int_in 1 None) ''usage_idle_session_timeout_minutes must be an integer >= 1'',
      field_rule ''models_refresh_ms'' (not_int_in 1000 None) ''models_refresh_ms must be an integer >= 1000'',
      field_rule ''concurrency_hard_cap'' (not_int_in 1 None) ''concurrency_hard_cap must be an integer >= 1'',
      field_rule ''concurrency_soft_limit'' (not_int_in 1 None) ''concurrency_soft_limit must be an integer >= 1'',
      field_rule ''request_hard_cap'' (not_int_in 1 None) ''request_hard_cap must be an integer >= 1'',
      field_rule ''request_soft_limit'' (not_int_in 1 None) ''request_soft_limit must be an integer >= 1'',
      field_rule ''request_rate_margin'' (not_int_in 0 None) ''request_rate_margin must be a non-negative integer'']"

definition GATE_RULES :: "field_rule list" where
  "GATE_RULES =
     [concurrency_main_reservation_rule,
      concurrency_vision_reservation_rule,
      field_rule ''rate_limit_requests'' (or_null (not_int_in (-1) None)) ''rate_limit_requests must be -1 (unlimited), 0 (auto-derive from /v1/usage), or a positive integer'',
      field_rule ''queue_timeout_ms'' (not_int_in 100 None) ''queue_timeout_ms must be an integer >= 100'',
      field_rule ''max_queue_depth'' (not_int_in 1 None) ''max_queue_depth must be a positive integer'',
      field_rule ''release_cooldown_ms'' (not_int_in 0 None) ''release_cooldown_ms must be a non-negative integer'',
      field_rule ''breaker_threshold'' (not_int_in 1 None) ''breaker_threshold must be a positive integer'',
      field_rule ''breaker_window_ms'' (not_int_in 1000 None) ''breaker_window_ms must be an integer >= 1000'',
      field_rule ''breaker_cooldown_ms'' (not_int_in 1000 None) ''breaker_cooldown_ms must be an integer >= 1000'']"

definition VISION_RULES :: "field_rule list" where
  "VISION_RULES =
     [field_rule ''vision_strategy'' (not_one_of [''never'', ''catalog'', ''always'']) (''vision_strategy must be '' @ quoted ''never'' @ '', '' @ quoted ''catalog'' @ '', or '' @ quoted ''always''),
      field_rule ''vision_model'' not_text ''vision_model must be a string'',
      field_rule ''vision_prompt'' empty_or_not_text ''vision_prompt must be a non-empty string'',
      field_rule ''vision_prompt_version'' (not_int_in 1 None) ''vision_prompt_version must be a positive integer'',
      field_rule ''vision_max_images'' (not_int_in 1 (Some 100)) ''vision_max_images must be an integer between 1 and 100'',
      field_rule ''vision_max_description_tokens'' (not_int_in 1 (Some 200000)) ''vision_max_description_tokens must be an integer between 1 and 200000'',
      field_rule ''vision_timeout_ms'' (not_int_in 0 None) ''vision_timeout_ms must be a non-negative integer (0 = no timeout)'',
      field_rule ''vision_cache_size'' (not_int_in 100 None) ''vision_cache_size must be an integer >= 100'',
      field_rule ''vision_concurrency'' (not_int_in 1 (Some 20)) ''vision_concurrency must be an integer between 1 and 20'',
      field_rule ''vision_reasoning_effort'' (or_null (not_one_of [''none'', ''low'', ''medium'', ''high''])) (''vision_reasoning_effort must be '' @ quoted ''none'' @ '', '' @ quoted ''low'' @ '', '' @ quoted ''medium'' @ '', '' @ quoted ''high'' @ '', or null''),
      field_rule ''vision_max_dimension'' (not_int_in 256 (Some 8192)) ''vision_max_dimension must be an integer between 256 and 8192'',
      field_rule ''vision_jpeg_quality'' (not_int_in 1 (Some 100)) ''vision_jpeg_quality must be an integer between 1 and 100'',
      field_rule ''vision_image_format'' (not_one_of [''jpeg'', ''png'']) (''vision_image_format must be '' @ quoted ''jpeg'' @ '' or '' @ quoted ''png''),
      field_rule ''vision_image_detail'' (not_one_of [''auto'', ''low'', ''high'']) (''vision_image_detail must be '' @ quoted ''auto'' @ '', '' @ quoted ''low'' @ '', or '' @ quoted ''high''),
      field_rule ''vision_intent_strategy'' (not_one_of [''off'', ''slotted'', ''crafted'', ''auto'']) (''vision_intent_strategy must be '' @ quoted ''off'' @ '', '' @ quoted ''slotted'' @ '', '' @ quoted ''crafted'' @ '', or '' @ quoted ''auto'')] @
     map bool_rule
      [''vision_decomposition_enabled'']"

definition VISION_TUNING_RULES :: "field_rule list" where
  "VISION_TUNING_RULES =
     [field_rule ''vision_decomposition_timeout_ms'' (not_int_in 100 None) ''vision_decomposition_timeout_ms must be an integer >= 100'',
      field_rule ''vision_crafting_timeout_ms'' (not_int_in 100 None) ''vision_crafting_timeout_ms must be an integer >= 100'',
      field_rule ''vision_adjacent_text_max_chars'' (not_int_in 0 None) ''vision_adjacent_text_max_chars must be a non-negative integer'',
      field_rule ''vision_recent_messages_count'' (not_int_in 0 None) ''vision_recent_messages_count must be a non-negative integer'',
      field_rule ''vision_system_prompt_max_chars'' (not_int_in 0 None) ''vision_system_prompt_max_chars must be a non-negative integer'',
      field_rule ''vision_cache_ttl_ms'' (not_int_in 1000 None) ''vision_cache_ttl_ms must be an integer >= 1000'',
      field_rule ''vision_cache_max_rows'' (not_int_in 100 None) ''vision_cache_max_rows must be an integer >= 100'',
      bool_rule ''vision_persistent_cache'']"

definition RELAY_RULES :: "field_rule list" where
  "RELAY_RULES =
     [field_rule ''capture_body_max_bytes'' (not_int_in 0 None) ''capture_body_max_bytes must be a non-negative integer (0 = unlimited)'',
      field_rule ''queue_max_depth'' (not_int_in 1 None) ''queue_max_depth must be a positive integer'',
      field_rule ''ws_backpressure_limit'' (not_int_in 0 None) ''ws_backpressure_limit must be a non-negative integer (0 = Bun default)'',
      bool_rule ''ws_close_on_backpressure_limit'',
      field_rule ''vision_pending_max_batch'' (not_int_in 1 None) ''vision_pending_max_batch must be a positive integer'',
      field_rule ''upstream_timeout_ms'' (not_int_in 1000 None) ''upstream_timeout_ms must be an integer >= 1000'',
      field_rule ''ttft_timeout_ms'' (not_int_in 1000 None) ''ttft_timeout_ms must be an integer >= 1000'',
      field_rule ''ttft_retry_max_attempts'' (not_int_in 1 (Some 3)) ''ttft_retry_max_attempts must be an integer between 1 and 3'',
      field_rule ''ttft_retry_gate_saturation_pct'' (not_int_in 1 (Some 100)) ''ttft_retry_gate_saturation_pct must be an integer between 1 and 100'',
      field_rule ''ttft_retry_cooldown_ms'' (not_int_in 0 None) ''ttft_retry_cooldown_ms must be an integer >= 0'',
      field_rule ''ttft_watchdog_multiplier'' (not_int_in 1 None) ''ttft_watchdog_multiplier must be an integer >= 1'',
      field_rule ''ttft_watchdog_hard_cap_ms'' (not_int_in 1000 None) ''ttft_watchdog_hard_cap_ms must be an integer >= 1000'']"

definition FIELD_RULES :: "field_rule list" where
  "FIELD_RULES = SERVER_RULES @ GATE_RULES @ VISION_RULES @ VISION_TUNING_RULES @ RELAY_RULES"

subsection \<open>Warnings\<close>

text \<open>The upstream's request limit as far as it has been fetched.\<close>

datatype upstream_limit = NotFetched | Unlimited | Limited rat

record warning_rule =
  wr_name :: string
  wr_warning :: "json obj \<Rightarrow> upstream_limit \<Rightarrow> string option"

definition WARNING_RULES :: "warning_rule list" where
  "WARNING_RULES =
     [\<lparr>wr_name = ''warmer_disabled'',
       wr_warning = (\<lambda>n ctx. if obj_get n ''warmer_enabled'' = Some (JBool False)
         then Some (''Connection warmer is disabled -- first request after idle will have '' @
                    ''~750ms cold-start penalty'') else None)\<rparr>,
      \<lparr>wr_name = ''rate_limit_disabled'',
       wr_warning = (\<lambda>n ctx. if obj_get n ''rate_limit_requests'' \<noteq> Some (JNum (-1)) then None
         else if ctx = Unlimited then None
         else Some (''Rate limiting is unlimited (rate_limit_requests=-1). '' @
                    ''No request cap is enforced.''))\<rparr>,
      \<lparr>wr_name = ''stamp_claude_code_off'',
       wr_warning = (\<lambda>n ctx. if obj_get n ''stamp_claude_code_enabled'' \<noteq> Some (JBool True)
         then Some (''Claude Code stamping is off -- TTL, top_k, max_tokens, thinking, output_config, '' @
                    ''and context_management stamps are inactive. This is informational and safe '' @
                    ''to ignore if stamping is intentionally disabled.'') else None)\<rparr>,
      \<lparr>wr_name = ''umans_api_key_empty'',
       wr_warning = (\<lambda>n ctx. if obj_get n ''umans_api_key'' \<in> {Some (JStr []), None}
         then Some (''umans_api_key is empty -- proxy runs in fail-safe mode (worst-case limits, '' @
                    ''priority_low=true). Set umans_api_key in the Server section to enable '' @
                    ''usage-based limits.'') else None)\<rparr>]"

subsection \<open>Validating and saving\<close>

record validation_result =
  vr_ok :: bool
  vr_errors :: "string list"
  vr_warnings :: "string list"
  vr_normalized :: "json obj"

definition normalize :: "json obj \<Rightarrow> json obj" where
  "normalize raw =
     (let n = obj_merge DEFAULT_CONFIG (coerce_raw_for_validation raw)
      in if obj_get n ''vision_strategy'' = Some (JStr ''never'')
         then obj_set n ''concurrency_vision_reservation'' (JNum 0) else n)"

definition config_errors :: "json obj \<Rightarrow> string list" where
  "config_errors n = concat (map (\<lambda>rule. fr_errors rule n) FIELD_RULES)"

definition validate_config :: "json obj \<Rightarrow> upstream_limit \<Rightarrow> validation_result" where
  "validate_config raw ctx =
     (let n = normalize raw
      in \<lparr>vr_ok = (config_errors n = []), vr_errors = config_errors n,
          vr_warnings = map the (filter (\<lambda>w. w \<noteq> None) (map (\<lambda>rule. wr_warning rule n ctx) WARNING_RULES)),
          vr_normalized = n\<rparr>)"

text \<open>
  The config file: the value its text parses to, \<open>None\<close> in \<open>Holds\<close> when it does not parse.
  Writing prints the value, where an infinite number becomes null.
\<close>

datatype config_file = Missing | Holds "json option"

fun through_text :: "json \<Rightarrow> json" where
  "through_text (JInf _) = JNull"
| "through_text (JArr vs) = JArr (map through_text vs)"
| "through_text (JObj d) = JObj (map (\<lambda>(k, v). (k, through_text v)) d)"
| "through_text v = v"

definition write_config :: "json obj \<Rightarrow> config_file" where
  "write_config d = Holds (Some (through_text (JObj d)))"

definition ensure_config_file :: "config_file \<Rightarrow> config_file" where
  "ensure_config_file f = (case f of Missing \<Rightarrow> write_config DEFAULT_CONFIG | Holds t \<Rightarrow> f)"

definition read_config_file :: "config_file \<Rightarrow> json obj" where
  "read_config_file f =
     obj_merge DEFAULT_CONFIG
       (spread (load_json_config (case ensure_config_file f of Missing \<Rightarrow> None | Holds t \<Rightarrow> t)))"

record save_result =
  sr_ok :: bool
  sr_errors :: "string list"
  sr_warnings :: "string list"
  sr_written :: "json obj option"

definition save_config :: "json obj \<Rightarrow> upstream_limit \<Rightarrow> config_file \<Rightarrow> save_result \<times> config_file" where
  "save_config patch ctx f =
     (let merged = obj_merge (read_config_file f) (coerce_raw_for_validation patch);
          result = validate_config merged ctx
      in if \<not> vr_ok result
         then (\<lparr>sr_ok = False, sr_errors = vr_errors result, sr_warnings = vr_warnings result,
                sr_written = None\<rparr>, ensure_config_file f)
         else (\<lparr>sr_ok = True, sr_errors = [], sr_warnings = vr_warnings result,
                sr_written = Some (vr_normalized result)\<rparr>, write_config (vr_normalized result)))"

definition reset_config :: "config_file \<Rightarrow> json obj \<times> config_file" where
  "reset_config f =
     (let existing = read_config_file f;
          keep = (\<lambda>k d. case obj_get existing k of
                    None \<Rightarrow> obj_set d k (the (obj_get DEFAULT_CONFIG k))
                  | Some JNull \<Rightarrow> obj_set d k (the (obj_get DEFAULT_CONFIG k))
                  | Some v \<Rightarrow> obj_set d k v);
          reset = keep ''dashboard_token'' (keep ''umans_api_key'' DEFAULT_CONFIG)
      in (reset, write_config reset))"

end
