(* ===== verification/Config_Reload.thy ===== *)
theory Config_Reload
  imports Config_Loader Config_Validation Gate
begin

text \<open>
  Hot reload: \<open>src/config/reload.ts\<close> applies a changed config file to the live settings, and
  \<open>reloadConfig\<close> in \<open>src/index.ts\<close> passes what changed on to the gate.
\<close>

definition RESTART_REQUIRED_FIELDS :: "string list" where
  "RESTART_REQUIRED_FIELDS =
     [''port'', ''max_captures'', ''db_path'', ''idle_timeout'', ''upstream_protocol'', ''queue_max_depth'',
      ''ws_backpressure_limit'', ''ws_close_on_backpressure_limit'', ''warmer_enabled'',
      ''warmer_interval_ms'', ''usage_refresh_ms'', ''umans_api_key'', ''dashboard_token'',
      ''models_refresh_ms'', ''vision_strategy'', ''vision_model'', ''vision_prompt'',
      ''vision_prompt_version'', ''vision_max_images'', ''vision_max_description_tokens'',
      ''vision_reasoning_effort'', ''vision_timeout_ms'', ''vision_cache_size'', ''vision_cache_ttl_ms'',
      ''vision_cache_max_rows'', ''vision_persistent_cache'', ''vision_max_dimension'',
      ''vision_jpeg_quality'', ''vision_image_format'', ''vision_image_detail'', ''vision_concurrency'',
      ''vision_pending_max_batch'']"

text \<open>The raw keys that can be applied to the live settings, each with the setting it assigns.\<close>

definition RELOAD_FIELDS :: "(string \<times> string) list" where
  "RELOAD_FIELDS =
     [(''stamp_claude_code_enabled'', ''stampClaudeCode''), (''stamp_model_rules'', ''stampModelRules''),
      (''usage_history_enabled'', ''usageHistoryEnabled''),
      (''usage_raw_retention_days'', ''usageRawRetentionDays''),
      (''usage_gap_threshold_minutes'', ''usageGapThresholdMinutes''),
      (''usage_idle_session_timeout_minutes'', ''usageIdleSessionTimeoutMinutes''),
      (''stamp_reasoning_effort_enabled'', ''stampReasoningEffort''),
      (''rate_limit_requests'', ''rateLimitRequests''), (''request_hard_cap'', ''requestHardCap''),
      (''request_soft_limit'', ''requestSoftLimit''), (''request_use_hard_cap'', ''requestUseHardCap''),
      (''never_limit_requests'', ''neverLimitRequests''), (''request_rate_margin'', ''requestRateMargin''),
      (''queue_timeout_ms'', ''queueTimeoutMs''), (''max_queue_depth'', ''maxQueueDepth''),
      (''release_cooldown_ms'', ''releaseCooldownMs''), (''breaker_threshold'', ''breakerThreshold''),
      (''breaker_window_ms'', ''breakerWindowMs''), (''breaker_cooldown_ms'', ''breakerCooldownMs''),
      (''concurrency_main_reservation'', ''concurrencyMainReservation''),
      (''concurrency_vision_reservation'', ''concurrencyVisionReservation''),
      (''concurrency_hard_cap'', ''concurrencyHardCap''),
      (''concurrency_soft_limit'', ''concurrencySoftLimit''), (''use_hard_cap'', ''useHardCap''),
      (''compression_enabled'', ''compressionEnabled''),
      (''capture_body_max_bytes'', ''captureBodyMaxBytes''),
      (''upstream_timeout_ms'', ''upstreamTimeoutMs''),
      (''experiment_rewrite_ids'', ''experimentRewriteIds''),
      (''experiment_rewrite_ttl_ms'', ''experimentRewriteTtlMs''),
      (''experiment_strip_omo_reminder'', ''experimentStripOmoReminder''),
      (''experiment_ttft_watchdog'', ''experimentTtftWatchdog''), (''ttft_timeout_ms'', ''ttftTimeoutMs''),
      (''ttft_retry_max_attempts'', ''ttftRetryMaxAttempts''),
      (''ttft_retry_gate_saturation_pct'', ''ttftRetryGateSaturationPct''),
      (''ttft_retry_cooldown_ms'', ''ttftRetryCooldownMs''),
      (''ttft_watchdog_multiplier'', ''ttftWatchdogMultiplier''),
      (''ttft_watchdog_hard_cap_ms'', ''ttftWatchdogHardCapMs''),
      (''vision_intent_strategy'', ''visionIntentStrategy''),
      (''vision_decomposition_enabled'', ''visionDecompositionEnabled''),
      (''vision_decomposition_timeout_ms'', ''visionDecompositionTimeoutMs''),
      (''vision_crafting_timeout_ms'', ''visionCraftingTimeoutMs''),
      (''vision_adjacent_text_max_chars'', ''visionAdjacentTextMaxChars''),
      (''vision_recent_messages_count'', ''visionRecentMessagesCount''),
      (''vision_system_prompt_max_chars'', ''visionSystemPromptMaxChars''),
      (''performance_sample_count'', ''performanceSampleCount''),
      (''incident_retention_days'', ''incidentRetentionDays'')]"

text \<open>Values are compared by their JSON text.\<close>

definition key_changed :: "json obj \<Rightarrow> json obj \<Rightarrow> string \<Rightarrow> bool" where
  "key_changed oldRaw newRaw k =
     (map_option through_text (obj_get oldRaw k) \<noteq> map_option through_text (obj_get newRaw k))"

definition assign_setting :: "string \<Rightarrow> setting obj \<Rightarrow> setting obj \<Rightarrow> setting obj" where
  "assign_setting f fresh live =
     (case obj_get fresh f of None \<Rightarrow> obj_del live f | Some v \<Rightarrow> obj_set live f v)"

fun apply_fields :: "(string \<times> string) list \<Rightarrow> string list \<Rightarrow> setting obj \<Rightarrow> setting obj \<Rightarrow> setting obj" where
  "apply_fields [] applied fresh live = live"
| "apply_fields ((k, f) # kfs) applied fresh live =
     apply_fields kfs applied fresh
       (if k \<in> set applied then assign_setting f fresh live else live)"

definition apply_reload_to_config ::
  "setting obj \<Rightarrow> setting obj \<Rightarrow> json obj \<Rightarrow> json obj \<Rightarrow> setting obj \<times> string list \<times> string list" where
  "apply_reload_to_config live fresh oldRaw newRaw =
     (let changed = filter (key_changed oldRaw newRaw) (obj_keys newRaw);
          restartRequired = filter (\<lambda>k. k \<in> set RESTART_REQUIRED_FIELDS) changed;
          applied = filter (\<lambda>k. k \<notin> set RESTART_REQUIRED_FIELDS) changed
      in (apply_fields RELOAD_FIELDS applied fresh live, applied, restartRequired))"

subsection \<open>Passing the change on to the gate\<close>

definition GATE_RECONFIG_FIELDS :: "string list" where
  "GATE_RECONFIG_FIELDS =
     [''breakerThreshold'', ''breakerWindowMs'', ''breakerCooldownMs'', ''queueTimeoutMs'',
      ''maxQueueDepth'', ''releaseCooldownMs'', ''concurrencyMainReservation'',
      ''concurrencyVisionReservation'']"

text \<open>The part of a usage snapshot the effective limit depends on.\<close>

record limit_snapshot =
  ls_priority_low :: bool
  ls_boxed_until :: "rat option"
  ls_boxed_reason :: "string option"

definition num_setting :: "setting obj \<Rightarrow> string \<Rightarrow> jsnum" where
  "num_setting cfg f = (case obj_get cfg f of Some (SNum x) \<Rightarrow> x | _ \<Rightarrow> NaN)"

fun js_pred :: "jsnum \<Rightarrow> jsnum" where
  "js_pred (Fin r) = Fin (r - 1)"
| "js_pred x = x"

definition apply_effective_limit :: "rat \<Rightarrow> setting obj \<Rightarrow> limit_snapshot \<Rightarrow> gate \<Rightarrow> gate option" where
  "apply_effective_limit now cfg snap g =
     (let boxed = (case ls_boxed_until snap of None \<Rightarrow> False | Some t \<Rightarrow> now < t);
          rateLimited = (case ls_boxed_reason snap of None \<Rightarrow> False
                         | Some r \<Rightarrow> starts_with (to_lower r) ''rate_limit'')
      in if boxed \<and> \<not> rateLimited then gate_resize (Fin 1) g
         else (let base = (if obj_get cfg ''useHardCap'' = Some (SBool True)
                           then num_setting cfg ''concurrencyHardCap''
                           else num_setting cfg ''concurrencySoftLimit'')
               in gate_resize (if ls_priority_low snap then js_max (Fin 1) (js_pred base) else base) g))"

definition as_partial :: "gate_options \<Rightarrow> partial_options" where
  "as_partial opts =
     \<lparr>po_release_cooldown_ms = Some (o_release_cooldown_ms opts),
      po_breaker_threshold = Some (o_breaker_threshold opts),
      po_breaker_window_ms = Some (o_breaker_window_ms opts),
      po_breaker_cooldown_ms = Some (o_breaker_cooldown_ms opts),
      po_max_queue_depth = Some (o_max_queue_depth opts),
      po_queue_timeout_ms = Some (o_queue_timeout_ms opts),
      po_intentions = o_intentions opts\<rparr>"

text \<open>\<open>None\<close>: options or a limit outside the gate's model.\<close>

definition reload_gate ::
  "int \<Rightarrow> setting obj \<Rightarrow> string list \<Rightarrow> limit_snapshot \<Rightarrow> gate \<Rightarrow> gate option" where
  "reload_gate now cfg applied snap g0 =
     (case (if \<exists>k\<in>set applied. k \<in> set GATE_RECONFIG_FIELDS
            then map_option (\<lambda>opts. gate_reconfigure now (as_partial opts) g0) (gate_options_from_config cfg)
            else Some g0) of
        None \<Rightarrow> None
      | Some g1 \<Rightarrow>
          (let g2 = (if ''concurrency_hard_cap'' \<in> set applied
                     then gate_set_hard_cap (num_setting cfg ''concurrencyHardCap'') g1 else g1);
               g3 = (if ''concurrency_soft_limit'' \<in> set applied
                     then gate_set_soft_limit (num_setting cfg ''concurrencySoftLimit'') g2 else g2)
           in if ''use_hard_cap'' \<in> set applied \<or> ''concurrency_hard_cap'' \<in> set applied \<or>
                 ''concurrency_soft_limit'' \<in> set applied
              then apply_effective_limit (of_int now) cfg snap g3 else Some g3))"

end
