(* ===== verification/Config_Laws.thy ===== *)
theory Config_Laws
  imports Config_Validation
begin

text \<open>
  Laws of coercion, normalization and the field rules, and the round trip through the config file.
\<close>

subsection \<open>The known keys\<close>

text \<open>The keys differ already in their length and three of their characters.\<close>

definition key_sig :: "string \<Rightarrow> nat \<times> string \<times> string \<times> string" where
  "key_sig k = (length k, take 1 k, take 1 (drop 1 k), take 1 (drop 13 k))"

lemma distinct_known: "distinct KNOWN_KEYS"
proof -
  have "distinct (map key_sig KNOWN_KEYS)"
    unfolding KNOWN_KEYS_def DEFAULT_CONFIG_def by (simp add: key_sig_def)
  then show ?thesis by (simp add: distinct_map)
qed

fun is_num :: "json \<Rightarrow> bool" where
  "is_num (JNum _) = True"
| "is_num _ = False"

lemma numeric_keys:
  "map fst (filter (\<lambda>p. is_num (snd p)) DEFAULT_CONFIG) =
     [''port'', ''max_captures'', ''idle_timeout'', ''warmer_interval_ms'', ''usage_refresh_ms'',
      ''usage_raw_retention_days'', ''usage_gap_threshold_minutes'', ''usage_idle_session_timeout_minutes'',
      ''models_refresh_ms'', ''concurrency_hard_cap'', ''concurrency_soft_limit'', ''rate_limit_requests'',
      ''request_hard_cap'', ''request_soft_limit'', ''request_rate_margin'', ''queue_timeout_ms'',
      ''max_queue_depth'', ''release_cooldown_ms'', ''breaker_threshold'', ''breaker_window_ms'',
      ''breaker_cooldown_ms'', ''vision_prompt_version'', ''vision_max_images'',
      ''vision_max_description_tokens'', ''vision_timeout_ms'', ''vision_cache_size'',
      ''vision_cache_ttl_ms'', ''vision_cache_max_rows'', ''vision_concurrency'', ''vision_max_dimension'',
      ''vision_jpeg_quality'', ''vision_decomposition_timeout_ms'', ''vision_crafting_timeout_ms'',
      ''vision_adjacent_text_max_chars'', ''vision_recent_messages_count'',
      ''vision_system_prompt_max_chars'', ''concurrency_main_reservation'',
      ''concurrency_vision_reservation'', ''capture_body_max_bytes'', ''queue_max_depth'',
      ''ws_backpressure_limit'', ''vision_pending_max_batch'', ''upstream_timeout_ms'',
      ''experiment_rewrite_ttl_ms'', ''ttft_timeout_ms'', ''ttft_retry_max_attempts'',
      ''ttft_retry_gate_saturation_pct'', ''ttft_retry_cooldown_ms'', ''ttft_watchdog_multiplier'',
      ''ttft_watchdog_hard_cap_ms'', ''performance_sample_count'', ''incident_retention_days'']"
  by (simp add: DEFAULT_CONFIG_def DEFAULT_RULES_def)

lemma int_fields_numeric:
  "list_all (\<lambda>k. k \<in> set (map fst (filter (\<lambda>p. is_num (snd p)) DEFAULT_CONFIG))) INT_FIELDS"
  unfolding INT_FIELDS_def numeric_keys by (simp only: list.pred_inject list.set insert_iff refl simp_thms)
lemma int_fields_known: "set INT_FIELDS \<subseteq> set KNOWN_KEYS"
  using int_fields_numeric by (auto simp: list_all_iff KNOWN_KEYS_def)

lemma default_entry: "(k, v) \<in> set DEFAULT_CONFIG \<Longrightarrow> obj_get DEFAULT_CONFIG k = Some v"
  using distinct_known by (simp add: KNOWN_KEYS_def map_of_is_SomeI)

lemma int_fields_default:
  assumes "k \<in> set INT_FIELDS" "obj_get DEFAULT_CONFIG k = Some v"
  shows "is_num v"
proof -
  obtain v' where "(k, v') \<in> set DEFAULT_CONFIG" "is_num v'"
    using assms(1) int_fields_numeric by (auto simp: list_all_iff)
  then show ?thesis using default_entry assms(2) by fastforce
qed

subsection \<open>Coercion\<close>

lemma obj_keys_coerce_fields [simp]: "obj_keys (coerce_fields ks d) = obj_keys d"
proof (induction ks d rule: coerce_fields.induct)
  case (2 k ks out)
  have "obj_get out k = Some v \<Longrightarrow> obj_keys (obj_set out k (coerce_value v)) = obj_keys out" for v
    by (intro obj_keys_set_present) (force dest: map_of_SomeD)
  then show ?case using 2 by (auto split: option.splits)
qed simp

lemma num_json_coerce: "num_json x = Some n \<Longrightarrow> coerce_value n = n \<and> through_text (through_text n) = through_text n"
  by (cases x) (auto simp: coerce_value_def)

lemma coerce_value_idem [simp]: "coerce_value (coerce_value v) = coerce_value v"
  by (cases v) (auto simp: coerce_value_def dest: num_json_coerce split: option.splits list.splits)

lemma obj_get_coerce_fields:
  "obj_get (coerce_fields ks d) k =
     (if k \<in> set ks then map_option coerce_value (obj_get d k) else obj_get d k)"
  by (induction ks d rule: coerce_fields.induct) (auto split: option.splits)

text \<open>A value that neither coercion nor the file changes any more.\<close>

definition settled_value :: "json \<Rightarrow> bool" where
  "settled_value v = (coerce_value (through_text v) = through_text v)"

lemma settled_coerced [simp]: "settled_value (coerce_value v)"
proof (cases v)
  case (JStr s)
  then show ?thesis
  proof (cases "s = [] \<or> js_number s = NaN")
    case True
    then show ?thesis using JStr by (auto simp: settled_value_def coerce_value_def)
  next
    case False
    then show ?thesis using JStr
      by (cases "js_number s") (auto simp: settled_value_def coerce_value_def)
  qed
qed (auto simp: settled_value_def coerce_value_def)

lemma settled_num: "is_num v \<Longrightarrow> settled_value v"
  by (cases v) (auto simp: settled_value_def coerce_value_def)

lemma through_text_idem [simp]: "through_text (through_text v) = through_text v"
  by (induction v rule: through_text.induct) auto

subsection \<open>Normalization\<close>

lemma coerce_raw_keys:
  "obj_keys (coerce_raw_for_validation raw) = filter (\<lambda>k. k \<in> set KNOWN_KEYS) (obj_keys raw)"
  unfolding coerce_raw_for_validation_def by (simp add: filter_map comp_def case_prod_beta')

lemma map_of_filter_known:
  "obj_get (filter (\<lambda>(k, _). k \<in> K) d) k = (if k \<in> K then obj_get d k else None)"
  by (induction d) auto

lemma obj_get_coerce_raw:
  "obj_get (coerce_raw_for_validation raw) k =
     (if k \<notin> set KNOWN_KEYS then None
      else if k \<in> set INT_FIELDS then map_option coerce_value (obj_get raw k) else obj_get raw k)"
  using int_fields_known
  by (auto simp: coerce_raw_for_validation_def obj_get_coerce_fields map_of_filter_known)

lemma normalize_keys [simp]: "obj_keys (normalize raw) = KNOWN_KEYS"
proof -
  have k: "obj_keys (obj_merge DEFAULT_CONFIG (coerce_raw_for_validation raw)) = KNOWN_KEYS"
    unfolding KNOWN_KEYS_def
    by (rule obj_keys_merge_present) (auto simp: coerce_raw_keys KNOWN_KEYS_def simp del: set_map)
  have "''concurrency_vision_reservation'' \<in> set KNOWN_KEYS"
    unfolding KNOWN_KEYS_def DEFAULT_CONFIG_def by code_simp
  then show ?thesis
    by (auto simp: normalize_def Let_def k obj_keys_set_present simp flip: set_map)
qed

lemma known_examples [simp]:
  "''vision_strategy'' \<in> set KNOWN_KEYS" "''concurrency_vision_reservation'' \<in> set KNOWN_KEYS"
  unfolding KNOWN_KEYS_def DEFAULT_CONFIG_def
  by (simp_all only: list.map fst_conv list.set insert_iff refl simp_thms)

lemma int_fields_examples [simp]:
  "''concurrency_vision_reservation'' \<in> set INT_FIELDS" "''concurrency_hard_cap'' \<in> set INT_FIELDS"
  unfolding INT_FIELDS_def by (simp_all only: list.set insert_iff refl simp_thms)

abbreviation printed :: "json obj \<Rightarrow> json obj" where
  "printed d \<equiv> map (\<lambda>(k, v). (k, through_text v)) d"

lemma obj_get_printed [simp]: "obj_get (printed d) k = map_option through_text (obj_get d k)"
  by (induction d) auto

lemma obj_keys_printed [simp]:
  "map (fst \<circ> (\<lambda>(k, v). (k, through_text v))) d = obj_keys d"
  by (induction d) auto

lemma through_text_JStr [simp]: "through_text v = JStr s \<longleftrightarrow> v = JStr s"
  by (cases v) auto

lemma obj_get_known: "obj_keys d = KNOWN_KEYS \<Longrightarrow> (\<exists>v. obj_get d k = Some v) \<longleftrightarrow> k \<in> set KNOWN_KEYS"
  by (metis map_of_eq_None_iff not_None_eq set_map)

text \<open>What normalization gives a key: the coerced value of the file, else the default.\<close>

definition filled :: "json obj \<Rightarrow> string \<Rightarrow> json option" where
  "filled raw k =
     (case obj_get (coerce_raw_for_validation raw) k of
        None \<Rightarrow> obj_get DEFAULT_CONFIG k | Some v \<Rightarrow> Some v)"

lemma obj_get_normalize:
  assumes "distinct (obj_keys raw)"
  shows "obj_get (normalize raw) k =
    (if k = ''concurrency_vision_reservation'' \<and> filled raw ''vision_strategy'' = Some (JStr ''never'')
     then Some (JNum 0) else filled raw k)"
proof -
  have "distinct (obj_keys (coerce_raw_for_validation raw))"
    using assms by (simp add: coerce_raw_keys)
  then show ?thesis
    by (simp add: normalize_def Let_def obj_get_merge filled_def)
qed

lemma normalize_int_settled:
  assumes "distinct (obj_keys raw)" "k \<in> set INT_FIELDS" "obj_get (normalize raw) k = Some v"
  shows "settled_value v"
proof -
  have "filled raw k = Some v \<Longrightarrow> settled_value v"
    using assms(2) int_fields_known int_fields_default [OF assms(2)]
    by (auto simp: filled_def obj_get_coerce_raw subset_iff settled_num split: option.splits)
  then show ?thesis
    using assms(3) obj_get_normalize [OF assms(1)] settled_num [of "JNum 0"] by (auto split: if_splits)
qed

lemma normalize_printed:
  assumes "distinct (obj_keys raw)"
  shows "normalize (printed (normalize raw)) = printed (normalize raw)"
proof -
  define n m where "n = normalize raw" and "m = printed n"
  have keys: "obj_keys m = KNOWN_KEYS" by (simp add: m_def n_def)
  have dist: "distinct (obj_keys m)" using keys distinct_known by simp
  have fill: "filled m k = obj_get m k" for k
  proof (cases "k \<in> set KNOWN_KEYS")
    case True
    then obtain v where v: "obj_get n k = Some v"
      using obj_get_known [of n k] by (auto simp: n_def)
    then have "k \<in> set INT_FIELDS \<Longrightarrow> coerce_value (through_text v) = through_text v"
      using normalize_int_settled [OF assms, of k v] by (simp add: settled_value_def n_def)
    then show ?thesis using True v
      by (auto simp: filled_def obj_get_coerce_raw m_def)
  next
    case False
    moreover have "obj_get m k = None" using obj_get_known [OF keys, of k] False by auto
    moreover have "obj_get DEFAULT_CONFIG k = None"
      using obj_get_known [of DEFAULT_CONFIG k] False by (auto simp: KNOWN_KEYS_def)
    ultimately show ?thesis by (simp add: filled_def obj_get_coerce_raw)
  qed
  have never: "obj_get m ''concurrency_vision_reservation'' = Some (JNum 0)"
    if "obj_get m ''vision_strategy'' = Some (JStr ''never'')"
    using that obj_get_normalize [OF assms] by (auto simp: m_def n_def)
  have "normalize m = m"
  proof (rule obj_eqI)
    show "obj_get (normalize m) = obj_get m"
      using obj_get_normalize [OF dist] fill never by auto
  qed (use keys distinct_known in simp_all)
  then show ?thesis by (simp add: m_def n_def)
qed

subsection \<open>Rules\<close>

text \<open>A rule that has nothing to report still has nothing to report after printing.\<close>

definition lasting :: "field_rule \<Rightarrow> bool" where
  "lasting rule = (\<forall>n. fr_errors rule n = [] \<longrightarrow> fr_errors rule (printed n) = [])"

lemma lasting_field_rule:
  assumes "\<And>v. \<not> bad v \<Longrightarrow> \<not> bad (through_text v)"
  shows "lasting (field_rule name bad msg)"
  using assms by (auto simp: lasting_def field_rule_def split: option.splits)

lemma lasting_bads:
  "\<not> not_int_in lo hi v \<Longrightarrow> \<not> not_int_in lo hi (through_text v)"
  "\<not> not_text v \<Longrightarrow> \<not> not_text (through_text v)"
  "\<not> empty_or_not_text v \<Longrightarrow> \<not> empty_or_not_text (through_text v)"
  "\<not> not_one_of names v \<Longrightarrow> \<not> not_one_of names (through_text v)"
  "\<not> not_bool v \<Longrightarrow> \<not> not_bool (through_text v)"
  "is_integer v \<Longrightarrow> is_integer (through_text v)"
  by (cases v; simp add: not_int_in_def not_text_def empty_or_not_text_def not_one_of_def
        not_bool_def is_integer_def)+

lemma lasting_or_null:
  "(\<And>v. \<not> bad v \<Longrightarrow> \<not> bad (through_text v)) \<Longrightarrow> \<not> or_null bad v \<Longrightarrow> \<not> or_null bad (through_text v)"
  by (auto simp: or_null_def)

lemma lasting_tests:
  "lasting (field_rule name (not_int_in lo hi) msg)"
  "lasting (field_rule name not_text msg)"
  "lasting (field_rule name empty_or_not_text msg)"
  "lasting (field_rule name (not_one_of names) msg)"
  "lasting (field_rule name not_bool msg)"
  "lasting (field_rule name (or_null (not_int_in lo hi)) msg)"
  "lasting (field_rule name (or_null (not_one_of names)) msg)"
  by (intro lasting_field_rule lasting_or_null lasting_bads, assumption+)+

lemma name_text_printed: "name_text v = Some s \<Longrightarrow> name_text (through_text v) = Some s"
  by (induction v rule: name_text.induct) auto

lemma lasting_upstream: "lasting upstream_protocol_rule"
  unfolding upstream_protocol_rule_def
  by (rule lasting_field_rule) (auto simp: bad_protocol_def name_text_printed split: option.splits)

lemma lasting_db_path: "lasting db_path_rule"
  by (auto simp: lasting_def db_path_rule_def empty_or_not_text_def split: option.splits json.splits if_splits)

lemma reservation_max_printed [simp]: "reservation_max (printed n) = reservation_max n"
proof (cases "obj_get n ''concurrency_hard_cap''")
  case (Some v)
  then show ?thesis by (cases v) (simp_all add: reservation_max_def)
qed (simp add: reservation_max_def)

lemma lasting_main: "lasting concurrency_main_reservation_rule"
  using lasting_bads(1)
  by (fastforce simp: lasting_def concurrency_main_reservation_rule_def split: option.splits if_splits)

lemma lasting_vision: "lasting concurrency_vision_reservation_rule"
  using lasting_bads(1,6)
  by (fastforce simp: lasting_def concurrency_vision_reservation_rule_def split: option.splits if_splits)

lemma lasting_rules: "list_all lasting FIELD_RULES"
proof -
  note r = lasting_tests lasting_upstream lasting_db_path lasting_main lasting_vision
  show ?thesis
    unfolding FIELD_RULES_def SERVER_RULES_def GATE_RULES_def VISION_RULES_def VISION_TUNING_RULES_def
      RELAY_RULES_def list_all_append list.pred_map comp_def bool_rule_def
    by (simp only: list.pred_inject r simp_thms)
qed

lemma errors_printed: "config_errors n = [] \<Longrightarrow> config_errors (printed n) = []"
  using lasting_rules by (auto simp: config_errors_def list_all_iff lasting_def)

subsection \<open>The default config\<close>

lemma default_values:
  "obj_get DEFAULT_CONFIG ''port'' = Some (JNum 1945)"
  "obj_get DEFAULT_CONFIG ''max_captures'' = Some (JNum 200)"
  "obj_get DEFAULT_CONFIG ''db_path'' = Some (JStr ''./umans-gate.db'')"
  "obj_get DEFAULT_CONFIG ''idle_timeout'' = Some (JNum 255)"
  "obj_get DEFAULT_CONFIG ''upstream_protocol'' = Some (JStr ''http1.1'')"
  "obj_get DEFAULT_CONFIG ''stamp_claude_code_enabled'' = Some (JBool True)"
  "obj_get DEFAULT_CONFIG ''stamp_model_rules'' = Some (DEFAULT_RULES)"
  "obj_get DEFAULT_CONFIG ''stamp_reasoning_effort_enabled'' = Some (JBool True)"
  "obj_get DEFAULT_CONFIG ''warmer_enabled'' = Some (JBool True)"
  "obj_get DEFAULT_CONFIG ''warmer_interval_ms'' = Some (JNum 20000)"
  "obj_get DEFAULT_CONFIG ''umans_api_key'' = Some (JStr [])"
  "obj_get DEFAULT_CONFIG ''dashboard_token'' = Some (JStr [])"
  "obj_get DEFAULT_CONFIG ''usage_refresh_ms'' = Some (JNum 60000)"
  "obj_get DEFAULT_CONFIG ''usage_history_enabled'' = Some (JBool True)"
  "obj_get DEFAULT_CONFIG ''usage_raw_retention_days'' = Some (JNum 7)"
  "obj_get DEFAULT_CONFIG ''usage_gap_threshold_minutes'' = Some (JNum 60)"
  "obj_get DEFAULT_CONFIG ''usage_idle_session_timeout_minutes'' = Some (JNum 5)"
  "obj_get DEFAULT_CONFIG ''models_refresh_ms'' = Some (JNum 3600000)"
  "obj_get DEFAULT_CONFIG ''concurrency_hard_cap'' = Some (JNum 16)"
  "obj_get DEFAULT_CONFIG ''concurrency_soft_limit'' = Some (JNum 8)"
  "obj_get DEFAULT_CONFIG ''use_hard_cap'' = Some (JBool True)"
  "obj_get DEFAULT_CONFIG ''rate_limit_requests'' = Some (JNum 0)"
  "obj_get DEFAULT_CONFIG ''request_use_hard_cap'' = Some (JBool True)"
  "obj_get DEFAULT_CONFIG ''request_hard_cap'' = Some (JNum 1000)"
  "obj_get DEFAULT_CONFIG ''request_soft_limit'' = Some (JNum 500)"
  "obj_get DEFAULT_CONFIG ''request_rate_margin'' = Some (JNum 50)"
  "obj_get DEFAULT_CONFIG ''never_limit_requests'' = Some (JBool True)"
  "obj_get DEFAULT_CONFIG ''queue_timeout_ms'' = Some (JNum 180000)"
  "obj_get DEFAULT_CONFIG ''max_queue_depth'' = Some (JNum 256)"
  "obj_get DEFAULT_CONFIG ''release_cooldown_ms'' = Some (JNum 1000)"
  "obj_get DEFAULT_CONFIG ''breaker_threshold'' = Some (JNum 5)"
  "obj_get DEFAULT_CONFIG ''breaker_window_ms'' = Some (JNum 300000)"
  "obj_get DEFAULT_CONFIG ''breaker_cooldown_ms'' = Some (JNum 60000)"
  "obj_get DEFAULT_CONFIG ''vision_strategy'' = Some (JStr ''never'')"
  "obj_get DEFAULT_CONFIG ''vision_model'' = Some (JStr ''umans-flash'')"
  "obj_get DEFAULT_CONFIG ''vision_prompt'' = Some (JStr VISION_PROMPT)"
  "obj_get DEFAULT_CONFIG ''vision_prompt_version'' = Some (JNum 2)"
  "obj_get DEFAULT_CONFIG ''vision_max_images'' = Some (JNum 20)"
  "obj_get DEFAULT_CONFIG ''vision_max_description_tokens'' = Some (JNum 4096)"
  "obj_get DEFAULT_CONFIG ''vision_reasoning_effort'' = Some (JStr ''none'')"
  "obj_get DEFAULT_CONFIG ''vision_timeout_ms'' = Some (JNum 0)"
  "obj_get DEFAULT_CONFIG ''vision_cache_size'' = Some (JNum 1000)"
  "obj_get DEFAULT_CONFIG ''vision_cache_ttl_ms'' = Some (JNum 604800000)"
  "obj_get DEFAULT_CONFIG ''vision_cache_max_rows'' = Some (JNum 10000)"
  "obj_get DEFAULT_CONFIG ''vision_persistent_cache'' = Some (JBool True)"
  "obj_get DEFAULT_CONFIG ''vision_concurrency'' = Some (JNum 4)"
  "obj_get DEFAULT_CONFIG ''vision_max_dimension'' = Some (JNum 2048)"
  "obj_get DEFAULT_CONFIG ''vision_jpeg_quality'' = Some (JNum 92)"
  "obj_get DEFAULT_CONFIG ''vision_image_format'' = Some (JStr ''png'')"
  "obj_get DEFAULT_CONFIG ''vision_image_detail'' = Some (JStr ''high'')"
  "obj_get DEFAULT_CONFIG ''vision_intent_strategy'' = Some (JStr ''auto'')"
  "obj_get DEFAULT_CONFIG ''vision_decomposition_enabled'' = Some (JBool True)"
  "obj_get DEFAULT_CONFIG ''vision_decomposition_timeout_ms'' = Some (JNum 3000)"
  "obj_get DEFAULT_CONFIG ''vision_crafting_timeout_ms'' = Some (JNum 3000)"
  "obj_get DEFAULT_CONFIG ''vision_adjacent_text_max_chars'' = Some (JNum 500)"
  "obj_get DEFAULT_CONFIG ''vision_recent_messages_count'' = Some (JNum 6)"
  "obj_get DEFAULT_CONFIG ''vision_system_prompt_max_chars'' = Some (JNum 1000)"
  "obj_get DEFAULT_CONFIG ''concurrency_main_reservation'' = Some (JNum 1)"
  "obj_get DEFAULT_CONFIG ''concurrency_vision_reservation'' = Some (JNum 1)"
  "obj_get DEFAULT_CONFIG ''capture_body_max_bytes'' = Some (JNum 10000000)"
  "obj_get DEFAULT_CONFIG ''queue_max_depth'' = Some (JNum 100)"
  "obj_get DEFAULT_CONFIG ''ws_backpressure_limit'' = Some (JNum 1048576)"
  "obj_get DEFAULT_CONFIG ''ws_close_on_backpressure_limit'' = Some (JBool True)"
  "obj_get DEFAULT_CONFIG ''vision_pending_max_batch'' = Some (JNum 50)"
  "obj_get DEFAULT_CONFIG ''compression_enabled'' = Some (JBool True)"
  "obj_get DEFAULT_CONFIG ''upstream_timeout_ms'' = Some (JNum 1800000)"
  "obj_get DEFAULT_CONFIG ''experiment_rewrite_ids'' = Some (JBool True)"
  "obj_get DEFAULT_CONFIG ''experiment_rewrite_ttl_ms'' = Some (JNum 3600000)"
  "obj_get DEFAULT_CONFIG ''experiment_strip_omo_reminder'' = Some (JBool True)"
  "obj_get DEFAULT_CONFIG ''experiment_ttft_watchdog'' = Some (JBool True)"
  "obj_get DEFAULT_CONFIG ''ttft_timeout_ms'' = Some (JNum 60000)"
  "obj_get DEFAULT_CONFIG ''ttft_retry_max_attempts'' = Some (JNum 3)"
  "obj_get DEFAULT_CONFIG ''ttft_retry_gate_saturation_pct'' = Some (JNum 80)"
  "obj_get DEFAULT_CONFIG ''ttft_retry_cooldown_ms'' = Some (JNum 5000)"
  "obj_get DEFAULT_CONFIG ''ttft_watchdog_multiplier'' = Some (JNum 5)"
  "obj_get DEFAULT_CONFIG ''ttft_watchdog_hard_cap_ms'' = Some (JNum 300000)"
  "obj_get DEFAULT_CONFIG ''performance_sample_count'' = Some (JNum 200)"
  "obj_get DEFAULT_CONFIG ''incident_retention_days'' = Some (JNum 30)"
  by (rule default_entry, simp only: DEFAULT_CONFIG_def list.set insert_iff refl simp_thms)+

lemma default_printed: "printed DEFAULT_CONFIG = DEFAULT_CONFIG"
  by (simp add: DEFAULT_CONFIG_def DEFAULT_RULES_def)

lemma default_filled: "filled DEFAULT_CONFIG k = obj_get DEFAULT_CONFIG k"
proof (cases "k \<in> set INT_FIELDS")
  case True
  then obtain v where v: "obj_get DEFAULT_CONFIG k = Some v"
    using int_fields_known obj_get_known [of DEFAULT_CONFIG k] by (auto simp: KNOWN_KEYS_def)
  then have "coerce_value v = v"
    using int_fields_default [OF True v] by (cases v) (simp_all add: coerce_value_def)
  then show ?thesis
    using v by (auto simp: filled_def obj_get_coerce_raw split: option.splits)
qed (auto simp: filled_def obj_get_coerce_raw split: option.splits)

lemma default_normalize:
  "obj_get (normalize DEFAULT_CONFIG) k =
    (if k = ''concurrency_vision_reservation'' then Some (JNum 0) else obj_get DEFAULT_CONFIG k)"
  using distinct_known
  by (simp add: obj_get_normalize KNOWN_KEYS_def default_filled default_values)

lemma VISION_PROMPT_ne [simp]: "VISION_PROMPT \<noteq> []"
  by (simp add: VISION_PROMPT_def)

text \<open>The default config is accepted.\<close>

lemma default_accepted: "config_errors (normalize DEFAULT_CONFIG) = []"
  by (simp add: config_errors_def FIELD_RULES_def SERVER_RULES_def GATE_RULES_def VISION_RULES_def
      VISION_TUNING_RULES_def RELAY_RULES_def field_rule_def bool_rule_def upstream_protocol_rule_def
      db_path_rule_def concurrency_main_reservation_rule_def concurrency_vision_reservation_rule_def
      reservation_max_def default_normalize default_values not_int_in_def or_null_def not_text_def
      empty_or_not_text_def not_one_of_def not_bool_def is_integer_def bad_protocol_def starts_with_def
      to_lower_def lower_char_def)

end
