(* ===== verification/Config_Load_Laws.thy ===== *)
theory Config_Load_Laws
  imports Config_Loader
begin

text \<open>
  The settings of a loaded config: their names are distinct, so each is found by name.
\<close>

lemmas loader_defs = load_server_def load_usage_def load_gate_def load_vision_def
  load_vision_intent_def load_relay_def load_experiments_def

lemma load_configE:
  assumes "load_config env raw = Some cfg"
  obtains protocol where
    "resolve_upstream_protocol (env_or env raw ''UPSTREAM_PROTOCOL'' ''upstream_protocol'') = Some protocol"
    "cfg = load_server protocol env raw @ load_usage env raw @ load_gate env raw @ load_vision env raw @
           load_vision_intent env raw @ load_relay env raw @ load_experiments env raw @
           [(''viewerPrefix'', SVal (JStr ''/dashboard'')), (''flushIntervalMs'', SNum (Fin 50)),
            (''flushBatch'', SNum (Fin 25)), (''incomingProtocol'', SVal (JStr ''http1.1''))]"
  using assms by (auto simp: load_config_def split: option.splits)

text \<open>The names differ already in their length and three of their characters.\<close>

definition name_sig :: "string \<Rightarrow> nat \<times> string \<times> string \<times> string" where
  "name_sig k = (length k, take 1 (drop 0 k), take 1 (drop 6 k), take 1 (drop 11 k))"

lemma distinct_settings:
  assumes "load_config env raw = Some cfg"
  shows "distinct (obj_keys cfg)"
proof -
  have "distinct (map name_sig (obj_keys cfg))"
    by (rule load_configE [OF assms])
      (simp only: loader_defs map_append list.map fst_conv, simp add: name_sig_def)
  then show ?thesis using distinct_map [of name_sig "obj_keys cfg"] by blast
qed

lemma find_setting:
  assumes "load_config env raw = Some cfg" "(f, v) \<in> set cfg"
  shows "obj_get cfg f = Some v"
  using assms distinct_settings by (simp add: map_of_is_SomeI)

lemma loaded_settings:
  assumes "load_config env raw = Some cfg"
  shows
  "obj_get cfg ''port'' = Some (SNum (num (env_or env raw ''PORT'' ''port'') 1945))"
  "obj_get cfg ''host'' = Some (SVal (JStr ''127.0.0.1''))"
  "obj_get cfg ''target'' = Some (SVal (JStr (strip_slashes (case obj_get env ''TARGET'' of None \<Rightarrow> UPSTREAM_TARGET | Some t \<Rightarrow> t))))"
  "obj_get cfg ''maxCaptures'' = Some (SNum (num (env_or env raw ''MAX_CAPTURES'' ''max_captures'') 200))"
  "obj_get cfg ''dbPath'' = Some (SVal (str (env_or env raw ''DB_PATH'' ''db_path'') ''./umans-gate.db''))"
  "obj_get cfg ''idleTimeout'' = Some (SNum (js_min (num (env_or env raw ''IDLE_TIMEOUT'' ''idle_timeout'') 255) (Fin 255)))"
  "obj_get cfg ''stampClaudeCode'' = Some (SBool (bool (env_or env raw ''STAMP_CLAUDE_CODE_ENABLED'' ''stamp_claude_code_enabled'') True))"
  "obj_get cfg ''stampModelRules'' = Some (SVal (JArr (parse_stamp_model_rules (jget raw ''stamp_model_rules''))))"
  "obj_get cfg ''stampReasoningEffort'' = Some (SVal (if bool (env_or env raw ''STAMP_REASONING_EFFORT_ENABLED'' ''stamp_reasoning_effort_enabled'') True then JStr STAMP_REASONING_EFFORT_VALUE else JNull))"
  "obj_get cfg ''openaiPath'' = Some (SVal (JStr OPENAI_CHAT_PATH))"
  "obj_get cfg ''warmerEnabled'' = Some (SBool (unless_false env raw ''WARMER_ENABLED'' ''warmer_enabled''))"
  "obj_get cfg ''warmerIntervalMs'' = Some (SNum (num (env_or env raw ''WARMER_INTERVAL_MS'' ''warmer_interval_ms'') 20000))"
  "obj_get cfg ''warmerPath'' = Some (SVal (JStr WARMER_PATH))"
  "obj_get cfg ''umansApiKey'' = Some (SVal (coalesce (env_or env raw ''UMANS_API_KEY'' ''umans_api_key'') JNull))"
  "obj_get cfg ''dashboardToken'' = Some (SVal (coalesce (env_or env raw ''DASHBOARD_TOKEN'' ''dashboard_token'') JNull))"
  "obj_get cfg ''usageRefreshMs'' = Some (SNum (num (env_or env raw ''USAGE_REFRESH_MS'' ''usage_refresh_ms'') 60000))"
  "obj_get cfg ''usageHistoryEnabled'' = Some (SBool (env_or_raw_bool (obj_get env ''USAGE_HISTORY_ENABLED'') raw ''usage_history_enabled'' (default_bool ''usage_history_enabled'' True)))"
  "obj_get cfg ''usageRawRetentionDays'' = Some (SNum (num (env_or env raw ''USAGE_RAW_RETENTION_DAYS'' ''usage_raw_retention_days'') (default_num ''usage_raw_retention_days'' 7)))"
  "obj_get cfg ''usageGapThresholdMinutes'' = Some (SNum (num (env_or env raw ''USAGE_GAP_THRESHOLD_MINUTES'' ''usage_gap_threshold_minutes'') (default_num ''usage_gap_threshold_minutes'' 60)))"
  "obj_get cfg ''usageIdleSessionTimeoutMinutes'' = Some (SNum (num (env_or env raw ''USAGE_IDLE_SESSION_TIMEOUT_MINUTES'' ''usage_idle_session_timeout_minutes'') (default_num ''usage_idle_session_timeout_minutes'' 5)))"
  "obj_get cfg ''modelsRefreshMs'' = Some (SNum (num (env_or env raw ''MODELS_REFRESH_MS'' ''models_refresh_ms'') 3600000))"
  "obj_get cfg ''concurrencyHardCap'' = Some (SNum (num (env_or env raw ''CONCURRENCY_HARD_CAP'' ''concurrency_hard_cap'') 16))"
  "obj_get cfg ''concurrencySoftLimit'' = Some (SNum (num (env_or env raw ''CONCURRENCY_SOFT_LIMIT'' ''concurrency_soft_limit'') 8))"
  "obj_get cfg ''useHardCap'' = Some (SBool (bool (env_or env raw ''USE_HARD_CAP'' ''use_hard_cap'') True))"
  "obj_get cfg ''rateLimitRequests'' = Some (SNum (num (env_or env raw ''RATE_LIMIT_REQUESTS'' ''rate_limit_requests'') 0))"
  "obj_get cfg ''requestHardCap'' = Some (SNum (num (env_or env raw ''REQUEST_HARD_CAP'' ''request_hard_cap'') 1000))"
  "obj_get cfg ''requestSoftLimit'' = Some (SNum (num (env_or env raw ''REQUEST_SOFT_LIMIT'' ''request_soft_limit'') 500))"
  "obj_get cfg ''requestUseHardCap'' = Some (SBool (bool (env_or env raw ''REQUEST_USE_HARD_CAP'' ''request_use_hard_cap'') True))"
  "obj_get cfg ''neverLimitRequests'' = Some (SBool (bool (env_or env raw ''NEVER_LIMIT_REQUESTS'' ''never_limit_requests'') True))"
  "obj_get cfg ''requestRateMargin'' = Some (SNum (num (env_or env raw ''REQUEST_RATE_MARGIN'' ''request_rate_margin'') 50))"
  "obj_get cfg ''queueTimeoutMs'' = Some (SNum (num (env_or env raw ''QUEUE_TIMEOUT_MS'' ''queue_timeout_ms'') 180000))"
  "obj_get cfg ''maxQueueDepth'' = Some (SNum (num (env_or env raw ''MAX_QUEUE_DEPTH'' ''max_queue_depth'') 256))"
  "obj_get cfg ''releaseCooldownMs'' = Some (SNum (num (env_or env raw ''RELEASE_COOLDOWN_MS'' ''release_cooldown_ms'') 1000))"
  "obj_get cfg ''breakerThreshold'' = Some (SNum (num (env_or env raw ''BREAKER_THRESHOLD'' ''breaker_threshold'') 5))"
  "obj_get cfg ''breakerWindowMs'' = Some (SNum (num (env_or env raw ''BREAKER_WINDOW_MS'' ''breaker_window_ms'') 300000))"
  "obj_get cfg ''breakerCooldownMs'' = Some (SNum (num (env_or env raw ''BREAKER_COOLDOWN_MS'' ''breaker_cooldown_ms'') 60000))"
  "obj_get cfg ''visionStrategy'' = Some (SVal (vision_strategy env raw))"
  "obj_get cfg ''visionTarget'' = Some (SVal (case obj_get env ''VISION_TARGET'' of Some t \<Rightarrow> JStr t | None \<Rightarrow> JStr (strip_slashes UPSTREAM_TARGET @ VISION_TARGET_PATH)))"
  "obj_get cfg ''visionModel'' = Some (SVal (coalesce (env_or env raw ''VISION_MODEL'' ''vision_model'') (JStr ''umans-flash'')))"
  "obj_get cfg ''visionPrompt'' = Some (SVal (str (env_or env raw ''VISION_PROMPT'' ''vision_prompt'') (default_text ''vision_prompt'' ''Describe this image concisely.'')))"
  "obj_get cfg ''visionPromptVersion'' = Some (SNum (num (env_or env raw ''VISION_PROMPT_VERSION'' ''vision_prompt_version'') 2))"
  "obj_get cfg ''visionMaxImages'' = Some (SNum (num (env_or env raw ''VISION_MAX_IMAGES'' ''vision_max_images'') 20))"
  "obj_get cfg ''visionMaxDescriptionTokens'' = Some (SNum (num (env_or env raw ''VISION_MAX_DESCRIPTION_TOKENS'' ''vision_max_description_tokens'') 4096))"
  "obj_get cfg ''visionReasoningEffort'' = Some (SVal (coalesce (env_or env raw ''VISION_REASONING_EFFORT'' ''vision_reasoning_effort'') JNull))"
  "obj_get cfg ''visionTimeoutMs'' = Some (SNum (num (env_or env raw ''VISION_TIMEOUT_MS'' ''vision_timeout_ms'') 0))"
  "obj_get cfg ''visionCacheSize'' = Some (SNum (num (env_or env raw ''VISION_CACHE_SIZE'' ''vision_cache_size'') 1000))"
  "obj_get cfg ''visionCacheTtlMs'' = Some (SNum (num (env_or env raw ''VISION_CACHE_TTL_MS'' ''vision_cache_ttl_ms'') 604800000))"
  "obj_get cfg ''visionCacheMaxRows'' = Some (SNum (num (env_or env raw ''VISION_CACHE_MAX_ROWS'' ''vision_cache_max_rows'') 10000))"
  "obj_get cfg ''visionPersistentCache'' = Some (SBool (unless_false env raw ''VISION_PERSISTENT_CACHE'' ''vision_persistent_cache''))"
  "obj_get cfg ''visionConcurrency'' = Some (SNum (num (env_or env raw ''VISION_CONCURRENCY'' ''vision_concurrency'') 4))"
  "obj_get cfg ''visionMaxDimension'' = Some (SNum (num (env_or env raw ''VISION_MAX_DIMENSION'' ''vision_max_dimension'') 2048))"
  "obj_get cfg ''visionJpegQuality'' = Some (SNum (num (env_or env raw ''VISION_JPEG_QUALITY'' ''vision_jpeg_quality'') 92))"
  "obj_get cfg ''visionImageFormat'' = Some (SVal (coalesce (env_or env raw ''VISION_IMAGE_FORMAT'' ''vision_image_format'') (JStr ''png'')))"
  "obj_get cfg ''visionImageDetail'' = Some (SVal (coalesce (env_or env raw ''VISION_IMAGE_DETAIL'' ''vision_image_detail'') (JStr ''high'')))"
  "obj_get cfg ''visionIntentStrategy'' = Some (SVal (coalesce (env_or env raw ''VISION_INTENT_STRATEGY'' ''vision_intent_strategy'') (JStr ''auto'')))"
  "obj_get cfg ''visionDecompositionEnabled'' = Some (SBool (env_or_raw_bool (obj_get env ''VISION_DECOMPOSITION_ENABLED'') raw ''vision_decomposition_enabled'' (default_bool ''vision_decomposition_enabled'' True)))"
  "obj_get cfg ''visionDecompositionTimeoutMs'' = Some (SNum (env_or_raw_num (obj_get env ''VISION_DECOMPOSITION_TIMEOUT_MS'') raw ''vision_decomposition_timeout_ms'' (default_num ''vision_decomposition_timeout_ms'' 3000)))"
  "obj_get cfg ''visionCraftingTimeoutMs'' = Some (SNum (env_or_raw_num (obj_get env ''VISION_CRAFTING_TIMEOUT_MS'') raw ''vision_crafting_timeout_ms'' (default_num ''vision_crafting_timeout_ms'' 3000)))"
  "obj_get cfg ''visionAdjacentTextMaxChars'' = Some (SNum (env_or_raw_num (obj_get env ''VISION_ADJACENT_TEXT_MAX_CHARS'') raw ''vision_adjacent_text_max_chars'' (default_num ''vision_adjacent_text_max_chars'' 500)))"
  "obj_get cfg ''visionRecentMessagesCount'' = Some (SNum (env_or_raw_num (obj_get env ''VISION_RECENT_MESSAGES_COUNT'') raw ''vision_recent_messages_count'' (default_num ''vision_recent_messages_count'' 6)))"
  "obj_get cfg ''visionSystemPromptMaxChars'' = Some (SNum (env_or_raw_num (obj_get env ''VISION_SYSTEM_PROMPT_MAX_CHARS'') raw ''vision_system_prompt_max_chars'' (default_num ''vision_system_prompt_max_chars'' 1000)))"
  "obj_get cfg ''backgroundVision'' = Some (SBool (vision_strategy env raw = JStr ''catalog''))"
  "obj_get cfg ''concurrencyMainReservation'' = Some (SNum (num (env_or env raw ''CONCURRENCY_MAIN_RESERVATION'' ''concurrency_main_reservation'') 1))"
  "obj_get cfg ''concurrencyVisionReservation'' = Some (SNum (if vision_strategy env raw = JStr ''never'' then Fin 0 else js_max (Fin 1) (num (env_or env raw ''CONCURRENCY_VISION_RESERVATION'' ''concurrency_vision_reservation'') 1)))"
  "obj_get cfg ''visionForceInterceptCapable'' = Some (SBool (vision_strategy env raw = JStr ''always''))"
  "obj_get cfg ''captureBodyMaxBytes'' = Some (SNum (env_or_raw_num (obj_get env ''CAPTURE_BODY_MAX_BYTES'') raw ''capture_body_max_bytes'' (default_num ''capture_body_max_bytes'' 1000000)))"
  "obj_get cfg ''queueMaxDepth'' = Some (SNum (env_or_raw_num (obj_get env ''QUEUE_MAX_DEPTH'') raw ''queue_max_depth'' (default_num ''queue_max_depth'' 100)))"
  "obj_get cfg ''wsBackpressureLimit'' = Some (SNum (env_or_raw_num (obj_get env ''WS_BACKPRESSURE_LIMIT'') raw ''ws_backpressure_limit'' (default_num ''ws_backpressure_limit'' 1048576)))"
  "obj_get cfg ''wsCloseOnBackpressureLimit'' = Some (SBool (env_or_raw_bool (obj_get env ''WS_CLOSE_ON_BACKPRESSURE_LIMIT'') raw ''ws_close_on_backpressure_limit'' (default_bool ''ws_close_on_backpressure_limit'' True)))"
  "obj_get cfg ''visionPendingMaxBatch'' = Some (SNum (env_or_raw_num (obj_get env ''VISION_PENDING_MAX_BATCH'') raw ''vision_pending_max_batch'' (default_num ''vision_pending_max_batch'' 50)))"
  "obj_get cfg ''compressionEnabled'' = Some (SBool (env_or_raw_bool (obj_get env ''COMPRESSION_ENABLED'') raw ''compression_enabled'' (default_bool ''compression_enabled'' True)))"
  "obj_get cfg ''useWriteWorker'' = Some (SBool False)"
  "obj_get cfg ''upstreamTimeoutMs'' = Some (SNum (env_or_raw_num (obj_get env ''UPSTREAM_TIMEOUT_MS'') raw ''upstream_timeout_ms'' (default_num ''upstream_timeout_ms'' 300000)))"
  "obj_get cfg ''experimentRewriteIds'' = Some (SBool (env_or_raw_bool (obj_get env ''EXPERIMENT_REWRITE_IDS'') raw ''experiment_rewrite_ids'' (default_bool ''experiment_rewrite_ids'' True)))"
  "obj_get cfg ''experimentRewriteTtlMs'' = Some (SNum (env_or_raw_num (obj_get env ''EXPERIMENT_REWRITE_TTL_MS'') raw ''experiment_rewrite_ttl_ms'' (default_num ''experiment_rewrite_ttl_ms'' 3600000)))"
  "obj_get cfg ''experimentStripOmoReminder'' = Some (SBool (env_or_raw_bool (obj_get env ''EXPERIMENT_STRIP_OMO_REMINDER'') raw ''experiment_strip_omo_reminder'' (default_bool ''experiment_strip_omo_reminder'' True)))"
  "obj_get cfg ''experimentTtftWatchdog'' = Some (SBool (env_or_raw_bool (obj_get env ''EXPERIMENT_TTFT_WATCHDOG'') raw ''experiment_ttft_watchdog'' (default_bool ''experiment_ttft_watchdog'' True)))"
  "obj_get cfg ''ttftTimeoutMs'' = Some (SNum (env_or_raw_num (obj_get env ''TTFT_TIMEOUT_MS'') raw ''ttft_timeout_ms'' (default_num ''ttft_timeout_ms'' 60000)))"
  "obj_get cfg ''ttftRetryMaxAttempts'' = Some (SNum (env_or_raw_num (obj_get env ''TTFT_RETRY_MAX_ATTEMPTS'') raw ''ttft_retry_max_attempts'' (default_num ''ttft_retry_max_attempts'' 2)))"
  "obj_get cfg ''ttftRetryGateSaturationPct'' = Some (SNum (env_or_raw_num (obj_get env ''TTFT_RETRY_GATE_SATURATION_PCT'') raw ''ttft_retry_gate_saturation_pct'' (default_num ''ttft_retry_gate_saturation_pct'' 80)))"
  "obj_get cfg ''ttftRetryCooldownMs'' = Some (SNum (env_or_raw_num (obj_get env ''TTFT_RETRY_COOLDOWN_MS'') raw ''ttft_retry_cooldown_ms'' (default_num ''ttft_retry_cooldown_ms'' 5000)))"
  "obj_get cfg ''ttftWatchdogMultiplier'' = Some (SNum (env_or_raw_num (obj_get env ''TTFT_WATCHDOG_MULTIPLIER'') raw ''ttft_watchdog_multiplier'' (default_num ''ttft_watchdog_multiplier'' 5)))"
  "obj_get cfg ''ttftWatchdogHardCapMs'' = Some (SNum (env_or_raw_num (obj_get env ''TTFT_WATCHDOG_HARD_CAP_MS'') raw ''ttft_watchdog_hard_cap_ms'' (default_num ''ttft_watchdog_hard_cap_ms'' 300000)))"
  "obj_get cfg ''performanceSampleCount'' = Some (SNum (env_or_raw_num (obj_get env ''PERFORMANCE_SAMPLE_COUNT'') raw ''performance_sample_count'' (default_num ''performance_sample_count'' 200)))"
  "obj_get cfg ''incidentRetentionDays'' = Some (SNum (env_or_raw_num (obj_get env ''INCIDENT_RETENTION_DAYS'') raw ''incident_retention_days'' (default_num ''incident_retention_days'' 30)))"
  "obj_get cfg ''viewerPrefix'' = Some (SVal (JStr ''/dashboard''))"
  "obj_get cfg ''flushIntervalMs'' = Some (SNum (Fin 50))"
  "obj_get cfg ''flushBatch'' = Some (SNum (Fin 25))"
  "obj_get cfg ''incomingProtocol'' = Some (SVal (JStr ''http1.1''))"
  by (rule find_setting [OF assms], rule load_configE [OF assms],
      simp only: loader_defs set_append Un_iff list.set insert_iff refl simp_thms)+

end
