(* ===== verification/Config_Props.thy ===== *)
theory Config_Props
  imports Config_Reload Config_Laws Config_Load_Laws Gate_Laws
begin

text \<open>
  Properties of the configuration: a saved config reads back, a saved config gives the gate
  options its theorems assume, and a hot reload brings the live settings to those of a fresh load
  without reaching the gate.
\<close>

subsection \<open>Saving\<close>

lemma save_config_ok:
  assumes "save_config patch ctx f = (r, f')" "sr_ok r"
  obtains raw where "distinct (obj_keys raw)" "sr_written r = Some (normalize raw)"
    "config_errors (normalize raw) = []" "f' = Holds (Some (JObj (printed (normalize raw))))"
proof -
  define raw where "raw = obj_merge (read_config_file f) (coerce_raw_for_validation patch)"
  have "distinct (obj_keys raw)"
    unfolding raw_def read_config_file_def
    by (intro distinct_merge distinct_known [unfolded KNOWN_KEYS_def])
  then show thesis
    using that [of raw] assms
    by (auto simp: save_config_def Let_def validate_config_def write_config_def raw_def [symmetric]
        split: if_splits)
qed

lemma read_printed:
  assumes "obj_keys d = KNOWN_KEYS"
  shows "read_config_file (Holds (Some (JObj d))) = d"
proof (rule obj_eqI)
  have dist: "distinct (obj_keys d)" using assms distinct_known by simp
  show "obj_keys (read_config_file (Holds (Some (JObj d)))) = obj_keys d"
    using obj_keys_merge_present [of d DEFAULT_CONFIG] assms
    by (simp add: read_config_file_def ensure_config_file_def load_json_config_def KNOWN_KEYS_def
        del: set_map)
  show "obj_get (read_config_file (Holds (Some (JObj d)))) = obj_get d"
  proof
    fix k
    have "obj_get d k = None \<Longrightarrow> obj_get DEFAULT_CONFIG k = None"
      using assms by (simp add: KNOWN_KEYS_def map_of_eq_None_iff flip: set_map)
    then show "obj_get (read_config_file (Holds (Some (JObj d)))) k = obj_get d k"
      by (auto simp: read_config_file_def ensure_config_file_def load_json_config_def
          obj_get_merge [OF dist] split: option.splits)
  qed
qed (use assms distinct_known in \<open>simp add: read_config_file_def ensure_config_file_def
      load_json_config_def KNOWN_KEYS_def distinct_merge\<close>)

lemma coerce_nothing [simp]: "coerce_raw_for_validation [] = []"
proof -
  have "coerce_fields ks [] = []" for ks by (induction ks) auto
  then show ?thesis by (simp add: coerce_raw_for_validation_def)
qed

text \<open>
  C12: A saved config reads back. When a save is accepted, the file holds exactly the known keys in
  their fixed order, reading it gives the config that was written (as its text prints it), and
  saving without a patch is accepted again and leaves the file as it is.
\<close>

theorem saved_config_reads_back:
  assumes "save_config patch ctx f = (r, f')" "sr_ok r"
  shows "\<exists>w. sr_written r = Some w \<and> obj_keys w = KNOWN_KEYS \<and> read_config_file f' = printed w \<and>
    (\<exists>r'. save_config [] ctx f' = (r', f') \<and> sr_ok r' \<and> sr_written r' = Some (printed w))"
proof -
  obtain raw where raw: "distinct (obj_keys raw)" "sr_written r = Some (normalize raw)"
    "config_errors (normalize raw) = []" "f' = Holds (Some (JObj (printed (normalize raw))))"
    using save_config_ok [OF assms] .
  define m where "m = printed (normalize raw)"
  have f': "f' = Holds (Some (JObj m))" unfolding m_def by (rule raw(4))
  have read: "read_config_file f' = m"
    unfolding f' m_def by (rule read_printed) simp
  have again: "normalize m = m" unfolding m_def by (rule normalize_printed [OF raw(1)])
  have twice: "printed m = m" unfolding m_def by (induction "normalize raw") auto
  have "config_errors m = []" unfolding m_def by (rule errors_printed [OF raw(3)])
  then have "\<exists>r'. save_config [] ctx f' = (r', f') \<and> sr_ok r' \<and> sr_written r' = Some m"
    by (simp add: save_config_def Let_def read again validate_config_def write_config_def twice)
      (simp add: f')
  then show ?thesis using raw(2) read by (simp add: m_def)
qed

text \<open>Saving without a patch when there is no file yet.\<close>

abbreviation first_save :: "save_result \<times> config_file" where
  "first_save \<equiv> save_config [] NotFetched Missing"

lemma first_save_facts:
  "sr_ok (fst first_save)" "sr_written (fst first_save) = Some (normalize DEFAULT_CONFIG)"
  "snd first_save = Holds (Some (JObj (printed (normalize DEFAULT_CONFIG))))"
proof -
  have "read_config_file Missing = DEFAULT_CONFIG"
    using read_printed [of DEFAULT_CONFIG]
    by (simp add: read_config_file_def ensure_config_file_def write_config_def default_printed KNOWN_KEYS_def)
  then show "sr_ok (fst first_save)" "sr_written (fst first_save) = Some (normalize DEFAULT_CONFIG)"
    "snd first_save = Holds (Some (JObj (printed (normalize DEFAULT_CONFIG))))"
    by (simp_all add: save_config_def Let_def validate_config_def default_accepted write_config_def)
qed

theorem saved_config_reads_back_witness:
  "read_config_file (snd first_save) = printed (normalize DEFAULT_CONFIG)"
  using saved_config_reads_back [OF surjective_pairing, of "[]" NotFetched Missing]
    first_save_facts(1,2) by (metis option.inject)

subsection \<open>From the saved config to the gate\<close>

lemma accepted_rule:
  "config_errors n = [] \<Longrightarrow> rule \<in> set FIELD_RULES \<Longrightarrow> fr_errors rule n = []"
  by (auto simp: config_errors_def)

lemma accepted_field:
  "config_errors n = [] \<Longrightarrow> field_rule k bad msg \<in> set FIELD_RULES \<Longrightarrow> obj_get n k = Some v \<Longrightarrow> \<not> bad v"
  using accepted_rule [of n "field_rule k bad msg"] by (auto simp: field_rule_def split: if_splits)

text \<open>An accepted integer field holds an integer at or above its lower bound.\<close>

definition whole_from :: "json obj \<Rightarrow> string \<Rightarrow> rat \<Rightarrow> bool" where
  "whole_from n k lo = (\<exists>i::int. obj_get n k = Some (JNum (of_int i)) \<and> lo \<le> of_int i)"

lemma not_int_in_False:
  "\<not> not_int_in lo hi v \<longleftrightarrow>
   (\<exists>i::int. v = JNum (of_int i) \<and> lo \<le> of_int i \<and> (case hi of None \<Rightarrow> True | Some h \<Rightarrow> of_int i \<le> h))"
proof (cases v)
  case (JNum r)
  then show ?thesis
    by (auto simp: not_int_in_def not_less split: option.splits)
qed (simp_all add: not_int_in_def)

lemma accepted_int:
  assumes "config_errors n = []" "obj_keys n = KNOWN_KEYS" "k \<in> set KNOWN_KEYS"
    "field_rule k (not_int_in lo hi) msg \<in> set FIELD_RULES"
  shows "whole_from n k lo"
proof -
  obtain v where v: "obj_get n k = Some v" using obj_get_known [OF assms(2)] assms(3) by blast
  then have "\<not> not_int_in lo hi v" using accepted_field [OF assms(1,4)] by blast
  then show ?thesis using v by (auto simp: not_int_in_False whole_from_def)
qed

lemma gate_keys_known:
  "''concurrency_hard_cap'' \<in> set KNOWN_KEYS" "''concurrency_soft_limit'' \<in> set KNOWN_KEYS"
  "''release_cooldown_ms'' \<in> set KNOWN_KEYS" "''breaker_threshold'' \<in> set KNOWN_KEYS"
  "''breaker_window_ms'' \<in> set KNOWN_KEYS" "''breaker_cooldown_ms'' \<in> set KNOWN_KEYS"
  "''max_queue_depth'' \<in> set KNOWN_KEYS" "''queue_timeout_ms'' \<in> set KNOWN_KEYS"
  "''concurrency_main_reservation'' \<in> set KNOWN_KEYS" "''upstream_protocol'' \<in> set KNOWN_KEYS"
  unfolding KNOWN_KEYS_def DEFAULT_CONFIG_def
  by (simp_all only: list.map fst_conv list.set insert_iff refl simp_thms)

lemmas rule_lists = FIELD_RULES_def SERVER_RULES_def GATE_RULES_def VISION_RULES_def

lemma gate_rules_listed:
  "field_rule ''concurrency_hard_cap'' (not_int_in 1 None) ''concurrency_hard_cap must be an integer >= 1'' \<in> set FIELD_RULES"
  "field_rule ''concurrency_soft_limit'' (not_int_in 1 None) ''concurrency_soft_limit must be an integer >= 1'' \<in> set FIELD_RULES"
  "field_rule ''release_cooldown_ms'' (not_int_in 0 None) ''release_cooldown_ms must be a non-negative integer'' \<in> set FIELD_RULES"
  "field_rule ''breaker_threshold'' (not_int_in 1 None) ''breaker_threshold must be a positive integer'' \<in> set FIELD_RULES"
  "field_rule ''breaker_window_ms'' (not_int_in 1000 None) ''breaker_window_ms must be an integer >= 1000'' \<in> set FIELD_RULES"
  "field_rule ''breaker_cooldown_ms'' (not_int_in 1000 None) ''breaker_cooldown_ms must be an integer >= 1000'' \<in> set FIELD_RULES"
  "field_rule ''max_queue_depth'' (not_int_in 1 None) ''max_queue_depth must be a positive integer'' \<in> set FIELD_RULES"
  "field_rule ''queue_timeout_ms'' (not_int_in 100 None) ''queue_timeout_ms must be an integer >= 100'' \<in> set FIELD_RULES"
  "concurrency_main_reservation_rule \<in> set FIELD_RULES"
  "concurrency_vision_reservation_rule \<in> set FIELD_RULES"
  by (simp_all only: rule_lists set_append Un_iff list.set insert_iff refl simp_thms)

lemma accepted_gate_fields:
  assumes "config_errors n = []" "obj_keys n = KNOWN_KEYS"
  shows "whole_from n ''concurrency_hard_cap'' 1" "whole_from n ''concurrency_soft_limit'' 1"
    "whole_from n ''release_cooldown_ms'' 0" "whole_from n ''breaker_threshold'' 1"
    "whole_from n ''breaker_window_ms'' 1000" "whole_from n ''breaker_cooldown_ms'' 1000"
    "whole_from n ''max_queue_depth'' 1" "whole_from n ''queue_timeout_ms'' 100"
  by (rule accepted_int [OF assms], rule gate_keys_known, rule gate_rules_listed)+

lemma whole_from_printed: "whole_from n k lo \<Longrightarrow> whole_from (printed n) k lo"
  by (auto simp: whole_from_def)

lemma whole_fromE:
  assumes "whole_from d k lo"
  obtains i :: int where "\<And>var dflt. num (env_or [] (JObj d) var k) dflt = Fin (of_int i)" "lo \<le> of_int i"
  using assms by (auto simp: whole_from_def env_or_def num_def)

text \<open>Reservations of an accepted config with room for them.\<close>

lemma accepted_reservations:
  assumes ok: "config_errors n = []" and keys: "obj_keys n = KNOWN_KEYS"
    and cap: "obj_get n ''concurrency_hard_cap'' = Some (JNum cap)" "3 \<le> cap"
  shows "whole_from n ''concurrency_main_reservation'' 1"
    "obj_get n ''vision_strategy'' = Some (JStr ''never'') \<or> whole_from n ''concurrency_vision_reservation'' 1"
proof -
  obtain i :: int where "cap = of_int i"
    using accepted_gate_fields(1) [OF ok keys] cap(1) by (auto simp: whole_from_def)
  then have max: "reservation_max n = Some (cap - 2)" using cap by (simp add: reservation_max_def)
  obtain v u where v: "obj_get n ''concurrency_main_reservation'' = Some v"
    and u: "obj_get n ''concurrency_vision_reservation'' = Some u"
    using obj_get_known [OF keys] gate_keys_known known_examples by blast
  have "fr_errors concurrency_main_reservation_rule n = []"
    "fr_errors concurrency_vision_reservation_rule n = []"
    using accepted_rule [OF ok] gate_rules_listed by blast+
  then show "whole_from n ''concurrency_main_reservation'' 1"
    "obj_get n ''vision_strategy'' = Some (JStr ''never'') \<or> whole_from n ''concurrency_vision_reservation'' 1"
    using not_int_in_False [of 1 None]
    by (auto simp: concurrency_main_reservation_rule_def concurrency_vision_reservation_rule_def max v u
        whole_from_def split: if_splits)
qed

text \<open>What the gate's theorems need of its options, and the ranges the settings keep.\<close>

definition suitable :: "gate_options \<Rightarrow> bool" where
  "suitable opts =
     (light_options opts \<and> 1 \<le> o_hard_cap opts \<and> 1 \<le> o_soft_limit opts \<and>
      0 \<le> o_release_cooldown_ms opts \<and> 1 \<le> o_breaker_threshold opts \<and>
      1000 \<le> o_breaker_window_ms opts \<and> 1000 \<le> o_breaker_cooldown_ms opts \<and>
      1 \<le> o_max_queue_depth opts \<and> 100 \<le> o_queue_timeout_ms opts)"

lemma vision_strategy_loaded:
  assumes "obj_get d ''vision_strategy'' = Some (JStr s)"
  shows "vision_strategy [] (JObj d) = JStr s"
  using assms by (simp add: vision_strategy_def env_or_def str_def)

lemma loaded_gate_options:
  assumes load: "load_config [] (JObj d) = Some cfg"
    and w: "whole_from d ''concurrency_hard_cap'' 1" "whole_from d ''concurrency_soft_limit'' 1"
      "whole_from d ''release_cooldown_ms'' 0" "whole_from d ''breaker_threshold'' 1"
      "whole_from d ''breaker_window_ms'' 1000" "whole_from d ''breaker_cooldown_ms'' 1000"
      "whole_from d ''max_queue_depth'' 1" "whole_from d ''queue_timeout_ms'' 100"
      "whole_from d ''concurrency_main_reservation'' 1"
    and vis: "obj_get d ''vision_strategy'' = Some (JStr ''never'') \<or>
      whole_from d ''concurrency_vision_reservation'' 1"
  shows "\<exists>opts. gate_options_from_config cfg = Some opts \<and> suitable opts"
proof -
  note s = loaded_settings [OF load]
  obtain v :: rat where v: "v = 0 \<or> 1 \<le> v"
    and vis': "finite_setting cfg ''concurrencyVisionReservation'' = Some v"
  proof (cases "vision_strategy [] (JObj d) = JStr ''never''")
    case True
    then show thesis using that [of 0] by (simp add: finite_setting_def s)
  next
    case False
    then have "whole_from d ''concurrency_vision_reservation'' 1"
      using vis vision_strategy_loaded by blast
    then obtain i :: int where "\<And>var dflt.
        num (env_or [] (JObj d) var ''concurrency_vision_reservation'') dflt = Fin (of_int i)" "1 \<le> rat_of_int i"
      by (rule whole_fromE) (rule that)
    then show thesis using False that [of "of_int i"]
      by (simp add: finite_setting_def s js_max_def)
  qed
  obtain i1 i2 i3 i4 where i: "\<And>var dflt. num (env_or [] (JObj d) var ''concurrency_hard_cap'') dflt = Fin (of_int i1)"
    "1 \<le> rat_of_int i1" "\<And>var dflt. num (env_or [] (JObj d) var ''concurrency_soft_limit'') dflt = Fin (of_int i2)"
    "1 \<le> rat_of_int i2" "\<And>var dflt. num (env_or [] (JObj d) var ''release_cooldown_ms'') dflt = Fin (of_int i3)"
    "0 \<le> rat_of_int i3" "\<And>var dflt. num (env_or [] (JObj d) var ''breaker_threshold'') dflt = Fin (of_int i4)"
    "1 \<le> rat_of_int i4"
    by (rule whole_fromE [OF w(1)], rule whole_fromE [OF w(2)], rule whole_fromE [OF w(3)],
        rule whole_fromE [OF w(4)]) (rule that)
  obtain i5 i6 i7 i8 i9 where j: "\<And>var dflt. num (env_or [] (JObj d) var ''breaker_window_ms'') dflt = Fin (of_int i5)"
    "1000 \<le> rat_of_int i5" "\<And>var dflt. num (env_or [] (JObj d) var ''breaker_cooldown_ms'') dflt = Fin (of_int i6)"
    "1000 \<le> rat_of_int i6" "\<And>var dflt. num (env_or [] (JObj d) var ''max_queue_depth'') dflt = Fin (of_int i7)"
    "1 \<le> rat_of_int i7" "\<And>var dflt. num (env_or [] (JObj d) var ''queue_timeout_ms'') dflt = Fin (of_int i8)"
    "100 \<le> rat_of_int i8" "\<And>var dflt. num (env_or [] (JObj d) var ''concurrency_main_reservation'') dflt = Fin (of_int i9)"
    "1 \<le> rat_of_int i9"
    by (rule whole_fromE [OF w(5)], rule whole_fromE [OF w(6)], rule whole_fromE [OF w(7)],
        rule whole_fromE [OF w(8)], rule whole_fromE [OF w(9)]) (rule that)
  have "gate_options_from_config cfg = Some
      \<lparr>o_hard_cap = of_int i1, o_soft_limit = of_int i2, o_release_cooldown_ms = i3,
       o_breaker_threshold = i4, o_breaker_window_ms = i5, o_breaker_cooldown_ms = i6,
       o_max_queue_depth = i7, o_queue_timeout_ms = i8,
       o_intentions = Some [(''main'', of_int i9), (''vision'', v)]\<rparr>"
    using vis' by (simp add: gate_options_from_config_def whole_setting_def finite_setting_def s i(1,3,5,7) j(1,3,5,7,9)
        split: option.splits setting.splits jsnum.splits)
  then show ?thesis using i(2,4,6,8) j(2,4,6,8,10) v
    by (auto simp: suitable_def light_options_def whole_intentions_def intentions_ok_def)
qed

definition file_text :: "config_file \<Rightarrow> json option" where
  "file_text f = (case f of Missing \<Rightarrow> None | Holds t \<Rightarrow> t)"

text \<open>
  C13: A saved config suits the gate. When a save is accepted, the protocol is a text and the hard
  cap leaves room for reservations, loading the written file succeeds, all options the gate is
  built from are in the validated ranges, and the gate built from them keeps its invariant and
  never holds back a queue while idle, whatever events follow.
\<close>

theorem saved_config_suits_gate:
  assumes "save_config patch ctx f = (r, f')" "sr_ok r" "sr_written r = Some w"
    "obj_get w ''upstream_protocol'' = Some (JStr p)"
    "obj_get w ''concurrency_hard_cap'' = Some (JNum cap)" "3 \<le> cap"
  shows "\<exists>cfg opts. load_config [] (load_json_config (file_text f')) = Some cfg \<and>
    gate_options_from_config cfg = Some opts \<and> suitable opts \<and>
    (\<forall>es g. gate_run (new_gate opts) es g \<longrightarrow> (\<forall>e\<in>set es. light_event e) \<longrightarrow> gate_inv g \<and> lively g)"
proof -
  obtain raw where ok: "config_errors (normalize raw) = []" and w: "w = normalize raw"
    and f': "f' = Holds (Some (JObj (printed w)))"
    using save_config_ok [OF assms(1,2)] assms(3) by auto
  have parsed: "load_json_config (file_text f') = JObj (printed w)"
    by (simp add: f' file_text_def load_json_config_def)
  obtain cfg where cfg: "load_config [] (JObj (printed w)) = Some cfg"
    using assms(4) by (auto simp: load_config_def env_or_def resolve_upstream_protocol_def)
  have keys: "obj_keys w = KNOWN_KEYS" by (simp add: w)
  note fields = accepted_gate_fields [OF ok [folded w] keys]
    accepted_reservations [OF ok [folded w] keys assms(5,6)]
  have never: "obj_get w ''vision_strategy'' = Some (JStr ''never'') \<Longrightarrow>
      obj_get (printed w) ''vision_strategy'' = Some (JStr ''never'')" by simp
  obtain opts where opts: "gate_options_from_config cfg = Some opts" "suitable opts"
    using loaded_gate_options [OF cfg fields(1-9) [THEN whole_from_printed]]
      fields(10) never whole_from_printed by blast
  then have light: "light_options opts" by (simp add: suitable_def)
  then have "options_ok opts"
    by (auto simp: light_options_def options_ok_def whole_intentions_def split: option.splits)
  then have "gate_inv (new_gate opts)" by (rule new_gate_inv)
  then show ?thesis
    using light_runs.run_extra [OF _ _ new_gate_lively [OF light]] gate_runs.run_inv parsed cfg opts
    by metis
qed

theorem saved_config_suits_gate_witness:
  "\<exists>cfg opts. load_config [] (load_json_config (file_text (snd first_save))) = Some cfg \<and>
     gate_options_from_config cfg = Some opts \<and> suitable opts"
proof -
  have "obj_get (normalize DEFAULT_CONFIG) ''upstream_protocol'' = Some (JStr ''http1.1'')"
    "obj_get (normalize DEFAULT_CONFIG) ''concurrency_hard_cap'' = Some (JNum 16)"
    by (simp_all add: default_normalize default_values)
  then show ?thesis
    using saved_config_suits_gate [OF surjective_pairing, of "[]" NotFetched Missing] first_save_facts(1,2)
    by fastforce
qed

end
