(* ===== verification/Reload_Props.thy ===== *)
theory Reload_Props
  imports Config_Reload Config_Laws Config_Load_Laws Gate_Laws
begin

text \<open>
  Defaults and hot reload: a partial config file loads as the completed one does, a reload brings
  the live settings to those of a fresh load, and what it fails to pass on to the gate.
\<close>

subsection \<open>Completing a config file with the defaults\<close>

abbreviation complete :: "json obj \<Rightarrow> json obj" where
  "complete d \<equiv> obj_merge DEFAULT_CONFIG d"

definition DEFAULTS_DIFFER :: "string list" where
  "DEFAULTS_DIFFER = [''umansApiKey'', ''dashboardToken'', ''visionReasoningEffort'', ''stampModelRules'']"

lemma jget_complete:
  assumes "distinct (obj_keys d)"
  shows "jget (JObj (complete d)) k =
    (case obj_get d k of None \<Rightarrow> obj_get DEFAULT_CONFIG k | Some v \<Rightarrow> Some v)"
  using obj_get_merge [OF assms] by simp

lemma completed_reads:
  assumes "distinct (obj_keys d)"
  shows "obj_get DEFAULT_CONFIG k = Some (JNum r) \<Longrightarrow>
      num (env_or env (JObj (complete d)) var k) r = num (env_or env (JObj d) var k) r"
    "obj_get DEFAULT_CONFIG k = Some (JBool b) \<Longrightarrow>
      bool (env_or env (JObj (complete d)) var k) b = bool (env_or env (JObj d) var k) b"
    "obj_get DEFAULT_CONFIG k = Some (JStr s) \<Longrightarrow>
      str (env_or env (JObj (complete d)) var k) s = str (env_or env (JObj d) var k) s"
    "obj_get DEFAULT_CONFIG k = Some (JStr s) \<Longrightarrow>
      coalesce (env_or env (JObj (complete d)) var k) (JStr s) = coalesce (env_or env (JObj d) var k) (JStr s)"
    "obj_get DEFAULT_CONFIG k = Some (JNum r) \<Longrightarrow>
      env_or_raw_num e (JObj (complete d)) k r = env_or_raw_num e (JObj d) k r"
    "obj_get DEFAULT_CONFIG k = Some (JBool b) \<Longrightarrow>
      env_or_raw_bool e (JObj (complete d)) k b = env_or_raw_bool e (JObj d) k b"
    "obj_get DEFAULT_CONFIG k = Some (JBool True) \<Longrightarrow>
      unless_false env (JObj (complete d)) var k = unless_false env (JObj d) var k"
  by (auto simp: env_or_def num_def bool_def str_def coalesce_def env_or_raw_num_def env_or_raw_bool_def
      unless_false_def obj_get_merge [OF assms] split: option.splits)

lemma completed_protocol:
  assumes "distinct (obj_keys d)"
  shows "resolve_upstream_protocol (env_or env (JObj (complete d)) var ''upstream_protocol'') =
    resolve_upstream_protocol (env_or env (JObj d) var ''upstream_protocol'')"
  by (auto simp: env_or_def resolve_upstream_protocol_def obj_get_merge [OF assms] default_values
      split: option.splits)

lemmas default_picks = default_num_def default_bool_def default_text_def default_values

lemma completed_strategy:
  "distinct (obj_keys d) \<Longrightarrow> vision_strategy env (JObj (complete d)) = vision_strategy env (JObj d)"
  by (simp add: vision_strategy_def completed_reads default_values)

lemma completed_groups:
  assumes "distinct (obj_keys d)"
  shows "load_gate env (JObj (complete d)) = load_gate env (JObj d)"
    "load_vision_intent env (JObj (complete d)) = load_vision_intent env (JObj d)"
    "load_relay env (JObj (complete d)) = load_relay env (JObj d)"
    "load_experiments env (JObj (complete d)) = load_experiments env (JObj d)"
  by (simp_all only: load_gate_def load_vision_intent_def load_relay_def load_experiments_def
      default_num_def default_bool_def default_values option.case json.case
      completed_reads [OF assms] completed_strategy [OF assms])

text \<open>The settings with the exceptions left out.\<close>

definition agreed :: "setting obj \<Rightarrow> setting obj" where
  "agreed cfg = filter (\<lambda>p. fst p \<notin> set DEFAULTS_DIFFER) cfg"

lemma agreed_append: "agreed (a @ b) = agreed a @ agreed b"
  by (simp add: agreed_def)

lemma agreed_groups:
  assumes "distinct (obj_keys d)"
  shows "agreed (load_server p env (JObj (complete d))) = agreed (load_server p env (JObj d))"
    "agreed (load_usage env (JObj (complete d))) = agreed (load_usage env (JObj d))"
    "agreed (load_vision env (JObj (complete d))) = agreed (load_vision env (JObj d))"
proof -
  note simps = default_num_def default_bool_def default_text_def default_values option.case json.case
    completed_reads [OF assms] completed_strategy [OF assms]
  show "agreed (load_server p env (JObj (complete d))) = agreed (load_server p env (JObj d))"
    unfolding load_server_def by (simp only: simps) (simp add: agreed_def DEFAULTS_DIFFER_def)
  show "agreed (load_usage env (JObj (complete d))) = agreed (load_usage env (JObj d))"
    unfolding load_usage_def by (simp only: simps)
  show "agreed (load_vision env (JObj (complete d))) = agreed (load_vision env (JObj d))"
    unfolding load_vision_def by (simp only: simps) (simp add: agreed_def DEFAULTS_DIFFER_def)
qed

lemma completed_agrees:
  assumes "distinct (obj_keys d)"
  shows "map_option agreed (load_config env (JObj (complete d))) =
    map_option agreed (load_config env (JObj d))"
  by (auto simp: load_config_def completed_protocol [OF assms] completed_groups [OF assms]
      agreed_append agreed_groups [OF assms] split: option.splits)

text \<open>
  A partial config file loads as the file completed with the defaults. Whatever keys a config
  file leaves out, loading it fails exactly when loading the completed file fails, and otherwise
  gives the same settings, with four exceptions: the API key, the dashboard token, the vision
  reasoning effort and the model rules, where the loader's own fallback is not the default config's.
\<close>

theorem partial_file_loads_as_completed:
  assumes "distinct (obj_keys d)"
  shows "map_option agreed (load_config env (JObj (complete d))) =
    map_option agreed (load_config env (JObj d))"
  by (rule completed_agrees [OF assms])

theorem partial_file_loads_as_completed_witness:
  "map_option agreed (load_config [(''PORT'', ''80'')] (JObj (complete [(''port'', JNum 8080)]))) =
   map_option agreed (load_config [(''PORT'', ''80'')] (JObj [(''port'', JNum 8080)])) \<and>
   load_config [(''PORT'', ''80'')] (JObj [(''port'', JNum 8080)]) \<noteq> None"
  using partial_file_loads_as_completed [of "[(''port'', JNum 8080)]" "[(''PORT'', ''80'')]"]
  by (simp add: load_config_def env_or_def resolve_upstream_protocol_def)

text \<open>The exceptions are real: what an empty file and the default file load.\<close>

lemma defaults_differ:
  assumes "load_config [] (JObj []) = Some cfg" "load_config [] (JObj DEFAULT_CONFIG) = Some cfg'"
  shows "obj_get cfg ''umansApiKey'' = Some (SVal JNull)" "obj_get cfg' ''umansApiKey'' = Some (SVal (JStr []))"
    "obj_get cfg ''visionReasoningEffort'' = Some (SVal JNull)"
    "obj_get cfg' ''visionReasoningEffort'' = Some (SVal (JStr ''none''))"
    "obj_get cfg ''stampModelRules'' = Some (SVal (JArr []))"
    "obj_get cfg' ''stampModelRules'' \<noteq> Some (SVal (JArr []))"
  by (simp_all add: loaded_settings [OF assms(1)] loaded_settings [OF assms(2)] env_or_def coalesce_def
      default_values parse_stamp_model_rules_def DEFAULT_RULES_def)

subsection \<open>Hot reload\<close>

lemma obj_get_assign [simp]: "obj_get (assign_setting f fresh live) = (obj_get live)(f := obj_get fresh f)"
  by (auto simp: assign_setting_def split: option.splits)

lemma apply_fields_get:
  "obj_get (apply_fields kfs applied fresh live) f =
    (if \<exists>k\<in>set applied. (k, f) \<in> set kfs then obj_get fresh f else obj_get live f)"
  by (induction kfs applied fresh live rule: apply_fields.induct) auto

lemma reload_keys_known: "list_all (\<lambda>(k, f). k \<in> set KNOWN_KEYS) RELOAD_FIELDS"
  unfolding RELOAD_FIELDS_def KNOWN_KEYS_def DEFAULT_CONFIG_def
  by (simp only: list.pred_inject case_prod_conv list.map fst_conv list.set insert_iff refl simp_thms)

text \<open>No key is both hot and in need of a restart, and every known key is one or the other.\<close>

lemma known_key_kinds:
  "list_all (\<lambda>k. k \<in> set RESTART_REQUIRED_FIELDS \<or> k \<in> fst ` set RELOAD_FIELDS) KNOWN_KEYS"
  unfolding RELOAD_FIELDS_def KNOWN_KEYS_def DEFAULT_CONFIG_def RESTART_REQUIRED_FIELDS_def
  by (simp only: list.pred_inject list.map fst_conv list.set image_insert image_empty insert_iff refl simp_thms)

lemma kinds_disjoint: "distinct (RESTART_REQUIRED_FIELDS @ map fst RELOAD_FIELDS)"
proof (rule card_distinct)
  let ?xs = "RESTART_REQUIRED_FIELDS @ map fst RELOAD_FIELDS"
  have "set KNOWN_KEYS \<subseteq> set ?xs"
    using known_key_kinds by (auto simp: list_all_iff)
  then have "card (set KNOWN_KEYS) \<le> card (set ?xs)" by (intro card_mono) simp_all
  moreover have "length KNOWN_KEYS = 78" "length RESTART_REQUIRED_FIELDS = 32" "length RELOAD_FIELDS = 46"
    by (simp_all add: KNOWN_KEYS_def DEFAULT_CONFIG_def RESTART_REQUIRED_FIELDS_def RELOAD_FIELDS_def)
  moreover have "card (set KNOWN_KEYS) = length KNOWN_KEYS" by (rule distinct_card [OF distinct_known])
  ultimately show "card (set ?xs) = length ?xs"
    using card_length [of ?xs] by simp
qed

lemma hot_no_restart: "(k, f) \<in> set RELOAD_FIELDS \<Longrightarrow> k \<notin> set RESTART_REQUIRED_FIELDS"
  using kinds_disjoint by (force simp: image_iff)

lemma obj_get_agreed: "f \<notin> set DEFAULTS_DIFFER \<Longrightarrow> obj_get (agreed cfg) f = obj_get cfg f"
  unfolding agreed_def by (induction cfg) auto

lemma completed_setting:
  assumes "distinct (obj_keys d)" "load_config env (JObj d) = Some cfg"
  obtains cfg' where "load_config env (JObj (complete d)) = Some cfg'"
    "\<And>f. f \<notin> set DEFAULTS_DIFFER \<Longrightarrow> obj_get cfg f = obj_get cfg' f"
proof -
  obtain cfg' where "load_config env (JObj (complete d)) = Some cfg'" "agreed cfg' = agreed cfg"
    using completed_agrees [OF assms(1), of env] assms(2) by auto
  then show thesis using that obj_get_agreed by metis
qed

text \<open>A hot setting depends on its own key, with two exceptions.\<close>

definition SPECIAL_FIELDS :: "string list" where
  "SPECIAL_FIELDS = [''stampModelRules'', ''concurrencyVisionReservation'']"

lemma hot_settings:
  assumes "load_config env raw = Some cfg" "load_config env raw' = Some cfg'"
  shows "list_all (\<lambda>(k, f). f \<in> set SPECIAL_FIELDS \<or>
    (jget raw k = jget raw' k \<longrightarrow> obj_get cfg f = obj_get cfg' f)) RELOAD_FIELDS"
proof -
  have same: "jget raw k = jget raw' k \<Longrightarrow> env_or env raw var k = env_or env raw' var k"
    "jget raw k = jget raw' k \<Longrightarrow> env_or_raw_num e raw k r = env_or_raw_num e raw' k r"
    "jget raw k = jget raw' k \<Longrightarrow> env_or_raw_bool e raw k b = env_or_raw_bool e raw' k b"
    for k var e r b
    by (auto simp: env_or_def env_or_raw_num_def env_or_raw_bool_def split: option.split)
  show ?thesis
    unfolding RELOAD_FIELDS_def
    by (simp only: list.pred_inject case_prod_conv SPECIAL_FIELDS_def list.set insert_iff refl simp_thms)
      (simp add: loaded_settings [OF assms(1)] loaded_settings [OF assms(2)] same)
qed

lemma hot_not_differ: "list_all (\<lambda>(k, f). f \<in> set SPECIAL_FIELDS \<or> f \<notin> set DEFAULTS_DIFFER) RELOAD_FIELDS"
  unfolding RELOAD_FIELDS_def SPECIAL_FIELDS_def DEFAULTS_DIFFER_def by simp

lemma key_changed_printed:
  assumes "printed d = d" "printed d' = d'"
  shows "key_changed d d' k \<longleftrightarrow> obj_get d k \<noteq> obj_get d' k"
  using obj_get_printed [of d k] obj_get_printed [of d' k] assms by (simp add: key_changed_def)

text \<open>
  C14: A reload reaches the fresh settings. Let the live settings hold, for every hot key, what the
  old file loads. After the reload every known key whose text changed is reported exactly once, as
  applied or as in need of a restart; every hot setting other than \<open>SPECIAL_FIELDS\<close> (the model rules
  and the vision reservation) has the value a fresh load of the new file gives it, and those have it
  when their own key changed; and no other setting is touched.
\<close>

theorem reload_reaches_fresh_load:
  assumes "distinct (obj_keys d)" "distinct (obj_keys d')"
    "printed (complete d) = complete d" "printed (complete d') = complete d'"
    "load_config env (JObj d) = Some before" "load_config env (JObj d') = Some fresh"
    "\<forall>(k, f)\<in>set RELOAD_FIELDS. obj_get live f = obj_get before f"
    "apply_reload_to_config live fresh (complete d) (complete d') = (live', applied, restart)"
  shows "(\<forall>k\<in>set KNOWN_KEYS. key_changed (complete d) (complete d') k \<longleftrightarrow> k \<in> set applied \<union> set restart) \<and>
    set applied \<inter> set restart = {} \<and>
    (\<forall>(k, f)\<in>set RELOAD_FIELDS. k \<in> set applied \<or> f \<notin> set SPECIAL_FIELDS \<longrightarrow>
       obj_get live' f = obj_get fresh f) \<and>
    (\<forall>f. f \<notin> snd ` set RELOAD_FIELDS \<longrightarrow> obj_get live' f = obj_get live f)"
proof -
  have res: "live' = apply_fields RELOAD_FIELDS applied fresh live"
    "applied = filter (\<lambda>k. k \<notin> set RESTART_REQUIRED_FIELDS)
       (filter (key_changed (complete d) (complete d')) (obj_keys (complete d')))"
    "restart = filter (\<lambda>k. k \<in> set RESTART_REQUIRED_FIELDS)
       (filter (key_changed (complete d) (complete d')) (obj_keys (complete d')))"
    using assms(8) by (auto simp: apply_reload_to_config_def Let_def)
  have known: "set KNOWN_KEYS \<subseteq> set (obj_keys (complete d'))"
    using set_keys_merge [of DEFAULT_CONFIG d'] by (simp add: KNOWN_KEYS_def)
  obtain cfg cfg' where cfg: "load_config env (JObj (complete d)) = Some cfg"
      "\<And>f. f \<notin> set DEFAULTS_DIFFER \<Longrightarrow> obj_get before f = obj_get cfg f"
    and cfg': "load_config env (JObj (complete d')) = Some cfg'"
      "\<And>f. f \<notin> set DEFAULTS_DIFFER \<Longrightarrow> obj_get fresh f = obj_get cfg' f"
    using completed_setting [OF assms(1,5)] completed_setting [OF assms(2,6)] by metis
  have hot: "obj_get live' f = obj_get fresh f"
    if kf: "(k, f) \<in> set RELOAD_FIELDS" and ok: "k \<in> set applied \<or> f \<notin> set SPECIAL_FIELDS" for k f
  proof (cases "\<exists>k'\<in>set applied. (k', f) \<in> set RELOAD_FIELDS")
    case False
    then have "k \<notin> set applied" and f: "f \<notin> set SPECIAL_FIELDS" using kf ok by auto
    moreover have "k \<in> set KNOWN_KEYS" using reload_keys_known kf by (auto simp: list_all_iff)
    ultimately have "\<not> key_changed (complete d) (complete d') k"
      using hot_no_restart [OF kf] known by (auto simp: res(2))
    then have "jget (JObj (complete d)) k = jget (JObj (complete d')) k"
      using key_changed_printed [OF assms(3,4)] by simp
    then have "obj_get cfg f = obj_get cfg' f"
      using hot_settings [OF cfg(1) cfg'(1)] kf f by (auto simp: list_all_iff)
    moreover have "f \<notin> set DEFAULTS_DIFFER" using hot_not_differ kf f by (auto simp: list_all_iff)
    ultimately have "obj_get before f = obj_get fresh f" using cfg(2) cfg'(2) by simp
    then show ?thesis using False assms(7) kf by (auto simp: res(1) apply_fields_get)
  qed (simp add: res(1) apply_fields_get)
  have other: "f \<notin> snd ` set RELOAD_FIELDS \<Longrightarrow> obj_get live' f = obj_get live f" for f
    unfolding res(1) apply_fields_get by force
  have "\<forall>k\<in>set KNOWN_KEYS. key_changed (complete d) (complete d') k \<longleftrightarrow> k \<in> set applied \<union> set restart"
    using known by (auto simp: res(2,3))
  then show ?thesis using hot other by (auto simp: res(2,3))
qed

lemma printed_set: "printed (obj_set d k v) = obj_set (printed d) k (through_text v)"
  by (induction d k v rule: obj_set.induct) auto

theorem reload_reaches_fresh_load_witness:
  "\<exists>before live' applied restart. load_config [] (JObj []) = Some before \<and>
     obj_get before ''queueTimeoutMs'' = Some (SNum (Fin 180000)) \<and>
     obj_get live' ''queueTimeoutMs'' = Some (SNum (Fin 500)) \<and> ''queue_timeout_ms'' \<in> set applied \<union> set restart"
proof -
  let ?d = "[(''queue_timeout_ms'', JNum 500)] :: json obj"
  obtain before fresh where load: "load_config [] (JObj []) = Some before" "load_config [] (JObj ?d) = Some fresh"
    by (simp add: load_config_def env_or_def resolve_upstream_protocol_def)
  obtain live' applied restart where
    r: "apply_reload_to_config before fresh (complete []) (complete ?d) = (live', applied, restart)"
    by (metis prod.exhaust)
  have p: "printed (complete []) = complete []" "printed (complete ?d) = complete ?d"
    by (simp_all only: obj_merge.simps printed_set default_printed through_text.simps)
  have "distinct (obj_keys ?d)" "distinct (obj_keys ([] :: json obj))"
    "\<forall>(k, f)\<in>set RELOAD_FIELDS. obj_get before f = obj_get before f" by simp_all
  note all = reload_reaches_fresh_load [OF this(2,1) p load this(3) r]
  have "(''queue_timeout_ms'', ''queueTimeoutMs'') \<in> set RELOAD_FIELDS"
    unfolding RELOAD_FIELDS_def by (simp only: list.set insert_iff refl simp_thms)
  then have "obj_get live' ''queueTimeoutMs'' = obj_get fresh ''queueTimeoutMs''"
    using all by (auto simp: SPECIAL_FIELDS_def)
  moreover have "key_changed (complete []) (complete ?d) ''queue_timeout_ms''"
    by (simp only: key_changed_printed [OF p]) (simp add: default_values)
  moreover have "''queue_timeout_ms'' \<in> set KNOWN_KEYS"
    unfolding KNOWN_KEYS_def DEFAULT_CONFIG_def
    by (simp only: list.map fst_conv list.set insert_iff refl simp_thms)
  ultimately show ?thesis
    using all load by (intro exI [of _ before] exI [of _ live'] exI [of _ applied] exI [of _ restart])
      (auto simp: loaded_settings [OF load(1)] loaded_settings [OF load(2)] env_or_def num_def)
qed

subsection \<open>What a reload does not pass on\<close>

text \<open>The gate's list has the names of settings, the reported keys are those of the file.\<close>

lemma reconfig_fields_unknown: "list_all (\<lambda>f. f \<notin> set KNOWN_KEYS) GATE_RECONFIG_FIELDS"
  by (simp add: GATE_RECONFIG_FIELDS_def KNOWN_KEYS_def DEFAULT_CONFIG_def)

text \<open>The options of a running gate that only \<open>reconfigure\<close> can change.\<close>

definition gate_tuning :: "gate \<Rightarrow> (int \<times> int \<times> int \<times> int obj) \<times> int \<times> int \<times> int" where
  "gate_tuning g =
     ((sem_queue_timeout_ms (g_sem g), sem_max_queue_depth (g_sem g), sem_release_cooldown_ms (g_sem g),
       sem_reservations (g_sem g)),
      br_threshold (g_brk g), br_window_ms (g_brk g), br_cooldown_ms (g_brk g))"

lemma drain_waiters_tuning:
  assumes "drain_waiters s = (s', ws)"
  shows "sem_queue_timeout_ms s' = sem_queue_timeout_ms s" "sem_max_queue_depth s' = sem_max_queue_depth s"
    "sem_release_cooldown_ms s' = sem_release_cooldown_ms s" "sem_reservations s' = sem_reservations s"
proof -
  obtain t r g where t: "drain_loop s (sem_waiters s) = (t, r, g)" by (metis prod.exhaust)
  have "sem_queue_timeout_ms t = sem_queue_timeout_ms s" "sem_max_queue_depth t = sem_max_queue_depth s"
    "sem_release_cooldown_ms t = sem_release_cooldown_ms s" "sem_reservations t = sem_reservations s"
    by (subst drain_loop_frame [OF t], simp)+
  then show "sem_queue_timeout_ms s' = sem_queue_timeout_ms s" "sem_max_queue_depth s' = sem_max_queue_depth s"
    "sem_release_cooldown_ms s' = sem_release_cooldown_ms s" "sem_reservations s' = sem_reservations s"
    using assms t by (auto simp: drain_waiters_def split: if_splits)
qed

lemma gate_set_hard_cap_tuning: "gate_tuning (gate_set_hard_cap x g) = gate_tuning g"
  by (auto simp: gate_tuning_def gate_set_hard_cap_def set_hard_cap_def Let_def drain_waiters_tuning
      split: prod.splits if_splits)

lemma gate_set_soft_limit_tuning: "gate_tuning (gate_set_soft_limit x g) = gate_tuning g"
  by (simp add: gate_tuning_def gate_set_soft_limit_def set_soft_limit_def Let_def)

lemma gate_resize_tuning: "gate_resize x g = Some g' \<Longrightarrow> gate_tuning g' = gate_tuning g"
  by (auto simp: gate_tuning_def gate_resize_def resize_def Let_def drain_waiters_tuning
      split: prod.splits if_splits option.splits)

lemma effective_limit_tuning:
  "apply_effective_limit now cfg snap g = Some g' \<Longrightarrow> gate_tuning g' = gate_tuning g"
  by (auto simp: apply_effective_limit_def Let_def split: if_splits dest!: gate_resize_tuning)

text \<open>
  A hot reload never reconfigures the gate. Whatever the new file changes, the gate comes out
  of the reload with the queue timeout, queue depth, release cooldown, reservations and breaker
  settings it went in with, also when these very keys are reported as applied: the list that
  decides names the settings in camel case, the reported keys are the file's snake case ones.
\<close>

theorem hot_reload_skips_gate_options:
  assumes "apply_reload_to_config live fresh oldRaw newRaw = (live', applied, restart)"
    "set (obj_keys newRaw) \<subseteq> set KNOWN_KEYS" "reload_gate now live' applied snap g = Some g'"
  shows "gate_tuning g' = gate_tuning g"
proof -
  have "set applied \<subseteq> set KNOWN_KEYS"
    using assms(1,2) by (auto simp: apply_reload_to_config_def Let_def)
  then have none: "\<not> (\<exists>k\<in>set applied. k \<in> set GATE_RECONFIG_FIELDS)"
    using reconfig_fields_unknown by (auto simp: list_all_iff)
  show ?thesis
    using assms(3) none
    by (auto simp: reload_gate_def Let_def gate_set_hard_cap_tuning gate_set_soft_limit_tuning
        split: if_splits dest!: effective_limit_tuning)
qed

definition demo_snapshot :: limit_snapshot where
  "demo_snapshot = \<lparr>ls_priority_low = False, ls_boxed_until = None, ls_boxed_reason = None\<rparr>"

definition live_gate :: gate where
  "live_gate = new_gate \<lparr>o_hard_cap = 16, o_soft_limit = 8, o_release_cooldown_ms = 1000,
     o_breaker_threshold = 5, o_breaker_window_ms = 300000, o_breaker_cooldown_ms = 60000,
     o_max_queue_depth = 256, o_queue_timeout_ms = 180000,
     o_intentions = Some [(''main'', 1), (''vision'', 0)]\<rparr>"

theorem hot_reload_skips_gate_options_witness:
  "\<exists>live' applied restart g'.
     apply_reload_to_config [(''queueTimeoutMs'', SNum (Fin 180000))] [(''queueTimeoutMs'', SNum (Fin 500))]
       [(''queue_timeout_ms'', JNum 180000)] [(''queue_timeout_ms'', JNum 500)] = (live', applied, restart) \<and>
     applied = [''queue_timeout_ms''] \<and>
     reload_gate 0 live' applied demo_snapshot live_gate = Some g' \<and>
     sem_queue_timeout_ms (g_sem g') = 180000"
proof -
  let ?old = "[(''queue_timeout_ms'', JNum 180000)]" and ?new = "[(''queue_timeout_ms'', JNum 500)]"
  let ?live = "[(''queueTimeoutMs'', SNum (Fin 180000))]" and ?fresh = "[(''queueTimeoutMs'', SNum (Fin 500))]"
  obtain live' applied restart where r: "apply_reload_to_config ?live ?fresh ?old ?new = (live', applied, restart)"
    by (metis prod.exhaust)
  have hot: "(''queue_timeout_ms'', ''queueTimeoutMs'') \<in> set RELOAD_FIELDS"
    unfolding RELOAD_FIELDS_def by (simp only: list.set insert_iff refl simp_thms)
  then have known: "''queue_timeout_ms'' \<in> set KNOWN_KEYS"
    using reload_keys_known by (auto simp: list_all_iff)
  have applied: "applied = [''queue_timeout_ms'']"
    using r hot_no_restart [OF hot] by (auto simp: apply_reload_to_config_def Let_def key_changed_def)
  have run: "reload_gate 0 live' applied demo_snapshot live_gate = Some live_gate"
    by (simp add: applied reload_gate_def GATE_RECONFIG_FIELDS_def)
  have "gate_tuning live_gate = gate_tuning live_gate"
    by (rule hot_reload_skips_gate_options [OF r _ run]) (use known in simp)
  then show ?thesis using r applied run
    by (intro exI conjI) (auto simp: live_gate_def new_gate_def new_semaphore_def Let_def)
qed

end
