(* ===== verification/Sse.thy ===== *)
theory Sse
  imports Json "HOL-Library.While_Combinator"
begin

text \<open>
  The parsers of streamed responses (\<open>src/usage/sse-parse.ts\<close>). The chunks of a response are
  appended to a buffer; every complete event block, ended by an empty line, is cut off and parsed.
  The inner loop is \<open>while_option\<close>: \<open>None\<close> would be a loop that does not end. \<open>JSON.parse\<close> is the
  argument \<open>parse\<close>, \<open>None\<close> its \<open>SyntaxError\<close>: nothing depends on what it makes of a text.
  An event is its value together with the receive time the parser sets on it.
\<close>

subsection \<open>Blocks and lines\<close>

abbreviation newline :: char where
  "newline \<equiv> CHR 0x0A"

text \<open>\<open>buf.indexOf("\n\n")\<close>\<close>

fun break_at :: "string \<Rightarrow> nat option" where
  "break_at [] = None"
| "break_at [c] = None"
| "break_at (c # d # s) =
     (if c = newline \<and> d = newline then Some 0 else map_option Suc (break_at (d # s)))"

text \<open>\<open>s.split("\n")\<close>\<close>

fun split_lines :: "string \<Rightarrow> string list" where
  "split_lines [] = [[]]"
| "split_lines (c # s) =
     (if c = newline then [] # split_lines s
      else case split_lines s of [] \<Rightarrow> [[c]] | l # ls \<Rightarrow> (c # l) # ls)"

record timed_chunk =
  tc_text :: string
  tc_time :: rat

record sse_event =
  ev_value :: json
  ev_received_at :: "rat option"

text \<open>\<open>ev.received_at\<close>: the time set by the parser hides a field of that name.\<close>

definition received_at :: "sse_event \<Rightarrow> json option" where
  "received_at ev =
     (case ev_received_at ev of Some t \<Rightarrow> Some (JNum t) | None \<Rightarrow> jget (ev_value ev) ''received_at'')"

text \<open>The loop over the complete blocks of the buffer, with the state the handler updates.\<close>

definition block_loop :: "(string \<Rightarrow> 's \<Rightarrow> 's) \<Rightarrow> string \<times> 's \<Rightarrow> (string \<times> 's) option" where
  "block_loop handle =
     while_option (\<lambda>(buf, s). break_at buf \<noteq> None)
       (\<lambda>(buf, s). (drop (the (break_at buf) + 2) buf, handle (take (the (break_at buf)) buf) s))"

fun feed :: "(rat \<Rightarrow> string \<Rightarrow> 's \<Rightarrow> 's) \<Rightarrow> timed_chunk list \<Rightarrow> string \<Rightarrow> 's \<Rightarrow> (string \<times> 's) option" where
  "feed handle [] buf s = Some (buf, s)"
| "feed handle (c # cs) buf s =
     (case block_loop (handle (tc_time c)) (buf @ tc_text c, s) of
        None \<Rightarrow> None | Some (buf', s') \<Rightarrow> feed handle cs buf' s')"

definition last_time :: "timed_chunk list \<Rightarrow> rat option" where
  "last_time chunks = (if chunks = [] then None else Some (tc_time (last chunks)))"

subsection \<open>Anthropic\<close>

definition scan_line :: "string \<Rightarrow> string \<times> string option \<Rightarrow> string \<times> string option" where
  "scan_line line st =
     (if starts_with line ''event: '' then (trim (drop 7 line), snd st)
      else if starts_with line ''data: '' then (fst st, Some (drop 6 line)) else st)"

text \<open>\<open>{type: parsed.type ?? type, ...parsed}\<close>; reading \<open>type\<close> of null is caught.\<close>

definition parse_event_block :: "(string \<Rightarrow> json option) \<Rightarrow> string \<Rightarrow> string \<Rightarrow> json option" where
  "parse_event_block parse block evType =
     (case fold scan_line (split_lines block) (evType, None) of
        (ty, None) \<Rightarrow> None
      | (ty, Some dataLine) \<Rightarrow>
          (if dataLine = ''[DONE]'' then None
           else case parse dataLine of
                  None \<Rightarrow> None
                | Some JNull \<Rightarrow> None
                | Some v \<Rightarrow> Some (JObj (obj_merge
                    [(''type'', case jget v ''type'' of None \<Rightarrow> JStr ty | Some JNull \<Rightarrow> JStr ty | Some t \<Rightarrow> t)]
                    (spread v)))))"

definition event_type_of :: "string \<Rightarrow> string \<Rightarrow> string" where
  "event_type_of block evType =
     fold (\<lambda>line ty. if starts_with line ''event: '' then trim (drop 7 line) else ty) (split_lines block) evType"

definition anthropic_block ::
  "(string \<Rightarrow> json option) \<Rightarrow> rat \<Rightarrow> string \<Rightarrow> string \<times> sse_event list \<Rightarrow> string \<times> sse_event list" where
  "anthropic_block parse time block st =
     (let evType = event_type_of block (fst st)
      in (evType, case parse_event_block parse block evType of
                    None \<Rightarrow> snd st
                  | Some v \<Rightarrow> snd st @ [\<lparr>ev_value = v, ev_received_at = Some time\<rparr>]))"

definition parse_anthropic_sse ::
  "(string \<Rightarrow> json option) \<Rightarrow> timed_chunk list \<Rightarrow> sse_event list option" where
  "parse_anthropic_sse parse chunks =
     (case feed (anthropic_block parse) chunks [] ([], []) of
        None \<Rightarrow> None
      | Some (buf, evType, events) \<Rightarrow> Some
          (if trim buf = [] then events
           else case parse_event_block parse buf evType of
                  None \<Rightarrow> events
                | Some v \<Rightarrow> events @ [\<lparr>ev_value = v, ev_received_at = last_time chunks\<rparr>]))"

subsection \<open>OpenAI\<close>

definition parse_data_line :: "(string \<Rightarrow> json option) \<Rightarrow> string \<Rightarrow> json option" where
  "parse_data_line parse d = (if d = ''[DONE]'' then None else parse d)"

text \<open>
  One line. The events are \<open>None\<close> once a \<open>TypeError\<close> was thrown: setting a property on a truthy
  number, text or boolean throws in a module.
\<close>

definition openai_line ::
  "(string \<Rightarrow> json option) \<Rightarrow> rat option \<Rightarrow> string \<Rightarrow> sse_event list option \<Rightarrow> sse_event list option" where
  "openai_line parse time line st =
     (case st of
        None \<Rightarrow> None
      | Some events \<Rightarrow>
          (if starts_with line ''data: '' then
             (case parse_data_line parse (drop 6 line) of
                None \<Rightarrow> Some events
              | Some ch \<Rightarrow>
                  (if \<not> truthy ch then Some events
                   else if \<not> is_object ch \<and> time \<noteq> None then None
                   else Some (events @ [\<lparr>ev_value = ch, ev_received_at = time\<rparr>])))
           else Some events))"

definition openai_block ::
  "(string \<Rightarrow> json option) \<Rightarrow> rat \<Rightarrow> string \<Rightarrow> sse_event list option \<Rightarrow> sse_event list option" where
  "openai_block parse time block st = fold (openai_line parse (Some time)) (split_lines block) st"

text \<open>The outer option is the loop, the inner one the exception.\<close>

definition parse_openai_sse ::
  "(string \<Rightarrow> json option) \<Rightarrow> timed_chunk list \<Rightarrow> sse_event list option option" where
  "parse_openai_sse parse chunks =
     (case feed (openai_block parse) chunks [] (Some []) of
        None \<Rightarrow> None
      | Some (buf, st) \<Rightarrow> Some
          (if trim buf = [] then st
           else fold (openai_line parse (last_time chunks)) (split_lines buf) st))"

end
