(* ===== verification/Usage_Extract.thy ===== *)
theory Usage_Extract
  imports Sse
begin

text \<open>
  Token usage of one response (\<open>src/usage/helpers.ts\<close>, \<open>src/usage/extract.ts\<close>,
  \<open>src/models/name.ts\<close>): the extractors of the two formats, streamed or not, and the entry point
  that picks one. A number \<open>num\<close> rejects (NaN, infinite) counts as 0. \<open>JSON.parse\<close> is the argument
  \<open>parse\<close>. Values the interfaces do not constrain at run time (the thinking tokens) stay JSON
  values, with \<open>JNull\<close> for null.
\<close>

datatype provider = Anthropic | OpenAi

record usage_metrics =
  um_provider :: provider
  um_streaming :: bool
  um_input :: "rat option"
  um_output :: "rat option"
  um_cache_creation :: "rat option"
  um_cache_read :: "rat option"
  um_total_input :: "rat option"
  um_total_output :: "rat option"
  um_thinking :: json
  um_thinking_blocks :: "nat option"
  um_ttft :: "rat option"
  um_duration :: "rat option"
  um_tps :: "rat option"
  um_usage_missing :: bool
  um_model :: "string option"

subsection \<open>Helpers\<close>

definition finite_num :: "json option \<Rightarrow> rat" where
  "finite_num v = (case v of Some (JNum r) \<Rightarrow> r | _ \<Rightarrow> 0)"

definition num_or :: "json option \<Rightarrow> rat \<Rightarrow> rat" where
  "num_or v fallback = (case v of Some (JNum r) \<Rightarrow> r | _ \<Rightarrow> fallback)"

definition compute_tps :: "rat option \<Rightarrow> rat option \<Rightarrow> rat option \<Rightarrow> rat option" where
  "compute_tps output durationMs ttftMs =
     (case output of
        None \<Rightarrow> None
      | Some out \<Rightarrow>
          (if out \<le> 0 then None
           else case durationMs of
                  None \<Rightarrow> None
                | Some d \<Rightarrow>
                    (let genMs = (case ttftMs of Some t \<Rightarrow> if t > 0 then d - t else d | None \<Rightarrow> d)
                     in if genMs < 1000 then None else Some (out / genMs * 1000))))"

definition empty_metrics :: "provider \<Rightarrow> bool \<Rightarrow> rat option \<Rightarrow> usage_metrics" where
  "empty_metrics p streaming durationMs =
     \<lparr>um_provider = p, um_streaming = streaming, um_input = None, um_output = None,
      um_cache_creation = None, um_cache_read = None, um_total_input = None, um_total_output = None,
      um_thinking = JNull, um_thinking_blocks = None, um_ttft = None, um_duration = durationMs,
      um_tps = None, um_usage_missing = True, um_model = None\<rparr>"

text \<open>\<open>v ?? null\<close>\<close>

definition or_null :: "json option \<Rightarrow> json" where
  "or_null v = (case v of None \<Rightarrow> JNull | Some j \<Rightarrow> j)"

text \<open>\<open>v?.[0]\<close>\<close>

definition first_of :: "json option \<Rightarrow> json option" where
  "first_of v =
     (case v of
        Some (JArr (x # _)) \<Rightarrow> Some x
      | Some (JObj d) \<Rightarrow> obj_get d ''0''
      | Some (JStr (c # _)) \<Rightarrow> Some (JStr [c])
      | _ \<Rightarrow> None)"

text \<open>A truthy optional value, as \<open>if (v)\<close> narrows it.\<close>

definition truthy_opt :: "json option \<Rightarrow> json option" where
  "truthy_opt v = (case v of Some j \<Rightarrow> if truthy j then Some j else None | None \<Rightarrow> None)"

definition non_null :: "json option \<Rightarrow> bool" where
  "non_null v = (\<not> is_nullish v)"

text \<open>The receive time of an event where it is set and not 0.\<close>

definition stamp_of :: "sse_event \<Rightarrow> rat option" where
  "stamp_of ev = (case jnum (received_at ev) of Some t \<Rightarrow> if t \<noteq> 0 then Some t else None | None \<Rightarrow> None)"

subsection \<open>Anthropic\<close>

definition extract_anthropic_non_streaming :: "json \<Rightarrow> rat option \<Rightarrow> usage_metrics" where
  "extract_anthropic_non_streaming body durationMs =
     (case truthy_opt (jget body ''usage'') of
        None \<Rightarrow> empty_metrics Anthropic False durationMs
      | Some u \<Rightarrow>
          (let input = finite_num (jget u ''input_tokens'');
               output = finite_num (jget u ''output_tokens'');
               cacheCreate = num_or (jget u ''cache_creation_input_tokens'') 0;
               cacheRead = num_or (jget u ''cache_read_input_tokens'') 0
           in \<lparr>um_provider = Anthropic, um_streaming = False, um_input = Some input,
               um_output = Some output, um_cache_creation = Some cacheCreate,
               um_cache_read = Some cacheRead, um_total_input = Some (input + cacheCreate + cacheRead),
               um_total_output = Some output,
               um_thinking = or_null (jopt (jget u ''output_tokens_details'') ''thinking_tokens''),
               um_thinking_blocks = None, um_ttft = None, um_duration = durationMs,
               um_tps = compute_tps (Some output) durationMs None, um_usage_missing = False,
               um_model = None\<rparr>))"

record tally =
  ta_input :: "rat option"
  ta_output :: "rat option"
  ta_cache_create :: rat
  ta_cache_read :: rat
  ta_thinking :: json
  ta_ttft :: "rat option"
  ta_last :: "rat option"
  ta_saw_usage :: bool

definition new_tally :: tally where
  "new_tally = \<lparr>ta_input = None, ta_output = None, ta_cache_create = 0, ta_cache_read = 0,
     ta_thinking = JNull, ta_ttft = None, ta_last = None, ta_saw_usage = False\<rparr>"

definition event_is :: "sse_event \<Rightarrow> string \<Rightarrow> bool" where
  "event_is ev ty = (jget (ev_value ev) ''type'' = Some (JStr ty))"

definition on_message_start :: "json option \<Rightarrow> tally \<Rightarrow> tally" where
  "on_message_start usage t =
     (case truthy_opt usage of
        None \<Rightarrow> t
      | Some u \<Rightarrow> t\<lparr>ta_input := Some (finite_num (jget u ''input_tokens'')),
          ta_cache_create := num_or (jget u ''cache_creation_input_tokens'') 0,
          ta_cache_read := num_or (jget u ''cache_read_input_tokens'') 0,
          ta_saw_usage := True\<rparr>)"

definition on_message_delta :: "json option \<Rightarrow> tally \<Rightarrow> tally" where
  "on_message_delta usage t =
     (case truthy_opt usage of
        None \<Rightarrow> t
      | Some u \<Rightarrow>
          (let out = jget u ''output_tokens''; inp = jget u ''input_tokens'';
               cc = jget u ''cache_creation_input_tokens''; cr = jget u ''cache_read_input_tokens'';
               th = jopt (jget u ''output_tokens_details'') ''thinking_tokens'';
               t1 = (if non_null out then t\<lparr>ta_output := Some (finite_num out), ta_saw_usage := True\<rparr> else t);
               t2 = (if non_null inp then t1\<lparr>ta_input := Some (finite_num inp)\<rparr> else t1);
               t3 = (if non_null cc then t2\<lparr>ta_cache_create := finite_num cc\<rparr> else t2);
               t4 = (if non_null cr then t3\<lparr>ta_cache_read := finite_num cr\<rparr> else t3)
           in if non_null th then t4\<lparr>ta_thinking := or_null th\<rparr> else t4))"

definition tally_event :: "rat \<Rightarrow> sse_event \<Rightarrow> tally \<Rightarrow> tally" where
  "tally_event startedAt ev t0 =
     (let t = (case stamp_of ev of Some s \<Rightarrow> t0\<lparr>ta_last := Some s\<rparr> | None \<Rightarrow> t0)
      in if event_is ev ''message_start''
         then on_message_start (jopt (jget (ev_value ev) ''message'') ''usage'') t
         else if event_is ev ''message_delta'' then on_message_delta (jget (ev_value ev) ''usage'') t
         else if event_is ev ''content_block_delta'' \<and> ta_ttft t = None
         then (case stamp_of ev of Some s \<Rightarrow> t\<lparr>ta_ttft := Some (s - startedAt)\<rparr> | None \<Rightarrow> t)
         else t)"

definition stream_duration :: "rat option \<Rightarrow> rat \<Rightarrow> rat option \<Rightarrow> rat option" where
  "stream_duration lastAt startedAt wallClock =
     (let eventMs = map_option (\<lambda>l. l - startedAt) lastAt
      in case wallClock of
           Some w \<Rightarrow> Some (max (case eventMs of Some e \<Rightarrow> e | None \<Rightarrow> 0) w)
         | None \<Rightarrow> eventMs)"

definition extract_anthropic_streaming ::
  "sse_event list \<Rightarrow> rat \<Rightarrow> rat option \<Rightarrow> usage_metrics" where
  "extract_anthropic_streaming events startedAt wallClock =
     (let t = fold (tally_event startedAt) events new_tally;
          durationMs = stream_duration (ta_last t) startedAt wallClock
      in \<lparr>um_provider = Anthropic, um_streaming = True, um_input = ta_input t,
          um_output = ta_output t, um_cache_creation = Some (ta_cache_create t),
          um_cache_read = Some (ta_cache_read t),
          um_total_input = map_option (\<lambda>i. i + ta_cache_create t + ta_cache_read t) (ta_input t),
          um_total_output = ta_output t, um_thinking = ta_thinking t, um_thinking_blocks = None,
          um_ttft = ta_ttft t, um_duration = durationMs,
          um_tps = compute_tps (ta_output t) durationMs (ta_ttft t),
          um_usage_missing = (\<not> ta_saw_usage t), um_model = None\<rparr>)"

subsection \<open>OpenAI\<close>

definition openai_metrics ::
  "json \<Rightarrow> bool \<Rightarrow> nat \<Rightarrow> rat option \<Rightarrow> rat option \<Rightarrow> usage_metrics" where
  "openai_metrics u streaming blocks ttftMs durationMs =
     (let prompt = finite_num (jget u ''prompt_tokens'');
          completion = finite_num (jget u ''completion_tokens'')
      in \<lparr>um_provider = OpenAi, um_streaming = streaming, um_input = Some prompt,
          um_output = Some completion, um_cache_creation = None,
          um_cache_read = Some (num_or (jopt (jget u ''prompt_tokens_details'') ''cached_tokens'') 0),
          um_total_input = Some prompt, um_total_output = Some completion,
          um_thinking = or_null (jopt (jget u ''completion_tokens_details'') ''reasoning_tokens''),
          um_thinking_blocks = Some blocks, um_ttft = ttftMs, um_duration = durationMs,
          um_tps = compute_tps (Some completion) durationMs ttftMs, um_usage_missing = False,
          um_model = None\<rparr>)"

definition extract_openai_non_streaming :: "json \<Rightarrow> rat option \<Rightarrow> usage_metrics" where
  "extract_openai_non_streaming body durationMs =
     (case truthy_opt (jget body ''usage'') of
        None \<Rightarrow> empty_metrics OpenAi False durationMs
      | Some u \<Rightarrow>
          (let content = jopt (jopt (first_of (jget body ''choices'')) ''message'') ''reasoning_content'';
               blocks = (case jstr content of Some (c # s) \<Rightarrow> 1 | _ \<Rightarrow> 0)
           in openai_metrics u False blocks None durationMs))"

record openai_tally =
  ot_usage :: "json option"
  ot_ttft :: "rat option"
  ot_last :: "rat option"
  ot_reasoning :: bool

definition new_openai_tally :: openai_tally where
  "new_openai_tally = \<lparr>ot_usage = None, ot_ttft = None, ot_last = None, ot_reasoning = False\<rparr>"

definition carries_delta :: "json \<Rightarrow> bool" where
  "carries_delta ch =
     (case jarr (jget ch ''choices'') of
        Some (c # cs) \<Rightarrow>
          (case truthy_opt (jget c ''delta'') of
             None \<Rightarrow> False
           | Some d \<Rightarrow> list_ex (\<lambda>k. truthy_opt (jget d k) \<noteq> None)
               [''content'', ''reasoning_content'', ''tool_calls''])
      | _ \<Rightarrow> False)"

definition carries_reasoning :: "json \<Rightarrow> bool" where
  "carries_reasoning ch =
     (truthy_opt (jopt (jopt (first_of (jget ch ''choices'')) ''delta'') ''reasoning_content'') \<noteq> None)"

definition tally_chunk :: "rat \<Rightarrow> sse_event \<Rightarrow> openai_tally \<Rightarrow> openai_tally" where
  "tally_chunk startedAt ev t0 =
     (let ch = ev_value ev;
          t1 = (case stamp_of ev of Some s \<Rightarrow> t0\<lparr>ot_last := Some s\<rparr> | None \<Rightarrow> t0);
          t2 = (case stamp_of ev of
                  Some s \<Rightarrow> if ot_ttft t1 = None \<and> carries_delta ch
                             then t1\<lparr>ot_ttft := Some (s - startedAt)\<rparr> else t1
                | None \<Rightarrow> t1);
          t3 = (if carries_reasoning ch then t2\<lparr>ot_reasoning := True\<rparr> else t2)
      in if non_null (jget ch ''usage'') then t3\<lparr>ot_usage := jget ch ''usage''\<rparr> else t3)"

definition extract_openai_streaming ::
  "sse_event list \<Rightarrow> rat \<Rightarrow> rat option \<Rightarrow> usage_metrics" where
  "extract_openai_streaming chunks startedAt wallClock =
     (let t = fold (tally_chunk startedAt) chunks new_openai_tally;
          durationMs = stream_duration (ot_last t) startedAt wallClock;
          blocks = (if ot_reasoning t then 1 else 0)
      in case truthy_opt (ot_usage t) of
           None \<Rightarrow> (empty_metrics OpenAi True durationMs)
             \<lparr>um_ttft := ot_ttft t, um_tps := compute_tps None durationMs (ot_ttft t),
              um_thinking_blocks := Some blocks, um_usage_missing := True\<rparr>
         | Some u \<Rightarrow> openai_metrics u True blocks (ot_ttft t) durationMs)"

subsection \<open>Entry point\<close>

definition extract_model :: "json \<Rightarrow> string" where
  "extract_model body = (case extract_model_name body of Some (c # s) \<Rightarrow> c # s | _ \<Rightarrow> ''unknown'')"

record usage_request =
  ur_provider :: provider
  ur_streaming :: bool
  ur_request_body :: string
  ur_response_body :: string
  ur_duration :: rat
  ur_started_at :: rat
  ur_chunks :: "timed_chunk list option"

text \<open>The outer option is the parsers' loop, the inner one an exception.\<close>

definition run_extractor ::
  "(string \<Rightarrow> json option) \<Rightarrow> usage_request \<Rightarrow> usage_metrics option option" where
  "run_extractor parse req =
     (let chunks = (case ur_chunks req of Some cs \<Rightarrow> cs | None \<Rightarrow> []);
          wall = Some (ur_duration req)
      in case (ur_provider req, ur_streaming req) of
           (Anthropic, True) \<Rightarrow>
             map_option (\<lambda>evs. Some (extract_anthropic_streaming evs (ur_started_at req) wall))
               (parse_anthropic_sse parse chunks)
         | (Anthropic, False) \<Rightarrow>
             Some (map_option (\<lambda>b. extract_anthropic_non_streaming b wall) (parse (ur_response_body req)))
         | (OpenAi, True) \<Rightarrow>
             map_option (map_option (\<lambda>evs. extract_openai_streaming evs (ur_started_at req) wall))
               (parse_openai_sse parse chunks)
         | (OpenAi, False) \<Rightarrow>
             Some (map_option (\<lambda>b. extract_openai_non_streaming b wall) (parse (ur_response_body req))))"

definition extract_usage ::
  "(string \<Rightarrow> json option) \<Rightarrow> usage_request \<Rightarrow> (string \<times> usage_metrics) option option" where
  "extract_usage parse req =
     (case parse (ur_request_body req) of
        None \<Rightarrow> Some None
      | Some body \<Rightarrow>
          map_option (map_option (\<lambda>m. (extract_model body, m\<lparr>um_model := Some (extract_model body)\<rparr>)))
            (run_extractor parse req))"

end
