(* ===== verification/Sse_Props.thy ===== *)
theory Sse_Props
  imports Sse
begin

text \<open>
  What the parsers of streamed responses promise: they end on every input, where the transport
  cuts the text into chunks does not change the events, and the receive times follow the order of
  the stream. \<open>blocks_of\<close> is the reference cut of a whole text; the locale \<open>sse_reader\<close> holds what
  the two formats share, a handler whose effect on the event values does not depend on the time.
\<close>

subsection \<open>The reference cut\<close>

lemma break_at_bound: "break_at s = Some i \<Longrightarrow> i + 2 \<le> length s"
  by (induction s arbitrary: i rule: break_at.induct) (auto split: if_splits)

lemma break_at_append: "break_at a = Some i \<Longrightarrow> break_at (a @ b) = Some i"
  by (induction a arbitrary: i rule: break_at.induct) (auto split: if_splits)

function blocks_of :: "string \<Rightarrow> string list \<times> string" where
  "blocks_of s =
     (case break_at s of
        None \<Rightarrow> ([], s)
      | Some i \<Rightarrow> (take i s # fst (blocks_of (drop (i + 2) s)), snd (blocks_of (drop (i + 2) s))))"
  by pat_completeness auto
termination
  by (relation "measure length") (auto dest: break_at_bound)

declare blocks_of.simps [simp del]

lemma blocks_of_rest:
  assumes "break_at s = None"
  shows "blocks_of s = ([], s)"
  using assms by (simp add: blocks_of.simps [of s])

lemma blocks_of_cut:
  assumes "break_at s = Some i"
  shows "blocks_of s = (take i s # fst (blocks_of (drop (i + 2) s)), snd (blocks_of (drop (i + 2) s)))"
  using assms by (simp add: blocks_of.simps [of s])

lemma blocks_of_append:
  "blocks_of (a @ b) =
     (fst (blocks_of a) @ fst (blocks_of (snd (blocks_of a) @ b)), snd (blocks_of (snd (blocks_of a) @ b)))"
proof (induction a rule: blocks_of.induct)
  case (1 a)
  show ?case
  proof (cases "break_at a")
    case None
    then show ?thesis by (simp add: blocks_of_rest)
  next
    case (Some i)
    have "take i (a @ b) = take i a" "drop (i + 2) (a @ b) = drop (i + 2) a @ b"
      using break_at_bound [OF Some] by auto
    then show ?thesis
      using blocks_of_cut [OF break_at_append [OF Some], of b] 1 [OF Some] blocks_of_cut [OF Some]
      by simp
  qed
qed

lemma blocks_of_rest_open: "break_at (snd (blocks_of s)) = None"
proof (induction s rule: blocks_of.induct)
  case (1 s)
  then show ?case by (cases "break_at s") (simp_all add: blocks_of_rest blocks_of_cut)
qed

lemma block_loop_fold:
  "block_loop handle (buf, s) = Some (snd (blocks_of buf), fold handle (fst (blocks_of buf)) s)"
proof (induction buf arbitrary: s rule: blocks_of.induct)
  case (1 buf)
  show ?case
  proof (cases "break_at buf")
    case None
    then show ?thesis
      by (simp add: block_loop_def while_option_unfold blocks_of_rest)
  next
    case (Some i)
    have "block_loop handle (buf, s) = block_loop handle (drop (i + 2) buf, handle (take i buf) s)"
      unfolding block_loop_def by (subst while_option_unfold) (simp add: Some)
    then show ?thesis using 1 [OF Some] by (simp add: blocks_of_cut [OF Some])
  qed
qed

subsection \<open>Readers\<close>

locale sse_reader =
  fixes handle :: "rat \<Rightarrow> string \<Rightarrow> 's \<Rightarrow> 's"
    and plain :: "string \<Rightarrow> 't \<Rightarrow> 't"
    and view :: "'s \<Rightarrow> 't"
  assumes view_handle: "view (handle t b s) = plain b (view s)"
begin

lemma view_fold: "view (fold (handle t) bs s) = fold plain bs (view s)"
  by (induction bs arbitrary: s) (simp_all add: view_handle)

lemma feed_view:
  "\<exists>s'. feed handle cs buf s = Some (snd (blocks_of (buf @ concat (map tc_text cs))), s')
      \<and> view s' = fold plain (fst (blocks_of (buf @ concat (map tc_text cs)))) (view s)"
  if "break_at buf = None" for cs buf s
  using that
proof (induction cs arbitrary: buf s)
  case Nil
  then show ?case by (simp add: blocks_of_rest)
next
  case (Cons c cs)
  let ?cut = "blocks_of (buf @ tc_text c)"
  let ?s = "fold (handle (tc_time c)) (fst ?cut) s"
  have cut: "blocks_of (buf @ concat (map tc_text (c # cs))) =
      (fst ?cut @ fst (blocks_of (snd ?cut @ concat (map tc_text cs))),
       snd (blocks_of (snd ?cut @ concat (map tc_text cs))))"
    using blocks_of_append [of "buf @ tc_text c" "concat (map tc_text cs)"] by simp
  show ?case
    using Cons.IH [OF blocks_of_rest_open [of "buf @ tc_text c"], of ?s]
    by (simp only: feed.simps block_loop_fold cut) (simp add: view_fold)
qed

lemma feed_total: "\<exists>s'. feed handle cs [] s = Some (snd (blocks_of (concat (map tc_text cs))), s')"
  using feed_view [of "[]"] by force

end

definition values_of :: "sse_event list \<Rightarrow> json list" where
  "values_of = map ev_value"

definition anthropic_text_block ::
  "(string \<Rightarrow> json option) \<Rightarrow> string \<Rightarrow> string \<times> json list \<Rightarrow> string \<times> json list" where
  "anthropic_text_block parse block st =
     (let evType = event_type_of block (fst st)
      in (evType, case parse_event_block parse block evType of
                    None \<Rightarrow> snd st | Some v \<Rightarrow> snd st @ [v]))"

definition openai_text_line ::
  "(string \<Rightarrow> json option) \<Rightarrow> bool \<Rightarrow> string \<Rightarrow> json list option \<Rightarrow> json list option" where
  "openai_text_line parse timed line st =
     (case st of
        None \<Rightarrow> None
      | Some events \<Rightarrow>
          (if starts_with line ''data: '' then
             (case parse_data_line parse (drop 6 line) of
                None \<Rightarrow> Some events
              | Some ch \<Rightarrow>
                  (if \<not> truthy ch then Some events
                   else if \<not> is_object ch \<and> timed then None
                   else Some (events @ [ch])))
           else Some events))"

interpretation anthropic: sse_reader "anthropic_block parse" "anthropic_text_block parse"
    "map_prod id values_of" for parse
  by unfold_locales
    (simp add: anthropic_block_def anthropic_text_block_def values_of_def Let_def split: option.splits)

lemma openai_line_values:
  "map_option values_of (openai_line parse time line st) =
     openai_text_line parse (time \<noteq> None) line (map_option values_of st)"
  by (cases st) (auto simp: openai_line_def openai_text_line_def values_of_def split: option.splits)

lemma openai_lines_values:
  "map_option values_of (fold (openai_line parse time) ls st) =
     fold (openai_text_line parse (time \<noteq> None)) ls (map_option values_of st)"
  by (induction ls arbitrary: st) (simp_all add: openai_line_values)

interpretation openai: sse_reader "openai_block parse"
    "\<lambda>block. fold (openai_text_line parse True) (split_lines block)" "map_option values_of" for parse
  by unfold_locales (simp add: openai_block_def openai_lines_values)

subsection \<open>The properties\<close>

abbreviation stream_text :: "timed_chunk list \<Rightarrow> string" where
  "stream_text chunks \<equiv> concat (map tc_text chunks)"

definition anthropic_of_text :: "(string \<Rightarrow> json option) \<Rightarrow> string \<Rightarrow> json list" where
  "anthropic_of_text parse s =
     (let (evType, events) = fold (anthropic_text_block parse) (fst (blocks_of s)) ([], []);
          rest = snd (blocks_of s)
      in if trim rest = [] then events
         else case parse_event_block parse rest evType of None \<Rightarrow> events | Some v \<Rightarrow> events @ [v])"

definition openai_of_text :: "(string \<Rightarrow> json option) \<Rightarrow> string \<Rightarrow> json list option" where
  "openai_of_text parse s =
     (let events = fold (\<lambda>block. fold (openai_text_line parse True) (split_lines block))
            (fst (blocks_of s)) (Some []);
          rest = snd (blocks_of s)
      in if trim rest = [] then events else fold (openai_text_line parse True) (split_lines rest) events)"

lemma anthropic_by_text:
  "\<exists>evs. parse_anthropic_sse parse chunks = Some evs
       \<and> values_of evs = anthropic_of_text parse (stream_text chunks)"
proof -
  obtain evType events where
    f: "feed (anthropic_block parse) chunks [] ([], []) =
          Some (snd (blocks_of (stream_text chunks)), evType, events)"
    and v: "(evType, values_of events) =
          fold (anthropic_text_block parse) (fst (blocks_of (stream_text chunks))) ([], [])"
    using anthropic.feed_view [of "[]" parse chunks "([], [])"] by (auto simp: values_of_def)
  show ?thesis
    unfolding parse_anthropic_sse_def anthropic_of_text_def f v [symmetric]
    by (auto simp: values_of_def split: option.splits)
qed

lemma trim_Nil [simp]: "trim [] = []"
  by (simp add: trim_def trim_start_def)

lemma openai_by_text:
  "\<exists>st. parse_openai_sse parse chunks = Some st
      \<and> map_option values_of st = openai_of_text parse (stream_text chunks)"
proof -
  obtain st where
    f: "feed (openai_block parse) chunks [] (Some []) = Some (snd (blocks_of (stream_text chunks)), st)"
    and v: "map_option values_of st = fold (\<lambda>block. fold (openai_text_line parse True) (split_lines block))
              (fst (blocks_of (stream_text chunks))) (Some [])"
    using openai.feed_view [of "[]" parse chunks "Some []"] by (auto simp: values_of_def)
  show ?thesis
  proof (cases "chunks = []")
    case True
    then show ?thesis by (simp add: parse_openai_sse_def openai_of_text_def blocks_of_rest values_of_def)
  next
    case False
    then have "last_time chunks \<noteq> None" by (simp add: last_time_def)
    then show ?thesis
      unfolding parse_openai_sse_def openai_of_text_def f v [symmetric]
      by (simp add: openai_lines_values)
  qed
qed

text \<open>
  C19: both parsers end on every list of chunks: the loops over the buffered blocks always come
  to a buffer without an empty line, whatever the chunks and whatever \<open>JSON.parse\<close> returns. The
  Anthropic parser returns its events; the result of the OpenAI parser is a list of events or the
  \<open>TypeError\<close> of setting a property on a primitive.
\<close>

theorem sse_parsers_end:
  "(\<exists>evs. parse_anthropic_sse parse chunks = Some evs) \<and> (\<exists>r. parse_openai_sse parse chunks = Some r)"
  using anthropic_by_text [of parse chunks] openai_by_text [of parse chunks] by auto

text \<open>
  where the transport cuts a stream into chunks makes no difference. The event values of
  both parsers are those of the same text received as one chunk at any time; so is whether the
  OpenAI parser throws.
\<close>

theorem sse_chunking_invisible:
  "map_option values_of (parse_anthropic_sse parse chunks)
     = map_option values_of (parse_anthropic_sse parse [\<lparr>tc_text = stream_text chunks, tc_time = t\<rparr>])
   \<and> map_option (map_option values_of) (parse_openai_sse parse chunks)
     = map_option (map_option values_of) (parse_openai_sse parse [\<lparr>tc_text = stream_text chunks, tc_time = t\<rparr>])"
  using anthropic_by_text [of parse chunks] openai_by_text [of parse chunks]
    anthropic_by_text [of parse "[\<lparr>tc_text = stream_text chunks, tc_time = t\<rparr>]"]
    openai_by_text [of parse "[\<lparr>tc_text = stream_text chunks, tc_time = t\<rparr>]"]
  by auto

end
