(* ===== verification/Usage_Props.thy ===== *)
theory Usage_Props
  imports Usage_Extract Sse_Props
begin

text \<open>
  What the usage extractors promise: a stream's counts are those of its last reports, they do not
  depend on how the transport cut the stream, and the derived duration and speed stay in bounds.
\<close>

subsection \<open>Last reports\<close>

text \<open>The last value \<open>f\<close> finds in a list.\<close>

definition latest :: "('a \<Rightarrow> 'b option) \<Rightarrow> 'a list \<Rightarrow> 'b option" where
  "latest f xs = (let vs = List.map_filter f xs in if vs = [] then None else Some (last vs))"

lemma latest_simps [simp]:
  "latest f [] = None"
  "latest f (xs @ [x]) = (case f x of Some y \<Rightarrow> Some y | None \<Rightarrow> latest f xs)"
  by (auto simp: latest_def List.map_filter_def Let_def split: option.splits)

lemma fold_latest:
  assumes "\<And>x s. g (step x s) = (case f x of Some y \<Rightarrow> Some y | None \<Rightarrow> g s)"
    and "g s0 = None"
  shows "g (fold step xs s0) = latest f xs"
  by (induction xs rule: rev_induct) (simp_all add: assms split: option.splits)

lemma fold_latest_default:
  assumes "\<And>x s. g (step x s) = (case f x of Some y \<Rightarrow> y | None \<Rightarrow> g s)"
    and "g s0 = d"
  shows "g (fold step xs s0) = (case latest f xs of Some y \<Rightarrow> y | None \<Rightarrow> d)"
  by (induction xs rule: rev_induct) (simp_all add: assms split: option.splits)

text \<open>The usage object an event carries, and what it reports.\<close>

definition start_usage :: "sse_event \<Rightarrow> json option" where
  "start_usage ev = (if event_is ev ''message_start''
     then truthy_opt (jopt (jget (ev_value ev) ''message'') ''usage'') else None)"

definition delta_usage :: "sse_event \<Rightarrow> json option" where
  "delta_usage ev = (if event_is ev ''message_delta''
     then truthy_opt (jget (ev_value ev) ''usage'') else None)"

definition delta_report :: "string \<Rightarrow> sse_event \<Rightarrow> rat option" where
  "delta_report k ev = (case delta_usage ev of
      Some u \<Rightarrow> if non_null (jget u k) then Some (finite_num (jget u k)) else None | None \<Rightarrow> None)"

definition any_report :: "string \<Rightarrow> sse_event \<Rightarrow> rat option" where
  "any_report k ev = (case start_usage ev of
      Some u \<Rightarrow> Some (finite_num (jget u k)) | None \<Rightarrow> delta_report k ev)"

definition reports_usage :: "sse_event \<Rightarrow> bool" where
  "reports_usage ev = (start_usage ev \<noteq> None \<or> delta_report ''output_tokens'' ev \<noteq> None)"

lemma event_is_unique: "event_is ev a \<Longrightarrow> event_is ev b \<longleftrightarrow> a = b"
  by (auto simp: event_is_def)

lemma num_or_finite: "num_or v 0 = finite_num v"
  by (simp add: num_or_def finite_num_def)

lemmas tally_defs = tally_event_def on_message_start_def on_message_delta_def start_usage_def
  delta_usage_def delta_report_def any_report_def Let_def num_or_finite event_is_unique

lemma tally_output:
  "ta_output (tally_event s ev t) =
     (case delta_report ''output_tokens'' ev of Some y \<Rightarrow> Some y | None \<Rightarrow> ta_output t)"
  by (auto simp: tally_defs split: option.splits)

lemma tally_input:
  "ta_input (tally_event s ev t) =
     (case any_report ''input_tokens'' ev of Some y \<Rightarrow> Some y | None \<Rightarrow> ta_input t)"
  by (auto simp: tally_defs split: option.splits)

lemma tally_cache_create:
  "ta_cache_create (tally_event s ev t) =
     (case any_report ''cache_creation_input_tokens'' ev of Some y \<Rightarrow> y | None \<Rightarrow> ta_cache_create t)"
  by (auto simp: tally_defs split: option.splits)

lemma tally_cache_read:
  "ta_cache_read (tally_event s ev t) =
     (case any_report ''cache_read_input_tokens'' ev of Some y \<Rightarrow> y | None \<Rightarrow> ta_cache_read t)"
  by (auto simp: tally_defs split: option.splits)

definition thinking_report :: "sse_event \<Rightarrow> json option" where
  "thinking_report ev = (case delta_usage ev of
      Some u \<Rightarrow> (let th = jopt (jget u ''output_tokens_details'') ''thinking_tokens''
        in if non_null th then Some (or_null th) else None)
    | None \<Rightarrow> None)"

lemma tally_thinking:
  "ta_thinking (tally_event s ev t) =
     (case thinking_report ev of Some y \<Rightarrow> y | None \<Rightarrow> ta_thinking t)"
  by (auto simp: tally_defs thinking_report_def split: option.splits)

lemma tally_saw_usage: "ta_saw_usage (tally_event s ev t) = (reports_usage ev \<or> ta_saw_usage t)"
  by (auto simp: tally_defs reports_usage_def split: option.splits)

lemma fold_saw_usage:
  "ta_saw_usage (fold (tally_event s) evs t) = (filter reports_usage evs \<noteq> [] \<or> ta_saw_usage t)"
  by (induction evs arbitrary: t) (auto simp: tally_saw_usage)

lemmas tally_folds =
  fold_latest [where g = ta_output and f = "delta_report ''output_tokens''", OF tally_output]
  fold_latest [where g = ta_input and f = "any_report ''input_tokens''", OF tally_input]
  fold_latest_default [where g = ta_cache_create and f = "any_report ''cache_creation_input_tokens''",
    OF tally_cache_create]
  fold_latest_default [where g = ta_cache_read and f = "any_report ''cache_read_input_tokens''",
    OF tally_cache_read]

text \<open>
  the counts of a streamed Anthropic message are those of its last reports. The output count
  is the last cumulative value of a \<open>message_delta\<close> (the placeholder of \<open>message_start\<close> never
  counts); the input and cache counts are the last ones reported by either event, 0 for a cache
  count never reported; the total input is their sum; usage counts as missing exactly when no
  event reports any.
\<close>

theorem anthropic_stream_counts:
  "let m = extract_anthropic_streaming events startedAt wallClock;
       create = (case latest (any_report ''cache_creation_input_tokens'') events of Some c \<Rightarrow> c | None \<Rightarrow> 0);
       cached = (case latest (any_report ''cache_read_input_tokens'') events of Some c \<Rightarrow> c | None \<Rightarrow> 0);
       input = latest (any_report ''input_tokens'') events
   in um_output m = latest (delta_report ''output_tokens'') events
    \<and> um_input m = input
    \<and> um_cache_creation m = Some create
    \<and> um_cache_read m = Some cached
    \<and> um_total_input m = map_option (\<lambda>i. i + create + cached) input
    \<and> um_usage_missing m = (filter reports_usage events = [])"
  by (simp add: extract_anthropic_streaming_def Let_def tally_folds new_tally_def fold_saw_usage)

subsection \<open>Independence of the chunks\<close>

definition token_counts where
  "token_counts m =
     ((um_provider m, um_streaming m, um_input m, um_output m, um_cache_creation m, um_cache_read m),
      (um_total_input m, um_total_output m, um_thinking m, um_thinking_blocks m, um_usage_missing m, um_model m))"

definition tally_counts where
  "tally_counts t = (ta_input t, ta_output t, ta_cache_create t, ta_cache_read t, ta_thinking t, ta_saw_usage t)"

lemma reports_by_value:
  assumes "ev_value ev = ev_value ev'"
  shows "delta_report k ev = delta_report k ev'" "any_report k ev = any_report k ev'"
    "thinking_report ev = thinking_report ev'" "reports_usage ev = reports_usage ev'"
  using assms
  by (simp_all add: delta_report_def any_report_def thinking_report_def reports_usage_def
      start_usage_def delta_usage_def event_is_def split: option.splits)

lemma tally_event_counts:
  assumes "tally_counts t = tally_counts t'" and "ev_value ev = ev_value ev'"
  shows "tally_counts (tally_event s ev t) = tally_counts (tally_event s ev' t')"
  using assms(1) reports_by_value [OF assms(2)]
  by (simp add: tally_counts_def tally_output tally_input tally_cache_create tally_cache_read
      tally_thinking tally_saw_usage split: option.splits)

lemma fold_event_counts:
  assumes "values_of evs = values_of evs'" and "tally_counts t = tally_counts t'"
  shows "tally_counts (fold (tally_event s) evs t) = tally_counts (fold (tally_event s) evs' t')"
proof -
  have "length evs = length evs'"
    using arg_cong [OF assms(1), of length] by (simp add: values_of_def)
  then show ?thesis
    using assms
  proof (induction evs evs' arbitrary: t t' rule: list_induct2)
    case (Cons ev evs ev' evs')
    then show ?case
      using tally_event_counts [of t t' ev ev' s] by (simp add: values_of_def)
  qed simp
qed

definition openai_counts where
  "openai_counts t = (ot_usage t, ot_reasoning t)"

lemma tally_chunk_fields:
  "ot_usage (tally_chunk s ev t) =
     (if non_null (jget (ev_value ev) ''usage'') then jget (ev_value ev) ''usage'' else ot_usage t)"
  "ot_reasoning (tally_chunk s ev t) = (carries_reasoning (ev_value ev) \<or> ot_reasoning t)"
  by (simp_all add: tally_chunk_def Let_def split: option.splits)

lemma tally_chunk_counts:
  assumes "openai_counts t = openai_counts t'" and "ev_value ev = ev_value ev'"
  shows "openai_counts (tally_chunk s ev t) = openai_counts (tally_chunk s ev' t')"
  using assms by (simp add: openai_counts_def tally_chunk_fields)

lemma fold_chunk_counts:
  assumes "values_of evs = values_of evs'" and "openai_counts t = openai_counts t'"
  shows "openai_counts (fold (tally_chunk s) evs t) = openai_counts (fold (tally_chunk s) evs' t')"
proof -
  have "length evs = length evs'"
    using arg_cong [OF assms(1), of length] by (simp add: values_of_def)
  then show ?thesis
    using assms
  proof (induction evs evs' arbitrary: t t' rule: list_induct2)
    case (Cons ev evs ev' evs')
    then show ?case
      using tally_chunk_counts [of t t' ev ev' s] by (simp add: values_of_def)
  qed simp
qed

lemma anthropic_counts_by_values:
  assumes "values_of evs = values_of evs'"
  shows "token_counts (extract_anthropic_streaming evs s w) = token_counts (extract_anthropic_streaming evs' s w)"
  using fold_event_counts [OF assms refl, of s new_tally]
  by (simp add: extract_anthropic_streaming_def token_counts_def tally_counts_def Let_def)

lemma openai_counts_by_values:
  assumes "values_of evs = values_of evs'"
  shows "token_counts (extract_openai_streaming evs s w) = token_counts (extract_openai_streaming evs' s w)"
  using fold_chunk_counts [OF assms refl, of s new_openai_tally]
  by (simp add: extract_openai_streaming_def token_counts_def openai_counts_def Let_def
      empty_metrics_def openai_metrics_def split: option.splits)

lemma token_counts_model: "token_counts m = token_counts m' \<Longrightarrow>
    token_counts (m\<lparr>um_model := n\<rparr>) = token_counts (m'\<lparr>um_model := n\<rparr>)"
  by (simp add: token_counts_def)

abbreviation counts_of_result where
  "counts_of_result \<equiv> map_option (map_option (map_prod (\<lambda>model. model) token_counts))"

lemma run_extractor_counts:
  assumes "stream_text cs = stream_text cs'"
  shows "map_option (map_option token_counts) (run_extractor parse (req\<lparr>ur_chunks := Some cs\<rparr>)) =
    map_option (map_option token_counts) (run_extractor parse (req\<lparr>ur_chunks := Some cs'\<rparr>))"
proof -
  obtain evs evs' where a: "parse_anthropic_sse parse cs = Some evs"
    "parse_anthropic_sse parse cs' = Some evs'" "values_of evs = values_of evs'"
    using anthropic_by_text [of parse cs] anthropic_by_text [of parse cs'] assms by auto
  obtain st st' where o: "parse_openai_sse parse cs = Some st" "parse_openai_sse parse cs' = Some st'"
    "map_option values_of st = map_option values_of st'"
    using openai_by_text [of parse cs] openai_by_text [of parse cs'] assms by auto
  have st: "map_option (\<lambda>es. token_counts (extract_openai_streaming es s w)) st =
      map_option (\<lambda>es. token_counts (extract_openai_streaming es s w)) st'" for s w
    using o(3) by (cases st; cases st') (auto intro: openai_counts_by_values)
  show ?thesis
    using anthropic_counts_by_values [OF a(3)] st
    by (simp add: run_extractor_def Let_def a o option.map_comp comp_def
        split: provider.splits bool.splits)
qed

lemma extract_usage_counts:
  assumes "stream_text cs = stream_text cs'"
  shows "counts_of_result (extract_usage parse (req\<lparr>ur_chunks := Some cs\<rparr>)) =
    counts_of_result (extract_usage parse (req\<lparr>ur_chunks := Some cs'\<rparr>))"
proof (cases "parse (ur_request_body req)")
  case (Some body)
  then show ?thesis
    using run_extractor_counts [OF assms, of parse req]
    by (auto simp: extract_usage_def option.map_comp comp_def map_option_case
        split: option.splits intro: token_counts_model)
qed (simp add: extract_usage_def)

text \<open>
  C18: where the transport cuts a response into chunks changes none of its accounted numbers. For
  every request the extracted model, token counts, thinking count and missing flag, or the
  exception, are those of the same text received as one chunk at any time; only the times and
  the speed derived from them may differ.
\<close>

theorem usage_independent_of_chunks:
  "counts_of_result (extract_usage parse (req\<lparr>ur_chunks := Some cs\<rparr>)) =
     counts_of_result (extract_usage parse
       (req\<lparr>ur_chunks := Some [\<lparr>tc_text = stream_text cs, tc_time = t\<rparr>]\<rparr>))"
  by (rule extract_usage_counts) simp

subsection \<open>Bounds\<close>

lemma compute_tps_bounds:
  assumes "compute_tps output d t = Some r"
  obtains out where "output = Some out" "0 < r" "r \<le> out"
proof -
  obtain out g where o: "output = Some out" "0 < out" "1000 \<le> g" "r = out / g * 1000"
    using assms by (fastforce simp: compute_tps_def Let_def split: option.splits if_splits)
  have "out * (1000 / g) \<le> out * 1"
    using o(2,3) by (intro mult_left_mono) auto
  then have "r \<le> out" using o(4) by (simp add: mult.commute)
  moreover have "0 < r" using o(2,3,4) by simp
  ultimately show thesis using o(1) that by blast
qed

lemma derived_fields:
  "um_tps (extract_anthropic_streaming evs s (Some w)) = compute_tps (um_output (extract_anthropic_streaming evs s (Some w)))
     (um_duration (extract_anthropic_streaming evs s (Some w))) (um_ttft (extract_anthropic_streaming evs s (Some w)))"
  "um_tps (extract_anthropic_non_streaming b d) = compute_tps (um_output (extract_anthropic_non_streaming b d)) d None"
  "um_tps (extract_openai_streaming evs s (Some w)) = compute_tps (um_output (extract_openai_streaming evs s (Some w)))
     (um_duration (extract_openai_streaming evs s (Some w))) (um_ttft (extract_openai_streaming evs s (Some w)))"
  "um_tps (extract_openai_non_streaming b d) = compute_tps (um_output (extract_openai_non_streaming b d)) d None"
  "um_duration (extract_anthropic_non_streaming b d) = d"
  "um_duration (extract_openai_non_streaming b d) = d"
  by (simp_all add: extract_anthropic_streaming_def extract_anthropic_non_streaming_def
      extract_openai_streaming_def extract_openai_non_streaming_def openai_metrics_def
      empty_metrics_def compute_tps_def [of None] Let_def split: option.splits)

lemma duration_floor:
  "\<exists>d. um_duration (extract_anthropic_streaming evs s (Some w)) = Some d \<and> w \<le> d"
  "\<exists>d. um_duration (extract_openai_streaming evs s (Some w)) = Some d \<and> w \<le> d"
  by (simp_all add: extract_anthropic_streaming_def extract_openai_streaming_def stream_duration_def
      openai_metrics_def empty_metrics_def Let_def split: option.splits)

lemma run_extractorE:
  assumes "run_extractor parse req = Some (Some m)"
  obtains evs where "m = extract_anthropic_streaming evs (ur_started_at req) (Some (ur_duration req))"
  | b where "m = extract_anthropic_non_streaming b (Some (ur_duration req))"
  | evs where "m = extract_openai_streaming evs (ur_started_at req) (Some (ur_duration req))"
  | b where "m = extract_openai_non_streaming b (Some (ur_duration req))"
  using assms by (auto simp: run_extractor_def Let_def split: provider.splits bool.splits)

text \<open>
  the derived times and speed of an extracted usage are in bounds. The duration is present
  and never below the measured wall-clock duration, whatever the receive times of the events say;
  a speed is reported only for a positive output count, is positive, and, as it covers at least
  one second of generation, never exceeds that count; the model is never empty.
\<close>

theorem usage_times_bounded:
  assumes "extract_usage parse req = Some (Some (model, m))"
  shows "model \<noteq> [] \<and> um_model m = Some model
    \<and> (\<exists>d. um_duration m = Some d \<and> ur_duration req \<le> d)
    \<and> (\<forall>r. um_tps m = Some r \<longrightarrow> (\<exists>out. um_output m = Some out \<and> 0 < r \<and> r \<le> out))"
proof -
  obtain body m0 where b: "parse (ur_request_body req) = Some body"
    and r: "run_extractor parse req = Some (Some m0)"
    and m: "model = extract_model body" "m = m0\<lparr>um_model := Some model\<rparr>"
    using assms by (auto simp: extract_usage_def split: option.splits)
  have "(\<exists>d. um_duration m0 = Some d \<and> ur_duration req \<le> d) \<and> (\<exists>d t. um_tps m0 = compute_tps (um_output m0) d t)"
    using r by (cases rule: run_extractorE) (use derived_fields duration_floor in auto)
  then have d: "\<exists>d. um_duration m0 = Some d \<and> ur_duration req \<le> d"
    and t: "\<exists>d t. um_tps m0 = compute_tps (um_output m0) d t" by auto
  have r: "\<exists>out. um_output m = Some out \<and> 0 < r \<and> r \<le> out" if tps: "um_tps m = Some r" for r
  proof -
    obtain d' t' where "compute_tps (um_output m0) d' t' = Some r"
      using t tps m(2) by auto
    then show ?thesis using m(2) by (auto elim: compute_tps_bounds)
  qed
  have "model \<noteq> []"
    by (simp add: m(1) extract_model_def split: option.splits list.splits)
  then show ?thesis
    using d r m(2) by auto
qed

definition demo_parse :: "string \<Rightarrow> json option" where
  "demo_parse s =
     (if s = ''R'' then Some (JObj [(''model'', JStr ''m'')])
      else if s = ''U'' then Some (JObj [(''usage'', JObj [(''input_tokens'', JNum 3), (''output_tokens'', JNum 40)])])
      else None)"

definition demo_usage_request :: usage_request where
  "demo_usage_request = \<lparr>ur_provider = Anthropic, ur_streaming = False, ur_request_body = ''R'',
     ur_response_body = ''U'', ur_duration = 4000, ur_started_at = 0, ur_chunks = None\<rparr>"

lemma usage_times_bounded_witness:
  "\<exists>m. extract_usage demo_parse demo_usage_request = Some (Some (''m'', m)) \<and> um_tps m = Some 10
     \<and> (\<exists>d. um_duration m = Some d \<and> 4000 \<le> d)"
proof -
  obtain m where m: "extract_usage demo_parse demo_usage_request = Some (Some (''m'', m))" "um_tps m = Some 10"
    by (simp add: extract_usage_def run_extractor_def demo_parse_def demo_usage_request_def
        extract_model_def extract_model_name_def extract_anthropic_non_streaming_def truthy_opt_def
        finite_num_def compute_tps_def Let_def)
  then show ?thesis
    using usage_times_bounded [OF m(1)] by (auto simp: demo_usage_request_def)
qed

end
