(* ===== verification/Economics.thy ===== *)
theory Economics
  imports Json "HOL-Library.Mapping" "HOL-Library.Char_ord" "HOL-Library.List_Lexorder"
    "HOL-Library.Product_Lexorder"
begin

text \<open>
  The economics of the gateway (\<open>src/economics.ts\<close>): the tables of captures, daily usage and model
  pricing, the accounting of a capture into its day, the pricing sync with its backfill, and the
  queries of the dashboard. A table with a text key is a \<open>Mapping\<close> or the list of its rows, SQL's
  NULL is \<open>None\<close>, and a REAL is an exact rational. The payload columns of a capture are left out:
  no statement here reads them. An operation that throws is \<open>None\<close>; its callers run it in a
  transaction, so nothing of it stays.
\<close>

subsection \<open>Dates\<close>

definition ms_per_day :: int where
  "ms_per_day = 86400000"

text \<open>Year, month and day of a day number counted from 1970-01-01, in the proleptic Gregorian calendar.\<close>

definition civil_of_days :: "int \<Rightarrow> int \<times> int \<times> int" where
  "civil_of_days days =
     (let z = days + 719468;
          era = z div 146097;
          doe = z mod 146097;
          yoe = (doe - doe div 1460 + doe div 36524 - doe div 146096) div 365;
          doy = doe - (365 * yoe + yoe div 4 - yoe div 100);
          mp = (5 * doy + 2) div 153;
          m = (if mp < 10 then mp + 3 else mp - 9)
      in (yoe + era * 400 + (if m \<le> 2 then 1 else 0), m, doy - (153 * mp + 2) div 5 + 1))"

definition pad_left :: "nat \<Rightarrow> string \<Rightarrow> string" where
  "pad_left n s = replicate (n - length s) (CHR ''0'') @ s"

definition iso_year :: "int \<Rightarrow> string" where
  "iso_year y =
     (if 0 \<le> y \<and> y \<le> 9999 then pad_left 4 (digits_of (nat y))
      else (if y < 0 then ''-'' else ''+'') @ pad_left 6 (digits_of (nat \<bar>y\<bar>)))"

text \<open>\<open>Math.trunc\<close>\<close>

definition js_trunc :: "rat \<Rightarrow> int" where
  "js_trunc t = (if 0 \<le> t then \<lfloor>t\<rfloor> else \<lceil>t\<rceil>)"

text \<open>\<open>new Date(t).toISOString().slice(0, 10)\<close>; a time out of the range of dates throws.\<close>

definition iso_date :: "rat \<Rightarrow> string option" where
  "iso_date t =
     (if \<bar>t\<bar> > 8640000000000000 then None
      else (case civil_of_days (js_trunc t div ms_per_day) of
              (y, m, d) \<Rightarrow> Some (take 10 (iso_year y @ ''-'' @ pad_left 2 (digits_of (nat m))
                @ ''-'' @ pad_left 2 (digits_of (nat d))))))"

subsection \<open>Tables\<close>

record capture =
  cp_id :: nat
  cp_is_vision :: bool
  cp_state :: string
  cp_started_at :: "rat option"
  cp_model :: "string option"
  cp_input :: "rat option"
  cp_output :: "rat option"
  cp_cache_read :: "rat option"
  cp_cache_creation :: "rat option"
  cp_thinking :: "rat option"
  cp_usage_missing :: "int option"
  cp_accounted :: bool

record daily_row =
  du_requests :: int
  du_input :: rat
  du_output :: rat
  du_cache_read :: rat
  du_cache_creation :: rat
  du_thinking :: rat
  du_cost_input :: rat
  du_cost_output :: rat
  du_cost_cache_read :: rat
  du_cost_cache_creation :: rat
  du_cost_total :: rat
  du_pricing_known :: int

record pricing_row =
  pr_model :: string
  pr_input :: rat
  pr_output :: rat
  pr_cache_read :: rat
  pr_known :: int
  pr_updated_at :: rat

type_synonym day_key = "string \<times> string"

record tables =
  captures :: "capture list"
  daily :: "(day_key, daily_row) mapping"
  pricing :: "pricing_row list"

subsection \<open>Schema\<close>

definition CACHE_READ_RATIO :: rat where
  "CACHE_READ_RATIO = 186 / 1000"

definition SEED_PRICING :: "(string \<times> rat \<times> rat \<times> rat) list" where
  "SEED_PRICING =
     [(''umans-glm-5.2'', 14 / 10, 44 / 10, 26 / 100),
      (''umans-kimi-k2.7'', 95 / 100, 4, 19 / 100),
      (''umans-coder'', 95 / 100, 4, 19 / 100),
      (''umans-flash'', 15 / 100, 1, 5 / 100),
      (''umans-qwen3.6-35b-a3b'', 15 / 100, 1, 5 / 100),
      (''umans-deepseek-v4-flash-0731'', 14 / 100, 28 / 100, 28 / 10000)]"

text \<open>The tables exist; an empty pricing table is seeded.\<close>

definition migrate_economics_schema :: "rat \<Rightarrow> tables \<Rightarrow> tables" where
  "migrate_economics_schema now db =
     (if pricing db = []
      then db\<lparr>pricing := map (\<lambda>(m, i, out, c). \<lparr>pr_model = m, pr_input = i, pr_output = out,
             pr_cache_read = c, pr_known = 0, pr_updated_at = now\<rparr>) SEED_PRICING\<rparr>
      else db)"

definition get_pricing :: "pricing_row list \<Rightarrow> string \<Rightarrow> pricing_row option" where
  "get_pricing prices model = find (\<lambda>p. pr_model p = model) prices"

subsection \<open>Accounting\<close>

definition or_zero :: "rat option \<Rightarrow> rat" where
  "or_zero v = (case v of Some r \<Rightarrow> r | None \<Rightarrow> 0)"

definition token_cost :: "rat \<Rightarrow> rat \<Rightarrow> rat" where
  "token_cost tokens price = tokens / 1000000 * price"

text \<open>The negation of \<open>!capture.model || capture.usage_missing\<close>.\<close>

definition needs_accounting :: "capture \<Rightarrow> bool" where
  "needs_accounting c =
     (cp_model c \<noteq> None \<and> cp_model c \<noteq> Some [] \<and> (cp_usage_missing c = None \<or> cp_usage_missing c = Some 0))"

definition model_of :: "capture \<Rightarrow> string" where
  "model_of c = (case cp_model c of Some m \<Rightarrow> m | None \<Rightarrow> [])"

definition capture_date :: "rat \<Rightarrow> capture \<Rightarrow> string option" where
  "capture_date now c = iso_date (case cp_started_at c of Some t \<Rightarrow> t | None \<Rightarrow> now)"

text \<open>The row a capture contributes under a price.\<close>

definition usage_row :: "pricing_row option \<Rightarrow> capture \<Rightarrow> daily_row" where
  "usage_row price c =
     (let inputPrice = (case price of Some p \<Rightarrow> pr_input p | None \<Rightarrow> 0);
          outputPrice = (case price of Some p \<Rightarrow> pr_output p | None \<Rightarrow> 0);
          cacheReadPrice = (case price of Some p \<Rightarrow> pr_cache_read p | None \<Rightarrow> 0);
          pricingKnown = (case price of Some p \<Rightarrow> pr_known p | None \<Rightarrow> 0);
          costInput = token_cost (or_zero (cp_input c)) inputPrice;
          costOutput = token_cost (or_zero (cp_output c)) outputPrice;
          costCacheRead = token_cost (or_zero (cp_cache_read c)) cacheReadPrice;
          costCacheCreation = token_cost (or_zero (cp_cache_creation c)) inputPrice
      in \<lparr>du_requests = 1, du_input = or_zero (cp_input c), du_output = or_zero (cp_output c),
          du_cache_read = or_zero (cp_cache_read c), du_cache_creation = or_zero (cp_cache_creation c),
          du_thinking = or_zero (cp_thinking c), du_cost_input = costInput, du_cost_output = costOutput,
          du_cost_cache_read = costCacheRead, du_cost_cache_creation = costCacheCreation,
          du_cost_total = costInput + costOutput + costCacheRead + costCacheCreation,
          du_pricing_known = pricingKnown\<rparr>)"

definition add_row :: "daily_row \<Rightarrow> daily_row \<Rightarrow> daily_row" where
  "add_row old new =
     \<lparr>du_requests = du_requests old + du_requests new, du_input = du_input old + du_input new,
      du_output = du_output old + du_output new,
      du_cache_read = du_cache_read old + du_cache_read new,
      du_cache_creation = du_cache_creation old + du_cache_creation new,
      du_thinking = du_thinking old + du_thinking new,
      du_cost_input = du_cost_input old + du_cost_input new,
      du_cost_output = du_cost_output old + du_cost_output new,
      du_cost_cache_read = du_cost_cache_read old + du_cost_cache_read new,
      du_cost_cache_creation = du_cost_cache_creation old + du_cost_cache_creation new,
      du_cost_total = du_cost_total old + du_cost_total new,
      du_pricing_known = du_pricing_known new\<rparr>"

text \<open>\<open>INSERT ... ON CONFLICT(date, model) DO UPDATE\<close>\<close>

definition upsert_daily ::
  "day_key \<Rightarrow> daily_row \<Rightarrow> (day_key, daily_row) mapping \<Rightarrow> (day_key, daily_row) mapping" where
  "upsert_daily k new m =
     Mapping.update k (case Mapping.lookup m k of None \<Rightarrow> new | Some old \<Rightarrow> add_row old new) m"

text \<open>\<open>UPDATE captures SET usage_accounted = 1 WHERE id IN (ids)\<close>\<close>

definition mark_accounted :: "nat list \<Rightarrow> capture list \<Rightarrow> capture list" where
  "mark_accounted ids = map (\<lambda>c. if cp_id c \<in> set ids then c\<lparr>cp_accounted := True\<rparr> else c)"

definition account_capture_usage :: "rat \<Rightarrow> nat \<Rightarrow> tables \<Rightarrow> tables option" where
  "account_capture_usage now captureId db =
     (case find (\<lambda>c. cp_id c = captureId \<and> \<not> cp_accounted c) (captures db) of
        None \<Rightarrow> Some db
      | Some c \<Rightarrow>
          (if \<not> needs_accounting c
           then Some (db\<lparr>captures := mark_accounted [captureId] (captures db)\<rparr>)
           else case capture_date now c of
                  None \<Rightarrow> None
                | Some date \<Rightarrow> Some (db\<lparr>daily := upsert_daily (date, model_of c)
                      (usage_row (get_pricing (pricing db) (model_of c)) c) (daily db),
                    captures := mark_accounted [captureId] (captures db)\<rparr>)))"

text \<open>A loop whose body may throw.\<close>

fun fold_opt :: "('a \<Rightarrow> 's \<Rightarrow> 's option) \<Rightarrow> 'a list \<Rightarrow> 's \<Rightarrow> 's option" where
  "fold_opt f [] s = Some s"
| "fold_opt f (x # xs) s = (case f x s of None \<Rightarrow> None | Some s' \<Rightarrow> fold_opt f xs s')"

definition account_captures_usage :: "rat \<Rightarrow> nat list \<Rightarrow> tables \<Rightarrow> tables option" where
  "account_captures_usage now captureIds db =
     (if captureIds = [] then Some db
      else let found = filter (\<lambda>c. cp_id c \<in> set captureIds \<and> \<not> cp_accounted c) (captures db)
           in if found = [] then Some db
              else let needsAccounting = filter needs_accounting found;
                       models = remdups (map model_of needsAccounting);
                       pricingRows = filter (\<lambda>p. pr_model p \<in> set models) (pricing db)
                   in map_option
                        (\<lambda>d. db\<lparr>daily := d, captures := mark_accounted (map cp_id found) (captures db)\<rparr>)
                        (fold_opt
                           (\<lambda>c d. map_option
                              (\<lambda>date. upsert_daily (date, model_of c)
                                 (usage_row (get_pricing pricingRows (model_of c)) c) d)
                              (capture_date now c))
                           needsAccounting (daily db)))"

text \<open>The captures a startup accounts; the result counts them.\<close>

definition backfill_from_captures :: "rat \<Rightarrow> tables \<Rightarrow> (tables \<times> nat) option" where
  "backfill_from_captures now db =
     (let ids = sort (map cp_id (filter (\<lambda>c. \<not> cp_accounted c \<and> cp_model c \<noteq> None
                                          \<and> cp_usage_missing c = Some 0) (captures db)))
      in map_option (\<lambda>db'. (db', length ids)) (fold_opt (account_capture_usage now) ids db))"

subsection \<open>Pricing sync\<close>

record model_entry =
  me_id :: string
  me_pricing :: "(rat \<times> rat) option"

definition estimated_cache_read :: "rat \<Rightarrow> rat" where
  "estimated_cache_read inputPerMtoken =
     of_int (js_round (inputPerMtoken * CACHE_READ_RATIO * 1000)) / 1000"

text \<open>The pricing upsert, with \<open>$pricing_known\<close> as the argument \<open>knownNow\<close>.\<close>

definition upsert_pricing ::
  "string \<Rightarrow> rat \<Rightarrow> rat \<Rightarrow> rat \<Rightarrow> int \<Rightarrow> rat \<Rightarrow> pricing_row list \<Rightarrow> pricing_row list" where
  "upsert_pricing model i out cr knownNow now prices =
     (if get_pricing prices model = None
      then prices @ [\<lparr>pr_model = model, pr_input = i, pr_output = out, pr_cache_read = cr,
                      pr_known = knownNow, pr_updated_at = now\<rparr>]
      else map (\<lambda>p. if pr_model p = model
             then p\<lparr>pr_input := i, pr_output := out,
                    pr_cache_read := (if pr_known p = 0 \<and> knownNow = 1 then cr
                                      else if pr_cache_read p = 0 then cr else pr_cache_read p),
                    pr_known := max (pr_known p) knownNow, pr_updated_at := now\<rparr>
             else p) prices)"

definition sync_model :: "rat \<Rightarrow> model_entry \<Rightarrow> pricing_row list \<times> nat \<times> nat \<Rightarrow> pricing_row list \<times> nat \<times> nat" where
  "sync_model now model st =
     (case st of (prices, updated, inserted) \<Rightarrow>
       (case me_pricing model of
          None \<Rightarrow> st
        | Some (i, out) \<Rightarrow>
            (case get_pricing prices (me_id model) of
               Some old \<Rightarrow>
                 (upsert_pricing (me_id model) i out
                    (if pr_cache_read old > 0 then pr_cache_read old else estimated_cache_read i) 1 now prices,
                  updated + 1, inserted)
             | None \<Rightarrow>
                 (upsert_pricing (me_id model) i out (estimated_cache_read i) 1 now prices,
                  updated, inserted + 1))))"

definition reprice_row :: "pricing_row \<Rightarrow> daily_row \<Rightarrow> daily_row" where
  "reprice_row p r =
     (let costInput = token_cost (du_input r) (pr_input p);
          costOutput = token_cost (du_output r) (pr_output p);
          costCacheRead = token_cost (du_cache_read r) (pr_cache_read p);
          costCacheCreation = token_cost (du_cache_creation r) (pr_input p)
      in r\<lparr>du_cost_input := costInput, du_cost_output := costOutput,
           du_cost_cache_read := costCacheRead, du_cost_cache_creation := costCacheCreation,
           du_cost_total := costInput + costOutput + costCacheRead + costCacheCreation,
           du_pricing_known := 1\<rparr>)"

definition backfill_unpriced_daily_usage :: "tables \<Rightarrow> tables \<times> nat" where
  "backfill_unpriced_daily_usage db =
     (let rows = List.map_filter
            (\<lambda>k. case Mapping.lookup (daily db) k of
                    None \<Rightarrow> None
                  | Some r \<Rightarrow> if du_pricing_known r = 0
                      then map_option (\<lambda>p. (k, reprice_row p r)) (get_pricing (pricing db) (snd k)) else None)
            (Mapping.ordered_keys (daily db))
      in (db\<lparr>daily := fold (\<lambda>(k, r). Mapping.update k r) rows (daily db)\<rparr>, length rows))"

record sync_result =
  sr_updated :: nat
  sr_inserted :: nat
  sr_backfilled :: nat

definition sync_pricing :: "rat \<Rightarrow> model_entry list \<Rightarrow> tables \<Rightarrow> tables \<times> sync_result" where
  "sync_pricing now models db =
     (case fold (sync_model now) models (pricing db, 0, 0) of
        (prices, updated, inserted) \<Rightarrow>
          (case backfill_unpriced_daily_usage (db\<lparr>pricing := prices\<rparr>) of
             (db', backfilled) \<Rightarrow>
               (db', \<lparr>sr_updated = updated, sr_inserted = inserted, sr_backfilled = backfilled\<rparr>)))"

end
