(* ===== verification/Economics_Laws.thy ===== *)
theory Economics_Laws
  imports Economics
begin

text \<open>
  Laws of the accounting: the daily rows of captures commute, the batch accounts a set of
  captures as a fold over the table, and it can be taken apart one capture at a time.
\<close>

subsection \<open>Daily rows\<close>

lemma add_row_commute:
  "du_pricing_known a = du_pricing_known b \<Longrightarrow> add_row (add_row r a) b = add_row (add_row r b) a"
  by (simp add: add_row_def add_ac)

lemma add_row_swap: "du_pricing_known a = du_pricing_known b \<Longrightarrow> add_row a b = add_row b a"
  by (simp add: add_row_def add_ac)

lemma upsert_daily_commute:
  assumes "k = k' \<Longrightarrow> du_pricing_known a = du_pricing_known b"
  shows "upsert_daily k a (upsert_daily k' b m) = upsert_daily k' b (upsert_daily k a m)"
proof (cases "k = k'")
  case True
  then show ?thesis
    using assms add_row_commute [of a b] add_row_swap [of a b]
    by (cases "Mapping.lookup m k") (simp_all add: upsert_daily_def update_update)
next
  case False
  then show ?thesis
    by (simp add: upsert_daily_def update_update)
qed

lemma usage_row_known:
  "du_pricing_known (usage_row price c) = (case price of Some p \<Rightarrow> pr_known p | None \<Rightarrow> 0)"
  by (simp add: usage_row_def Let_def)

text \<open>What accounting a capture with a valid date does to the daily table.\<close>

definition put_capture ::
  "rat \<Rightarrow> pricing_row list \<Rightarrow> capture \<Rightarrow> (day_key, daily_row) mapping \<Rightarrow> (day_key, daily_row) mapping" where
  "put_capture now prices c =
     upsert_daily (the (capture_date now c), model_of c) (usage_row (get_pricing prices (model_of c)) c)"

lemma put_capture_commute:
  "put_capture now prices a (put_capture now prices b m) = put_capture now prices b (put_capture now prices a m)"
  unfolding put_capture_def by (rule upsert_daily_commute) (simp add: usage_row_known)

lemma fold_put_commute:
  "fold (put_capture now prices) cs (put_capture now prices c m) =
     put_capture now prices c (fold (put_capture now prices) cs m)"
proof (induction cs arbitrary: m)
  case (Cons a cs)
  then show ?case by (simp add: put_capture_commute [of now prices a c m])
qed simp

subsection \<open>The batch\<close>

definition found_captures :: "nat list \<Rightarrow> capture list \<Rightarrow> capture list" where
  "found_captures ids caps = filter (\<lambda>c. cp_id c \<in> set ids \<and> \<not> cp_accounted c) caps"

definition due_captures :: "nat list \<Rightarrow> capture list \<Rightarrow> capture list" where
  "due_captures ids caps = filter needs_accounting (found_captures ids caps)"

lemma fold_opt_total:
  "fold_opt (\<lambda>c d. map_option (\<lambda>x. g c x d) (h c)) cs d =
     (if list_all (\<lambda>c. h c \<noteq> None) cs then Some (fold (\<lambda>c. g c (the (h c))) cs d) else None)"
  by (induction cs arbitrary: d) (auto split: option.splits)

lemma get_pricing_filter:
  "P model \<Longrightarrow> get_pricing (filter (\<lambda>p. P (pr_model p)) prices) model = get_pricing prices model"
  by (induction prices) (auto simp: get_pricing_def)

lemma fold_put_filter:
  assumes "\<And>c. c \<in> set cs \<Longrightarrow> P (model_of c)"
  shows "fold (\<lambda>c. upsert_daily (the (capture_date now c), model_of c)
       (usage_row (get_pricing (filter (\<lambda>p. P (pr_model p)) prices) (model_of c)) c)) cs d =
     fold (put_capture now prices) cs d"
  using assms
  by (intro fold_cong refl) (simp add: put_capture_def get_pricing_filter [of P])

lemma mark_Nil [simp]: "mark_accounted [] caps = caps"
  by (simp add: mark_accounted_def)

lemma batch_form:
  "account_captures_usage now ids db =
     (let due = due_captures ids (captures db)
      in if list_all (\<lambda>c. capture_date now c \<noteq> None) due
         then Some (db\<lparr>daily := fold (put_capture now (pricing db)) due (daily db),
           captures := mark_accounted (map cp_id (found_captures ids (captures db))) (captures db)\<rparr>)
         else None)"
proof (cases "ids = [] \<or> found_captures ids (captures db) = []")
  case True
  then have "found_captures ids (captures db) = []" by (auto simp: found_captures_def)
  then show ?thesis
    by (simp add: account_captures_usage_def due_captures_def found_captures_def Let_def)
next
  case False
  let ?due = "due_captures ids (captures db)"
  have "fold (\<lambda>c. upsert_daily (the (capture_date now c), model_of c)
       (usage_row (get_pricing (filter (\<lambda>p. pr_model p \<in> model_of ` set ?due) (pricing db)) (model_of c)) c))
       ?due d = fold (put_capture now (pricing db)) ?due d" for d
    by (rule fold_put_filter) auto
  then show ?thesis
    using False
    by (simp add: account_captures_usage_def Let_def fold_opt_total
        flip: found_captures_def due_captures_def)
qed

lemma single_form:
  "account_capture_usage now i db =
     (case found_captures [i] (captures db) of
        [] \<Rightarrow> Some db
      | c # cs \<Rightarrow>
          (if \<not> needs_accounting c then Some (db\<lparr>captures := mark_accounted [i] (captures db)\<rparr>)
           else if capture_date now c = None then None
           else Some (db\<lparr>daily := put_capture now (pricing db) c (daily db),
                  captures := mark_accounted [i] (captures db)\<rparr>)))"
proof -
  have f: "find P xs = (case filter P xs of [] \<Rightarrow> None | y # ys \<Rightarrow> Some y)" for P :: "capture \<Rightarrow> bool" and xs
    by (induction xs) auto
  show ?thesis
    by (auto simp: account_capture_usage_def found_captures_def f put_capture_def
        split: list.splits option.splits)
qed

subsection \<open>One at a time\<close>

lemma distinct_ids_split:
  assumes "distinct (map cp_id caps)" and "found_captures [i] caps = c # cs"
  obtains xs ys where "caps = xs @ c # ys" "cp_id c = i" "\<not> cp_accounted c"
    "i \<notin> cp_id ` set xs" "i \<notin> cp_id ` set ys"
proof -
  have "c \<in> set (found_captures [i] caps)" using assms(2) by simp
  then have c: "c \<in> set caps" "cp_id c = i" "\<not> cp_accounted c" by (auto simp: found_captures_def)
  from c(1) obtain xs ys where s: "caps = xs @ c # ys" by (auto simp: in_set_conv_decomp)
  then have "i \<notin> cp_id ` set xs" "i \<notin> cp_id ` set ys" using assms(1) c(2) by auto
  with s c(2,3) show thesis by (rule that)
qed

lemma found_mark_other:
  "i \<notin> cp_id ` set caps \<Longrightarrow> mark_accounted [i] caps = caps"
  by (auto simp: mark_accounted_def intro!: map_idI)

lemma found_Cons_other:
  "i \<notin> cp_id ` set caps \<Longrightarrow> found_captures (i # ids) caps = found_captures ids caps"
  by (auto simp: found_captures_def intro!: filter_cong)

lemma mark_mark: "mark_accounted js (mark_accounted is caps) = mark_accounted (is @ js) caps"
  by (auto simp: mark_accounted_def)

lemma mark_cong: "set is = set js \<Longrightarrow> mark_accounted is = mark_accounted js"
  by (simp add: mark_accounted_def)

lemma mark_append: "mark_accounted is (xs @ ys) = mark_accounted is xs @ mark_accounted is ys"
  by (simp add: mark_accounted_def)

lemma mark_fields [simp]:
  "map cp_id (mark_accounted is caps) = map cp_id caps"
  by (auto simp: mark_accounted_def)

text \<open>The batch of \<open>i # ids\<close> is the single accounting of \<open>i\<close> and then the batch of \<open>ids\<close>.\<close>

lemma batch_Cons:
  assumes "distinct (map cp_id (captures db))"
  shows "account_captures_usage now (i # ids) db =
    (case account_capture_usage now i db of None \<Rightarrow> None | Some db' \<Rightarrow> account_captures_usage now ids db')"
proof (cases "found_captures [i] (captures db)")
  case Nil
  then have "found_captures (i # ids) (captures db) = found_captures ids (captures db)"
    by (auto simp: found_captures_def filter_empty_conv intro!: filter_cong)
  with Nil show ?thesis by (simp add: batch_form single_form due_captures_def Let_def)
next
  case (Cons c cs)
  obtain xs ys where s: "captures db = xs @ c # ys" "cp_id c = i" "\<not> cp_accounted c"
    "i \<notin> cp_id ` set xs" "i \<notin> cp_id ` set ys"
    using distinct_ids_split [OF assms Cons] .
  define rest where "rest = found_captures ids xs @ found_captures ids ys"
  have all: "found_captures (i # ids) (captures db) = found_captures ids xs @ c # found_captures ids ys"
    using s(2,3) found_Cons_other [OF s(4), of ids] found_Cons_other [OF s(5), of ids]
    by (simp add: s(1) found_captures_def)
  have marked: "mark_accounted [i] (captures db) = xs @ c\<lparr>cp_accounted := True\<rparr> # ys"
    using s found_mark_other [of i xs] found_mark_other [of i ys]
    by (simp add: mark_append) (simp add: mark_accounted_def)
  have later: "found_captures ids (mark_accounted [i] (captures db)) = rest"
    unfolding marked by (simp add: found_captures_def rest_def)
  have ids: "mark_accounted (map cp_id rest) (mark_accounted [i] (captures db)) =
      mark_accounted (map cp_id (found_captures (i # ids) (captures db))) (captures db)"
    unfolding mark_mark by (rule arg_cong [where f = "\<lambda>f. f (captures db)"], rule mark_cong)
      (use s(2) in \<open>auto simp: all rest_def\<close>)
  have put: "fold (put_capture now p) (filter needs_accounting (found_captures (i # ids) (captures db))) d =
      fold (put_capture now p) (filter needs_accounting rest)
        (if needs_accounting c then put_capture now p c d else d)" for p d
    by (simp add: all rest_def fold_put_commute)
  show ?thesis
    using Cons
    by (auto simp: batch_form single_form Let_def due_captures_def later ids put
        simp flip: rest_def) (auto simp: all rest_def)
qed

lemma account_capture_ids:
  "account_capture_usage now i db = Some db' \<Longrightarrow> map cp_id (captures db') = map cp_id (captures db)"
  by (auto simp: single_form split: list.splits if_splits)

lemma batch_is_fold:
  "distinct (map cp_id (captures db)) \<Longrightarrow>
     account_captures_usage now ids db = fold_opt (account_capture_usage now) ids db"
proof (induction ids arbitrary: db)
  case Nil
  then show ?case by (simp add: account_captures_usage_def)
next
  case (Cons i ids)
  then show ?case
    using account_capture_ids by (auto simp: batch_Cons split: option.splits)
qed

end
