(* ===== verification/Economics_Queries.thy ===== *)
theory Economics_Queries
  imports Economics
begin

text \<open>
  The queries of the economics dashboard (\<open>src/economics.ts\<close>, from \<open>getDailyUsage\<close> on): usage by
  day, the totals of a month with their split by model, the months with data and the price list.
  A year and a month are natural numbers, as the dashboard sends them. SQL leaves the order of
  rows that compare equal open; here they keep the order of the primary key.
\<close>

definition daily_rows :: "tables \<Rightarrow> (day_key \<times> daily_row) list" where
  "daily_rows db =
     List.map_filter (\<lambda>k. map_option (\<lambda>r. (k, r)) (Mapping.lookup (daily db) k))
       (Mapping.ordered_keys (daily db))"

text \<open>\<open>LIMIT\<close>: a negative limit is none.\<close>

definition sql_limit :: "int \<Rightarrow> 'a list \<Rightarrow> 'a list" where
  "sql_limit n xs = (if n < 0 then xs else take (nat n) xs)"

text \<open>\<open>ORDER BY date DESC, model ASC\<close>, from rows in ascending order of both\<close>

definition get_daily_usage :: "tables \<Rightarrow> int \<Rightarrow> (day_key \<times> daily_row) list" where
  "get_daily_usage db limit =
     sql_limit limit
       (concat (map (\<lambda>d. filter (\<lambda>e. fst (fst e) = d) (daily_rows db))
          (rev (remdups_adj (map (fst \<circ> fst) (daily_rows db))))))"

record model_total =
  mt_model :: string
  mt_requests :: int
  mt_input :: rat
  mt_output :: rat
  mt_cache_read :: rat
  mt_cache_creation :: rat
  mt_cost_total :: rat

record month_summary =
  ms_year :: nat
  ms_month :: nat
  ms_requests :: int
  ms_input :: rat
  ms_output :: rat
  ms_cache_read :: rat
  ms_cache_creation :: rat
  ms_thinking :: rat
  ms_cost_input :: rat
  ms_cost_output :: rat
  ms_cost_cache_read :: rat
  ms_cost_cache_creation :: rat
  ms_cost_total :: rat
  ms_has_unpriced :: bool
  ms_per_model :: "model_total list"

definition month_prefix :: "nat \<Rightarrow> nat \<Rightarrow> string" where
  "month_prefix year month = digits_of year @ ''-'' @ pad_left 2 (digits_of month)"

text \<open>\<open>WHERE date LIKE prefix || '%'\<close>: the prefix has neither letters nor wildcards.\<close>

definition month_rows :: "tables \<Rightarrow> nat \<Rightarrow> nat \<Rightarrow> (day_key \<times> daily_row) list" where
  "month_rows db year month =
     filter (\<lambda>e. take (length (month_prefix year month)) (fst (fst e)) = month_prefix year month)
       (daily_rows db)"

definition sum_rows :: "(daily_row \<Rightarrow> 'a::comm_monoid_add) \<Rightarrow> (day_key \<times> daily_row) list \<Rightarrow> 'a" where
  "sum_rows col rows = sum_list (map (\<lambda>e. col (snd e)) rows)"

definition model_totals :: "string \<Rightarrow> (day_key \<times> daily_row) list \<Rightarrow> model_total" where
  "model_totals model rows =
     (let own = filter (\<lambda>e. snd (fst e) = model) rows
      in \<lparr>mt_model = model, mt_requests = sum_rows du_requests own, mt_input = sum_rows du_input own,
          mt_output = sum_rows du_output own, mt_cache_read = sum_rows du_cache_read own,
          mt_cache_creation = sum_rows du_cache_creation own,
          mt_cost_total = sum_rows du_cost_total own\<rparr>)"

definition get_month_summary :: "tables \<Rightarrow> nat \<Rightarrow> nat \<Rightarrow> month_summary" where
  "get_month_summary db year month =
     (let rows = month_rows db year month;
          models = sort (remdups (map (snd \<circ> fst) rows))
      in \<lparr>ms_year = year, ms_month = month, ms_requests = sum_rows du_requests rows,
          ms_input = sum_rows du_input rows, ms_output = sum_rows du_output rows,
          ms_cache_read = sum_rows du_cache_read rows,
          ms_cache_creation = sum_rows du_cache_creation rows,
          ms_thinking = sum_rows du_thinking rows, ms_cost_input = sum_rows du_cost_input rows,
          ms_cost_output = sum_rows du_cost_output rows,
          ms_cost_cache_read = sum_rows du_cost_cache_read rows,
          ms_cost_cache_creation = sum_rows du_cost_cache_creation rows,
          ms_cost_total = sum_rows du_cost_total rows,
          ms_has_unpriced = list_ex (\<lambda>e. du_pricing_known (snd e) = 0) rows,
          ms_per_model = sort_key (\<lambda>t. - mt_cost_total t) (map (\<lambda>m. model_totals m rows) models)\<rparr>)"

definition get_available_months :: "tables \<Rightarrow> (jsnum \<times> jsnum) list" where
  "get_available_months db =
     map (\<lambda>ym. (js_number (take 4 ym), js_number (take 2 (drop 5 ym))))
       (rev (sort (remdups (map (\<lambda>e. take 7 (fst (fst e))) (daily_rows db)))))"

definition get_pricing_table :: "tables \<Rightarrow> pricing_row list" where
  "get_pricing_table db = sort_key pr_model (pricing db)"

end
