(* ===== verification/Capture_Db.thy ===== *)
theory Capture_Db
  imports Economics_Laws Economics_Queries Usage_Extract
begin

text \<open>
  The capture database (\<open>CaptureDB\<close> in \<open>src/db.ts\<close>): the ring buffer of captures, the updates that
  store a response's usage and account it in the same transaction, the vision captures beside the
  ring, and the opening of an existing file, which migrates, accounts what an earlier run left
  and sweeps. An operation that throws inside its transaction is \<open>None\<close>.
\<close>

record capture_db =
  cd_tables :: tables
  cd_next_id :: nat
  cd_row_count :: nat
  cd_max :: nat
  cd_vision_ttl :: rat
  cd_last_vision_sweep :: rat

definition VISION_SWEEP_INTERVAL_MS :: rat where
  "VISION_SWEEP_INTERVAL_MS = 60000"

abbreviation db_captures :: "capture_db \<Rightarrow> capture list" where
  "db_captures db \<equiv> captures (cd_tables db)"

definition set_captures :: "capture list \<Rightarrow> capture_db \<Rightarrow> capture_db" where
  "set_captures caps db = db\<lparr>cd_tables := (cd_tables db)\<lparr>captures := caps\<rparr>\<rparr>"

subsection \<open>Usage columns\<close>

record usage_columns =
  uc_model :: "string option"
  uc_input :: "rat option"
  uc_output :: "rat option"
  uc_cache_read :: "rat option"
  uc_cache_creation :: "rat option"
  uc_thinking :: "rat option"
  uc_usage_missing :: "int option"

text \<open>The columns the accounting reads; the thinking tokens are a number or null, as declared.\<close>

definition flatten_usage :: "usage_metrics option \<Rightarrow> string option \<Rightarrow> usage_columns" where
  "flatten_usage usage model =
     (case usage of
        None \<Rightarrow> \<lparr>uc_model = model, uc_input = None, uc_output = None, uc_cache_read = None,
                uc_cache_creation = None, uc_thinking = None, uc_usage_missing = None\<rparr>
      | Some u \<Rightarrow> \<lparr>uc_model = model, uc_input = um_input u, uc_output = um_output u,
                uc_cache_read = um_cache_read u, uc_cache_creation = um_cache_creation u,
                uc_thinking = jnum (Some (um_thinking u)),
                uc_usage_missing = Some (if um_usage_missing u then 1 else 0)\<rparr>)"

definition set_usage :: "usage_columns \<Rightarrow> capture \<Rightarrow> capture" where
  "set_usage u c =
     c\<lparr>cp_state := ''done'', cp_model := uc_model u, cp_input := uc_input u, cp_output := uc_output u,
       cp_cache_read := uc_cache_read u, cp_cache_creation := uc_cache_creation u,
       cp_thinking := uc_thinking u, cp_usage_missing := uc_usage_missing u\<rparr>"

text \<open>\<open>UPDATE captures SET ... WHERE id = $id\<close>\<close>

definition update_row :: "nat \<Rightarrow> (capture \<Rightarrow> capture) \<Rightarrow> capture list \<Rightarrow> capture list" where
  "update_row i f = map (\<lambda>c. if cp_id c = i then f c else c)"

subsection \<open>The ring buffer\<close>

definition new_capture :: "nat \<Rightarrow> string \<Rightarrow> rat option \<Rightarrow> capture" where
  "new_capture i state started =
     \<lparr>cp_id = i, cp_is_vision = False, cp_state = state, cp_started_at = started, cp_model = None,
      cp_input = None, cp_output = None, cp_cache_read = None, cp_cache_creation = None,
      cp_thinking = None, cp_usage_missing = Some 0, cp_accounted = False\<rparr>"

text \<open>
  \<open>SELECT id FROM captures WHERE is_vision = 0 ORDER BY id DESC LIMIT excess OFFSET limit\<close>; the table
  is kept in ascending order of its ids.
\<close>

definition excess_ids :: "nat \<Rightarrow> nat \<Rightarrow> capture list \<Rightarrow> nat list" where
  "excess_ids excess limit caps =
     take excess (drop limit (rev (map cp_id (filter (\<lambda>c. \<not> cp_is_vision c) caps))))"

text \<open>Inserts and prunes; the result is the new id and the pruned ids \<open>onPrune\<close> is called with.\<close>

definition start_capture :: "string \<Rightarrow> rat option \<Rightarrow> capture_db \<Rightarrow> capture_db \<times> nat \<times> nat list" where
  "start_capture state started db =
     (let i = cd_next_id db;
          caps = db_captures db @ [new_capture i state started];
          rowCount = cd_row_count db + 1;
          excess = rowCount - cd_max db;
          pruned = (if excess > 0 then excess_ids excess (cd_max db) caps else [])
      in (set_captures (filter (\<lambda>c. cp_id c \<notin> set pruned) caps)
            (db\<lparr>cd_next_id := i + 1, cd_row_count := (if excess > 0 then cd_max db else rowCount)\<rparr>),
          i, pruned))"

definition set_state :: "nat \<Rightarrow> string \<Rightarrow> capture_db \<Rightarrow> capture_db" where
  "set_state i state db =
     set_captures (update_row i (\<lambda>c. c\<lparr>cp_state := state\<rparr>) (db_captures db)) db"

definition clear_captures :: "capture_db \<Rightarrow> capture_db" where
  "clear_captures db = (set_captures [] db)\<lparr>cd_row_count := 0\<rparr>"

subsection \<open>Updates\<close>

record update_item =
  ui_id :: nat
  ui_usage :: "usage_metrics option"
  ui_model :: "string option"

definition batch_update :: "rat \<Rightarrow> update_item list \<Rightarrow> capture_db \<Rightarrow> capture_db option" where
  "batch_update now items db =
     (let caps = fold (\<lambda>it. update_row (ui_id it) (set_usage (flatten_usage (ui_usage it) (ui_model it))))
            items (db_captures db)
      in map_option (\<lambda>t. db\<lparr>cd_tables := t\<rparr>)
           (account_captures_usage now (map ui_id items) ((cd_tables db)\<lparr>captures := caps\<rparr>)))"

subsection \<open>Vision captures\<close>

definition sweep_vision_captures :: "rat \<Rightarrow> rat option \<Rightarrow> capture_db \<Rightarrow> capture_db" where
  "sweep_vision_captures now ttl db =
     (let cutoff = now - (case ttl of Some t \<Rightarrow> t | None \<Rightarrow> cd_vision_ttl db)
      in set_captures (filter (\<lambda>c. \<not> (cp_is_vision c
           \<and> (case cp_started_at c of Some t \<Rightarrow> t < cutoff | None \<Rightarrow> False))) (db_captures db)) db)"

definition insert_vision_capture ::
  "rat \<Rightarrow> string \<Rightarrow> rat \<Rightarrow> usage_columns \<Rightarrow> capture_db \<Rightarrow> capture_db \<times> nat" where
  "insert_vision_capture now state started u db =
     (let i = cd_next_id db;
          row = (set_usage u (new_capture i state (Some started)))\<lparr>cp_state := state, cp_is_vision := True\<rparr>;
          db1 = set_captures (db_captures db @ [row]) (db\<lparr>cd_next_id := i + 1\<rparr>)
      in (if now - cd_last_vision_sweep db \<ge> VISION_SWEEP_INTERVAL_MS
          then sweep_vision_captures now None (db1\<lparr>cd_last_vision_sweep := now\<rparr>) else db1, i))"

definition update_vision_capture :: "rat \<Rightarrow> nat \<Rightarrow> usage_columns \<Rightarrow> capture_db \<Rightarrow> capture_db option" where
  "update_vision_capture now i u db =
     map_option (\<lambda>t. db\<lparr>cd_tables := t\<rparr>)
       (account_captures_usage now [i]
          ((cd_tables db)\<lparr>captures := update_row i (set_usage u) (db_captures db)\<rparr>))"

definition clear_vision_captures :: "capture_db \<Rightarrow> capture_db" where
  "clear_vision_captures db = set_captures (filter (\<lambda>c. \<not> cp_is_vision c) (db_captures db)) db"

subsection \<open>Opening a file\<close>

definition sweep_stale_captures :: "capture list \<Rightarrow> capture list" where
  "sweep_stale_captures =
     map (\<lambda>c. if cp_state c = ''streaming'' \<or> cp_state c = ''enqueued'' then c\<lparr>cp_state := ''done''\<rparr> else c)"

text \<open>The constructor on the tables of a file, with the next id the file's sequence holds.\<close>

definition open_capture_db :: "rat \<Rightarrow> nat \<Rightarrow> rat \<Rightarrow> tables \<Rightarrow> nat \<Rightarrow> capture_db option" where
  "open_capture_db now maxCaptures visionTtl tabs nextId =
     map_option
       (\<lambda>(t, n). sweep_vision_captures now None
          \<lparr>cd_tables = t\<lparr>captures := sweep_stale_captures (captures t)\<rparr>, cd_next_id = nextId,
           cd_row_count = length (filter (\<lambda>c. \<not> cp_is_vision c) (captures t)),
           cd_max = maxCaptures, cd_vision_ttl = visionTtl, cd_last_vision_sweep = 0\<rparr>)
       (backfill_from_captures now (migrate_economics_schema now tabs))"

subsection \<open>Operations\<close>

text \<open>
  The operations the gateway performs, with the clock each reads. A restart opens the file
  again; a start that throws leaves the file as it was.
\<close>

datatype db_op =
    Start_Capture string "rat option"
  | Set_State nat string
  | Batch_Update rat "update_item list"
  | Insert_Vision rat string rat usage_columns
  | Update_Vision rat nat usage_columns
  | Clear_Captures
  | Clear_Vision
  | Sweep_Vision rat "rat option"
  | Sync_Pricing rat "model_entry list"
  | Restart rat

definition or_unchanged :: "'a \<Rightarrow> 'a option \<Rightarrow> 'a" where
  "or_unchanged s r = (case r of Some s' \<Rightarrow> s' | None \<Rightarrow> s)"

fun db_step :: "db_op \<Rightarrow> capture_db \<Rightarrow> capture_db" where
  "db_step (Start_Capture st started) db = fst (start_capture st started db)"
| "db_step (Set_State i st) db = set_state i st db"
| "db_step (Batch_Update now items) db = or_unchanged db (batch_update now items db)"
| "db_step (Insert_Vision now st started u) db = fst (insert_vision_capture now st started u db)"
| "db_step (Update_Vision now i u) db = or_unchanged db (update_vision_capture now i u db)"
| "db_step Clear_Captures db = clear_captures db"
| "db_step Clear_Vision db = clear_vision_captures db"
| "db_step (Sweep_Vision now ttl) db = sweep_vision_captures now ttl db"
| "db_step (Sync_Pricing now models) db = db\<lparr>cd_tables := fst (sync_pricing now models (cd_tables db))\<rparr>"
| "db_step (Restart now) db =
     or_unchanged db (open_capture_db now (cd_max db) (cd_vision_ttl db) (cd_tables db) (cd_next_id db))"

definition empty_tables :: tables where
  "empty_tables = \<lparr>captures = [], daily = Mapping.empty, pricing = []\<rparr>"

definition new_capture_db :: "rat \<Rightarrow> nat \<Rightarrow> rat \<Rightarrow> capture_db" where
  "new_capture_db now maxCaptures visionTtl =
     \<lparr>cd_tables = migrate_economics_schema now empty_tables, cd_next_id = 1, cd_row_count = 0,
      cd_max = maxCaptures, cd_vision_ttl = visionTtl, cd_last_vision_sweep = 0\<rparr>"

definition db_run :: "db_op list \<Rightarrow> capture_db \<Rightarrow> capture_db" where
  "db_run ops db = fold db_step ops db"

end
