(* ===== verification/Capture_Db_Laws.thy ===== *)
theory Capture_Db_Laws
  imports Capture_Db
begin

text \<open>
  Laws of the capture database. The ledger of a run lists the captures its operations account,
  with their dates; the locale \<open>usage_column\<close> says what a summed column of the daily table has in
  common, and ties it to the ledger once for all of them. \<open>db_wf\<close> is the invariant of the tables.
\<close>

subsection \<open>Columns\<close>

text \<open>A column of the daily table on a day for a model, and the sum of the booked captures' amounts.\<close>

definition day_total :: "(daily_row \<Rightarrow> 'a::zero) \<Rightarrow> (day_key, daily_row) mapping \<Rightarrow> day_key \<Rightarrow> 'a" where
  "day_total col m k = (case Mapping.lookup m k of Some r \<Rightarrow> col r | None \<Rightarrow> 0)"

definition booked :: "(capture \<Rightarrow> 'a::comm_monoid_add) \<Rightarrow> (string \<times> capture) list \<Rightarrow> day_key \<Rightarrow> 'a" where
  "booked amount ledger k =
     sum_list (map (amount \<circ> snd) (filter (\<lambda>e. (fst e, model_of (snd e)) = k) ledger))"

text \<open>What the backfill after a pricing sync makes of a row.\<close>

definition repriced :: "pricing_row list \<Rightarrow> day_key \<Rightarrow> daily_row \<Rightarrow> daily_row" where
  "repriced prices k r =
     (case get_pricing prices (snd k) of
        Some p \<Rightarrow> if du_pricing_known r = 0 then reprice_row p r else r | None \<Rightarrow> r)"

lemma booked_simps [simp]:
  "booked amount [] k = 0" "booked amount (l @ l') k = booked amount l k + booked amount l' k"
  "booked amount (e # l) k = (if (fst e, model_of (snd e)) = k then amount (snd e) else 0) + booked amount l k"
  by (simp_all add: booked_def)

lemma day_total_empty [simp]: "day_total col Mapping.empty k = 0"
  by (simp add: day_total_def)

locale usage_column =
  fixes col :: "daily_row \<Rightarrow> 'a::comm_monoid_add"
    and amount :: "capture \<Rightarrow> 'a"
  assumes col_usage: "col (usage_row p c) = amount c"
    and col_add: "col (add_row a b) = col a + col b"
    and col_reprice: "col (reprice_row q r) = col r"
begin

lemma day_total_put:
  "day_total col (put_capture now prices c m) k =
     day_total col m k + (if (the (capture_date now c), model_of c) = k then amount c else 0)"
  by (auto simp: day_total_def put_capture_def upsert_daily_def lookup_update' col_usage col_add
      split: option.splits)

lemma day_total_repriced:
  assumes "\<And>k. Mapping.lookup m' k = map_option (repriced prices k) (Mapping.lookup m k)"
  shows "day_total col m' k = day_total col m k"
  using assms by (simp add: day_total_def repriced_def col_reprice split: option.splits)

lemma day_total_puts:
  "day_total col (fold (put_capture now prices) cs m) k =
     day_total col m k + booked amount (map (\<lambda>c. (the (capture_date now c), c)) cs) k"
  by (induction cs arbitrary: m) (simp_all add: day_total_put add.assoc)

end

interpretation col_requests: usage_column du_requests "\<lambda>c. 1"
  by unfold_locales (simp_all add: usage_row_def add_row_def reprice_row_def Let_def)

interpretation col_input: usage_column du_input "or_zero \<circ> cp_input"
  by unfold_locales (simp_all add: usage_row_def add_row_def reprice_row_def Let_def)

interpretation col_output: usage_column du_output "or_zero \<circ> cp_output"
  by unfold_locales (simp_all add: usage_row_def add_row_def reprice_row_def Let_def)

interpretation col_cache_read: usage_column du_cache_read "or_zero \<circ> cp_cache_read"
  by unfold_locales (simp_all add: usage_row_def add_row_def reprice_row_def Let_def)

interpretation col_cache_creation: usage_column du_cache_creation "or_zero \<circ> cp_cache_creation"
  by unfold_locales (simp_all add: usage_row_def add_row_def reprice_row_def Let_def)

interpretation col_thinking: usage_column du_thinking "or_zero \<circ> cp_thinking"
  by unfold_locales (simp_all add: usage_row_def add_row_def reprice_row_def Let_def)

subsection \<open>The pricing sync\<close>

lemma fold_update_lookup:
  "distinct (map fst rows) \<Longrightarrow>
     Mapping.lookup (fold (\<lambda>(k, r). Mapping.update k r) rows m) k =
       (case map_of rows k of Some r \<Rightarrow> Some r | None \<Rightarrow> Mapping.lookup m k)"
proof (induction rows arbitrary: m)
  case (Cons e rows)
  obtain k' r' where e: "e = (k', r')" by (cases e)
  have "map_of rows k' = None" using Cons.prems by (simp add: e map_of_eq_None_iff)
  then show ?case
    using Cons by (auto simp: e lookup_update' split: option.splits)
qed simp

lemma map_filter_keyed:
  assumes "\<And>k. f k = map_option (Pair k) (g k)"
  shows "map fst (List.map_filter f ks) = filter (\<lambda>k. g k \<noteq> None) ks"
    and "map_of (List.map_filter f ks) k = (if k \<in> set ks then g k else None)"
  by (induction ks) (auto simp: assms List.map_filter_simps split: option.splits)

lemma backfill_lookup:
  assumes "finite (Mapping.keys (daily db))"
  shows "Mapping.lookup (daily (fst (backfill_unpriced_daily_usage db))) k =
    map_option (repriced (pricing db) k) (Mapping.lookup (daily db) k)"
proof -
  define g where "g k = (case Mapping.lookup (daily db) k of
      None \<Rightarrow> None
    | Some r \<Rightarrow> if du_pricing_known r = 0
        then map_option (\<lambda>p. reprice_row p r) (get_pricing (pricing db) (snd k)) else None)" for k
  define f where "f k = (case Mapping.lookup (daily db) k of
      None \<Rightarrow> None
    | Some r \<Rightarrow> if du_pricing_known r = 0
        then map_option (\<lambda>p. (k, reprice_row p r)) (get_pricing (pricing db) (snd k)) else None)" for k
  have fg: "f k = map_option (Pair k) (g k)" for k
    by (simp add: f_def g_def option.map_comp comp_def split: option.splits)
  have keys: "k \<in> set (Mapping.ordered_keys (daily db)) \<longleftrightarrow> Mapping.lookup (daily db) k \<noteq> None"
    using assms by (simp add: keys_dom_lookup domIff)
  have "Mapping.lookup (daily (fst (backfill_unpriced_daily_usage db))) k =
      (case map_of (List.map_filter f (Mapping.ordered_keys (daily db))) k of
         Some r \<Rightarrow> Some r | None \<Rightarrow> Mapping.lookup (daily db) k)"
    unfolding backfill_unpriced_daily_usage_def f_def [symmetric] Let_def fst_conv tables.select_convs
    by (simp add: fold_update_lookup map_filter_keyed(1) [OF fg])
  also have "\<dots> = map_option (repriced (pricing db) k) (Mapping.lookup (daily db) k)"
    using keys
    by (auto simp: map_filter_keyed(2) [OF fg] g_def repriced_def split: option.splits)
  finally show ?thesis .
qed

lemma backfill_fields:
  "captures (fst (backfill_unpriced_daily_usage db)) = captures db"
  "pricing (fst (backfill_unpriced_daily_usage db)) = pricing db"
  by (simp_all add: backfill_unpriced_daily_usage_def Let_def)

lemma sync_form:
  "fst (sync_pricing now models db) =
     fst (backfill_unpriced_daily_usage (db\<lparr>pricing := fst (fold (sync_model now) models (pricing db, 0, 0))\<rparr>))"
  by (simp add: sync_pricing_def split: prod.splits)

lemma sync_fields:
  "captures (fst (sync_pricing now models db)) = captures db"
  "pricing (fst (sync_pricing now models db)) = fst (fold (sync_model now) models (pricing db, 0, 0))"
  by (simp_all add: sync_form backfill_fields)

lemma sync_lookup:
  assumes "finite (Mapping.keys (daily db))"
  shows "Mapping.lookup (daily (fst (sync_pricing now models db))) k =
    map_option (repriced (pricing (fst (sync_pricing now models db))) k) (Mapping.lookup (daily db) k)"
  using backfill_lookup [of "db\<lparr>pricing := fst (fold (sync_model now) models (pricing db, 0, 0))\<rparr>" k] assms
  by (simp add: sync_fields) (simp add: sync_form)

subsection \<open>The invariant and the ledger\<close>

definition ring :: "capture list \<Rightarrow> capture list" where
  "ring caps = filter (\<lambda>c. \<not> cp_is_vision c) caps"

definition db_wf :: "capture_db \<Rightarrow> bool" where
  "db_wf db \<longleftrightarrow>
     sorted_wrt (<) (map cp_id (db_captures db))
   \<and> (\<forall>c\<in>set (db_captures db). cp_id c < cd_next_id db)
   \<and> cd_row_count db = length (ring (db_captures db))
   \<and> cd_row_count db \<le> cd_max db
   \<and> finite (Mapping.keys (daily (cd_tables db)))"

definition batch_ledger :: "rat \<Rightarrow> nat list \<Rightarrow> capture list \<Rightarrow> (string \<times> capture) list" where
  "batch_ledger now ids caps = map (\<lambda>c. (the (capture_date now c), c)) (due_captures ids caps)"

definition apply_items :: "update_item list \<Rightarrow> capture list \<Rightarrow> capture list" where
  "apply_items items =
     fold (\<lambda>it. update_row (ui_id it) (set_usage (flatten_usage (ui_usage it) (ui_model it)))) items"

definition backfill_ids :: "capture list \<Rightarrow> nat list" where
  "backfill_ids caps =
     sort (map cp_id (filter (\<lambda>c. \<not> cp_accounted c \<and> cp_model c \<noteq> None \<and> cp_usage_missing c = Some 0) caps))"

text \<open>The captures an operation accounts, each with the day it is accounted on.\<close>

fun accounted_by :: "db_op \<Rightarrow> capture_db \<Rightarrow> (string \<times> capture) list" where
  "accounted_by (Batch_Update now items) db =
     (if batch_update now items db = None then []
      else batch_ledger now (map ui_id items) (apply_items items (db_captures db)))"
| "accounted_by (Update_Vision now i u) db =
     (if update_vision_capture now i u db = None then []
      else batch_ledger now [i] (update_row i (set_usage u) (db_captures db)))"
| "accounted_by (Restart now) db =
     (if open_capture_db now (cd_max db) (cd_vision_ttl db) (cd_tables db) (cd_next_id db) = None then []
      else batch_ledger now (backfill_ids (db_captures db)) (db_captures db))"
| "accounted_by _ db = []"

fun db_ledger :: "db_op list \<Rightarrow> capture_db \<Rightarrow> (string \<times> capture) list" where
  "db_ledger [] db = []"
| "db_ledger (op # ops) db = accounted_by op db @ db_ledger ops (db_step op db)"

definition ledger_ok :: "capture list \<Rightarrow> nat \<Rightarrow> (string \<times> capture) list \<Rightarrow> bool" where
  "ledger_ok caps n L \<longleftrightarrow>
     distinct (map (cp_id \<circ> snd) L)
   \<and> (\<forall>e\<in>set L. cp_id (snd e) < n \<and> (\<forall>c\<in>set caps. cp_id c = cp_id (snd e) \<longrightarrow> cp_accounted c))"

definition totals_match :: "(day_key, daily_row) mapping \<Rightarrow> (string \<times> capture) list \<Rightarrow> bool" where
  "totals_match d L \<longleftrightarrow> (\<forall>k.
     day_total du_requests d k = booked (\<lambda>c. 1) L k
   \<and> day_total du_input d k = booked (or_zero \<circ> cp_input) L k
   \<and> day_total du_output d k = booked (or_zero \<circ> cp_output) L k
   \<and> day_total du_cache_read d k = booked (or_zero \<circ> cp_cache_read) L k
   \<and> day_total du_cache_creation d k = booked (or_zero \<circ> cp_cache_creation) L k
   \<and> day_total du_thinking d k = booked (or_zero \<circ> cp_thinking) L k)"

text \<open>What no update of a row changes.\<close>

definition row_marks :: "capture list \<Rightarrow> (nat \<times> bool \<times> bool) list" where
  "row_marks = map (\<lambda>c. (cp_id c, cp_is_vision c, cp_accounted c))"

lemma update_row_marks:
  "(\<And>c. (cp_id (f c), cp_is_vision (f c), cp_accounted (f c)) = (cp_id c, cp_is_vision c, cp_accounted c)) \<Longrightarrow>
     row_marks (update_row i f caps) = row_marks caps"
  by (auto simp: row_marks_def update_row_def)

lemma set_usage_marks:
  "(cp_id (set_usage u c), cp_is_vision (set_usage u c), cp_accounted (set_usage u c)) =
     (cp_id c, cp_is_vision c, cp_accounted c)"
  by (simp add: set_usage_def)

lemma apply_items_marks: "row_marks (apply_items items caps) = row_marks caps"
  unfolding apply_items_def
  by (induction items arbitrary: caps) (simp_all add: update_row_marks [OF set_usage_marks])

lemma marks_ids: "map cp_id caps = map fst (row_marks caps)"
  by (simp add: row_marks_def)

lemma marks_ring: "length (ring caps) = length (filter (\<lambda>m. \<not> fst (snd m)) (row_marks caps))"
  by (simp add: ring_def row_marks_def filter_map comp_def)

lemma marks_set: "(cp_id ` set caps) = fst ` set (row_marks caps)"
  by (force simp: row_marks_def)

lemma ledger_ok_marks:
  assumes "set (row_marks caps') \<subseteq> set (row_marks caps)" and "ledger_ok caps n L" and "n \<le> n'"
  shows "ledger_ok caps' n' L"
proof -
  have "cp_accounted c'" if "c' \<in> set caps'" "e \<in> set L" "cp_id c' = cp_id (snd e)" for c' e
  proof -
    have "(cp_id c', cp_is_vision c', cp_accounted c') \<in> set (row_marks caps)"
      using that(1) assms(1) by (auto simp: row_marks_def)
    then obtain c where "c \<in> set caps" "cp_id c = cp_id c'" "cp_accounted c = cp_accounted c'"
      by (auto simp: row_marks_def)
    then show ?thesis using assms(2) that by (auto simp: ledger_ok_def)
  qed
  then show ?thesis using assms(2,3) by (auto simp: ledger_ok_def)
qed

lemma finite_puts: "finite (Mapping.keys (fold (put_capture now p) cs m)) = finite (Mapping.keys m)"
  by (induction cs arbitrary: m) (simp_all add: put_capture_def upsert_daily_def)

lemma account_ledger:
  assumes run: "account_captures_usage now ids t = Some t'"
    and ids: "distinct (map cp_id (captures t))" "\<forall>c\<in>set (captures t). cp_id c < n"
    and ok: "ledger_ok (captures t) n L" and tot: "totals_match (daily t) L"
    and fin: "finite (Mapping.keys (daily t))"
  shows "ledger_ok (captures t') n (L @ batch_ledger now ids (captures t))"
    and "totals_match (daily t') (L @ batch_ledger now ids (captures t))"
    and "finite (Mapping.keys (daily t'))" and "pricing t' = pricing t"
    and "map (\<lambda>c. (cp_id c, cp_is_vision c)) (captures t') = map (\<lambda>c. (cp_id c, cp_is_vision c)) (captures t)"
proof -
  let ?due = "due_captures ids (captures t)"
  have t': "t' = t\<lparr>daily := fold (put_capture now (pricing t)) ?due (daily t),
      captures := mark_accounted (map cp_id (found_captures ids (captures t))) (captures t)\<rparr>"
    using run by (auto simp: batch_form Let_def split: if_splits)
  show "totals_match (daily t') (L @ batch_ledger now ids (captures t))"
    using tot
    by (simp add: t' totals_match_def batch_ledger_def col_requests.day_total_puts
        col_input.day_total_puts col_output.day_total_puts col_cache_read.day_total_puts
        col_cache_creation.day_total_puts col_thinking.day_total_puts)
  show "finite (Mapping.keys (daily t'))" "pricing t' = pricing t"
    using fin by (simp_all add: t' finite_puts)
  show "map (\<lambda>c. (cp_id c, cp_is_vision c)) (captures t') = map (\<lambda>c. (cp_id c, cp_is_vision c)) (captures t)"
    by (auto simp: t' mark_accounted_def)
  have due: "c \<in> set (captures t)" "\<not> cp_accounted c" "c \<in> set (found_captures ids (captures t))"
    if "c \<in> set ?due" for c
    using that by (auto simp: due_captures_def found_captures_def)
  have "distinct (map cp_id ?due)"
    using ids(1) by (simp add: due_captures_def found_captures_def distinct_map_filter)
  then have "distinct (map (cp_id \<circ> snd) (L @ batch_ledger now ids (captures t)))"
    using ok due by (fastforce simp: ledger_ok_def batch_ledger_def comp_def)
  then show "ledger_ok (captures t') n (L @ batch_ledger now ids (captures t))"
    using ok ids(2) due
    by (fastforce simp: ledger_ok_def batch_ledger_def t' mark_accounted_def)
qed

subsection \<open>The ring buffer\<close>

lemma filter_drop_keys:
  assumes "distinct (map f xs)"
  shows "filter (\<lambda>x. f x \<notin> f ` set (take k xs)) xs = drop k xs"
proof -
  have d: "distinct (map f (take k xs @ drop k xs))" using assms by simp
  have t: "filter (\<lambda>x. f x \<notin> f ` set (take k xs)) (take k xs) = []"
    by (auto simp: filter_empty_conv)
  have r: "filter (\<lambda>x. f x \<notin> f ` set (take k xs)) (drop k xs) = drop k xs"
    using d unfolding map_append distinct_append filter_id_conv by auto
  have "filter (\<lambda>x. f x \<notin> f ` set (take k xs)) (take k xs @ drop k xs) = drop k xs"
    unfolding filter_append t r by simp
  then show ?thesis by simp
qed

lemma excess_ids_take:
  assumes "length (ring caps) = n"
  shows "excess_ids (n - m) m caps = rev (map cp_id (take (n - m) (ring caps)))"
  using assms
  by (simp add: excess_ids_def ring_def drop_map take_map drop_rev flip: rev_map)

lemma start_capture_spec:
  assumes wf: "db_wf db" and s: "start_capture st started db = (db', i, pruned)"
  defines "new \<equiv> new_capture (cd_next_id db) st started"
  defines "k \<equiv> length (ring (db_captures db)) + 1 - cd_max db"
  shows "i = cd_next_id db"
    and "ring (db_captures db') = drop k (ring (db_captures db) @ [new])"
    and "filter cp_is_vision (db_captures db') = filter cp_is_vision (db_captures db)"
    and "pruned = rev (map cp_id (take k (ring (db_captures db) @ [new])))"
    and "db_captures db' = filter (\<lambda>c. cp_id c \<notin> set pruned) (db_captures db @ [new])"
    and "cd_next_id db' = cd_next_id db + 1" "cd_max db' = cd_max db"
    and "cd_row_count db' = length (ring (db_captures db'))" "cd_row_count db' \<le> cd_max db'"
    and "daily (cd_tables db') = daily (cd_tables db)" "pricing (cd_tables db') = pricing (cd_tables db)"
    and "cd_vision_ttl db' = cd_vision_ttl db"
proof -
  let ?caps = "db_captures db @ [new]"
  have rc: "cd_row_count db = length (ring (db_captures db))" and le: "cd_row_count db \<le> cd_max db"
    using wf by (auto simp: db_wf_def)
  have ringnew: "ring ?caps = ring (db_captures db) @ [new]"
    by (simp add: ring_def new_def new_capture_def)
  have "distinct (map cp_id (db_captures db))"
    using wf strict_sorted_iff by (auto simp: db_wf_def)
  then have dist: "distinct (map cp_id ?caps)"
    using wf by (auto simp: db_wf_def new_def new_capture_def)
  define pr where "pr = (if k > 0 then excess_ids k (cd_max db) ?caps else [])"
  have "start_capture st started db = (set_captures (filter (\<lambda>c. cp_id c \<notin> set pr) ?caps)
      (db\<lparr>cd_next_id := cd_next_id db + 1,
          cd_row_count := (if k > 0 then cd_max db else cd_row_count db + 1)\<rparr>), cd_next_id db, pr)"
    unfolding start_capture_def Let_def pr_def k_def new_def rc by (rule refl)
  then have db': "db' = set_captures (filter (\<lambda>c. cp_id c \<notin> set pruned) ?caps)
      (db\<lparr>cd_next_id := cd_next_id db + 1,
          cd_row_count := (if k > 0 then cd_max db else cd_row_count db + 1)\<rparr>)"
    and i: "i = cd_next_id db" and pr: "pruned = pr"
    using s by auto
  have caps: "db_captures db' = filter (\<lambda>c. cp_id c \<notin> set pruned) ?caps"
    and rest: "cd_next_id db' = cd_next_id db + 1" "cd_max db' = cd_max db"
      "cd_row_count db' = (if k > 0 then cd_max db else cd_row_count db + 1)"
      "daily (cd_tables db') = daily (cd_tables db)" "pricing (cd_tables db') = pricing (cd_tables db)"
      "cd_vision_ttl db' = cd_vision_ttl db"
    by (simp_all add: db' set_captures_def)
  show pruned: "pruned = rev (map cp_id (take k (ring (db_captures db) @ [new])))"
    using pr pr_def excess_ids_take [of ?caps "length (ring (db_captures db)) + 1" "cd_max db"]
    by (auto simp: ringnew k_def)
  have setpr: "set pruned = cp_id ` set (take k (ring ?caps))"
    by (simp add: pruned ringnew image_Un Un_commute)
  have "ring (db_captures db') = filter (\<lambda>c. cp_id c \<notin> set pruned) (ring ?caps)"
    unfolding caps ring_def filter_filter by (rule filter_cong) auto
  also have "\<dots> = drop k (ring ?caps)"
    unfolding setpr by (rule filter_drop_keys) (use dist in \<open>simp only: ring_def distinct_map_filter\<close>)
  finally show ring': "ring (db_captures db') = drop k (ring (db_captures db) @ [new])"
    by (simp add: ringnew)
  have "cp_id c \<notin> set pruned" if "c \<in> set ?caps" "cp_is_vision c" for c
  proof
    assume "cp_id c \<in> set pruned"
    then obtain c' where c': "c' \<in> set (take k (ring ?caps))" "cp_id c' = cp_id c"
      unfolding setpr by auto
    have "c' \<in> set (ring ?caps)" using c'(1) by (rule in_set_takeD)
    then have "c' \<in> set ?caps" "\<not> cp_is_vision c'" unfolding ring_def set_filter by blast+
    with dist that c'(2) show False by (metis distinct_map inj_onD)
  qed
  then have "filter cp_is_vision (db_captures db') = filter cp_is_vision ?caps"
    unfolding caps filter_filter by (auto intro!: filter_cong)
  then show "filter cp_is_vision (db_captures db') = filter cp_is_vision (db_captures db)"
    by (simp add: new_def new_capture_def)
  show "cd_row_count db' = length (ring (db_captures db'))" "cd_row_count db' \<le> cd_max db'"
    using rc le rest(2,3) by (auto simp: ring' k_def)
  show "i = cd_next_id db" "db_captures db' = filter (\<lambda>c. cp_id c \<notin> set pruned) ?caps"
    "cd_next_id db' = cd_next_id db + 1" "cd_max db' = cd_max db"
    "daily (cd_tables db') = daily (cd_tables db)" "pricing (cd_tables db') = pricing (cd_tables db)"
    "cd_vision_ttl db' = cd_vision_ttl db"
    using i caps rest by simp_all
qed

subsection \<open>Preservation\<close>

lemma row_marks_filter: "set (row_marks (filter P caps)) \<subseteq> set (row_marks caps)"
  by (auto simp: row_marks_def)

lemma ring_filter_le: "length (ring (filter P caps)) \<le> length (ring caps)"
  by (induction caps) (auto simp: ring_def)

definition db_inv :: "capture_db \<Rightarrow> (string \<times> capture) list \<Rightarrow> bool" where
  "db_inv db L \<longleftrightarrow> db_wf db \<and> ledger_ok (db_captures db) (cd_next_id db) L
     \<and> totals_match (daily (cd_tables db)) L"

lemma wf_distinct: "db_wf db \<Longrightarrow> distinct (map cp_id (db_captures db))"
  using strict_sorted_iff by (auto simp: db_wf_def)

text \<open>Removing rows, and changing unmarked columns, keeps the invariant.\<close>

lemma db_inv_subset:
  assumes inv: "db_inv db L"
    and caps: "db_captures db' = filter P caps'" "row_marks caps' = row_marks (db_captures db)"
    and count: "cd_row_count db' = length (ring (db_captures db'))" "cd_max db' = cd_max db"
    and rest: "cd_next_id db' = cd_next_id db" "daily (cd_tables db') = daily (cd_tables db)"
  shows "db_inv db' L"
proof -
  have ids: "map cp_id caps' = map cp_id (db_captures db)"
    by (simp add: marks_ids caps(2))
  have "sorted_wrt (<) (map cp_id (filter P caps'))"
    using inv unfolding db_inv_def db_wf_def ids [symmetric] sorted_wrt_map
    by (auto intro: sorted_wrt_filter)
  moreover have "cp_id c < cd_next_id db" if "c \<in> set caps'" for c
  proof -
    have "cp_id c \<in> set (map cp_id caps')" using that by simp
    then show ?thesis using inv by (auto simp: ids db_inv_def db_wf_def)
  qed
  moreover have "length (ring (filter P caps')) \<le> length (ring (db_captures db))"
    using marks_ring [of caps'] marks_ring [of "db_captures db"] caps(2) ring_filter_le [of P caps']
    by simp
  moreover have "ledger_ok (filter P caps') (cd_next_id db) L"
    by (rule ledger_ok_marks [of _ "db_captures db"])
      (use inv row_marks_filter [of P caps'] in \<open>auto simp: caps(2) db_inv_def\<close>)
  ultimately show ?thesis
    using inv count rest by (auto simp: db_inv_def db_wf_def caps(1))
qed

lemma db_inv_start:
  assumes inv: "db_inv db L"
  shows "db_inv (fst (start_capture st started db)) L"
proof -
  obtain db' i pruned where s: "start_capture st started db = (db', i, pruned)"
    by (cases "start_capture st started db") auto
  have wf: "db_wf db" using inv by (simp add: db_inv_def)
  note spec = start_capture_spec [OF wf s]
  let ?new = "new_capture (cd_next_id db) st started"
  have new: "cp_id ?new = cd_next_id db" by (simp add: new_capture_def)
  have "sorted_wrt (<) (map cp_id (db_captures db @ [?new]))"
    using wf by (auto simp: db_wf_def sorted_wrt_append new)
  then have "sorted_wrt (<) (map cp_id (db_captures db'))"
    unfolding spec(5) sorted_wrt_map by (rule sorted_wrt_filter)
  moreover have "\<forall>c\<in>set (db_captures db'). cp_id c < cd_next_id db'"
    using wf by (auto simp: spec(5,6) db_wf_def new)
  moreover have "ledger_ok (db_captures db') (cd_next_id db') L"
    using inv new by (auto simp: ledger_ok_def db_inv_def spec(5,6))
  ultimately show ?thesis
    using inv spec(8,9) by (simp add: s db_inv_def db_wf_def spec(10))
qed

lemma db_inv_account:
  assumes inv: "db_inv db L" and run: "account_captures_usage now ids t = Some t'"
    and t: "row_marks (captures t) = row_marks (db_captures db)" "daily t = daily (cd_tables db)"
  shows "db_inv (db\<lparr>cd_tables := t'\<rparr>) (L @ batch_ledger now ids (captures t))"
proof -
  have ids: "map cp_id (captures t) = map cp_id (db_captures db)"
    by (simp add: marks_ids t(1))
  have d: "distinct (map cp_id (captures t))"
    using inv wf_distinct unfolding ids by (auto simp: db_inv_def)
  have "cp_id ` set (captures t) = cp_id ` set (db_captures db)"
    by (simp add: marks_set t(1))
  then have n: "\<forall>c\<in>set (captures t). cp_id c < cd_next_id db"
    using inv unfolding db_inv_def db_wf_def by (metis (no_types, lifting) imageE image_eqI)
  have ok: "ledger_ok (captures t) (cd_next_id db) L"
    by (rule ledger_ok_marks [of _ "db_captures db"]) (use inv in \<open>auto simp: t(1) db_inv_def\<close>)
  note acc = account_ledger [OF run d n ok]
  have tot: "totals_match (daily t) L" and fin: "finite (Mapping.keys (daily t))"
    using inv by (simp_all add: t(2) db_inv_def db_wf_def)
  note acc = acc [OF tot fin]
  have marks: "map (\<lambda>c. (cp_id c, cp_is_vision c)) (captures t') =
      map (\<lambda>(i, v, a). (i, v)) (row_marks (db_captures db))"
    unfolding acc(5) t(1) [symmetric] by (simp add: row_marks_def)
  have ids': "map cp_id (captures t') = map cp_id (db_captures db)"
    using arg_cong [OF marks, of "map fst"] by (simp add: row_marks_def comp_def)
  have ring': "length (ring (captures t')) = length (ring (db_captures db))"
    using arg_cong [OF marks, of "\<lambda>xs. length (filter (\<lambda>m. \<not> snd m) xs)"]
    by (simp add: row_marks_def ring_def filter_map comp_def)
  have "\<forall>c\<in>set (captures t'). cp_id c < cd_next_id db"
    using inv arg_cong [OF ids', of set] unfolding db_inv_def db_wf_def set_map
    by (metis (no_types, lifting) imageE image_eqI)
  then show ?thesis
    using inv acc(1-3) by (simp add: db_inv_def db_wf_def ids' ring')
qed

lemma db_inv_sync:
  assumes "db_inv db L"
  shows "db_inv (db\<lparr>cd_tables := fst (sync_pricing now models (cd_tables db))\<rparr>) L"
proof -
  let ?t = "fst (sync_pricing now models (cd_tables db))"
  have fin: "finite (Mapping.keys (daily (cd_tables db)))"
    using assms by (simp add: db_inv_def db_wf_def)
  note look = sync_lookup [OF fin, of now models]
  have "Mapping.keys (daily ?t) = Mapping.keys (daily (cd_tables db))"
    unfolding keys_dom_lookup by (auto simp: dom_def look)
  then show ?thesis
    using assms fin
    by (simp add: db_inv_def db_wf_def sync_fields totals_match_def
        col_requests.day_total_repriced [OF look] col_input.day_total_repriced [OF look]
        col_output.day_total_repriced [OF look] col_cache_read.day_total_repriced [OF look]
        col_cache_creation.day_total_repriced [OF look] col_thinking.day_total_repriced [OF look])
qed

end
