(* ===== verification/Capture_Props.thy ===== *)
theory Capture_Props
  imports Capture_Db_Laws
begin

text \<open>
  What the capture database and the economics promise: the invariant holds along every run, the
  ring buffer keeps the newest captures, every capture is counted once, the batch accounting is
  the single one, and a pricing sync leaves priced rows alone.
\<close>

subsection \<open>Runs\<close>

lemma set_captures_fields [simp]:
  "db_captures (set_captures caps db) = caps"
  "cd_next_id (set_captures caps db) = cd_next_id db"
  "cd_row_count (set_captures caps db) = cd_row_count db"
  "cd_max (set_captures caps db) = cd_max db"
  "cd_vision_ttl (set_captures caps db) = cd_vision_ttl db"
  "daily (cd_tables (set_captures caps db)) = daily (cd_tables db)"
  "pricing (cd_tables (set_captures caps db)) = pricing (cd_tables db)"
  by (simp_all add: set_captures_def)

lemma ring_without_vision: "ring (filter (\<lambda>c. cp_is_vision c \<longrightarrow> P c) caps) = ring caps"
  by (auto simp: ring_def intro!: filter_cong)

lemma db_inv_count: "db_inv db L \<Longrightarrow> cd_row_count db = length (ring (db_captures db))"
  by (simp add: db_inv_def db_wf_def)

lemma db_inv_set_state:
  assumes "db_inv db L"
  shows "db_inv (set_state i st db) L"
proof -
  have m: "row_marks (update_row i (\<lambda>c. c\<lparr>cp_state := st\<rparr>) (db_captures db)) = row_marks (db_captures db)"
    by (rule update_row_marks) simp
  show ?thesis
    by (rule db_inv_subset [OF assms, where P = "\<lambda>c. True", OF _ m])
      (use db_inv_count [OF assms] marks_ring [of "update_row i (\<lambda>c. c\<lparr>cp_state := st\<rparr>) (db_captures db)"]
         marks_ring [of "db_captures db"] m in \<open>simp_all add: set_state_def\<close>)
qed

lemma db_inv_sweep:
  assumes "db_inv db L"
  shows "db_inv (sweep_vision_captures now ttl db) L"
  by (rule db_inv_subset [OF assms _ refl])
    (use db_inv_count [OF assms] in \<open>simp_all add: sweep_vision_captures_def Let_def ring_without_vision\<close>)

lemma db_inv_clear:
  assumes "db_inv db L"
  shows "db_inv (clear_captures db) L"
  by (rule db_inv_subset [OF assms, where P = "\<lambda>c. False", OF _ refl])
    (simp_all add: clear_captures_def ring_def)

lemma db_inv_clear_vision:
  assumes "db_inv db L"
  shows "db_inv (clear_vision_captures db) L"
  by (rule db_inv_subset [OF assms _ refl])
    (use db_inv_count [OF assms] ring_without_vision [of "\<lambda>c. False" "db_captures db"]
       in \<open>simp_all add: clear_vision_captures_def\<close>)

lemma db_inv_insert_vision:
  assumes inv: "db_inv db L"
  shows "db_inv (fst (insert_vision_capture now st started u db)) L"
proof -
  define row where "row = (set_usage u (new_capture (cd_next_id db) st (Some started)))
      \<lparr>cp_state := st, cp_is_vision := True\<rparr>"
  have row: "cp_id row = cd_next_id db" "cp_is_vision row"
    by (simp_all add: row_def set_usage_def new_capture_def)
  define db1 where "db1 = set_captures (db_captures db @ [row]) (db\<lparr>cd_next_id := cd_next_id db + 1\<rparr>)"
  have "db_inv db1 L"
    using inv row
    by (auto simp: db1_def db_inv_def db_wf_def sorted_wrt_append ring_def ledger_ok_def)
  moreover have "db_inv (db'\<lparr>cd_last_vision_sweep := now\<rparr>) L" if "db_inv db' L" for db'
    using that by (simp add: db_inv_def db_wf_def)
  ultimately show ?thesis
    by (auto simp: insert_vision_capture_def Let_def db_inv_sweep simp flip: row_def db1_def [simplified])
qed

lemma db_inv_restart:
  assumes inv: "db_inv db L"
    and run: "open_capture_db now (cd_max db) (cd_vision_ttl db) (cd_tables db) (cd_next_id db) = Some db'"
  shows "db_inv db' (L @ batch_ledger now (backfill_ids (db_captures db)) (db_captures db))"
proof -
  let ?t = "migrate_economics_schema now (cd_tables db)"
  let ?ids = "backfill_ids (db_captures db)"
  have t: "captures ?t = db_captures db" "daily ?t = daily (cd_tables db)"
    by (simp_all add: migrate_economics_schema_def)
  obtain t' where acc: "account_captures_usage now ?ids ?t = Some t'"
    and db': "db' = sweep_vision_captures now None
          \<lparr>cd_tables = t'\<lparr>captures := sweep_stale_captures (captures t')\<rparr>, cd_next_id = cd_next_id db,
           cd_row_count = length (ring (captures t')),
           cd_max = cd_max db, cd_vision_ttl = cd_vision_ttl db, cd_last_vision_sweep = 0\<rparr>"
    using run wf_distinct inv
    by (auto simp: open_capture_db_def backfill_from_captures_def Let_def t batch_is_fold
        backfill_ids_def ring_def db_inv_def)
  have "db_inv (db\<lparr>cd_tables := t'\<rparr>) (L @ batch_ledger now ?ids (captures ?t))"
    by (rule db_inv_account [OF inv acc]) (simp_all add: t)
  then have a: "db_inv (db\<lparr>cd_tables := t'\<rparr>) (L @ batch_ledger now ?ids (db_captures db))"
    by (simp add: t)
  have m: "row_marks (sweep_stale_captures (captures t')) = row_marks (captures t')"
    by (auto simp: row_marks_def sweep_stale_captures_def)
  show ?thesis
    unfolding db'
    by (rule db_inv_sweep, rule db_inv_subset [OF a, where P = "\<lambda>c. True"
          and caps' = "sweep_stale_captures (captures t')"])
      (use m marks_ring [of "captures t'"] marks_ring [of "sweep_stale_captures (captures t')"] in simp_all)
qed

lemma db_step_inv:
  assumes "db_inv db L"
  shows "db_inv (db_step op db) (L @ accounted_by op db)"
proof (cases op)
  case (Batch_Update now items)
  let ?t = "(cd_tables db)\<lparr>captures := apply_items items (db_captures db)\<rparr>"
  show ?thesis
    using Batch_Update assms
      db_inv_account [OF assms, of now "map ui_id items" ?t]
    by (auto simp: or_unchanged_def batch_update_def Let_def apply_items_marks
        simp flip: apply_items_def split: option.splits)
next
  case (Update_Vision now i u)
  let ?t = "(cd_tables db)\<lparr>captures := update_row i (set_usage u) (db_captures db)\<rparr>"
  show ?thesis
    using Update_Vision assms db_inv_account [OF assms, of now "[i]" ?t]
    by (auto simp: or_unchanged_def update_vision_capture_def update_row_marks [OF set_usage_marks]
        split: option.splits)
next
  case (Restart now)
  then show ?thesis
    using assms db_inv_restart [OF assms] by (auto simp: or_unchanged_def split: option.splits)
qed (simp_all add: assms db_inv_start db_inv_set_state db_inv_sweep db_inv_clear db_inv_clear_vision
    db_inv_insert_vision db_inv_sync)

lemma db_inv_run: "db_inv db L \<Longrightarrow> db_inv (db_run ops db) (L @ db_ledger ops db)"
proof (induction ops arbitrary: db L)
  case (Cons op ops)
  show ?case
    using Cons.IH [OF db_step_inv [OF Cons.prems, of op]] by (simp add: db_run_def)
qed (simp add: db_run_def)

lemma db_inv_new: "db_inv (new_capture_db now m ttl) []"
  by (simp add: db_inv_def db_wf_def new_capture_db_def migrate_economics_schema_def empty_tables_def
      ring_def ledger_ok_def totals_match_def)

lemma db_inv_reached: "db_inv (db_run ops (new_capture_db now m ttl)) (db_ledger ops (new_capture_db now m ttl))"
  using db_inv_run [OF db_inv_new] by simp

lemma db_step_max: "cd_max (db_step op db) = cd_max db"
  by (cases op)
    (auto simp: start_capture_def set_state_def clear_captures_def sweep_vision_captures_def Let_def
      insert_vision_capture_def clear_vision_captures_def set_captures_def or_unchanged_def
      batch_update_def update_vision_capture_def open_capture_db_def split: option.splits)

lemma db_run_max: "cd_max (db_run ops db) = cd_max db"
  unfolding db_run_def by (induction ops arbitrary: db) (simp_all add: db_step_max)

subsection \<open>The ring buffer\<close>

text \<open>
  C17: the ring buffer keeps exactly the newest captures. After any operations on a new database,
  starting a capture gives it an id above every other; of the old captures and the new one the
  last \<open>maxCaptures\<close> stay, in order; the ids reported as pruned are those of the others, newest
  first; vision captures are not touched; the row count stays the number of captures in the
  ring and within the maximum.
\<close>

theorem newest_captures_kept:
  "let db = db_run ops (new_capture_db now m ttl);
       (db', i, pruned) = start_capture st started db;
       rows = ring (db_captures db) @ [new_capture i st started];
       n = length rows - m
   in ring (db_captures db') = drop n rows
    \<and> pruned = rev (map cp_id (take n rows))
    \<and> filter cp_is_vision (db_captures db') = filter cp_is_vision (db_captures db)
    \<and> cd_row_count db' = length (ring (db_captures db'))
    \<and> cd_row_count db' \<le> m
    \<and> list_all (\<lambda>c. cp_id c < i) (db_captures db)"
proof -
  define db where "db = db_run ops (new_capture_db now m ttl)"
  obtain db' i pruned where s: "start_capture st started db = (db', i, pruned)"
    by (cases "start_capture st started db") auto
  have wf: "db_wf db" using db_inv_reached by (auto simp: db_inv_def db_def)
  have m: "cd_max db = m" by (simp add: db_def db_run_max new_capture_db_def)
  have "list_all (\<lambda>c. cp_id c < cd_next_id db) (db_captures db)"
    using wf by (simp add: db_wf_def list_all_iff)
  then show ?thesis
    using start_capture_spec [OF wf s] m by (simp add: Let_def s flip: db_def)
qed

subsection \<open>Accounting\<close>

text \<open>
  accounting captures in one batch is accounting them one after another, for any list of
  ids, with repetitions and unknown or already accounted ids among them, and it throws exactly
  when the single accounting does. The ids in the table are distinct, as its primary key.
\<close>

theorem batch_accounting_is_single:
  assumes "distinct (map cp_id (captures t))"
  shows "account_captures_usage now ids t = fold_opt (account_capture_usage now) ids t"
  using assms by (rule batch_is_fold)

lemma batch_accounting_is_single_witness:
  "account_captures_usage 0 [2, 1, 2]
      \<lparr>captures = [new_capture 1 ''done'' (Some 5), new_capture 2 ''done'' None],
       daily = Mapping.empty, pricing = []\<rparr> =
   fold_opt (account_capture_usage 0) [2, 1, 2]
      \<lparr>captures = [new_capture 1 ''done'' (Some 5), new_capture 2 ''done'' None],
       daily = Mapping.empty, pricing = []\<rparr>"
  by (rule batch_accounting_is_single) (simp add: new_capture_def)

text \<open>
  C15: every accounted capture is counted once, through any operations on a new database,
  restarts, clears and pricing syncs included. No capture is accounted twice, and for every day
  and model the requests and the token counts of the daily table are the sums over the captures
  accounted on that day for that model.
\<close>

theorem usage_counted_once:
  "let db0 = new_capture_db now m ttl;
       d = daily (cd_tables (db_run ops db0));
       ledger = db_ledger ops db0
   in distinct (map (cp_id \<circ> snd) ledger)
    \<and> day_total du_requests d k = booked (\<lambda>c. 1) ledger k
    \<and> day_total du_input d k = booked (or_zero \<circ> cp_input) ledger k
    \<and> day_total du_output d k = booked (or_zero \<circ> cp_output) ledger k
    \<and> day_total du_cache_read d k = booked (or_zero \<circ> cp_cache_read) ledger k
    \<and> day_total du_cache_creation d k = booked (or_zero \<circ> cp_cache_creation) ledger k
    \<and> day_total du_thinking d k = booked (or_zero \<circ> cp_thinking) ledger k"
  using db_inv_reached [of ops now m ttl]
  by (cases k) (simp add: db_inv_def ledger_ok_def totals_match_def Let_def)

subsection \<open>Prices\<close>

definition priced :: "pricing_row list \<Rightarrow> string \<Rightarrow> bool" where
  "priced prices model = (case get_pricing prices model of Some p \<Rightarrow> 1 \<le> pr_known p | None \<Rightarrow> False)"

lemma get_pricing_simps:
  "get_pricing [] m = None"
  "get_pricing (p # ps) m = (if pr_model p = m then Some p else get_pricing ps m)"
  by (simp_all add: get_pricing_def)

lemma get_pricing_append:
  "get_pricing (ps @ qs) m = (case get_pricing ps m of Some p \<Rightarrow> Some p | None \<Rightarrow> get_pricing qs m)"
  by (induction ps) (auto simp: get_pricing_simps)

lemma get_pricing_map:
  assumes "\<And>p. pr_model (f p) = pr_model p"
  shows "get_pricing (map f ps) m = map_option f (get_pricing ps m)"
  by (induction ps) (auto simp: get_pricing_simps assms)

lemma priced_upsert: "priced (upsert_pricing m i out cr 1 now prices) m' = (m' = m \<or> priced prices m')"
proof (cases "get_pricing prices m")
  case None
  then show ?thesis
    by (auto simp: priced_def upsert_pricing_def get_pricing_append get_pricing_simps split: option.splits)
next
  case (Some p)
  have "pr_model p = m" using Some by (auto simp: get_pricing_def find_Some_iff)
  moreover have "pr_model q = m'" if "get_pricing prices m' = Some q" for q
    using that by (auto simp: get_pricing_def find_Some_iff)
  ultimately show ?thesis
    using Some
    by (cases "m' = m")
      (auto simp: priced_def upsert_pricing_def get_pricing_map split: option.splits)
qed

lemma priced_sync_model:
  "priced (fst (sync_model now me st)) m = (me_pricing me \<noteq> None \<and> m = me_id me \<or> priced (fst st) m)"
  by (cases st) (auto simp: sync_model_def priced_upsert split: option.splits)

lemma priced_sync:
  "priced (fst (fold (sync_model now) models st)) m \<longleftrightarrow>
     (\<exists>me\<in>set models. me_pricing me \<noteq> None \<and> m = me_id me) \<or> priced (fst st) m"
  by (induction models arbitrary: st) (auto simp: priced_sync_model)

text \<open>
  C16: a pricing sync prices every listed model that has a price and corrects the daily rows once.
  A row whose pricing was known stays as it is, whatever the new prices; a row that was not
  priced is recomputed at the synced price of its model when there is one, all tokens kept; no
  unpriced row of a model with a price is left, and no row appears or disappears.
\<close>

theorem sync_keeps_priced_rows:
  "let t = cd_tables (db_run ops (new_capture_db now m ttl));
       t' = fst (sync_pricing now' models t)
   in (\<forall>k. Mapping.lookup (daily t') k =
          (case Mapping.lookup (daily t) k of
             None \<Rightarrow> None
           | Some r \<Rightarrow> Some (if du_pricing_known r = 0
               then (case get_pricing (pricing t') (snd k) of Some p \<Rightarrow> reprice_row p r | None \<Rightarrow> r)
               else r)))
    \<and> (\<forall>k. case Mapping.lookup (daily t') k of
          None \<Rightarrow> True
        | Some r \<Rightarrow> (case get_pricing (pricing t') (snd k) of Some p \<Rightarrow> du_pricing_known r \<noteq> 0 | None \<Rightarrow> True))
    \<and> list_all (\<lambda>me. case me_pricing me of None \<Rightarrow> True | Some p \<Rightarrow> priced (pricing t') (me_id me)) models
    \<and> captures t' = captures t"
proof -
  define t where "t = cd_tables (db_run ops (new_capture_db now m ttl))"
  define t' where "t' = fst (sync_pricing now' models t)"
  have "finite (Mapping.keys (daily t))"
    using db_inv_reached by (auto simp: db_inv_def db_wf_def t_def)
  note look = sync_lookup [OF this, of now' models, folded t'_def]
  have known: "du_pricing_known (reprice_row p r) = 1" for p r
    by (simp add: reprice_row_def Let_def)
  show ?thesis
    unfolding Let_def t_def [symmetric] t'_def [symmetric]
  proof (intro conjI)
    show "list_all (\<lambda>me. case me_pricing me of None \<Rightarrow> True | Some p \<Rightarrow> priced (pricing t') (me_id me)) models"
      by (auto simp: list_all_iff t'_def sync_fields priced_sync split: option.splits)
    show "captures t' = captures t" by (simp add: t'_def sync_fields)
  qed (auto simp: look repriced_def known split: option.splits)
qed

end
