(* ===== verification/Ttft_Ladder.thy ===== *)
theory Ttft_Ladder
  imports Requests Json
begin

text \<open>
  The retry ladder of the proxy (\<open>forwardUpstream\<close> in \<open>src/proxy.ts\<close>, up to the point where the
  response is streamed): the fetch raced against the watchdog on the first byte, the decision to
  retry, the retry on the same key, the escalation to a rewritten request, and the terminal
  answers. One turn of the loop is a function of what that attempt observes: the outcome of the
  fetch, of the rewriting helper and of the first read, and at each failure whether the client or
  the watchdog has aborted and what the gate reports. An exception nobody catches on the way, from
  reading the answer of an overloaded upstream or from the rewriting helper, ends the ladder. Side effects are appended to a list in the
  order the code makes them. Dashboard broadcasts, log lines and the text of an attempt's
  incident are left out.
\<close>

subsection \<open>Observations\<close>

datatype error_name = Abort_Error | Timeout_Error | Other_Error

record fetch_error =
  fe_name :: error_name
  fe_message :: string
  fe_text :: string

record upstream_response =
  rs_status :: nat
  rs_headers :: "string obj"
  rs_sse :: bool
  rs_has_body :: bool

record gate_view =
  gv_breaker :: breaker_state
  gv_soft_limit :: rat
  gv_active :: rat

record watch =
  w_client_aborted :: bool
  w_ttft_aborted :: bool
  w_stats :: "gate_view option"

record attempt_obs =
  ob_fetch :: "fetch_error + upstream_response"
  ob_fetch_watch :: watch
  ob_overload_error :: "string option"
  ob_overloaded :: bool
  ob_rewrite :: "upstream_response option"
  ob_read :: "fetch_error option"
  ob_read_watch :: watch
  ob_final_stats :: "gate_view option"

record ladder_config =
  lc_watchdog :: bool
  lc_ttft_timeout_ms :: rat
  lc_hard_cap_ms :: rat
  lc_multiplier :: rat
  lc_upstream_timeout_ms :: nat
  lc_saturation_pct :: rat
  lc_max_attempts :: nat
  lc_rewrite_ids :: bool

text \<open>A rewriting experiment and a body are there; the headers name a session it accepts.\<close>

record ladder_request =
  lq_experiment :: bool
  lq_session :: bool

subsection \<open>Thresholds\<close>

definition effective_hard_cap :: "ladder_config \<Rightarrow> rat" where
  "effective_hard_cap cfg = min (lc_hard_cap_ms cfg) (of_nat (lc_upstream_timeout_ms cfg) - 1000)"

text \<open>The threshold an attempt starts with, and the one a median of the model replaces it with.\<close>

definition initial_threshold :: "ladder_config \<Rightarrow> bool \<Rightarrow> nat \<Rightarrow> rat" where
  "initial_threshold cfg hasStatusClient attempt =
     (if attempt = 1 \<and> hasStatusClient
      then min (lc_ttft_timeout_ms cfg) (of_nat (lc_upstream_timeout_ms cfg) - 1000)
      else effective_hard_cap cfg)"

definition dynamic_threshold :: "ladder_config \<Rightarrow> rat \<Rightarrow> rat" where
  "dynamic_threshold cfg modelP50 = min (modelP50 * lc_multiplier cfg) (effective_hard_cap cfg)"

subsection \<open>State and effects\<close>

datatype effect =
    Queue_Update nat string string nat bool
  | Rewrite_Incident nat
  | Incident responsible_party incident_type "nat option" nat bool
  | Start_Cooldown nat
  | Clear_Cooldown
  | Report_429 kind429
  | Report_Success

record ladder =
  ld_attempt :: nat
  ld_retry_attempt :: nat
  ld_ttft_fired :: bool
  ld_pending_rewrite :: bool
  ld_effects :: "effect list"

definition new_ladder :: ladder where
  "new_ladder = \<lparr>ld_attempt = 1, ld_retry_attempt = 0, ld_ttft_fired = False,
     ld_pending_rewrite = False, ld_effects = []\<rparr>"

datatype turn =
    Continue ladder
  | Respond nat "string obj" ladder
  | Stream upstream_response "string obj" ladder
  | Fail string ladder

definition emit :: "effect list \<Rightarrow> ladder \<Rightarrow> ladder" where
  "emit es st = st\<lparr>ld_effects := ld_effects st @ es\<rparr>"

definition queue_ttft_timeout :: "nat \<Rightarrow> string \<Rightarrow> string \<Rightarrow> ladder \<Rightarrow> ladder" where
  "queue_ttft_timeout status reason errName st =
     emit [Queue_Update status reason errName (ld_retry_attempt st) (ld_ttft_fired st)] st"

definition record_non_ttft_incident ::
  "nat \<Rightarrow> (responsible_party \<times> incident_type) option \<Rightarrow> ladder \<Rightarrow> ladder" where
  "record_non_ttft_incident status override st =
     (let (party, kind) = (case override of
            Some pk \<Rightarrow> pk
          | None \<Rightarrow> if status = 499 then derive_incident status FromGate True else (Proxy, GateRejected))
      in emit [Incident party kind (Some status) (ld_retry_attempt st) (ld_ttft_fired st)] st)"

definition record_ttft_attempt_incident :: "bool \<Rightarrow> ladder \<Rightarrow> ladder" where
  "record_ttft_attempt_incident terminal st =
     emit [Incident Proxy TtftTimeout (if terminal then Some 504 else None) (ld_retry_attempt st) True] st"

definition breaker_name :: "breaker_state \<Rightarrow> string" where
  "breaker_name s = (case s of Closed \<Rightarrow> ''closed'' | Opened \<Rightarrow> ''open'' | HalfOpen \<Rightarrow> ''half_open'')"

definition apply_ttft_headers ::
  "ladder_config \<Rightarrow> gate_view option \<Rightarrow> ladder \<Rightarrow> string obj \<Rightarrow> string obj" where
  "apply_ttft_headers cfg stats st h =
     (if \<not> lc_watchdog cfg then h
      else let h1 = obj_set h ''x-proxy-retry-attempt'' (digits_of (ld_retry_attempt st));
               h2 = (if ld_ttft_fired st then obj_set h1 ''x-proxy-ttft-exceeded'' ''1'' else h1)
           in case stats of
                Some s \<Rightarrow> obj_set h2 ''x-proxy-breaker-state'' (breaker_name (gv_breaker s)) | None \<Rightarrow> h2)"

subsection \<open>The decision\<close>

definition is_rewrite_eligible :: "ladder_config \<Rightarrow> ladder_request \<Rightarrow> bool" where
  "is_rewrite_eligible cfg rq = (lq_experiment rq \<and> lc_max_attempts cfg \<ge> 3 \<and> lq_session rq)"

datatype retry_decision = Retry | Client_Gone | Breaker_Open | Gate_Saturated | Cap_Reached

definition decide_retry :: "ladder_config \<Rightarrow> ladder_request \<Rightarrow> watch \<Rightarrow> ladder \<Rightarrow> retry_decision" where
  "decide_retry cfg rq w st =
     (if w_client_aborted w then Client_Gone
      else if (case w_stats w of Some s \<Rightarrow> gv_breaker s \<noteq> Closed | None \<Rightarrow> False) then Breaker_Open
      else if (case w_stats w of
                 Some s \<Rightarrow> gv_active s \<ge> gv_soft_limit s * lc_saturation_pct cfg / 100 | None \<Rightarrow> False)
        then Gate_Saturated
      else if ld_attempt st \<ge> lc_max_attempts cfg then Cap_Reached
      else if ld_attempt st = 2 \<and> \<not> is_rewrite_eligible cfg rq then Cap_Reached
      else Retry)"

definition suppress_reason :: "retry_decision \<Rightarrow> string" where
  "suppress_reason d = (case d of Breaker_Open \<Rightarrow> ''breaker_open'' | Gate_Saturated \<Rightarrow> ''gate_saturated''
     | _ \<Rightarrow> ''cap_reached'')"

definition no_first_byte :: string where
  "no_first_byte = ''TTFT watchdog exceeded -- no first byte within threshold''"

definition timeout_headers :: "ladder_config \<Rightarrow> gate_view option \<Rightarrow> ladder \<Rightarrow> string obj" where
  "timeout_headers cfg stats st = apply_ttft_headers cfg stats st [(''content-type'', ''text/plain'')]"

text \<open>
  The watchdog fired. A retry sleeps through a cooldown, which the caller ends, and goes round the
  loop again; anything else is answered with 504. (The dash of the recorded reasons is written
  as two hyphens.)
\<close>

definition handle_ttft_timeout :: "ladder_config \<Rightarrow> ladder_request \<Rightarrow> watch \<Rightarrow> ladder \<Rightarrow> turn" where
  "handle_ttft_timeout cfg rq w st0 =
     (let st = st0\<lparr>ld_ttft_fired := True\<rparr>;
          decision = decide_retry cfg rq w st
      in if decision = Retry
         then (let st1 = record_ttft_attempt_incident False st;
                   escalate = (ld_attempt st1 = 2 \<and> is_rewrite_eligible cfg rq);
                   st2 = st1\<lparr>ld_attempt := ld_attempt st1 + 1,
                             ld_retry_attempt := (if escalate then 2 else 1),
                             ld_pending_rewrite := (escalate \<or> ld_pending_rewrite st1)\<rparr>
               in Continue (emit [Start_Cooldown (ld_retry_attempt st2), Clear_Cooldown] st2))
         else (let reason = (if ld_retry_attempt st > 0 then no_first_byte
                 else no_first_byte @ '' (retry suppressed: '' @ suppress_reason decision @ '')'');
                   st1 = queue_ttft_timeout 504 reason ''ttft_watchdog_exceeded'' st;
                   st2 = record_ttft_attempt_incident True st1
               in Respond 504 (timeout_headers cfg (w_stats w) st2) st2))"

subsection \<open>One turn of the loop\<close>

definition upstream_timed_out :: "fetch_error \<Rightarrow> watch \<Rightarrow> bool" where
  "upstream_timed_out err w =
     (fe_name err = Timeout_Error
      \<or> (fe_name err = Abort_Error \<and> \<not> w_client_aborted w \<and> \<not> w_ttft_aborted w))"

definition client_disconnected :: "string \<Rightarrow> ladder \<Rightarrow> turn" where
  "client_disconnected reason st =
     Respond 499 [] (record_non_ttft_incident 499 None
       (queue_ttft_timeout 499 reason ''client_disconnected'' st))"

definition on_fetch_error ::
  "ladder_config \<Rightarrow> ladder_request \<Rightarrow> fetch_error \<Rightarrow> watch \<Rightarrow> ladder \<Rightarrow> turn" where
  "on_fetch_error cfg rq err w st =
     (if fe_name err = Abort_Error \<and> w_client_aborted w
      then client_disconnected ''Client disconnected during upstream request'' st
      else if w_ttft_aborted w \<and> lc_watchdog cfg then handle_ttft_timeout cfg rq w st
      else let timedOut = upstream_timed_out err w;
               status = (if timedOut then 504 else 502);
               reason = (if timedOut
                 then ''Upstream inactivity timeout ('' @ digits_of (lc_upstream_timeout_ms cfg) @ ''ms)''
                 else ''Upstream unreachable -- '' @ fe_message err);
               st1 = record_non_ttft_incident status (Some (Upstream, UpstreamError))
                 (queue_ttft_timeout status reason (if timedOut then ''upstream_timeout'' else fe_text err) st)
           in Respond status (timeout_headers cfg (w_stats w) st1) st1)"

definition on_read_error ::
  "ladder_config \<Rightarrow> ladder_request \<Rightarrow> fetch_error \<Rightarrow> watch \<Rightarrow> ladder \<Rightarrow> turn" where
  "on_read_error cfg rq err w st =
     (if fe_name err = Abort_Error \<and> w_client_aborted w
      then client_disconnected ''Client disconnected during TTFT race'' st
      else if w_ttft_aborted w \<and> lc_watchdog cfg then handle_ttft_timeout cfg rq w st
      else let timedOut = upstream_timed_out err w; ttft = w_ttft_aborted w;
               status = (if ttft \<or> timedOut then 504 else 502);
               reason = (if ttft then no_first_byte
                 else if timedOut then ''Upstream inactivity timeout''
                 else ''Upstream error -- '' @ fe_message err);
               st1 = record_non_ttft_incident status
                 (Some (if ttft then (Proxy, TtftTimeout) else (Upstream, UpstreamError)))
                 (queue_ttft_timeout status reason
                    (if ttft then ''ttft_watchdog_exceeded'' else if timedOut then ''upstream_timeout''
                     else fe_text err) st)
           in Respond status (timeout_headers cfg (w_stats w) st1) st1)"

text \<open>The deferred breaker reports of a response.\<close>

definition breaker_reports :: "upstream_response \<Rightarrow> effect list" where
  "breaker_reports resp =
     (if rs_status resp = 429 then [Report_429 (classify_429 (rs_headers resp))]
      else if rs_status resp < 400 then [Report_Success] else [])"

definition out_headers :: "string obj \<Rightarrow> string obj" where
  "out_headers h = filter (\<lambda>(k, v). \<not> (k \<in> set HOP \<or> k = ''content-encoding'')) h"

definition read_first_chunk ::
  "ladder_config \<Rightarrow> ladder_request \<Rightarrow> attempt_obs \<Rightarrow> upstream_response \<Rightarrow> effect list \<Rightarrow> ladder \<Rightarrow> turn" where
  "read_first_chunk cfg rq ob resp reports st =
     (case (if lc_watchdog cfg \<and> rs_has_body resp \<and> rs_sse resp then ob_read ob else None) of
        Some err \<Rightarrow> on_read_error cfg rq err (ob_read_watch ob) st
      | None \<Rightarrow>
          (let st1 = emit reports st
           in Stream resp (apply_ttft_headers cfg (ob_final_stats ob) st1 (out_headers (rs_headers resp))) st1))"

text \<open>The incident the rewriting helper records of a response that is an error again.\<close>

definition rewrite_incident :: "upstream_response \<Rightarrow> effect list" where
  "rewrite_incident resp = (if rs_status resp < 400 then [] else [Rewrite_Incident (rs_status resp)])"

text \<open>
  The retry with rewritten ids on an overloaded upstream, in place of the failed response, with the
  incidents it records. \<open>Inl\<close> is an exception: the body of the failed response cannot be read, or the
  helper throws.
\<close>

definition rewrite_on_overload ::
  "ladder_config \<Rightarrow> ladder_request \<Rightarrow> attempt_obs \<Rightarrow> upstream_response \<Rightarrow>
   string + upstream_response \<times> effect list" where
  "rewrite_on_overload cfg rq ob resp =
     (if lc_rewrite_ids cfg \<and> lq_experiment rq \<and> (rs_status resp = 502 \<or> rs_status resp = 529)
      then (case ob_overload_error ob of
              Some message \<Rightarrow> Inl message
            | None \<Rightarrow>
                (case (if ob_overloaded ob \<and> lq_session rq then ob_rewrite ob else None) of
                   Some r \<Rightarrow> Inr (r, rewrite_incident r)
                 | None \<Rightarrow> Inr (resp\<lparr>rs_has_body := True\<rparr>, [])))
      else Inr (resp, []))"

definition rewrite_escalation ::
  "ladder_config \<Rightarrow> ladder_request \<Rightarrow> attempt_obs \<Rightarrow> ladder \<Rightarrow> turn" where
  "rewrite_escalation cfg rq ob st =
     (if \<not> (lq_experiment rq \<and> lq_session rq)
      then (let st1 = queue_ttft_timeout 504 no_first_byte ''ttft_watchdog_exceeded'' st
            in Respond 504 (timeout_headers cfg (ob_final_stats ob) st1) st1)
      else case ob_rewrite ob of
             Some resp \<Rightarrow> read_first_chunk cfg rq ob resp [] (emit (rewrite_incident resp) st)
           | None \<Rightarrow>
               (let w = ob_fetch_watch ob
                in if w_client_aborted w
                   then client_disconnected ''Client disconnected during rewrite-escalation fetch'' st
                   else let st1 = (if w_ttft_aborted w then st\<lparr>ld_ttft_fired := True\<rparr> else st);
                            st2 = record_ttft_attempt_incident True
                              (queue_ttft_timeout 504 (no_first_byte @ '' (rewrite escalation failed)'')
                                 ''ttft_watchdog_exceeded'' st1)
                        in Respond 504 (timeout_headers cfg (w_stats w) st2) st2))"

definition ladder_turn :: "ladder_config \<Rightarrow> ladder_request \<Rightarrow> attempt_obs \<Rightarrow> ladder \<Rightarrow> turn" where
  "ladder_turn cfg rq ob st =
     (if ld_pending_rewrite st
      then rewrite_escalation cfg rq ob (st\<lparr>ld_pending_rewrite := False\<rparr>)
      else case ob_fetch ob of
             Inl err \<Rightarrow> on_fetch_error cfg rq err (ob_fetch_watch ob) st
           | Inr resp \<Rightarrow>
               (case rewrite_on_overload cfg rq ob resp of
                  Inl message \<Rightarrow> Fail message st
                | Inr (upstream, incidents) \<Rightarrow>
                    read_first_chunk cfg rq ob upstream (breaker_reports resp) (emit incidents st)))"

text \<open>The loop over what its attempts observe; \<open>None\<close> when the observations run out.\<close>

fun ladder_loop :: "ladder_config \<Rightarrow> ladder_request \<Rightarrow> attempt_obs list \<Rightarrow> ladder \<Rightarrow> turn option" where
  "ladder_loop cfg rq [] st = None"
| "ladder_loop cfg rq (ob # obs) st =
     (case ladder_turn cfg rq ob st of Continue st' \<Rightarrow> ladder_loop cfg rq obs st' | t \<Rightarrow> Some t)"

end
