(* ===== verification/Ladder_Props.thy ===== *)
theory Ladder_Props
  imports Ttft_Ladder
begin

text \<open>
  What the retry ladder promises: it ends within the configured attempts, and whatever the
  attempts observe, its effects are those of exactly one answer or of an exception. \<open>books\<close> describes the effects of
  a ladder that has not answered yet; every turn keeps them or closes them.
\<close>

subsection \<open>Counting effects\<close>

definition updates :: "effect list \<Rightarrow> nat list" where
  "updates es = List.map_filter (\<lambda>e. case e of Queue_Update s _ _ _ _ \<Rightarrow> Some s | _ \<Rightarrow> None) es"

definition reports :: "effect list \<Rightarrow> effect list" where
  "reports es = filter (\<lambda>e. case e of Report_429 _ \<Rightarrow> True | Report_Success \<Rightarrow> True | _ \<Rightarrow> False) es"

definition retried_timeouts :: "effect list \<Rightarrow> nat" where
  "retried_timeouts es = length (filter (\<lambda>e. case e of
     Incident Proxy TtftTimeout None _ _ \<Rightarrow> True | _ \<Rightarrow> False) es)"

definition answered_incidents :: "effect list \<Rightarrow> nat list" where
  "answered_incidents es = List.map_filter (\<lambda>e. case e of Incident _ _ s _ _ \<Rightarrow> s | _ \<Rightarrow> None) es"

definition cooldowns :: "effect list \<Rightarrow> effect list" where
  "cooldowns es = filter (\<lambda>e. case e of Start_Cooldown _ \<Rightarrow> True | Clear_Cooldown \<Rightarrow> True | _ \<Rightarrow> False) es"

fun alternating :: "effect list \<Rightarrow> bool" where
  "alternating [] = True"
| "alternating (Start_Cooldown n # Clear_Cooldown # es) = alternating es"
| "alternating _ = False"

definition rewrite_incidents :: "effect list \<Rightarrow> nat list" where
  "rewrite_incidents es = List.map_filter (\<lambda>e. case e of Rewrite_Incident s \<Rightarrow> Some s | _ \<Rightarrow> None) es"

lemma effects_append [simp]:
  "updates (es @ fs) = updates es @ updates fs" "reports (es @ fs) = reports es @ reports fs"
  "retried_timeouts (es @ fs) = retried_timeouts es + retried_timeouts fs"
  "answered_incidents (es @ fs) = answered_incidents es @ answered_incidents fs"
  "cooldowns (es @ fs) = cooldowns es @ cooldowns fs"
  "rewrite_incidents (es @ fs) = rewrite_incidents es @ rewrite_incidents fs"
  by (simp_all add: updates_def reports_def retried_timeouts_def answered_incidents_def cooldowns_def
      rewrite_incidents_def List.map_filter_def)

lemma effects_single [simp]:
  "updates [] = []" "reports [] = []" "retried_timeouts [] = 0" "answered_incidents [] = []" "cooldowns [] = []"
  "updates (Queue_Update s r n a f # es) = s # updates es"
  "updates (Incident p k u a f # es) = updates es"
  "updates (Start_Cooldown a # es) = updates es" "updates (Clear_Cooldown # es) = updates es"
  "updates (Report_429 q # es) = updates es" "updates (Report_Success # es) = updates es"
  "reports (Queue_Update s r n a f # es) = reports es" "reports (Incident p k u a f # es) = reports es"
  "reports (Start_Cooldown a # es) = reports es" "reports (Clear_Cooldown # es) = reports es"
  "reports (Report_429 q # es) = Report_429 q # reports es"
  "reports (Report_Success # es) = Report_Success # reports es"
  "retried_timeouts (Queue_Update s r n a f # es) = retried_timeouts es"
  "retried_timeouts (Incident p k (Some v) a f # es) = retried_timeouts es"
  "retried_timeouts (Incident Proxy TtftTimeout None a f # es) = Suc (retried_timeouts es)"
  "retried_timeouts (Start_Cooldown a # es) = retried_timeouts es"
  "retried_timeouts (Clear_Cooldown # es) = retried_timeouts es"
  "retried_timeouts (Report_429 q # es) = retried_timeouts es"
  "retried_timeouts (Report_Success # es) = retried_timeouts es"
  "answered_incidents (Queue_Update s r n a f # es) = answered_incidents es"
  "answered_incidents (Incident p k (Some v) a f # es) = v # answered_incidents es"
  "answered_incidents (Incident p k None a f # es) = answered_incidents es"
  "answered_incidents (Start_Cooldown a # es) = answered_incidents es"
  "answered_incidents (Clear_Cooldown # es) = answered_incidents es"
  "answered_incidents (Report_429 q # es) = answered_incidents es"
  "answered_incidents (Report_Success # es) = answered_incidents es"
  "cooldowns (Queue_Update s r n a f # es) = cooldowns es" "cooldowns (Incident p k u a f # es) = cooldowns es"
  "cooldowns (Start_Cooldown a # es) = Start_Cooldown a # cooldowns es"
  "cooldowns (Clear_Cooldown # es) = Clear_Cooldown # cooldowns es"
  "cooldowns (Report_429 q # es) = cooldowns es" "cooldowns (Report_Success # es) = cooldowns es"
  "updates (Rewrite_Incident v # es) = updates es" "reports (Rewrite_Incident v # es) = reports es"
  "retried_timeouts (Rewrite_Incident v # es) = retried_timeouts es"
  "answered_incidents (Rewrite_Incident v # es) = answered_incidents es"
  "cooldowns (Rewrite_Incident v # es) = cooldowns es"
  "rewrite_incidents [] = []" "rewrite_incidents (Rewrite_Incident v # es) = v # rewrite_incidents es"
  "rewrite_incidents (Queue_Update s r n a f # es) = rewrite_incidents es"
  "rewrite_incidents (Incident p k u a f # es) = rewrite_incidents es"
  "rewrite_incidents (Start_Cooldown a # es) = rewrite_incidents es"
  "rewrite_incidents (Clear_Cooldown # es) = rewrite_incidents es"
  "rewrite_incidents (Report_429 q # es) = rewrite_incidents es"
  "rewrite_incidents (Report_Success # es) = rewrite_incidents es"
  by (simp_all add: updates_def reports_def retried_timeouts_def answered_incidents_def cooldowns_def
      rewrite_incidents_def List.map_filter_def split: responsible_party.splits incident_type.splits)

lemma alternating_append: "alternating es \<Longrightarrow> alternating (es @ [Start_Cooldown n, Clear_Cooldown])"
  by (induction es rule: alternating.induct) simp_all

subsection \<open>Turns\<close>

text \<open>The effects of a ladder that goes on, and of an answer.\<close>

definition books :: "ladder \<Rightarrow> bool" where
  "books st \<longleftrightarrow> updates (ld_effects st) = [] \<and> reports (ld_effects st) = []
     \<and> answered_incidents (ld_effects st) = [] \<and> 1 \<le> ld_attempt st
     \<and> retried_timeouts (ld_effects st) = ld_attempt st - 1
     \<and> alternating (cooldowns (ld_effects st))
     \<and> length (cooldowns (ld_effects st)) = 2 * (ld_attempt st - 1)"

definition retries_booked :: "ladder \<Rightarrow> bool" where
  "retries_booked st \<longleftrightarrow> retried_timeouts (ld_effects st) = ld_attempt st - 1
     \<and> alternating (cooldowns (ld_effects st))
     \<and> length (cooldowns (ld_effects st)) = 2 * (ld_attempt st - 1)"

definition closed :: "turn \<Rightarrow> bool" where
  "closed t = (case t of
      Continue st \<Rightarrow> False
    | Respond status h st \<Rightarrow> updates (ld_effects st) = [status] \<and> reports (ld_effects st) = []
        \<and> answered_incidents (ld_effects st) \<in> {[status], []} \<and> retries_booked st
    | Stream resp h st \<Rightarrow> updates (ld_effects st) = [] \<and> answered_incidents (ld_effects st) = []
        \<and> length (reports (ld_effects st)) \<le> 1 \<and> retries_booked st
    | Fail message st \<Rightarrow> updates (ld_effects st) = [] \<and> reports (ld_effects st) = []
        \<and> answered_incidents (ld_effects st) = [] \<and> retries_booked st)"

definition good_turn :: "ladder_config \<Rightarrow> ladder \<Rightarrow> turn \<Rightarrow> bool" where
  "good_turn cfg st t = (case t of
      Continue st' \<Rightarrow> books st' \<and> ld_attempt st' = ld_attempt st + 1 \<and> ld_attempt st < lc_max_attempts cfg
    | Respond _ _ st' \<Rightarrow> closed t \<and> ld_attempt st' = ld_attempt st
    | Stream _ _ st' \<Rightarrow> closed t \<and> ld_attempt st' = ld_attempt st
    | Fail _ st' \<Rightarrow> closed t \<and> ld_attempt st' = ld_attempt st)"

lemmas turn_defs = good_turn_def closed_def books_def retries_booked_def emit_def queue_ttft_timeout_def
  record_non_ttft_incident_def record_ttft_attempt_incident_def Let_def

lemma decide_retry_capped: "decide_retry cfg rq w st = Retry \<Longrightarrow> ld_attempt st < lc_max_attempts cfg"
  by (auto simp: decide_retry_def split: if_splits)

lemma handle_timeout_good: "books st \<Longrightarrow> good_turn cfg st (handle_ttft_timeout cfg rq w st)"
  using decide_retry_capped [of cfg rq w "st\<lparr>ld_ttft_fired := True\<rparr>"]
  by (auto simp: handle_ttft_timeout_def turn_defs alternating_append)

lemma client_disconnected_good: "books st \<Longrightarrow> good_turn cfg st (client_disconnected reason st)"
  by (simp add: client_disconnected_def turn_defs derive_incident_def)

lemma fetch_error_good: "books st \<Longrightarrow> good_turn cfg st (on_fetch_error cfg rq err w st)"
  using handle_timeout_good [of st cfg rq w] client_disconnected_good [of st cfg]
  by (auto simp: on_fetch_error_def) (simp_all add: turn_defs)

lemma read_error_good: "books st \<Longrightarrow> good_turn cfg st (on_read_error cfg rq err w st)"
  using handle_timeout_good [of st cfg rq w] client_disconnected_good [of st cfg]
  by (auto simp: on_read_error_def) (simp_all add: turn_defs)

lemma read_first_chunk_good:
  assumes "books st" and "length (reports es) \<le> 1" "updates es = []" "answered_incidents es = []"
    "retried_timeouts es = 0" "cooldowns es = []"
  shows "good_turn cfg st (read_first_chunk cfg rq ob resp es st)"
  using assms read_error_good [OF assms(1), of cfg rq _ "ob_read_watch ob"]
  by (auto simp: read_first_chunk_def split: option.splits) (simp_all add: turn_defs)

lemma breaker_reports_effects:
  "length (reports (breaker_reports resp)) \<le> 1" "updates (breaker_reports resp) = []"
  "answered_incidents (breaker_reports resp) = []" "retried_timeouts (breaker_reports resp) = 0"
  "cooldowns (breaker_reports resp) = []"
  by (simp_all add: breaker_reports_def)

lemma books_pending [simp]:
  "books (st\<lparr>ld_pending_rewrite := p\<rparr>) = books st"
  "books (emit (rewrite_incident resp) st) = books st" "books (emit [] st) = books st"
  by (simp_all add: books_def emit_def rewrite_incident_def)

lemma good_turn_pending [simp]:
  "good_turn cfg (st\<lparr>ld_pending_rewrite := p\<rparr>) t = good_turn cfg st t"
  "good_turn cfg (emit es st) t = good_turn cfg st t"
  by (simp_all add: good_turn_def emit_def cong: turn.case_cong)

lemma escalation_good: "books st \<Longrightarrow> good_turn cfg st (rewrite_escalation cfg rq ob st)"
  using client_disconnected_good [of st cfg]
    read_first_chunk_good [of "emit (rewrite_incident _) st" "[]" cfg rq ob]
  by (auto simp: rewrite_escalation_def Let_def split: option.splits) (simp_all add: turn_defs)

text \<open>What the rewriting retry of an overloaded upstream adds to the effects.\<close>

lemma rewrite_on_overload_incidents:
  "rewrite_on_overload cfg rq ob resp = Inr (u, incidents) \<Longrightarrow>
   incidents = [] \<or> (\<exists>r. ob_rewrite ob = Some r \<and> incidents = rewrite_incident r)"
  by (auto simp: rewrite_on_overload_def split: if_splits option.splits)

lemma rewrite_on_overload_fails:
  "rewrite_on_overload cfg rq ob resp = Inl message \<Longrightarrow> ob_overload_error ob = Some message"
  by (auto simp: rewrite_on_overload_def split: if_splits option.splits)

lemma ladder_turn_good: "books st \<Longrightarrow> good_turn cfg st (ladder_turn cfg rq ob st)"
proof -
  assume b: "books st"
  show ?thesis
  proof (cases "ld_pending_rewrite st \<or> (\<exists>err. ob_fetch ob = Inl err)")
    case True
    then show ?thesis
      using b escalation_good [of "st\<lparr>ld_pending_rewrite := False\<rparr>" cfg rq ob]
        fetch_error_good [of st cfg rq _ "ob_fetch_watch ob"]
      by (auto simp: ladder_turn_def)
  next
    case False
    then obtain resp where resp: "ob_fetch ob = Inr resp" by (cases "ob_fetch ob") auto
    show ?thesis
    proof (cases "rewrite_on_overload cfg rq ob resp")
      case (Inl message)
      then show ?thesis using False resp b by (simp add: ladder_turn_def) (simp add: turn_defs)
    next
      case (Inr ui)
      obtain u incidents where ui: "ui = (u, incidents)" by force
      have "books (emit incidents st)" using b rewrite_on_overload_incidents [OF Inr [unfolded ui]] by auto
      then have "good_turn cfg (emit incidents st)
          (read_first_chunk cfg rq ob u (breaker_reports resp) (emit incidents st))"
        by (rule read_first_chunk_good [OF _ breaker_reports_effects])
      then show ?thesis using False resp Inr ui by (simp add: ladder_turn_def)
    qed
  qed
qed

text \<open>A turn records at most one failed rewriting retry, with an error status.\<close>

definition final_ladder :: "turn \<Rightarrow> ladder" where
  "final_ladder t = (case t of Continue st \<Rightarrow> st | Respond _ _ st \<Rightarrow> st | Stream _ _ st \<Rightarrow> st | Fail _ st \<Rightarrow> st)"

abbreviation rewrites_of :: "ladder \<Rightarrow> nat list" where
  "rewrites_of st \<equiv> rewrite_incidents (ld_effects st)"

definition keeps_rewrites :: "ladder \<Rightarrow> turn \<Rightarrow> bool" where
  "keeps_rewrites st t = (rewrites_of (final_ladder t) = rewrites_of st)"

lemmas rewrite_frame = keeps_rewrites_def final_ladder_def emit_def queue_ttft_timeout_def
  record_non_ttft_incident_def record_ttft_attempt_incident_def Let_def case_prod_unfold

lemma keeps_rewrites_handle: "keeps_rewrites st (handle_ttft_timeout cfg rq w st)"
  by (simp add: handle_ttft_timeout_def rewrite_frame)

lemma keeps_rewrites_errors:
  "keeps_rewrites st (client_disconnected reason st)" "keeps_rewrites st (on_fetch_error cfg rq err w st)"
  "keeps_rewrites st (on_read_error cfg rq err w st)"
  using keeps_rewrites_handle [of st cfg rq w]
  by (auto simp: on_fetch_error_def on_read_error_def client_disconnected_def) (simp_all add: rewrite_frame)

lemma keeps_rewrites_read:
  "keeps_rewrites st (read_first_chunk cfg rq ob u (breaker_reports resp) st)"
  "keeps_rewrites st (read_first_chunk cfg rq ob u [] st)"
  using keeps_rewrites_errors(3) [of st cfg rq _ "ob_read_watch ob"]
  by (auto simp: read_first_chunk_def split: option.splits) (simp_all add: rewrite_frame breaker_reports_def)

definition one_more :: "ladder \<Rightarrow> turn \<Rightarrow> bool" where
  "one_more st t = (\<exists>xs. rewrites_of (final_ladder t) = rewrites_of st @ xs \<and> length xs \<le> 1 \<and> list_all (\<lambda>s. 400 \<le> s) xs)"

lemma keeps_one_more:
  "keeps_rewrites (emit (rewrite_incident resp) st) t \<Longrightarrow> one_more st t" "keeps_rewrites st t \<Longrightarrow> one_more st t"
  by (auto simp: keeps_rewrites_def one_more_def emit_def rewrite_incident_def split: if_splits)

lemma emit_nothing [simp]: "emit [] st = st"
  by (simp add: emit_def)

lemma escalation_one_more: "one_more st (rewrite_escalation cfg rq ob st)"
proof (cases "lq_experiment rq \<and> lq_session rq")
  case True
  show ?thesis
  proof (cases "ob_rewrite ob")
    case None
    have "keeps_rewrites st (rewrite_escalation cfg rq ob st)"
      using True None keeps_rewrites_errors(1)
      by (auto simp: rewrite_escalation_def Let_def) (simp_all add: rewrite_frame)
    then show ?thesis by (rule keeps_one_more(2))
  next
    case (Some resp)
    show ?thesis
      using True Some keeps_one_more(1) [OF keeps_rewrites_read(2)] by (simp add: rewrite_escalation_def)
  qed
next
  case False
  have "keeps_rewrites st (rewrite_escalation cfg rq ob st)"
    using False by (simp add: rewrite_escalation_def rewrite_frame)
  then show ?thesis by (rule keeps_one_more(2))
qed

lemma ladder_turn_one_more: "one_more st (ladder_turn cfg rq ob st)"
proof (cases "ld_pending_rewrite st \<or> (\<exists>err. ob_fetch ob = Inl err)")
  case True
  then show ?thesis
    using escalation_one_more [of "st\<lparr>ld_pending_rewrite := False\<rparr>" cfg rq ob]
      keeps_one_more(2) [OF keeps_rewrites_errors(2)]
    by (auto simp: ladder_turn_def one_more_def)
next
  case False
  then obtain resp where resp: "ob_fetch ob = Inr resp" by (cases "ob_fetch ob") auto
  show ?thesis
  proof (cases "rewrite_on_overload cfg rq ob resp")
    case (Inl message)
    have "keeps_rewrites st (Fail message st)" by (simp add: keeps_rewrites_def final_ladder_def)
    then show ?thesis using False resp Inl keeps_one_more(2) by (simp add: ladder_turn_def)
  next
    case (Inr ui)
    obtain u incidents where ui: "ui = (u, incidents)" by force
    let ?t = "read_first_chunk cfg rq ob u (breaker_reports resp) (emit incidents st)"
    have k: "keeps_rewrites (emit incidents st) ?t" by (rule keeps_rewrites_read)
    have "one_more st ?t"
      using rewrite_on_overload_incidents [OF Inr [unfolded ui]]
    proof
      assume "incidents = []"
      then show ?thesis using k keeps_one_more(2) by simp
    next
      assume "\<exists>r. ob_rewrite ob = Some r \<and> incidents = rewrite_incident r"
      then show ?thesis using k keeps_one_more(1) by blast
    qed
    then show ?thesis using False resp Inr ui by (simp add: ladder_turn_def)
  qed
qed

lemma ladder_turn_fails:
  "ladder_turn cfg rq ob st = Fail message st' \<Longrightarrow> ob_overload_error ob = Some message"
proof -
  have nf: "on_read_error cfg rq err w s \<noteq> Fail message s'" "on_fetch_error cfg rq err w s \<noteq> Fail message s'"
    "client_disconnected reason s \<noteq> Fail message s'" for err w s s' reason
    by (simp_all add: on_read_error_def on_fetch_error_def handle_ttft_timeout_def client_disconnected_def Let_def)
  have nr: "read_first_chunk cfg rq ob' u es s \<noteq> Fail message s'" for ob' u es s s'
    using nf by (auto simp: read_first_chunk_def Let_def split: option.splits)
  assume "ladder_turn cfg rq ob st = Fail message st'"
  then show ?thesis
    using nf nr
    by (auto simp: ladder_turn_def rewrite_escalation_def Let_def split: if_splits sum.splits option.splits
        dest: rewrite_on_overload_fails)
qed

subsection \<open>The loop\<close>

lemma ladder_loop_closed:
  "books st \<Longrightarrow> ladder_loop cfg rq obs st = Some t \<Longrightarrow> closed t"
proof (induction obs arbitrary: st)
  case (Cons ob obs)
  then show ?case
    using ladder_turn_good [OF Cons.prems(1), of cfg rq ob]
    by (cases "ladder_turn cfg rq ob st") (auto simp: good_turn_def)
qed simp

text \<open>Failed rewriting retries, at most one per attempt.\<close>

lemma ladder_loop_rewrites:
  "books st \<Longrightarrow> length (rewrites_of st) \<le> ld_attempt st - 1 \<Longrightarrow> list_all (\<lambda>s. 400 \<le> s) (rewrites_of st) \<Longrightarrow>
   ladder_loop cfg rq obs st = Some t \<Longrightarrow>
   length (rewrites_of (final_ladder t)) \<le> ld_attempt (final_ladder t) \<and>
   list_all (\<lambda>s. 400 \<le> s) (rewrites_of (final_ladder t))"
proof (induction obs arbitrary: st)
  case (Cons ob obs)
  note good = ladder_turn_good [OF Cons.prems(1), of cfg rq ob]
  have one: "1 \<le> ld_attempt st" using Cons.prems(1) by (simp add: books_def)
  obtain xs where xs: "rewrites_of (final_ladder (ladder_turn cfg rq ob st)) = rewrites_of st @ xs"
    "length xs \<le> 1" "list_all (\<lambda>s. 400 \<le> s) xs"
    using ladder_turn_one_more [of st cfg rq ob] by (auto simp: one_more_def)
  show ?case
  proof (cases "\<exists>st'. ladder_turn cfg rq ob st = Continue st'")
    case True
    then obtain st' where Continue: "ladder_turn cfg rq ob st = Continue st'" by blast
    then have b: "books st'" "ld_attempt st' = ld_attempt st + 1" using good by (simp_all add: good_turn_def)
    have "rewrites_of st' = rewrites_of st @ xs" using xs(1) Continue by (simp add: final_ladder_def)
    then show ?thesis using Cons.IH [OF b(1)] Cons.prems(2-4) xs(2,3) b(2) one Continue by simp
  next
    case False
    then have "t = ladder_turn cfg rq ob st" using Cons.prems(4) by (auto split: turn.splits)
    moreover have "ld_attempt (final_ladder (ladder_turn cfg rq ob st)) = ld_attempt st"
      using False good by (cases "ladder_turn cfg rq ob st") (simp_all add: good_turn_def final_ladder_def)
    ultimately show ?thesis using xs Cons.prems(2,3) one by simp
  qed
qed simp

lemma ladder_loop_ends:
  "books st \<Longrightarrow> max 1 (lc_max_attempts cfg + 1 - ld_attempt st) \<le> length obs \<Longrightarrow>
     \<exists>t. ladder_loop cfg rq obs st = Some t \<and> ld_attempt (final_ladder t) \<le> max (ld_attempt st) (lc_max_attempts cfg)
       \<and> (case t of Continue _ \<Rightarrow> False | Fail m _ \<Rightarrow> Some m \<in> set (map ob_overload_error obs) | _ \<Rightarrow> True)"
proof (induction obs arbitrary: st)
  case (Cons ob obs)
  note good = ladder_turn_good [OF Cons.prems(1), of cfg rq ob]
  show ?case
  proof (cases "ladder_turn cfg rq ob st")
    case (Continue st')
    then have b: "books st'" and a: "ld_attempt st' = ld_attempt st + 1" "ld_attempt st < lc_max_attempts cfg"
      using good by (simp_all add: good_turn_def)
    have "max 1 (lc_max_attempts cfg + 1 - ld_attempt st') \<le> length obs"
      using Cons.prems(2) a by simp
    from Cons.IH [OF b this] obtain t where t: "ladder_loop cfg rq obs st' = Some t"
      "ld_attempt (final_ladder t) \<le> max (ld_attempt st') (lc_max_attempts cfg)"
      "case t of Continue _ \<Rightarrow> False | Fail m _ \<Rightarrow> Some m \<in> set (map ob_overload_error obs) | _ \<Rightarrow> True" by blast
    have "case t of Continue _ \<Rightarrow> False | Fail m _ \<Rightarrow> Some m \<in> set (map ob_overload_error (ob # obs)) | _ \<Rightarrow> True"
      using t(3) by (cases t) auto
    then show ?thesis using t(1,2) Continue a by auto
  qed (use good ladder_turn_fails [of cfg rq ob st] in \<open>force simp: good_turn_def final_ladder_def\<close>)+
qed simp

lemma books_new: "books new_ladder"
  by (simp add: books_def new_ladder_def)

subsection \<open>The properties\<close>

text \<open>
  C20: the retry ladder ends within the configured number of attempts. Whatever the attempts
  observe, after at most \<open>ttftRetryMaxAttempts\<close> of them (and always after one when that is 0) the
  loop has answered, has a response to stream, or was left by an exception one of the attempts
  observed, and the attempt counter is within the maximum.
\<close>

theorem ladder_ends_in_time:
  assumes "max 1 (lc_max_attempts cfg) \<le> length obs"
  shows "\<exists>t. ladder_loop cfg rq obs new_ladder = Some t
    \<and> ld_attempt (final_ladder t) \<le> max 1 (lc_max_attempts cfg)
    \<and> (case t of Continue _ \<Rightarrow> False | Fail m _ \<Rightarrow> Some m \<in> set (map ob_overload_error obs) | _ \<Rightarrow> True)"
  using ladder_loop_ends [OF books_new, of cfg obs rq] assms by (simp add: new_ladder_def)

text \<open>
  C21: a request leaves the ladder with the effects of exactly one answer. An answer of its own
  is recorded by exactly one capture update, with the status it is answered with, at most one
  incident with that status, and no report to the breaker: an attempt that timed out or failed
  never touches it. A response to be streamed has no update and no incident of an answer, and reports to the
  breaker at most once. An exception that leaves the ladder has recorded no answer at all. In all
  three cases every retry has booked one open timeout incident and one cooldown, each cooldown ended
  before the next begins, and beside these only retries with rewritten ids that failed again are
  recorded, at most one per attempt, with their error status.
\<close>

theorem ladder_books_one_answer:
  "case ladder_loop cfg rq obs new_ladder of
     None \<Rightarrow> True
   | Some t \<Rightarrow>
       (case t of
          Continue st \<Rightarrow> False
        | Respond status h st \<Rightarrow>
            updates (ld_effects st) = [status] \<and> reports (ld_effects st) = []
            \<and> answered_incidents (ld_effects st) \<in> {[status], []}
        | Stream resp h st \<Rightarrow>
            updates (ld_effects st) = [] \<and> answered_incidents (ld_effects st) = []
            \<and> length (reports (ld_effects st)) \<le> 1
        | Fail message st \<Rightarrow>
            updates (ld_effects st) = [] \<and> answered_incidents (ld_effects st) = []
            \<and> reports (ld_effects st) = [])
       \<and> retried_timeouts (ld_effects (final_ladder t)) = ld_attempt (final_ladder t) - 1
       \<and> alternating (cooldowns (ld_effects (final_ladder t)))
       \<and> length (cooldowns (ld_effects (final_ladder t))) = 2 * (ld_attempt (final_ladder t) - 1)
       \<and> length (rewrite_incidents (ld_effects (final_ladder t))) \<le> ld_attempt (final_ladder t)
       \<and> list_all (\<lambda>s. 400 \<le> s) (rewrite_incidents (ld_effects (final_ladder t)))"
proof (cases "ladder_loop cfg rq obs new_ladder")
  case (Some t)
  have "length (rewrites_of (final_ladder t)) \<le> ld_attempt (final_ladder t) \<and>
      list_all (\<lambda>s. 400 \<le> s) (rewrites_of (final_ladder t))"
    by (rule ladder_loop_rewrites [OF books_new _ _ Some]) (simp_all add: new_ladder_def)
  then show ?thesis
    using ladder_loop_closed [OF books_new Some]
    by (cases t) (auto simp: Some closed_def retries_booked_def final_ladder_def)
qed simp

definition demo_ladder_config :: ladder_config where
  "demo_ladder_config = \<lparr>lc_watchdog = True, lc_ttft_timeout_ms = 60000, lc_hard_cap_ms = 300000,
     lc_multiplier = 5, lc_upstream_timeout_ms = 1800000, lc_saturation_pct = 80,
     lc_max_attempts = 2, lc_rewrite_ids = False\<rparr>"

definition demo_timeout :: attempt_obs where
  "demo_timeout =
     (let w = \<lparr>w_client_aborted = False, w_ttft_aborted = True, w_stats = None\<rparr>
      in \<lparr>ob_fetch = Inl \<lparr>fe_name = Abort_Error, fe_message = ''aborted'', fe_text = ''AbortError''\<rparr>,
          ob_fetch_watch = w, ob_overload_error = None, ob_overloaded = False, ob_rewrite = None, ob_read = None,
          ob_read_watch = w, ob_final_stats = None\<rparr>)"

text \<open>Two attempts that time out: the second is answered with 504.\<close>

lemma ladder_ends_in_time_witness:
  "\<exists>h st. ladder_loop demo_ladder_config \<lparr>lq_experiment = False, lq_session = False\<rparr>
       [demo_timeout, demo_timeout] new_ladder = Some (Respond 504 h st) \<and> ld_attempt st \<le> 2"
proof -
  let ?rq = "\<lparr>lq_experiment = False, lq_session = False\<rparr>"
  obtain t where t: "ladder_loop demo_ladder_config ?rq [demo_timeout, demo_timeout] new_ladder = Some t"
    "ld_attempt (final_ladder t) \<le> max 1 (lc_max_attempts demo_ladder_config)"
    using ladder_ends_in_time [of demo_ladder_config "[demo_timeout, demo_timeout]" ?rq]
    by (auto simp: demo_ladder_config_def)
  moreover have "\<exists>h st. ladder_loop demo_ladder_config ?rq [demo_timeout, demo_timeout] new_ladder
      = Some (Respond 504 h st)"
    by (simp add: ladder_turn_def new_ladder_def demo_timeout_def Let_def on_fetch_error_def
        handle_ttft_timeout_def decide_retry_def demo_ladder_config_def emit_def
        record_ttft_attempt_incident_def queue_ttft_timeout_def)
  ultimately show ?thesis
    by (auto simp: final_ladder_def demo_ladder_config_def)
qed

end
