(* ===== verification/Vision_Store.thy ===== *)
theory Vision_Store
  imports Js_Prelude
begin

text \<open>
  The persistent description store: the table \<open>vision_descriptions\<close> with the statements of
  \<open>src/vision-description-store.ts\<close>, and the write-behind buffer in front of it
  (\<open>src/vision/persistent-cache.ts\<close>). A table is the list of its rows in insertion order with
  distinct keys; a statement orders rows with equal keys as they were inserted. One reading of
  the clock serves one synchronous operation. Whether SQLite accepts a transaction is an
  argument (\<open>ok\<close>): a refused transaction leaves the table as it was.
\<close>

subsection \<open>The table\<close>

record vision_row =
  vr_key :: string
  vr_image_hash :: string
  vr_model :: string
  vr_prompt_version :: int
  vr_description :: string
  vr_created :: int
  vr_accessed :: int

record description_entry =
  de_key :: string
  de_description :: string
  de_image_hash :: string
  de_model :: string
  de_prompt_version :: int

type_synonym vision_table = "vision_row list"

fun vd_upsert :: "description_entry \<Rightarrow> int \<Rightarrow> vision_table \<Rightarrow> vision_table" where
  "vd_upsert e now [] =
     [\<lparr>vr_key = de_key e, vr_image_hash = de_image_hash e, vr_model = de_model e,
       vr_prompt_version = de_prompt_version e, vr_description = de_description e,
       vr_created = now, vr_accessed = now\<rparr>]"
| "vd_upsert e now (r # t) =
     (if vr_key r = de_key e
      then r\<lparr>vr_description := de_description e, vr_created := now, vr_accessed := now\<rparr> # t
      else r # vd_upsert e now t)"

definition vd_find :: "string \<Rightarrow> vision_table \<Rightarrow> vision_row option" where
  "vd_find k t = find (\<lambda>r. vr_key r = k) t"

text \<open>A hit touches \<open>last_accessed_at\<close>.\<close>

definition vd_get :: "int \<Rightarrow> string \<Rightarrow> vision_table \<Rightarrow> (string \<times> int) option \<times> vision_table" where
  "vd_get now k t =
     (case vd_find k t of
        None \<Rightarrow> (None, t)
      | Some r \<Rightarrow>
          (Some (vr_description r, vr_created r),
           map (\<lambda>r. if vr_key r = k then r\<lparr>vr_accessed := now\<rparr> else r) t))"

definition vd_delete :: "string \<Rightarrow> vision_table \<Rightarrow> vision_table" where
  "vd_delete k t = filter (\<lambda>r. vr_key r \<noteq> k) t"

definition by_access :: "vision_table \<Rightarrow> vision_table" where
  "by_access t = sort_key vr_accessed t"

definition vd_drop :: "string list \<Rightarrow> vision_table \<Rightarrow> vision_table" where
  "vd_drop ks t = filter (\<lambda>r. vr_key r \<notin> set ks) t"

definition expired_keys :: "int \<Rightarrow> vision_table \<Rightarrow> string list" where
  "expired_keys cutoff t = map vr_key (take 1000 (by_access (filter (\<lambda>r. vr_created r < cutoff) t)))"

definition vd_evict :: "int \<Rightarrow> nat \<Rightarrow> vision_table \<Rightarrow> nat \<times> vision_table" where
  "vd_evict cutoff max_rows t =
     (let t1 = vd_drop (expired_keys cutoff t) t;
          t2 = (if max_rows < length t1
                then vd_drop (map vr_key (take (length t1 - max_rows) (by_access t1))) t1
                else t1)
      in (length t - length t2, t2))"

definition vd_list_for_warming :: "nat \<Rightarrow> int \<Rightarrow> vision_table \<Rightarrow> (string \<times> string) list" where
  "vd_list_for_warming n cutoff t =
     map (\<lambda>r. (vr_key r, vr_description r))
       (take n (rev (by_access (filter (\<lambda>r. cutoff < vr_created r) t))))"

subsection \<open>The write-behind store\<close>

record store_config =
  sc_ttl :: int
  sc_max_rows :: nat
  sc_flush_batch :: nat

record pstore =
  ps_table :: vision_table
  ps_pending :: "(description_entry \<times> int) list"
  ps_timer :: bool
  ps_closed :: bool
  ps_retries :: nat
  ps_last_eviction :: int

definition new_pstore :: "vision_table \<Rightarrow> pstore" where
  "new_pstore t =
     \<lparr>ps_table = t, ps_pending = [], ps_timer = False, ps_closed = False, ps_retries = 0,
      ps_last_eviction = 0\<rparr>"

definition eviction_interval_ms :: int where "eviction_interval_ms = 60000"

definition max_flush_retries :: nat where "max_flush_retries = 3"

text \<open>The newest pending write of a key decides, then the row.\<close>

definition pending_of :: "string \<Rightarrow> (description_entry \<times> int) list \<Rightarrow> (description_entry \<times> int) option" where
  "pending_of k ws = find (\<lambda>(e, _). de_key e = k) (rev ws)"

definition ps_get :: "store_config \<Rightarrow> int \<Rightarrow> string \<Rightarrow> pstore \<Rightarrow> string option \<times> pstore" where
  "ps_get sc now k s =
     (case pending_of k (ps_pending s) of
        Some (e, t) \<Rightarrow> (if sc_ttl sc < now - t then None else Some (de_description e), s)
      | None \<Rightarrow>
          (let (row, tab) = vd_get now k (ps_table s); s' = s\<lparr>ps_table := tab\<rparr>
           in case row of
                None \<Rightarrow> (None, s')
              | Some (d, created) \<Rightarrow> (if sc_ttl sc < now - created then None else Some d, s')))"

fun upsert_all :: "(description_entry \<times> int) list \<Rightarrow> vision_table \<Rightarrow> vision_table" where
  "upsert_all [] t = t"
| "upsert_all ((e, now) # ws) t = upsert_all ws (vd_upsert e now t)"

definition ps_flush_now :: "bool \<Rightarrow> pstore \<Rightarrow> pstore" where
  "ps_flush_now ok s0 =
     (let s = s0\<lparr>ps_timer := False\<rparr>
      in if ps_closed s \<or> ps_pending s = [] then s
         else if ok then
           s\<lparr>ps_table := upsert_all (ps_pending s) (ps_table s), ps_pending := [], ps_retries := 0\<rparr>
         else if max_flush_retries \<le> ps_retries s + 1 then s\<lparr>ps_pending := [], ps_retries := 0\<rparr>
         else s\<lparr>ps_retries := ps_retries s + 1\<rparr>)"

text \<open>
  \<open>maybeEvict\<close> and \<open>set\<close> return whether they ran to the end; a refused eviction throws out of
  \<open>set\<close>, after the time of the attempt is noted.
\<close>

definition maybe_evict :: "store_config \<Rightarrow> bool \<Rightarrow> int \<Rightarrow> pstore \<Rightarrow> bool \<times> pstore" where
  "maybe_evict sc ok now s =
     (if now - ps_last_eviction s < eviction_interval_ms then (True, s)
      else let s' = s\<lparr>ps_last_eviction := now\<rparr>
           in if ok
              then (True, s'\<lparr>ps_table := snd (vd_evict (now - sc_ttl sc) (sc_max_rows sc) (ps_table s'))\<rparr>)
              else (False, s'))"

record store_io =
  io_now :: int
  io_flush_ok :: bool
  io_evict_ok :: bool

definition ps_set :: "store_config \<Rightarrow> store_io \<Rightarrow> description_entry \<Rightarrow> pstore \<Rightarrow> bool \<times> pstore" where
  "ps_set sc io e s0 =
     (let s = s0\<lparr>ps_pending := ps_pending s0 @ [(e, io_now io)]\<rparr>;
          s1 = (if sc_flush_batch sc \<le> length (ps_pending s)
                then ps_flush_now (io_flush_ok io) (s\<lparr>ps_timer := False\<rparr>)
                else if \<not> ps_timer s then s\<lparr>ps_timer := True\<rparr> else s)
      in maybe_evict sc (io_evict_ok io) (io_now io) s1)"

definition ps_timer_fires :: "bool \<Rightarrow> pstore \<Rightarrow> pstore" where
  "ps_timer_fires ok s = (if ps_timer s then ps_flush_now ok s else s)"

definition ps_close :: "bool \<Rightarrow> pstore \<Rightarrow> pstore" where
  "ps_close ok s = (ps_flush_now ok (s\<lparr>ps_timer := False\<rparr>))\<lparr>ps_closed := True\<rparr>"

text \<open>\<open>warmIntoCache\<close>: the entries handed to \<open>onEntry\<close>, in order.\<close>

definition ps_warm :: "store_config \<Rightarrow> bool \<Rightarrow> int \<Rightarrow> nat \<Rightarrow> pstore \<Rightarrow> (string \<times> string) list \<times> pstore" where
  "ps_warm sc ok now n s =
     (let s' = ps_flush_now ok s
      in (vd_list_for_warming n (now - sc_ttl sc) (ps_table s'), s'))"

subsection \<open>Laws of the table\<close>

abbreviation vd_keys :: "vision_table \<Rightarrow> string list" where
  "vd_keys t \<equiv> map vr_key t"

lemma vd_find_Nil [simp]: "vd_find k [] = None"
  by (simp add: vd_find_def)

lemma vd_find_Cons [simp]: "vd_find k (r # t) = (if vr_key r = k then Some r else vd_find k t)"
  by (simp add: vd_find_def)

lemma vd_find_None: "vd_find k t = None \<longleftrightarrow> k \<notin> set (vd_keys t)"
  by (induction t) auto

lemma vd_find_Some: "vd_find k t = Some r \<Longrightarrow> r \<in> set t \<and> vr_key r = k"
  by (induction t) (auto split: if_splits)

lemma vd_find_filter:
  "distinct (vd_keys t) \<Longrightarrow>
   vd_find k (filter P t) = (case vd_find k t of None \<Rightarrow> None | Some r \<Rightarrow> if P r then Some r else None)"
proof (induction t)
  case (Cons r t)
  then have "vd_find (vr_key r) t = None" by (simp add: vd_find_None)
  then show ?case using Cons by (auto split: option.splits)
qed simp

lemma vd_find_map_key:
  "(\<And>r. vr_key (f r) = vr_key r) \<Longrightarrow> vd_find k (map f t) = map_option f (vd_find k t)"
  by (induction t) auto

lemma vd_keys_map: "(\<And>r. vr_key (f r) = vr_key r) \<Longrightarrow> vd_keys (map f t) = vd_keys t"
  by (induction t) auto

lemma vd_keys_upsert: "set (vd_keys (vd_upsert e now t)) = insert (de_key e) (set (vd_keys t))"
  by (induction e now t rule: vd_upsert.induct) auto

lemma distinct_upsert: "distinct (vd_keys t) \<Longrightarrow> distinct (vd_keys (vd_upsert e now t))"
proof (induction e now t rule: vd_upsert.induct)
  case (2 e now r t)
  then show ?case using vd_keys_upsert [of e now t] by auto
qed simp

lemma distinct_upsert_all: "distinct (vd_keys t) \<Longrightarrow> distinct (vd_keys (upsert_all ws t))"
  by (induction ws t rule: upsert_all.induct) (auto intro: distinct_upsert)

lemma distinct_filter_keys: "distinct (vd_keys t) \<Longrightarrow> distinct (vd_keys (filter P t))"
  by (rule distinct_map_filter)

end
