(* ===== verification/Js_Regex.thy ===== *)
theory Js_Regex
  imports Js_Text
begin

text \<open>
  The regular expressions the gateway tests request text with. A test asks only whether a match
  exists, so the expression is run by derivatives; \<open>matches\<close> is the language it denotes and
  \<open>rx_search_iff\<close> says that the search decides it.
\<close>

datatype rx =
    RNone
  | REps
  | RSet "char \<Rightarrow> bool"
  | RSeq rx rx
  | RAlt rx rx
  | RStar rx

subsection \<open>The language\<close>

inductive matches :: "rx \<Rightarrow> string \<Rightarrow> bool" where
  eps: "matches REps []"
| one: "p c \<Longrightarrow> matches (RSet p) [c]"
| conc: "matches r u \<Longrightarrow> matches s v \<Longrightarrow> matches (RSeq r s) (u @ v)"
| left: "matches r u \<Longrightarrow> matches (RAlt r s) u"
| right: "matches s u \<Longrightarrow> matches (RAlt r s) u"
| star0: "matches (RStar r) []"
| star1: "matches r (c # u) \<Longrightarrow> matches (RStar r) v \<Longrightarrow> matches (RStar r) (c # u @ v)"

inductive_simps matches_none [simp]: "matches RNone s"
inductive_simps matches_eps [simp]: "matches REps s"
inductive_simps matches_set [simp]: "matches (RSet p) s"
inductive_simps matches_seq: "matches (RSeq a b) s"
inductive_simps matches_alt [simp]: "matches (RAlt a b) s"
inductive_simps matches_star: "matches (RStar a) s"

subsection \<open>The matcher\<close>

fun nullable :: "rx \<Rightarrow> bool" where
  "nullable RNone = False"
| "nullable REps = True"
| "nullable (RSet p) = False"
| "nullable (RSeq a b) = (nullable a \<and> nullable b)"
| "nullable (RAlt a b) = (nullable a \<or> nullable b)"
| "nullable (RStar a) = True"

fun mk_seq :: "rx \<Rightarrow> rx \<Rightarrow> rx" where
  "mk_seq RNone b = RNone"
| "mk_seq REps b = b"
| "mk_seq a b = RSeq a b"

fun mk_alt :: "rx \<Rightarrow> rx \<Rightarrow> rx" where
  "mk_alt RNone b = b"
| "mk_alt a RNone = a"
| "mk_alt a b = RAlt a b"

fun deriv :: "char \<Rightarrow> rx \<Rightarrow> rx" where
  "deriv c RNone = RNone"
| "deriv c REps = RNone"
| "deriv c (RSet p) = (if p c then REps else RNone)"
| "deriv c (RSeq a b) =
     (if nullable a then mk_alt (mk_seq (deriv c a) b) (deriv c b) else mk_seq (deriv c a) b)"
| "deriv c (RAlt a b) = mk_alt (deriv c a) (deriv c b)"
| "deriv c (RStar a) = mk_seq (deriv c a) (RStar a)"

text \<open>Does some prefix of the text match; does some part of it?\<close>

fun rx_prefix :: "rx \<Rightarrow> string \<Rightarrow> bool" where
  "rx_prefix r [] = nullable r"
| "rx_prefix r (c # s) = (nullable r \<or> rx_prefix (deriv c r) s)"

fun rx_search :: "rx \<Rightarrow> string \<Rightarrow> bool" where
  "rx_search r [] = rx_prefix r []"
| "rx_search r (c # s) = (rx_prefix r (c # s) \<or> rx_search r s)"

subsection \<open>Notation for the expressions of the code\<close>

fun rx_seq :: "rx list \<Rightarrow> rx" where
  "rx_seq [] = REps"
| "rx_seq [r] = r"
| "rx_seq (r # rs) = RSeq r (rx_seq rs)"

fun rx_alt :: "rx list \<Rightarrow> rx" where
  "rx_alt [] = RNone"
| "rx_alt [r] = r"
| "rx_alt (r # rs) = RAlt r (rx_alt rs)"

text \<open>A literal, one with the flag \<open>i\<close> (given in lower case), \<open>\s+\<close>, \<open>\s*\<close> and \<open>.\<close>\<close>

definition rx_lit :: "string \<Rightarrow> rx" where
  "rx_lit s = rx_seq (map (\<lambda>c. RSet (\<lambda>x. x = c)) s)"

definition rx_lit_i :: "string \<Rightarrow> rx" where
  "rx_lit_i s = rx_seq (map (\<lambda>c. RSet (\<lambda>x. lower_char x = c)) s)"

definition rx_spaces :: rx where
  "rx_spaces = RStar (RSet is_space)"

definition rx_spaces1 :: rx where
  "rx_spaces1 = RSeq (RSet is_space) rx_spaces"

definition rx_dot :: rx where
  "rx_dot = RSet (\<lambda>c. c \<noteq> CHR 0x0A \<and> c \<noteq> CHR 0x0D)"

subsection \<open>The matcher decides the language\<close>

lemma nullable_iff: "nullable r \<longleftrightarrow> matches r []"
proof (induction r)
  case (RStar r)
  then show ?case by (simp add: star0)
qed (auto simp: matches_seq)

lemma matches_mk_seq [simp]: "matches (mk_seq a b) s \<longleftrightarrow> matches (RSeq a b) s"
  by (cases a) (auto simp: matches_seq)

lemma matches_mk_alt [simp]: "matches (mk_alt a b) s \<longleftrightarrow> matches (RAlt a b) s"
  by (cases "(a, b)" rule: mk_alt.cases) auto

lemma matches_star_Cons:
  "matches (RStar r) (c # s) \<longleftrightarrow> (\<exists>u v. s = u @ v \<and> matches r (c # u) \<and> matches (RStar r) v)"
  by (subst matches_star) auto

lemma matches_seq_Cons:
  "matches (RSeq a b) (c # s) \<longleftrightarrow>
   (\<exists>u v. s = u @ v \<and> matches a (c # u) \<and> matches b v) \<or> (matches a [] \<and> matches b (c # s))"
  unfolding matches_seq by (auto simp: Cons_eq_append_conv)

lemma deriv_iff: "matches (deriv c r) s \<longleftrightarrow> matches r (c # s)"
proof (induction r arbitrary: s)
  case (RSeq a b)
  then show ?case
    by (simp add: nullable_iff matches_seq_Cons matches_seq [of "deriv c a" b])
next
  case (RStar r)
  then show ?case by (simp add: matches_star_Cons matches_seq [of "deriv c r"])
qed auto

lemma rx_prefix_iff: "rx_prefix r s \<longleftrightarrow> (\<exists>u v. s = u @ v \<and> matches r u)"
proof (induction r s rule: rx_prefix.induct)
  case (2 r c s)
  have "(\<exists>u v. c # s = u @ v \<and> matches r u) \<longleftrightarrow>
        matches r [] \<or> (\<exists>u v. s = u @ v \<and> matches r (c # u))"
    by (auto simp: Cons_eq_append_conv)
  then show ?case using 2 by (simp add: nullable_iff deriv_iff)
qed (simp add: nullable_iff)

lemma rx_search_iff: "rx_search r s \<longleftrightarrow> (\<exists>p u v. s = p @ u @ v \<and> matches r u)"
proof (induction s)
  case (Cons c s)
  have "(\<exists>p u v. c # s = p @ u @ v \<and> matches r u) \<longleftrightarrow>
        (\<exists>u v. c # s = u @ v \<and> matches r u) \<or> (\<exists>p u v. s = p @ u @ v \<and> matches r u)"
    by (metis Cons_eq_append_conv append_Nil append_Cons)
  then show ?case using Cons by (simp only: rx_search.simps rx_prefix_iff)
qed (simp add: nullable_iff)

lemma matches_seq_pair: "matches a u \<Longrightarrow> matches b v \<Longrightarrow> matches (RSeq a b) (u @ v)"
  by (rule matches.conc)

lemma matches_lit: "matches (rx_lit s) s"
  unfolding rx_lit_def
proof (induction s rule: induct_list012)
  case (3 x y zs)
  then show ?case
    using matches_seq_pair [of "RSet (\<lambda>c. c = x)" "[x]"] by simp
qed auto

lemma matches_spaces_Nil: "matches rx_spaces []"
  by (simp add: rx_spaces_def star0)

end
