(* ===== verification/Vision_Detect.thy ===== *)
theory Vision_Detect
  imports Js_Regex Json
begin

text \<open>
  Finding the images of a request body (\<open>src/vision/detect.ts\<close>) and choosing how to ask about
  them (\<open>src/vision/triage.ts\<close>, \<open>resolveTriageStrategy\<close> of \<open>src/vision/image-processor.ts\<close>).
  A content array is walked depth first; \<open>tool_result\<close> blocks of Anthropic bodies nest further
  content. The cursor the walkers share is passed and returned as a number.
\<close>

datatype api_kind = Api_Openai | Api_Anthropic

datatype encoding = Base64 | Url

record image_part =
  ip_media :: "string option"
  ip_encoding :: encoding
  ip_data :: string
  ip_adjacent :: "string option"
  ip_tool_result :: bool
  ip_position :: nat
  ip_batch :: nat
  ip_system :: "string option"

subsection \<open>Text around the images\<close>

definition type_is :: "json \<Rightarrow> string \<Rightarrow> bool" where
  "type_is p t = (jstr (jget p ''type'') = Some t)"

definition truncate_text :: "string \<Rightarrow> nat \<Rightarrow> string option" where
  "truncate_text s max_chars =
     (if max_chars = 0 \<or> s = [] then None else Some (take max_chars s))"

fun concat_text_blocks :: "json list \<Rightarrow> string" where
  "concat_text_blocks [] = []"
| "concat_text_blocks (p # ps) =
     (if \<not> is_object p then concat_text_blocks ps
      else (if type_is p ''text''
            then (case jstr (jget p ''text'') of None \<Rightarrow> [] | Some s \<Rightarrow> s)
            else []) @ concat_text_blocks ps)"

fun openai_system_prompt :: "json list \<Rightarrow> nat \<Rightarrow> string option" where
  "openai_system_prompt [] max_chars = None"
| "openai_system_prompt (msg # msgs) max_chars =
     (if \<not> is_object msg then openai_system_prompt msgs max_chars
      else if jstr (jget msg ''role'') \<noteq> Some ''system'' then openai_system_prompt msgs max_chars
      else (case jget msg ''content'' of
              Some (JStr s) \<Rightarrow> truncate_text s max_chars
            | Some (JArr ps) \<Rightarrow> truncate_text (concat_text_blocks ps) max_chars
            | _ \<Rightarrow> None))"

definition anthropic_system_prompt :: "json option \<Rightarrow> nat \<Rightarrow> string option" where
  "anthropic_system_prompt sys max_chars =
     (case sys of
        Some (JStr s) \<Rightarrow> truncate_text s max_chars
      | Some (JArr ps) \<Rightarrow> truncate_text (concat_text_blocks ps) max_chars
      | _ \<Rightarrow> None)"

subsection \<open>Content arrays\<close>

text \<open>The nested content of a \<open>tool_result\<close> block.\<close>

definition tool_content :: "json \<Rightarrow> json list option" where
  "tool_content p =
     (if type_is p ''tool_result'' then jarr (jget p ''content'') else None)"

lemma tool_content_size [termination_simp]:
  "tool_content p = Some cs \<Longrightarrow> size_list size cs < size p"
proof -
  assume "tool_content p = Some cs"
  then have c: "jget p ''content'' = Some (JArr cs)"
    by (simp add: tool_content_def jarr_Some split: if_splits)
  then obtain d where d: "p = JObj d" using jget_Some_obj by blast
  then have "(''content'', JArr cs) \<in> set d" using c by (auto dest: map_of_SomeD)
  then have "size (JArr cs) < size_list (size_prod (\<lambda>x. 0) size) d + 1"
    by (induction d) auto
  then show ?thesis using d by simp
qed

function count_images :: "json list \<Rightarrow> nat" where
  "count_images [] = 0"
| "count_images (p # ps) =
     (if \<not> is_object p then count_images ps
      else if type_is p ''image'' then Suc (count_images ps)
      else (case tool_content p of
              None \<Rightarrow> count_images ps
            | Some cs \<Rightarrow> count_images cs + count_images ps))"
  by pat_completeness auto
termination
  by (relation "measure (size_list size)") (auto dest: tool_content_size)

subsection \<open>Media types\<close>

definition image_extensions :: "string list" where
  "image_extensions =
     [''png'', ''jpg'', ''jpeg'', ''webp'', ''gif'', ''bmp'', ''tif'', ''tiff'', ''heic'', ''heif'', ''svg'']"

definition infer_ext_from_url :: "string \<Rightarrow> string option" where
  "infer_ext_from_url url =
     (case find (\<lambda>e. ends_with (to_lower url) (CHR ''.'' # e)) image_extensions of
        None \<Rightarrow> None
      | Some ext \<Rightarrow>
          (if ext = ''jpg'' then Some ''image/jpeg''
           else if ext = ''tif'' \<or> ext = ''tiff'' then Some ''image/tiff''
           else Some (''image/'' @ ext)))"

text \<open>\<open>/^data:([^;]+);base64,(.+)$/\<close>: the media type and the data.\<close>

definition data_url :: "string \<Rightarrow> (string \<times> string) option" where
  "data_url url =
     (if \<not> starts_with url ''data:'' then None
      else (let r = drop 5 url;
                mt = takeWhile (\<lambda>c. c \<noteq> CHR '';'') r;
                rest = dropWhile (\<lambda>c. c \<noteq> CHR '';'') r;
                b64 = drop 8 rest
            in if mt \<noteq> [] \<and> starts_with rest '';base64,'' \<and> b64 \<noteq> [] \<and>
                  list_all (\<lambda>c. c \<noteq> CHR 0x0A \<and> c \<noteq> CHR 0x0D) b64
               then Some (mt, b64) else None))"

subsection \<open>Anthropic bodies\<close>

text \<open>
  The part of one image block (\<open>None\<close>: the block has a source of another kind and is counted but
  not emitted).
\<close>

definition anthropic_part ::
  "json \<Rightarrow> string option \<Rightarrow> nat \<Rightarrow> string option \<Rightarrow> bool \<Rightarrow> nat \<Rightarrow> image_part option" where
  "anthropic_part src adj bsize sys tool pos =
     (let part = \<lambda>media enc d.
        \<lparr>ip_media = media, ip_encoding = enc, ip_data = d,
         ip_adjacent = (if tool then None else adj), ip_tool_result = tool,
         ip_position = pos, ip_batch = bsize, ip_system = sys\<rparr>
      in if type_is src ''base64''
         then Some (part (jstr (jget src ''media_type'')) Base64
                      (case jstr (jget src ''data'') of None \<Rightarrow> [] | Some d \<Rightarrow> d))
         else if type_is src ''url''
         then (let u = (case jstr (jget src ''url'') of None \<Rightarrow> [] | Some u \<Rightarrow> u)
               in Some (part (infer_ext_from_url u) Url u))
         else None)"

definition image_source :: "json \<Rightarrow> json option" where
  "image_source p =
     (if type_is p ''image''
      then (case jget p ''source'' of
              Some src \<Rightarrow> if is_object src then Some src else None
            | None \<Rightarrow> None)
      else None)"

function emit_anthropic ::
  "string option \<Rightarrow> nat \<Rightarrow> string option \<Rightarrow> bool \<Rightarrow> nat \<Rightarrow> json list \<Rightarrow> nat \<times> image_part list" where
  "emit_anthropic adj bsize sys tool pos [] = (pos, [])"
| "emit_anthropic adj bsize sys tool pos (p # ps) =
     (if \<not> is_object p then emit_anthropic adj bsize sys tool pos ps
      else case image_source p of
        Some src \<Rightarrow>
          (let (pos', out) = emit_anthropic adj bsize sys tool (Suc pos) ps
           in (pos', (case anthropic_part src adj bsize sys tool (Suc pos) of
                        None \<Rightarrow> out | Some ip \<Rightarrow> ip # out)))
      | None \<Rightarrow>
          (case tool_content p of
             None \<Rightarrow> emit_anthropic adj bsize sys tool pos ps
           | Some cs \<Rightarrow>
               (let (pos1, out1) = emit_anthropic adj bsize sys True pos cs;
                    (pos2, out2) = emit_anthropic adj bsize sys tool pos1 ps
                in (pos2, out1 @ out2))))"
  by pat_completeness auto
termination
  by (relation "measure (\<lambda>(_, _, _, _, _, ps). size_list size ps)") (auto dest: tool_content_size)

definition anthropic_message_parts :: "string option \<Rightarrow> nat \<Rightarrow> json \<Rightarrow> image_part list" where
  "anthropic_message_parts sys max_chars msg =
     (if \<not> is_object msg then []
      else case jarr (jget msg ''content'') of
        None \<Rightarrow> []
      | Some content \<Rightarrow>
          (let bsize = count_images content
           in if bsize = 0 then []
              else snd (emit_anthropic (truncate_text (concat_text_blocks content) max_chars)
                          bsize sys False 0 content)))"

definition find_anthropic_parts :: "json \<Rightarrow> nat \<Rightarrow> image_part list" where
  "find_anthropic_parts body max_chars =
     (case jarr (jget body ''messages'') of
        None \<Rightarrow> []
      | Some msgs \<Rightarrow>
          (let sys = anthropic_system_prompt (jget body ''system'') max_chars
           in concat (map (anthropic_message_parts sys max_chars) msgs)))"

subsection \<open>OpenAI bodies\<close>

definition image_url_of :: "json \<Rightarrow> string" where
  "image_url_of p =
     (case jstr (jopt (jget p ''image_url'') ''url'') of None \<Rightarrow> [] | Some u \<Rightarrow> u)"

definition openai_part ::
  "string \<Rightarrow> string option \<Rightarrow> nat \<Rightarrow> string option \<Rightarrow> nat \<Rightarrow> image_part" where
  "openai_part url adj bsize sys pos =
     (let part = \<lambda>media enc d.
        \<lparr>ip_media = media, ip_encoding = enc, ip_data = d, ip_adjacent = adj,
         ip_tool_result = False, ip_position = pos, ip_batch = bsize, ip_system = sys\<rparr>
      in case data_url url of
           Some (mt, d) \<Rightarrow> part (Some mt) Base64 d
         | None \<Rightarrow> part (infer_ext_from_url url) Url url)"

definition is_image_url :: "json \<Rightarrow> bool" where
  "is_image_url p = (is_object p \<and> type_is p ''image_url'')"

fun emit_openai ::
  "string option \<Rightarrow> nat \<Rightarrow> string option \<Rightarrow> nat \<Rightarrow> json list \<Rightarrow> image_part list" where
  "emit_openai adj bsize sys pos [] = []"
| "emit_openai adj bsize sys pos (p # ps) =
     (if \<not> is_image_url p then emit_openai adj bsize sys pos ps
      else if image_url_of p = [] then emit_openai adj bsize sys pos ps
      else openai_part (image_url_of p) adj bsize sys (Suc pos)
             # emit_openai adj bsize sys (Suc pos) ps)"

definition openai_message_parts :: "string option \<Rightarrow> nat \<Rightarrow> json \<Rightarrow> image_part list" where
  "openai_message_parts sys max_chars msg =
     (if \<not> is_object msg then []
      else case jarr (jget msg ''content'') of
        None \<Rightarrow> []
      | Some content \<Rightarrow>
          (let bsize = length (filter is_image_url content)
           in if bsize = 0 then []
              else emit_openai (truncate_text (concat_text_blocks content) max_chars)
                     bsize sys 0 content))"

definition find_openai_parts :: "json \<Rightarrow> nat \<Rightarrow> image_part list" where
  "find_openai_parts body max_chars =
     (case jarr (jget body ''messages'') of
        None \<Rightarrow> []
      | Some msgs \<Rightarrow>
          (let sys = openai_system_prompt msgs max_chars
           in concat (map (openai_message_parts sys max_chars) msgs)))"

definition default_max_chars :: nat where
  "default_max_chars = 1000"

definition find_parts :: "api_kind \<Rightarrow> json \<Rightarrow> image_part list" where
  "find_parts kind body =
     (case kind of
        Api_Anthropic \<Rightarrow> find_anthropic_parts body default_max_chars
      | Api_Openai \<Rightarrow> find_openai_parts body default_max_chars)"

subsection \<open>The signal in the text of a body\<close>

definition signal_openai :: rx where
  "signal_openai =
     rx_seq [rx_lit ''\"type\"'', rx_spaces, rx_lit '':'', rx_spaces, rx_lit ''\"image_url\"'']"

definition signal_anthropic :: rx where
  "signal_anthropic =
     rx_seq [rx_lit ''\"type\"'', rx_spaces, rx_lit '':'', rx_spaces, rx_lit ''\"image\"'',
             rx_spaces, rx_lit '','', rx_spaces, rx_lit ''\"source\"'']"

definition cheap_image_signal :: "string \<Rightarrow> bool" where
  "cheap_image_signal s = (rx_search signal_openai s \<or> rx_search signal_anthropic s)"

subsection \<open>Whether to rewrite\<close>

datatype rewrite_strategy = Never | Catalog | Always

datatype vision_tristate = Sees | Blind | Via_Handoff

definition should_rewrite ::
  "rewrite_strategy \<Rightarrow> vision_tristate option \<Rightarrow> api_kind \<Rightarrow> bool \<Rightarrow> bool" where
  "should_rewrite strategy supports kind force =
     (case strategy of
        Never \<Rightarrow> False
      | Always \<Rightarrow> True
      | Catalog \<Rightarrow>
          (case supports of
             None \<Rightarrow> False
           | Some Blind \<Rightarrow> True
           | Some Via_Handoff \<Rightarrow> kind = Api_Openai
           | Some Sees \<Rightarrow> force))"

subsection \<open>Triage\<close>

datatype triage_strategy = Generic | Slotted | Crafted | Decomposed

record triage_input =
  ti_adjacent :: "string option"
  ti_tool_result :: bool
  ti_count :: nat

record triage_config =
  min_specific_length :: nat
  relational_terms :: "string list"
  image_reference_patterns :: "rx list"
  comparative_terms :: "string list"

definition default_triage_config :: triage_config where
  "default_triage_config =
     \<lparr>min_specific_length = 40,
      relational_terms =
        [''compare'', ''contrast'', ''same as'', ''different from'', ''before'', ''after'',
         ''previous'', ''earlier'', ''consistent with'', ''match''],
      image_reference_patterns =
        [rx_seq [rx_lit_i ''image'', rx_spaces1, RSet (\<lambda>c. lower_char c \<in> set ''abcdefghijklmnopqrstuvwxyz'')],
         rx_seq [rx_lit_i ''image'', rx_spaces1, RSet (\<lambda>c. c \<in> set ''0123456789'')],
         rx_seq [rx_lit_i ''the'', rx_spaces1,
                 rx_alt (map rx_lit_i [''first'', ''second'', ''third'', ''last'']), rx_spaces1,
                 rx_alt (map rx_lit_i [''one'', ''image''])],
         rx_seq [rx_lit_i ''image'', rx_spaces1, RSet (\<lambda>c. c \<in> set ''0123456789''),
                 RStar (RSet (\<lambda>c. c \<in> set ''0123456789''))]],
      comparative_terms =
        [''compare'', ''contrast'', ''which is'', ''which has'', ''brighter'', ''darker'',
         ''larger'', ''smaller'', ''the same'', ''different between'']\<rparr>"

definition generic_phrasing :: rx where
  "generic_phrasing =
     rx_alt [rx_lit_i ''describe'', rx_seq [rx_lit_i ''what'', rx_dot, rx_lit_i ''s in''],
             rx_lit_i ''what do you see'', rx_lit_i ''what is this'', rx_lit_i ''can you see'']"

definition triage_vision :: "triage_input \<Rightarrow> triage_config \<Rightarrow> triage_strategy" where
  "triage_vision inp cfg =
     (if ti_tool_result inp then Generic
      else case ti_adjacent inp of
        None \<Rightarrow> Generic
      | Some t \<Rightarrow>
          if t = [] \<or> trim t = [] then Generic
          else if rx_prefix generic_phrasing (trim t) then Generic
          else let lower = to_lower t in
            if 1 < ti_count inp then
              if list_ex (\<lambda>term. js_includes lower (to_lower term)) (comparative_terms cfg) then Generic
              else if list_ex (\<lambda>r. rx_search r t) (image_reference_patterns cfg) then Decomposed
              else Slotted
            else if list_ex (\<lambda>term. js_includes lower (to_lower term)) (relational_terms cfg) then Crafted
            else if min_specific_length cfg < length t then Crafted
            else Slotted)"

datatype intent_mode = Intent_Off | Intent_Slotted | Intent_Crafted | Intent_Auto

definition resolve_triage :: "intent_mode option \<Rightarrow> triage_input \<Rightarrow> triage_strategy" where
  "resolve_triage mode inp =
     (case (case mode of None \<Rightarrow> Intent_Auto | Some m \<Rightarrow> m) of
        Intent_Off \<Rightarrow> Generic
      | Intent_Slotted \<Rightarrow> if ti_tool_result inp then Generic else Slotted
      | Intent_Crafted \<Rightarrow>
          if ti_tool_result inp then Generic
          else if ti_count inp \<le> 1 then Crafted else Slotted
      | Intent_Auto \<Rightarrow> triage_vision inp default_triage_config)"

end
