(* ===== verification/Vision_Wrapper.thy ===== *)
theory Vision_Wrapper
  imports Vision_Detect
begin

text \<open>
  The texts that stand for images and their place in the body (\<open>src/vision/wrapper.ts\<close>): the
  wrapped description, the failure placeholder, the policy for too many images, and the
  replacement of image blocks in a cloned body. An em dash of a source string is written \<open>--\<close>.
\<close>

datatype failure_reason =
  F_Timeout | F_Http_Status | F_Parse | F_Empty | F_Generic | F_Aborted

datatype format_policy = Pass | Transcode | Reject

definition wrap_description :: "string \<Rightarrow> string" where
  "wrap_description desc =
     ''[Image content -- analyzed by vision module, shown as text because the active model cannot see images:]'' @
     [CHR 0x0A] @ desc"

definition reason_text :: "failure_reason \<Rightarrow> string \<Rightarrow> string" where
  "reason_text reason detail =
     (case reason of
        F_Timeout \<Rightarrow> ''vision model timed out after '' @ detail
      | F_Http_Status \<Rightarrow> ''vision model returned HTTP '' @ detail
      | F_Parse \<Rightarrow> ''vision model returned an unparseable response''
      | F_Empty \<Rightarrow> ''vision model returned an empty description''
      | F_Generic \<Rightarrow> detail
      | F_Aborted \<Rightarrow> ''client disconnected before vision model responded'')"

definition failure_placeholder_prefix :: string where
  "failure_placeholder_prefix = ''[Image analysis failed:''"

definition failure_placeholder :: "failure_reason \<Rightarrow> string \<Rightarrow> string" where
  "failure_placeholder reason detail =
     ''[Image analysis failed: '' @ reason_text reason detail @
     ''. The active model cannot see this image.]''"

definition is_failure_placeholder :: "string \<Rightarrow> bool" where
  "is_failure_placeholder d = starts_with d failure_placeholder_prefix"

definition format_policy_of :: "string \<Rightarrow> string \<Rightarrow> format_policy" where
  "format_policy_of ext media_type =
     (let e = to_lower ext
      in if e \<in> set [''png'', ''jpg'', ''jpeg'', ''webp'', ''gif''] then Pass
         else if e \<in> set [''bmp'', ''tiff'', ''tif'', ''heic'', ''heif'', ''svg''] then Transcode
         else Reject)"

subsection \<open>Too many images\<close>

definition overflow_placeholder :: "nat \<Rightarrow> string" where
  "overflow_placeholder i =
     ''[Image omitted: not delivered to model -- do not describe or reference it. (overflow '' @
     digits_of (i + 1) @ '')]''"

definition apply_max_images_policy :: "image_part list \<Rightarrow> nat \<Rightarrow> image_part list \<times> string list" where
  "apply_max_images_policy parts max_images =
     (take max_images parts,
      map overflow_placeholder [0..<length (drop max_images parts)])"

subsection \<open>Replacing image blocks\<close>

text \<open>A position is the pair of \<open>positionInBatch\<close> and \<open>batchSize\<close>.\<close>

definition wrap_with_position ::
  "string list \<Rightarrow> nat \<Rightarrow> (nat \<times> nat) list option \<Rightarrow> string" where
  "wrap_with_position descs i positions =
     (let desc = descs ! i
      in case positions of
           None \<Rightarrow> desc
         | Some ps \<Rightarrow>
             (if i < length ps \<and> 1 < snd (ps ! i)
              then ''[Image '' @ digits_of (fst (ps ! i)) @ '':'' @ [CHR 0x0A] @ desc @ '']''
              else desc))"

definition text_block :: "string \<Rightarrow> json" where
  "text_block t = JObj [(''type'', JStr ''text''), (''text'', JStr t)]"

definition cached_text_block :: "string \<Rightarrow> json" where
  "cached_text_block t =
     JObj [(''type'', JStr ''text''), (''text'', JStr t),
           (''cache_control'', JObj [(''type'', JStr ''ephemeral'')])]"

text \<open>
  \<open>cursor.descIdx\<close> is passed and returned; the cursor never runs past the descriptions, so the
  access to them is in range.
\<close>

function replace_in_content ::
  "api_kind \<Rightarrow> string list \<Rightarrow> (nat \<times> nat) list option \<Rightarrow> nat \<Rightarrow> json list \<Rightarrow> nat \<times> json list" where
  "replace_in_content kind descs positions i [] = (i, [])"
| "replace_in_content kind descs positions i (p # ps) =
     (if \<not> is_object p then
        (let (i', ps') = replace_in_content kind descs positions i ps in (i', p # ps'))
      else if kind = Api_Openai \<and> type_is p ''image_url'' then
        (if i < length descs
         then (let (i', ps') = replace_in_content kind descs positions (Suc i) ps
               in (i', text_block (wrap_with_position descs i positions) # ps'))
         else (let (i', ps') = replace_in_content kind descs positions i ps in (i', p # ps')))
      else if kind = Api_Anthropic \<and> type_is p ''image'' then
        (if i < length descs
         then (let (i', ps') = replace_in_content kind descs positions (Suc i) ps
               in (i', cached_text_block (wrap_with_position descs i positions) # ps'))
         else (let (i', ps') = replace_in_content kind descs positions i ps in (i', p # ps')))
      else (case (if kind = Api_Anthropic then tool_content p else None) of
              None \<Rightarrow> (let (i', ps') = replace_in_content kind descs positions i ps in (i', p # ps'))
            | Some cs \<Rightarrow>
                (let (i1, cs') = replace_in_content kind descs positions i cs;
                     (i2, ps') = replace_in_content kind descs positions i1 ps
                 in (i2, jset p ''content'' (JArr cs') # ps'))))"
  by pat_completeness auto
termination
  by (relation "measure (\<lambda>(_, _, _, _, ps). size_list size ps)")
     (auto dest: tool_content_size split: if_splits)

definition join_lines :: "string list \<Rightarrow> string" where
  "join_lines ls = (case ls of [] \<Rightarrow> [] | l # r \<Rightarrow> l @ concat (map (\<lambda>x. CHR 0x0A # x) r))"

text \<open>The state of the walk over the messages: \<open>descIdx\<close>, and whether the overflow text is placed.\<close>

definition replace_in_message ::
  "api_kind \<Rightarrow> string list \<Rightarrow> string list \<Rightarrow> (nat \<times> nat) list option \<Rightarrow> json \<Rightarrow> nat \<times> nat \<Rightarrow>
   (nat \<times> nat) \<times> json" where
  "replace_in_message kind descs overflow positions msg cur =
     (let (i, oi) = cur in
      if \<not> is_object msg then (cur, msg)
      else case jarr (jget msg ''content'') of
        None \<Rightarrow> (cur, msg)
      | Some content \<Rightarrow>
          (let (i', content') = replace_in_content kind descs positions i content;
               overflow_text = join_lines overflow
           in if overflow_text \<noteq> [] \<and> length descs \<le> i' \<and> oi < length overflow
              then ((i', length overflow),
                    jset msg ''content'' (JArr (content' @ [text_block overflow_text])))
              else ((i', oi), jset msg ''content'' (JArr content'))))"

fun replace_in_messages ::
  "api_kind \<Rightarrow> string list \<Rightarrow> string list \<Rightarrow> (nat \<times> nat) list option \<Rightarrow> json list \<Rightarrow> nat \<times> nat \<Rightarrow>
   json list" where
  "replace_in_messages kind descs overflow positions [] cur = []"
| "replace_in_messages kind descs overflow positions (msg # msgs) cur =
     (let (cur', msg') = replace_in_message kind descs overflow positions msg cur
      in msg' # replace_in_messages kind descs overflow positions msgs cur')"

definition replace_image_blocks ::
  "json \<Rightarrow> api_kind \<Rightarrow> string list \<Rightarrow> string list \<Rightarrow> (nat \<times> nat) list option \<Rightarrow> json" where
  "replace_image_blocks body kind descs overflow positions =
     (case jarr (jget body ''messages'') of
        None \<Rightarrow> body
      | Some msgs \<Rightarrow>
          jset body ''messages''
            (JArr (replace_in_messages kind descs overflow positions msgs (0, 0))))"

end
