(* ===== verification/Json_Text.thy ===== *)
theory Json_Text
  imports Json
begin

text \<open>
  \<open>JSON.stringify\<close> without indentation, and the clone \<open>JSON.parse(JSON.stringify(v))\<close>. The
  decimal text of a number is the parameter \<open>num_text\<close>: the code never looks into it.
\<close>

definition hex_digit :: "nat \<Rightarrow> char" where
  "hex_digit n = (if n < 10 then char_of (48 + n) else char_of (87 + n))"

definition escape_char :: "char \<Rightarrow> string" where
  "escape_char c =
     (let n = of_char c :: nat
      in if n = 34 then [CHR 0x5C, CHR 0x22]
         else if n = 92 then [CHR 0x5C, CHR 0x5C]
         else if n = 8 then CHR 0x5C # ''b''
         else if n = 9 then CHR 0x5C # ''t''
         else if n = 10 then CHR 0x5C # ''n''
         else if n = 12 then CHR 0x5C # ''f''
         else if n = 13 then CHR 0x5C # ''r''
         else if n < 32 then CHR 0x5C # ''u00'' @ [hex_digit (n div 16), hex_digit (n mod 16)]
         else [c])"

definition quote_text :: "string \<Rightarrow> string" where
  "quote_text s = [CHR 0x22] @ concat (map escape_char s) @ [CHR 0x22]"

fun sep_commas :: "string list \<Rightarrow> string" where
  "sep_commas [] = []"
| "sep_commas [t] = t"
| "sep_commas (t # ts) = t @ '','' @ sep_commas ts"

fun json_text :: "(rat \<Rightarrow> string) \<Rightarrow> json \<Rightarrow> string" where
  "json_text num_text JNull = ''null''"
| "json_text num_text (JBool b) = (if b then ''true'' else ''false'')"
| "json_text num_text (JNum r) = num_text r"
| "json_text num_text (JInf b) = ''null''"
| "json_text num_text (JStr s) = quote_text s"
| "json_text num_text (JArr vs) = ''['' @ sep_commas (map (json_text num_text) vs) @ '']''"
| "json_text num_text (JObj d) =
     ''{'' @ sep_commas (map (\<lambda>(k, v). quote_text k @ '':'' @ json_text num_text v) d) @ ''}''"

text \<open>An infinite number is written as \<open>null\<close>, so the clone holds \<open>null\<close> in its place.\<close>

fun json_clone :: "json \<Rightarrow> json" where
  "json_clone (JInf b) = JNull"
| "json_clone (JArr vs) = JArr (map json_clone vs)"
| "json_clone (JObj d) = JObj (map (\<lambda>(k, v). (k, json_clone v)) d)"
| "json_clone v = v"

lemma map_of_map_snd: "map_of (map (\<lambda>(k, v). (k, f v)) d) k = map_option f (map_of d k)"
  by (induction d) auto

lemma jget_clone [simp]: "jget (json_clone v) k = map_option json_clone (jget v k)"
  by (cases v) (simp_all add: map_of_map_snd)

lemma jopt_clone [simp]: "jopt (map_option json_clone v) k = map_option json_clone (jopt v k)"
  by (cases v) simp_all

lemma jstr_clone [simp]: "jstr (map_option json_clone v) = jstr v"
  by (cases v rule: jstr.cases) simp_all

lemma jarr_clone [simp]: "jarr (map_option json_clone v) = map_option (map json_clone) (jarr v)"
  by (cases v rule: jarr.cases) simp_all

lemma is_object_clone [simp]: "is_object (json_clone v) = is_object v"
  by (cases v) simp_all

lemma jdel_clone: "json_clone (jdel v k) = jdel (json_clone v) k"
proof (cases v)
  case (JObj d)
  have "map (\<lambda>(k, v). (k, json_clone v)) (obj_del d k) = obj_del (map (\<lambda>(k, v). (k, json_clone v)) d) k"
    unfolding obj_del_def by (induction d) auto
  then show ?thesis by (simp add: JObj)
qed simp_all

text \<open>The text of an array or object contains the text of each of its members.\<close>

lemma sep_commas_member: "t \<in> set ts \<Longrightarrow> \<exists>u v. sep_commas ts = u @ t @ v"
proof (induction ts rule: sep_commas.induct)
  case (3 t' s ts)
  show ?case
  proof (cases "t = t'")
    case True
    then have "sep_commas (t' # s # ts) = [] @ t @ ('','' @ sep_commas (s # ts))" by simp
    then show ?thesis by blast
  next
    case False
    then obtain u v where "sep_commas (s # ts) = u @ t @ v" using 3 by auto
    then have "sep_commas (t' # s # ts) = (t' @ '','' @ u) @ t @ v" by simp
    then show ?thesis by blast
  qed
qed (auto intro: exI [of _ "[]"])

definition part_of :: "string \<Rightarrow> string \<Rightarrow> bool" where
  "part_of t s = (\<exists>u v. s = u @ t @ v)"

lemma part_of_refl [simp]: "part_of s s"
  unfolding part_of_def by (metis append_Nil append_Nil2)

lemma part_of_trans: "part_of a b \<Longrightarrow> part_of b c \<Longrightarrow> part_of a c"
  unfolding part_of_def by (metis append.assoc)

lemma part_of_append [intro]: "part_of t s \<Longrightarrow> part_of t (u @ s @ v)"
  unfolding part_of_def by (metis append.assoc)

lemma part_of_array:
  assumes "v \<in> set vs"
  shows "part_of (json_text nt v) (json_text nt (JArr vs))"
proof -
  obtain a b where "sep_commas (map (json_text nt) vs) = a @ json_text nt v @ b"
    using sep_commas_member [of "json_text nt v" "map (json_text nt) vs"] assms by auto
  then have "json_text nt (JArr vs) = (''['' @ a) @ json_text nt v @ (b @ '']'')" by simp
  then show ?thesis unfolding part_of_def by blast
qed

lemma part_of_entry:
  assumes "(k, v) \<in> set d"
  shows "part_of (quote_text k @ '':'' @ json_text nt v) (json_text nt (JObj d))"
proof -
  let ?f = "\<lambda>(k, v). quote_text k @ '':'' @ json_text nt v"
  obtain a b where "sep_commas (map ?f d) = a @ ?f (k, v) @ b"
    using sep_commas_member [of "?f (k, v)" "map ?f d"] assms by force
  then have "json_text nt (JObj d) = (''{'' @ a) @ ?f (k, v) @ (b @ ''}'')" by simp
  then show ?thesis unfolding part_of_def by (metis case_prod_conv)
qed

lemma part_of_jget:
  assumes "jget v k = Some x"
  shows "part_of (quote_text k @ '':'' @ json_text nt x) (json_text nt v)"
proof -
  obtain d where d: "v = JObj d" using jget_Some_obj [OF assms] by blast
  then have "(k, x) \<in> set d" using assms by (simp add: map_of_SomeD)
  then show ?thesis unfolding d by (rule part_of_entry)
qed

lemma part_of_jget_value: "jget v k = Some x \<Longrightarrow> part_of (json_text nt x) (json_text nt v)"
  using part_of_jget [of v k x nt] part_of_trans
  by (metis append.right_neutral part_of_append part_of_refl)

end
