(* ===== verification/Vision_Cache.thy ===== *)
theory Vision_Cache
  imports Vision_Store Vision_Wrapper Json_Text
begin

text \<open>
  The description cache (\<open>src/vision/cache.ts\<close>): keys, the two tiers (with and without the hash
  of the conversation context) and the persistent store behind them. The package \<open>lru-cache\<close> and
  the SHA-256 of the runtime are parameters: \<open>'l lru\<close> holds the operations the code calls, each
  at a time and each returning the number of entries it disposed of by eviction or expiry;
  \<open>sha\<close> is the digest of the concatenated updates. Image bytes are strings.
\<close>

record 'l lru =
  lru_has :: "'l \<Rightarrow> string \<Rightarrow> int \<Rightarrow> bool"
  lru_get :: "'l \<Rightarrow> string \<Rightarrow> int \<Rightarrow> string option \<times> 'l \<times> nat"
  lru_set :: "'l \<Rightarrow> string \<Rightarrow> string \<Rightarrow> int \<Rightarrow> 'l \<times> nat"

record hasher =
  sha :: "string \<Rightarrow> string"
  num_text :: "rat \<Rightarrow> string"

record recipe =
  rc_format :: string
  rc_quality :: int
  rc_max_dimension :: int

definition recipe_json :: "recipe \<Rightarrow> json" where
  "recipe_json r =
     JObj [(''format'', JStr (rc_format r)), (''quality'', JNum (of_int (rc_quality r))),
           (''max_dimension'', JNum (of_int (rc_max_dimension r)))]"

definition image_cache_key :: "hasher \<Rightarrow> string \<Rightarrow> recipe \<Rightarrow> string \<Rightarrow> string" where
  "image_cache_key h bytes r encoder_version =
     sha h (bytes @ json_text (num_text h) (recipe_json r) @ encoder_version)"

text \<open>An empty context hash counts as absent.\<close>

definition has_context :: "string option \<Rightarrow> bool" where
  "has_context c = (c \<noteq> None \<and> c \<noteq> Some [])"

definition description_cache_key ::
  "hasher \<Rightarrow> string \<Rightarrow> recipe \<Rightarrow> string \<Rightarrow> string \<Rightarrow> int \<Rightarrow> string option \<Rightarrow> string" where
  "description_cache_key h bytes r encoder_version model_id prompt_version ctx =
     sha h (image_cache_key h bytes r encoder_version @
            ''|pv='' @ num_text h (of_int prompt_version) @ ''|model='' @ model_id @
            (if has_context ctx then ''|ctx='' @ the ctx else []))"

subsection \<open>The cache\<close>

record 'l dcache =
  dc_lru :: 'l
  dc_store :: "pstore option"
  dc_hits :: nat
  dc_misses :: nat
  dc_evictions :: nat
  dc_persistent_hits :: nat
  dc_persistent_writes :: nat

text \<open>The image, the model and the prompt of a lookup, and the clock and SQLite's answers.\<close>

record cache_query =
  cq_bytes :: string
  cq_recipe :: recipe
  cq_encoder :: string
  cq_model :: string
  cq_prompt_version :: int

record cache_env =
  ce_hasher :: hasher
  ce_store_config :: store_config

definition query_key :: "cache_env \<Rightarrow> cache_query \<Rightarrow> string option \<Rightarrow> string" where
  "query_key env q ctx =
     description_cache_key (ce_hasher env) (cq_bytes q) (cq_recipe q) (cq_encoder q) (cq_model q)
       (cq_prompt_version q) ctx"

definition query_entry :: "cache_env \<Rightarrow> cache_query \<Rightarrow> string option \<Rightarrow> string \<Rightarrow> description_entry" where
  "query_entry env q ctx d =
     \<lparr>de_key = query_key env q ctx, de_description = d,
      de_image_hash = image_cache_key (ce_hasher env) (cq_bytes q) (cq_recipe q) (cq_encoder q),
      de_model = cq_model q, de_prompt_version = cq_prompt_version q\<rparr>"

definition cache_put :: "'l lru \<Rightarrow> string \<Rightarrow> string \<Rightarrow> int \<Rightarrow> 'l dcache \<Rightarrow> 'l dcache" where
  "cache_put L k d now c =
     (let (l, n) = lru_set L (dc_lru c) k d now
      in c\<lparr>dc_lru := l, dc_evictions := dc_evictions c + n\<rparr>)"

definition cache_get :: "'l lru \<Rightarrow> string \<Rightarrow> int \<Rightarrow> 'l dcache \<Rightarrow> string option \<times> 'l dcache" where
  "cache_get L k now c =
     (let (v, l, n) = lru_get L (dc_lru c) k now
      in (v, c\<lparr>dc_lru := l, dc_evictions := dc_evictions c + n\<rparr>))"

definition warm :: "'l lru \<Rightarrow> string \<Rightarrow> string \<Rightarrow> int \<Rightarrow> 'l dcache \<Rightarrow> 'l dcache" where
  "warm L k d now c = cache_put L k d now c"

text \<open>\<open>this.persistent.get(key)\<close> where there is a store.\<close>

definition store_get ::
  "cache_env \<Rightarrow> string \<Rightarrow> int \<Rightarrow> 'l dcache \<Rightarrow> string option \<times> 'l dcache" where
  "store_get env k now c =
     (case dc_store c of
        None \<Rightarrow> (None, c)
      | Some s \<Rightarrow>
          (let (v, s') = ps_get (ce_store_config env) now k s in (v, c\<lparr>dc_store := Some s'\<rparr>)))"

text \<open>\<open>this.persistent.set(entry)\<close>; \<open>False\<close>: it threw.\<close>

definition store_set ::
  "cache_env \<Rightarrow> store_io \<Rightarrow> description_entry \<Rightarrow> 'l dcache \<Rightarrow> bool \<times> 'l dcache" where
  "store_set env io e c =
     (case dc_store c of
        None \<Rightarrow> (True, c)
      | Some s \<Rightarrow>
          (let (ok, s') = ps_set (ce_store_config env) io e s in (ok, c\<lparr>dc_store := Some s'\<rparr>)))"

definition count_writes :: "nat \<Rightarrow> 'l dcache \<Rightarrow> 'l dcache" where
  "count_writes n c =
     (if dc_store c = None then c
      else c\<lparr>dc_persistent_writes := dc_persistent_writes c + n\<rparr>)"

definition get_image_only ::
  "'l lru \<Rightarrow> cache_env \<Rightarrow> int \<Rightarrow> cache_query \<Rightarrow> 'l dcache \<Rightarrow> string option \<times> 'l dcache" where
  "get_image_only L env now q c0 =
     (let k = query_key env q None; (v, c1) = cache_get L k now c0
      in case v of
           Some d \<Rightarrow> (Some d, c1)
         | None \<Rightarrow>
             (let (p, c2) = store_get env k now c1
              in case p of
                   Some d \<Rightarrow> (Some d, cache_put L k d now c2)
                 | None \<Rightarrow> (None, c2)))"

text \<open>Two writes to the store, the second only when the first did not throw.\<close>

definition store_dual ::
  "'l lru \<Rightarrow> cache_env \<Rightarrow> store_io \<times> store_io \<Rightarrow> cache_query \<Rightarrow> string option \<Rightarrow> string \<Rightarrow>
   'l dcache \<Rightarrow> bool \<times> 'l dcache" where
  "store_dual L env io q ctx d c0 =
     (let now = io_now (fst io);
          c1 = cache_put L (query_key env q ctx) d now c0;
          c2 = cache_put L (query_key env q None) d now c1;
          (ok1, c3) = store_set env (fst io) (query_entry env q ctx d) c2
      in if \<not> ok1 then (False, c3)
         else let (ok2, c4) = store_set env (snd io) (query_entry env q None d) c3
              in if \<not> ok2 then (False, c4) else (True, count_writes 2 c4))"

text \<open>
  The outcome of a lookup: a description; the exception of \<open>compute\<close> (\<open>compute\<close> is \<open>None\<close> when it
  throws, as in a cache-only lookup); an exception of the persistent store.
\<close>

datatype lookup_result = Found string | Miss_Thrown | Store_Thrown

definition get_or_compute ::
  "'l lru \<Rightarrow> cache_env \<Rightarrow> store_io \<times> store_io \<Rightarrow> cache_query \<Rightarrow> string option \<Rightarrow>
   (string \<Rightarrow> bool) option \<Rightarrow> string option \<Rightarrow> 'l dcache \<Rightarrow> lookup_result \<times> 'l dcache" where
  "get_or_compute L env io q compute is_cacheable ctx c0 =
     (let now = io_now (fst io);
          k = query_key env q ctx;
          hit = (\<lambda>v c. (Found v, c\<lparr>dc_hits := dc_hits c + 1\<rparr>));
          (direct, c1) = (if lru_has L (dc_lru c0) k now then cache_get L k now c0 else (None, c0))
      in case direct of
           Some v \<Rightarrow> hit v c1
         | None \<Rightarrow>
         (let (persisted, c2) = store_get env k now c1
          in case persisted of
               Some v \<Rightarrow>
                 hit v (cache_put L k v now
                          (c2\<lparr>dc_persistent_hits := dc_persistent_hits c2 + 1\<rparr>))
             | None \<Rightarrow>
             (let (only, c3) = (if has_context ctx then get_image_only L env now q c2 else (None, c2))
              in case only of
                   Some v \<Rightarrow> hit v (cache_put L k v now c3)
                 | None \<Rightarrow>
                 (case compute of
                    None \<Rightarrow> (Miss_Thrown, c3)
                  | Some value \<Rightarrow>
                    (let c4 = c3\<lparr>dc_misses := dc_misses c3 + 1\<rparr>
                     in if \<not> (case is_cacheable of None \<Rightarrow> True | Some p \<Rightarrow> p value) then (Found value, c4)
                        else if has_context ctx then
                          (let (ok, c5) = store_dual L env io q ctx value c4
                           in (if ok then Found value else Store_Thrown, c5))
                        else
                          (let (ok, c5) = store_set env (fst io) (query_entry env q ctx value)
                                            (cache_put L k value now c4)
                           in if ok then (Found value, count_writes 1 c5)
                              else (Store_Thrown, c5)))))))"

end
