(* ===== verification/Vision_Images.thy ===== *)
theory Vision_Images
  imports Vision_Call Capture_Db
begin

text \<open>
  The life of one image (\<open>processImage\<close> of \<open>src/vision/image-processor.ts\<close>): cache lookup, the map
  of images in flight, transcoding, the capture row, the call of the vision model, the store into
  the cache. The function is cut at its \<open>await\<close>s; each piece runs without interruption, and
  between pieces any other request may run. A promise is named by the image job that made it; the
  statements to the capture database are recorded in order.
\<close>

subsection \<open>State\<close>

record call_record =
  vr_id :: nat
  vr_timestamp :: int
  vr_capture :: "nat option"
  vr_image_size :: nat
  vr_hash :: "string option"
  vr_status :: call_status
  vr_http_status :: "nat option"
  vr_latency :: int
  vr_text :: string
  vr_error :: "string option"

record 'l processor =
  pr_cache :: "'l dcache"
  pr_inflight :: "(string \<times> nat) list"
  pr_settled :: "(nat \<times> string) list"
  pr_records :: "call_record list"
  pr_next_record :: nat
  pr_crafting :: "string obj"
  pr_ops :: "db_op list"

definition new_processor :: "'l dcache \<Rightarrow> 'l processor" where
  "new_processor c =
     \<lparr>pr_cache = c, pr_inflight = [], pr_settled = [], pr_records = [], pr_next_record = 1,
      pr_crafting = [], pr_ops = []\<rparr>"

record image_result =
  ir_description :: string
  ir_cache_hit :: bool
  ir_cache_miss :: bool
  ir_vision_call :: bool
  ir_latency :: int

text \<open>One image of one request. The records leave out what the configuration fixes (model, target, protocols).\<close>

record image_job =
  ij_part :: image_part
  ij_capture :: "nat option"
  ij_context :: "vision_context option"

text \<open>Where a job stands; a calling job knows its image, its start and its capture row.\<close>

datatype phase =
    Finished image_result
  | Waiting nat
  | Transcoding string string
  | Calling string string string int "nat option"
  | Failed

subsection \<open>Records\<close>

definition max_records :: "vision_config \<Rightarrow> nat" where
  "max_records cfg = max (vf_cache_size cfg) 200"

definition add_record ::
  "vision_config \<Rightarrow> int \<Rightarrow> (nat \<Rightarrow> call_record) \<Rightarrow> 'l processor \<Rightarrow> 'l processor" where
  "add_record cfg now mk st =
     (let recs = pr_records st @ [(mk (pr_next_record st))\<lparr>vr_timestamp := now\<rparr>]
      in st\<lparr>pr_records := drop (length recs - max_records cfg) recs,
            pr_next_record := pr_next_record st + 1\<rparr>)"

definition get_records :: "nat \<Rightarrow> 'l processor \<Rightarrow> call_record list" where
  "get_records limit st = rev (drop (length (pr_records st) - limit) (pr_records st))"

definition clear_records :: "'l processor \<Rightarrow> 'l processor" where
  "clear_records st = st\<lparr>pr_records := [], pr_next_record := 1, pr_ops := pr_ops st @ [Clear_Vision]\<rparr>"

definition plain_record ::
  "image_job \<Rightarrow> nat \<Rightarrow> string option \<Rightarrow> call_status \<Rightarrow> string \<Rightarrow> string option \<Rightarrow> nat \<Rightarrow> call_record" where
  "plain_record job sz hash status d err i =
     \<lparr>vr_id = i, vr_timestamp = 0, vr_capture = ij_capture job, vr_image_size = sz, vr_hash = hash,
      vr_status = status, vr_http_status = None, vr_latency = 0, vr_text = d, vr_error = err\<rparr>"

definition no_call :: "string \<Rightarrow> bool \<Rightarrow> image_result" where
  "no_call d hit =
     \<lparr>ir_description = d, ir_cache_hit = hit, ir_cache_miss = False, ir_vision_call = False,
      ir_latency = 0\<rparr>"

subsection \<open>Keys\<close>

definition encoder_version :: string where
  "encoder_version = ''bun-image-v3''"

definition image_query :: "vision_config \<Rightarrow> string \<Rightarrow> cache_query" where
  "image_query cfg bytes =
     \<lparr>cq_bytes = bytes, cq_recipe = recipe_from_config cfg, cq_encoder = encoder_version,
      cq_model = or_empty (vf_model cfg), cq_prompt_version = vf_prompt_version cfg\<rparr>"

definition context_hash :: "hasher \<Rightarrow> vision_config \<Rightarrow> vision_context option \<Rightarrow> string option" where
  "context_hash h cfg ctx =
     (case ctx of
        None \<Rightarrow> None
      | Some c \<Rightarrow>
          if context_strategy cfg ctx = Generic then None
          else if has_question cfg ctx then
            Some (sha h (or_empty (vc_question c) @ '':'' @ digits_of (vc_position c)))
          else if truthy_text (vc_adjacent c) then
            Some (sha h (or_empty (vc_adjacent c) @ '':'' @ digits_of (vc_position c) @ '':'' @
                         digits_of (vc_batch c) @ '':'' @ or_empty (vc_system c)))
          else None)"

subsection \<open>The pieces\<close>

text \<open>A lookup that computes nothing: \<open>compute\<close> throws \<open>CACHE_MISS\<close>.\<close>

definition peek_cache ::
  "'l lru \<Rightarrow> runtime \<Rightarrow> store_io \<Rightarrow> cache_query \<Rightarrow> string option \<Rightarrow> 'l dcache \<Rightarrow> string \<times> 'l dcache" where
  "peek_cache L rt io q ctx c =
     (let (r, c') = get_or_compute L (rt_cache rt) (io, io) q None None ctx c
      in ((case r of Found v \<Rightarrow> v | _ \<Rightarrow> []), c'))"

definition start_image ::
  "'l lru \<Rightarrow> runtime \<Rightarrow> vision_config \<Rightarrow> store_io \<Rightarrow> nat \<Rightarrow> image_job \<Rightarrow> 'l processor \<Rightarrow>
   phase \<times> 'l processor" where
  "start_image L rt cfg io tid job st =
     (let now = io_now io; part = ij_part job in
      if ip_encoding part = Url then
        (Finished (no_call (failure_placeholder F_Generic ''url images unsupported in v1'') False),
         add_record cfg now
           (plain_record job 0 None S_Skipped [] (Some ''url images unsupported in v1'')) st)
      else case rt_decode rt (ip_data part) of
        None \<Rightarrow>
          (Finished (no_call (failure_placeholder F_Parse ''invalid base64 image data'') False),
           add_record cfg now
             (plain_record job 0 None S_Parse_Error [] (Some ''invalid base64 image data'')) st)
      | Some bytes \<Rightarrow>
          (let q = image_query cfg bytes;
               key = query_key (rt_cache rt) q None;
               ctx = context_hash (ce_hasher (rt_cache rt)) cfg (ij_context job);
               (cached, c) = peek_cache L rt io q ctx (pr_cache st);
               st1 = st\<lparr>pr_cache := c\<rparr>
           in if cached \<noteq> [] then
                (Finished (no_call (wrap_description cached) True),
                 add_record cfg now
                   (plain_record job (length bytes) (Some (simple_hash bytes)) S_Cache_Hit cached None) st1)
              else case obj_get (pr_inflight st1) key of
                Some owner \<Rightarrow> (Waiting owner, st1)
              | None \<Rightarrow> (Transcoding key bytes, st1\<lparr>pr_inflight := obj_set (pr_inflight st1) key tid\<rparr>)))"

text \<open>The promise of another job is settled.\<close>

definition wake_image ::
  "runtime \<Rightarrow> vision_config \<Rightarrow> int \<Rightarrow> image_job \<Rightarrow> string \<Rightarrow> 'l processor \<Rightarrow> phase \<times> 'l processor" where
  "wake_image rt cfg now job desc st =
     (let bytes = or_empty (rt_decode rt (ip_data (ij_part job)))
      in (Finished (no_call (wrap_description desc) True),
          add_record cfg now
            (plain_record job (length bytes) (Some (simple_hash bytes)) S_Cache_Hit desc None) st))"

text \<open>\<open>resolveInflight\<close> and \<open>inflight.delete\<close>\<close>

definition settle_flight :: "nat \<Rightarrow> string \<Rightarrow> string \<Rightarrow> 'l processor \<Rightarrow> 'l processor" where
  "settle_flight tid key d st =
     st\<lparr>pr_settled := obj_set (pr_settled st) tid d, pr_inflight := obj_del (pr_inflight st) key\<rparr>"

text \<open>
  What \<open>transcode\<close> did, and what the insert of the capture row and the change of its state did:
  there is no database, they succeed with an id, the insert or the state change throws.
\<close>

datatype transcode_obs = Transcoded string | Transcode_Failed "string option"

datatype insert_obs = No_Database | Inserted nat | Insert_Throws | State_Throws nat

definition no_usage :: usage_columns where
  "no_usage = flatten_usage None None"

definition transcoded ::
  "vision_config \<Rightarrow> int \<Rightarrow> nat \<Rightarrow> image_job \<Rightarrow> string \<Rightarrow> string \<Rightarrow> transcode_obs \<Rightarrow> insert_obs \<Rightarrow>
   'l processor \<Rightarrow> phase \<times> 'l processor" where
  "transcoded cfg now tid job key bytes obs ins st =
     (case obs of
        Transcode_Failed code \<Rightarrow>
          (let err = (case code of Some c \<Rightarrow> ''transcode '' @ c | None \<Rightarrow> ''transcode failed'')
           in (Finished (no_call (failure_placeholder F_Generic err) False),
               settle_flight tid key []
                 (add_record cfg now
                    (plain_record job (length bytes) None S_Fetch_Error [] (Some err)) st)))
      | Transcoded img \<Rightarrow>
          (let row = Insert_Vision (of_int now) ''enqueued'' (of_int now)
                       (no_usage\<lparr>uc_model := Some (or_empty (vf_model cfg))\<rparr>)
           in case ins of
                Insert_Throws \<Rightarrow> (Failed, st)
              | State_Throws i \<Rightarrow> (Failed, st\<lparr>pr_ops := pr_ops st @ [row]\<rparr>)
              | No_Database \<Rightarrow> (Calling key bytes img now None, st)
              | Inserted i \<Rightarrow>
                  (Calling key bytes img now (Some i),
                   st\<lparr>pr_ops := pr_ops st @ [row, Set_State i ''streaming'']\<rparr>)))"

text \<open>
  The vision model has answered. The description goes through the cache under the key of the
  original bytes; a placeholder is not stored. \<open>upd\<close> tells whether the update of the row ran.
\<close>

definition answer_columns :: "vision_config \<Rightarrow> call_result \<Rightarrow> usage_columns" where
  "answer_columns cfg r = (flatten_usage (cr_usage r) (vf_model cfg))"

definition answered ::
  "'l lru \<Rightarrow> runtime \<Rightarrow> vision_config \<Rightarrow> store_io \<times> store_io \<Rightarrow> nat \<Rightarrow> image_job \<Rightarrow> phase \<Rightarrow>
   call_result \<Rightarrow> bool \<Rightarrow> 'l processor \<Rightarrow> phase \<times> 'l processor" where
  "answered L rt cfg io tid job ph r upd st =
     (case ph of
        Calling key bytes img started row \<Rightarrow>
          (let now = io_now (fst io);
               ctx = context_hash (ce_hasher (rt_cache rt)) cfg (ij_context job);
               (res, c) = get_or_compute L (rt_cache rt) io (image_query cfg bytes)
                            (Some (cr_description r)) (Some (\<lambda>d. \<not> is_failure_placeholder d)) ctx
                            (pr_cache st);
               st1 = st\<lparr>pr_cache := c\<rparr>;
               log = (\<lambda>ops s. case row of None \<Rightarrow> s | Some i \<Rightarrow> s\<lparr>pr_ops := pr_ops s @ ops i\<rparr>)
           in case res of
                Found stored \<Rightarrow>
                  (let st2 = settle_flight tid key stored st1;
                       st3 = log (\<lambda>i. if upd then [Update_Vision (of_int now) i (answer_columns cfg r)]
                                      else [Set_State i ''failed'']) st2
                   in (Finished \<lparr>ir_description = wrap_description stored, ir_cache_hit = False,
                                 ir_cache_miss = True, ir_vision_call = True,
                                 ir_latency = now - started\<rparr>,
                       add_record cfg now
                         (\<lambda>i. (plain_record job (length img) (Some (simple_hash img)) (cr_status r)
                                 (cr_description r) (cr_error r) i)
                              \<lparr>vr_http_status := cr_http_status r, vr_latency := now - started\<rparr>) st3))
              | _ \<Rightarrow> (Failed, settle_flight tid key [] (log (\<lambda>i. [Set_State i ''failed'']) st1)))
      | _ \<Rightarrow> (ph, st))"

text \<open>The crafted question of a call, from the crafting cache or from the crafting call.\<close>

definition crafted_question ::
  "hasher \<Rightarrow> vision_config \<Rightarrow> vision_context option \<Rightarrow> chat_obs \<Rightarrow> string obj \<Rightarrow> string option \<times> string obj" where
  "crafted_question h cfg ctx obs crafting =
     (case ctx of
        Some c \<Rightarrow>
          (if context_strategy cfg ctx = Crafted \<and> truthy_text (vc_adjacent c)
              \<and> truthy_text (vf_target cfg) \<and> truthy_text (vf_model cfg) then
             (let k = crafting_cache_key h (or_empty (vc_adjacent c)) (vc_system c)
              in case obj_get crafting k of
                   Some q \<Rightarrow> if q \<noteq> [] then (Some q, crafting)
                             else (case craft_vision_question obs of
                                     None \<Rightarrow> (None, crafting) | Some q \<Rightarrow> (Some q, obj_set crafting k q))
                 | None \<Rightarrow>
                     (case craft_vision_question obs of
                        None \<Rightarrow> (None, crafting) | Some q \<Rightarrow> (Some q, obj_set crafting k q)))
           else (None, crafting))
      | None \<Rightarrow> (None, crafting))"

definition ask_model ::
  "runtime \<Rightarrow> vision_config \<Rightarrow> image_job \<Rightarrow> string \<Rightarrow> chat_obs \<Rightarrow> vision_obs \<Rightarrow> 'l processor \<Rightarrow>
   call_result \<times> 'l processor" where
  "ask_model rt cfg job img craft obs st =
     (let (q, crafting) = crafted_question (ce_hasher (rt_cache rt)) cfg (ij_context job) craft (pr_crafting st)
      in (call_vision rt cfg (ij_context job) q img obs, st\<lparr>pr_crafting := crafting\<rparr>))"

end
