(* ===== verification/Vision_Handoff.thy ===== *)
theory Vision_Handoff
  imports Vision_Images
begin

text \<open>
  The handoff of one request body (\<open>src/vision/handoff.ts\<close>): gate on the catalogue, cheap signal,
  extraction, the limit on images, the decomposition of the question, one image after the other,
  and the rewriting of the cloned body; and the path that serves a body from the cache alone. The
  life of an image is the parameter \<open>proc\<close> (\<open>None\<close>: it threw), a function of a state that other
  requests may share; \<open>look\<close> is the cache-only lookup.
\<close>

record vision_stats =
  vs_handoffs :: nat
  vs_hits :: nat
  vs_misses :: nat
  vs_calls :: nat
  vs_latencies :: "int list"

definition no_stats :: vision_stats where
  "no_stats = \<lparr>vs_handoffs = 0, vs_hits = 0, vs_misses = 0, vs_calls = 0, vs_latencies = []\<rparr>"

record handoff_result =
  hr_body :: json
  hr_changed :: bool
  hr_stats :: vision_stats

definition untouched :: "json \<Rightarrow> handoff_result" where
  "untouched body = \<lparr>hr_body = body, hr_changed = False, hr_stats = no_stats\<rparr>"

subsection \<open>Recent messages\<close>

definition recent_message_max_chars :: nat where
  "recent_message_max_chars = 1000"

definition user_message_text :: "json \<Rightarrow> string" where
  "user_message_text msg =
     take recent_message_max_chars
       (case jget msg ''content'' of
          Some (JStr s) \<Rightarrow> s
        | Some (JArr ps) \<Rightarrow> concat_text_blocks ps
        | _ \<Rightarrow> [])"

definition extract_recent_user_messages :: "json \<Rightarrow> nat \<Rightarrow> (string \<times> string) list" where
  "extract_recent_user_messages body n =
     (case jarr (jget body ''messages'') of
        None \<Rightarrow> []
      | Some msgs \<Rightarrow>
          (let users = map (\<lambda>m. (''user'', user_message_text m))
                         (filter (\<lambda>m. is_object m \<and> jstr (jget m ''role'') = Some ''user'') msgs)
           in drop (length users - n) users))"

subsection \<open>Gates before any work\<close>

definition catalog_declines ::
  "vision_config \<Rightarrow> (string \<Rightarrow> vision_tristate option) option \<Rightarrow> api_kind \<Rightarrow> string option \<Rightarrow> bool" where
  "catalog_declines cfg catalog kind model =
     (case (vf_strategy cfg, catalog) of
        (Catalog, Some support) \<Rightarrow>
          truthy_text model \<and> \<not> should_rewrite Catalog (support (the model)) kind (vf_force cfg)
      | _ \<Rightarrow> False)"

definition body_text :: "runtime \<Rightarrow> json \<Rightarrow> string" where
  "body_text rt body =
     (case body of JStr s \<Rightarrow> s | _ \<Rightarrow> json_text (num_text (ce_hasher (rt_cache rt))) body)"

text \<open>The image parts to work on; none: the body is forwarded as it is.\<close>

definition parts_to_describe ::
  "runtime \<Rightarrow> vision_config \<Rightarrow> (string \<Rightarrow> vision_tristate option) option \<Rightarrow> api_kind \<Rightarrow> string option \<Rightarrow>
   json \<Rightarrow> image_part list" where
  "parts_to_describe rt cfg catalog kind model body =
     (if catalog_declines cfg catalog kind model then []
      else if \<not> cheap_image_signal (body_text rt body) then []
      else find_parts kind body)"

subsection \<open>The batch\<close>

definition batch_system :: "vision_config \<Rightarrow> image_part list \<Rightarrow> string option" where
  "batch_system cfg kept =
     (case kept of
        [] \<Rightarrow> None
      | p # _ \<Rightarrow> (if truthy_text (ip_system p)
                  then Some (take (case vf_system_max cfg of None \<Rightarrow> 1000 | Some n \<Rightarrow> n) (the (ip_system p)))
                  else None))"

definition batch_question :: "image_part list \<Rightarrow> string" where
  "batch_question kept = (case kept of [] \<Rightarrow> [] | p # _ \<Rightarrow> or_empty (ip_adjacent p))"

text \<open>One question per image, from the cache of the session or from one call.\<close>

definition batch_questions ::
  "runtime \<Rightarrow> vision_config \<Rightarrow> image_part list \<Rightarrow> chat_obs \<Rightarrow> string list obj \<Rightarrow>
   string list option \<times> string list obj" where
  "batch_questions rt cfg kept obs cache =
     (let q = batch_question kept; n = length kept; sys = batch_system cfg kept;
          triage = resolve_triage (vf_intent cfg)
            \<lparr>ti_adjacent = Some q, ti_tool_result = (case kept of [] \<Rightarrow> False | p # _ \<Rightarrow> ip_tool_result p),
             ti_count = n\<rparr>
      in if triage = Decomposed \<and> (case vf_decomposition cfg of None \<Rightarrow> True | Some b \<Rightarrow> b) then
           (let k = decomposition_cache_key (ce_hasher (rt_cache rt)) q n sys
            in case obj_get cache k of
                 Some qs \<Rightarrow> (Some qs, cache)
               | None \<Rightarrow>
                   (case decompose_if_needed (rt_parse rt) n obs of
                      None \<Rightarrow> (None, cache)
                    | Some qs \<Rightarrow> (Some qs, obj_set cache k qs)))
         else (None, cache))"

definition image_context ::
  "vision_config \<Rightarrow> image_part list \<Rightarrow> (string \<times> string) list \<Rightarrow> string list option \<Rightarrow> image_part \<Rightarrow>
   vision_context" where
  "image_context cfg kept recent questions p =
     \<lparr>vc_adjacent = ip_adjacent p, vc_tool_result = ip_tool_result p, vc_position = ip_position p,
      vc_batch = ip_batch p, vc_recent = recent,
      vc_question = (case questions of
                       None \<Rightarrow> None
                     | Some qs \<Rightarrow> if 1 \<le> ip_position p \<and> ip_position p \<le> length qs
                                  then Some (qs ! (ip_position p - 1)) else None),
      vc_system = batch_system cfg kept\<rparr>"

definition unexpected_error :: image_result where
  "unexpected_error = no_call (failure_placeholder F_Generic ''unexpected error'') False"

text \<open>One image after the other; an exception becomes a placeholder.\<close>

fun process_parts ::
  "(image_part \<Rightarrow> 's \<Rightarrow> image_result option \<times> 's) \<Rightarrow> image_part list \<Rightarrow> 's \<Rightarrow> image_result list \<times> 's" where
  "process_parts proc [] s = ([], s)"
| "process_parts proc (p # ps) s =
     (let (r, s1) = proc p s;
          (rs, s2) = process_parts proc ps s1
      in ((case r of None \<Rightarrow> unexpected_error | Some r \<Rightarrow> r) # rs, s2))"

definition tally_results :: "nat \<Rightarrow> image_result list \<Rightarrow> vision_stats" where
  "tally_results n rs =
     \<lparr>vs_handoffs = n, vs_hits = length (filter ir_cache_hit rs),
      vs_misses = length (filter ir_cache_miss rs), vs_calls = length (filter ir_vision_call rs),
      vs_latencies = map ir_latency (filter ir_vision_call rs)\<rparr>"

definition positions_of :: "image_part list \<Rightarrow> (nat \<times> nat) list" where
  "positions_of kept = map (\<lambda>p. (ip_position p, ip_batch p)) kept"

definition process_body ::
  "runtime \<Rightarrow> vision_config \<Rightarrow> (string \<Rightarrow> vision_tristate option) option \<Rightarrow>
   (image_part \<Rightarrow> vision_context \<Rightarrow> 's \<Rightarrow> image_result option \<times> 's) \<Rightarrow>
   api_kind \<Rightarrow> string option \<Rightarrow> chat_obs \<Rightarrow> json \<Rightarrow> string list obj \<times> 's \<Rightarrow>
   handoff_result \<times> string list obj \<times> 's" where
  "process_body rt cfg catalog proc kind model obs body st =
     (let (cache, s) = st;
          parts = parts_to_describe rt cfg catalog kind model body
      in if parts = [] then (untouched body, cache, s)
         else
         (let (kept, overflow) = apply_max_images_policy parts (vf_max_images cfg);
              recent = extract_recent_user_messages body
                         (case vf_recent_count cfg of None \<Rightarrow> 6 | Some n \<Rightarrow> n);
              (questions, cache') = batch_questions rt cfg kept obs cache;
              (rs, s') = process_parts (\<lambda>p. proc p (image_context cfg kept recent questions p)) kept s
          in (\<lparr>hr_body = replace_image_blocks (json_clone body) kind (map ir_description rs) overflow
                           (Some (positions_of kept)),
               hr_changed = True, hr_stats = tally_results (length kept) rs\<rparr>, cache', s')))"

subsection \<open>From the cache alone\<close>

text \<open>The descriptions of all parts, or \<open>None\<close> at the first that the cache cannot serve.\<close>

fun cached_descriptions ::
  "runtime \<Rightarrow> vision_config \<Rightarrow> (cache_query \<Rightarrow> 's \<Rightarrow> string \<times> 's) \<Rightarrow> image_part list \<Rightarrow> 's \<Rightarrow>
   string list option \<times> 's" where
  "cached_descriptions rt cfg look [] s = (Some [], s)"
| "cached_descriptions rt cfg look (p # ps) s =
     (if ip_encoding p = Url then (None, s)
      else case rt_decode rt (ip_data p) of
        None \<Rightarrow> (None, s)
      | Some bytes \<Rightarrow>
          (let (v, s1) = look (image_query cfg bytes) s
           in if v = [] then (None, s1)
              else let (r, s2) = cached_descriptions rt cfg look ps s1
                   in (map_option ((#) (wrap_description v)) r, s2)))"

definition process_body_cache_only ::
  "runtime \<Rightarrow> vision_config \<Rightarrow> (string \<Rightarrow> vision_tristate option) option \<Rightarrow>
   (image_part \<Rightarrow> vision_context \<Rightarrow> 's \<Rightarrow> image_result option \<times> 's) \<Rightarrow> (cache_query \<Rightarrow> 's \<Rightarrow> string \<times> 's) \<Rightarrow>
   api_kind \<Rightarrow> string option \<Rightarrow> chat_obs \<Rightarrow> json \<Rightarrow> string list obj \<times> 's \<Rightarrow>
   handoff_result \<times> string list obj \<times> 's" where
  "process_body_cache_only rt cfg catalog proc look kind model obs body st =
     (let (cache, s) = st;
          parts = parts_to_describe rt cfg catalog kind model body
      in if parts = [] then (untouched body, cache, s)
         else
         (let kept = fst (apply_max_images_policy parts (vf_max_images cfg));
              (found, s') = cached_descriptions rt cfg look kept s
          in case found of
               None \<Rightarrow> process_body rt cfg catalog proc kind model obs body (cache, s')
             | Some ds \<Rightarrow>
                 (\<lparr>hr_body = replace_image_blocks (json_clone body) kind ds [] (Some (positions_of kept)),
                   hr_changed = True,
                   hr_stats = no_stats\<lparr>vs_handoffs := length kept, vs_hits := length kept\<rparr>\<rparr>,
                  cache, s')))"

end
