(* ===== verification/Vision_Laws.thy ===== *)
theory Vision_Laws
  imports Vision_Handoff
begin

text \<open>
  Laws of the walkers over a body: the blocks of a body in document order (its leaves, nested
  content flattened), what the extraction reads off them, and what the replacement does to them.
\<close>

subsection \<open>The blocks of a body\<close>

definition nested :: "api_kind \<Rightarrow> json \<Rightarrow> json list option" where
  "nested kind p = (if kind = Api_Anthropic then tool_content p else None)"

lemma nested_size: "nested kind p = Some cs \<Longrightarrow> size_list size cs < size p"
  by (auto simp: nested_def dest: tool_content_size split: if_splits)

function leaves :: "api_kind \<Rightarrow> json list \<Rightarrow> json list" where
  "leaves kind [] = []"
| "leaves kind (p # ps) =
     (case nested kind p of
        None \<Rightarrow> p # leaves kind ps
      | Some cs \<Rightarrow> jdel p ''content'' # leaves kind cs @ leaves kind ps)"
  by pat_completeness auto
termination
  by (relation "measure (\<lambda>(_, ps). size_list size ps)") (auto dest: nested_size)

definition message_leaves :: "api_kind \<Rightarrow> json \<Rightarrow> json list" where
  "message_leaves kind msg =
     (case jarr (jget msg ''content'') of None \<Rightarrow> [] | Some c \<Rightarrow> leaves kind c)"

definition body_leaves :: "api_kind \<Rightarrow> json \<Rightarrow> json list" where
  "body_leaves kind body =
     (case jarr (jget body ''messages'') of
        None \<Rightarrow> [] | Some msgs \<Rightarrow> concat (map (message_leaves kind) msgs))"

definition is_image :: "api_kind \<Rightarrow> json \<Rightarrow> bool" where
  "is_image kind p = type_is p (case kind of Api_Openai \<Rightarrow> ''image_url'' | Api_Anthropic \<Rightarrow> ''image'')"

abbreviation images_of :: "api_kind \<Rightarrow> json list \<Rightarrow> json list" where
  "images_of kind ps \<equiv> filter (is_image kind) ps"

text \<open>The blocks \<open>ts\<close> in place of the first images of a list of blocks.\<close>

fun put :: "api_kind \<Rightarrow> json list \<Rightarrow> json list \<Rightarrow> json list" where
  "put kind [] ps = ps"
| "put kind ts [] = []"
| "put kind (t # ts) (p # ps) =
     (if is_image kind p then t # put kind ts ps else p # put kind (t # ts) ps)"

definition image_text :: "api_kind \<Rightarrow> string \<Rightarrow> json" where
  "image_text kind t = (case kind of Api_Openai \<Rightarrow> text_block t | Api_Anthropic \<Rightarrow> cached_text_block t)"

lemma put_Nil [simp]: "put kind ts [] = []"
  by (cases ts) simp_all

lemma put_skip: "\<not> is_image kind p \<Longrightarrow> put kind ts (p # ps) = p # put kind ts ps"
  by (cases ts) simp_all

lemma put_append:
  "put kind ts (xs @ ys) = put kind ts xs @ put kind (drop (length (images_of kind xs)) ts) ys"
  by (induction kind ts xs rule: put.induct) auto

lemma put_no_images: "images_of kind ps = [] \<Longrightarrow> put kind ts ps = ps"
  by (induction kind ts ps rule: put.induct) (auto split: if_splits)

lemma images_put:
  "\<forall>t\<in>set ts. \<not> is_image kind t \<Longrightarrow>
   images_of kind (put kind ts ps) = drop (length ts) (images_of kind ps)"
  by (induction kind ts ps rule: put.induct) auto

lemma length_put [simp]: "length (put kind ts ps) = length ps"
  by (induction kind ts ps rule: put.induct) auto

lemma type_is_object: "type_is p t \<Longrightarrow> is_object p"
  using jget_Some_obj [of p "''type''"] by (auto simp: type_is_def jstr_Some)

lemma type_is_unique: "type_is p t \<Longrightarrow> type_is p t' \<longleftrightarrow> t' = t"
  by (auto simp: type_is_def)

lemma type_is_jset [simp]: "k \<noteq> ''type'' \<Longrightarrow> type_is (jset p k x) t = type_is p t"
  by (simp add: type_is_def)

lemma type_is_jdel [simp]: "k \<noteq> ''type'' \<Longrightarrow> type_is (jdel p k) t = type_is p t"
  by (simp add: type_is_def)

lemma type_is_clone [simp]: "type_is (json_clone p) t = type_is p t"
  by (simp add: type_is_def)

lemma is_image_clone [simp]: "is_image kind (json_clone p) = is_image kind p"
  by (simp add: is_image_def)

lemma type_is_block [simp]:
  "type_is (text_block s) t = (t = ''text'')" "type_is (cached_text_block s) t = (t = ''text'')"
  by (auto simp: type_is_def text_block_def cached_text_block_def)

lemma text_not_image [simp]:
  "\<not> is_image kind (image_text kind t)" "\<not> is_image kind (text_block t)"
  by (auto simp: is_image_def image_text_def split: api_kind.splits)

lemma nested_text [simp]: "nested kind (image_text kind t) = None" "nested kind (text_block t) = None"
  by (auto simp: nested_def tool_content_def image_text_def split: api_kind.splits)

lemma image_not_nested: "is_image kind p \<Longrightarrow> nested kind p = None"
  by (auto simp: is_image_def nested_def tool_content_def type_is_unique split: api_kind.splits)

lemma nested_Some:
  "nested kind p = Some cs \<Longrightarrow>
   kind = Api_Anthropic \<and> type_is p ''tool_result'' \<and> jget p ''content'' = Some (JArr cs)"
  by (auto simp: nested_def tool_content_def jarr_Some split: if_splits)

lemma nested_not_image: "nested kind p = Some cs \<Longrightarrow> \<not> is_image kind p"
  using image_not_nested by fastforce

lemma nested_jset:
  "nested kind p = Some cs \<Longrightarrow> nested kind (jset p ''content'' (JArr cs')) = Some cs'"
proof -
  assume n: "nested kind p = Some cs"
  note s = nested_Some [OF n]
  then obtain d where "p = JObj d" using jget_Some_obj by blast
  then show ?thesis using s by (auto simp: nested_def tool_content_def type_is_def)
qed

lemma jdel_jset [simp]: "jdel (jset p k x) k = jdel p k"
proof (cases p)
  case (JObj d)
  have "obj_del (obj_set d k x) k = obj_del d k"
    unfolding obj_del_def by (induction d k x rule: obj_set.induct) auto
  then show ?thesis by (simp add: JObj)
qed simp_all

lemma nested_jdel [simp]: "\<not> is_image kind p \<Longrightarrow> \<not> is_image kind (jdel p ''content'')"
  by (auto simp: is_image_def split: api_kind.splits)

subsection \<open>Replacement\<close>

text \<open>The text in place of the image the cursor points at.\<close>

definition label :: "string list \<Rightarrow> (nat \<times> nat) list option \<Rightarrow> api_kind \<Rightarrow> nat \<Rightarrow> json" where
  "label descs positions kind i = image_text kind (wrap_with_position descs i positions)"

definition labels_from :: "string list \<Rightarrow> (nat \<times> nat) list option \<Rightarrow> api_kind \<Rightarrow> nat \<Rightarrow> json list" where
  "labels_from descs positions kind i = map (label descs positions kind) [i..<length descs]"

lemma labels_from_Cons:
  "i < length descs \<Longrightarrow>
   labels_from descs positions kind i =
     label descs positions kind i # labels_from descs positions kind (Suc i)"
  by (simp add: labels_from_def upt_conv_Cons)

lemma labels_from_end: "length descs \<le> i \<Longrightarrow> labels_from descs positions kind i = []"
  by (simp add: labels_from_def)

lemma drop_labels: "drop n (labels_from descs positions kind i) = labels_from descs positions kind (i + n)"
  by (simp add: labels_from_def drop_map)

lemma labels_min: "labels_from descs positions kind (min (length descs) j) = labels_from descs positions kind j"
  by (simp add: labels_from_def min_def)

lemma labels_not_images: "\<forall>t\<in>set (labels_from descs positions kind i). \<not> is_image kind t"
  by (simp add: labels_from_def label_def)

lemma length_labels [simp]: "length (labels_from descs positions kind i) = length descs - i"
  by (simp add: labels_from_def)

text \<open>The replacement, in terms of \<open>nested\<close> and \<open>is_image\<close>.\<close>

lemma replace_Cons:
  "replace_in_content kind descs positions i (p # ps) =
   (if is_image kind p \<and> i < length descs then
      (let (i', ps') = replace_in_content kind descs positions (Suc i) ps
       in (i', label descs positions kind i # ps'))
    else case nested kind p of
      None \<Rightarrow> (let (i', ps') = replace_in_content kind descs positions i ps in (i', p # ps'))
    | Some cs \<Rightarrow>
        (let (i1, cs') = replace_in_content kind descs positions i cs;
             (i2, ps') = replace_in_content kind descs positions i1 ps
         in (i2, jset p ''content'' (JArr cs') # ps')))"
proof (cases "is_object p")
  case False
  then have "\<not> type_is p t" for t using type_is_object by blast
  then show ?thesis
    using False by (simp add: is_image_def nested_def tool_content_def)
next
  case True
  then show ?thesis
    using image_not_nested [of kind p]
    by (cases kind) (auto simp: is_image_def nested_def label_def image_text_def)
qed

declare replace_in_content.simps(2) [simp del]

lemma replace_leaves:
  assumes "i \<le> length descs"
  shows "case replace_in_content kind descs positions i ps of (i', ps') \<Rightarrow>
     i' = min (length descs) (i + length (images_of kind (leaves kind ps))) \<and>
     leaves kind ps' = put kind (labels_from descs positions kind i) (leaves kind ps)"
  using assms
proof (induction kind ps arbitrary: i rule: leaves.induct)
  case (2 kind p ps)
  show ?case
  proof (cases "nested kind p")
    case None
    show ?thesis
    proof (cases "is_image kind p \<and> i < length descs")
      case True
      obtain i' ps' where r: "replace_in_content kind descs positions (Suc i) ps = (i', ps')" by force
      have "Suc i \<le> length descs" using True by simp
      from "2.IH" (1) [OF None this] r show ?thesis
        using True None
        by (simp add: replace_Cons labels_from_Cons label_def)
    next
      case False
      obtain i' ps' where r: "replace_in_content kind descs positions i ps = (i', ps')" by force
      from "2.IH" (1) [OF None "2.prems"] r False None "2.prems" show ?thesis
        by (auto simp: replace_Cons put_skip labels_from_end put_no_images)
    qed
  next
    case (Some cs)
    obtain i1 cs' where r1: "replace_in_content kind descs positions i cs = (i1, cs')" by force
    obtain i2 ps' where r2: "replace_in_content kind descs positions i1 ps = (i2, ps')" by force
    note ih1 = "2.IH" (2) [OF Some "2.prems", unfolded r1 prod.case]
    have le: "i1 \<le> length descs" using ih1 by simp
    note ih2 = "2.IH" (3) [OF Some le, unfolded r2 prod.case]
    have ni: "\<not> is_image kind p" by (rule nested_not_image [OF Some])
    have rep: "replace_in_content kind descs positions i (p # ps) = (i2, jset p ''content'' (JArr cs') # ps')"
      using ni Some by (simp add: replace_Cons r1 r2)
    have "i2 = min (length descs) (i + length (images_of kind (leaves kind (p # ps))))"
      using ih1 ih2 Some ni by (simp add: min_def)
    moreover have "leaves kind (jset p ''content'' (JArr cs') # ps') =
        put kind (labels_from descs positions kind i) (leaves kind (p # ps))"
      using ih1 ih2 Some ni nested_jset [OF Some, of cs']
      by (simp add: labels_min drop_labels put_skip put_append)
    ultimately show ?thesis by (simp add: rep)
  qed
qed simp

lemma replace_leavesD:
  assumes "replace_in_content kind descs positions i ps = (i', ps')" "i \<le> length descs"
  shows "i' = min (length descs) (i + length (images_of kind (leaves kind ps)))"
    "leaves kind ps' = put kind (labels_from descs positions kind i) (leaves kind ps)"
  using replace_leaves [OF assms(2), where kind = kind and positions = positions and ps = ps] assms(1) by simp_all

lemma leaves_append [simp]: "leaves kind (xs @ ys) = leaves kind xs @ leaves kind ys"
  by (induction xs) (auto split: option.splits)

text \<open>One message: the cursor advances by its images; the overflow text may follow its blocks.\<close>

lemma message_content: "jarr (jget msg ''content'') = Some c \<Longrightarrow> is_object msg"
  using jget_Some_obj [of msg "''content''"] by (auto simp: jarr_Some)

lemma message_leaves_jset:
  "jarr (jget msg ''content'') = Some c \<Longrightarrow>
   message_leaves kind (jset msg ''content'' (JArr c')) = leaves kind c'"
  using jget_Some_obj [of msg "''content''"] by (auto simp: message_leaves_def jarr_Some)

definition overflow_block :: "string list \<Rightarrow> json list" where
  "overflow_block overflow = [text_block (join_lines overflow)]"

lemma replace_message:
  assumes "i \<le> length descs"
  shows "case replace_in_message kind descs overflow positions msg (i, oi) of ((i', oi'), msg') \<Rightarrow>
     i' = min (length descs) (i + length (images_of kind (message_leaves kind msg))) \<and>
     (\<exists>extra. message_leaves kind msg' =
        put kind (labels_from descs positions kind i) (message_leaves kind msg) @ extra \<and>
        extra \<in> {[], overflow_block overflow} \<and>
        (join_lines overflow = [] \<longrightarrow> extra = []))"
proof (cases "jarr (jget msg ''content'')")
  case None
  then show ?thesis
    using assms by (simp add: replace_in_message_def message_leaves_def)
next
  case (Some c)
  obtain i' c' where r: "replace_in_content kind descs positions i c = (i', c')" by force
  have "leaves kind [text_block t] = [text_block t]" for t by simp
  then show ?thesis
    using replace_leavesD [OF r assms] message_content [OF Some] message_leaves_jset [OF Some, of kind] Some
    by (simp add: replace_in_message_def r Let_def message_leaves_def overflow_block_def)
qed

text \<open>All messages: the images get the labels in order; without overflow nothing else changes.\<close>

lemma replace_messages_plain:
  assumes "i \<le> length descs"
  shows "concat (map (message_leaves kind) (replace_in_messages kind descs [] positions msgs (i, oi))) =
    put kind (labels_from descs positions kind i) (concat (map (message_leaves kind) msgs))"
  using assms
proof (induction msgs arbitrary: i oi)
  case (Cons m ms)
  obtain i' oi' m' where r: "replace_in_message kind descs [] positions m (i, oi) = ((i', oi'), m')"
    by (metis prod.exhaust)
  note rm = replace_message [OF Cons.prems, where kind = kind and overflow = "[]" and positions = positions
      and msg = m and oi = oi, unfolded r prod.case]
  have i': "i' = min (length descs) (i + length (images_of kind (message_leaves kind m)))"
    using rm by blast
  have m': "message_leaves kind m' = put kind (labels_from descs positions kind i) (message_leaves kind m)"
    using rm by (auto simp: join_lines_def)
  have "concat (map (message_leaves kind) (replace_in_messages kind descs [] positions ms (i', oi'))) =
    put kind (labels_from descs positions kind i') (concat (map (message_leaves kind) ms))"
    using i' by (intro Cons.IH) simp
  then show ?case
    by (simp add: r m' put_append drop_labels) (simp add: i' labels_min)
qed simp

lemma replace_messages_images:
  assumes "i \<le> length descs"
  shows "images_of kind (concat (map (message_leaves kind)
      (replace_in_messages kind descs overflow positions msgs (i, oi)))) =
    drop (length descs - i) (images_of kind (concat (map (message_leaves kind) msgs)))"
  using assms
proof (induction msgs arbitrary: i oi)
  case (Cons m ms)
  obtain i' oi' m' where r: "replace_in_message kind descs overflow positions m (i, oi) = ((i', oi'), m')"
    by (metis prod.exhaust)
  note rm = replace_message [OF Cons.prems, where kind = kind and overflow = overflow and positions = positions
      and msg = m and oi = oi, unfolded r prod.case]
  have i': "i' = min (length descs) (i + length (images_of kind (message_leaves kind m)))"
    using rm by blast
  have m': "images_of kind (message_leaves kind m') =
      drop (length descs - i) (images_of kind (message_leaves kind m))"
    using rm images_put [OF labels_not_images [of descs positions kind i], of "message_leaves kind m"]
    by (auto simp: overflow_block_def)
  have "images_of kind (concat (map (message_leaves kind)
          (replace_in_messages kind descs overflow positions ms (i', oi')))) =
      drop (length descs - i') (images_of kind (concat (map (message_leaves kind) ms)))"
    using i' by (intro Cons.IH) simp
  moreover have "length descs - i' = length descs - i - length (images_of kind (message_leaves kind m))"
    using i' by (simp add: min_def)
  ultimately show ?case by (simp add: r m')
qed simp

lemma body_leaves_jset:
  "jarr (jget body ''messages'') = Some msgs \<Longrightarrow>
   body_leaves kind (jset body ''messages'' (JArr ms)) = concat (map (message_leaves kind) ms)"
  using jget_Some_obj [of body "''messages''"] by (auto simp: body_leaves_def jarr_Some)

lemma replace_body_plain:
  "body_leaves kind (replace_image_blocks body kind descs [] positions) =
   put kind (labels_from descs positions kind 0) (body_leaves kind body)"
proof (cases "jarr (jget body ''messages'')")
  case (Some msgs)
  then show ?thesis
    using replace_messages_plain [of 0 descs kind positions msgs 0] body_leaves_jset [OF Some, of kind]
    by (simp add: replace_image_blocks_def body_leaves_def)
qed (simp add: replace_image_blocks_def body_leaves_def)

lemma replace_body_images:
  "images_of kind (body_leaves kind (replace_image_blocks body kind descs overflow positions)) =
   drop (length descs) (images_of kind (body_leaves kind body))"
proof (cases "jarr (jget body ''messages'')")
  case (Some msgs)
  then show ?thesis
    using replace_messages_images [of 0 descs kind overflow positions msgs 0] body_leaves_jset [OF Some, of kind]
    by (simp add: replace_image_blocks_def body_leaves_def)
qed (simp add: replace_image_blocks_def body_leaves_def)

subsection \<open>The clone\<close>

lemma nested_clone: "nested kind (json_clone p) = map_option (map json_clone) (nested kind p)"
  by (simp add: nested_def tool_content_def)

lemma leaves_clone: "leaves kind (map json_clone ps) = map json_clone (leaves kind ps)"
  by (induction kind ps rule: leaves.induct)
     (auto simp: nested_clone jdel_clone split: option.splits)

lemma message_leaves_clone: "message_leaves kind (json_clone m) = map json_clone (message_leaves kind m)"
  by (simp add: message_leaves_def leaves_clone split: option.splits)

lemma body_leaves_clone: "body_leaves kind (json_clone b) = map json_clone (body_leaves kind b)"
  by (simp add: body_leaves_def map_concat message_leaves_clone o_def split: option.splits)

lemma images_clone: "images_of kind (map json_clone ps) = map json_clone (images_of kind ps)"
  by (simp add: filter_map o_def)

subsection \<open>What the extraction reads off the blocks\<close>

text \<open>The encoding and the data of an image block; \<open>None\<close>: the extraction skips it.\<close>

definition leaf_image :: "api_kind \<Rightarrow> json \<Rightarrow> (encoding \<times> string) option" where
  "leaf_image kind p =
     (case kind of
        Api_Anthropic \<Rightarrow>
          (case image_source p of
             None \<Rightarrow> None
           | Some src \<Rightarrow>
               if type_is src ''base64'' then Some (Base64, or_empty (jstr (jget src ''data'')))
               else if type_is src ''url'' then Some (Url, or_empty (jstr (jget src ''url'')))
               else None)
      | Api_Openai \<Rightarrow>
          if image_url_of p = [] then None
          else case data_url (image_url_of p) of
                 Some (mt, d) \<Rightarrow> Some (Base64, d) | None \<Rightarrow> Some (Url, image_url_of p))"

definition part_image :: "image_part \<Rightarrow> encoding \<times> string" where
  "part_image p = (ip_encoding p, ip_data p)"

lemma count_is_images: "count_images ps = length (images_of Api_Anthropic (leaves Api_Anthropic ps))"
proof (induction "Api_Anthropic" ps rule: leaves.induct)
  case (2 p ps)
  show ?case
  proof (cases "is_object p")
    case False
    then have "\<not> type_is p t" for t using type_is_object by blast
    then show ?thesis using 2 False by (simp add: nested_def tool_content_def is_image_def)
  next
    case True
    then show ?thesis
      using 2 image_not_nested [of Api_Anthropic p]
      by (auto simp: nested_def is_image_def split: option.splits)
  qed
qed simp

lemma anthropic_part_image:
  "map_option part_image (anthropic_part src adj b sys tool pos) =
   (if type_is src ''base64'' then Some (Base64, or_empty (jstr (jget src ''data'')))
    else if type_is src ''url'' then Some (Url, or_empty (jstr (jget src ''url''))) else None)"
  by (simp add: anthropic_part_def part_image_def Let_def or_empty_def)

lemma anthropic_part_position:
  "anthropic_part src adj b sys tool pos = Some ip \<Longrightarrow> ip_position ip = pos \<and> ip_batch ip = b"
  by (auto simp: anthropic_part_def Let_def split: if_splits)

lemma map_filter_Cons:
  "List.map_filter f (x # xs) = (case f x of None \<Rightarrow> [] | Some y \<Rightarrow> [y]) @ List.map_filter f xs"
  by (simp add: List.map_filter_def split: option.splits)

lemma map_filter_append [simp]:
  "List.map_filter f (xs @ ys) = List.map_filter f xs @ List.map_filter f ys"
  by (simp add: List.map_filter_def)

lemma map_filter_Nil [simp]: "List.map_filter f [] = []"
  by (simp add: List.map_filter_def)

lemma source_is_image: "image_source p = Some src \<Longrightarrow> is_image Api_Anthropic p"
  by (auto simp: image_source_def is_image_def split: if_splits)

lemma emit_anthropic_spec:
  "case emit_anthropic adj b sys tool pos ps of (pos', out) \<Rightarrow>
     pos \<le> pos' \<and> pos' \<le> pos + length (images_of Api_Anthropic (leaves Api_Anthropic ps)) \<and>
     map part_image out =
       List.map_filter (leaf_image Api_Anthropic) (images_of Api_Anthropic (leaves Api_Anthropic ps)) \<and>
     (\<forall>ip\<in>set out. pos < ip_position ip \<and> ip_position ip \<le> pos' \<and> ip_batch ip = b)"
proof (induction adj b sys tool pos ps rule: emit_anthropic.induct)
  case (2 adj b sys tool pos p ps)
  show ?case
  proof (cases "image_source p")
    case (Some src)
    have o: "is_object p" "is_image Api_Anthropic p" "nested Api_Anthropic p = None"
      using source_is_image [OF Some] image_not_nested type_is_object by (auto simp: is_image_def)
    obtain pos' out where r: "emit_anthropic adj b sys tool (Suc pos) ps = (pos', out)" by force
    have li: "leaf_image Api_Anthropic p =
        map_option part_image (anthropic_part src adj b sys tool (Suc pos))"
      by (simp add: leaf_image_def Some anthropic_part_image)
    from "2.IH" (5) [OF _ Some] r o(1) Some show ?thesis
      using o li anthropic_part_position [of src adj b sys tool "Suc pos"]
      by (auto simp: map_filter_Cons split: option.splits)
  next
    case None
    show ?thesis
    proof (cases "is_object p \<and> nested Api_Anthropic p \<noteq> None")
      case True
      then obtain cs where cs: "nested Api_Anthropic p = Some cs" by blast
      obtain p1 o1 where r1: "emit_anthropic adj b sys True pos cs = (p1, o1)" by force
      obtain p2 o2 where r2: "emit_anthropic adj b sys tool p1 ps = (p2, o2)" by force
      have tc: "tool_content p = Some cs" using cs by (simp add: nested_def)
      from "2.IH" (3) [OF _ None tc] "2.IH" (4) [OF _ None tc, of "(p1, o1)" p1 o1] r1 r2 True
      show ?thesis
        using nested_not_image [OF cs] by (auto simp: None cs tc)
    next
      case False
      then have n: "nested Api_Anthropic p = None"
        using type_is_object by (auto simp: nested_def tool_content_def split: if_splits)
      have li: "is_image Api_Anthropic p \<Longrightarrow> leaf_image Api_Anthropic p = None"
        by (simp add: leaf_image_def None)
      have tc: "tool_content p = None" using n by (simp add: nested_def)
      obtain p1 o1 where r1: "emit_anthropic adj b sys tool pos ps = (p1, o1)" by force
      from "2.IH" (1) "2.IH" (2) [OF _ None tc] r1 show ?thesis
        using n li tc None by (cases "is_object p") (auto simp: map_filter_Cons)
    qed
  qed
qed simp

lemma emit_openai_spec:
  "map part_image (emit_openai adj b sys pos ps) =
     List.map_filter (leaf_image Api_Openai) (images_of Api_Openai ps) \<and>
   (\<forall>ip\<in>set (emit_openai adj b sys pos ps). pos < ip_position ip \<and>
      ip_position ip \<le> pos + length (images_of Api_Openai ps) \<and> ip_batch ip = b)"
proof (induction adj b sys pos ps rule: emit_openai.induct)
  case (2 adj b sys pos p ps)
  have im: "is_image_url p = is_image Api_Openai p"
    using type_is_object by (auto simp: is_image_url_def is_image_def)
  have pi: "part_image (openai_part u adj b sys i) =
      (case data_url u of Some (mt, d) \<Rightarrow> (Base64, d) | None \<Rightarrow> (Url, u))"
    "ip_position (openai_part u adj b sys i) = i" "ip_batch (openai_part u adj b sys i) = b" for u i
    by (auto simp: openai_part_def part_image_def Let_def split: option.splits)
  show ?case
    using 2 by (auto simp: im pi map_filter_Cons leaf_image_def dest: Suc_lessD intro: le_SucI split: option.splits)
qed simp

lemma leaves_openai [simp]: "leaves Api_Openai ps = ps"
  by (induction ps) (simp_all add: nested_def)

lemma images_url: "filter is_image_url ps = images_of Api_Openai ps"
  by (rule filter_cong [OF refl]) (auto simp: is_image_url_def is_image_def dest: type_is_object)

lemma anthropic_message_spec:
  "map part_image (anthropic_message_parts sys n m) =
     List.map_filter (leaf_image Api_Anthropic) (images_of Api_Anthropic (message_leaves Api_Anthropic m)) \<and>
   (\<forall>ip\<in>set (anthropic_message_parts sys n m). 1 \<le> ip_position ip \<and> ip_position ip \<le> ip_batch ip)"
proof (cases "jarr (jget m ''content'')")
  case (Some c)
  obtain k out where r: "emit_anthropic (truncate_text (concat_text_blocks c) n) (count_images c) sys False 0 c = (k, out)"
    by force
  show ?thesis
    using emit_anthropic_spec [where adj = "truncate_text (concat_text_blocks c) n" and b = "count_images c"
        and sys = sys and tool = False and pos = 0 and ps = c]
    by (auto simp: r Some anthropic_message_parts_def message_leaves_def Let_def count_is_images
        Suc_le_eq message_content [OF Some]) (meson le_trans)+
qed (simp add: anthropic_message_parts_def message_leaves_def)

lemma openai_message_spec:
  "map part_image (openai_message_parts sys n m) =
     List.map_filter (leaf_image Api_Openai) (images_of Api_Openai (message_leaves Api_Openai m)) \<and>
   (\<forall>ip\<in>set (openai_message_parts sys n m). 1 \<le> ip_position ip \<and> ip_position ip \<le> ip_batch ip)"
proof (cases "jarr (jget m ''content'')")
  case (Some c)
  show ?thesis
    using emit_openai_spec [where adj = "truncate_text (concat_text_blocks c) n"
        and b = "length (images_of Api_Openai c)" and sys = sys and pos = 0 and ps = c]
    by (auto simp: Some openai_message_parts_def message_leaves_def Let_def images_url Suc_le_eq
        message_content [OF Some])
qed (simp add: openai_message_parts_def message_leaves_def)

lemmas message_parts_spec =
  anthropic_message_spec [THEN conjunct1] openai_message_spec [THEN conjunct1]
  anthropic_message_spec [THEN conjunct2] openai_message_spec [THEN conjunct2]

lemma find_parts_spec:
  "map part_image (find_parts kind body) =
     List.map_filter (leaf_image kind) (images_of kind (body_leaves kind body))"
  "ip \<in> set (find_parts kind body) \<Longrightarrow> 1 \<le> ip_position ip \<and> ip_position ip \<le> ip_batch ip"
proof -
  have c: "map part_image (concat (map f ms)) = List.map_filter g (images_of k (concat (map h ms)))"
    if "\<And>m. map part_image (f m) = List.map_filter g (images_of k (h m))" for f g h k and ms :: "json list"
    using that by (induction ms) simp_all
  show "map part_image (find_parts kind body) =
     List.map_filter (leaf_image kind) (images_of kind (body_leaves kind body))"
    by (cases kind)
       (auto simp: find_parts_def find_anthropic_parts_def find_openai_parts_def body_leaves_def Let_def
        intro!: c message_parts_spec split: option.splits)
  show "ip \<in> set (find_parts kind body) \<Longrightarrow> 1 \<le> ip_position ip \<and> ip_position ip \<le> ip_batch ip"
    using message_parts_spec(3,4)
    by (cases kind)
       (fastforce simp: find_parts_def find_anthropic_parts_def find_openai_parts_def Let_def
        split: option.splits)+
qed

end
