(* ===== verification/Vision_Props.thy ===== *)
theory Vision_Props
  imports Vision_Laws
begin

text \<open>
  What the handoff does to a request: every image it takes on is replaced by the text of that
  image, whatever the vision model, the gate or the database answered; how many images are left;
  and when the signal in the text decides correctly.
\<close>

subsection \<open>The body after the handoff\<close>

lemma process_parts_length: "length (fst (process_parts proc ps s)) = length ps"
  by (induction proc ps s rule: process_parts.induct) (auto split: prod.splits)

lemma parts_to_describe_found:
  "parts_to_describe rt cfg catalog kind model body \<noteq> [] \<Longrightarrow>
   parts_to_describe rt cfg catalog kind model body = find_parts kind body"
  by (auto simp: parts_to_describe_def split: if_splits)

text \<open>The questions and the context of a batch, as \<open>process_body\<close> computes them.\<close>

definition batch_context_of ::
  "runtime \<Rightarrow> vision_config \<Rightarrow> chat_obs \<Rightarrow> json \<Rightarrow> string list obj \<Rightarrow> image_part list \<Rightarrow> image_part \<Rightarrow> vision_context" where
  "batch_context_of rt cfg obs body cache kept =
     image_context cfg kept
       (extract_recent_user_messages body (case vf_recent_count cfg of None \<Rightarrow> 6 | Some n \<Rightarrow> n))
       (fst (batch_questions rt cfg kept obs cache))"

definition batch_results where
  "batch_results rt cfg proc obs body cache kept s =
     fst (process_parts (\<lambda>p. proc p (batch_context_of rt cfg obs body cache kept p)) kept s)"

lemma process_body_eq:
  fixes proc :: "image_part \<Rightarrow> vision_context \<Rightarrow> 's \<Rightarrow> image_result option \<times> 's"
  defines "parts \<equiv> \<lambda>rt cfg catalog kind model body. parts_to_describe rt cfg catalog kind model body"
  assumes "parts rt cfg catalog kind model body \<noteq> []"
  shows "fst (process_body rt cfg catalog proc kind model obs body (cache, s)) =
    (let kept = take (vf_max_images cfg) (parts rt cfg catalog kind model body);
         overflow = snd (apply_max_images_policy (parts rt cfg catalog kind model body) (vf_max_images cfg));
         rs = batch_results rt cfg proc obs body cache kept s
     in \<lparr>hr_body = replace_image_blocks (json_clone body) kind (map ir_description rs) overflow
                     (Some (positions_of kept)),
         hr_changed = True, hr_stats = tally_results (length kept) rs\<rparr>)"
  using assms(2)
  by (simp add: parts_def process_body_def apply_max_images_policy_def Let_def batch_results_def
      batch_context_of_def split: prod.splits)

lemma no_overflow: "length parts \<le> n \<Longrightarrow> apply_max_images_policy parts n = (parts, [])"
  by (simp add: apply_max_images_policy_def)

lemma map_filter_all:
  "list_all (\<lambda>p. f p \<noteq> None) ps \<Longrightarrow> List.map_filter f ps = map (the \<circ> f) ps"
  by (induction ps) (auto simp: map_filter_Cons)

lemma map_filter_length: "length (List.map_filter f ps) \<le> length ps"
  by (induction ps) (auto simp: map_filter_Cons split: option.splits)

text \<open>
  C22: Every image of a request is replaced by the text of that image. In a body that is taken on
  (its text shows an image, the catalogue does not decline), with no more images than the limit
  and every image block one of the supported shapes, the images are worked on in document order,
  nested tool results included, and in the new body the i-th image block is the text block of the
  i-th result, with its \<open>[Image n: ...]\<close> label in a batch; every other block of every message is
  the block it was; and no image is left for the model that cannot see. All of this holds whatever
  the processing of an image answers or whether it throws.
\<close>

theorem handoff_describes_each_image:
  fixes proc :: "image_part \<Rightarrow> vision_context \<Rightarrow> 's \<Rightarrow> image_result option \<times> 's"
  assumes "parts_to_describe rt cfg catalog kind model body \<noteq> []"
    and "length (images_of kind (body_leaves kind body)) \<le> vf_max_images cfg"
    and "list_all (\<lambda>p. leaf_image kind p \<noteq> None) (images_of kind (body_leaves kind body))"
  shows "let parts = find_parts kind body;
             imgs = images_of kind (body_leaves kind body);
             rs = batch_results rt cfg proc obs body cache parts s;
             labels = labels_from (map ir_description rs) (Some (positions_of parts)) kind 0;
             new = hr_body (fst (process_body rt cfg catalog proc kind model obs body (cache, s)))
         in map part_image parts = map (the \<circ> leaf_image kind) imgs \<and>
            length rs = length imgs \<and> length labels = length imgs \<and>
            body_leaves kind new = put kind labels (map json_clone (body_leaves kind body)) \<and>
            images_of kind (body_leaves kind new) = []"
proof -
  let ?parts = "find_parts kind body" and ?imgs = "images_of kind (body_leaves kind body)"
  let ?rs = "batch_results rt cfg proc obs body cache ?parts s"
  note found = parts_to_describe_found [OF assms(1)]
  have img: "map part_image ?parts = map (the \<circ> leaf_image kind) ?imgs"
    by (simp add: find_parts_spec(1) map_filter_all [OF assms(3)])
  then have len: "length ?parts = length ?imgs" by (metis length_map)
  have rlen: "length ?rs = length ?parts" by (simp add: batch_results_def process_parts_length)
  let ?labels = "labels_from (map ir_description ?rs) (Some (positions_of ?parts)) kind 0"
  have "fst (process_body rt cfg catalog proc kind model obs body (cache, s)) =
      \<lparr>hr_body = replace_image_blocks (json_clone body) kind (map ir_description ?rs) []
         (Some (positions_of ?parts)), hr_changed = True, hr_stats = tally_results (length ?parts) ?rs\<rparr>"
    using process_body_eq [OF assms(1), of proc obs cache s] no_overflow [of ?parts "vf_max_images cfg"]
      len assms(2) by (simp add: found Let_def)
  then have new: "body_leaves kind (hr_body (fst (process_body rt cfg catalog proc kind model obs body (cache, s)))) =
      put kind ?labels (map json_clone (body_leaves kind body))"
    by (simp add: replace_body_plain body_leaves_clone)
  have "images_of kind (put kind ?labels (map json_clone (body_leaves kind body))) = []"
    using images_put [OF labels_not_images, where descs1 = "map ir_description ?rs" and
        positions1 = "Some (positions_of ?parts)" and kind = kind and i1 = 0 and
        ps = "map json_clone (body_leaves kind body)"] rlen len by (simp add: images_clone)
  then show ?thesis using img len rlen new by (simp add: Let_def)
qed

definition demo_runtime :: runtime where
  "demo_runtime =
     \<lparr>rt_cache = \<lparr>ce_hasher = \<lparr>sha = (\<lambda>s. s), num_text = (\<lambda>r. ''0'')\<rparr>,
                  ce_store_config = \<lparr>sc_ttl = 1000, sc_max_rows = 10, sc_flush_batch = 5\<rparr>\<rparr>,
      rt_parse = (\<lambda>s. None), rt_decode = Some, rt_encode = (\<lambda>s. s)\<rparr>"

definition demo_vision :: vision_config where
  "demo_vision =
     \<lparr>vf_strategy = Always, vf_target = Some ''http://v'', vf_model = Some ''m'', vf_prompt = ''Describe.'',
      vf_prompt_version = 1, vf_max_images = 2, vf_reasoning = None, vf_timeout_ms = 100,
      vf_cache_size = 10, vf_api_key = None, vf_force = False, vf_max_dimension = 64, vf_quality = 80,
      vf_format = ''jpeg'', vf_detail = ''low'', vf_intent = Some Intent_Off, vf_decomposition = None,
      vf_recent_count = None, vf_system_max = None\<rparr>"

definition openai_image :: "string \<Rightarrow> json" where
  "openai_image d =
     JObj [(''type'', JStr ''image_url''),
           (''image_url'', JObj [(''url'', JStr (''data:image/png;base64,'' @ d))])]"

definition demo_request :: "json list \<Rightarrow> json" where
  "demo_request content =
     JObj [(''messages'', JArr [JObj [(''role'', JStr ''user''), (''content'', JArr content)]])]"

definition echo_image :: "image_part \<Rightarrow> vision_context \<Rightarrow> unit \<Rightarrow> image_result option \<times> unit" where
  "echo_image p ctx s = (Some (no_call (''seen '' @ ip_data p) False), s)"

theorem handoff_describes_each_image_witness:
  "images_of Api_Openai (body_leaves Api_Openai (hr_body (fst
     (process_body demo_runtime demo_vision None echo_image Api_Openai None Chat_Threw
        (demo_request [openai_image ''QQ'']) ([], ()))))) = []"
proof -
  have "parts_to_describe demo_runtime demo_vision None Api_Openai None (demo_request [openai_image ''QQ'']) \<noteq> []"
    "length (images_of Api_Openai (body_leaves Api_Openai (demo_request [openai_image ''QQ'']))) \<le>
       vf_max_images demo_vision"
    "list_all (\<lambda>p. leaf_image Api_Openai p \<noteq> None)
       (images_of Api_Openai (body_leaves Api_Openai (demo_request [openai_image ''QQ''])))"
    by code_simp+
  from handoff_describes_each_image [OF this, of echo_image Chat_Threw "[]" "()"]
  show ?thesis unfolding Let_def by blast
qed

text \<open>
  C23: The images a processed body still holds. Whatever the images of the batch answered, the body
  that goes upstream keeps exactly the image blocks after the first \<open>k\<close>, where \<open>k\<close> is the number of
  supported images up to the limit. With more supported images than \<open>maxImages\<close> the images beyond
  the limit stay in the body next to the text that calls them omitted, and an unsupported block
  before a supported one leaves the last supported image in the body.
\<close>

theorem images_left_after_handoff:
  fixes proc :: "image_part \<Rightarrow> vision_context \<Rightarrow> 's \<Rightarrow> image_result option \<times> 's"
  assumes "parts_to_describe rt cfg catalog kind model body \<noteq> []"
  shows "let imgs = images_of kind (body_leaves kind body);
             k = min (vf_max_images cfg) (length (List.map_filter (leaf_image kind) imgs));
             new = hr_body (fst (process_body rt cfg catalog proc kind model obs body (cache, s)))
         in images_of kind (body_leaves kind new) = map json_clone (drop k imgs)"
proof -
  let ?parts = "find_parts kind body" and ?imgs = "images_of kind (body_leaves kind body)"
  let ?kept = "take (vf_max_images cfg) ?parts"
  let ?rs = "batch_results rt cfg proc obs body cache ?kept s"
  have rlen: "length ?rs = length ?kept" by (simp add: batch_results_def process_parts_length)
  have plen: "length ?parts = length (List.map_filter (leaf_image kind) ?imgs)"
    by (metis find_parts_spec(1) length_map)
  show ?thesis
    using process_body_eq [OF assms, of proc obs cache s] rlen plen
    by (simp add: parts_to_describe_found [OF assms] Let_def replace_body_images body_leaves_clone
        images_clone drop_map min.commute)
qed

theorem images_left_after_handoff_witness:
  "map (\<lambda>p. jget p ''type'') (images_of Api_Openai (body_leaves Api_Openai (hr_body (fst
     (process_body demo_runtime demo_vision None echo_image Api_Openai None Chat_Threw
        (demo_request [openai_image ''QQ'', openai_image ''QR'', openai_image ''QS'']) ([], ())))))) =
   [Some (JStr ''image_url'')]"
proof -
  let ?b = "demo_request [openai_image ''QQ'', openai_image ''QR'', openai_image ''QS'']"
  have p: "parts_to_describe demo_runtime demo_vision None Api_Openai None ?b \<noteq> []"
    and k: "drop (min (vf_max_images demo_vision)
        (length (List.map_filter (leaf_image Api_Openai) (images_of Api_Openai (body_leaves Api_Openai ?b)))))
      (images_of Api_Openai (body_leaves Api_Openai ?b)) = [openai_image ''QS'']"
    by code_simp+
  have c: "map (\<lambda>p. jget p ''type'') (map json_clone [openai_image ''QS'']) = [Some (JStr ''image_url'')]"
    by code_simp
  show ?thesis
    using images_left_after_handoff [OF p, of echo_image Chat_Threw "[]" "()"]
    unfolding Let_def k c [symmetric] by (rule arg_cong)
qed

subsection \<open>Supported and unsupported blocks\<close>

text \<open>
  An unsupported image block takes the text of the next image. In an Anthropic message with an
  image given as a file reference followed by an inline image, only the inline image is described,
  and its description replaces the file reference while the inline image itself is sent on to the
  model that cannot see it.
\<close>

definition anthropic_image :: "json \<Rightarrow> json" where
  "anthropic_image src = JObj [(''type'', JStr ''image''), (''source'', src)]"

definition inline_source :: "string \<Rightarrow> json" where
  "inline_source d = JObj [(''type'', JStr ''base64''), (''media_type'', JStr ''image/png''), (''data'', JStr d)]"

definition file_source :: json where
  "file_source = JObj [(''type'', JStr ''file''), (''file_id'', JStr ''f1'')]"

theorem unsupported_block_takes_next_text:
  "body_leaves Api_Anthropic (hr_body (fst (process_body demo_runtime demo_vision None echo_image
      Api_Anthropic None Chat_Threw
      (demo_request [anthropic_image file_source, anthropic_image (inline_source ''QQ'')]) ([], ())))) =
   [cached_text_block (''[Image 2:'' @ [CHR 0x0A] @ ''seen QQ]''), anthropic_image (inline_source ''QQ'')]"
  by code_simp

subsection \<open>The signal\<close>

lemma quote_plain: "quote_text ''type'' = ''\"type\"''" "quote_text ''image_url'' = ''\"image_url\"''"
  by code_simp+

lemma signal_openai_part:
  assumes "part_of (''\"type\"'' @ '':'' @ ''\"image_url\"'') t"
  shows "cheap_image_signal t"
proof -
  obtain u v where t: "t = u @ (''\"type\"'' @ '':'' @ ''\"image_url\"'') @ v"
    using assms by (auto simp: part_of_def)
  have "matches (rx_lit ''\"type\"'') ''\"type\"''" "matches (rx_lit '':'') '':''"
    "matches (rx_lit ''\"image_url\"'') ''\"image_url\"''" "matches rx_spaces []"
    by (rule matches_lit matches_spaces_Nil)+
  then have "matches signal_openai (''\"type\"'' @ ([] @ ('':'' @ ([] @ ''\"image_url\"''))))"
    unfolding signal_openai_def rx_seq.simps by (intro matches.conc)
  then have "rx_search signal_openai t"
    unfolding rx_search_iff t by (metis append_Nil)
  then show ?thesis by (simp add: cheap_image_signal_def)
qed

lemma openai_image_text:
  assumes "is_image Api_Openai p"
  shows "part_of (''\"type\"'' @ '':'' @ ''\"image_url\"'') (json_text nt p)"
proof -
  have "jget p ''type'' = Some (JStr ''image_url'')"
    using assms by (simp add: is_image_def type_is_def jstr_Some)
  from part_of_jget [OF this, of nt] show ?thesis by (simp add: quote_plain)
qed

lemma body_leaf_part:
  assumes "p \<in> set (body_leaves Api_Openai body)"
  shows "part_of (json_text nt p) (json_text nt body)"
proof -
  obtain msgs m c where path: "jget body ''messages'' = Some (JArr msgs)" "m \<in> set msgs"
    "jget m ''content'' = Some (JArr c)" "p \<in> set c"
    using assms
    by (auto simp: body_leaves_def message_leaves_def split: option.splits) (metis jarr_Some)
  have "part_of (json_text nt p) (json_text nt m)"
    by (rule part_of_trans [OF part_of_array [OF path(4)] part_of_jget_value [OF path(3)]])
  moreover have "part_of (json_text nt m) (json_text nt body)"
    by (rule part_of_trans [OF part_of_array [OF path(2)] part_of_jget_value [OF path(1)]])
  ultimately show ?thesis by (rule part_of_trans)
qed

lemma map_filter_nonempty: "List.map_filter f ps \<noteq> [] \<Longrightarrow> ps \<noteq> []"
  by (cases ps) auto

text \<open>
  No image of an OpenAI body slips past the cheap test of its text: when the catalogue does
  not decline, the images to work on are those found by the full walk of the body, wherever the
  image block stands in it, whatever its other members and whatever the texts around it.
\<close>

theorem openai_images_reach_the_handoff:
  "parts_to_describe rt cfg catalog Api_Openai model body =
   (if catalog_declines cfg catalog Api_Openai model then [] else find_parts Api_Openai body)"
proof (cases "find_parts Api_Openai body = []")
  case False
  then have "images_of Api_Openai (body_leaves Api_Openai body) \<noteq> []"
    using find_parts_spec(1) [of Api_Openai body] map_filter_nonempty by fastforce
  then obtain p where p: "p \<in> set (body_leaves Api_Openai body)" "is_image Api_Openai p"
    by (auto simp: filter_empty_conv)
  have "\<exists>d. body = JObj d"
    using p(1) by (cases body) (auto simp: body_leaves_def)
  then have "body_text rt body = json_text (num_text (ce_hasher (rt_cache rt))) body"
    by (auto simp: body_text_def)
  then have "cheap_image_signal (body_text rt body)"
    using signal_openai_part part_of_trans [OF openai_image_text [OF p(2)] body_leaf_part [OF p(1)]] by metis
  then show ?thesis by (simp add: parts_to_describe_def)
qed (simp add: parts_to_describe_def)

text \<open>
  The test of an Anthropic body depends on the order of an image's members: an image whose
  source is written before its type is not seen, although the walk of the body finds it.
\<close>

theorem anthropic_signal_depends_on_order:
  "let body = JObj [(''messages'', JArr [JObj [(''content'', JArr
       [JObj [(''source'', JObj [(''type'', JStr ''base64''), (''data'', JStr ''QQ'')]),
              (''type'', JStr ''image'')]])]])]
   in map ip_data (find_parts Api_Anthropic body) = [''QQ''] \<and>
      parts_to_describe demo_runtime demo_vision None Api_Anthropic None body = []"
  by code_simp

end
