(* ===== verification/Vision_Flight.thy ===== *)
theory Vision_Flight
  imports Vision_Images
begin

text \<open>
  Many image jobs on one processor. The pieces of \<open>processImage\<close> run in any order the event loop
  chooses; a step is one piece of one job. The invariant ties the map of images in flight to the
  jobs that own its entries: one call of the vision model per image at a time, and a promise for
  every job that waits.
\<close>

record 'l flight =
  fl_proc :: "'l processor"
  fl_jobs :: "nat \<Rightarrow> (image_job \<times> phase) option"

datatype flight_event =
    Arrive nat
  | Wake nat
  | Transcode_Ends nat transcode_obs insert_obs
  | Call_Ends nat
  | Clear_Records

definition set_job :: "nat \<Rightarrow> image_job \<Rightarrow> phase \<times> 'l processor \<Rightarrow> 'l flight \<Rightarrow> 'l flight" where
  "set_job tid job r s =
     s\<lparr>fl_proc := snd r, fl_jobs := (fl_jobs s)(tid \<mapsto> (job, fst r))\<rparr>"

inductive flight_step ::
  "'l lru \<Rightarrow> runtime \<Rightarrow> vision_config \<Rightarrow> 'l flight \<Rightarrow> flight_event \<Rightarrow> 'l flight \<Rightarrow> bool"
  for L rt cfg where
  arrive: "fl_jobs s tid = None \<Longrightarrow>
     flight_step L rt cfg s (Arrive tid) (set_job tid job (start_image L rt cfg io tid job (fl_proc s)) s)"
| wake: "fl_jobs s tid = Some (job, Waiting owner) \<Longrightarrow> obj_get (pr_settled (fl_proc s)) owner = Some d \<Longrightarrow>
     flight_step L rt cfg s (Wake tid) (set_job tid job (wake_image rt cfg now job d (fl_proc s)) s)"
| transcode_ends: "fl_jobs s tid = Some (job, Transcoding key bytes) \<Longrightarrow>
     flight_step L rt cfg s (Transcode_Ends tid obs ins)
       (set_job tid job (transcoded cfg now tid job key bytes obs ins (fl_proc s)) s)"
| call_ends: "fl_jobs s tid = Some (job, Calling key bytes img started row) \<Longrightarrow>
     ask_model rt cfg job img craft obs (fl_proc s) = (r, p) \<Longrightarrow>
     flight_step L rt cfg s (Call_Ends tid)
       (set_job tid job (answered L rt cfg io tid job (Calling key bytes img started row) r upd p) s)"
| clear: "flight_step L rt cfg s Clear_Records (s\<lparr>fl_proc := clear_records (fl_proc s)\<rparr>)"

definition new_flight :: "'l dcache \<Rightarrow> 'l flight" where
  "new_flight c = \<lparr>fl_proc = new_processor c, fl_jobs = Map.empty\<rparr>"

definition flight_reachable ::
  "'l lru \<Rightarrow> runtime \<Rightarrow> vision_config \<Rightarrow> 'l dcache \<Rightarrow> flight_event list \<Rightarrow> 'l flight \<Rightarrow> bool" where
  "flight_reachable L rt cfg c es s = steps (flight_step L rt cfg) (new_flight c) es s"

subsection \<open>The parts of the state the invariant reads\<close>

abbreviation in_flight :: "'l flight \<Rightarrow> string \<Rightarrow> nat option" where
  "in_flight s \<equiv> obj_get (pr_inflight (fl_proc s))"

abbreviation settled :: "'l flight \<Rightarrow> nat \<Rightarrow> string option" where
  "settled s \<equiv> obj_get (pr_settled (fl_proc s))"

fun active_key :: "phase \<Rightarrow> string option" where
  "active_key (Transcoding key bytes) = Some key"
| "active_key (Calling key bytes img started row) = Some key"
| "active_key _ = None"

definition works_on :: "'l flight \<Rightarrow> nat \<Rightarrow> string option" where
  "works_on s tid = (case fl_jobs s tid of None \<Rightarrow> None | Some (job, ph) \<Rightarrow> active_key ph)"

definition has_failed :: "'l flight \<Rightarrow> nat \<Rightarrow> bool" where
  "has_failed s tid = (\<exists>job. fl_jobs s tid = Some (job, Failed))"

lemma add_record_frame [simp]:
  "pr_inflight (add_record cfg now mk p) = pr_inflight p"
  "pr_settled (add_record cfg now mk p) = pr_settled p"
  by (simp_all add: add_record_def)

lemma clear_records_frame [simp]:
  "pr_inflight (clear_records p) = pr_inflight p"
  "pr_settled (clear_records p) = pr_settled p"
  by (simp_all add: clear_records_def)

lemma settle_flight_effect [simp]:
  "obj_get (pr_inflight (settle_flight tid key d p)) = (obj_get (pr_inflight p))(key := None)"
  "obj_get (pr_settled (settle_flight tid key d p)) = (obj_get (pr_settled p))(tid \<mapsto> d)"
  by (simp_all add: settle_flight_def)

lemma ask_model_frame:
  "ask_model rt cfg job img craft obs p = (r, p') \<Longrightarrow>
   pr_inflight p' = pr_inflight p \<and> pr_settled p' = pr_settled p"
  by (auto simp: ask_model_def split: prod.splits)

text \<open>
  What each piece does to the flight map and the promises: a start leaves them or enters its key, a
  waiting job leaves them, an active job either goes on with its key, settles its promise and
  leaves the map, or fails on the spot.
\<close>

lemma start_image_effect:
  assumes "start_image L rt cfg io tid job p = (ph, p')"
  shows "pr_settled p' = pr_settled p \<and>
    ((pr_inflight p' = pr_inflight p \<and> active_key ph = None \<and> ph \<noteq> Failed \<and>
      (\<forall>w. ph = Waiting w \<longrightarrow> (\<exists>key. obj_get (pr_inflight p) key = Some w))) \<or>
     (\<exists>key. active_key ph = Some key \<and> obj_get (pr_inflight p) key = None \<and>
       obj_get (pr_inflight p') = (obj_get (pr_inflight p))(key \<mapsto> tid)))"
  using assms by (auto simp: start_image_def Let_def split: if_splits option.splits prod.splits)

lemma transcoded_effect:
  assumes "transcoded cfg now tid job key bytes obs ins p = (ph, p')"
  shows "(active_key ph = Some key \<and> pr_inflight p' = pr_inflight p \<and> pr_settled p' = pr_settled p) \<or>
    ((\<exists>r. ph = Finished r) \<and> obj_get (pr_inflight p') = (obj_get (pr_inflight p))(key := None) \<and>
       (\<exists>d. obj_get (pr_settled p') = (obj_get (pr_settled p))(tid \<mapsto> d))) \<or>
    (ph = Failed \<and> pr_inflight p' = pr_inflight p \<and> pr_settled p' = pr_settled p \<and>
       (\<exists>img. obs = Transcoded img) \<and> (ins = Insert_Throws \<or> (\<exists>i. ins = State_Throws i)))"
  using assms
  by (auto simp: transcoded_def Let_def split: transcode_obs.splits insert_obs.splits option.splits)

lemma answered_effect:
  assumes "answered L rt cfg io tid job (Calling key bytes img started row) r upd p = (ph, p')"
  shows "(ph = Failed \<or> (\<exists>r. ph = Finished r)) \<and>
    obj_get (pr_inflight p') = (obj_get (pr_inflight p))(key := None) \<and>
    (\<exists>d. obj_get (pr_settled p') = (obj_get (pr_settled p))(tid \<mapsto> d))"
  using assms
  by (auto simp: answered_def Let_def settle_flight_def split: lookup_result.splits prod.splits option.splits)

lemma wake_image_effect:
  "wake_image rt cfg now job d p = (ph, p') \<Longrightarrow>
   pr_inflight p' = pr_inflight p \<and> pr_settled p' = pr_settled p \<and> (\<exists>r. ph = Finished r)"
  by (auto simp: wake_image_def Let_def)

text \<open>One step, seen through \<open>in_flight\<close>, \<open>settled\<close> and the phases.\<close>

definition flight_inv :: "'l flight \<Rightarrow> bool" where
  "flight_inv s =
     ((\<forall>tid key. works_on s tid = Some key \<longrightarrow> in_flight s key = Some tid) \<and>
      (\<forall>key tid. in_flight s key = Some tid \<longrightarrow> works_on s tid = Some key \<or> has_failed s tid) \<and>
      (\<forall>tid job w. fl_jobs s tid = Some (job, Waiting w) \<longrightarrow>
         settled s w \<noteq> None \<or> (\<exists>key. in_flight s key = Some w)))"

lemma flight_invI:
  assumes "\<And>tid key. works_on s tid = Some key \<Longrightarrow> in_flight s key = Some tid"
    and "\<And>key tid. in_flight s key = Some tid \<Longrightarrow> works_on s tid = Some key \<or> has_failed s tid"
    and "\<And>tid job w. fl_jobs s tid = Some (job, Waiting w) \<Longrightarrow>
           settled s w \<noteq> None \<or> (\<exists>key. in_flight s key = Some w)"
  shows "flight_inv s"
  using assms unfolding flight_inv_def by blast

lemma flight_invD:
  assumes "flight_inv s"
  shows "works_on s tid = Some key \<Longrightarrow> in_flight s key = Some tid"
    and "in_flight s key = Some tid \<Longrightarrow> works_on s tid = Some key \<or> has_failed s tid"
    and "fl_jobs s tid = Some (job, Waiting w) \<Longrightarrow> settled s w \<noteq> None \<or> (\<exists>key. in_flight s key = Some w)"
  using assms unfolding flight_inv_def by blast+

lemma set_job_simps [simp]:
  "works_on (set_job tid job r s) t = (if t = tid then active_key (fst r) else works_on s t)"
  "has_failed (set_job tid job r s) t = (if t = tid then fst r = Failed else has_failed s t)"
  "fl_proc (set_job tid job r s) = snd r"
  "fl_jobs (set_job tid job r s) = (fl_jobs s)(tid \<mapsto> (job, fst r))"
  by (auto simp: set_job_def works_on_def has_failed_def)

text \<open>A job that is neither active nor failed, before and after, and leaves the map alone.\<close>

lemma inv_quiet:
  assumes "flight_inv s" "works_on s tid = None" "\<not> has_failed s tid" "active_key ph = None"
    "pr_inflight p' = pr_inflight (fl_proc s)" "pr_settled p' = pr_settled (fl_proc s)"
    "\<And>w. ph = Waiting w \<Longrightarrow> \<exists>key. in_flight s key = Some w"
  shows "flight_inv (set_job tid job (ph, p') s)"
proof (rule flight_invI)
  fix t key assume "works_on (set_job tid job (ph, p') s) t = Some key"
  then show "in_flight (set_job tid job (ph, p') s) key = Some t"
    using assms flight_invD(1) [OF assms(1), of t key] by (auto split: if_splits)
next
  fix key t assume "in_flight (set_job tid job (ph, p') s) key = Some t"
  then show "works_on (set_job tid job (ph, p') s) t = Some key \<or> has_failed (set_job tid job (ph, p') s) t"
    using assms flight_invD(2) [OF assms(1), of key t] by auto
next
  fix t j w assume "fl_jobs (set_job tid job (ph, p') s) t = Some (j, Waiting w)"
  then show "settled (set_job tid job (ph, p') s) w \<noteq> None \<or>
      (\<exists>key. in_flight (set_job tid job (ph, p') s) key = Some w)"
    using assms flight_invD(3) [OF assms(1), of t j w] by (auto split: if_splits)
qed

text \<open>A job that enters the map.\<close>

lemma inv_enter:
  assumes "flight_inv s" "works_on s tid = None" "\<not> has_failed s tid" "active_key ph = Some key"
    "in_flight s key = None" "obj_get (pr_inflight p') = (in_flight s)(key \<mapsto> tid)"
    "pr_settled p' = pr_settled (fl_proc s)"
  shows "flight_inv (set_job tid job (ph, p') s)"
proof (rule flight_invI)
  fix t k assume "works_on (set_job tid job (ph, p') s) t = Some k"
  then show "in_flight (set_job tid job (ph, p') s) k = Some t"
    using assms flight_invD(1) [OF assms(1), of t k] by (auto split: if_splits)
next
  fix k t assume "in_flight (set_job tid job (ph, p') s) k = Some t"
  then show "works_on (set_job tid job (ph, p') s) t = Some k \<or> has_failed (set_job tid job (ph, p') s) t"
    using assms flight_invD(2) [OF assms(1), of k t] by (auto split: if_splits)
next
  fix t j w assume "fl_jobs (set_job tid job (ph, p') s) t = Some (j, Waiting w)"
  then have "settled s w \<noteq> None \<or> (\<exists>k. in_flight s k = Some w)"
    using assms(4) flight_invD(3) [OF assms(1), of t j w] by (auto split: if_splits)
  then show "settled (set_job tid job (ph, p') s) w \<noteq> None \<or>
      (\<exists>k. in_flight (set_job tid job (ph, p') s) k = Some w)"
    using assms(5-7) by auto (metis option.distinct(1))
qed

text \<open>An active job that stays active with its key, or fails and leaves its entry behind.\<close>

lemma inv_stay:
  assumes "flight_inv s" "works_on s tid = Some key" "active_key ph = Some key \<or> ph = Failed"
    "pr_inflight p' = pr_inflight (fl_proc s)" "pr_settled p' = pr_settled (fl_proc s)"
  shows "flight_inv (set_job tid job (ph, p') s)"
proof (rule flight_invI)
  fix t k assume "works_on (set_job tid job (ph, p') s) t = Some k"
  then show "in_flight (set_job tid job (ph, p') s) k = Some t"
    using assms flight_invD(1) [OF assms(1), of t k] by (auto split: if_splits)
next
  fix k t assume "in_flight (set_job tid job (ph, p') s) k = Some t"
  then show "works_on (set_job tid job (ph, p') s) t = Some k \<or> has_failed (set_job tid job (ph, p') s) t"
    using assms flight_invD(2) [OF assms(1), of k t]
    by (auto simp: works_on_def has_failed_def split: if_splits option.splits)
next
  fix t j w assume "fl_jobs (set_job tid job (ph, p') s) t = Some (j, Waiting w)"
  then show "settled (set_job tid job (ph, p') s) w \<noteq> None \<or>
      (\<exists>k. in_flight (set_job tid job (ph, p') s) k = Some w)"
    using assms flight_invD(3) [OF assms(1), of t j w] by (auto split: if_splits)
qed

text \<open>An active job that settles its promise and leaves the map.\<close>

lemma inv_settle:
  assumes "flight_inv s" "works_on s tid = Some key" "active_key ph = None" "\<And>w. ph \<noteq> Waiting w"
    "obj_get (pr_inflight p') = (in_flight s)(key := None)"
    "obj_get (pr_settled p') = (settled s)(tid \<mapsto> d)"
  shows "flight_inv (set_job tid job (ph, p') s)"
proof (rule flight_invI)
  fix t k assume "works_on (set_job tid job (ph, p') s) t = Some k"
  then show "in_flight (set_job tid job (ph, p') s) k = Some t"
    using assms flight_invD(1) [OF assms(1), of t k] flight_invD(1) [OF assms(1) assms(2)]
    by (auto split: if_splits)
next
  fix k t assume "in_flight (set_job tid job (ph, p') s) k = Some t"
  then show "works_on (set_job tid job (ph, p') s) t = Some k \<or> has_failed (set_job tid job (ph, p') s) t"
    using assms flight_invD(2) [OF assms(1), of k t]
    by (auto simp: works_on_def has_failed_def split: if_splits option.splits)
next
  fix t j w assume "fl_jobs (set_job tid job (ph, p') s) t = Some (j, Waiting w)"
  then have "settled s w \<noteq> None \<or> (\<exists>k. in_flight s k = Some w)"
    using assms(4) flight_invD(3) [OF assms(1), of t j w] by (auto split: if_splits)
  moreover have "in_flight s key = Some tid" by (rule flight_invD(1) [OF assms(1,2)])
  ultimately show "settled (set_job tid job (ph, p') s) w \<noteq> None \<or>
      (\<exists>k. in_flight (set_job tid job (ph, p') s) k = Some w)"
    using assms(5,6) by auto (metis option.inject)
qed

lemma not_here: "fl_jobs s tid = None \<Longrightarrow> works_on s tid = None \<and> \<not> has_failed s tid"
  by (simp add: works_on_def has_failed_def)

lemma flight_step_inv:
  "flight_step L rt cfg s e s' \<Longrightarrow> flight_inv s \<Longrightarrow> flight_inv s'"
proof (induction rule: flight_step.induct)
  case (arrive s tid job io)
  obtain ph p' where r: "start_image L rt cfg io tid job (fl_proc s) = (ph, p')" by force
  show ?case
    using start_image_effect [OF r] inv_quiet [OF arrive.prems, of tid ph p'] not_here [OF arrive.hyps]
      inv_enter [OF arrive.prems, of tid ph _ p'] unfolding r by blast
next
  case (wake s tid job owner d now)
  obtain ph p' where r: "wake_image rt cfg now job d (fl_proc s) = (ph, p')" by force
  have "works_on s tid = None" "\<not> has_failed s tid"
    using wake.hyps by (simp_all add: works_on_def has_failed_def)
  then show ?case
    using wake_image_effect [OF r] inv_quiet [OF wake.prems, of tid ph p'] unfolding r by force
next
  case (transcode_ends s tid job key bytes obs ins now)
  obtain ph p' where r: "transcoded cfg now tid job key bytes obs ins (fl_proc s) = (ph, p')" by force
  have "works_on s tid = Some key" using transcode_ends.hyps by (simp add: works_on_def)
  then show ?case
    using transcoded_effect [OF r] inv_stay [OF transcode_ends.prems, of tid key ph p']
      inv_settle [OF transcode_ends.prems, of tid key ph p'] unfolding r by force
next
  case (call_ends s tid job key bytes img started row craft obs r p io upd)
  obtain ph p' where a: "answered L rt cfg io tid job (Calling key bytes img started row) r upd p = (ph, p')"
    by force
  have "works_on s tid = Some key" using call_ends.hyps by (simp add: works_on_def)
  then show ?case
    using answered_effect [OF a] ask_model_frame [OF call_ends.hyps(2)]
      inv_settle [OF call_ends.prems, of tid key ph p'] unfolding a by force
next
  case (clear s)
  then show ?case by (simp add: flight_inv_def works_on_def has_failed_def)
qed

lemma flight_inv_new: "flight_inv (new_flight c)"
  by (simp add: flight_inv_def new_flight_def new_processor_def works_on_def)

text \<open>A step that is not a refused insert of the capture row leaves no entry of a failed job.\<close>

fun row_written :: "flight_event \<Rightarrow> bool" where
  "row_written (Transcode_Ends tid obs ins) = (ins \<noteq> Insert_Throws \<and> (\<forall>i. ins \<noteq> State_Throws i))"
| "row_written _ = True"

definition owners_alive :: "'l flight \<Rightarrow> bool" where
  "owners_alive s = (\<forall>key tid. in_flight s key = Some tid \<longrightarrow> works_on s tid = Some key)"

lemma owners_alive_step:
  "flight_step L rt cfg s e s' \<Longrightarrow> flight_inv s \<Longrightarrow> owners_alive s \<Longrightarrow> row_written e \<Longrightarrow> owners_alive s'"
proof (induction rule: flight_step.induct)
  case (arrive s tid job io)
  obtain ph p' where r: "start_image L rt cfg io tid job (fl_proc s) = (ph, p')" by force
  have "in_flight s k \<noteq> Some tid" for k
    using arrive.prems(2) not_here [OF arrive.hyps] by (auto simp: owners_alive_def)
  then show ?case
    using start_image_effect [OF r] arrive.prems(2) by (auto simp: r owners_alive_def split: if_splits)
next
  case (wake s tid job owner d now)
  obtain ph p' where r: "wake_image rt cfg now job d (fl_proc s) = (ph, p')" by force
  have "works_on s tid = None" using wake.hyps by (simp add: works_on_def)
  then have "in_flight s k \<noteq> Some tid" for k
    using wake.prems(2) by (metis option.distinct(1) owners_alive_def)
  then show ?case
    using wake_image_effect [OF r] wake.prems(2) by (auto simp: r owners_alive_def)
next
  case (transcode_ends s tid job key bytes obs ins now)
  obtain ph p' where r: "transcoded cfg now tid job key bytes obs ins (fl_proc s) = (ph, p')" by force
  have w: "works_on s tid = Some key" using transcode_ends.hyps by (simp add: works_on_def)
  then show ?case
    using transcoded_effect [OF r] transcode_ends.prems(2,3) by (fastforce simp: r owners_alive_def)
next
  case (call_ends s tid job key bytes img started row craft obs r p io upd)
  obtain ph p' where a: "answered L rt cfg io tid job (Calling key bytes img started row) r upd p = (ph, p')"
    by force
  have w: "works_on s tid = Some key" using call_ends.hyps by (simp add: works_on_def)
  then show ?case
    using answered_effect [OF a] ask_model_frame [OF call_ends.hyps(2)] call_ends.prems(2)
    by (fastforce simp: a owners_alive_def)
next
  case (clear s)
  then show ?case by (simp add: owners_alive_def works_on_def)
qed

interpretation flights: guarded_invariant "flight_step L rt cfg" flight_inv row_written owners_alive
  by unfold_locales (auto intro: flight_step_inv owners_alive_step)

lemma reachable_flight_inv: "flight_reachable L rt cfg c es s \<Longrightarrow> flight_inv s"
  unfolding flight_reachable_def by (rule flights.run_inv [OF _ flight_inv_new])

end
