(* ===== verification/Store_Props.thy ===== *)
theory Store_Props
  imports Vision_Cache
begin

text \<open>
  The write-behind store seen from its reader: a map from keys to a description and its time. The
  interface is a locale; the buffered store provides it, the laws of the client follow from it.
  Then the bound of the eviction, and what the cache lets into the store.
\<close>

subsection \<open>The interface\<close>

definition live :: "int \<Rightarrow> int \<Rightarrow> (string \<times> int) option \<Rightarrow> string option" where
  "live ttl now e = (case e of None \<Rightarrow> None | Some (d, t) \<Rightarrow> if ttl < now - t then None else Some d)"

text \<open>
  A write may expire other entries: what the reader sees at a later time is as if it had not, when
  the store has room, and never anything but the entry or nothing.
\<close>

locale expiring_store =
  fixes view :: "'s \<Rightarrow> string \<Rightarrow> (string \<times> int) option"
    and inv :: "'s \<Rightarrow> bool"
    and ttl :: int
    and get :: "int \<Rightarrow> string \<Rightarrow> 's \<Rightarrow> string option \<times> 's"
    and put :: "int \<Rightarrow> description_entry \<Rightarrow> 's \<Rightarrow> 's"
    and kept :: "'s \<Rightarrow> bool"
    and roomy :: "int \<Rightarrow> description_entry \<Rightarrow> 's \<Rightarrow> bool"
  assumes get_value: "inv s \<Longrightarrow> fst (get now k s) = live ttl now (view s k)"
    and get_view: "inv s \<Longrightarrow> view (snd (get now k s)) = view s"
    and get_inv: "inv s \<Longrightarrow> inv (snd (get now k s))"
    and put_view: "inv s \<Longrightarrow> kept s \<Longrightarrow>
           view (put now e s) k \<in> {None, ((view s)(de_key e \<mapsto> (de_description e, now))) k}"
    and put_live: "inv s \<Longrightarrow> kept s \<Longrightarrow> roomy now e s \<Longrightarrow> now \<le> later \<Longrightarrow>
           live ttl later (view (put now e s) k) =
           live ttl later (((view s)(de_key e \<mapsto> (de_description e, now))) k)"
    and put_inv: "inv s \<Longrightarrow> inv (put now e s)"
begin

lemma read_own_write:
  "inv s \<Longrightarrow> kept s \<Longrightarrow> roomy t e s \<Longrightarrow> t \<le> now \<Longrightarrow> now - t \<le> ttl \<Longrightarrow>
   fst (get now (de_key e) (put t e s)) = Some (de_description e)"
  by (simp add: get_value put_inv put_live) (simp add: live_def)

lemma read_other:
  "inv s \<Longrightarrow> kept s \<Longrightarrow> roomy t e s \<Longrightarrow> t \<le> now \<Longrightarrow> k \<noteq> de_key e \<Longrightarrow>
   fst (get now k (put t e s)) = fst (get now k s)"
  by (simp add: get_value put_inv put_live)

lemma read_twice: "inv s \<Longrightarrow> fst (get now k' (snd (get t k s))) = fst (get now k' s)"
  by (simp add: get_value get_inv get_view)

end

subsection \<open>The buffered store provides it\<close>

definition ps_view :: "pstore \<Rightarrow> string \<Rightarrow> (string \<times> int) option" where
  "ps_view s k =
     (case pending_of k (ps_pending s) of
        Some (e, t) \<Rightarrow> Some (de_description e, t)
      | None \<Rightarrow> map_option (\<lambda>r. (vr_description r, vr_created r)) (vd_find k (ps_table s)))"

definition ps_ok :: "pstore \<Rightarrow> bool" where
  "ps_ok s = distinct (vd_keys (ps_table s))"

text \<open>A flush drops nothing: SQLite accepts it, or it is not the third refusal in a row.\<close>

definition no_drop :: "bool \<Rightarrow> pstore \<Rightarrow> bool" where
  "no_drop ok s = (ok \<or> ps_closed s \<or> ps_retries s + 1 < max_flush_retries)"

lemma vd_find_upsert:
  "vd_find k (vd_upsert e now t) =
   (if k = de_key e then
      (case vd_find k t of
         None \<Rightarrow> Some \<lparr>vr_key = de_key e, vr_image_hash = de_image_hash e, vr_model = de_model e,
                   vr_prompt_version = de_prompt_version e, vr_description = de_description e,
                   vr_created = now, vr_accessed = now\<rparr>
       | Some r \<Rightarrow> Some (r\<lparr>vr_description := de_description e, vr_created := now, vr_accessed := now\<rparr>))
    else vd_find k t)"
  by (induction e now t rule: vd_upsert.induct) auto

abbreviation row_view :: "vision_table \<Rightarrow> string \<Rightarrow> (string \<times> int) option" where
  "row_view t k \<equiv> map_option (\<lambda>r. (vr_description r, vr_created r)) (vd_find k t)"

lemma row_view_upsert: "row_view (vd_upsert e now t) = (row_view t)(de_key e \<mapsto> (de_description e, now))"
  by (rule ext) (simp add: vd_find_upsert split: option.splits)

lemma pending_of_Nil [simp]: "pending_of k [] = None"
  by (simp add: pending_of_def)

lemma pending_of_snoc [simp]:
  "pending_of k (ws @ [(e, t)]) = (if de_key e = k then Some (e, t) else pending_of k ws)"
  by (simp add: pending_of_def)

lemma row_view_upsert_all:
  "row_view (upsert_all ws t) k =
   (case pending_of k ws of Some (e, now) \<Rightarrow> Some (de_description e, now) | None \<Rightarrow> row_view t k)"
proof (induction ws arbitrary: t rule: rev_induct)
  case (snoc w ws)
  obtain e now where w: "w = (e, now)" by force
  have "upsert_all (ws @ [(e, now)]) t = vd_upsert e now (upsert_all ws t)" for t
    by (induction ws t rule: upsert_all.induct) simp_all
  then show ?case
    using snoc [of t] fun_cong [OF row_view_upsert [of e now "upsert_all ws t"], of k]
    by (simp add: w)
qed simp

lemma flush_view: "no_drop ok s \<Longrightarrow> ps_view (ps_flush_now ok s) = ps_view s"
  by (rule ext)
     (auto simp: ps_flush_now_def Let_def ps_view_def no_drop_def row_view_upsert_all max_flush_retries_def
      split: option.splits)

lemma flush_ok: "ps_ok s \<Longrightarrow> ps_ok (ps_flush_now ok s)"
  by (simp add: ps_flush_now_def Let_def ps_ok_def distinct_upsert_all)

lemma ps_get_spec:
  assumes "ps_ok s"
  shows "fst (ps_get sc now k s) = live (sc_ttl sc) now (ps_view s k)"
    and "ps_view (snd (ps_get sc now k s)) = ps_view s"
    and "ps_ok (snd (ps_get sc now k s))"
proof -
  let ?touch = "\<lambda>r. if vr_key r = k then r\<lparr>vr_accessed := now\<rparr> else r"
  have t: "vd_find j (map ?touch tab) = map_option ?touch (vd_find j tab)" for j tab
    by (rule vd_find_map_key) simp
  have kk: "distinct (map (vr_key \<circ> ?touch) tab) = distinct (vd_keys tab)" for tab
  proof -
    have "map (vr_key \<circ> ?touch) tab = vd_keys tab" by (induction tab) auto
    then show ?thesis by (rule arg_cong)
  qed
  have rv: "map_option (\<lambda>r. (vr_description r, vr_created r)) (map_option ?touch o1) =
      map_option (\<lambda>r. (vr_description r, vr_created r)) o1" for o1
    by (cases o1) auto
  show "fst (ps_get sc now k s) = live (sc_ttl sc) now (ps_view s k)"
    by (auto simp: ps_get_def ps_view_def live_def vd_get_def split: option.splits)
  show "ps_view (snd (ps_get sc now k s)) = ps_view s"
    by (rule ext) (auto simp: ps_get_def ps_view_def vd_get_def t rv split: option.splits)
  show "ps_ok (snd (ps_get sc now k s))"
    using assms kk by (auto simp: ps_get_def ps_ok_def vd_get_def split: option.splits)
qed

lemma vd_evict_sub: "set (snd (vd_evict cutoff n t)) \<subseteq> set t"
  by (auto simp: vd_evict_def vd_drop_def Let_def split: if_splits)

lemma vd_evict_distinct: "distinct (vd_keys t) \<Longrightarrow> distinct (vd_keys (snd (vd_evict cutoff n t)))"
  by (simp add: vd_evict_def vd_drop_def Let_def distinct_filter_keys)

text \<open>An eviction that finds the table within its bound drops expired rows only.\<close>

lemma vd_evict_find:
  assumes "distinct (vd_keys t)"
  shows "vd_find k (snd (vd_evict cutoff n t)) \<in> {None, vd_find k t}"
    and "length (vd_drop (expired_keys cutoff t) t) \<le> n \<Longrightarrow>
      vd_find k (snd (vd_evict cutoff n t)) =
        (if k \<in> set (expired_keys cutoff t) then None else vd_find k t)"
    and "k \<in> set (expired_keys cutoff t) \<Longrightarrow> \<exists>r. vd_find k t = Some r \<and> vr_created r < cutoff"
proof -
  have drop: "vd_find k (vd_drop ks u) = (if k \<in> set ks then None else vd_find k u)"
    if "distinct (vd_keys u)" for ks u
    using that vd_find_Some [of k u] by (auto simp: vd_drop_def vd_find_filter split: option.splits)
  have d: "distinct (vd_keys (vd_drop ks t))" for ks
    using assms by (simp add: vd_drop_def distinct_filter_keys)
  show "vd_find k (snd (vd_evict cutoff n t)) \<in> {None, vd_find k t}"
    by (simp add: vd_evict_def Let_def drop assms d)
  show "length (vd_drop (expired_keys cutoff t) t) \<le> n \<Longrightarrow>
      vd_find k (snd (vd_evict cutoff n t)) =
        (if k \<in> set (expired_keys cutoff t) then None else vd_find k t)"
    by (simp add: vd_evict_def Let_def drop assms)
  assume "k \<in> set (expired_keys cutoff t)"
  then obtain r where r: "r \<in> set t" "vr_key r = k" "vr_created r < cutoff"
    by (auto simp: expired_keys_def by_access_def dest!: in_set_takeD)
  have "vd_find k t = Some r" using assms r(1,2) by (induction t) (auto simp: image_iff)
  then show "\<exists>r. vd_find k t = Some r \<and> vr_created r < cutoff" using r(3) by blast
qed

lemma flush_last_eviction [simp]: "ps_last_eviction (ps_flush_now ok s) = ps_last_eviction s"
  by (simp add: ps_flush_now_def Let_def)

text \<open>\<open>set\<close> buffers the entry, may flush, and then sees whether an eviction is due.\<close>

definition ps_buffer :: "store_config \<Rightarrow> store_io \<Rightarrow> description_entry \<Rightarrow> pstore \<Rightarrow> pstore" where
  "ps_buffer sc io e s0 =
     (let s = s0\<lparr>ps_pending := ps_pending s0 @ [(e, io_now io)]\<rparr>
      in if sc_flush_batch sc \<le> length (ps_pending s)
         then ps_flush_now (io_flush_ok io) (s\<lparr>ps_timer := False\<rparr>)
         else s\<lparr>ps_timer := True\<rparr>)"

lemma ps_set_buffer: "ps_set sc io e s = maybe_evict sc (io_evict_ok io) (io_now io) (ps_buffer sc io e s)"
  by (auto simp: ps_set_def ps_buffer_def Let_def intro!: arg_cong [where f = "maybe_evict _ _ _"])

text \<open>An eviction, if one runs, finds the table within its bound once expired rows have left.\<close>

definition has_room :: "store_config \<Rightarrow> store_io \<Rightarrow> description_entry \<Rightarrow> pstore \<Rightarrow> bool" where
  "has_room sc io e s =
     (io_now io - ps_last_eviction s < eviction_interval_ms \<or>
      length (vd_drop (expired_keys (io_now io - sc_ttl sc) (ps_table (ps_buffer sc io e s)))
                (ps_table (ps_buffer sc io e s))) \<le> sc_max_rows sc)"

lemma timer_view [simp]: "ps_view (s\<lparr>ps_timer := b\<rparr>) = ps_view s"
  by (rule ext) (simp add: ps_view_def split: option.splits)

lemma ps_buffer_spec:
  assumes "no_drop (io_flush_ok io) s"
  shows "ps_view (ps_buffer sc io e s) = (ps_view s)(de_key e \<mapsto> (de_description e, io_now io))"
    and "ps_last_eviction (ps_buffer sc io e s) = ps_last_eviction s"
    and "ps_ok s \<Longrightarrow> ps_ok (ps_buffer sc io e s)"
proof -
  let ?s = "s\<lparr>ps_pending := ps_pending s @ [(e, io_now io)]\<rparr>"
  have v: "ps_view ?s = (ps_view s)(de_key e \<mapsto> (de_description e, io_now io))"
    by (rule ext) (simp add: ps_view_def split: option.splits)
  have n: "no_drop (io_flush_ok io) (?s\<lparr>ps_timer := False\<rparr>)"
    using assms by (simp add: no_drop_def)
  show "ps_view (ps_buffer sc io e s) = (ps_view s)(de_key e \<mapsto> (de_description e, io_now io))"
    using flush_view [OF n] by (simp add: ps_buffer_def Let_def v)
  show "ps_last_eviction (ps_buffer sc io e s) = ps_last_eviction s"
    by (simp add: ps_buffer_def Let_def)
  show "ps_ok s \<Longrightarrow> ps_ok (ps_buffer sc io e s)"
    using flush_ok [of "?s\<lparr>ps_timer := False\<rparr>" "io_flush_ok io"] by (simp add: ps_buffer_def Let_def ps_ok_def)
qed

lemma maybe_evict_view:
  assumes "ps_ok s"
  shows "ps_view (snd (maybe_evict sc ok now s)) k \<in> {None, ps_view s k}"
    and "now - ps_last_eviction s < eviction_interval_ms \<or>
      length (vd_drop (expired_keys (now - sc_ttl sc) (ps_table s)) (ps_table s)) \<le> sc_max_rows sc \<Longrightarrow>
      now \<le> later \<Longrightarrow>
      live (sc_ttl sc) later (ps_view (snd (maybe_evict sc ok now s)) k) = live (sc_ttl sc) later (ps_view s k)"
proof -
  have d: "distinct (vd_keys (ps_table s))" using assms by (simp add: ps_ok_def)
  note f = vd_evict_find [OF d, where k = k and cutoff = "now - sc_ttl sc"]
  show "ps_view (snd (maybe_evict sc ok now s)) k \<in> {None, ps_view s k}"
    using f(1) [where n = "sc_max_rows sc"]
    by (auto simp: maybe_evict_def ps_view_def Let_def split: option.splits)
  show "now - ps_last_eviction s < eviction_interval_ms \<or>
      length (vd_drop (expired_keys (now - sc_ttl sc) (ps_table s)) (ps_table s)) \<le> sc_max_rows sc \<Longrightarrow>
      now \<le> later \<Longrightarrow>
      live (sc_ttl sc) later (ps_view (snd (maybe_evict sc ok now s)) k) = live (sc_ttl sc) later (ps_view s k)"
    using f(2) [where n = "sc_max_rows sc"] f(3)
    by (cases "k \<in> set (expired_keys (now - sc_ttl sc) (ps_table s))")
      (auto simp: maybe_evict_def ps_view_def live_def Let_def split: option.splits)
qed

lemma ps_set_view:
  assumes "ps_ok s" "no_drop (io_flush_ok io) s"
  shows "ps_view (snd (ps_set sc io e s)) k \<in> {None, ((ps_view s)(de_key e \<mapsto> (de_description e, io_now io))) k}"
    and "has_room sc io e s \<Longrightarrow> io_now io \<le> later \<Longrightarrow>
      live (sc_ttl sc) later (ps_view (snd (ps_set sc io e s)) k) =
      live (sc_ttl sc) later (((ps_view s)(de_key e \<mapsto> (de_description e, io_now io))) k)"
  using maybe_evict_view [OF ps_buffer_spec(3) [OF assms(2,1), of sc e]] ps_buffer_spec(1,2) [OF assms(2), of sc e]
  by (simp_all add: ps_set_buffer has_room_def)

lemma ps_set_ok: "ps_ok s \<Longrightarrow> ps_ok (snd (ps_set sc io e s))"
  using flush_ok [of "s\<lparr>ps_pending := ps_pending s @ [(e, io_now io)], ps_timer := False\<rparr>" "io_flush_ok io"]
  by (auto simp: ps_set_def Let_def maybe_evict_def ps_ok_def vd_evict_distinct)

text \<open>The store with the answers \<open>ok\<close> of SQLite, at the times of its operations.\<close>

definition ps_put :: "store_config \<Rightarrow> bool \<Rightarrow> bool \<Rightarrow> int \<Rightarrow> description_entry \<Rightarrow> pstore \<Rightarrow> pstore" where
  "ps_put sc fl ev now e s = snd (ps_set sc \<lparr>io_now = now, io_flush_ok = fl, io_evict_ok = ev\<rparr> e s)"

interpretation ps: expiring_store ps_view ps_ok "sc_ttl sc" "ps_get sc" "ps_put sc fl ev" "no_drop fl"
    "\<lambda>now. has_room sc \<lparr>io_now = now, io_flush_ok = fl, io_evict_ok = ev\<rparr>" for sc fl ev
  using ps_set_view [where io = "\<lparr>io_now = _, io_flush_ok = fl, io_evict_ok = ev\<rparr>"]
  by unfold_locales (simp_all add: ps_get_spec ps_put_def ps_set_ok)

subsection \<open>Runs of the store\<close>

datatype store_op =
    O_Set store_io description_entry
  | O_Get int string
  | O_Timer bool
  | O_Warm bool int nat
  | O_Close bool

fun store_step :: "store_config \<Rightarrow> store_op \<Rightarrow> pstore \<Rightarrow> pstore" where
  "store_step sc (O_Set io e) s = snd (ps_set sc io e s)"
| "store_step sc (O_Get now k) s = snd (ps_get sc now k s)"
| "store_step sc (O_Timer ok) s = ps_timer_fires ok s"
| "store_step sc (O_Warm ok now n) s = snd (ps_warm sc ok now n s)"
| "store_step sc (O_Close ok) s = ps_close ok s"

fun op_kept :: "store_op \<Rightarrow> pstore \<Rightarrow> bool" where
  "op_kept (O_Set io e) s = no_drop (io_flush_ok io) s"
| "op_kept (O_Get now k) s = True"
| "op_kept (O_Timer ok) s = no_drop ok s"
| "op_kept (O_Warm ok now n) s = no_drop ok s"
| "op_kept (O_Close ok) s = no_drop ok s"

fun kept_run :: "store_config \<Rightarrow> store_op list \<Rightarrow> pstore \<Rightarrow> bool" where
  "kept_run sc [] s = True"
| "kept_run sc (x # xs) s = (op_kept x s \<and> kept_run sc xs (store_step sc x s))"

text \<open>Every eviction of the run finds room.\<close>

fun roomy_run :: "store_config \<Rightarrow> store_op list \<Rightarrow> pstore \<Rightarrow> bool" where
  "roomy_run sc [] s = True"
| "roomy_run sc (x # xs) s =
     ((case x of O_Set io e \<Rightarrow> has_room sc io e s | _ \<Rightarrow> True) \<and> roomy_run sc xs (store_step sc x s))"

fun write_times :: "store_op list \<Rightarrow> int list" where
  "write_times [] = []"
| "write_times (O_Set io e # xs) = io_now io # write_times xs"
| "write_times (_ # xs) = write_times xs"

text \<open>The map the store stands for: only a write changes it.\<close>

fun map_step :: "store_op \<Rightarrow> (string \<Rightarrow> (string \<times> int) option) \<Rightarrow> string \<Rightarrow> (string \<times> int) option" where
  "map_step (O_Set io e) m = m(de_key e \<mapsto> (de_description e, io_now io))"
| "map_step _ m = m"

lemma closed_view [simp]: "ps_view (s\<lparr>ps_closed := b\<rparr>) = ps_view s"
  by (rule ext) (simp add: ps_view_def split: option.splits)

lemma no_drop_timer [simp]: "no_drop ok (s\<lparr>ps_timer := b\<rparr>) = no_drop ok s"
  by (simp add: no_drop_def)

lemma ps_ok_frame [simp]: "ps_ok (s\<lparr>ps_timer := b\<rparr>) = ps_ok s" "ps_ok (s\<lparr>ps_closed := b\<rparr>) = ps_ok s"
  by (simp_all add: ps_ok_def)

lemma store_step_view:
  "ps_ok s \<Longrightarrow> op_kept x s \<Longrightarrow> (\<And>io e. x \<noteq> O_Set io e) \<Longrightarrow> ps_view (store_step sc x s) = ps_view s"
  by (cases x)
     (auto simp: ps_get_spec ps_timer_fires_def ps_warm_def ps_close_def flush_view Let_def)

lemma store_step_ok: "ps_ok s \<Longrightarrow> ps_ok (store_step sc x s)"
  by (cases x)
     (auto simp: ps_set_ok ps_get_spec ps_timer_fires_def ps_warm_def ps_close_def flush_ok Let_def)

lemma store_run_ok: "ps_ok s \<Longrightarrow> ps_ok (fold (store_step sc) xs s)"
  by (induction xs arbitrary: s) (auto simp: store_step_ok)

text \<open>The store holds an entry of the map or nothing, and misses no entry that is still alive.\<close>

lemma store_run_below:
  "ps_ok s \<Longrightarrow> kept_run sc xs s \<Longrightarrow> (\<And>k. ps_view s k \<in> {None, m k}) \<Longrightarrow>
   ps_view (fold (store_step sc) xs s) k \<in> {None, fold map_step xs m k}"
proof (induction xs arbitrary: s m)
  case (Cons x xs)
  have "ps_view (store_step sc x s) k \<in> {None, map_step x m k}" for k
  proof (cases x)
    case (O_Set io e)
    then show ?thesis
      using ps_set_view(1) [of s io sc e k] Cons.prems(1,2) Cons.prems(3) [of k] by (auto split: if_splits)
  qed (use store_step_view [of s x sc] Cons.prems in auto)
  then show ?case using Cons.IH [of "store_step sc x s"] Cons.prems(1,2) by (simp add: store_step_ok)
qed simp

lemma store_run_live:
  "ps_ok s \<Longrightarrow> kept_run sc xs s \<Longrightarrow> roomy_run sc xs s \<Longrightarrow> sorted (seen # write_times xs @ [now]) \<Longrightarrow>
   (\<And>k later. seen \<le> later \<Longrightarrow> live (sc_ttl sc) later (ps_view s k) = live (sc_ttl sc) later (m k)) \<Longrightarrow>
   live (sc_ttl sc) now (ps_view (fold (store_step sc) xs s) k) = live (sc_ttl sc) now (fold map_step xs m k)"
proof (induction xs arbitrary: s m seen)
  case (Cons x xs)
  note prems = Cons.prems
  have ok: "ps_ok (store_step sc x s)" by (rule store_step_ok [OF prems(1)])
  have runs: "kept_run sc xs (store_step sc x s)" "roomy_run sc xs (store_step sc x s)" using prems(2,3) by simp_all
  show ?case
  proof (cases "\<exists>io e. x = O_Set io e")
    case True
    then obtain io e where x: "x = O_Set io e" by blast
    have t: "seen \<le> io_now io" "sorted (io_now io # write_times xs @ [now])" using prems(4) by (simp_all add: x)
    have "live (sc_ttl sc) later (ps_view (store_step sc x s) k) = live (sc_ttl sc) later (map_step x m k)"
      if "io_now io \<le> later" for k later
      using ps_set_view(2) [OF prems(1), of io sc e later k] prems(2,3) prems(5) [of later k] that t(1)
      by (simp add: x)
    from Cons.IH [OF ok runs t(2) this] show ?thesis by simp
  next
    case False
    then have v: "ps_view (store_step sc x s) = ps_view s" "map_step x m = m"
      using store_step_view [OF prems(1), of x sc] prems(2) by (auto, cases x) auto
    have "sorted (seen # write_times xs @ [now])" using prems(4) False by (cases x) auto
    from Cons.IH [OF ok runs this, of m] prems(5) show ?thesis by (simp add: v)
  qed
qed simp

text \<open>
  C27: The buffered store is a map with expiry. Over any run of writes, reads, timer flushes, warm-ups,
  closes and evictions from a table with distinct keys in which no batch is dropped (SQLite does not
  refuse three flushes in a row), a lookup answers what a plain map updated by the writes alone
  answers, or nothing: never an older description. It answers exactly as the map with expiry, the
  latest description of the key unless it is older than the time to live, when the clock does not run
  backwards and every eviction finds the table within its row limit once expired rows have left.
  When and in which batches the buffer reaches the table, and when expired rows leave it, cannot be seen.
\<close>

theorem store_is_a_map:
  assumes "distinct (vd_keys (ps_table s))" and "kept_run sc xs s"
  shows "let answer = fst (ps_get sc now k (fold (store_step sc) xs s));
             expected = live (sc_ttl sc) now (fold map_step xs (ps_view s) k)
         in if roomy_run sc xs s \<and> sorted (write_times xs @ [now]) then answer = expected
            else answer \<in> {None, expected}"
proof -
  have ok: "ps_ok s" using assms(1) by (simp add: ps_ok_def)
  have got: "fst (ps_get sc now k (fold (store_step sc) xs s)) =
      live (sc_ttl sc) now (ps_view (fold (store_step sc) xs s) k)"
    by (rule ps.get_value [OF store_run_ok [OF ok]])
  have below: "live (sc_ttl sc) now (ps_view (fold (store_step sc) xs s) k) \<in>
      {None, live (sc_ttl sc) now (fold map_step xs (ps_view s) k)}"
    using store_run_below [OF ok assms(2), of "ps_view s" k] by (auto simp: live_def)
  define seen where "seen = hd (write_times xs @ [now])"
  have "sorted (write_times xs @ [now]) \<Longrightarrow> sorted (seen # write_times xs @ [now])"
    by (cases "write_times xs") (auto simp: seen_def)
  then show ?thesis
    using store_run_live [OF ok assms(2), of seen now "ps_view s" k] below
    by (simp add: got Let_def)
qed

definition cat_entry :: description_entry where
  "cat_entry = \<lparr>de_key = ''k'', de_description = ''a cat'', de_image_hash = ''h'', de_model = ''m'', de_prompt_version = 1\<rparr>"

definition write_at :: "int \<Rightarrow> store_op" where
  "write_at t = O_Set \<lparr>io_now = t, io_flush_ok = True, io_evict_ok = True\<rparr> cat_entry"

definition small_store :: store_config where
  "small_store = \<lparr>sc_ttl = 100, sc_max_rows = 10, sc_flush_batch = 2\<rparr>"

text \<open>A fresh store on a real clock: the first write runs an eviction, the flush comes later.\<close>

theorem store_is_a_map_witness:
  "fst (ps_get small_store 60090 ''k'' (fold (store_step small_store)
      [write_at 60005, O_Timer False, write_at 60020, O_Get 60030 ''k'', O_Warm True 60040 3] (new_pstore []))) =
   Some ''a cat''"
proof -
  let ?ops = "[write_at 60005, O_Timer False, write_at 60020, O_Get 60030 ''k'', O_Warm True 60040 3]"
  have "distinct (vd_keys (ps_table (new_pstore [])))" "kept_run small_store ?ops (new_pstore [])"
    by code_simp+
  note answer = store_is_a_map [OF this, of 60090 "''k''"]
  have "roomy_run small_store ?ops (new_pstore [])" "sorted (write_times ?ops @ [60090])"
    by code_simp+
  then have "fst (ps_get small_store 60090 ''k'' (fold (store_step small_store) ?ops (new_pstore []))) =
      live (sc_ttl small_store) 60090 (fold map_step ?ops (ps_view (new_pstore [])) ''k'')"
    using answer by (simp only: Let_def simp_thms if_True)
  moreover have "live (sc_ttl small_store) 60090 (fold map_step ?ops (ps_view (new_pstore [])) ''k'') = Some ''a cat''"
    by code_simp
  ultimately show ?thesis by simp
qed

subsection \<open>Eviction\<close>

lemma by_access_set [simp]: "set (by_access t) = set t"
  by (simp add: by_access_def)

lemma by_access_length [simp]: "length (by_access t) = length t"
  by (simp add: by_access_def)

lemma by_access_sorted: "sorted (map vr_accessed (by_access t))"
  by (simp add: by_access_def)

lemma by_access_keys: "distinct (vd_keys t) \<Longrightarrow> distinct (vd_keys (by_access t))"
  by (metis by_access_def distinct_map mset_eq_imp_distinct_iff mset_map mset_sort)

lemma take_drop_sorted:
  assumes "sorted (map f xs)" "x \<in> set (take n xs)" "y \<in> set (drop n xs)"
  shows "f x \<le> f y"
proof -
  have "sorted (map f (take n xs) @ map f (drop n xs))"
    using assms(1) by (simp flip: map_append)
  then show ?thesis using assms(2,3) by (auto simp: sorted_append)
qed

text \<open>Dropping the keys of some rows of a table with distinct keys drops these rows.\<close>

lemma vd_drop_rows:
  assumes "distinct (vd_keys t)" "set rs \<subseteq> set t"
  shows "set (vd_drop (map vr_key rs) t) = set t - set rs"
proof -
  have "r \<in> set rs \<longleftrightarrow> vr_key r \<in> vr_key ` set rs" if "r \<in> set t" for r
    using assms that by (auto simp: distinct_map inj_on_def)
  then show ?thesis by (auto simp: vd_drop_def)
qed

lemma card_distinct_keys: "distinct (vd_keys t) \<Longrightarrow> card (set t) = length t"
  by (simp add: distinct_card distinct_map)

text \<open>
  An eviction keeps the table within its bound and drops the right rows. With distinct keys at
  most \<open>maxRows\<close> rows remain, the result counts the rows dropped, nothing is changed or added, and
  a row that has not expired is dropped only if no remaining row was accessed before it.
\<close>

theorem eviction_bounds_the_table:
  assumes "distinct (vd_keys t)"
  shows "case vd_evict cutoff max_rows t of (n, t') \<Rightarrow>
    length t' \<le> max_rows \<and> n = length t - length t' \<and> set t' \<subseteq> set t \<and>
    (\<forall>r\<in>set t - set t'. vr_created r < cutoff \<or> (\<forall>r'\<in>set t'. vr_accessed r \<le> vr_accessed r'))"
proof -
  define old where "old = take 1000 (by_access (filter (\<lambda>r. vr_created r < cutoff) t))"
  define t1 where "t1 = vd_drop (map vr_key old) t"
  have old: "set old \<subseteq> set t" "\<And>r. r \<in> set old \<Longrightarrow> vr_created r < cutoff"
    by (auto simp: old_def dest: in_set_takeD)
  have d1: "distinct (vd_keys t1)" unfolding t1_def vd_drop_def by (rule distinct_filter_keys [OF assms])
  have s1: "set t1 = set t - set old" unfolding t1_def by (rule vd_drop_rows [OF assms old(1)])
  let ?k = "length t1 - max_rows"
  define over where "over = take ?k (by_access t1)"
  define t2 where "t2 = (if max_rows < length t1 then vd_drop (map vr_key over) t1 else t1)"
  have ev: "vd_evict cutoff max_rows t = (length t - length t2, t2)"
    by (simp add: vd_evict_def expired_keys_def over_def t1_def t2_def old_def Let_def)
  show ?thesis
  proof (cases "max_rows < length t1")
    case False
    then show ?thesis using s1 old(2) by (auto simp: ev t2_def)
  next
    case True
    have o: "set over \<subseteq> set t1" by (auto simp: over_def dest: in_set_takeD)
    have s2: "set t2 = set t1 - set over"
      using True vd_drop_rows [OF d1 o] by (simp add: t2_def)
    have d2: "distinct (vd_keys t2)"
      using True distinct_filter_keys [OF d1] by (simp add: t2_def vd_drop_def)
    have db: "distinct (by_access t1)" using by_access_keys [OF d1] by (simp add: distinct_map)
    have s2': "set t2 = set (drop ?k (by_access t1))"
    proof -
      have "set t1 = set over \<union> set (drop ?k (by_access t1))"
        unfolding over_def by (metis append_take_drop_id by_access_set set_append)
      moreover have "set over \<inter> set (drop ?k (by_access t1)) = {}"
        unfolding over_def by (rule set_take_disj_set_drop_if_distinct [OF db]) simp
      ultimately show ?thesis using s2 by blast
    qed
    have "length t2 = card (set (drop ?k (by_access t1)))"
      using card_distinct_keys [OF d2] s2' by simp
    also have "\<dots> \<le> length (drop ?k (by_access t1))" by (rule card_length)
    also have "\<dots> \<le> max_rows" using True by simp
    finally have len: "length t2 \<le> max_rows" .
    have "vr_accessed r \<le> vr_accessed r'" if "r \<in> set over" "r' \<in> set t2" for r r'
      using take_drop_sorted [OF by_access_sorted] that s2' unfolding over_def by blast
    then show ?thesis using len s1 s2 old(2) by (auto simp: ev)
  qed
qed

definition demo_row :: "string \<Rightarrow> int \<Rightarrow> vision_row" where
  "demo_row k t = \<lparr>vr_key = k, vr_image_hash = ''h'', vr_model = ''m'', vr_prompt_version = 1,
     vr_description = ''d'', vr_created = t, vr_accessed = t\<rparr>"

theorem eviction_bounds_the_table_witness:
  "length (snd (vd_evict 5 1 [demo_row ''a'' 9, demo_row ''b'' 3, demo_row ''c'' 7])) \<le> 1"
proof -
  have "distinct (vd_keys [demo_row ''a'' 9, demo_row ''b'' 3, demo_row ''c'' 7])"
    by (simp add: demo_row_def)
  from eviction_bounds_the_table [OF this, where cutoff = 5 and max_rows = 1] show ?thesis by (auto split: prod.splits)
qed

subsection \<open>What reaches the store\<close>

text \<open>Every description held, pending or written, satisfies \<open>P\<close>.\<close>

definition store_all :: "(string \<Rightarrow> bool) \<Rightarrow> pstore \<Rightarrow> bool" where
  "store_all P s =
     ((\<forall>(e, t)\<in>set (ps_pending s). P (de_description e)) \<and>
      (\<forall>r\<in>set (ps_table s). P (vr_description r)))"

definition cache_all :: "(string \<Rightarrow> bool) \<Rightarrow> 'l dcache \<Rightarrow> bool" where
  "cache_all P c = (case dc_store c of None \<Rightarrow> True | Some s \<Rightarrow> store_all P s)"

lemma upsert_descriptions:
  "P (de_description e) \<Longrightarrow> \<forall>r\<in>set t. P (vr_description r) \<Longrightarrow>
   \<forall>r\<in>set (vd_upsert e now t). P (vr_description r)"
  by (induction e now t rule: vd_upsert.induct) auto

lemma upsert_all_descriptions:
  "\<forall>(e, n)\<in>set ws. P (de_description e) \<Longrightarrow> \<forall>r\<in>set t. P (vr_description r) \<Longrightarrow>
   \<forall>r\<in>set (upsert_all ws t). P (vr_description r)"
proof (induction ws t rule: upsert_all.induct)
  case (2 e now ws t)
  have "\<forall>r\<in>set (vd_upsert e now t). P (vr_description r)"
    by (rule upsert_descriptions) (use 2 in auto)
  then show ?case using 2 by simp
qed simp

lemma flush_all: "store_all P s \<Longrightarrow> store_all P (ps_flush_now ok s)"
  using upsert_all_descriptions [of "ps_pending s" P "ps_table s"]
  by (auto simp: ps_flush_now_def store_all_def Let_def)

lemma ps_get_all: "store_all P s \<Longrightarrow> store_all P (snd (ps_get sc now k s))"
  by (auto simp: ps_get_def store_all_def vd_get_def split: option.splits)

lemma maybe_evict_all: "store_all P s \<Longrightarrow> store_all P (snd (maybe_evict sc ok now s))"
  using vd_evict_sub by (fastforce simp: maybe_evict_def store_all_def Let_def)

lemma ps_set_all:
  assumes "store_all P s" "P (de_description e)"
  shows "store_all P (snd (ps_set sc io e s))"
proof -
  let ?s = "s\<lparr>ps_pending := ps_pending s @ [(e, io_now io)]\<rparr>"
  have "store_all P ?s" "\<And>b. store_all P (?s\<lparr>ps_timer := b\<rparr>)"
    using assms by (auto simp: store_all_def)
  then show ?thesis
    by (simp add: ps_set_def Let_def maybe_evict_all flush_all)
qed

lemma cache_put_all [simp]: "cache_all P (cache_put L k d now c) = cache_all P c"
  by (simp add: cache_put_def cache_all_def split: prod.splits)

lemma cache_get_all: "cache_get L k now c = (v, c') \<Longrightarrow> cache_all P c' = cache_all P c"
  by (auto simp: cache_get_def cache_all_def split: prod.splits)

lemma store_get_all: "store_get env k now c = (v, c') \<Longrightarrow> cache_all P c \<Longrightarrow> cache_all P c'"
  using ps_get_all [of P _ "ce_store_config env" now k]
  by (auto simp: store_get_def cache_all_def split: prod.splits option.splits)
     (metis snd_conv)

lemma store_set_all:
  "store_set env io e c = (ok, c') \<Longrightarrow> cache_all P c \<Longrightarrow> P (de_description e) \<Longrightarrow> cache_all P c'"
  using ps_set_all [of P _ e "ce_store_config env" io]
  by (auto simp: store_set_def cache_all_def split: prod.splits option.splits)
     (metis snd_conv)

lemma count_writes_all [simp]: "cache_all P (count_writes n c) = cache_all P c"
  by (simp add: count_writes_def cache_all_def)

lemma cache_counters [simp]:
  "cache_all P (c\<lparr>dc_hits := n\<rparr>) = cache_all P c" "cache_all P (c\<lparr>dc_misses := n\<rparr>) = cache_all P c"
  "cache_all P (c\<lparr>dc_persistent_hits := n\<rparr>) = cache_all P c"
  by (simp_all add: cache_all_def)

lemma get_image_only_all:
  "get_image_only L env now q c = (v, c') \<Longrightarrow> cache_all P c \<Longrightarrow> cache_all P c'"
  by (auto simp: get_image_only_def Let_def cache_get_all dest: store_get_all
      split: prod.splits option.splits)

lemma store_dual_all:
  "store_dual L env io q ctx d c = (ok, c') \<Longrightarrow> cache_all P c \<Longrightarrow> P d \<Longrightarrow> cache_all P c'"
  by (auto simp: store_dual_def Let_def query_entry_def dest!: store_set_all [where P = P]
      split: prod.splits if_splits)

lemma get_or_compute_all:
  assumes "get_or_compute L env io q compute cacheable ctx c = (r, c')" "cache_all P c"
    and "\<And>v. compute = Some v \<Longrightarrow> (case cacheable of None \<Rightarrow> True | Some ok \<Rightarrow> ok v) \<Longrightarrow> P v"
  shows "cache_all P c'"
  using assms
  by (auto simp: get_or_compute_def Let_def cache_get_all query_entry_def
      dest!: store_get_all [where P = P] get_image_only_all [where P = P]
        store_dual_all [where P = P] store_set_all [where P = P]
      split: prod.splits option.splits if_splits)

end
