(* ===== verification/Flight_Props.thy ===== *)
theory Flight_Props
  imports Vision_Flight Store_Props
begin

text \<open>
  What the map of images in flight guarantees to concurrent requests, where it does not, and what
  never reaches the description cache.
\<close>

subsection \<open>One call per image\<close>

text \<open>
  C24: The vision model is asked about an image at most once at a time. In every state the
  processor reaches, however the requests interleave, two jobs that are transcoding or calling
  under one cache key are the same job.
\<close>

theorem one_call_per_image:
  assumes "flight_reachable L rt cfg c es s"
    and "works_on s t = Some key" and "works_on s t' = Some key"
  shows "t = t'"
  using flight_invD(1) [OF reachable_flight_inv [OF assms(1)] assms(2)]
    flight_invD(1) [OF reachable_flight_inv [OF assms(1)] assms(3)] by simp

definition plain_lru :: "(string \<times> string) list lru" where
  "plain_lru =
     \<lparr>lru_has = (\<lambda>l k now. obj_get l k \<noteq> None), lru_get = (\<lambda>l k now. (obj_get l k, l, 0)),
      lru_set = (\<lambda>l k v now. (obj_set l k v, 0))\<rparr>"

definition empty_cache :: "(string \<times> string) list dcache" where
  "empty_cache =
     \<lparr>dc_lru = [], dc_store = None, dc_hits = 0, dc_misses = 0, dc_evictions = 0,
      dc_persistent_hits = 0, dc_persistent_writes = 0\<rparr>"

definition flight_runtime :: runtime where
  "flight_runtime =
     \<lparr>rt_cache = \<lparr>ce_hasher = \<lparr>sha = (\<lambda>s. s), num_text = (\<lambda>r. ''0'')\<rparr>,
                  ce_store_config = \<lparr>sc_ttl = 1000, sc_max_rows = 10, sc_flush_batch = 5\<rparr>\<rparr>,
      rt_parse = (\<lambda>s. None), rt_decode = Some, rt_encode = (\<lambda>s. s)\<rparr>"

definition flight_config :: vision_config where
  "flight_config =
     \<lparr>vf_strategy = Always, vf_target = Some ''http://v'', vf_model = Some ''m'', vf_prompt = ''Describe.'',
      vf_prompt_version = 1, vf_max_images = 2, vf_reasoning = None, vf_timeout_ms = 100,
      vf_cache_size = 10, vf_api_key = None, vf_force = False, vf_max_dimension = 64, vf_quality = 80,
      vf_format = ''jpeg'', vf_detail = ''low'', vf_intent = Some Intent_Off, vf_decomposition = None,
      vf_recent_count = None, vf_system_max = None\<rparr>"

definition flight_job :: image_job where
  "flight_job =
     \<lparr>ij_part = \<lparr>ip_media = None, ip_encoding = Base64, ip_data = ''QQ'', ip_adjacent = None,
                 ip_tool_result = False, ip_position = 1, ip_batch = 1, ip_system = None\<rparr>,
      ij_capture = None, ij_context = None\<rparr>"

definition flight_io :: store_io where
  "flight_io = \<lparr>io_now = 0, io_flush_ok = True, io_evict_ok = True\<rparr>"

definition flight_key :: string where
  "flight_key = query_key (rt_cache flight_runtime) (image_query flight_config ''QQ'') None"

lemma steps_one: "step s e s' \<Longrightarrow> steps step s [e] s'"
  using steps.more [of step s "[]" s e s'] steps.none [of step s] by simp

lemma steps_snoc:
  "steps (flight_step L rt cfg) s es s' \<Longrightarrow> flight_step L rt cfg s' e s'' \<Longrightarrow>
   steps (flight_step L rt cfg) s (es @ [e]) s''"
  by (rule steps.more)

text \<open>A run of one job up to its transcoding, and a second job that waits for it.\<close>

definition first_arrival :: "(string \<times> string) list flight" where
  "first_arrival =
     set_job 0 flight_job (Transcoding flight_key ''QQ'',
       (new_processor empty_cache)\<lparr>pr_inflight := [(flight_key, 0)]\<rparr>) (new_flight empty_cache)"

lemma demo_start:
  "start_image plain_lru flight_runtime flight_config flight_io 0 flight_job (new_processor empty_cache) =
     (Transcoding flight_key ''QQ'', (new_processor empty_cache)\<lparr>pr_inflight := [(flight_key, 0)]\<rparr>)"
  "start_image plain_lru flight_runtime flight_config flight_io 1 flight_job
     ((new_processor empty_cache)\<lparr>pr_inflight := [(flight_key, 0)]\<rparr>) =
     (Waiting 0, (new_processor empty_cache)\<lparr>pr_inflight := [(flight_key, 0)]\<rparr>)"
  by (simp_all add: start_image_def peek_cache_def get_or_compute_def store_get_def plain_lru_def
      empty_cache_def new_processor_def flight_job_def flight_runtime_def flight_key_def Let_def
      context_hash_def has_context_def)

lemma first_arrival_reachable:
  "flight_reachable plain_lru flight_runtime flight_config empty_cache [Arrive 0] first_arrival"
proof -
  have p: "fl_proc (new_flight empty_cache) = new_processor empty_cache" by (simp add: new_flight_def)
  have "flight_step plain_lru flight_runtime flight_config (new_flight empty_cache) (Arrive 0) first_arrival"
    using flight_step.arrive [of "new_flight empty_cache" 0 plain_lru flight_runtime flight_config flight_job flight_io]
    unfolding first_arrival_def p demo_start by (simp add: new_flight_def)
  then show ?thesis unfolding flight_reachable_def by (rule steps_one)
qed

definition second_arrival :: "(string \<times> string) list flight" where
  "second_arrival = set_job 1 flight_job (Waiting 0, fl_proc first_arrival) first_arrival"

lemma second_arrival_reachable:
  "flight_reachable plain_lru flight_runtime flight_config empty_cache [Arrive 0, Arrive 1] second_arrival"
proof -
  have p: "fl_proc first_arrival = (new_processor empty_cache)\<lparr>pr_inflight := [(flight_key, 0)]\<rparr>"
    and n: "fl_jobs first_arrival 1 = None"
    by (simp_all add: first_arrival_def new_flight_def)
  have "flight_step plain_lru flight_runtime flight_config first_arrival (Arrive 1) second_arrival"
    using flight_step.arrive [OF n, of plain_lru flight_runtime flight_config flight_job flight_io]
    unfolding second_arrival_def p demo_start .
  from steps_snoc [OF first_arrival_reachable [unfolded flight_reachable_def] this]
  show ?thesis by (simp add: flight_reachable_def)
qed

theorem one_call_per_image_witness:
  "\<forall>t. (if works_on second_arrival t = Some flight_key then t = 0 else True)"
proof -
  have "works_on second_arrival 0 = Some flight_key"
    by (simp add: second_arrival_def first_arrival_def)
  then show ?thesis using one_call_per_image [OF second_arrival_reachable] by simp
qed

subsection \<open>Waiting requests\<close>

text \<open>
  C25: As long as the capture database accepts the row of every call, a request that waits for
  another request's description is never abandoned: the promise it waits for is settled, or the job
  that will settle it is still transcoding or calling.
\<close>

theorem waiting_requests_are_served:
  assumes "flight_reachable L rt cfg c es s"
    and "list_all row_written es"
    and "fl_jobs s t = Some (job, Waiting w)"
  shows "settled s w \<noteq> None \<or> works_on s w \<noteq> None"
proof -
  have "owners_alive (new_flight c)"
    by (simp add: owners_alive_def new_flight_def new_processor_def)
  then have "flight_inv s \<and> owners_alive s"
    using assms(1,2) flights.run_extra [OF _ flight_inv_new]
    by (fastforce simp: flight_reachable_def list_all_iff)
  then show ?thesis
    using flight_invD(3) [of s t job w] assms(3) by (fastforce simp: owners_alive_def)
qed

theorem waiting_requests_are_served_witness:
  "fl_jobs second_arrival 1 = Some (flight_job, Waiting 0) \<and> settled second_arrival 0 = None \<and>
   works_on second_arrival 0 \<noteq> None"
proof -
  have j: "fl_jobs second_arrival 1 = Some (flight_job, Waiting 0)"
    and n: "settled second_arrival 0 = None"
    by (simp_all add: second_arrival_def first_arrival_def new_processor_def)
  show ?thesis
    using waiting_requests_are_served [OF second_arrival_reachable, of 1 flight_job 0] j n by simp
qed

text \<open>The entry of a job whose capture row was refused stays, and nobody settles its promise.\<close>

definition stranded :: "nat \<Rightarrow> string \<Rightarrow> 'l flight \<Rightarrow> bool" where
  "stranded tid key s = (has_failed s tid \<and> in_flight s key = Some tid \<and> settled s tid = None)"

lemma stranded_step:
  "flight_step L rt cfg s e s' \<Longrightarrow> flight_inv s \<Longrightarrow> stranded tid key s \<Longrightarrow>
   stranded tid key s' \<and>
   (fl_jobs s t = Some (j, Waiting tid) \<longrightarrow> fl_jobs s' t = Some (j, Waiting tid))"
proof (induction rule: flight_step.induct)
  case (arrive s i job io)
  obtain ph p' where r: "start_image L rt cfg io i job (fl_proc s) = (ph, p')" by force
  show ?case
    using start_image_effect [OF r] arrive.prems(2) not_here [OF arrive.hyps] arrive.hyps
    by (auto simp: r stranded_def)
next
  case (wake s i job owner d now)
  obtain ph p' where r: "wake_image rt cfg now job d (fl_proc s) = (ph, p')" by force
  show ?case
    using wake_image_effect [OF r] wake.prems(2) wake.hyps
    by (auto simp: r stranded_def has_failed_def)
next
  case (transcode_ends s i job k bytes obs ins now)
  obtain ph p' where r: "transcoded cfg now i job k bytes obs ins (fl_proc s) = (ph, p')" by force
  have w: "works_on s i = Some k" using transcode_ends.hyps by (simp add: works_on_def)
  have "in_flight s k = Some i" by (rule flight_invD(1) [OF transcode_ends.prems(1) w])
  then show ?case
    using transcoded_effect [OF r] transcode_ends.prems(2) transcode_ends.hyps
    by (auto simp: r stranded_def has_failed_def)
next
  case (call_ends s i job k bytes img started row craft obs r p io upd)
  obtain ph p' where a: "answered L rt cfg io i job (Calling k bytes img started row) r upd p = (ph, p')"
    by force
  have w: "works_on s i = Some k" using call_ends.hyps by (simp add: works_on_def)
  have "in_flight s k = Some i" by (rule flight_invD(1) [OF call_ends.prems(1) w])
  then show ?case
    using answered_effect [OF a] ask_model_frame [OF call_ends.hyps(2)] call_ends.prems(2) call_ends.hyps
    by (auto simp: a stranded_def has_failed_def)
next
  case (clear s)
  then show ?case by (simp add: stranded_def has_failed_def)
qed

lemma stranded_run:
  "steps (flight_step L rt cfg) s es s' \<Longrightarrow> flight_inv s \<Longrightarrow> stranded tid key s \<Longrightarrow>
   stranded tid key s' \<and>
   (fl_jobs s t = Some (j, Waiting tid) \<longrightarrow> fl_jobs s' t = Some (j, Waiting tid))"
proof (induction rule: steps.induct)
  case (more s es s' e s'')
  have "flight_inv s'" using flights.run_inv [OF more.hyps(1)] more.prems(1) .
  then show ?case using more stranded_step [OF more.hyps(2)] by blast
qed simp

text \<open>
  C26: A refused capture row blocks the image for good. When the insert of the row (or the change
  of its state) throws after the image was entered in the map, then in every continuation the map
  still names the failed job, its promise is never settled, and every request that waits for it
  waits forever; a later request for the same image that misses the cache joins them.
\<close>

theorem refused_row_strands_waiters:
  assumes "flight_reachable L rt cfg c es s"
    and "fl_jobs s tid = Some (job, Transcoding key bytes)"
    and "settled s tid = None"
    and "ins = Insert_Throws \<or> ins = State_Throws i"
    and "s1 = set_job tid job (transcoded cfg now tid job key bytes (Transcoded img) ins (fl_proc s)) s"
    and "steps (flight_step L rt cfg) s1 es' s2"
  shows "in_flight s2 key = Some tid \<and> settled s2 tid = None \<and>
    (if fl_jobs s t = Some (j, Waiting tid) then fl_jobs s2 t = Some (j, Waiting tid) else True)"
proof -
  have inv: "flight_inv s" by (rule reachable_flight_inv [OF assms(1)])
  have w: "works_on s tid = Some key" using assms(2) by (simp add: works_on_def)
  have step: "flight_step L rt cfg s (Transcode_Ends tid (Transcoded img) ins) s1"
    unfolding assms(5) by (rule flight_step.transcode_ends [OF assms(2)])
  have st: "stranded tid key s1"
    using assms(3,4) flight_invD(1) [OF inv w]
    by (auto simp: assms(5) stranded_def transcoded_def Let_def)
  have keep: "fl_jobs s t = Some (j, Waiting tid) \<Longrightarrow> fl_jobs s1 t = Some (j, Waiting tid)"
    using assms(2) by (auto simp: assms(5))
  show ?thesis
    using stranded_run [OF assms(6) flight_step_inv [OF step inv] st, of t j] keep
    by (auto simp: stranded_def)
qed

theorem refused_row_strands_waiters_witness:
  "\<exists>s2. steps (flight_step plain_lru flight_runtime flight_config) second_arrival
          [Transcode_Ends 0 (Transcoded ''X'') Insert_Throws] s2 \<and>
        fl_jobs s2 1 = Some (flight_job, Waiting 0)"
proof -
  let ?s1 = "set_job 0 flight_job
    (transcoded flight_config 0 0 flight_job flight_key ''QQ'' (Transcoded ''X'') Insert_Throws
      (fl_proc second_arrival)) second_arrival"
  have j: "fl_jobs second_arrival 0 = Some (flight_job, Transcoding flight_key ''QQ'')"
    and n: "settled second_arrival 0 = None"
    and w: "fl_jobs second_arrival 1 = Some (flight_job, Waiting 0)"
    by (simp_all add: second_arrival_def first_arrival_def new_processor_def)
  have run: "steps (flight_step plain_lru flight_runtime flight_config) second_arrival
      [Transcode_Ends 0 (Transcoded ''X'') Insert_Throws] ?s1"
    by (rule steps_one) (rule flight_step.transcode_ends [OF j])
  have "fl_jobs ?s1 1 = Some (flight_job, Waiting 0)"
    using refused_row_strands_waiters [OF second_arrival_reachable j n _ refl steps.none,
        of Insert_Throws undefined 0 "''X''" 1 flight_job] w by simp
  then show ?thesis using run by blast
qed

subsection \<open>Failures are not remembered\<close>

abbreviation clean :: "'l dcache \<Rightarrow> bool" where
  "clean \<equiv> cache_all (\<lambda>d. \<not> is_failure_placeholder d)"

lemma add_record_cache [simp]: "pr_cache (add_record cfg now mk p) = pr_cache p"
  by (simp add: add_record_def)

lemma start_image_clean:
  assumes "clean (pr_cache p)"
  shows "clean (pr_cache (snd (start_image L rt cfg io tid job p)))"
proof -
  have "clean c'" if "peek_cache L rt io q ctx (pr_cache p) = (v, c')" for q ctx v c'
    using that assms get_or_compute_all [where compute = None and cacheable = None]
    by (fastforce simp: peek_cache_def split: prod.splits)
  then show ?thesis
    using assms by (auto simp: start_image_def Let_def split: prod.splits option.splits)
qed

lemma transcoded_clean:
  "clean (pr_cache p) \<Longrightarrow> clean (pr_cache (snd (transcoded cfg now tid job key bytes obs ins p)))"
  by (auto simp: transcoded_def settle_flight_def Let_def
      split: transcode_obs.splits insert_obs.splits option.splits)

lemma answered_clean:
  assumes "clean (pr_cache p)"
  shows "clean (pr_cache (snd (answered L rt cfg io tid job ph r upd p)))"
proof (cases ph)
  case (Calling key bytes img started row)
  let ?ctx = "context_hash (ce_hasher (rt_cache rt)) cfg (ij_context job)"
  obtain res c where g: "get_or_compute L (rt_cache rt) io (image_query cfg bytes) (Some (cr_description r))
      (Some (\<lambda>d. \<not> is_failure_placeholder d)) ?ctx (pr_cache p) = (res, c)" by force
  have "clean c" by (rule get_or_compute_all [OF g assms]) simp
  then show ?thesis
    by (auto simp: Calling answered_def g settle_flight_def Let_def split: lookup_result.splits option.splits)
qed (use assms in \<open>simp_all add: answered_def\<close>)

lemma ask_model_cache: "ask_model rt cfg job img craft obs p = (r, p') \<Longrightarrow> pr_cache p' = pr_cache p"
  by (auto simp: ask_model_def split: prod.splits)

lemma flight_step_clean:
  "flight_step L rt cfg s e s' \<Longrightarrow> clean (pr_cache (fl_proc s)) \<Longrightarrow> clean (pr_cache (fl_proc s'))"
proof (induction rule: flight_step.induct)
  case (wake s tid job owner d now)
  then show ?case by (simp add: wake_image_def Let_def)
next
  case (call_ends s tid job key bytes img started row craft obs r p io upd)
  then show ?case by (simp add: answered_clean ask_model_cache)
next
  case (clear s)
  then show ?case by (simp add: clear_records_def)
qed (simp_all add: start_image_clean transcoded_clean)

text \<open>
  A failure of the vision model is never remembered across requests. Starting from a
  persistent store without failure texts, in no state the processor reaches, whatever the gate, the
  network and the model answered, does the store hold, pending or written, a description that is a
  failure placeholder.
\<close>

theorem failures_are_not_persisted:
  assumes "flight_reachable L rt cfg c es s" and "clean c"
  shows "clean (pr_cache (fl_proc s))"
proof -
  have "steps (flight_step L rt cfg) (new_flight c) es s" using assms(1) by (simp add: flight_reachable_def)
  then show ?thesis
  proof (induction "new_flight c" es s rule: steps.induct)
    case none
    then show ?case using assms(2) by (simp add: new_flight_def new_processor_def)
  next
    case (more es s' e s'')
    then show ?case using flight_step_clean by blast
  qed
qed

theorem failures_are_not_persisted_witness: "clean (pr_cache (fl_proc second_arrival))"
  by (rule failures_are_not_persisted [OF second_arrival_reachable])
     (simp add: empty_cache_def cache_all_def)

end
