(* ===== verification/Usage_Snapshot.thy ===== *)
theory Usage_Snapshot
  imports Config_Loader
begin

text \<open>
  The usage the provider reports at \<open>/v1/usage\<close> (\<open>src/usage/\<close>): \<open>parser.ts\<close> turns a response into a
  snapshot, \<open>pricing-tier.ts\<close> and \<open>limits-schema.ts\<close> name the wallet tier, \<open>budget.ts\<close> picks the most
  urgent budget, \<open>fetch-usage.ts\<close> and \<open>reconciler.ts\<close> read a response once, \<open>aggregator.ts\<close> polls and
  keeps the last snapshot. A response is a JSON value; a field copied from it stays the value the
  provider sent. \<open>Date.parse\<close> is the argument \<open>parse\<close>, with no result for \<open>NaN\<close>; what a fetch
  brings is an observation. A request runs between \<open>refresh_starts\<close> and \<open>refresh_ends\<close>.
\<close>

subsection \<open>Wallet tiers\<close>

record wallet_tier_row =
  wt_tier :: nat
  wt_requests :: rat
  wt_window :: rat
  wt_concurrency :: rat

definition WALLET_TIERS :: "wallet_tier_row list" where
  "WALLET_TIERS =
     [\<lparr>wt_tier = 0, wt_requests = 500, wt_window = 18000, wt_concurrency = 4\<rparr>,
      \<lparr>wt_tier = 1, wt_requests = 1000, wt_window = 18000, wt_concurrency = 8\<rparr>,
      \<lparr>wt_tier = 2, wt_requests = 2000, wt_window = 18000, wt_concurrency = 12\<rparr>,
      \<lparr>wt_tier = 3, wt_requests = 4000, wt_window = 18000, wt_concurrency = 16\<rparr>]"

record wallet_tier_input =
  wi_requests_limit :: json
  wi_window_seconds :: json
  wi_concurrency_limit :: json

text \<open>\<open>None\<close> is the tier \<open>unknown\<close>.\<close>

definition derive_wallet_tier :: "wallet_tier_input \<Rightarrow> nat option" where
  "derive_wallet_tier i =
     (if wi_requests_limit i = JNull then None
      else map_option wt_tier (find (\<lambda>r. JNum (wt_requests r) = wi_requests_limit i) WALLET_TIERS))"

subsection \<open>Snapshots\<close>

record priority_entry =
  pe_category :: "json option"
  pe_label :: "json option"
  pe_models :: "json option"
  pe_used :: "json option"
  pe_over :: "json option"
  pe_mode :: "json option"
  pe_resets_at :: "rat option"

record usage_snapshot =
  us_ok :: bool
  us_fetched_at :: int
  us_user_id :: json
  us_wallet_tier :: "nat option"
  us_requests_limit :: json
  us_requests_hard_cap :: json
  us_requests_window :: json
  us_soft_limit :: json
  us_hard_cap :: json
  us_requests_in_window :: json
  us_weighted_in_window :: json
  us_requests_remaining :: json
  us_weighted_remaining :: json
  us_sessions :: json
  us_weighted_sessions :: json
  us_tokens_in :: json
  us_tokens_out :: json
  us_tokens_cached :: json
  us_window_started_at :: "rat option"
  us_window_resets_at :: "rat option"
  us_window_remaining :: json
  us_priority_low :: json
  us_boxed_until :: "rat option"
  us_boxed_reason :: json
  us_units_demoted :: json
  us_demoted_until :: "rat option"
  us_service_mode :: json
  us_service_resets_at :: "rat option"
  us_priority_budget :: "priority_entry list"

definition to_epoch_ms :: "(json \<Rightarrow> rat option) \<Rightarrow> json option \<Rightarrow> rat option" where
  "to_epoch_ms parse v =
     (case v of None \<Rightarrow> None | Some JNull \<Rightarrow> None | Some (JNum r) \<Rightarrow> Some r | Some j \<Rightarrow> parse j)"

definition map_entry :: "(json \<Rightarrow> rat option) \<Rightarrow> json \<Rightarrow> priority_entry option" where
  "map_entry parse e =
     (if e = JNull then None
      else Some \<lparr>pe_category = jget e ''category'', pe_label = jget e ''label'',
                 pe_models = jget e ''models'', pe_used = jget e ''used_pct'',
                 pe_over = jget e ''over_budget_today'', pe_mode = jget e ''mode'',
                 pe_resets_at = to_epoch_ms parse (jget e ''resets_at'')\<rparr>)"

text \<open>\<open>None\<close>: a null entry, or a budget that is truthy and no array, raises a \<open>TypeError\<close>.\<close>

definition map_priority_budget :: "(json \<Rightarrow> rat option) \<Rightarrow> json option \<Rightarrow> priority_entry list option" where
  "map_priority_budget parse raw =
     (case raw of
        None \<Rightarrow> Some []
      | Some j \<Rightarrow>
          (if \<not> truthy j then Some []
           else case jarr raw of
                  None \<Rightarrow> None
                | Some es \<Rightarrow> those (map (map_entry parse) es)))"

text \<open>
  The fields a response leaves out take their defaults; the concurrency limits are carried forward
  from the last snapshot. \<open>None\<close> is a \<open>TypeError\<close>: the response is null, or its budget unreadable.
\<close>

definition build_snapshot ::
  "(json \<Rightarrow> rat option) \<Rightarrow> int \<Rightarrow> json \<Rightarrow> bool \<Rightarrow> json \<Rightarrow> json \<Rightarrow> usage_snapshot option" where
  "build_snapshot parse now raw is_ok lastHardCap lastSoftLimit =
     (if raw = JNull then None
      else
        (let requests = jopt (jget raw ''limits'') ''requests'';
             concurrency = jopt (jget raw ''limits'') ''concurrency'';
             window = jget raw ''window'';
             usage = jget raw ''usage'';
             priority = jopt usage ''priority'';
             serviceMode = jopt usage ''service_mode''
         in case map_priority_budget parse (jopt usage ''priority_budget'') of
              None \<Rightarrow> None
            | Some budget \<Rightarrow>
                Some \<lparr>us_ok = is_ok, us_fetched_at = now,
                      us_user_id = coalesce (jget raw ''user_id'') JNull,
                      us_wallet_tier = derive_wallet_tier
                        \<lparr>wi_requests_limit = coalesce (jopt requests ''limit'') JNull,
                         wi_window_seconds = coalesce (jopt requests ''window_seconds'') JNull,
                         wi_concurrency_limit = coalesce (jopt concurrency ''limit'') JNull\<rparr>,
                      us_requests_limit = coalesce (jopt requests ''limit'') JNull,
                      us_requests_hard_cap = coalesce (jopt requests ''hard_cap'') JNull,
                      us_requests_window = coalesce (jopt requests ''window_seconds'') JNull,
                      us_soft_limit = coalesce (jopt concurrency ''limit'') lastSoftLimit,
                      us_hard_cap = coalesce (jopt concurrency ''hard_cap'') lastHardCap,
                      us_requests_in_window = coalesce (jopt usage ''requests_in_window'') (JNum 0),
                      us_weighted_in_window = coalesce (jopt usage ''weighted_in_window'') (JNum 0),
                      us_requests_remaining = coalesce (jopt usage ''remaining_requests'') JNull,
                      us_weighted_remaining =
                        coalesce (jopt usage ''weighted_remaining_requests'') JNull,
                      us_sessions = coalesce (jopt usage ''concurrent_sessions'') (JNum 0),
                      us_weighted_sessions =
                        coalesce (jopt usage ''weighted_concurrent_sessions'') (JNum 0),
                      us_tokens_in = coalesce (jopt usage ''tokens_in'') (JNum 0),
                      us_tokens_out = coalesce (jopt usage ''tokens_out'') (JNum 0),
                      us_tokens_cached = coalesce (jopt usage ''tokens_cached'') (JNum 0),
                      us_window_started_at = to_epoch_ms parse (jopt window ''started_at''),
                      us_window_resets_at = to_epoch_ms parse (jopt window ''resets_at''),
                      us_window_remaining = coalesce (jopt window ''remaining_minutes'') JNull,
                      us_priority_low = coalesce (jopt priority ''low'') (JBool False),
                      us_boxed_until = to_epoch_ms parse (jopt priority ''boxed_until''),
                      us_boxed_reason = coalesce (jopt priority ''reason'') JNull,
                      us_units_demoted = coalesce (jopt priority ''units_demoted'') (JBool False),
                      us_demoted_until = to_epoch_ms parse (jopt priority ''demoted_until''),
                      us_service_mode = coalesce (jopt serviceMode ''current'') (JStr ''normal''),
                      us_service_resets_at = to_epoch_ms parse (jopt serviceMode ''resets_at''),
                      us_priority_budget = budget\<rparr>))"

definition fail_safe_snapshot :: usage_snapshot where
  "fail_safe_snapshot =
     \<lparr>us_ok = False, us_fetched_at = 0, us_user_id = JNull, us_wallet_tier = None,
      us_requests_limit = JNull, us_requests_hard_cap = JNull, us_requests_window = JNull,
      us_soft_limit = JNum 1, us_hard_cap = JNum 1, us_requests_in_window = JNum 0,
      us_weighted_in_window = JNum 0, us_requests_remaining = JNull, us_weighted_remaining = JNull,
      us_sessions = JNum 0, us_weighted_sessions = JNum 0, us_tokens_in = JNum 0,
      us_tokens_out = JNum 0, us_tokens_cached = JNum 0, us_window_started_at = None,
      us_window_resets_at = None, us_window_remaining = JNull, us_priority_low = JBool True,
      us_boxed_until = None, us_boxed_reason = JNull, us_units_demoted = JBool False,
      us_demoted_until = None, us_service_mode = JStr ''normal'', us_service_resets_at = None,
      us_priority_budget = []\<rparr>"

subsection \<open>The most urgent budget\<close>

text \<open>
  \<open>Array.prototype.sort\<close> with a comparator is stable; a result \<open>NaN\<close> counts as 0. The comparator
  subtracts numbers: entries without a number as \<open>used_pct\<close> compare as equal.
\<close>

fun js_insert :: "('a \<Rightarrow> 'a \<Rightarrow> rat) \<Rightarrow> 'a \<Rightarrow> 'a list \<Rightarrow> 'a list" where
  "js_insert cmp x [] = [x]"
| "js_insert cmp x (y # ys) = (if cmp x y \<le> 0 then x # y # ys else y # js_insert cmp x ys)"

definition js_sort :: "('a \<Rightarrow> 'a \<Rightarrow> rat) \<Rightarrow> 'a list \<Rightarrow> 'a list" where
  "js_sort cmp xs = foldr (js_insert cmp) xs []"

definition js_truthy :: "json option \<Rightarrow> bool" where
  "js_truthy v = (case v of None \<Rightarrow> False | Some j \<Rightarrow> truthy j)"

definition budget_order :: "priority_entry \<Rightarrow> priority_entry \<Rightarrow> rat" where
  "budget_order a b =
     (if pe_over a \<noteq> pe_over b then (if js_truthy (pe_over a) then -1 else 1)
      else case (jnum (pe_used b), jnum (pe_used a)) of (Some y, Some x) \<Rightarrow> y - x | _ \<Rightarrow> 0)"

definition select_most_urgent_budget :: "priority_entry list \<Rightarrow> priority_entry option" where
  "select_most_urgent_budget entries =
     (if entries = [] then None
      else if \<forall>e\<in>set entries. pe_used e = Some (JNum 0) then None
      else Some (hd (js_sort budget_order entries)))"

subsection \<open>One fetch\<close>

datatype fetch_obs =
    Fetch_Threw string
  | Fetch_Status int
  | Body_Threw string
  | Fetch_Data json

text \<open>\<open>Fetch_Status\<close> is a response that is not ok, the last two an ok response without and with JSON.\<close>

definition fetch_usage_raw :: "string option \<Rightarrow> (int \<Rightarrow> string) \<Rightarrow> fetch_obs \<Rightarrow> string + json" where
  "fetch_usage_raw apiKey show_int obs =
     (if apiKey = None \<or> apiKey = Some [] then Inl ''umans_api_key not set''
      else case obs of
             Fetch_Threw e \<Rightarrow> Inl e
           | Fetch_Status n \<Rightarrow> Inl (''HTTP '' @ show_int n)
           | Body_Threw e \<Rightarrow> Inl e
           | Fetch_Data j \<Rightarrow> Inr j)"

text \<open>\<open>None\<close>: a response null has no \<open>limits\<close>.\<close>

definition fetch_concurrency_limits ::
  "string option \<Rightarrow> (int \<Rightarrow> string) \<Rightarrow> fetch_obs \<Rightarrow> (string + int \<times> int) option" where
  "fetch_concurrency_limits apiKey show_int obs =
     (case fetch_usage_raw apiKey show_int obs of
        Inl e \<Rightarrow> Some (Inl e)
      | Inr JNull \<Rightarrow> None
      | Inr raw \<Rightarrow>
          (let c = jopt (jget raw ''limits'') ''concurrency'';
               hardCap = js_to_number (coalesce (jopt c ''hard_cap'') (JNum 1));
               softLimit = js_to_number (coalesce (jopt c ''limit'') (JNum 1))
           in case (hardCap, softLimit) of
                (Fin h, Fin l) \<Rightarrow> Some (Inr (max 1 \<lfloor>h\<rfloor>, max 1 \<lfloor>l\<rfloor>))
              | _ \<Rightarrow> Some (Inl ''malformed concurrency limits'')))"

record request_limits =
  rq_limit :: json
  rq_hard_cap :: json
  rq_window :: json

definition fetch_requests_limits ::
  "string option \<Rightarrow> (int \<Rightarrow> string) \<Rightarrow> fetch_obs \<Rightarrow> (string + request_limits) option" where
  "fetch_requests_limits apiKey show_int obs =
     (case fetch_usage_raw apiKey show_int obs of
        Inl e \<Rightarrow> Some (Inl e)
      | Inr JNull \<Rightarrow> None
      | Inr raw \<Rightarrow>
          (let r = jopt (jget raw ''limits'') ''requests''
           in Some (Inr \<lparr>rq_limit = coalesce (jopt r ''limit'') JNull,
                         rq_hard_cap = coalesce (jopt r ''hard_cap'') JNull,
                         rq_window = coalesce (jopt r ''window_seconds'') JNull\<rparr>)))"

subsection \<open>The polling client\<close>

record 'c usage_client =
  uc_snapshot :: "usage_snapshot option"
  uc_timer :: bool
  uc_fetching :: bool
  uc_api_key :: "string option"
  uc_callbacks :: "'c list"

definition new_usage_client :: "string option \<Rightarrow> 'c usage_client" where
  "new_usage_client apiKey =
     \<lparr>uc_snapshot = None, uc_timer = False, uc_fetching = False, uc_api_key = apiKey, uc_callbacks = []\<rparr>"

definition no_key :: "'c usage_client \<Rightarrow> bool" where
  "no_key c = (uc_api_key c = None \<or> uc_api_key c = Some [])"

definition on_change :: "'c \<Rightarrow> 'c usage_client \<Rightarrow> 'c usage_client" where
  "on_change cb c = c\<lparr>uc_callbacks := uc_callbacks c @ [cb]\<rparr>"

definition get_snapshot :: "'c usage_client \<Rightarrow> usage_snapshot" where
  "get_snapshot c = (case uc_snapshot c of Some s \<Rightarrow> s | None \<Rightarrow> fail_safe_snapshot)"

text \<open>
  \<open>refresh\<close> up to its await: whether a request goes out. The rest of it returns the callbacks it
  runs with the snapshot they receive; a callback that throws does not stop the others.
\<close>

definition refresh_starts :: "'c usage_client \<Rightarrow> 'c usage_client \<times> bool" where
  "refresh_starts c =
     (if uc_fetching c \<or> no_key c then (c, False) else (c\<lparr>uc_fetching := True\<rparr>, True))"

definition deliver :: "'c usage_client \<Rightarrow> usage_snapshot \<Rightarrow> ('c \<times> usage_snapshot) list" where
  "deliver c snap = map (\<lambda>cb. (cb, snap)) (uc_callbacks c)"

definition apply_snapshot ::
  "(json \<Rightarrow> rat option) \<Rightarrow> int \<Rightarrow> json \<Rightarrow> bool \<Rightarrow> 'c usage_client \<Rightarrow>
   'c usage_client \<times> ('c \<times> usage_snapshot) list" where
  "apply_snapshot parse now raw is_ok c =
     (let lastHardCap = (case uc_snapshot c of None \<Rightarrow> JNum 1 | Some s \<Rightarrow> us_hard_cap s);
          lastSoftLimit = (case uc_snapshot c of None \<Rightarrow> JNum 1 | Some s \<Rightarrow> us_soft_limit s)
      in case build_snapshot parse now raw is_ok lastHardCap lastSoftLimit of
           None \<Rightarrow> (c, [])
         | Some snap \<Rightarrow> (c\<lparr>uc_snapshot := Some snap\<rparr>, deliver c snap))"

definition apply_failed_snapshot ::
  "int \<Rightarrow> 'c usage_client \<Rightarrow> 'c usage_client \<times> ('c \<times> usage_snapshot) list" where
  "apply_failed_snapshot now c =
     (case uc_snapshot c of
        None \<Rightarrow> (c, [])
      | Some s \<Rightarrow>
          (let s' = s\<lparr>us_ok := False, us_fetched_at := now, us_priority_low := JBool False\<rparr>
           in (c\<lparr>uc_snapshot := Some s'\<rparr>, deliver c s')))"

definition refresh_ends ::
  "(json \<Rightarrow> rat option) \<Rightarrow> (int \<Rightarrow> string) \<Rightarrow> int \<Rightarrow> fetch_obs \<Rightarrow> 'c usage_client \<Rightarrow>
   'c usage_client \<times> ('c \<times> usage_snapshot) list" where
  "refresh_ends parse show_int now obs c =
     (let (c', ds) = (case fetch_usage_raw (uc_api_key c) show_int obs of
                        Inl e \<Rightarrow> apply_failed_snapshot now c
                      | Inr raw \<Rightarrow> apply_snapshot parse now raw True c)
      in (c'\<lparr>uc_fetching := False\<rparr>, ds))"

definition usage_start :: "'c usage_client \<Rightarrow> 'c usage_client \<times> bool" where
  "usage_start c =
     (if no_key c \<or> uc_timer c then (c, False)
      else (let (c', sent) = refresh_starts c in (c'\<lparr>uc_timer := True\<rparr>, sent)))"

definition usage_stop :: "'c usage_client \<Rightarrow> 'c usage_client" where
  "usage_stop c = c\<lparr>uc_timer := False, uc_callbacks := []\<rparr>"

end
