(* ===== verification/Usage_Poll.thy ===== *)
theory Usage_Poll
  imports Usage_Snapshot
begin

text \<open>
  What the polling client promises: the concurrency limits its snapshots carry are the last ones
  the provider reported, nothing is announced before the first readable response, and at most one
  request is on its way. Then the order in which budgets are urgent.
\<close>

subsection \<open>Runs of the client\<close>

datatype 'c client_event =
    Subscribe 'c
  | Start
  | Tick
  | Answer int fetch_obs
  | Stop

datatype 'c client_effect = Sent | Delivered 'c usage_snapshot

definition delivered :: "('c \<times> usage_snapshot) list \<Rightarrow> 'c client_effect list" where
  "delivered = map (\<lambda>(cb, s). Delivered cb s)"

definition sent :: "bool \<Rightarrow> 'c client_effect list" where
  "sent b = (if b then [Sent] else [])"

fun client_step ::
  "(json \<Rightarrow> rat option) \<Rightarrow> (int \<Rightarrow> string) \<Rightarrow> 'c client_event \<Rightarrow> 'c usage_client \<times> 'c client_effect list \<Rightarrow>
   'c usage_client \<times> 'c client_effect list" where
  "client_step parse show_int (Subscribe cb) (c, out) = (on_change cb c, out)"
| "client_step parse show_int Start (c, out) = (let (c', b) = usage_start c in (c', out @ sent b))"
| "client_step parse show_int Tick (c, out) = (let (c', b) = refresh_starts c in (c', out @ sent b))"
| "client_step parse show_int (Answer now obs) (c, out) =
     (let (c', ds) = refresh_ends parse show_int now obs c in (c', out @ delivered ds))"
| "client_step parse show_int Stop (c, out) = (usage_stop c, out)"

definition client_run ::
  "(json \<Rightarrow> rat option) \<Rightarrow> (int \<Rightarrow> string) \<Rightarrow> string option \<Rightarrow> 'c client_event list \<Rightarrow>
   'c usage_client \<times> 'c client_effect list" where
  "client_run parse show_int key es = fold (client_step parse show_int) es (new_usage_client key, [])"

lemma client_run_Nil [simp]: "client_run parse show_int key [] = (new_usage_client key, [])"
  by (simp add: client_run_def)

lemma client_run_snoc [simp]:
  "client_run parse show_int key (es @ [e]) = client_step parse show_int e (client_run parse show_int key es)"
  by (simp add: client_run_def)

subsection \<open>The limits reported\<close>

text \<open>A response that gives a snapshot, and the limits after it: the reported ones or those before.\<close>

definition readable :: "(json \<Rightarrow> rat option) \<Rightarrow> json \<Rightarrow> bool" where
  "readable parse raw =
     (raw \<noteq> JNull \<and> map_priority_budget parse (jopt (jget raw ''usage'') ''priority_budget'') \<noteq> None)"

definition reported_by :: "json \<Rightarrow> json \<times> json \<Rightarrow> json \<times> json" where
  "reported_by raw before =
     (let c = jopt (jget raw ''limits'') ''concurrency''
      in (coalesce (jopt c ''hard_cap'') (fst before), coalesce (jopt c ''limit'') (snd before)))"

fun report :: "(json \<Rightarrow> rat option) \<Rightarrow> 'c client_event \<Rightarrow> (json \<times> json) option \<Rightarrow> (json \<times> json) option" where
  "report parse (Answer now (Fetch_Data raw)) before =
     (if readable parse raw
      then Some (reported_by raw (case before of None \<Rightarrow> (JNum 1, JNum 1) | Some l \<Rightarrow> l)) else before)"
| "report parse _ before = before"

text \<open>The limits last reported by the answers of a run, 1 and 1 where no answer gave any; \<open>None\<close>
  before the first readable answer.\<close>

definition last_reported :: "(json \<Rightarrow> rat option) \<Rightarrow> 'c client_event list \<Rightarrow> (json \<times> json) option" where
  "last_reported parse es = fold (report parse) es None"

lemma last_reported_snoc [simp]:
  "last_reported parse (es @ [e]) = report parse e (last_reported parse es)"
  by (simp add: last_reported_def)

lemma last_reported_Nil [simp]: "last_reported parse [] = None"
  by (simp add: last_reported_def)

definition limits_of :: "usage_snapshot \<Rightarrow> json \<times> json" where
  "limits_of s = (us_hard_cap s, us_soft_limit s)"

lemma build_snapshot_limits:
  "map_option limits_of (build_snapshot parse now raw is_ok h l) =
   (if readable parse raw then Some (reported_by raw (h, l)) else None)"
  by (auto simp: build_snapshot_def readable_def reported_by_def limits_of_def Let_def split: option.splits)

lemma refresh_ends_snapshot:
  assumes "\<not> no_key c"
  shows "map_option limits_of (uc_snapshot (fst (refresh_ends parse show_int now obs c))) =
    report parse (Answer now obs :: 'd client_event) (map_option limits_of (uc_snapshot c))"
proof (cases obs)
  case (Fetch_Data raw)
  let ?before = "case uc_snapshot c of None \<Rightarrow> (JNum 1, JNum 1) | Some s \<Rightarrow> limits_of s"
  have "map_option limits_of (build_snapshot parse now raw True (fst ?before) (snd ?before)) =
      (if readable parse raw then Some (reported_by raw ?before) else None)"
    using build_snapshot_limits [of parse now raw True "fst ?before" "snd ?before"] by simp
  then show ?thesis
    using assms Fetch_Data
    by (cases "uc_snapshot c")
       (auto simp: refresh_ends_def fetch_usage_raw_def apply_snapshot_def no_key_def limits_of_def Let_def
         split: option.splits if_splits)
qed (use assms in \<open>auto simp: refresh_ends_def fetch_usage_raw_def apply_failed_snapshot_def no_key_def
       limits_of_def Let_def split: option.splits\<close>)

text \<open>A callback receives the snapshot the client keeps.\<close>

lemma refresh_ends_delivers:
  "(cb, s) \<in> set (snd (refresh_ends parse show_int now obs c)) \<Longrightarrow>
   uc_snapshot (fst (refresh_ends parse show_int now obs c)) = Some s"
  by (auto simp: refresh_ends_def fetch_usage_raw_def apply_snapshot_def apply_failed_snapshot_def
      deliver_def Let_def split: sum.splits option.splits prod.splits if_splits)

lemma refresh_ends_rest [simp]:
  "uc_fetching (fst (refresh_ends parse show_int now obs c)) = False"
  "uc_api_key (fst (refresh_ends parse show_int now obs c)) = uc_api_key c"
  by (auto simp: refresh_ends_def apply_snapshot_def apply_failed_snapshot_def Let_def
      split: sum.splits option.splits prod.splits)

lemma client_step_key: "uc_api_key (fst (client_step parse show_int e (c, out))) = uc_api_key c"
  by (cases e)
     (auto simp: on_change_def usage_start_def refresh_starts_def usage_stop_def Let_def case_prod_unfold)

lemma client_run_key: "uc_api_key (fst (client_run parse show_int key es)) = key"
proof (induction es rule: rev_induct)
  case (snoc e es)
  then show ?case using client_step_key by (metis client_run_snoc prod.collapse)
qed (simp add: new_usage_client_def)

lemma client_step_snapshot:
  assumes "\<not> no_key c"
  shows "map_option limits_of (uc_snapshot (fst (client_step parse show_int e (c, out)))) =
    report parse e (map_option limits_of (uc_snapshot c))"
  by (cases e)
     (auto simp: refresh_ends_snapshot [OF assms] on_change_def usage_start_def refresh_starts_def
       usage_stop_def Let_def case_prod_unfold simp del: report.simps(1))

text \<open>Every snapshot of the output was the client's snapshot after some part of the run.\<close>

definition announced_ok :: "(json \<Rightarrow> rat option) \<Rightarrow> 'c client_event list \<Rightarrow> 'c client_effect \<Rightarrow> bool" where
  "announced_ok parse es eff =
     (case eff of Sent \<Rightarrow> True
      | Delivered cb s \<Rightarrow> (\<exists>n \<le> length es. last_reported parse (take n es) = Some (limits_of s)))"

lemma announced_ok_more: "announced_ok parse es eff \<Longrightarrow> announced_ok parse (es @ [e]) eff"
proof (cases eff)
  case (Delivered cb s)
  assume "announced_ok parse es eff"
  then obtain n where "n \<le> length es" "last_reported parse (take n es) = Some (limits_of s)"
    by (auto simp: announced_ok_def Delivered)
  then show ?thesis by (auto simp: announced_ok_def Delivered intro!: exI [of _ n])
qed (simp add: announced_ok_def)

lemma client_run_ok:
  assumes "key \<noteq> None" "key \<noteq> Some []"
  shows "case client_run parse show_int key es of (c, out) \<Rightarrow>
    map_option limits_of (uc_snapshot c) = last_reported parse es \<and> list_all (announced_ok parse es) out"
proof (induction es rule: rev_induct)
  case Nil
  show ?case by (simp add: new_usage_client_def)
next
  case (snoc e es)
  obtain c out where r: "client_run parse show_int key es = (c, out)" by fastforce
  obtain c' out' where r': "client_step parse show_int e (c, out) = (c', out')" by fastforce
  have key: "\<not> no_key c" using assms client_run_key [of parse show_int key es] r by (auto simp: no_key_def)
  have snap: "map_option limits_of (uc_snapshot c') = last_reported parse (es @ [e])"
    using client_step_snapshot [OF key, of parse show_int e out] snoc r r' by simp
  have old: "list_all (announced_ok parse (es @ [e])) out"
    using snoc r announced_ok_more [of parse es _ e] by (auto simp: list_all_iff)
  have "list_all (announced_ok parse (es @ [e])) out'"
  proof (cases e)
    case (Answer now obs)
    have "announced_ok parse (es @ [e]) (Delivered cb s)"
      if "(cb, s) \<in> set (snd (refresh_ends parse show_int now obs c))" for cb s
      using refresh_ends_delivers [OF that] r' snap
      by (auto simp: announced_ok_def Answer Let_def split: prod.splits intro!: exI [of _ "Suc (length es)"])
    then show ?thesis
      using old r' by (auto simp: Answer delivered_def list_all_iff Let_def split: prod.splits)
  qed (use old r' in \<open>auto simp: sent_def announced_ok_def list_all_iff Let_def split: prod.splits if_splits\<close>)
  then show ?case using snap r r' by simp
qed

text \<open>Requests on their way: every one but the last has been answered.\<close>

definition requests_sent :: "'c client_effect list \<Rightarrow> nat" where
  "requests_sent out = length (filter (\<lambda>eff. eff = Sent) out)"

fun answers :: "'c client_event list \<Rightarrow> nat" where
  "answers [] = 0"
| "answers (Answer now obs # es) = Suc (answers es)"
| "answers (e # es) = answers es"

lemma answers_append [simp]: "answers (es @ fs) = answers es + answers fs"
  by (induction es rule: answers.induct) auto

lemma requests_sent_simps [simp]:
  "requests_sent [] = 0" "requests_sent (out @ out') = requests_sent out + requests_sent out'"
  "requests_sent (sent b) = (if b then 1 else 0)" "requests_sent (delivered ds) = 0"
  by (auto simp: requests_sent_def sent_def delivered_def filter_empty_conv)

lemma client_run_sends:
  "case client_run parse show_int key es of (c, out) \<Rightarrow>
     requests_sent out \<le> answers es + (if uc_fetching c then 1 else 0)"
proof (induction es rule: rev_induct)
  case (snoc e es)
  obtain c out where r: "client_run parse show_int key es = (c, out)" by fastforce
  show ?case using snoc r
    by (cases e)
       (auto simp: on_change_def usage_start_def refresh_starts_def usage_stop_def Let_def case_prod_unfold
         split: if_splits)
qed (simp add: new_usage_client_def)

text \<open>
  The limits that reach the gateway are the last ones reported. After any run of subscriptions,
  starts, timer ticks, answers and stops, the snapshot carries the limits of the last readable
  answers that gave any; before the first readable answer a reader gets the fail-safe snapshot and
  no callback has been told anything. Every snapshot a callback received carried the limits last
  reported at that point. At most one request is on its way.
\<close>

theorem polled_limits_are_last_reported:
  assumes "key \<noteq> None" and "key \<noteq> Some []"
  shows "case client_run parse show_int key es of (c, out) \<Rightarrow>
    (case last_reported parse es of
       None \<Rightarrow> get_snapshot c = fail_safe_snapshot
     | Some l \<Rightarrow> limits_of (get_snapshot c) = l) \<and>
    list_all (announced_ok parse es) out \<and> requests_sent out \<le> Suc (answers es)"
proof -
  obtain c out where r: "client_run parse show_int key es = (c, out)" by fastforce
  have "requests_sent out \<le> Suc (answers es)"
    using client_run_sends [where parse = parse and show_int = show_int and key = key and es = es] r by (auto split: if_splits)
  moreover have "map_option limits_of (uc_snapshot c) = last_reported parse es"
    and "list_all (announced_ok parse es) out"
    using client_run_ok [OF assms, where parse = parse and show_int = show_int and es = es] r by simp_all
  ultimately show ?thesis
    using r by (auto simp: get_snapshot_def split: option.splits)
qed

definition caps_response :: "rat \<Rightarrow> rat \<Rightarrow> json" where
  "caps_response h l =
     JObj [(''limits'', JObj [(''concurrency'', JObj [(''hard_cap'', JNum h), (''limit'', JNum l)])])]"

definition demo_events :: "string client_event list" where
  "demo_events =
     [Subscribe ''gate'', Start, Tick, Answer 1 (Fetch_Threw ''down''), Tick,
      Answer 2 (Fetch_Data (caps_response 8 6)), Tick, Answer 3 (Fetch_Data (JObj []))]"

theorem polled_limits_are_last_reported_witness:
  "limits_of (get_snapshot (fst (client_run (\<lambda>_. None) (\<lambda>_. ''503'') (Some ''key'') demo_events))) =
     (JNum 8, JNum 6) \<and>
   requests_sent (snd (client_run (\<lambda>_. None) (\<lambda>_. ''503'') (Some ''key'') demo_events)) \<le> 4"
proof -
  have "last_reported (\<lambda>_. None) demo_events = Some (JNum 8, JNum 6)" "answers demo_events = 3"
    by code_simp+
  then show ?thesis
    using polled_limits_are_last_reported [where key = "Some ''key''" and parse = "\<lambda>_. None" and show_int = "\<lambda>_. ''503''" and es = demo_events]
    by (auto split: prod.splits)
qed

subsection \<open>Urgency\<close>

text \<open>
  How urgent a budget is, as a linear order whose least elements are the most urgent: over budget
  before not, then the larger share used.
\<close>

datatype urgency = Urgency bool rat

instantiation urgency :: linorder
begin

fun less_eq_urgency :: "urgency \<Rightarrow> urgency \<Rightarrow> bool" where
  "less_eq_urgency (Urgency a x) (Urgency b y) = (if a = b then y \<le> x else a)"

definition less_urgency :: "urgency \<Rightarrow> urgency \<Rightarrow> bool" where
  "less_urgency u v = (u \<le> v \<and> \<not> v \<le> u)"

instance
proof
  fix u v w :: urgency
  show "u < v \<longleftrightarrow> u \<le> v \<and> \<not> v \<le> u" by (simp add: less_urgency_def)
  show "u \<le> u" by (cases u) simp
  show "u \<le> v \<Longrightarrow> v \<le> w \<Longrightarrow> u \<le> w" by (cases u; cases v; cases w) (auto split: if_splits)
  show "u \<le> v \<Longrightarrow> v \<le> u \<Longrightarrow> u = v" by (cases u; cases v) (auto split: if_splits)
  show "u \<le> v \<or> v \<le> u" by (cases u; cases v) auto
qed

end

definition urgency_of :: "priority_entry \<Rightarrow> urgency" where
  "urgency_of e = Urgency (js_truthy (pe_over e)) (case jnum (pe_used e) of Some x \<Rightarrow> x | None \<Rightarrow> 0)"

definition typed_entry :: "priority_entry \<Rightarrow> bool" where
  "typed_entry e = ((case pe_over e of Some (JBool b) \<Rightarrow> True | _ \<Rightarrow> False) \<and> jnum (pe_used e) \<noteq> None)"

lemma budget_order_urgency:
  "typed_entry a \<Longrightarrow> typed_entry b \<Longrightarrow> budget_order a b \<le> 0 \<longleftrightarrow> urgency_of a \<le> urgency_of b"
  by (auto simp: budget_order_def typed_entry_def js_truthy_def urgency_of_def split: option.splits json.splits)

lemma set_js_insert [simp]: "set (js_insert cmp x ys) = insert x (set ys)"
  by (induction cmp x ys rule: js_insert.induct) auto

lemma js_insert_insort:
  "typed_entry x \<Longrightarrow> \<forall>y\<in>set ys. typed_entry y \<Longrightarrow>
   js_insert budget_order x ys = insort_key urgency_of x ys"
  by (induction ys) (auto simp: budget_order_urgency)

lemma js_sort_sorts:
  "\<forall>e\<in>set es. typed_entry e \<Longrightarrow> js_sort budget_order es = sort_key urgency_of es"
proof (induction es)
  case (Cons e es)
  have "\<forall>y\<in>set (sort_key urgency_of es). typed_entry y" using Cons.prems by simp
  then show ?case using Cons js_insert_insort [of e "sort_key urgency_of es"]
    by (simp add: js_sort_def)
qed (simp add: js_sort_def)

text \<open>The budget shown is one of the most urgent, the first of them as the provider lists them.\<close>

lemma selected_budget_most_urgent:
  assumes "\<forall>e\<in>set es. typed_entry e" and "select_most_urgent_budget es = Some e"
  shows "e \<in> set es" "\<forall>e'\<in>set es. urgency_of e \<le> urgency_of e'"
    "find (\<lambda>e'. urgency_of e' = urgency_of e) es = Some e"
proof -
  let ?s = "sort_key urgency_of es"
  have ne: "es \<noteq> []" using assms(2) by (auto simp: select_most_urgent_budget_def)
  have e: "e = hd ?s"
    using assms by (auto simp: select_most_urgent_budget_def js_sort_sorts split: if_splits)
  have sne: "?s \<noteq> []" using ne by (metis length_0_conv length_sort)
  then show "e \<in> set es" using e hd_in_set by (metis set_sort)
  have "sorted (map urgency_of ?s)" by simp
  then show "\<forall>e'\<in>set es. urgency_of e \<le> urgency_of e'"
    using sne e by (cases ?s) (auto simp flip: set_sort [of urgency_of es])
  have "filter (\<lambda>e'. urgency_of e' = urgency_of e) ?s = filter (\<lambda>e'. urgency_of e' = urgency_of e) es"
    by (rule sort_key_stable)
  moreover have "find P xs = (case filter P xs of [] \<Rightarrow> None | y # _ \<Rightarrow> Some y)" for P and xs :: "priority_entry list"
    by (induction xs) auto
  moreover have "find (\<lambda>e'. urgency_of e' = urgency_of e) ?s = Some e"
    using sne e by (cases ?s) auto
  ultimately show "find (\<lambda>e'. urgency_of e' = urgency_of e) es = Some e" by metis
qed

end
