(* ===== verification/Limits_Sync.thy ===== *)
theory Limits_Sync
  imports Usage_Snapshot Config_Reload RateLimit
begin

text \<open>
  How reported limits reach the gate and the request limiter: the closures of \<open>createProxyServer\<close> in
  \<open>src/index.ts\<close> that listen to usage snapshots (\<open>applyEffectiveLimit\<close> is in \<open>Config_Reload\<close>), that
  refresh the limits at startup or on demand, and the limiter's part of a reload. The variables
  they share are the record \<open>server\<close>. A result \<open>None\<close> is a value outside the model: a limit that is
  no number, or a window that is not a whole number of seconds. Dashboard broadcasts are left out.
\<close>

subsection \<open>Building the request limiter\<close>

definition DEFAULT_RATE_WINDOW_SECONDS :: rat where
  "DEFAULT_RATE_WINDOW_SECONDS = 18000"

definition limiter_with :: "jsnum \<Rightarrow> json \<Rightarrow> rate_limiter option option" where
  "limiter_with limit window =
     (case (limit, window) of
        (Fin l, JNum w) \<Rightarrow>
          (if of_int \<lfloor>w\<rfloor> = w then Some (Some (new_rate_limiter l \<lfloor>w\<rfloor>)) else None)
      | _ \<Rightarrow> None)"

definition create_rate_limiter ::
  "jsnum \<Rightarrow> request_limits option \<Rightarrow> bool \<Rightarrow> bool \<Rightarrow> rate_limiter option option" where
  "create_rate_limiter rateLimitRequests snap useHardCap never =
     (let window = coalesce (map_option rq_window snap) (JNum DEFAULT_RATE_WINDOW_SECONDS)
      in if never then Some None
         else if rateLimitRequests = Fin (-1) then Some None
         else if js_lt (Fin 0) rateLimitRequests then limiter_with rateLimitRequests window
         else case snap of
                None \<Rightarrow> Some None
              | Some q \<Rightarrow>
                  (case (if useHardCap then rq_hard_cap q else rq_limit q) of
                     JNull \<Rightarrow> Some None
                   | JNum l \<Rightarrow> (if 0 < l then limiter_with (Fin l) window else Some None)
                   | _ \<Rightarrow> None))"

subsection \<open>The variables of the server\<close>

record server =
  sv_config :: "setting obj"
  sv_gate :: gate
  sv_rate :: "rate_limiter option"
  sv_last_limit :: json
  sv_file :: config_file

fun setting_of :: "json \<Rightarrow> setting" where
  "setting_of (JNum r) = SNum (Fin r)"
| "setting_of (JInf b) = SNum (if b then PInf else NInf)"
| "setting_of (JBool b) = SBool b"
| "setting_of j = SVal j"

definition flag :: "setting obj \<Rightarrow> string \<Rightarrow> bool" where
  "flag cfg f = (obj_get cfg f = Some (SBool True))"

definition caps_of :: "usage_snapshot \<Rightarrow> request_limits" where
  "caps_of snap =
     \<lparr>rq_limit = us_requests_limit snap, rq_hard_cap = us_requests_hard_cap snap,
      rq_window = us_requests_window snap\<rparr>"

definition chosen_limit :: "setting obj \<Rightarrow> request_limits \<Rightarrow> json" where
  "chosen_limit cfg q = (if flag cfg ''requestUseHardCap'' then rq_hard_cap q else rq_limit q)"

definition new_server :: "setting obj \<Rightarrow> gate \<Rightarrow> config_file \<Rightarrow> server option" where
  "new_server cfg g f =
     (case create_rate_limiter (num_setting cfg ''rateLimitRequests'') None
             (flag cfg ''requestUseHardCap'') (flag cfg ''neverLimitRequests'') of
        None \<Rightarrow> None
      | Some r \<Rightarrow>
          Some \<lparr>sv_config = cfg, sv_gate = g, sv_rate = r, sv_last_limit = JNull, sv_file = f\<rparr>)"

definition set_if_given :: "string \<Rightarrow> json \<Rightarrow> setting obj \<Rightarrow> setting obj" where
  "set_if_given f v cfg = (if v = JNull then cfg else obj_set cfg f (setting_of v))"

definition sync_rate_limiter :: "usage_snapshot \<Rightarrow> server \<Rightarrow> server option" where
  "sync_rate_limiter snap sv0 =
     (let cfg = set_if_given ''requestSoftLimit'' (us_requests_limit snap)
                  (set_if_given ''requestHardCap'' (us_requests_hard_cap snap) (sv_config sv0));
          sv = sv0\<lparr>sv_config := cfg\<rparr>;
          n = num_setting cfg ''rateLimitRequests'';
          create = (\<lambda>k. create_rate_limiter k (Some (caps_of snap)) (flag cfg ''requestUseHardCap'')
                     (flag cfg ''neverLimitRequests''))
      in if n = Fin 0 then
           (let effective = chosen_limit cfg (caps_of snap)
            in if effective \<noteq> sv_last_limit sv
               then map_option (\<lambda>r. sv\<lparr>sv_last_limit := effective, sv_rate := r\<rparr>) (create (Fin 0))
               else Some sv)
         else if js_lt (Fin 0) n \<and> sv_rate sv = None
         then map_option (\<lambda>r. sv\<lparr>sv_rate := r\<rparr>) (create n)
         else Some sv)"

text \<open>What \<open>applyEffectiveLimit\<close> reads of a snapshot; a reason that is no text is outside the model.\<close>

definition limit_view :: "usage_snapshot \<Rightarrow> limit_snapshot option" where
  "limit_view snap =
     (let view = (\<lambda>reason. Some \<lparr>ls_priority_low = truthy (us_priority_low snap),
                                 ls_boxed_until = us_boxed_until snap, ls_boxed_reason = reason\<rparr>)
      in case us_boxed_reason snap of
           JNull \<Rightarrow> view None
         | JStr s \<Rightarrow> view (Some s)
         | _ \<Rightarrow> None)"

definition effective_limit_step :: "int \<Rightarrow> usage_snapshot \<Rightarrow> server \<Rightarrow> server option" where
  "effective_limit_step now snap sv =
     (case limit_view snap of
        None \<Rightarrow> None
      | Some v \<Rightarrow>
          map_option (\<lambda>g. sv\<lparr>sv_gate := g\<rparr>)
            (apply_effective_limit (of_int now) (sv_config sv) v (sv_gate sv)))"

text \<open>A cap that is not a number makes the gate fall back to 1.\<close>

fun as_jsnum :: "json \<Rightarrow> jsnum" where
  "as_jsnum (JNum r) = Fin r"
| "as_jsnum (JInf b) = (if b then PInf else NInf)"
| "as_jsnum _ = NaN"

definition set_concurrency :: "json \<Rightarrow> json \<Rightarrow> server \<Rightarrow> server" where
  "set_concurrency hardCap softLimit sv =
     sv\<lparr>sv_config := obj_set (obj_set (sv_config sv) ''concurrencyHardCap'' (setting_of hardCap))
                       ''concurrencySoftLimit'' (setting_of softLimit),
        sv_gate := gate_set_soft_limit (as_jsnum softLimit)
                     (gate_set_hard_cap (as_jsnum hardCap) (sv_gate sv))\<rparr>"

text \<open>The listener for usage snapshots.\<close>

definition on_usage_change :: "int \<Rightarrow> usage_snapshot \<Rightarrow> server \<Rightarrow> server option" where
  "on_usage_change now snap sv =
     (case effective_limit_step now snap
             (set_concurrency (us_hard_cap snap) (us_soft_limit snap) sv) of
        None \<Rightarrow> None
      | Some sv' \<Rightarrow> sync_rate_limiter snap sv')"

subsection \<open>Refreshing the limits\<close>

definition apply_limits_from_source ::
  "int \<Rightarrow> usage_snapshot \<Rightarrow> int \<times> int \<Rightarrow> bool \<Rightarrow> server \<Rightarrow> server option" where
  "apply_limits_from_source now snap source persist sv =
     (let (hardCap, softLimit) = source;
          file = (if persist
                  then snd (save_config [(''concurrency_hard_cap'', JNum (of_int hardCap)),
                                         (''concurrency_soft_limit'', JNum (of_int softLimit))]
                              NotFetched (sv_file sv))
                  else sv_file sv)
      in effective_limit_step now snap
           (set_concurrency (JNum (of_int hardCap)) (JNum (of_int softLimit)) (sv\<lparr>sv_file := file\<rparr>)))"

text \<open>
  \<open>refreshLimits\<close> fetches twice. The first answer sets the concurrency limits (an error ends the
  refresh), the second the request limits; \<open>snap\<close> is the client's snapshot at that time.
\<close>

definition refresh_concurrency ::
  "int \<Rightarrow> usage_snapshot \<Rightarrow> string + int \<times> int \<Rightarrow> server \<Rightarrow> server option" where
  "refresh_concurrency now snap r sv =
     (case r of Inl e \<Rightarrow> Some sv | Inr source \<Rightarrow> apply_limits_from_source now snap source True sv)"

definition refresh_requests :: "string + request_limits \<Rightarrow> server \<Rightarrow> server option" where
  "refresh_requests rl sv0 =
     (case rl of
        Inl e \<Rightarrow> Some sv0
      | Inr q \<Rightarrow>
          (let cfg = set_if_given ''requestSoftLimit'' (rq_limit q)
                       (set_if_given ''requestHardCap'' (rq_hard_cap q) (sv_config sv0));
               sv = sv0\<lparr>sv_config := cfg\<rparr>;
               n = num_setting cfg ''rateLimitRequests'';
               create = (\<lambda>k. create_rate_limiter k (Some q) (flag cfg ''requestUseHardCap'')
                          (flag cfg ''neverLimitRequests''))
           in if n = Fin 0 then
                (if rq_hard_cap q = JNull \<and> rq_limit q = JNull
                 then Some (sv\<lparr>sv_file := snd (save_config [(''rate_limit_requests'', JNum (-1))]
                                            NotFetched (sv_file sv)),
                               sv_config := obj_set cfg ''rateLimitRequests'' (SNum (Fin (-1))),
                               sv_rate := None, sv_last_limit := JNull\<rparr>)
                 else map_option (\<lambda>r. sv\<lparr>sv_last_limit := chosen_limit cfg q, sv_rate := r\<rparr>)
                        (create (Fin 0)))
              else if js_lt (Fin 0) n \<and> rq_window q \<noteq> JNull
              then map_option (\<lambda>r. sv\<lparr>sv_rate := r\<rparr>) (create n)
              else Some sv))"

text \<open>The limiter's part of a reload.\<close>

definition reload_limiter :: "string list \<Rightarrow> usage_snapshot \<Rightarrow> server \<Rightarrow> server option" where
  "reload_limiter applied snap sv =
     (if \<exists>k\<in>set applied. k \<in> set [''rate_limit_requests'', ''request_use_hard_cap'',
            ''request_hard_cap'', ''request_soft_limit'', ''never_limit_requests'']
      then map_option (\<lambda>r. sv\<lparr>sv_last_limit := JNull, sv_rate := r\<rparr>)
             (create_rate_limiter (num_setting (sv_config sv) ''rateLimitRequests'') (Some (caps_of snap))
                (flag (sv_config sv) ''requestUseHardCap'') (flag (sv_config sv) ''neverLimitRequests''))
      else Some sv)"

text \<open>\<open>reloadConfig\<close>: the file is read again and everything that hangs on a changed key is redone.\<close>

definition reload_server ::
  "int \<Rightarrow> setting obj \<Rightarrow> json obj \<Rightarrow> usage_snapshot \<Rightarrow> server \<Rightarrow>
   (server \<times> json obj \<times> string list \<times> string list) option" where
  "reload_server now fresh oldRaw snap sv =
     (let newRaw = read_config_file (sv_file sv);
          (cfg, applied, restart) = apply_reload_to_config (sv_config sv) fresh oldRaw newRaw;
          sv1 = sv\<lparr>sv_config := cfg, sv_file := ensure_config_file (sv_file sv)\<rparr>
      in case limit_view snap of
           None \<Rightarrow> None
         | Some v \<Rightarrow>
             (case reload_gate now cfg applied v (sv_gate sv1) of
                None \<Rightarrow> None
              | Some g \<Rightarrow>
                  map_option (\<lambda>sv2. (sv2, newRaw, applied, restart))
                    (reload_limiter applied snap (sv1\<lparr>sv_gate := g\<rparr>))))"

end
