(* ===== verification/Limits_Props.thy ===== *)
theory Limits_Props
  imports Limits_Sync Gate_Props
begin

text \<open>
  What reaches the gate and the request limiter from the reported limits, over any run of
  snapshots, refreshes and admissions.
\<close>

subsection \<open>Runs of the server\<close>

datatype server_event =
    Polled int usage_snapshot
  | Concurrency_Refreshed int usage_snapshot "string + int \<times> int"
  | Requests_Refreshed "string + request_limits"
  | Counted rat int

fun server_event_result :: "server_event \<Rightarrow> server \<Rightarrow> server option" where
  "server_event_result (Polled now snap) sv = on_usage_change now snap sv"
| "server_event_result (Concurrency_Refreshed now snap r) sv = refresh_concurrency now snap r sv"
| "server_event_result (Requests_Refreshed rl) sv = refresh_requests rl sv"
| "server_event_result (Counted weight now) sv =
     Some (sv\<lparr>sv_rate := map_option (\<lambda>rl. fst (rl_check weight now rl)) (sv_rate sv)\<rparr>)"

inductive server_step :: "server \<Rightarrow> server_event \<Rightarrow> server \<Rightarrow> bool" where
  event: "server_event_result e sv = Some sv' \<Longrightarrow> server_step sv e sv'"

inductive_simps server_step_simps: "server_step sv e sv'"

subsection \<open>The limiter in force\<close>

text \<open>
  The limiter the run asks for, from the settings at startup and the answers alone, with its window
  in seconds. With a configured limit the window is the one of the last refresh that gave one, 18000
  before. In automatic mode (setting 0) the limit is the one last reported; the window is the one
  reported with it by the refresh that gave it, or by the snapshot with which the limit changed to
  it. An answer to a refresh that gives no request limit turns the automatic mode off.
\<close>

definition turns_off :: "server_event \<Rightarrow> bool" where
  "turns_off e =
     (case e of Requests_Refreshed (Inr q) \<Rightarrow> rq_hard_cap q = JNull \<and> rq_limit q = JNull | _ \<Rightarrow> False)"

definition window_of :: "request_limits \<Rightarrow> int" where
  "window_of q = (case rq_window q of JNum w \<Rightarrow> \<lfloor>w\<rfloor> | _ \<Rightarrow> 18000)"

definition told :: "setting obj \<Rightarrow> server_event \<Rightarrow> json \<times> int \<Rightarrow> json \<times> int" where
  "told cfg e before =
     (case e of
        Polled now snap \<Rightarrow>
          (if chosen_limit cfg (caps_of snap) = fst before then before
           else (chosen_limit cfg (caps_of snap), window_of (caps_of snap)))
      | Requests_Refreshed (Inr q) \<Rightarrow> (chosen_limit cfg q, window_of q)
      | _ \<Rightarrow> before)"

definition fixed_window :: "server_event \<Rightarrow> int \<Rightarrow> int" where
  "fixed_window e before =
     (case e of
        Requests_Refreshed (Inr q) \<Rightarrow> if rq_window q = JNull then before else window_of q
      | _ \<Rightarrow> before)"

definition limiter_for :: "json \<times> int \<Rightarrow> (jsnum \<times> int) option" where
  "limiter_for lw = (case fst lw of JNum l \<Rightarrow> if 0 < l then Some (Fin l, snd lw) else None | _ \<Rightarrow> None)"

definition asked_limiter :: "setting obj \<Rightarrow> server_event list \<Rightarrow> (jsnum \<times> int) option" where
  "asked_limiter cfg es =
     (let n = num_setting cfg ''rateLimitRequests''
      in if flag cfg ''neverLimitRequests'' then None
         else if js_lt (Fin 0) n then Some (n, fold fixed_window es 18000)
         else if n = Fin 0 \<and> \<not> list_ex turns_off es then limiter_for (fold (told cfg) es (JNull, 18000))
         else None)"

text \<open>The limit of the limiter in force and its window in seconds.\<close>

definition limiter_view :: "rate_limiter \<Rightarrow> jsnum \<times> int" where
  "limiter_view rl = (Fin (rl_limit rl), rl_window_ms rl div 1000)"

abbreviation limiter_of :: "server \<Rightarrow> (jsnum \<times> int) option" where
  "limiter_of sv \<equiv> map_option limiter_view (sv_rate sv)"

lemma rl_check_limit [simp]: "limiter_view (fst (rl_check w now rl)) = limiter_view rl"
  by (simp add: limiter_view_def rl_check_def rl_prune_def Let_def)

lemma limiter_with_limit:
  "limiter_with x w = Some r \<Longrightarrow> map_option limiter_view r = Some (x, case w of JNum w \<Rightarrow> \<lfloor>w\<rfloor> | _ \<Rightarrow> 18000)"
  by (auto simp: limiter_with_def limiter_view_def new_rate_limiter_def split: jsnum.splits json.splits if_splits)

lemma coalesce_window:
  "(case coalesce (Some (rq_window q)) (JNum DEFAULT_RATE_WINDOW_SECONDS) of
      JNum w \<Rightarrow> \<lfloor>w\<rfloor> | _ \<Rightarrow> 18000) = window_of q"
  by (simp add: coalesce_def window_of_def DEFAULT_RATE_WINDOW_SECONDS_def split: json.split)

lemma create_rate_limiter_limit:
  assumes "create_rate_limiter n (Some q) hard never = Some r" and "n = Fin (-1) \<or> n = Fin 0 \<or> js_lt (Fin 0) n"
  shows "map_option limiter_view r =
    (if never then None else if js_lt (Fin 0) n then Some (n, window_of q)
     else if n = Fin 0 then limiter_for (if hard then rq_hard_cap q else rq_limit q, window_of q)
     else None)"
proof -
  have w: "limiter_with x (coalesce (Some (rq_window q)) (JNum DEFAULT_RATE_WINDOW_SECONDS)) = Some r' \<Longrightarrow>
      map_option limiter_view r' = Some (x, window_of q)" for x r'
    using limiter_with_limit coalesce_window by metis
  show ?thesis
    using assms
    by (auto simp: create_rate_limiter_def limiter_for_def Let_def js_lt_def split: if_splits json.splits dest!: w)
qed

text \<open>The settings the limiter depends on, and what an event may change of them.\<close>

definition same_mode :: "setting obj \<Rightarrow> setting obj \<Rightarrow> bool" where
  "same_mode cfg cfg' = (\<forall>f\<in>{''requestUseHardCap'', ''neverLimitRequests''}. obj_get cfg' f = obj_get cfg f)"

lemma set_if_given_other: "f \<noteq> g \<Longrightarrow> obj_get (set_if_given g v cfg) f = obj_get cfg f"
  by (simp add: set_if_given_def)

lemma same_mode_flags:
  "same_mode cfg cfg' \<Longrightarrow> flag cfg' ''requestUseHardCap'' = flag cfg ''requestUseHardCap''"
  "same_mode cfg cfg' \<Longrightarrow> flag cfg' ''neverLimitRequests'' = flag cfg ''neverLimitRequests''"
  "same_mode cfg cfg' \<Longrightarrow> chosen_limit cfg' q = chosen_limit cfg q"
  by (auto simp: same_mode_def flag_def chosen_limit_def)

lemma effective_limit_step_frame:
  assumes "effective_limit_step now snap sv = Some sv'"
  shows "sv_config sv' = sv_config sv" "sv_rate sv' = sv_rate sv" "sv_last_limit sv' = sv_last_limit sv"
    "sv_file sv' = sv_file sv"
  using assms by (auto simp: effective_limit_step_def split: option.splits)

lemma set_concurrency_frame [simp]:
  "sv_rate (set_concurrency h l sv) = sv_rate sv"
  "sv_last_limit (set_concurrency h l sv) = sv_last_limit sv"
  "sv_file (set_concurrency h l sv) = sv_file sv"
  "f \<noteq> ''concurrencyHardCap'' \<Longrightarrow> f \<noteq> ''concurrencySoftLimit'' \<Longrightarrow>
   obj_get (sv_config (set_concurrency h l sv)) f = obj_get (sv_config sv) f"
  by (simp_all add: set_concurrency_def)

text \<open>The state of the limiter after the events \<open>es\<close>.\<close>

definition limiter_state :: "setting obj \<Rightarrow> server_event list \<Rightarrow> server \<Rightarrow> bool" where
  "limiter_state cfg es sv =
     (same_mode cfg (sv_config sv) \<and> limiter_of sv = asked_limiter cfg es \<and>
      num_setting (sv_config sv) ''rateLimitRequests'' =
        (if num_setting cfg ''rateLimitRequests'' = Fin 0 \<and> list_ex turns_off es then Fin (-1)
         else num_setting cfg ''rateLimitRequests'') \<and>
      (num_setting cfg ''rateLimitRequests'' = Fin 0 \<and> \<not> list_ex turns_off es \<longrightarrow>
         sv_last_limit sv = fst (fold (told cfg) es (JNull, 18000))))"

definition mode_keys :: "string set" where
  "mode_keys = {''requestUseHardCap'', ''neverLimitRequests'', ''rateLimitRequests''}"

lemma limiter_state_frame:
  assumes "limiter_state cfg es sv" and "\<forall>f\<in>mode_keys. obj_get (sv_config sv') f = obj_get (sv_config sv) f"
    and "sv_rate sv' = sv_rate sv" and "sv_last_limit sv' = sv_last_limit sv"
  shows "limiter_state cfg es sv'"
  using assms by (simp add: limiter_state_def same_mode_def num_setting_def mode_keys_def)

lemma mode_keys_kept [simp]:
  "f \<in> mode_keys \<Longrightarrow> obj_get (set_if_given ''requestSoftLimit'' v cfg) f = obj_get cfg f"
  "f \<in> mode_keys \<Longrightarrow> obj_get (set_if_given ''requestHardCap'' v cfg) f = obj_get cfg f"
  "f \<in> mode_keys \<Longrightarrow> obj_get (sv_config (set_concurrency h l sv)) f = obj_get (sv_config sv) f"
  by (auto simp: mode_keys_def set_if_given_def)

text \<open>An event that reports no request limits changes nothing of the limiter but its entries.\<close>

lemma limiter_state_silent:
  assumes "limiter_state cfg es sv" and "\<not> turns_off e" and "\<And>v. told cfg e v = v"
    and "\<And>v. fixed_window e v = v"
  shows "limiter_state cfg (es @ [e]) sv"
  using assms by (simp add: limiter_state_def asked_limiter_def Let_def)

text \<open>The two places that build a limiter from reported caps, in the three modes.\<close>

lemma limiter_state_reported:
  assumes st: "limiter_state cfg es sv"
    and mode: "\<forall>f\<in>mode_keys. obj_get (sv_config sv') f = obj_get (sv_config sv) f"
    and auto: "num_setting (sv_config sv) ''rateLimitRequests'' = Fin 0 \<Longrightarrow>
      \<not> turns_off e \<and> (\<forall>w. fst (told cfg e (sv_last_limit sv, w)) = sv_last_limit sv') \<and>
      ((\<forall>w. told cfg e (sv_last_limit sv, w) = (sv_last_limit sv, w)) \<and> sv_rate sv' = sv_rate sv \<or>
       (\<forall>w. told cfg e (sv_last_limit sv, w) = (chosen_limit cfg q, window_of q)) \<and>
       create_rate_limiter (Fin 0) (Some q) (flag cfg ''requestUseHardCap'')
         (flag cfg ''neverLimitRequests'') = Some (sv_rate sv'))"
    and fixed: "num_setting (sv_config sv) ''rateLimitRequests'' \<noteq> Fin 0 \<Longrightarrow>
      (sv_rate sv' = sv_rate sv \<and>
       (js_lt (Fin 0) (num_setting (sv_config sv) ''rateLimitRequests'') \<longrightarrow> (\<forall>w. fixed_window e w = w))) \<or>
      js_lt (Fin 0) (num_setting (sv_config sv) ''rateLimitRequests'') \<and> (\<forall>w. fixed_window e w = window_of q) \<and>
      create_rate_limiter (num_setting (sv_config sv) ''rateLimitRequests'') (Some q)
        (flag cfg ''requestUseHardCap'') (flag cfg ''neverLimitRequests'') = Some (sv_rate sv')"
  shows "limiter_state cfg (es @ [e]) sv'"
proof -
  let ?n = "num_setting cfg ''rateLimitRequests''" and ?t = "fold (told cfg) es (JNull, 18000)"
  have n: "num_setting (sv_config sv) ''rateLimitRequests'' =
      (if ?n = Fin 0 \<and> list_ex turns_off es then Fin (-1) else ?n)"
    and rate: "limiter_of sv = asked_limiter cfg es" and same: "same_mode cfg (sv_config sv)"
    and last: "?n = Fin 0 \<and> \<not> list_ex turns_off es \<longrightarrow> sv_last_limit sv = fst ?t"
    using st by (simp_all add: limiter_state_def)
  have lt: "\<not> js_lt (Fin 0) (Fin 0)" "\<not> js_lt (Fin 0) (Fin (-1))" by (simp_all add: js_lt_def)
  have off: "?n = Fin 0 \<Longrightarrow> \<not> list_ex turns_off es \<Longrightarrow> \<not> turns_off e" using auto n by simp
  have new: "limiter_of sv' = asked_limiter cfg (es @ [e])"
  proof (cases "?n = Fin 0 \<and> \<not> list_ex turns_off es")
    case True
    then have n0: "num_setting (sv_config sv) ''rateLimitRequests'' = Fin 0" using n by simp
    have t: "(sv_last_limit sv, snd ?t) = ?t" using True last by (simp add: prod_eq_iff)
    have asked: "asked_limiter cfg (es @ [e]) =
        (if flag cfg ''neverLimitRequests'' then None else limiter_for (told cfg e ?t))"
      using True off lt by (simp add: asked_limiter_def)
    consider (keep) "told cfg e ?t = ?t" "sv_rate sv' = sv_rate sv"
      | (new) "told cfg e ?t = (chosen_limit cfg q, window_of q)"
        "create_rate_limiter (Fin 0) (Some q) (flag cfg ''requestUseHardCap'')
         (flag cfg ''neverLimitRequests'') = Some (sv_rate sv')"
      using auto [OF n0] t by metis
    then show ?thesis
    proof cases
      case keep
      then show ?thesis using rate True asked lt by (simp add: asked_limiter_def)
    next
      case new
      show ?thesis
        using create_rate_limiter_limit [OF new(2)] lt new(1) unfolding asked by (simp add: chosen_limit_def)
    qed
  next
    case False
    then have n0: "num_setting (sv_config sv) ''rateLimitRequests'' \<noteq> Fin 0" using n by (auto split: if_splits)
    show ?thesis
    proof (cases "js_lt (Fin 0) (num_setting (sv_config sv) ''rateLimitRequests'')")
      case pos: True
      then have same_n: "num_setting (sv_config sv) ''rateLimitRequests'' = ?n"
        using n lt by (auto split: if_splits)
      from fixed [OF n0] pos consider (keep) "\<forall>w. fixed_window e w = w" "sv_rate sv' = sv_rate sv"
        | (new) "\<forall>w. fixed_window e w = window_of q" "create_rate_limiter ?n (Some q)
           (flag cfg ''requestUseHardCap'') (flag cfg ''neverLimitRequests'') = Some (sv_rate sv')"
        unfolding same_n by blast
      then show ?thesis
      proof cases
        case keep
        then show ?thesis using rate pos [unfolded same_n] by (simp add: asked_limiter_def Let_def)
      next
        case new
        then show ?thesis
          using create_rate_limiter_limit [OF new(2)] pos [unfolded same_n]
          by (simp add: asked_limiter_def Let_def)
      qed
    next
      case neg: False
      then have "sv_rate sv' = sv_rate sv" using fixed [OF n0] by blast
      moreover have "asked_limiter cfg (es @ [e]) = asked_limiter cfg es"
        using False neg n lt by (auto simp: asked_limiter_def Let_def split: if_splits)
      ultimately show ?thesis using rate by simp
    qed
  qed
  have "num_setting (sv_config sv') ''rateLimitRequests'' =
      (if ?n = Fin 0 \<and> list_ex turns_off (es @ [e]) then Fin (-1) else ?n)"
    using n off mode by (simp add: num_setting_def mode_keys_def)
  moreover have "same_mode cfg (sv_config sv')" using same mode by (simp add: same_mode_def mode_keys_def)
  moreover have "sv_last_limit sv' = fst (fold (told cfg) (es @ [e]) (JNull, 18000))"
    if z: "?n = Fin 0 \<and> \<not> list_ex turns_off (es @ [e])"
  proof -
    have "(sv_last_limit sv, snd ?t) = ?t" using z last by (simp add: prod_eq_iff)
    moreover have "fst (told cfg e (sv_last_limit sv, snd ?t)) = sv_last_limit sv'" using auto z n by simp
    ultimately show ?thesis by simp
  qed
  ultimately show ?thesis using new by (simp add: limiter_state_def)
qed

lemma sync_limiter_state:
  assumes "limiter_state cfg es sv" and "sync_rate_limiter snap sv = Some sv'"
  shows "limiter_state cfg (es @ [Polled now snap]) sv'"
proof -
  let ?cfg = "set_if_given ''requestSoftLimit'' (us_requests_limit snap)
    (set_if_given ''requestHardCap'' (us_requests_hard_cap snap) (sv_config sv))"
  have mode: "\<forall>f\<in>mode_keys. obj_get ?cfg f = obj_get (sv_config sv) f" by simp
  then have same: "same_mode cfg ?cfg"
    using assms(1) by (simp add: limiter_state_def same_mode_def mode_keys_def)
  have n: "num_setting ?cfg ''rateLimitRequests'' = num_setting (sv_config sv) ''rateLimitRequests''"
    using mode by (simp add: num_setting_def mode_keys_def)
  note flags = same_mode_flags [OF same]
  let ?n = "num_setting (sv_config sv) ''rateLimitRequests''"
  have kept: "sv_rate sv' = sv_rate sv" if "?n \<noteq> Fin 0"
  proof (cases "js_lt (Fin 0) ?n \<and> sv_rate sv = None")
    case True
    then have "num_setting cfg ''rateLimitRequests'' = ?n"
      using assms(1) by (auto simp: limiter_state_def js_lt_def split: if_splits)
    then have "flag cfg ''neverLimitRequests''"
      using assms(1) True by (auto simp: limiter_state_def asked_limiter_def Let_def split: if_splits)
    then show ?thesis
      using assms(2) True that by (auto simp: sync_rate_limiter_def create_rate_limiter_def Let_def n flags)
  next
    case False
    then show ?thesis
      using assms(2) that by (auto simp: sync_rate_limiter_def Let_def n split: if_splits)
  qed
  have config: "sv_config sv' = ?cfg"
    using assms(2) by (auto simp: sync_rate_limiter_def Let_def split: if_splits)
  show ?thesis
  proof (rule limiter_state_reported [OF assms(1), where q = "caps_of snap"])
    show "\<forall>f\<in>mode_keys. obj_get (sv_config sv') f = obj_get (sv_config sv) f" using config mode by simp
  next
    assume "?n = Fin 0"
    then show "\<not> turns_off (Polled now snap) \<and>
        (\<forall>w. fst (told cfg (Polled now snap) (sv_last_limit sv, w)) = sv_last_limit sv') \<and>
        ((\<forall>w. told cfg (Polled now snap) (sv_last_limit sv, w) = (sv_last_limit sv, w)) \<and> sv_rate sv' = sv_rate sv \<or>
         (\<forall>w. told cfg (Polled now snap) (sv_last_limit sv, w) =
            (chosen_limit cfg (caps_of snap), window_of (caps_of snap))) \<and>
         create_rate_limiter (Fin 0) (Some (caps_of snap)) (flag cfg ''requestUseHardCap'')
           (flag cfg ''neverLimitRequests'') = Some (sv_rate sv'))"
      using assms(2)
      by (cases "chosen_limit cfg (caps_of snap) = sv_last_limit sv")
        (auto simp: turns_off_def told_def sync_rate_limiter_def Let_def n flags)
  next
    assume "?n \<noteq> Fin 0"
    then show "(sv_rate sv' = sv_rate sv \<and>
         (js_lt (Fin 0) ?n \<longrightarrow> (\<forall>w. fixed_window (Polled now snap) w = w))) \<or>
        js_lt (Fin 0) ?n \<and> (\<forall>w. fixed_window (Polled now snap) w = window_of (caps_of snap)) \<and>
        create_rate_limiter ?n (Some (caps_of snap)) (flag cfg ''requestUseHardCap'')
          (flag cfg ''neverLimitRequests'') = Some (sv_rate sv')"
      using kept by (simp add: fixed_window_def)
  qed
qed

lemma refresh_limiter_state:
  assumes st: "limiter_state cfg es sv" and run: "refresh_requests rl sv = Some sv'"
  shows "limiter_state cfg (es @ [Requests_Refreshed rl]) sv'"
proof (cases rl)
  case (Inl e)
  then show ?thesis
    using run limiter_state_silent [OF st, of "Requests_Refreshed rl"]
    by (simp add: refresh_requests_def turns_off_def told_def fixed_window_def)
next
  case (Inr q)
  let ?cfg = "set_if_given ''requestSoftLimit'' (rq_limit q)
    (set_if_given ''requestHardCap'' (rq_hard_cap q) (sv_config sv))"
  have mode: "\<forall>f\<in>mode_keys. obj_get ?cfg f = obj_get (sv_config sv) f" by simp
  then have same: "same_mode cfg ?cfg"
    using st by (simp add: limiter_state_def same_mode_def mode_keys_def)
  have n: "num_setting ?cfg ''rateLimitRequests'' = num_setting (sv_config sv) ''rateLimitRequests''"
    using mode by (simp add: num_setting_def mode_keys_def)
  note flags = same_mode_flags [OF same]
  let ?n = "num_setting (sv_config sv) ''rateLimitRequests''"
  show ?thesis
  proof (cases "rq_hard_cap q = JNull \<and> rq_limit q = JNull \<and> ?n = Fin 0")
    case False
    show ?thesis
      by (rule limiter_state_reported [OF st, where q = q])
         (use False run mode in \<open>auto simp: Inr turns_off_def told_def fixed_window_def refresh_requests_def
            Let_def n flags split: if_splits\<close>)
  next
    case True
    have c: "turns_off (Requests_Refreshed rl)" using True Inr by (simp add: turns_off_def)
    have lt: "\<not> js_lt (Fin 0) (Fin 0)" by (simp add: js_lt_def)
    have "num_setting cfg ''rateLimitRequests'' = Fin 0"
      using st True by (auto simp: limiter_state_def split: if_splits)
    moreover have "sv_config sv' = obj_set ?cfg ''rateLimitRequests'' (SNum (Fin (-1)))" "sv_rate sv' = None"
      using run True n by (auto simp: Inr refresh_requests_def Let_def)
    moreover have "asked_limiter cfg (es @ [Requests_Refreshed rl]) = None"
      using calculation(1) c lt by (simp add: asked_limiter_def Let_def)
    ultimately show ?thesis
      using c same by (simp add: limiter_state_def num_setting_def same_mode_def)
  qed
qed

lemma event_limiter_state:
  assumes st: "limiter_state cfg es sv" and run: "server_event_result e sv = Some sv'"
  shows "limiter_state cfg (es @ [e]) sv'"
proof (cases e)
  case (Polled now snap)
  then obtain sv1 where sv1: "effective_limit_step now snap
      (set_concurrency (us_hard_cap snap) (us_soft_limit snap) sv) = Some sv1"
    and sync: "sync_rate_limiter snap sv1 = Some sv'"
    using run by (auto simp: on_usage_change_def split: option.splits)
  have "limiter_state cfg es sv1"
    by (rule limiter_state_frame [OF st]) (simp_all add: effective_limit_step_frame [OF sv1])
  then show ?thesis using sync_limiter_state sync Polled by blast
next
  case (Concurrency_Refreshed now snap r)
  have "limiter_state cfg es sv'"
  proof (cases r)
    case Inl
    then show ?thesis using run st by (simp add: Concurrency_Refreshed refresh_concurrency_def)
  next
    case (Inr source)
    obtain fl where "effective_limit_step now snap
        (set_concurrency (JNum (of_int (fst source))) (JNum (of_int (snd source))) (sv\<lparr>sv_file := fl\<rparr>)) = Some sv'"
      using run
      by (auto simp: Concurrency_Refreshed Inr refresh_concurrency_def apply_limits_from_source_def Let_def
          case_prod_unfold)
    note frame = effective_limit_step_frame [OF this]
    show ?thesis by (rule limiter_state_frame [OF st]) (simp_all add: frame)
  qed
  then show ?thesis
    by (rule limiter_state_silent) (simp_all add: Concurrency_Refreshed turns_off_def told_def fixed_window_def)
next
  case (Requests_Refreshed rl)
  then show ?thesis using refresh_limiter_state [OF st] run by simp
next
  case (Counted w now)
  have "limiter_state cfg es sv'"
    using st run by (auto simp: Counted limiter_state_def option.map_comp comp_def)
  then show ?thesis by (rule limiter_state_silent) (simp_all add: Counted turns_off_def told_def fixed_window_def)
qed

lemma run_limiter_state:
  "steps server_step sv es sv' \<Longrightarrow> limiter_state cfg [] sv \<Longrightarrow> limiter_state cfg es sv'"
  by (induction rule: steps.induct) (auto simp: server_step_simps intro: event_limiter_state)

lemma new_server_state:
  assumes "new_server cfg g f = Some sv"
  shows "limiter_state cfg [] sv" "sv_gate sv = g"
proof -
  obtain r where r: "create_rate_limiter (num_setting cfg ''rateLimitRequests'') None
      (flag cfg ''requestUseHardCap'') (flag cfg ''neverLimitRequests'') = Some r"
    and sv: "sv = \<lparr>sv_config = cfg, sv_gate = g, sv_rate = r, sv_last_limit = JNull, sv_file = f\<rparr>"
    using assms by (auto simp: new_server_def split: option.splits)
  show "sv_gate sv = g" by (simp add: sv)
  have w: "limiter_with x (coalesce None (JNum DEFAULT_RATE_WINDOW_SECONDS)) = Some r' \<Longrightarrow>
      map_option limiter_view r' = Some (x, 18000)" for x r'
    using limiter_with_limit [of x "coalesce None (JNum DEFAULT_RATE_WINDOW_SECONDS)" r']
    by (simp add: coalesce_def DEFAULT_RATE_WINDOW_SECONDS_def)
  have "map_option limiter_view r = asked_limiter cfg []"
    using r by (auto simp: create_rate_limiter_def asked_limiter_def limiter_for_def Let_def js_lt_def
        split: if_splits dest: w)
  then show "limiter_state cfg [] sv" by (simp add: limiter_state_def sv same_mode_def)
qed

text \<open>
  C28: The limiter in force is the one asked for, with its limit and its window. After any run of
  snapshots, limit refreshes and counted requests from startup there is no limiter when limiting is
  switched off; a configured limit is in force with the window of the last refresh that gave one,
  and the default of 18000 s before, whatever the snapshots say; in automatic mode the limit last
  reported is in force (0 or less, or none, meaning no limiter), with the window that came with the
  refresh that gave it or with the snapshot that changed the limit. One answer to a refresh that gives no
  request limits turns the automatic mode off for the rest of the run, whatever is reported
  afterwards.
\<close>

theorem limiter_is_the_one_asked_for:
  assumes "new_server cfg g f = Some sv" and "steps server_step sv es sv'"
  shows "map_option limiter_view (sv_rate sv') = asked_limiter cfg es"
  using run_limiter_state [OF assms(2) new_server_state(1) [OF assms(1)]] by (simp add: limiter_state_def)

definition auto_config :: "setting obj" where
  "auto_config = [(''rateLimitRequests'', SNum (Fin 0)), (''requestUseHardCap'', SBool True)]"

definition limits_answer :: "json \<Rightarrow> server_event" where
  "limits_answer l = Requests_Refreshed (Inr \<lparr>rq_limit = l, rq_hard_cap = l, rq_window = JNum 18000\<rparr>)"

text \<open>A limit is reported, then an answer without limits comes, then the limit again.\<close>

lemma auto_run:
  "\<exists>sv sv'. new_server auto_config g Missing = Some sv \<and>
     steps server_step sv [limits_answer (JNum 100), limits_answer JNull, limits_answer (JNum 100)] sv'"
proof -
  define sv where "sv = \<lparr>sv_config = auto_config, sv_gate = g, sv_rate = None, sv_last_limit = JNull,
    sv_file = Missing\<rparr>"
  have lt: "\<not> js_lt (Fin 0) (Fin 0)" "\<not> js_lt (Fin 0) (Fin (-1))" by (simp_all add: js_lt_def)
  note defs = limits_answer_def refresh_requests_def Let_def set_if_given_def num_setting_def flag_def
    create_rate_limiter_def limiter_with_def coalesce_def lt
  have "new_server auto_config g Missing = Some sv"
    by (simp add: new_server_def auto_config_def sv_def defs)
  moreover obtain s1 where s1: "server_event_result (limits_answer (JNum 100)) sv = Some s1"
    and c1: "num_setting (sv_config s1) ''rateLimitRequests'' = Fin 0"
    by (simp add: sv_def auto_config_def defs)
  moreover obtain s2 where s2: "server_event_result (limits_answer JNull) s1 = Some s2"
    and c2: "num_setting (sv_config s2) ''rateLimitRequests'' = Fin (-1)"
    using c1 by (simp add: defs)
  moreover obtain s3 where "server_event_result (limits_answer (JNum 100)) s2 = Some s3"
    using c2 by (simp add: defs)
  ultimately have "new_server auto_config g Missing = Some sv"
    "steps server_step sv ((([] @ [limits_answer (JNum 100)]) @ [limits_answer JNull]) @
       [limits_answer (JNum 100)]) s3"
    by (blast intro: steps.intros server_step.intros)+
  then show ?thesis by auto
qed

theorem limiter_is_the_one_asked_for_witness:
  "\<forall>g. \<exists>sv sv'. new_server auto_config g Missing = Some sv \<and>
     steps server_step sv [limits_answer (JNum 100), limits_answer JNull, limits_answer (JNum 100)] sv' \<and>
     sv_rate sv' = None"
proof
  fix g
  let ?es = "[limits_answer (JNum 100), limits_answer JNull, limits_answer (JNum 100)]"
  obtain sv sv' where run: "new_server auto_config g Missing = Some sv" "steps server_step sv ?es sv'"
    using auto_run by blast
  have "asked_limiter auto_config ?es = None"
    by (simp add: asked_limiter_def auto_config_def limits_answer_def turns_off_def num_setting_def flag_def
        js_lt_def)
  then have "sv_rate sv' = None"
    using limiter_is_the_one_asked_for [OF run] by simp
  then show "\<exists>sv sv'. new_server auto_config g Missing = Some sv \<and> steps server_step sv ?es sv' \<and> sv_rate sv' = None"
    using run by blast
qed

subsection \<open>The gate\<close>

lemma resize_sets_limit:
  assumes "sem_wf s" and "resize x s = Some (s', changed, granted)"
  shows "clamp_limit x (sem_hard_cap s) = Some (sem_limit s')"
proof -
  obtain c where c: "clamp_limit x (sem_hard_cap s) = Some c"
    and run: "(if c = sem_limit s then Some (s, False, [])
              else (let (s', granted) = drain_waiters (s\<lparr>sem_limit := c\<rparr>)
                    in Some (s', True, granted))) = Some (s', changed, granted)"
    using assms(2) by (auto simp: resize_def split: option.splits)
  have "SCALE \<le> c" "c \<le> sem_hard_cap s"
    using clamp_limit_bounds [OF c sem_wf_hard_cap [OF assms(1)]] by simp_all
  then have "sem_wf (s\<lparr>sem_limit := c\<rparr>)" using assms(1) by (simp add: sem_wf_def)
  then show ?thesis
    using run c drain_waiters_spec(8) [of "s\<lparr>sem_limit := c\<rparr>" s' granted]
    by (auto split: if_splits prod.splits)
qed

lemma gate_resize_limit:
  assumes "sem_wf (g_sem g)" and "gate_resize x g = Some g'"
  shows "clamp_limit x (sem_hard_cap (g_sem g)) = Some (sem_limit (g_sem g'))"
    "sem_hard_cap (g_sem g') = sem_hard_cap (g_sem g)" "sem_wf (g_sem g')"
proof -
  obtain s ch gr where r: "resize x (g_sem g) = Some (s, ch, gr)" and g': "g_sem g' = s"
    using assms(2) by (auto simp: gate_resize_def split: option.splits)
  show "clamp_limit x (sem_hard_cap (g_sem g)) = Some (sem_limit (g_sem g'))"
    "sem_hard_cap (g_sem g') = sem_hard_cap (g_sem g)" "sem_wf (g_sem g')"
    using resize_sets_limit [OF assms(1) r] resize_spec [OF assms(1) r] by (simp_all add: g')
qed

lemma gate_set_hard_cap_limit:
  assumes "sem_wf (g_sem g)"
  shows "sem_wf (g_sem (gate_set_hard_cap x g))"
    "sem_hard_cap (g_sem (gate_set_hard_cap x g)) = safe_whole x * SCALE"
proof -
  obtain s ch gr where r: "set_hard_cap x (g_sem g) = (s, ch, gr)" using prod_cases3 by blast
  show "sem_wf (g_sem (gate_set_hard_cap x g))"
    "sem_hard_cap (g_sem (gate_set_hard_cap x g)) = safe_whole x * SCALE"
    using set_hard_cap_spec [OF assms r] by (simp_all add: gate_set_hard_cap_def r)
qed

lemma set_concurrency_gate:
  assumes "sem_wf (g_sem (sv_gate sv))"
  shows "sem_wf (g_sem (sv_gate (set_concurrency h l sv)))"
    "sem_hard_cap (g_sem (sv_gate (set_concurrency h l sv))) = safe_whole (as_jsnum h) * SCALE"
  using gate_set_hard_cap_limit [OF assms, of "as_jsnum h"]
  by (auto simp: set_concurrency_def gate_set_soft_limit_def set_soft_limit_def sem_wf_def Let_def)

text \<open>Boxed for another reason than the rate limit, and the limit asked for.\<close>

definition boxed :: "int \<Rightarrow> usage_snapshot \<Rightarrow> bool" where
  "boxed now snap =
     ((case us_boxed_until snap of None \<Rightarrow> False | Some t \<Rightarrow> of_int now < t) \<and>
      \<not> (case us_boxed_reason snap of JStr s \<Rightarrow> starts_with (to_lower s) ''rate_limit'' | _ \<Rightarrow> False))"

definition wanted_limit :: "int \<Rightarrow> usage_snapshot \<Rightarrow> jsnum \<Rightarrow> jsnum" where
  "wanted_limit now snap base =
     (if boxed now snap then Fin 1
      else if truthy (us_priority_low snap) then js_max (Fin 1) (js_pred base) else base)"

lemma effective_limit_step_gate:
  assumes wf: "sem_wf (g_sem (sv_gate sv))" and run: "effective_limit_step now snap sv = Some sv'"
  shows "sem_hard_cap (g_sem (sv_gate sv')) = sem_hard_cap (g_sem (sv_gate sv))"
    "Some (sem_limit (g_sem (sv_gate sv'))) =
       clamp_limit (wanted_limit now snap
          (if flag (sv_config sv) ''useHardCap'' then num_setting (sv_config sv) ''concurrencyHardCap''
           else num_setting (sv_config sv) ''concurrencySoftLimit''))
         (sem_hard_cap (g_sem (sv_gate sv)))"
proof -
  obtain v where v: "limit_view snap = Some v"
    and g: "apply_effective_limit (of_int now) (sv_config sv) v (sv_gate sv) = Some (sv_gate sv')"
    using run by (auto simp: effective_limit_step_def split: option.splits)
  have view: "ls_priority_low v = truthy (us_priority_low snap)" "ls_boxed_until v = us_boxed_until snap"
    "(case ls_boxed_reason v of None \<Rightarrow> False | Some r \<Rightarrow> starts_with (to_lower r) ''rate_limit'') =
     (case us_boxed_reason snap of JStr s \<Rightarrow> starts_with (to_lower s) ''rate_limit'' | _ \<Rightarrow> False)"
    using v by (auto simp: limit_view_def Let_def split: json.splits)
  have "gate_resize (wanted_limit now snap
      (if flag (sv_config sv) ''useHardCap'' then num_setting (sv_config sv) ''concurrencyHardCap''
       else num_setting (sv_config sv) ''concurrencySoftLimit'')) (sv_gate sv) = Some (sv_gate sv')"
    using g unfolding apply_effective_limit_def wanted_limit_def boxed_def flag_def view Let_def
    by (auto split: if_splits)
  from gate_resize_limit [OF wf this]
  show "sem_hard_cap (g_sem (sv_gate sv')) = sem_hard_cap (g_sem (sv_gate sv))"
    "Some (sem_limit (g_sem (sv_gate sv'))) =
       clamp_limit (wanted_limit now snap
          (if flag (sv_config sv) ''useHardCap'' then num_setting (sv_config sv) ''concurrencyHardCap''
           else num_setting (sv_config sv) ''concurrencySoftLimit''))
         (sem_hard_cap (g_sem (sv_gate sv)))"
    by simp_all
qed

lemma sync_rate_limiter_gate: "sync_rate_limiter snap sv = Some sv' \<Longrightarrow> sv_gate sv' = sv_gate sv"
  by (auto simp: sync_rate_limiter_def Let_def split: if_splits)

lemma set_concurrency_settings:
  "num_setting (sv_config (set_concurrency h l sv)) ''concurrencyHardCap'' =
     (case setting_of h of SNum x \<Rightarrow> x | _ \<Rightarrow> NaN)"
  "num_setting (sv_config (set_concurrency h l sv)) ''concurrencySoftLimit'' =
     (case setting_of l of SNum x \<Rightarrow> x | _ \<Rightarrow> NaN)"
  "flag (sv_config (set_concurrency h l sv)) ''useHardCap'' = flag (sv_config sv) ''useHardCap''"
  by (simp_all add: set_concurrency_def num_setting_def flag_def)

text \<open>
  A snapshot sets the gate. Whatever the gate was doing, after a snapshot with numeric caps its hard
  cap is the reported one, at least one request, and it runs one request at a time while boxed for
  another reason than the rate limit; otherwise the cap the settings choose, one less at low
  priority, never under one request and never above the hard cap.
\<close>

theorem gate_follows_snapshot:
  assumes "sem_wf (g_sem (sv_gate sv))" and "on_usage_change now snap sv = Some sv'"
    and "us_hard_cap snap = JNum h" and "us_soft_limit snap = JNum l"
  shows "let cap = max 1 \<lfloor>h\<rfloor> * SCALE;
             base = (if flag (sv_config sv) ''useHardCap'' then h else l);
             want = (if boxed now snap then 1
                     else if truthy (us_priority_low snap) then max 1 (base - 1) else base)
         in sem_hard_cap (g_sem (sv_gate sv')) = cap \<and>
            sem_limit (g_sem (sv_gate sv')) = max SCALE (min (js_round (want * of_int SCALE)) cap)"
proof -
  obtain sv1 where sv1: "effective_limit_step now snap (set_concurrency (JNum h) (JNum l) sv) = Some sv1"
    and sync: "sync_rate_limiter snap sv1 = Some sv'"
    using assms(2-4) by (auto simp: on_usage_change_def split: option.splits)
  note gate = set_concurrency_gate [OF assms(1), of "JNum h" "JNum l"]
  note step = effective_limit_step_gate [OF gate(1) sv1]
  have "js_max (Fin 1) (js_pred (Fin x)) = Fin (max 1 (x - 1))" for x
    by (simp add: js_max_def max_def)
  then show ?thesis
    using step gate(2) sync_rate_limiter_gate [OF sync]
    by (auto simp: set_concurrency_settings wanted_limit_def clamp_limit_def safe_whole_def Let_def)
qed

lemma gate_resize_runs: "\<exists>g'. gate_resize (Fin x) g = Some g'"
proof -
  have "\<exists>r. resize (Fin x) (g_sem g) = Some r"
    by (auto simp: resize_def clamp_limit_def case_prod_unfold Let_def)
  then obtain s ch gr where "resize (Fin x) (g_sem g) = Some (s, ch, gr)" using prod_cases3 by metis
  then show ?thesis by (simp add: gate_resize_def)
qed

lemma effective_limit_step_runs:
  assumes "limit_view snap = Some v" and "num_setting (sv_config sv) ''concurrencyHardCap'' = Fin h"
    and "num_setting (sv_config sv) ''concurrencySoftLimit'' = Fin l"
  shows "\<exists>sv'. effective_limit_step now snap sv = Some sv'"
proof -
  have "\<exists>x. js_max (Fin 1) (js_pred (Fin y)) = Fin x" for y by (simp add: js_max_def)
  moreover define base where "base = (if obj_get (sv_config sv) ''useHardCap'' = Some (SBool True)
    then num_setting (sv_config sv) ''concurrencyHardCap''
    else num_setting (sv_config sv) ''concurrencySoftLimit'')"
  moreover have "\<exists>y. base = Fin y" using assms(2,3) by (simp add: base_def)
  ultimately obtain y z where "base = Fin y" "js_max (Fin 1) (js_pred base) = Fin z" by fastforce
  then have "\<exists>g'. apply_effective_limit (of_int now) (sv_config sv) v (sv_gate sv) = Some g'"
    using gate_resize_runs unfolding apply_effective_limit_def Let_def base_def [symmetric]
    by (cases "ls_priority_low v") (simp_all split: if_split)
  then show ?thesis using assms(1) by (auto simp: effective_limit_step_def)
qed

text \<open>A gate with the demonstration options, settings that leave request limits alone, and a
  snapshot at low priority.\<close>

definition idle_server :: server where
  "idle_server =
     \<lparr>sv_config = [(''rateLimitRequests'', SNum (Fin (-1)))], sv_gate = new_gate demo_options,
      sv_rate = None, sv_last_limit = JNull, sv_file = Missing\<rparr>"

definition low_snapshot :: usage_snapshot where
  "low_snapshot = fail_safe_snapshot\<lparr>us_hard_cap := JNum 8, us_soft_limit := JNum (5/2)\<rparr>"

lemma idle_server_wf: "sem_wf (g_sem (sv_gate idle_server))"
  using new_semaphore_wf [of demo_options] demo_options_ok(1)
  by (simp add: idle_server_def new_gate_def options_ok_def)

lemma low_snapshot_runs: "\<exists>sv'. on_usage_change 0 low_snapshot idle_server = Some sv'"
proof -
  obtain sv1 where sv1: "effective_limit_step 0 low_snapshot
      (set_concurrency (JNum 8) (JNum (5/2)) idle_server) = Some sv1"
    using effective_limit_step_runs [of low_snapshot _ "set_concurrency (JNum 8) (JNum (5/2)) idle_server" 8 "5/2" 0]
    by (auto simp: set_concurrency_settings limit_view_def low_snapshot_def fail_safe_snapshot_def)
  have "sv_config sv1 = sv_config (set_concurrency (JNum 8) (JNum (5/2)) idle_server)"
    using effective_limit_step_frame [OF sv1] by simp
  then have "num_setting (sv_config sv1) ''rateLimitRequests'' = Fin (-1)"
    by (simp add: idle_server_def set_concurrency_def num_setting_def)
  then have "sync_rate_limiter low_snapshot sv1 \<noteq> None"
    by (simp add: sync_rate_limiter_def Let_def low_snapshot_def fail_safe_snapshot_def set_if_given_def js_lt_def)
  then show ?thesis using sv1
    by (auto simp: on_usage_change_def low_snapshot_def)
qed

theorem gate_follows_snapshot_witness:
  "\<exists>sv'. on_usage_change 0 low_snapshot idle_server = Some sv' \<and>
     sem_hard_cap (g_sem (sv_gate sv')) = 8 * SCALE \<and>
     sem_limit (g_sem (sv_gate sv')) = max SCALE (js_round (3/2 * of_int SCALE))"
proof -
  obtain sv' where run: "on_usage_change 0 low_snapshot idle_server = Some sv'" using low_snapshot_runs by blast
  have low: "truthy (us_priority_low low_snapshot)" "\<not> boxed 0 low_snapshot"
    "\<not> flag (sv_config idle_server) ''useHardCap''"
    by (simp_all add: low_snapshot_def fail_safe_snapshot_def boxed_def flag_def idle_server_def)
  have "js_round (3/2 * of_int SCALE) \<le> 8 * SCALE" by (simp add: SCALE_def js_round_def)
  then show ?thesis
    using gate_follows_snapshot [OF idle_server_wf run, of 8 "5/2"] run low
    by (simp add: low_snapshot_def Let_def)
qed

text \<open>
  C29: A refresh takes missing limits for the smallest ones, a poll does not. An answer without
  concurrency limits, which leaves the limits of a snapshot as they are, makes a refresh set the
  gate's hard cap and limit to one request, save both settings as 1, and forget the reported caps.
\<close>

theorem refresh_takes_missing_limits_for_one:
  assumes "key \<noteq> None" and "key \<noteq> Some []" and "raw \<noteq> JNull"
    and "jopt (jget raw ''limits'') ''concurrency'' = None"
    and "sem_wf (g_sem (sv_gate sv))"
    and "fetch_concurrency_limits key show_int (Fetch_Data raw) = Some r"
    and "refresh_concurrency now snap r sv = Some sv'"
  shows "sem_hard_cap (g_sem (sv_gate sv')) = SCALE \<and> sem_limit (g_sem (sv_gate sv')) = SCALE \<and>
    num_setting (sv_config sv') ''concurrencyHardCap'' = Fin 1 \<and>
    num_setting (sv_config sv') ''concurrencySoftLimit'' = Fin 1 \<and>
    sv_file sv' = snd (save_config [(''concurrency_hard_cap'', JNum 1), (''concurrency_soft_limit'', JNum 1)]
                        NotFetched (sv_file sv)) \<and>
    (case build_snapshot parse t raw True h l of
       None \<Rightarrow> True | Some s \<Rightarrow> us_hard_cap s = h \<and> us_soft_limit s = l)"
proof -
  have r: "r = Inr (1, 1)"
    using assms(1-4,6) by (auto simp: fetch_concurrency_limits_def fetch_usage_raw_def coalesce_def Let_def split: json.splits)
  let ?sv = "set_concurrency (JNum 1) (JNum 1) (sv\<lparr>sv_file := snd (save_config
    [(''concurrency_hard_cap'', JNum 1), (''concurrency_soft_limit'', JNum 1)] NotFetched (sv_file sv))\<rparr>)"
  have step: "effective_limit_step now snap ?sv = Some sv'"
    using assms(7) by (simp add: refresh_concurrency_def r apply_limits_from_source_def Let_def)
  have wf: "sem_wf (g_sem (sv_gate ?sv))" "sem_hard_cap (g_sem (sv_gate ?sv)) = SCALE"
    using set_concurrency_gate [of "sv\<lparr>sv_file := snd (save_config
      [(''concurrency_hard_cap'', JNum 1), (''concurrency_soft_limit'', JNum 1)] NotFetched (sv_file sv))\<rparr>"
      "JNum 1" "JNum 1"] assms(5) by (simp_all add: safe_whole_def)
  have "wanted_limit now snap (Fin 1) = Fin 1" by (simp add: wanted_limit_def js_max_def)
  moreover have "clamp_limit (Fin 1) SCALE = Some SCALE"
    by (simp add: clamp_limit_def SCALE_def js_round_def)
  ultimately have "sem_hard_cap (g_sem (sv_gate sv')) = SCALE" "sem_limit (g_sem (sv_gate sv')) = SCALE"
    using effective_limit_step_gate [OF wf(1) step] wf(2) by (simp_all add: set_concurrency_settings split: if_splits)
  moreover note effective_limit_step_frame [OF step]
  moreover have "case build_snapshot parse t raw True h l of
       None \<Rightarrow> True | Some s \<Rightarrow> us_hard_cap s = h \<and> us_soft_limit s = l"
    using assms(4) by (auto simp: build_snapshot_def coalesce_def Let_def split: option.splits)
  ultimately show ?thesis by (simp add: set_concurrency_settings)
qed

theorem refresh_takes_missing_limits_for_one_witness:
  "\<exists>sv'. refresh_concurrency 0 low_snapshot (Inr (1, 1)) idle_server = Some sv' \<and>
     sem_hard_cap (g_sem (sv_gate sv')) = SCALE"
proof -
  have ans: "fetch_concurrency_limits (Some ''key'') (\<lambda>_. ''503'') (Fetch_Data (JObj [])) = Some (Inr (1, 1))"
    by (simp add: fetch_concurrency_limits_def fetch_usage_raw_def coalesce_def)
  obtain sv' where run: "refresh_concurrency 0 low_snapshot (Inr (1, 1)) idle_server = Some sv'"
    using effective_limit_step_runs [of low_snapshot _ "set_concurrency (JNum 1) (JNum 1)
      (idle_server\<lparr>sv_file := snd (save_config [(''concurrency_hard_cap'', JNum 1), (''concurrency_soft_limit'', JNum 1)]
         NotFetched Missing)\<rparr>)" 1 1 0]
    by (auto simp: refresh_concurrency_def apply_limits_from_source_def set_concurrency_settings limit_view_def
        low_snapshot_def fail_safe_snapshot_def idle_server_def)
  show ?thesis
    using refresh_takes_missing_limits_for_one [OF _ _ _ _ idle_server_wf ans run] run by simp
qed

end
