(* ===== verification/Dispatch.thy ===== *)
theory Dispatch
  imports RateLimit Config_Validation
begin

text \<open>
  The front door: \<open>createRequestDispatcher\<close> of \<open>src/index.ts\<close>, the authentication and routing of
  \<open>src/viewer.ts\<close> and the helpers of \<open>src/auth.ts\<close>. A request is the record of what these read of it;
  the outcome says who answers it, or the answer given at once. The origin of a referer (the URL
  parser) is the argument \<open>origin_of\<close>, with no result where the parser throws. A token compares
  equal when the texts are equal.
\<close>

record http_request =
  hq_method :: string
  hq_path :: string
  hq_origin :: "string option"
  hq_referer :: "string option"
  hq_authorization :: "string option"
  hq_query :: "string obj"

subsection \<open>Authentication\<close>

definition is_token_authorized :: "http_request \<Rightarrow> string \<Rightarrow> bool" where
  "is_token_authorized req token =
     (case hq_authorization req of
        None \<Rightarrow> False
      | Some auth \<Rightarrow> auth \<noteq> [] \<and> auth = ''Bearer '' @ token)"

definition is_ws_authorized :: "http_request \<Rightarrow> string \<Rightarrow> bool" where
  "is_ws_authorized req token =
     (case obj_get (hq_query req) ''token'' of None \<Rightarrow> False | Some t \<Rightarrow> t \<noteq> [] \<and> t = token)"

datatype auth_result = Granted | Locked_Out | Refused

text \<open>
  The check every guarded route makes: nothing without a configured token, otherwise the lockout,
  then the token, a failure recorded and a success clearing the failures. The limiter may be absent.
\<close>

definition has_token :: "string option \<Rightarrow> bool" where
  "has_token token = (token \<noteq> None \<and> token \<noteq> Some [])"

definition authorize ::
  "int \<Rightarrow> string option \<Rightarrow> (string \<Rightarrow> bool) \<Rightarrow> auth_limiter option \<Rightarrow> auth_result \<times> auth_limiter option" where
  "authorize now token matches_token al0 =
     (if \<not> has_token token then (Granted, al0)
      else
        (let (locked, al1) = (case al0 of
                None \<Rightarrow> (False, None)
              | Some a \<Rightarrow> (let (a', l) = is_locked_out now a in (l, Some a')))
         in if locked then (Locked_Out, al1)
            else if \<not> matches_token (the token) then (Refused, map_option (record_failure now) al1)
            else (Granted, map_option al_reset al1)))"

subsection \<open>The viewer's routes\<close>

datatype viewer_route =
    R_Captures | R_Clear | R_Gate | R_Usage | R_Usage_Samples | R_Usage_Events | R_Usage_Daily
  | R_Downsample | R_Models | R_Models_Refresh | R_Performance | R_Vision_Calls | R_Vision_Clear
  | R_Vision_Stats | R_Config | R_Config_Save | R_Config_Reset | R_Config_Validate | R_Config_Reload
  | R_Refresh_Source | R_Restart | R_Economics_Summary | R_Economics_Daily | R_Economics_Pricing
  | R_Version | R_Version_Check | R_Update | R_Incidents | R_Detail string

definition exact_routes :: "(string \<times> string \<times> viewer_route) list" where
  "exact_routes =
     [(''GET'', ''/api/captures'', R_Captures), (''POST'', ''/api/clear'', R_Clear),
      (''GET'', ''/api/gate'', R_Gate), (''GET'', ''/api/usage'', R_Usage),
      (''GET'', ''/api/usage/samples'', R_Usage_Samples), (''GET'', ''/api/usage/events'', R_Usage_Events),
      (''GET'', ''/api/usage/daily'', R_Usage_Daily), (''POST'', ''/api/usage/downsample'', R_Downsample),
      (''GET'', ''/api/models'', R_Models), (''POST'', ''/api/models/refresh'', R_Models_Refresh),
      (''GET'', ''/api/performance'', R_Performance), (''GET'', ''/api/vision-calls'', R_Vision_Calls),
      (''DELETE'', ''/api/vision-calls'', R_Vision_Clear),
      (''GET'', ''/api/vision-cache-stats'', R_Vision_Stats), (''GET'', ''/api/config'', R_Config),
      (''POST'', ''/api/config'', R_Config_Save), (''POST'', ''/api/config/reset'', R_Config_Reset),
      (''POST'', ''/api/config/validate'', R_Config_Validate),
      (''POST'', ''/api/config/reload'', R_Config_Reload),
      (''POST'', ''/api/usage/refresh-source'', R_Refresh_Source), (''POST'', ''/api/restart'', R_Restart),
      (''GET'', ''/api/economics/summary'', R_Economics_Summary),
      (''GET'', ''/api/economics/daily'', R_Economics_Daily),
      (''GET'', ''/api/economics/pricing'', R_Economics_Pricing), (''GET'', ''/api/version'', R_Version),
      (''POST'', ''/api/version/check'', R_Version_Check), (''POST'', ''/api/update'', R_Update),
      (''GET'', ''/api/incidents'', R_Incidents)]"

text \<open>The pattern of the detail route: the prefix, \<open>/api/captures/\<close> and digits.\<close>

definition detail_id :: "string \<Rightarrow> string \<Rightarrow> string option" where
  "detail_id viewer p =
     (let prefix = viewer @ ''/api/captures/''; n = drop (length prefix) p
      in if starts_with p prefix \<and> n \<noteq> [] \<and> list_all (\<lambda>c. digit 10 c \<noteq> None) n then Some n else None)"

definition find_route :: "string \<Rightarrow> string \<Rightarrow> string \<Rightarrow> viewer_route option" where
  "find_route viewer method p =
     (case find (\<lambda>(m, path, r). m = method \<and> p = viewer @ path) exact_routes of
        Some (m, path, r) \<Rightarrow> Some r
      | None \<Rightarrow> (if method = ''GET'' then map_option R_Detail (detail_id viewer p) else None))"

text \<open>
  What the viewer does with a request: a route's handler, the index page, a static file (with the
  index page as its fallback where the flag says so), or an answer at once.
\<close>

datatype viewer_decision =
    V_Proxy
  | V_Too_Many
  | V_Unauthorized
  | V_Route viewer_route
  | V_Index
  | V_Asset string bool
  | V_Not_Found

definition handle_viewer ::
  "int \<Rightarrow> string \<Rightarrow> string option \<Rightarrow> http_request \<Rightarrow> auth_limiter option \<Rightarrow>
   viewer_decision \<times> auth_limiter option" where
  "handle_viewer now viewer token req al0 =
     (let p = hq_path req
      in if p = viewer @ ''/ws'' then (V_Proxy, al0)
         else
           (let (auth, al0') =
                  (if p = viewer @ ''/api'' \<or> starts_with p (viewer @ ''/api/'')
                   then authorize now token (is_token_authorized req) al0 else (Granted, al0))
            in case auth of
                 Locked_Out \<Rightarrow> (V_Too_Many, al0')
               | Refused \<Rightarrow> (V_Unauthorized, al0')
               | Granted \<Rightarrow>
                   (case find_route viewer (hq_method req) p of
                      Some r \<Rightarrow> (V_Route r, al0')
                    | None \<Rightarrow>
                        (if p = viewer \<or> p = viewer @ ''/'' then (V_Index, al0')
                         else if starts_with p (viewer @ ''/'') then
                           (let rel = drop (length viewer + 1) p
                            in (V_Asset rel (\<not> starts_with rel ''api/'' \<and> \<not> js_includes rel ''.''), al0'))
                         else (V_Not_Found, al0')))))"

subsection \<open>The dispatcher\<close>

definition LLM_ROUTES :: "string list" where
  "LLM_ROUTES =
     [''POST /v1/messages'', ''GET /v1/models'', ''GET /v1/models/info'', ''POST /v1/chat/completions'']"

record front_door =
  fd_viewer :: string
  fd_origins :: "string list"
  fd_token :: "string option"

datatype dispatch_outcome =
    Forbidden_Origin
  | Ws_Too_Many | Ws_Unauthorized | Ws_Upgrade
  | Cross_Origin_Forbidden
  | To_Viewer viewer_decision
  | Probe_Too_Many | Probe_Unauthorized | To_Health | To_Metrics
  | Not_An_Llm_Endpoint string
  | To_Proxy

definition present :: "string option \<Rightarrow> bool" where
  "present h = (h \<noteq> None \<and> h \<noteq> Some [])"

definition foreign_source :: "(string \<Rightarrow> string option) \<Rightarrow> front_door \<Rightarrow> http_request \<Rightarrow> bool" where
  "foreign_source origin_of fd req =
     (if present (hq_origin req) then the (hq_origin req) \<notin> set (fd_origins fd)
      else if present (hq_referer req)
      then (case origin_of (the (hq_referer req)) of None \<Rightarrow> True | Some u \<Rightarrow> u \<notin> set (fd_origins fd))
      else False)"

definition is_viewer_path :: "front_door \<Rightarrow> string \<Rightarrow> bool" where
  "is_viewer_path fd p = (p = fd_viewer fd \<or> starts_with p (fd_viewer fd @ ''/''))"

definition probe ::
  "int \<Rightarrow> front_door \<Rightarrow> http_request \<Rightarrow> dispatch_outcome \<Rightarrow> auth_limiter option \<Rightarrow>
   dispatch_outcome \<times> auth_limiter option" where
  "probe now fd req handler al0 =
     (let (auth, al0') = authorize now (fd_token fd) (is_token_authorized req) al0
      in case auth of
           Locked_Out \<Rightarrow> (Probe_Too_Many, al0')
         | Refused \<Rightarrow> (Probe_Unauthorized, al0')
         | Granted \<Rightarrow> (handler, al0'))"

definition dispatch ::
  "(string \<Rightarrow> string option) \<Rightarrow> front_door \<Rightarrow> int \<Rightarrow> http_request \<Rightarrow> auth_limiter option \<Rightarrow>
   dispatch_outcome \<times> auth_limiter option" where
  "dispatch origin_of fd now req al0 =
     (let p = hq_path req; m = hq_method req
      in if p = fd_viewer fd @ ''/ws'' then
           (if present (hq_origin req) \<and> the (hq_origin req) \<notin> set (fd_origins fd)
            then (Forbidden_Origin, al0)
            else
              (let (auth, al0') = authorize now (fd_token fd) (is_ws_authorized req) al0
               in case auth of
                    Locked_Out \<Rightarrow> (Ws_Too_Many, al0')
                  | Refused \<Rightarrow> (Ws_Unauthorized, al0')
                  | Granted \<Rightarrow> (Ws_Upgrade, al0')))
         else if (m = ''POST'' \<or> m = ''DELETE'') \<and> is_viewer_path fd p \<and> foreign_source origin_of fd req
         then (Cross_Origin_Forbidden, al0)
         else if is_viewer_path fd p then
           (let (d, al0') = handle_viewer now (fd_viewer fd) (fd_token fd) req al0 in (To_Viewer d, al0'))
         else if p = ''/health'' \<and> m = ''GET'' then probe now fd req To_Health al0
         else if p = ''/metrics'' \<and> m = ''GET'' then probe now fd req To_Metrics al0
         else if m @ '' '' @ p \<notin> set LLM_ROUTES then (Not_An_Llm_Endpoint p, al0)
         else (To_Proxy, al0))"

end
