(* ===== verification/Viewer.thy ===== *)
theory Viewer
  imports Dispatch Usage_Snapshot
begin

text \<open>
  Handlers of the viewer's API (\<open>src/viewer.ts\<close>) that decide something themselves: the config
  routes, which must not show the secrets, the parameters of the list routes and the filter of the
  incident list. An answer is a status and a JSON body. Parsing of a request body is an argument,
  \<open>None\<close> for a body that does not parse; texts become numbers as \<open>Number(s)\<close> does.
\<close>

record viewer_answer =
  va_status :: nat
  va_body :: json

subsection \<open>Config routes\<close>

definition is_raw_config_input :: "json \<Rightarrow> bool" where
  "is_raw_config_input v = (case v of JObj d \<Rightarrow> True | _ \<Rightarrow> False)"

definition SECRETS :: "string list" where
  "SECRETS = [''umans_api_key'', ''dashboard_token'']"

definition has_value :: "json option \<Rightarrow> bool" where
  "has_value v = (case v of None \<Rightarrow> False | Some j \<Rightarrow> truthy j)"

definition strip_api_key :: "json obj \<Rightarrow> json obj" where
  "strip_api_key written =
     obj_set
       (obj_set (filter (\<lambda>(k, v). k \<notin> set SECRETS) written)
          ''has_api_key'' (JBool (has_value (obj_get written ''umans_api_key''))))
       ''has_dashboard_token'' (JBool (has_value (obj_get written ''dashboard_token'')))"

definition stripped :: "json obj option \<Rightarrow> json" where
  "stripped written = (case written of None \<Rightarrow> JNull | Some w \<Rightarrow> JObj (strip_api_key w))"

definition get_config_route :: "string option \<Rightarrow> string option \<Rightarrow> config_file \<Rightarrow> viewer_answer" where
  "get_config_route apiKey token f =
     (let raw = read_config_file f; safe = strip_api_key raw
      in \<lparr>va_status = 200,
          va_body = JObj (obj_set
            (obj_set safe ''has_api_key''
               (JBool (has_value (obj_get raw ''umans_api_key'') \<or> has_token apiKey)))
            ''has_dashboard_token''
               (JBool (has_value (obj_get raw ''dashboard_token'') \<or> has_token token)))\<rparr>)"

definition texts :: "string list \<Rightarrow> json" where
  "texts ss = JArr (map JStr ss)"

text \<open>The limit of requests a validation compares with.\<close>

definition upstream_limit_of :: "usage_snapshot \<Rightarrow> upstream_limit" where
  "upstream_limit_of snap =
     (case us_requests_limit snap of JNull \<Rightarrow> Unlimited | JNum r \<Rightarrow> Limited r | _ \<Rightarrow> NotFetched)"

definition bad_config_body :: "string \<Rightarrow> viewer_answer" where
  "bad_config_body msg =
     \<lparr>va_status = 400,
      va_body = JObj [(''ok'', JBool False), (''errors'', texts [msg]), (''warnings'', JArr []),
                      (''written'', JNull)]\<rparr>"

definition save_config_route ::
  "usage_snapshot \<Rightarrow> json option \<Rightarrow> config_file \<Rightarrow> viewer_answer \<times> config_file" where
  "save_config_route snap body f =
     (case body of
        None \<Rightarrow> (bad_config_body ''Invalid request body'', f)
      | Some raw \<Rightarrow>
          (if \<not> is_raw_config_input raw then (bad_config_body ''Config must be a JSON object'', f)
           else
             (let (r, f') = save_config (spread raw) (upstream_limit_of snap) f
              in (\<lparr>va_status = (if sr_ok r then 200 else 400),
                   va_body = JObj [(''ok'', JBool (sr_ok r)), (''errors'', texts (sr_errors r)),
                                   (''warnings'', texts (sr_warnings r)),
                                   (''written'', stripped (sr_written r))]\<rparr>, f'))))"

text \<open>
  The reset answers with the lists of the reload (empty without one) and, where limits can be
  refreshed, with the refreshed limits. Both come from \<open>index.ts\<close> and are arguments.
\<close>

definition reset_config_route ::
  "(string list \<times> string list) option \<Rightarrow> json option \<Rightarrow> config_file \<Rightarrow> viewer_answer \<times> config_file" where
  "reset_config_route reload limits f =
     (let (written, f') = reset_config f;
          (applied, restart) = (case reload of None \<Rightarrow> ([], []) | Some l \<Rightarrow> l)
      in (\<lparr>va_status = 200,
           va_body = JObj ([(''ok'', JBool True), (''written'', stripped (Some written)),
                            (''applied'', texts applied), (''restartRequired'', texts restart)] @
                           (case limits of None \<Rightarrow> [] | Some l \<Rightarrow> [(''limits'', l)]))\<rparr>, f'))"

text \<open>A body that is no object still goes through: a spread of null or a number adds nothing.\<close>

definition validate_config_route :: "usage_snapshot \<Rightarrow> json option \<Rightarrow> viewer_answer" where
  "validate_config_route snap body =
     (case body of
        None \<Rightarrow>
          \<lparr>va_status = 400,
           va_body = JObj [(''ok'', JBool False), (''errors'', texts [''Invalid request body'']),
                           (''warnings'', JArr [])]\<rparr>
      | Some raw \<Rightarrow>
          (let r = validate_config (spread raw) (upstream_limit_of snap)
           in \<lparr>va_status = 200,
               va_body = JObj [(''ok'', JBool (vr_ok r)), (''errors'', texts (vr_errors r)),
                               (''warnings'', texts (vr_warnings r))]\<rparr>))"

subsection \<open>Parameters\<close>

text \<open>\<open>Math.min(Number(get("limit") ?? d), most)\<close>\<close>

definition list_limit :: "rat \<Rightarrow> rat \<Rightarrow> string obj \<Rightarrow> jsnum" where
  "list_limit d most q =
     js_min (case obj_get q ''limit'' of None \<Rightarrow> Fin d | Some s \<Rightarrow> js_number s) (Fin most)"

definition date_param :: "string \<Rightarrow> string obj \<Rightarrow> string" where
  "date_param today q =
     (case obj_get q ''date'' of None \<Rightarrow> today | Some d \<Rightarrow> if d = ''today'' then today else d)"

record incident_query =
  iq_limit :: jsnum
  iq_since :: "jsnum option"
  iq_party :: "string option"
  iq_type :: "string option"

definition VALID_INCIDENT_TYPES :: "string list" where
  "VALID_INCIDENT_TYPES =
     [''upstream_error'', ''ttft_timeout'', ''id_rewrite'', ''rate_limited'', ''gate_rejected'',
      ''client_aborted'']"

text \<open>\<open>None\<close> is the answer 400 for an unknown type.\<close>

definition incident_query_of :: "string obj \<Rightarrow> incident_query option" where
  "incident_query_of q =
     (let since = (case obj_get q ''since'' of
                     None \<Rightarrow> None
                   | Some s \<Rightarrow> (if s = [] \<or> js_number s = NaN then None else Some (js_number s)));
          party = (case obj_get q ''responsible_party'' of
                     None \<Rightarrow> None
                   | Some p \<Rightarrow> (if p \<in> {''upstream'', ''proxy'', ''client''} then Some p else None));
          type = obj_get q ''incident_type''
      in if present type \<and> the type \<notin> set VALID_INCIDENT_TYPES then None
         else Some \<lparr>iq_limit = list_limit 200 1000 q, iq_since = since, iq_party = party,
                    iq_type = (if present type then type else None)\<rparr>)"

text \<open>The content type of a static file by its ending.\<close>

definition CONTENT_TYPES :: "(string \<times> string) list" where
  "CONTENT_TYPES =
     [(''.html'', ''text/html; charset=utf-8''), (''.js'', ''application/javascript; charset=utf-8''),
      (''.mjs'', ''application/javascript; charset=utf-8''), (''.css'', ''text/css; charset=utf-8''),
      (''.json'', ''application/json; charset=utf-8''), (''.svg'', ''image/svg+xml''),
      (''.png'', ''image/png''), (''.ico'', ''image/x-icon''), (''.woff'', ''font/woff''),
      (''.woff2'', ''font/woff2'')]"

definition content_type_for :: "string \<Rightarrow> string" where
  "content_type_for path =
     (case find (\<lambda>(ext, ct). ends_with path ext) CONTENT_TYPES of
        Some (ext, ct) \<Rightarrow> ct | None \<Rightarrow> ''application/octet-stream'')"

text \<open>
  Static files: the embedded asset of that path, else the first candidate directory that contains
  the resolved path and has the file. \<open>resolve\<close> is the URL parser, \<open>exists_file\<close> the file system.
\<close>

datatype static_file = Embedded string | On_Disk string

definition resolve_static_file ::
  "(string \<Rightarrow> string \<Rightarrow> string) \<Rightarrow> (string \<Rightarrow> bool) \<Rightarrow> string set \<Rightarrow> string \<Rightarrow> string list \<Rightarrow>
   static_file option" where
  "resolve_static_file resolve exists_file embedded rel candidates =
     (if rel \<in> embedded then Some (Embedded rel)
      else map_option (\<lambda>base. On_Disk (resolve rel base))
             (find (\<lambda>base. starts_with (resolve rel base) base \<and> exists_file (resolve rel base)) candidates))"

text \<open>\<open>withSecurityHeaders\<close>: a header that is already set stays.\<close>

definition SECURITY_HEADERS :: "(string \<times> string) list" where
  "SECURITY_HEADERS =
     [(''X-Content-Type-Options'', ''nosniff''), (''Referrer-Policy'', ''no-referrer''),
      (''X-Frame-Options'', ''DENY'')]"

fun with_headers :: "(string \<times> string) list \<Rightarrow> string obj \<Rightarrow> string obj" where
  "with_headers [] hs = hs"
| "with_headers ((k, v) # ds) hs = with_headers ds (if obj_get hs k = None then obj_set hs k v else hs)"

definition with_security_headers :: "string obj \<Rightarrow> string obj" where
  "with_security_headers hs = with_headers SECURITY_HEADERS hs"

end
