(* ===== verification/Door_Props.thy ===== *)
theory Door_Props
  imports Viewer
begin

text \<open>
  What the front door promises: how many wrong tokens can be tried, who is served without the
  right one, and that the secrets of the config do not show.
\<close>

subsection \<open>Guarded requests\<close>

text \<open>
  A request is refused when its token was looked at and was wrong, locked out when it was not
  looked at.
\<close>

definition refused :: "dispatch_outcome \<Rightarrow> bool" where
  "refused r = (r \<in> {Ws_Unauthorized, Probe_Unauthorized, To_Viewer V_Unauthorized})"

definition locked_out :: "dispatch_outcome \<Rightarrow> bool" where
  "locked_out r = (r \<in> {Ws_Too_Many, Probe_Too_Many, To_Viewer V_Too_Many})"

definition is_api_path :: "front_door \<Rightarrow> string \<Rightarrow> bool" where
  "is_api_path fd p = (p = fd_viewer fd @ ''/api'' \<or> starts_with p (fd_viewer fd @ ''/api/''))"

text \<open>Served by a guarded route: the socket, the probes, the viewer's API.\<close>

definition admitted :: "front_door \<Rightarrow> http_request \<Rightarrow> dispatch_outcome \<Rightarrow> bool" where
  "admitted fd req r =
     (case r of
        To_Viewer d \<Rightarrow> is_api_path fd (hq_path req) \<and> d \<notin> {V_Proxy, V_Too_Many, V_Unauthorized}
      | _ \<Rightarrow> r \<in> {Ws_Upgrade, To_Health, To_Metrics})"

definition presents_token :: "front_door \<Rightarrow> http_request \<Rightarrow> string \<Rightarrow> bool" where
  "presents_token fd req =
     (if hq_path req = fd_viewer fd @ ''/ws'' then is_ws_authorized req else is_token_authorized req)"

text \<open>What one request does to the limiter: nothing, or one check.\<close>

datatype check = No_Check | Checked auth_result

definition check_events :: "int \<Rightarrow> check \<Rightarrow> auth_event list" where
  "check_events now c =
     (case c of
        No_Check \<Rightarrow> []
      | Checked Locked_Out \<Rightarrow> [LockCheck now]
      | Checked Refused \<Rightarrow> [LockCheck now, Failure now]
      | Checked Granted \<Rightarrow> [LockCheck now, AuthReset])"

lemma authorize_events:
  assumes "authorize now token m (Some al) = (r, al')" and "has_token token"
  shows "al' = Some (foldl auth_step al (check_events now (Checked r)))"
    "r = Locked_Out \<longleftrightarrow> snd (is_locked_out now al)"
    "r = Granted \<Longrightarrow> m (the token)" "r = Refused \<Longrightarrow> \<not> m (the token)"
  using assms
  by (auto simp: authorize_def check_events_def Let_def case_prod_unfold split: if_splits)

lemma dispatch_check:
  assumes "dispatch origin_of fd now req (Some al) = (r, al')" and tok: "has_token (fd_token fd)"
  shows "\<exists>c. al' = Some (foldl auth_step al (check_events now c)) \<and>
    (refused r \<longleftrightarrow> c = Checked Refused) \<and> (locked_out r \<longleftrightarrow> c = Checked Locked_Out) \<and>
    (admitted fd req r \<longleftrightarrow> c = Checked Granted) \<and>
    (c = Checked Refused \<longrightarrow> \<not> snd (is_locked_out now al)) \<and>
    (c = Checked Granted \<longrightarrow> presents_token fd req (the (fd_token fd)))"
proof -
  let ?p = "hq_path req" and ?m = "hq_method req"
  note outs = refused_def locked_out_def admitted_def
  have quiet: ?thesis if "al' = Some al" "\<not> refused r" "\<not> locked_out r" "\<not> admitted fd req r"
    using that by (intro exI [of _ No_Check]) (simp add: check_events_def)
  consider (ws) "?p = fd_viewer fd @ ''/ws''"
    | (viewer) "?p \<noteq> fd_viewer fd @ ''/ws''" "is_viewer_path fd ?p" "r \<noteq> Cross_Origin_Forbidden"
    | (cross) "?p \<noteq> fd_viewer fd @ ''/ws''" "r = Cross_Origin_Forbidden"
    | (rest) "?p \<noteq> fd_viewer fd @ ''/ws''" "\<not> is_viewer_path fd ?p" by blast
  then show ?thesis
  proof cases
    case ws
    show ?thesis
    proof (cases "present (hq_origin req) \<and> the (hq_origin req) \<notin> set (fd_origins fd)")
      case True
      then show ?thesis using assms(1) ws by (intro quiet) (auto simp: dispatch_def outs)
    next
      case False
      obtain a al1 where au: "authorize now (fd_token fd) (is_ws_authorized req) (Some al) = (a, al1)"
        by fastforce
      show ?thesis
        using assms(1) ws False au authorize_events [OF au tok]
        by (intro exI [of _ "Checked a"])
           (auto simp: dispatch_def outs presents_token_def split: auth_result.splits)
    qed
  next
    case viewer
    obtain d where d: "handle_viewer now (fd_viewer fd) (fd_token fd) req (Some al) = (d, al')"
      and r: "r = To_Viewer d"
      using assms(1) viewer by (auto simp: dispatch_def Let_def split: prod.splits if_splits)
    show ?thesis
    proof (cases "is_api_path fd ?p")
      case False
      then show ?thesis
        using d viewer(1) r
        by (intro quiet)
           (auto simp: handle_viewer_def outs is_api_path_def Let_def split: option.splits if_splits)
    next
      case True
      obtain a al1 where au: "authorize now (fd_token fd) (is_token_authorized req) (Some al) = (a, al1)"
        by fastforce
      have dd: "al' = al1" "a = Locked_Out \<longleftrightarrow> d = V_Too_Many" "a = Refused \<longleftrightarrow> d = V_Unauthorized" "d \<noteq> V_Proxy"
        using d viewer(1) True au
        by (auto simp: handle_viewer_def is_api_path_def Let_def split: option.splits if_splits auth_result.splits)
      show ?thesis
        using dd r True viewer(1) authorize_events [OF au tok]
        by (intro exI [of _ "Checked a"]) (cases a; auto simp: outs presents_token_def)
    qed
  next
    case cross
    then show ?thesis
      using assms(1) by (intro quiet) (auto simp: dispatch_def outs probe_def Let_def split: prod.splits if_splits auth_result.splits)
  next
    case rest
    show ?thesis
    proof (cases "?m = ''GET'' \<and> (?p = ''/health'' \<or> ?p = ''/metrics'')")
      case False
      then show ?thesis
        using assms(1) rest by (intro quiet) (auto simp: dispatch_def outs Let_def split: if_splits)
    next
      case True
      obtain a al1 where au: "authorize now (fd_token fd) (is_token_authorized req) (Some al) = (a, al1)"
        by fastforce
      then show ?thesis
        using True assms(1) rest authorize_events [OF au tok]
        by (intro exI [of _ "Checked a"])
           (auto simp: dispatch_def probe_def outs presents_token_def Let_def split: auth_result.splits if_splits)
    qed
  qed
qed

subsection \<open>Runs\<close>

type_synonym door_log = "(int \<times> http_request \<times> dispatch_outcome) list"

definition door_step ::
  "(string \<Rightarrow> string option) \<Rightarrow> front_door \<Rightarrow> int \<times> http_request \<Rightarrow> auth_limiter option \<times> door_log \<Rightarrow>
   auth_limiter option \<times> door_log" where
  "door_step origin_of fd e st =
     (let (now, req) = e; (al, entries) = st; (r, al') = dispatch origin_of fd now req al
      in (al', entries @ [(now, req, r)]))"

definition door_run ::
  "(string \<Rightarrow> string option) \<Rightarrow> front_door \<Rightarrow> auth_limiter \<Rightarrow> (int \<times> http_request) list \<Rightarrow>
   auth_limiter option \<times> door_log" where
  "door_run origin_of fd al reqs = fold (door_step origin_of fd) reqs (Some al, [])"

lemma door_run_simps [simp]:
  "door_run origin_of fd al [] = (Some al, [])"
  "door_run origin_of fd al (reqs @ [e]) = door_step origin_of fd e (door_run origin_of fd al reqs)"
  by (simp_all add: door_run_def)

text \<open>The times of the wrong tokens tried since a guarded route was last served.\<close>

definition note_entry :: "front_door \<Rightarrow> int \<times> http_request \<times> dispatch_outcome \<Rightarrow> int list \<Rightarrow> int list" where
  "note_entry fd e ts =
     (case e of (now, req, r) \<Rightarrow> if refused r then ts @ [now] else if admitted fd req r then [] else ts)"

definition wrong_tokens :: "front_door \<Rightarrow> door_log \<Rightarrow> int list" where
  "wrong_tokens fd entries = fold (note_entry fd) entries []"

lemma wrong_tokens_snoc [simp]:
  "wrong_tokens fd [] = []" "wrong_tokens fd (entries @ [e]) = note_entry fd e (wrong_tokens fd entries)"
  by (simp_all add: wrong_tokens_def)

lemma on_record_append: "on_record (es @ fs) ts = on_record fs (on_record es ts)"
  by (induction es ts rule: on_record.induct) auto

lemma event_times_append [simp]: "event_times (es @ fs) = event_times es @ event_times fs"
  by (induction es rule: event_times.induct) auto

lemma check_events_times: "set (event_times (check_events now c)) \<subseteq> {now}" "sorted (event_times (check_events now c))"
  by (auto simp: check_events_def split: check.splits auth_result.splits)

text \<open>The limiter of a run is that of a history of checks whose open failures are the wrong tokens.\<close>

definition door_inv :: "front_door \<Rightarrow> auth_limiter \<Rightarrow> int list \<Rightarrow> auth_limiter option \<times> door_log \<Rightarrow> bool" where
  "door_inv fd al0 ts st =
     (\<exists>es. fst st = Some (foldl auth_step al0 es) \<and> sorted (event_times es) \<and>
           set (event_times es) \<subseteq> set ts \<and> on_record es [] = wrong_tokens fd (snd st))"

lemma door_run_inv:
  assumes "has_token (fd_token fd)" and "sorted (map fst reqs)"
  shows "door_inv fd al (map fst reqs) (door_run origin_of fd al reqs) \<and>
    list_all (\<lambda>(now, req, r). admitted fd req r \<longrightarrow> presents_token fd req (the (fd_token fd)))
      (snd (door_run origin_of fd al reqs))"
  using assms(2)
proof (induction reqs rule: rev_induct)
  case Nil
  show ?case by (auto simp: door_inv_def intro!: exI [of _ "[]"])
next
  case (snoc e reqs)
  obtain now req where e: "e = (now, req)" by fastforce
  obtain a entries where run: "door_run origin_of fd al reqs = (a, entries)" by fastforce
  obtain es where es: "a = Some (foldl auth_step al es)" "sorted (event_times es)"
    "set (event_times es) \<subseteq> set (map fst reqs)" "on_record es [] = wrong_tokens fd entries"
    using snoc run by (auto simp: door_inv_def sorted_append)
  obtain r a' where d: "dispatch origin_of fd now req a = (r, a')" by fastforce
  obtain c where c: "a' = Some (foldl auth_step (foldl auth_step al es) (check_events now c))"
    "refused r \<longleftrightarrow> c = Checked Refused" "admitted fd req r \<longleftrightarrow> c = Checked Granted"
    "c = Checked Granted \<longrightarrow> presents_token fd req (the (fd_token fd))"
    using dispatch_check [OF d [unfolded es(1)] assms(1)] by blast
  have "\<forall>t\<in>set (map fst reqs). t \<le> now" using snoc.prems by (auto simp: e sorted_append)
  then have "sorted (event_times (es @ check_events now c))"
    using es(2,3) check_events_times [of now c] by (fastforce simp: sorted_append)
  moreover have "on_record (es @ check_events now c) [] = wrong_tokens fd (entries @ [(now, req, r)])"
    using c(2,3) es(4)
    by (cases c)
       (auto simp: on_record_append note_entry_def check_events_def split: auth_result.splits)
  moreover have "set (event_times (es @ check_events now c)) \<subseteq> set (map fst (reqs @ [e]))"
    using es(3) check_events_times(1) [of now c] by (auto simp: e)
  ultimately have "door_inv fd al (map fst (reqs @ [e])) (a', entries @ [(now, req, r)])"
    unfolding door_inv_def using c(1) by (intro exI [of _ "es @ check_events now c"]) simp
  then show ?case
    using snoc run c(3,4) by (simp add: door_step_def e d sorted_append)
qed

text \<open>A wrong token is only looked at below the limit, so the limit bounds those of any window.\<close>

lemma wrong_tokens_bounded:
  assumes "has_token (fd_token fd)" and "sorted (map fst reqs @ [now])" and "0 \<le> most"
  shows "int (length (filter (\<lambda>t. now - window * 1000 \<le> t)
      (wrong_tokens fd (snd (door_run origin_of fd (new_auth_limiter most window) reqs))))) \<le> most"
  using assms(2)
proof (induction reqs arbitrary: now rule: rev_induct)
  case Nil
  then show ?case using assms(3) by simp
next
  case (snoc e reqs)
  let ?al = "new_auth_limiter most window"
  obtain t req where e: "e = (t, req)" by fastforce
  obtain a entries where run: "door_run origin_of fd ?al reqs = (a, entries)" by fastforce
  have sorted: "sorted (map fst reqs @ [t])" "t \<le> now"
    using snoc.prems by (auto simp: e sorted_append)
  obtain es where es: "a = Some (foldl auth_step ?al es)" "sorted (event_times es)"
    "set (event_times es) \<subseteq> set (map fst reqs)" "on_record es [] = wrong_tokens fd entries"
    using door_run_inv [OF assms(1), of reqs ?al origin_of] sorted(1) run
    by (auto simp: door_inv_def sorted_append)
  have "sorted (event_times es @ [t])" using es(2,3) sorted(1) by (fastforce simp: sorted_append)
  note lock = lockout_counts_window [OF this, of most window]
  obtain r a' where d: "dispatch origin_of fd t req a = (r, a')" by fastforce
  note c = dispatch_check [OF d [unfolded es(1)] assms(1)]
  have IH: "int (length (filter (\<lambda>u. u' - window * 1000 \<le> u) (wrong_tokens fd entries))) \<le> most"
    if "t \<le> u'" for u'
    using snoc.IH [of u'] that sorted(1) run by (fastforce simp: sorted_append)
  have fewer: "length (filter (\<lambda>u. now - window * 1000 \<le> u) ts) \<le>
      length (filter (\<lambda>u. t - window * 1000 \<le> u) ts)" for ts :: "int list"
    using sorted(2) by (induction ts) auto
  have "int (length (filter (\<lambda>u. now - window * 1000 \<le> u)
      (note_entry fd (t, req, r) (wrong_tokens fd entries)))) \<le> most"
  proof (cases "refused r")
    case True
    then have "int (length (filter (\<lambda>u. t - window * 1000 \<le> u) (wrong_tokens fd entries))) < most"
      using c lock es(4) by auto
    then show ?thesis
      using True fewer [of "wrong_tokens fd entries"] by (simp add: note_entry_def)
  next
    case False
    then show ?thesis using IH [OF sorted(2)] assms(3) by (simp add: note_entry_def)
  qed
  then show ?case using run by (simp add: door_step_def e d)
qed

text \<open>
  C30: Guessing is slow. With a token set, in any run of requests on a clock that does not run
  backwards, over the socket, the probes and the viewer's API together, at most \<open>most\<close> wrong tokens are
  looked at within a window among those since a guarded route was last served (a success forgets the
  failures before it), and every request a guarded route served presented the token.
\<close>

theorem guesses_are_bounded:
  assumes "has_token (fd_token fd)" and "sorted (map fst reqs @ [now])" and "0 \<le> most"
    and "door_run origin_of fd (new_auth_limiter most window) reqs = (al, entries)"
  shows "int (length (filter (\<lambda>t. now - window * 1000 \<le> t) (wrong_tokens fd entries))) \<le> most \<and>
    list_all (\<lambda>(t, req, r). if admitted fd req r then presents_token fd req (the (fd_token fd)) else True) entries"
proof -
  have "sorted (map fst reqs)" using assms(2) by (simp add: sorted_append)
  from door_run_inv [OF assms(1) this, of "new_auth_limiter most window" origin_of]
  show ?thesis
    using wrong_tokens_bounded [OF assms(1-3), where window = window and origin_of = origin_of] assms(4)
    by (auto simp: list_all_iff)
qed

definition demo_door :: front_door where
  "demo_door = \<lparr>fd_viewer = ''/dashboard'', fd_origins = [''http://127.0.0.1:8787''], fd_token = Some ''secret''\<rparr>"

definition health_request :: "string \<Rightarrow> http_request" where
  "health_request auth =
     \<lparr>hq_method = ''GET'', hq_path = ''/health'', hq_origin = None, hq_referer = None,
      hq_authorization = Some auth, hq_query = []\<rparr>"

definition guesses :: "(int \<times> http_request) list" where
  "guesses =
     [(1, health_request ''Bearer a''), (2, health_request ''Bearer b''), (3, health_request ''Bearer secret''),
      (70000, health_request ''Bearer secret'')]"

theorem guesses_are_bounded_witness:
  "\<exists>al entries. door_run (\<lambda>u. None) demo_door (new_auth_limiter 2 60) guesses = (al, entries) \<and>
     map (\<lambda>(t, req, r). r) entries = [Probe_Unauthorized, Probe_Unauthorized, Probe_Too_Many, To_Health] \<and>
     wrong_tokens demo_door entries = [] \<and>
     list_all (\<lambda>(t, req, r). if admitted demo_door req r then presents_token demo_door req (the (fd_token demo_door)) else True) entries"
proof -
  obtain al entries where run: "door_run (\<lambda>u. None) demo_door (new_auth_limiter 2 60) guesses = (al, entries)" by fastforce
  have "map (\<lambda>(t, req, r). r) (snd (door_run (\<lambda>u. None) demo_door (new_auth_limiter 2 60) guesses)) =
      [Probe_Unauthorized, Probe_Unauthorized, Probe_Too_Many, To_Health]"
    "wrong_tokens demo_door (snd (door_run (\<lambda>u. None) demo_door (new_auth_limiter 2 60) guesses)) = []"
    by code_simp+
  moreover have "has_token (fd_token demo_door)" by (simp add: demo_door_def has_token_def)
  moreover have "sorted (map fst guesses @ [70000])" by (simp add: guesses_def)
  ultimately show ?thesis using guesses_are_bounded [OF _ _ _ run, of 70000] run by simp
qed

subsection \<open>Secrets\<close>

definition public_entry :: "string \<times> json \<Rightarrow> string \<times> json \<Rightarrow> bool" where
  "public_entry e e' = (fst e = fst e' \<and> (fst e \<in> set SECRETS \<or> snd e = snd e'))"

text \<open>
  Two configs that agree but for the secrets: the same keys in the same order, the same values
  elsewhere, and secrets that are both given or both missing.
\<close>

definition same_but_secrets :: "json obj \<Rightarrow> json obj \<Rightarrow> bool" where
  "same_but_secrets d d' =
     (list_all2 public_entry d d' \<and>
      (\<forall>k\<in>set SECRETS. has_value (obj_get d k) = has_value (obj_get d' k)))"

lemma public_part:
  "list_all2 public_entry d d' \<Longrightarrow>
   filter (\<lambda>(k, v). k \<notin> set SECRETS) d = filter (\<lambda>(k, v). k \<notin> set SECRETS) d'"
proof (induction d arbitrary: d')
  case (Cons e d)
  then obtain e' d'' where d': "d' = e' # d''" and e: "public_entry e e'" and rest: "list_all2 public_entry d d''"
    by (auto simp only: list_all2_Cons1)
  have "fst e' = fst e" "fst e \<notin> set SECRETS \<Longrightarrow> e' = e" using e by (auto simp: public_entry_def prod_eq_iff)
  then show ?case using Cons.IH [OF rest] unfolding d' by (cases "fst e \<in> set SECRETS") (simp_all add: case_prod_unfold)
qed simp

lemma stripped_no_secret: "k \<in> set SECRETS \<Longrightarrow> obj_get (strip_api_key d) k = None"
proof -
  assume k: "k \<in> set SECRETS"
  have "obj_get (filter (\<lambda>(k, v). k \<notin> set SECRETS) d) k = None"
    using k by (induction d) auto
  moreover have "k \<noteq> ''has_api_key''" "k \<noteq> ''has_dashboard_token''"
    using k by (auto simp: SECRETS_def)
  ultimately show ?thesis by (simp add: strip_api_key_def)
qed

text \<open>
  The config page does not show the secrets. Two config files that differ only in the values of the
  API key and the dashboard token are answered alike; and what a save or a reset says it wrote has
  neither key.
\<close>

theorem config_secrets_do_not_show:
  assumes "same_but_secrets (read_config_file f) (read_config_file f')"
  shows "get_config_route key token f = get_config_route key token f' \<and>
    (\<forall>k\<in>set SECRETS.
       jopt (jget (va_body (fst (save_config_route snap body g))) ''written'') k = None \<and>
       jopt (jget (va_body (fst (reset_config_route reload limits g))) ''written'') k = None)"
proof -
  note d = assms [unfolded same_but_secrets_def]
  have "strip_api_key (read_config_file f) = strip_api_key (read_config_file f')"
    using public_part [OF conjunct1 [OF d]] conjunct2 [OF d] by (simp add: strip_api_key_def SECRETS_def)
  then have "get_config_route key token f = get_config_route key token f'"
    using conjunct2 [OF d] by (simp add: get_config_route_def Let_def SECRETS_def)
  moreover have "jget (stripped w) k = None" if "k \<in> set SECRETS" for w k
    using stripped_no_secret [OF that] by (simp add: stripped_def split: option.split)
  then have "jopt (jget (va_body (fst (save_config_route snap body g))) ''written'') k = None"
    "jopt (jget (va_body (fst (reset_config_route reload limits g))) ''written'') k = None"
    if "k \<in> set SECRETS" for k
    using that
    by (simp_all add: save_config_route_def reset_config_route_def bad_config_body_def Let_def case_prod_unfold
        split: option.split)
  ultimately show ?thesis by blast
qed

definition file_with :: "string \<Rightarrow> config_file" where
  "file_with secret = Holds (Some (JObj [(''port'', JNum 1), (''umans_api_key'', JStr secret)]))"

lemma file_with_reads:
  "read_config_file (file_with s) = obj_set (obj_set DEFAULT_CONFIG ''port'' (JNum 1)) ''umans_api_key'' (JStr s)"
  by (simp add: read_config_file_def file_with_def ensure_config_file_def load_json_config_def)

lemma set_secret_same:
  "has_value (Some v) = has_value (Some v') \<Longrightarrow> k \<in> set SECRETS \<Longrightarrow>
   same_but_secrets (obj_set d k v) (obj_set d k v')"
proof -
  assume v: "has_value (Some v) = has_value (Some v')" and k: "k \<in> set SECRETS"
  have "list_all2 public_entry d d" for d by (simp add: list_all2_same public_entry_def)
  then have "list_all2 public_entry (obj_set d k v) (obj_set d k v')"
    using k by (induction d k v rule: obj_set.induct) (simp_all add: public_entry_def)
  then show ?thesis using v by (simp add: same_but_secrets_def)
qed

theorem config_secrets_do_not_show_witness:
  "get_config_route None None (file_with ''sk-1'') = get_config_route None None (file_with ''sk-2'')"
proof -
  have "same_but_secrets (read_config_file (file_with ''sk-1'')) (read_config_file (file_with ''sk-2''))"
    unfolding file_with_reads by (rule set_secret_same) (simp_all add: has_value_def SECRETS_def)
  then show ?thesis using config_secrets_do_not_show by blast
qed

end
