(* ===== verification/Usage_History.thy ===== *)
theory Usage_History
  imports Usage_Snapshot "HOL-Library.Monad_Syntax"
begin

text \<open>
  The history of the provider's usage (\<open>src/usage-history/\<close>): the tables of samples, events and daily
  rows with the operations of \<open>store.ts\<close>, and the detector of \<open>events.ts\<close>. A table is the list of
  its rows in the order of their ids; \<open>AUTOINCREMENT\<close> counts in a sequence. A day \<open>YYYY-MM-DD\<close> is
  its number counted from 1970-01-01, so that it starts at that many times \<open>MS_PER_DAY\<close>. Rows carry
  the ambient state of a snapshot as its documented types; the columns \<open>plan\<close> and \<open>plan_slug\<close>,
  which are the same in every row, are left out.
\<close>

definition MS_PER_DAY :: int where
  "MS_PER_DAY = 86400000"

definition MS_PER_MINUTE :: int where
  "MS_PER_MINUTE = 60000"

subsection \<open>Ambient state\<close>

record ambient =
  am_ok :: bool
  am_user_id :: "string option"
  am_requests_limit :: "rat option"
  am_requests_hard_cap :: "rat option"
  am_requests_window :: "rat option"
  am_soft_limit :: rat
  am_hard_cap :: rat
  am_in_window :: rat
  am_weighted_in_window :: rat
  am_remaining :: "rat option"
  am_weighted_remaining :: "rat option"
  am_sessions :: rat
  am_weighted_sessions :: rat
  am_tokens_in :: rat
  am_tokens_out :: rat
  am_tokens_cached :: rat
  am_window_started_at :: "rat option"
  am_window_resets_at :: "rat option"
  am_window_remaining :: "rat option"
  am_priority_low :: bool
  am_boxed_until :: "rat option"
  am_boxed_reason :: "string option"
  am_units_demoted :: bool
  am_demoted_until :: "rat option"
  am_service_mode :: string
  am_service_resets_at :: "rat option"

fun need_num :: "json \<Rightarrow> rat option" where
  "need_num (JNum r) = Some r"
| "need_num _ = None"

fun null_or_num :: "json \<Rightarrow> rat option option" where
  "null_or_num JNull = Some None"
| "null_or_num (JNum r) = Some (Some r)"
| "null_or_num _ = None"

fun null_or_text :: "json \<Rightarrow> string option option" where
  "null_or_text JNull = Some None"
| "null_or_text (JStr s) = Some (Some s)"
| "null_or_text _ = None"

fun need_bool :: "json \<Rightarrow> bool option" where
  "need_bool (JBool b) = Some b"
| "need_bool _ = None"

fun need_text :: "json \<Rightarrow> string option" where
  "need_text (JStr s) = Some s"
| "need_text _ = None"

text \<open>The ambient state of a snapshot with the documented types; \<open>None\<close> for any other.\<close>

definition ambient_of :: "usage_snapshot \<Rightarrow> ambient option" where
  "ambient_of s = do {
     user \<leftarrow> null_or_text (us_user_id s);
     limit \<leftarrow> null_or_num (us_requests_limit s);
     hard \<leftarrow> null_or_num (us_requests_hard_cap s);
     window \<leftarrow> null_or_num (us_requests_window s);
     soft \<leftarrow> need_num (us_soft_limit s);
     cap \<leftarrow> need_num (us_hard_cap s);
     inw \<leftarrow> need_num (us_requests_in_window s);
     winw \<leftarrow> need_num (us_weighted_in_window s);
     rem \<leftarrow> null_or_num (us_requests_remaining s);
     wrem \<leftarrow> null_or_num (us_weighted_remaining s);
     ses \<leftarrow> need_num (us_sessions s);
     wses \<leftarrow> need_num (us_weighted_sessions s);
     tin \<leftarrow> need_num (us_tokens_in s);
     tout \<leftarrow> need_num (us_tokens_out s);
     tcached \<leftarrow> need_num (us_tokens_cached s);
     minutes \<leftarrow> null_or_num (us_window_remaining s);
     low \<leftarrow> need_bool (us_priority_low s);
     reason \<leftarrow> null_or_text (us_boxed_reason s);
     demoted \<leftarrow> need_bool (us_units_demoted s);
     mode \<leftarrow> need_text (us_service_mode s);
     Some \<lparr>am_ok = us_ok s, am_user_id = user, am_requests_limit = limit,
           am_requests_hard_cap = hard, am_requests_window = window, am_soft_limit = soft,
           am_hard_cap = cap, am_in_window = inw, am_weighted_in_window = winw, am_remaining = rem,
           am_weighted_remaining = wrem, am_sessions = ses, am_weighted_sessions = wses,
           am_tokens_in = tin, am_tokens_out = tout, am_tokens_cached = tcached,
           am_window_started_at = us_window_started_at s, am_window_resets_at = us_window_resets_at s,
           am_window_remaining = minutes, am_priority_low = low, am_boxed_until = us_boxed_until s,
           am_boxed_reason = reason, am_units_demoted = demoted,
           am_demoted_until = us_demoted_until s, am_service_mode = mode,
           am_service_resets_at = us_service_resets_at s\<rparr>
   }"

definition derive_cache_hit_rate :: "ambient \<Rightarrow> rat option" where
  "derive_cache_hit_rate a =
     (let denom = am_tokens_in a + am_tokens_out a + am_tokens_cached a
      in if denom = 0 then None else Some (am_tokens_cached a / denom))"

subsection \<open>Tables\<close>

record sample_row =
  sm_id :: nat
  sm_at :: int
  sm_ambient :: ambient

datatype event_transition = Onset | Resolved | Morph

datatype tuple_kind = Priority | Service_Mode

record event_row =
  ue_id :: nat
  ue_at :: int
  ue_transition :: event_transition
  ue_kind :: tuple_kind
  ue_previous :: "nat option"
  ue_ambient :: ambient
  ue_cache_rate :: "rat option"

text \<open>
  The store: the tables, the two sequences, and the key of the last sample. Two snapshots have the
  same key when their ambient state, \<open>ok\<close> included, is the same. \<open>'d\<close> is the type of a daily row.
\<close>

record 'd history =
  hs_samples :: "sample_row list"
  hs_sample_seq :: nat
  hs_events :: "event_row list"
  hs_event_seq :: nat
  hs_daily :: "(int \<times> 'd) list"
  hs_last_key :: "ambient option"

text \<open>A store opened on existing tables seeds its key from the last sample.\<close>

definition open_history :: "'d history \<Rightarrow> 'd history" where
  "open_history h =
     h\<lparr>hs_last_key := (if hs_samples h = [] then None else Some (sm_ambient (last (hs_samples h))))\<rparr>"

definition history_snapshot :: "int \<Rightarrow> ambient \<Rightarrow> 'd history \<Rightarrow> bool \<times> 'd history" where
  "history_snapshot tm a h =
     (if \<not> am_ok a then (False, h)
      else if hs_last_key h = Some a then (False, h)
      else (True,
            h\<lparr>hs_last_key := Some a, hs_sample_seq := hs_sample_seq h + 1,
              hs_samples := hs_samples h @ [\<lparr>sm_id = hs_sample_seq h + 1, sm_at = tm, sm_ambient = a\<rparr>]\<rparr>))"

definition day_start :: "int \<Rightarrow> int" where
  "day_start day = day * MS_PER_DAY"

definition day_utc_of :: "int \<Rightarrow> int" where
  "day_utc_of ms = ms div MS_PER_DAY"

definition add_days :: "int \<Rightarrow> int \<Rightarrow> int" where
  "add_days day n = day_utc_of (day_start day + n * MS_PER_DAY)"

definition in_days :: "int \<Rightarrow> int \<Rightarrow> int \<Rightarrow> bool" where
  "in_days from to t = (day_start from \<le> t \<and> t < day_start to + MS_PER_DAY)"

definition get_samples_for_date :: "int \<Rightarrow> 'd history \<Rightarrow> sample_row list" where
  "get_samples_for_date day h = rev (filter (\<lambda>s. in_days day day (sm_at s)) (hs_samples h))"

definition get_sample_range :: "int \<Rightarrow> int \<Rightarrow> 'd history \<Rightarrow> sample_row list" where
  "get_sample_range from to h = sort_key sm_at (filter (\<lambda>s. in_days from to (sm_at s)) (hs_samples h))"

definition get_earliest_sample_day :: "'d history \<Rightarrow> int option" where
  "get_earliest_sample_day h =
     (case sort_key sm_at (hs_samples h) of [] \<Rightarrow> None | s # _ \<Rightarrow> Some (day_utc_of (sm_at s)))"

definition get_events_for_date :: "int \<Rightarrow> 'd history \<Rightarrow> event_row list" where
  "get_events_for_date day h = rev (filter (\<lambda>e. in_days day day (ue_at e)) (hs_events h))"

definition get_events_for_date_range :: "int \<Rightarrow> int \<Rightarrow> 'd history \<Rightarrow> event_row list" where
  "get_events_for_date_range from to h =
     sort_key ue_at (filter (\<lambda>e. in_days from to (ue_at e)) (hs_events h))"

definition record_event ::
  "int \<Rightarrow> ambient \<Rightarrow> event_transition \<Rightarrow> tuple_kind \<Rightarrow> nat option \<Rightarrow> 'd history \<Rightarrow> nat \<times> 'd history" where
  "record_event tm a tr kind prev h =
     (let i = hs_event_seq h + 1
      in (i, h\<lparr>hs_event_seq := i,
               hs_events := hs_events h @
                 [\<lparr>ue_id = i, ue_at = tm, ue_transition = tr, ue_kind = kind, ue_previous = prev,
                   ue_ambient = a, ue_cache_rate = derive_cache_hit_rate a\<rparr>]\<rparr>))"

definition get_open_event :: "tuple_kind \<Rightarrow> 'd history \<Rightarrow> event_row option" where
  "get_open_event kind h =
     (let closed = List.map_filter ue_previous (hs_events h)
      in find (\<lambda>e. ue_kind e = kind \<and> ue_id e \<notin> set closed) (rev (hs_events h)))"

definition get_daily_row :: "int \<Rightarrow> 'd history \<Rightarrow> 'd option" where
  "get_daily_row day h = map_of (hs_daily h) day"

definition get_daily_range :: "int \<Rightarrow> int \<Rightarrow> 'd history \<Rightarrow> (int \<times> 'd) list" where
  "get_daily_range from to h =
     sort_key fst (filter (\<lambda>(d, _). from \<le> d \<and> d \<le> to) (hs_daily h))"

text \<open>\<open>INSERT OR REPLACE\<close> by the key of the day.\<close>

definition upsert_daily_row :: "int \<Rightarrow> 'd \<Rightarrow> 'd history \<Rightarrow> 'd history" where
  "upsert_daily_row day row h = h\<lparr>hs_daily := obj_set (hs_daily h) day row\<rparr>"

definition delete_samples_in_range :: "int \<Rightarrow> int \<Rightarrow> 'd history \<Rightarrow> nat \<times> 'd history" where
  "delete_samples_in_range from to h =
     (let keep = filter (\<lambda>s. \<not> in_days from to (sm_at s)) (hs_samples h)
      in (length (hs_samples h) - length keep, h\<lparr>hs_samples := keep\<rparr>))"

definition delete_samples_older_than :: "int \<Rightarrow> 'd history \<Rightarrow> nat \<times> 'd history" where
  "delete_samples_older_than cutoff h =
     (let keep = filter (\<lambda>s. \<not> sm_at s < cutoff) (hs_samples h)
      in (length (hs_samples h) - length keep, h\<lparr>hs_samples := keep\<rparr>))"

definition get_sample_days_older_than :: "int \<Rightarrow> 'd history \<Rightarrow> int list" where
  "get_sample_days_older_than cutoff h =
     remdups_adj (sort (map (\<lambda>s. day_utc_of (sm_at s)) (filter (\<lambda>s. sm_at s < cutoff) (hs_samples h))))"

subsection \<open>The event detector\<close>

record priority_tuple =
  pt_low :: bool
  pt_boxed_until :: "rat option"
  pt_boxed_reason :: "string option"
  pt_units_demoted :: bool
  pt_demoted_until :: "rat option"

record service_tuple =
  st_current :: string
  st_resets_at :: "rat option"

definition priority_tuple_of :: "ambient \<Rightarrow> priority_tuple" where
  "priority_tuple_of a =
     \<lparr>pt_low = am_priority_low a, pt_boxed_until = am_boxed_until a, pt_boxed_reason = am_boxed_reason a,
      pt_units_demoted = am_units_demoted a, pt_demoted_until = am_demoted_until a\<rparr>"

definition service_tuple_of :: "ambient \<Rightarrow> service_tuple" where
  "service_tuple_of a = \<lparr>st_current = am_service_mode a, st_resets_at = am_service_resets_at a\<rparr>"

definition is_default_priority :: "priority_tuple \<Rightarrow> bool" where
  "is_default_priority t =
     (\<not> pt_low t \<and> pt_boxed_until t = None \<and> pt_boxed_reason t = None \<and> \<not> pt_units_demoted t \<and>
      pt_demoted_until t = None)"

definition is_default_service :: "service_tuple \<Rightarrow> bool" where
  "is_default_service t = (st_current t = ''normal'' \<and> st_resets_at t = None)"

record detector =
  dt_priority :: "priority_tuple option"
  dt_service :: "service_tuple option"

definition new_detector :: detector where
  "new_detector = \<lparr>dt_priority = None, dt_service = None\<rparr>"

definition transition_of :: "bool \<Rightarrow> bool \<Rightarrow> event_transition" where
  "transition_of prevDefault currentDefault =
     (if prevDefault \<and> \<not> currentDefault then Onset
      else if \<not> prevDefault \<and> currentDefault then Resolved else Morph)"

text \<open>\<open>emitPriorityEvent\<close> and \<open>emitServiceModeEvent\<close>, which differ in the kind only.\<close>

definition emit_event ::
  "int \<Rightarrow> ambient \<Rightarrow> tuple_kind \<Rightarrow> bool \<Rightarrow> bool \<Rightarrow> 'd history \<Rightarrow> event_transition \<times> 'd history" where
  "emit_event tm a kind prevDefault currentDefault h =
     (let tr = transition_of prevDefault currentDefault;
          prev = (if tr = Onset then None else map_option ue_id (get_open_event kind h))
      in (tr, snd (record_event tm a tr kind prev h)))"

record emissions =
  em_priority :: "event_transition option"
  em_service :: "event_transition option"

definition detector_snapshot ::
  "int \<Rightarrow> ambient \<Rightarrow> detector \<Rightarrow> 'd history \<Rightarrow> emissions \<times> detector \<times> 'd history" where
  "detector_snapshot tm a d h =
     (let nothing = \<lparr>em_priority = None, em_service = None\<rparr>;
          p = priority_tuple_of a; s = service_tuple_of a
      in if \<not> am_ok a then (nothing, d, h)
         else case (dt_priority d, dt_service d) of
                (Some p0, Some s0) \<Rightarrow>
                  (let (ep, d1, h1) =
                         (if p \<noteq> p0
                          then (let (tr, h') = emit_event tm a Priority (is_default_priority p0) (is_default_priority p) h
                                in (Some tr, d\<lparr>dt_priority := Some p\<rparr>, h'))
                          else (None, d, h));
                       (es, d2, h2) =
                         (if s \<noteq> s0
                          then (let (tr, h') = emit_event tm a Service_Mode (is_default_service s0) (is_default_service s) h1
                                in (Some tr, d1\<lparr>dt_service := Some s\<rparr>, h'))
                          else (None, d1, h1))
                   in (\<lparr>em_priority = ep, em_service = es\<rparr>, d2, h2))
              | _ \<Rightarrow> (nothing, \<lparr>dt_priority = Some p, dt_service = Some s\<rparr>, h))"

subsection \<open>The listeners of the server\<close>

text \<open>
  The sample listener writes the snapshot with the highest load seen at the gate since the last one;
  the event listener runs after it on the snapshot as it came.
\<close>

definition with_peak :: "rat \<Rightarrow> ambient \<Rightarrow> ambient" where
  "with_peak peak a =
     a\<lparr>am_sessions := max (am_sessions a) peak, am_weighted_sessions := max (am_weighted_sessions a) peak\<rparr>"

record 'd recorder =
  rc_peak :: rat
  rc_detector :: detector
  rc_history :: "'d history"

definition gate_stats_seen :: "rat \<Rightarrow> 'd recorder \<Rightarrow> 'd recorder" where
  "gate_stats_seen active r = (if active > rc_peak r then r\<lparr>rc_peak := active\<rparr> else r)"

definition on_history_snapshot :: "bool \<Rightarrow> int \<Rightarrow> ambient \<Rightarrow> 'd recorder \<Rightarrow> bool \<times> emissions \<times> 'd recorder" where
  "on_history_snapshot enabled tm a r =
     (if \<not> enabled then (False, \<lparr>em_priority = None, em_service = None\<rparr>, r)
      else
        (let (written, h1) = history_snapshot tm (with_peak (rc_peak r) a) (rc_history r);
             (em, d, h2) = detector_snapshot tm a (rc_detector r) h1
         in (written, em, \<lparr>rc_peak = 0, rc_detector = d, rc_history = h2\<rparr>)))"

end
