(* ===== verification/Usage_Daily.thy ===== *)
theory Usage_Daily
  imports Usage_History
begin

text \<open>
  The daily aggregation of \<open>src/usage-history/daily.ts\<close>: one row per UTC day computed from the samples
  and events of the day, the loop over a range of days with its pruning, and the jobs of
  \<open>src/index.ts\<close> that run it. Times are whole milliseconds, minutes and averages exact rationals.
\<close>

subsection \<open>Keys\<close>

definition activity_key :: "ambient \<Rightarrow> rat \<times> rat \<times> rat \<times> rat" where
  "activity_key a = (am_sessions a, am_tokens_in a, am_tokens_out a, am_tokens_cached a)"

record trigger_moment =
  tg_sessions :: "rat option"
  tg_weighted_sessions :: "rat option"
  tg_in_window :: "rat option"
  tg_weighted_in_window :: "rat option"
  tg_remaining :: "rat option"
  tg_limit :: "rat option"
  tg_tokens_in :: "rat option"
  tg_tokens_out :: "rat option"
  tg_tokens_cached :: "rat option"
  tg_cache_rate :: "rat option"

definition trigger_moment_from_event :: "event_row \<Rightarrow> trigger_moment" where
  "trigger_moment_from_event ev =
     (let a = ue_ambient ev
      in \<lparr>tg_sessions = Some (am_sessions a), tg_weighted_sessions = Some (am_weighted_sessions a),
          tg_in_window = Some (am_in_window a), tg_weighted_in_window = Some (am_weighted_in_window a),
          tg_remaining = am_remaining a, tg_limit = am_requests_limit a,
          tg_tokens_in = Some (am_tokens_in a), tg_tokens_out = Some (am_tokens_out a),
          tg_tokens_cached = Some (am_tokens_cached a), tg_cache_rate = ue_cache_rate ev\<rparr>)"

definition NULL_TRIGGER :: trigger_moment where
  "NULL_TRIGGER =
     \<lparr>tg_sessions = None, tg_weighted_sessions = None, tg_in_window = None, tg_weighted_in_window = None,
      tg_remaining = None, tg_limit = None, tg_tokens_in = None, tg_tokens_out = None,
      tg_tokens_cached = None, tg_cache_rate = None\<rparr>"

definition trigger_of :: "tuple_kind \<Rightarrow> event_row list \<Rightarrow> trigger_moment" where
  "trigger_of kind events =
     (case find (\<lambda>e. ue_kind e = kind) events of
        Some e \<Rightarrow> trigger_moment_from_event e | None \<Rightarrow> NULL_TRIGGER)"

subsection \<open>Active minutes\<close>

definition utc_hour :: "int \<Rightarrow> nat" where
  "utc_hour ms = nat ((ms mod MS_PER_DAY) div 3600000)"

definition minutes :: "int \<Rightarrow> rat" where
  "minutes ms = of_int ms / of_int MS_PER_MINUTE"

text \<open>The variables of the loop over neighbouring samples.\<close>

record activity =
  ac_buckets :: "rat list"
  ac_minutes :: rat
  ac_gap :: bool
  ac_idle :: int

definition no_activity :: activity where
  "no_activity = \<lparr>ac_buckets = replicate 24 0, ac_minutes = 0, ac_gap = False, ac_idle = 0\<rparr>"

definition add_active :: "sample_row \<Rightarrow> int \<Rightarrow> activity \<Rightarrow> activity" where
  "add_active prev ms ac =
     ac\<lparr>ac_minutes := ac_minutes ac + minutes ms,
        ac_buckets := (let h = utc_hour (sm_at prev)
                       in (ac_buckets ac)[h := ac_buckets ac ! h + minutes ms])\<rparr>"

definition activity_step :: "int \<Rightarrow> int \<Rightarrow> sample_row \<times> sample_row \<Rightarrow> activity \<Rightarrow> activity" where
  "activity_step gapMs idleMs pair ac =
     (let (prev, next_row) = pair;
          a = sm_ambient prev; b = sm_ambient next_row;
          ms = sm_at next_row - sm_at prev
      in if ms > gapMs \<and> a \<noteq> b then ac\<lparr>ac_gap := True, ac_idle := 0\<rparr>
         else if am_tokens_in b \<noteq> am_tokens_in a \<or> am_tokens_out b \<noteq> am_tokens_out a \<or>
                 am_tokens_cached b \<noteq> am_tokens_cached a
         then add_active prev ms (ac\<lparr>ac_idle := 0\<rparr>)
         else if am_sessions a = 0 \<and> am_sessions b = 0 then ac\<lparr>ac_idle := 0\<rparr>
         else if activity_key a = activity_key b
         then (let idle = ac_idle ac + ms; ac' = ac\<lparr>ac_idle := idle\<rparr>
               in if idle \<le> idleMs then add_active prev ms ac' else ac')
         else add_active prev ms (ac\<lparr>ac_idle := 0\<rparr>))"

definition neighbours :: "'a list \<Rightarrow> ('a \<times> 'a) list" where
  "neighbours xs = zip xs (tl xs)"

definition activity_of :: "int \<Rightarrow> int \<Rightarrow> sample_row list \<Rightarrow> activity" where
  "activity_of gapMinutes idleMinutes samples =
     fold (activity_step (gapMinutes * MS_PER_MINUTE) (idleMinutes * MS_PER_MINUTE)) (neighbours samples)
       no_activity"

text \<open>
  The buckets as a JSON object: a property whose name is a canonical index (10 to 23) comes before
  the padded names 00 to 09.
\<close>

definition round_minutes :: "rat \<Rightarrow> rat" where
  "round_minutes x = of_int (js_round (x * 60)) / 60"

definition hour_object :: "rat list \<Rightarrow> json" where
  "hour_object buckets =
     JObj (map (\<lambda>h. ((if h < 10 then ''0'' else []) @ digits_of h, JNum (round_minutes (buckets ! h))))
             (filter (\<lambda>h. 0 < buckets ! h) ([10..<24] @ [0..<10])))"

subsection \<open>Burden and bans\<close>

definition flag_minutes :: "(sample_row \<Rightarrow> bool) \<Rightarrow> sample_row list \<Rightarrow> rat" where
  "flag_minutes set_on samples =
     sum_list (map (\<lambda>(prev, next_row). minutes (sm_at next_row - sm_at prev))
       (filter (\<lambda>(prev, next_row). sm_ambient prev \<noteq> sm_ambient next_row \<and> set_on prev)
          (neighbours samples)))"

definition boxed_then :: "sample_row \<Rightarrow> bool" where
  "boxed_then s = (case am_boxed_until (sm_ambient s) of None \<Rightarrow> False | Some t \<Rightarrow> of_int (sm_at s) < t)"

text \<open>A ban lasts to the event that closes it, else to the end of its box, else to the end of the day.\<close>

definition ban_end :: "int \<Rightarrow> event_row list \<Rightarrow> event_row \<Rightarrow> rat" where
  "ban_end endMs evs onset =
     (case find (\<lambda>e. ue_previous e = Some (ue_id onset)) evs of
        Some closer \<Rightarrow> of_int (ue_at closer)
      | None \<Rightarrow>
          (case am_boxed_until (ue_ambient onset) of
             Some t \<Rightarrow> (if t < of_int endMs then t else of_int endMs)
           | None \<Rightarrow> of_int endMs))"

definition ban_total :: "int \<Rightarrow> tuple_kind \<Rightarrow> event_row list \<Rightarrow> rat" where
  "ban_total endMs kind events =
     (let evs = filter (\<lambda>e. ue_kind e = kind) events
      in sum_list (map (\<lambda>e. max 0 (ban_end endMs evs e - of_int (ue_at e)))
           (filter (\<lambda>e. ue_transition e = Onset) evs)))"

subsection \<open>The row of a day\<close>

datatype day_completeness =
  Full_Day | Partial_Start | Partial_End | Partial_Both | Missing_Day | Incomplete_Window

definition completeness_of :: "nat \<Rightarrow> nat \<Rightarrow> bool \<Rightarrow> day_completeness" where
  "completeness_of firstHour lastHour hasGap =
     (let partialStart = firstHour > 0; partialEnd = lastHour < 23
      in if partialStart \<and> partialEnd then Partial_Both
         else if partialStart then Partial_Start
         else if partialEnd then Partial_End
         else if hasGap then Incomplete_Window
         else Full_Day)"

definition average :: "rat list \<Rightarrow> rat" where
  "average xs = sum_list xs / of_nat (length xs)"

definition cache_rates :: "sample_row list \<Rightarrow> rat list" where
  "cache_rates samples = List.map_filter (\<lambda>s. derive_cache_hit_rate (sm_ambient s)) samples"

text \<open>What is only known of a day with samples; the columns are null on a missing day.\<close>

record day_activity =
  da_first :: int
  da_last :: int
  da_active_minutes :: int
  da_span_minutes :: int
  da_first_hour :: nat
  da_last_hour :: nat
  da_by_hour :: json
  da_tokens_in :: rat
  da_tokens_out :: rat
  da_tokens_cached :: rat
  da_in_window_peak :: rat
  da_in_window_avg :: rat
  da_cache_rate_avg :: "rat option"
  da_sessions_peak :: rat
  da_sessions_avg :: rat
  da_weighted_peak :: rat
  da_weighted_avg :: rat
  da_hard_cap :: rat
  da_limit :: "rat option"
  da_requests_hard_cap :: "rat option"

record daily_usage =
  dy_completeness :: day_completeness
  dy_activity :: "day_activity option"
  dy_at_priority :: trigger_moment
  dy_at_service :: trigger_moment
  dy_low_minutes :: int
  dy_boxed_minutes :: int
  dy_demoted_minutes :: int
  dy_service_minutes :: int
  dy_priority_events :: nat
  dy_service_events :: nat
  dy_priority_ban_ms :: rat
  dy_service_ban_ms :: rat
  dy_at :: int

definition events_of_kind :: "tuple_kind \<Rightarrow> event_row list \<Rightarrow> nat" where
  "events_of_kind kind events = length (filter (\<lambda>e. ue_kind e = kind) events)"

definition missing_day :: "int \<Rightarrow> event_row list \<Rightarrow> daily_usage" where
  "missing_day now events =
     \<lparr>dy_completeness = Missing_Day, dy_activity = None, dy_at_priority = NULL_TRIGGER,
      dy_at_service = NULL_TRIGGER, dy_low_minutes = 0, dy_boxed_minutes = 0, dy_demoted_minutes = 0,
      dy_service_minutes = 0, dy_priority_events = events_of_kind Priority events,
      dy_service_events = events_of_kind Service_Mode events, dy_priority_ban_ms = 0,
      dy_service_ban_ms = 0, dy_at = now\<rparr>"

definition day_activity_of :: "int \<Rightarrow> int \<Rightarrow> sample_row list \<Rightarrow> day_activity" where
  "day_activity_of gapMinutes idleMinutes samples =
     (let first = hd samples; final = last samples;
          ac = activity_of gapMinutes idleMinutes samples;
          inWindow = map (\<lambda>s. am_in_window (sm_ambient s)) samples;
          sessions = map (\<lambda>s. am_sessions (sm_ambient s)) samples;
          weighted = map (\<lambda>s. am_weighted_sessions (sm_ambient s)) samples;
          rates = cache_rates samples
      in \<lparr>da_first = sm_at first, da_last = sm_at final,
          da_active_minutes = js_round (ac_minutes ac),
          da_span_minutes = js_round (minutes (sm_at final - sm_at first)),
          da_first_hour = utc_hour (sm_at first), da_last_hour = utc_hour (sm_at final),
          da_by_hour = hour_object (ac_buckets ac),
          da_tokens_in = am_tokens_in (sm_ambient final), da_tokens_out = am_tokens_out (sm_ambient final),
          da_tokens_cached = am_tokens_cached (sm_ambient final),
          da_in_window_peak = Max (set inWindow), da_in_window_avg = average inWindow,
          da_cache_rate_avg = (if rates = [] then None else Some (average rates)),
          da_sessions_peak = Max (set sessions), da_sessions_avg = average sessions,
          da_weighted_peak = Max (set weighted), da_weighted_avg = average weighted,
          da_hard_cap = am_hard_cap (sm_ambient first), da_limit = am_requests_limit (sm_ambient first),
          da_requests_hard_cap = am_requests_hard_cap (sm_ambient first)\<rparr>)"

definition compute_daily_row :: "int \<Rightarrow> int \<Rightarrow> int \<Rightarrow> int \<Rightarrow> daily_usage history \<Rightarrow> daily_usage" where
  "compute_daily_row now gapMinutes idleMinutes day h =
     (let endMs = day_start day + MS_PER_DAY;
          samples = filter (\<lambda>s. day_start day \<le> sm_at s \<and> sm_at s < endMs) (get_sample_range day day h);
          events = filter (\<lambda>e. day_start day \<le> ue_at e \<and> ue_at e < endMs)
                     (get_events_for_date_range day day h)
      in if samples = [] then missing_day now events
         else
           \<lparr>dy_completeness =
              completeness_of (utc_hour (sm_at (hd samples))) (utc_hour (sm_at (last samples)))
                (ac_gap (activity_of gapMinutes idleMinutes samples)),
            dy_activity = Some (day_activity_of gapMinutes idleMinutes samples),
            dy_at_priority = trigger_of Priority events, dy_at_service = trigger_of Service_Mode events,
            dy_low_minutes = js_round (flag_minutes (\<lambda>s. am_priority_low (sm_ambient s)) samples),
            dy_boxed_minutes = js_round (flag_minutes boxed_then samples),
            dy_demoted_minutes = js_round (flag_minutes (\<lambda>s. am_units_demoted (sm_ambient s)) samples),
            dy_service_minutes =
              js_round (flag_minutes (\<lambda>s. am_service_mode (sm_ambient s) \<noteq> ''normal'') samples),
            dy_priority_events = events_of_kind Priority events,
            dy_service_events = events_of_kind Service_Mode events,
            dy_priority_ban_ms = ban_total endMs Priority events,
            dy_service_ban_ms = ban_total endMs Service_Mode events, dy_at = now\<rparr>)"

subsection \<open>Ranges of days\<close>

record downsample_options =
  do_gap_minutes :: int
  do_idle_minutes :: int
  do_retention_days :: int
  do_force :: bool

definition downsample_day ::
  "int \<Rightarrow> int \<Rightarrow> int \<Rightarrow> int \<Rightarrow> daily_usage history \<Rightarrow> daily_usage \<times> daily_usage history" where
  "downsample_day now gapMinutes idleMinutes day h =
     (let row = compute_daily_row now gapMinutes idleMinutes day h in (row, upsert_daily_row day row h))"

text \<open>One turn of the loop over the days.\<close>

definition downsample_turn ::
  "int \<Rightarrow> downsample_options \<Rightarrow> int \<Rightarrow> daily_usage history \<Rightarrow> daily_usage list \<times> daily_usage history" where
  "downsample_turn now opts cursor h =
     (if do_force opts \<or> get_daily_row cursor h = None then
        (let (row, h1) = downsample_day now (do_gap_minutes opts) (do_idle_minutes opts) cursor h;
             h2 = (if day_start cursor < now - do_retention_days opts * MS_PER_DAY
                   then snd (delete_samples_in_range cursor cursor h1) else h1)
         in ([row], h2))
      else ([], h))"

function downsample_range ::
  "int \<Rightarrow> downsample_options \<Rightarrow> int \<Rightarrow> int \<Rightarrow> daily_usage history \<Rightarrow>
   daily_usage list \<times> daily_usage history" where
  "downsample_range now opts cursor to h =
     (if cursor \<le> to then
        (let (rows, h1) = downsample_turn now opts cursor h;
             (rows', h2) = downsample_range now opts (add_days cursor 1) to h1
         in (rows @ rows', h2))
      else ([], h))"
  by pat_completeness auto
termination
  by (relation "measure (\<lambda>(now, opts, cursor, to, h). nat (to + 1 - cursor))")
     (auto simp: add_days_def day_start_def day_utc_of_def MS_PER_DAY_def)

declare downsample_range.simps [simp del]

definition prune_old_samples :: "int \<Rightarrow> int \<Rightarrow> 'd history \<Rightarrow> nat \<times> 'd history" where
  "prune_old_samples now retentionDays h = delete_samples_older_than (now - retentionDays * MS_PER_DAY) h"

definition ms_until_next_utc_midnight :: "int \<Rightarrow> int" where
  "ms_until_next_utc_midnight now = day_start (day_utc_of now + 1) - now"

subsection \<open>The jobs\<close>

record history_settings =
  hy_retention_days :: int
  hy_gap_minutes :: int
  hy_idle_minutes :: int

definition run_daily_downsample ::
  "int \<Rightarrow> history_settings \<Rightarrow> daily_usage history \<Rightarrow> daily_usage history" where
  "run_daily_downsample now cfg h0 =
     (let today = day_utc_of now;
          from = (case get_earliest_sample_day h0 of
                    Some d \<Rightarrow> d | None \<Rightarrow> add_days today (- hy_retention_days cfg));
          cutoff = add_days today (- (hy_retention_days cfg - 1));
          opts = (\<lambda>force. \<lparr>do_gap_minutes = hy_gap_minutes cfg, do_idle_minutes = hy_idle_minutes cfg,
                           do_retention_days = hy_retention_days cfg, do_force = force\<rparr>);
          h1 = (if from < cutoff then snd (downsample_range now (opts False) from (add_days cutoff (-1)) h0)
                else h0);
          h2 = snd (downsample_range now (opts True) cutoff today h1)
      in snd (prune_old_samples now (hy_retention_days cfg) h2))"

definition refresh_today_daily ::
  "int \<Rightarrow> history_settings \<Rightarrow> daily_usage history \<Rightarrow> daily_usage history" where
  "refresh_today_daily now cfg h =
     snd (downsample_day now (hy_gap_minutes cfg) (hy_idle_minutes cfg) (day_utc_of now) h)"

end
