(* ===== verification/Daily_Props.thy ===== *)
theory Daily_Props
  imports Usage_Daily
begin

text \<open>
  The daily rows: the minutes they report fit into the day, a range of days is computed from the
  samples it finds whatever it prunes on the way, and the daily job never replaces a row by one
  computed from samples the retention has cut.
\<close>

subsection \<open>Minutes\<close>

lemma minutes_simps [simp]:
  "minutes 0 = 0" "minutes (a + b) = minutes a + minutes b" "0 \<le> minutes a \<longleftrightarrow> 0 \<le> a"
  by (simp_all add: minutes_def MS_PER_MINUTE_def add_divide_distrib)

lemma neighbours_simps [simp]:
  "neighbours [] = []" "neighbours [x] = []" "neighbours (x # y # zs) = (x, y) # neighbours (y # zs)"
  by (simp_all add: neighbours_def)

lemma sum_list_update_add:
  "i < length xs \<Longrightarrow> sum_list (xs[i := xs ! i + (x::rat)]) = sum_list xs + x"
  by (induction xs arbitrary: i) (auto split: nat.split)

lemma utc_hour_bound [simp]: "utc_hour ms < 24"
proof -
  have "0 \<le> ms mod 86400000" "ms mod 86400000 < 86400000" by simp_all
  then have "(ms mod 86400000) div 3600000 < 24" by auto
  then show ?thesis by (simp add: utc_hour_def MS_PER_DAY_def)
qed

text \<open>What the loop keeps: the buckets add up to the minutes, and a turn adds at most its interval.\<close>

lemma activity_step_adds:
  assumes "length (ac_buckets ac) = 24" "0 \<le> sm_at y - sm_at x"
    and "ac' = activity_step g i (x, y) ac"
  shows "length (ac_buckets ac') = 24"
    "sum_list (ac_buckets ac') - ac_minutes ac' = sum_list (ac_buckets ac) - ac_minutes ac"
    "ac_minutes ac \<le> ac_minutes ac'" "ac_minutes ac' \<le> ac_minutes ac + minutes (sm_at y - sm_at x)"
  using assms sum_list_update_add [of "utc_hour (sm_at x)" "ac_buckets ac"]
  by (auto simp: activity_step_def add_active_def Let_def)

lemma activity_step_nonneg:
  assumes "list_all (\<lambda>m. 0 \<le> m) (ac_buckets ac)" "length (ac_buckets ac) = 24" "0 \<le> sm_at y - sm_at x"
  shows "list_all (\<lambda>m. 0 \<le> m) (ac_buckets (activity_step g i (x, y) ac))"
proof -
  let ?h = "utc_hour (sm_at x)" and ?m = "minutes (sm_at y - sm_at x)"
  have m: "0 \<le> ?m" using assms(3) by (simp only: minutes_simps)
  have "0 \<le> ac_buckets ac ! ?h" using assms(1,2) by (simp add: list_all_length)
  then have "0 \<le> ac_buckets ac ! ?h + ?m" using m by linarith
  then have "list_all (\<lambda>m. 0 \<le> m) ((ac_buckets ac)[?h := ac_buckets ac ! ?h + ?m])"
    using assms(1,2) by (simp add: list_all_length nth_list_update del: minutes_simps)
  then show ?thesis using assms(1) by (simp add: activity_step_def add_active_def Let_def)
qed

lemma activity_fold_adds:
  "sorted (map sm_at samples) \<Longrightarrow> samples \<noteq> [] \<Longrightarrow> length (ac_buckets ac) = 24 \<Longrightarrow>
   ac' = fold (activity_step g i) (neighbours samples) ac \<Longrightarrow>
   length (ac_buckets ac') = 24 \<and>
   (list_all (\<lambda>m. 0 \<le> m) (ac_buckets ac) \<longrightarrow> list_all (\<lambda>m. 0 \<le> m) (ac_buckets ac')) \<and>
   sum_list (ac_buckets ac') - ac_minutes ac' = sum_list (ac_buckets ac) - ac_minutes ac \<and>
   ac_minutes ac \<le> ac_minutes ac' \<and>
   ac_minutes ac' \<le> ac_minutes ac + minutes (sm_at (last samples) - sm_at (hd samples))"
proof (induction samples arbitrary: ac rule: induct_list012)
  case (3 x y zs)
  let ?ac = "activity_step g i (x, y) ac"
  have le: "0 \<le> sm_at y - sm_at x" using 3(3) by simp
  note step = activity_step_adds [OF 3(5) le refl, of g i]
  have "length (ac_buckets ac') = 24 \<and>
    (list_all (\<lambda>m. 0 \<le> m) (ac_buckets ?ac) \<longrightarrow> list_all (\<lambda>m. 0 \<le> m) (ac_buckets ac')) \<and>
    sum_list (ac_buckets ac') - ac_minutes ac' = sum_list (ac_buckets ?ac) - ac_minutes ?ac \<and>
    ac_minutes ?ac \<le> ac_minutes ac' \<and>
    ac_minutes ac' \<le> ac_minutes ?ac + minutes (sm_at (last (y # zs)) - sm_at (hd (y # zs)))"
    using 3(2) [of ?ac] 3(3,6) step(1) by simp
  moreover have "minutes (sm_at (last (y # zs)) - sm_at x) =
      minutes (sm_at (last (y # zs)) - sm_at y) + minutes (sm_at y - sm_at x)"
    unfolding minutes_simps(2) [symmetric] by simp
  ultimately show ?case using step activity_step_nonneg [OF _ 3(5) le, of g i] by simp
qed simp_all

lemma activity_fits:
  assumes "sorted (map sm_at samples)" "samples \<noteq> []"
  shows "length (ac_buckets (activity_of g i samples)) = 24"
    "list_all (\<lambda>m. 0 \<le> m) (ac_buckets (activity_of g i samples))"
    "sum_list (ac_buckets (activity_of g i samples)) = ac_minutes (activity_of g i samples)"
    "0 \<le> ac_minutes (activity_of g i samples)"
    "ac_minutes (activity_of g i samples) \<le> minutes (sm_at (last samples) - sm_at (hd samples))"
  using activity_fold_adds [OF assms _ activity_of_def] by (simp_all add: no_activity_def sum_list_replicate list_all_iff)

lemma flag_minutes_simps:
  "flag_minutes P [] = 0" "flag_minutes P [x] = 0"
  "flag_minutes P (x # y # zs) =
     (if sm_ambient x \<noteq> sm_ambient y \<and> P x then minutes (sm_at y - sm_at x) else 0) + flag_minutes P (y # zs)"
  by (simp_all add: flag_minutes_def)

lemma flag_minutes_fit:
  "sorted (map sm_at samples) \<Longrightarrow> samples \<noteq> [] \<Longrightarrow>
   0 \<le> flag_minutes P samples \<and> flag_minutes P samples \<le> minutes (sm_at (last samples) - sm_at (hd samples))"
proof (induction samples rule: induct_list012)
  case (3 x y zs)
  have m: "minutes (sm_at (last (x # y # zs)) - sm_at (hd (x # y # zs))) =
      minutes (sm_at (last (y # zs)) - sm_at (hd (y # zs))) + minutes (sm_at y - sm_at x)"
    unfolding minutes_simps(2) [symmetric] by simp
  have "0 \<le> sm_at y - sm_at x" using 3(3) by simp
  then have d: "0 \<le> minutes (sm_at y - sm_at x)" by (simp only: minutes_simps)
  have IH: "0 \<le> flag_minutes P (y # zs)"
    "flag_minutes P (y # zs) \<le> minutes (sm_at (last (y # zs)) - sm_at (hd (y # zs)))"
    using 3(2,3) by simp_all
  show ?case unfolding m flag_minutes_simps(3) using d IH by (simp del: minutes_simps(3))
qed (simp_all add: flag_minutes_simps)

text \<open>The samples of a day.\<close>

definition day_samples :: "int \<Rightarrow> 'd history \<Rightarrow> sample_row list" where
  "day_samples day h = filter (\<lambda>s. in_days day day (sm_at s)) (hs_samples h)"

lemma computed_samples:
  "filter (\<lambda>s. day_start day \<le> sm_at s \<and> sm_at s < day_start day + MS_PER_DAY) (get_sample_range day day h) =
   sort_key sm_at (day_samples day h)"
  by (simp add: get_sample_range_def day_samples_def in_days_def filter_id_conv)

text \<open>The object of the hours: which hours it names, and what its minutes add up to.\<close>

definition hour_name :: "nat \<Rightarrow> string" where
  "hour_name h = (if h < 10 then ''0'' else []) @ digits_of h"

definition minutes_listed :: "json obj \<Rightarrow> rat" where
  "minutes_listed hours = sum_list (map (\<lambda>(name, v). case v of JNum m \<Rightarrow> m | _ \<Rightarrow> 0) hours)"

definition hour_entries :: "rat list \<Rightarrow> json obj" where
  "hour_entries bs =
     map (\<lambda>h. (hour_name h, JNum (round_minutes (bs ! h)))) (filter (\<lambda>h. 0 < bs ! h) ([10..<24] @ [0..<10]))"

lemma hour_object_entries: "hour_object bs = JObj (hour_entries bs)"
  by (simp only: hour_object_def hour_entries_def hour_name_def)

lemma hour_name_digits:
  assumes "h < 24"
  shows "hour_name h = [char_of (48 + h div 10), char_of (48 + h mod 10)]"
proof -
  have "char_of (48 :: nat) = CHR ''0''" by code_simp
  then show ?thesis
    using assms digits_of.simps [of h] digits_of.simps [of "h div 10"] by (simp add: hour_name_def)
qed

lemma hour_names_distinct: "inj_on hour_name {0..<24}"
proof (rule inj_onI)
  fix h k :: nat
  assume b: "h \<in> {0..<24}" "k \<in> {0..<24}" and e: "hour_name h = hour_name k"
  have c: "a = b" if "(char_of a :: char) = char_of b" "a < 256" "b < 256" for a b :: nat
    using that by (metis of_char_of mod_less)
  have "h div 10 = k div 10" "h mod 10 = k mod 10"
    using e b c [of "48 + h div 10" "48 + k div 10"] c [of "48 + h mod 10" "48 + k mod 10"]
    by (simp_all add: hour_name_digits)
  then show "h = k" by (metis div_mult_mod_eq)
qed

lemma hour_entry:
  assumes "h < 24"
  shows "map_of (hour_entries bs) (hour_name h) =
    (if 0 < bs ! h then Some (JNum (round_minutes (bs ! h))) else None)"
proof -
  have inj: "hour_name k = hour_name h \<longleftrightarrow> k = h" if "k < 24" for k
    using inj_on_eq_iff [OF hour_names_distinct] assms that by simp
  have d: "distinct (map fst (hour_entries bs))"
  proof -
    let ?hs = "filter (\<lambda>h. 0 < bs ! h) ([10..<24] @ [0..<10])"
    have "inj_on hour_name (set ?hs)" by (rule inj_on_subset [OF hour_names_distinct]) auto
    moreover have "distinct ?hs" by (auto simp del: upt_rec_numeral)
    ultimately have "distinct (map hour_name ?hs)" by (simp only: distinct_map)
    then show ?thesis by (simp add: hour_entries_def comp_def del: upt_rec_numeral)
  qed
  show ?thesis
  proof (cases "0 < bs ! h")
    case True
    then have "(hour_name h, JNum (round_minutes (bs ! h))) \<in> set (hour_entries bs)"
      using assms unfolding hour_entries_def by (intro image_eqI [where x = h, THEN set_map [THEN equalityD2, THEN subsetD]])
        (auto simp del: upt_rec_numeral)
    then show ?thesis using True d by simp
  next
    case False
    then have "hour_name h \<notin> fst ` set (hour_entries bs)"
      unfolding hour_entries_def using False
      by (auto simp del: upt_rec_numeral dest!: inj [THEN iffD1, rotated, OF sym])
    then show ?thesis using False by (simp add: map_of_eq_None_iff)
  qed
qed

lemma js_round_near: "\<bar>of_int (js_round x) - x\<bar> \<le> 1 / 2"
  unfolding js_round_def by linarith

lemma round_minutes_near: "\<bar>round_minutes x - x\<bar> \<le> 1 / 120"
  using js_round_near [of "x * 60"] unfolding round_minutes_def by (simp add: abs_le_iff field_simps)

lemma listed_near:
  fixes f :: "nat \<Rightarrow> rat"
  assumes "\<And>h. h \<in> set hs \<Longrightarrow> 0 \<le> f h"
  shows "\<bar>sum_list (map (\<lambda>h. round_minutes (f h)) (filter (\<lambda>h. 0 < f h) hs)) - sum_list (map f hs)\<bar> \<le>
    of_nat (length hs) / 120"
  using assms
proof (induction hs)
  case (Cons h hs)
  let ?r = "sum_list (map (\<lambda>h. round_minutes (f h)) (filter (\<lambda>h. 0 < f h) hs))" and ?s = "sum_list (map f hs)"
  have IH: "\<bar>?r - ?s\<bar> \<le> of_nat (length hs) / 120" using Cons.IH Cons.prems by simp
  have n: "of_nat (length (h # hs)) / 120 = of_nat (length hs) / 120 + (1 / 120 :: rat)"
    by (simp add: add_divide_distrib)
  show ?case
  proof (cases "0 < f h")
    case True
    have "\<bar>round_minutes (f h) + ?r - (f h + ?s)\<bar> \<le> of_nat (length hs) / 120 + 1 / 120"
      using IH round_minutes_near [of "f h"] by linarith
    then show ?thesis using True n by simp
  next
    case False
    then have "f h = 0" using Cons.prems [of h] by simp
    moreover have "\<bar>?r - ?s\<bar> \<le> of_nat (length hs) / 120 + 1 / 120" using IH by linarith
    ultimately show ?thesis using n by simp
  qed
qed simp

lemma minutes_listed_near:
  assumes "length bs = 24" "list_all (\<lambda>m. 0 \<le> m) bs"
  shows "\<bar>minutes_listed (hour_entries bs) - sum_list bs\<bar> \<le> 1 / 5"
proof -
  let ?hs = "[10..<24] @ [0..<10]"
  have "mset ?hs = mset [0..<24]" using upt_add_eq_append [of 0 10 14] by (simp del: upt_rec_numeral)
  then have "mset (map ((!) bs) ?hs) = mset (map ((!) bs) [0..<24])" by (simp only: mset_map)
  then have "sum_list (map ((!) bs) ?hs) = sum_list (map ((!) bs) [0..<24])" by (metis sum_mset_sum_list)
  moreover have "map ((!) bs) [0..<24] = bs" using assms(1) by (metis map_nth)
  ultimately have total: "sum_list (map ((!) bs) ?hs) = sum_list bs" by simp
  have "0 \<le> bs ! h" if "h \<in> set ?hs" for h using that assms by (auto simp: list_all_length simp del: upt_rec_numeral)
  from listed_near [of ?hs "(!) bs", OF this] total
  show ?thesis by (simp add: minutes_listed_def hour_entries_def comp_def del: upt_rec_numeral)
qed

text \<open>
  C31: The minutes of a daily row fit into the day. Whatever the samples, the active minutes and the
  minutes of every burden lie between 0 and the span from the first to the last sample, and the span
  is at most 1440 minutes. The row's object of hours names exactly the hours with active time, each
  under its two digits with its minutes to the second, and its minutes add up to the row's active
  minutes within 42 seconds, the most that rounding 24 hours and the active minutes can differ.
\<close>

theorem daily_minutes_fit:
  "case dy_activity (compute_daily_row now g i day h) of
     None \<Rightarrow> day_samples day h = []
   | Some da \<Rightarrow>
       da_span_minutes da \<le> 1440 \<and>
       list_all (\<lambda>m. 0 \<le> m \<and> m \<le> da_span_minutes da)
         [da_active_minutes da, dy_low_minutes (compute_daily_row now g i day h),
          dy_boxed_minutes (compute_daily_row now g i day h),
          dy_demoted_minutes (compute_daily_row now g i day h),
          dy_service_minutes (compute_daily_row now g i day h)] \<and>
       (case da_by_hour da of
          JObj hours \<Rightarrow>
            list_all (\<lambda>k. let m = ac_buckets (activity_of g i (sort_key sm_at (day_samples day h))) ! k
               in map_of hours (hour_name k) = (if 0 < m then Some (JNum (round_minutes m)) else None)) [0..<24] \<and>
            \<bar>minutes_listed hours - of_int (da_active_minutes da)\<bar> \<le> 7 / 10
        | _ \<Rightarrow> False)"
proof (cases "day_samples day h = []")
  case True
  then show ?thesis by (simp add: compute_daily_row_def computed_samples missing_day_def Let_def)
next
  case False
  let ?ss = "sort_key sm_at (day_samples day h)"
  have ne: "?ss \<noteq> []" using False by (metis length_0_conv length_sort)
  have s: "sorted (map sm_at ?ss)" by simp
  have "hd ?ss \<in> set (day_samples day h)" "last ?ss \<in> set (day_samples day h)"
    using hd_in_set [OF ne] last_in_set [OF ne] by simp_all
  then have "sm_at (last ?ss) - sm_at (hd ?ss) < MS_PER_DAY"
    by (auto simp: day_samples_def in_days_def)
  then have "minutes (sm_at (last ?ss) - sm_at (hd ?ss)) \<le> 1440"
    by (simp add: minutes_def MS_PER_DAY_def MS_PER_MINUTE_def field_simps)
  then have span: "js_round (minutes (sm_at (last ?ss) - sm_at (hd ?ss))) \<le> 1440"
    using js_round_mono by (fastforce simp: js_round_def)
  have r: "0 \<le> js_round x \<and> js_round x \<le> js_round (minutes (sm_at (last ?ss) - sm_at (hd ?ss)))"
    if "0 \<le> x" "x \<le> minutes (sm_at (last ?ss) - sm_at (hd ?ss))" for x
    using js_round_mono [OF that(1)] js_round_mono [OF that(2)] by simp
  let ?ac = "activity_of g i ?ss"
  note fits = activity_fits [OF s ne, of g i] and flags = flag_minutes_fit [OF s ne]
  have near: "\<bar>minutes_listed (hour_entries (ac_buckets ?ac)) - of_int (js_round (ac_minutes ?ac))\<bar> \<le> 7 / 10"
    using minutes_listed_near [OF fits(1,2)] js_round_near [of "ac_minutes ?ac"] unfolding fits(3) by linarith
  have hours: "list_all (\<lambda>k. map_of (hour_entries (ac_buckets ?ac)) (hour_name k) =
      (if 0 < ac_buckets ?ac ! k then Some (JNum (round_minutes (ac_buckets ?ac ! k))) else None)) [0..<24]"
    by (simp add: list_all_iff hour_entry del: upt_rec_numeral)
  show ?thesis
    using span near hours fits(4,5) flags ne
    by (simp add: compute_daily_row_def computed_samples day_activity_of_def hour_object_entries Let_def r
        del: upt_rec_numeral)
qed

subsection \<open>Ranges of days\<close>

definition day_events :: "int \<Rightarrow> 'd history \<Rightarrow> event_row list" where
  "day_events day h = filter (\<lambda>e. in_days day day (ue_at e)) (hs_events h)"

text \<open>A day's row depends on the day's samples and events only.\<close>

lemma compute_frame:
  assumes "day_samples day h' = day_samples day h" and "hs_events h' = hs_events h"
  shows "compute_daily_row now g i day h' = compute_daily_row now g i day h"
  using assms
  by (simp add: compute_daily_row_def computed_samples get_events_for_date_range_def Let_def)

lemma in_days_disjoint: "in_days d d t \<Longrightarrow> d \<noteq> d' \<Longrightarrow> \<not> in_days d' d' t"
  by (auto simp: in_days_def day_start_def MS_PER_DAY_def)

lemma add_days_1 [simp]: "add_days d n = d + n"
proof -
  have "add_days d n = (d + n) * MS_PER_DAY div MS_PER_DAY"
    by (simp only: add_days_def day_start_def day_utc_of_def distrib_right)
  then show ?thesis by (simp add: MS_PER_DAY_def)
qed

lemma upsert_frame [simp]:
  "hs_samples (upsert_daily_row d r h) = hs_samples h" "hs_events (upsert_daily_row d r h) = hs_events h"
  "get_daily_row d' (upsert_daily_row d r h) = (if d' = d then Some r else get_daily_row d' h)"
  "day_samples d' (upsert_daily_row d r h) = day_samples d' h"
  by (simp_all add: upsert_daily_row_def get_daily_row_def day_samples_def)

lemma delete_frame [simp]:
  "hs_events (snd (delete_samples_in_range from to h)) = hs_events h"
  "get_daily_row d (snd (delete_samples_in_range from to h)) = get_daily_row d h"
  "d \<noteq> d' \<Longrightarrow> day_samples d (snd (delete_samples_in_range d' d' h)) = day_samples d h"
  by (auto simp: delete_samples_in_range_def get_daily_row_def day_samples_def Let_def
      intro!: filter_cong dest: in_days_disjoint)

definition recomputes :: "downsample_options \<Rightarrow> int \<Rightarrow> daily_usage history \<Rightarrow> bool" where
  "recomputes opts d h = (do_force opts \<or> get_daily_row d h = None)"

lemma turn_spec:
  assumes "downsample_turn now opts c h = (rows, h')"
  shows "rows = (if recomputes opts c h
      then [compute_daily_row now (do_gap_minutes opts) (do_idle_minutes opts) c h] else [])"
    "get_daily_row d h' = (if d = c \<and> recomputes opts c h
      then Some (compute_daily_row now (do_gap_minutes opts) (do_idle_minutes opts) c h) else get_daily_row d h)"
    "hs_events h' = hs_events h" "d \<noteq> c \<Longrightarrow> day_samples d h' = day_samples d h"
    "now - do_retention_days opts * MS_PER_DAY \<le> day_start c \<Longrightarrow> hs_samples h' = hs_samples h"
  using assms
  by (auto simp: downsample_turn_def downsample_day_def recomputes_def Let_def split: if_splits)

lemma range_step:
  "downsample_range now opts c to h =
   (if c \<le> to then
      (let (rows, h1) = downsample_turn now opts c h; (rows', h2) = downsample_range now opts (c + 1) to h1
       in (rows @ rows', h2))
    else ([], h))"
  by (subst downsample_range.simps) simp

lemma range_spec:
  "downsample_range now opts c to h = (rows, h') \<Longrightarrow>
   rows = map (\<lambda>d. compute_daily_row now (do_gap_minutes opts) (do_idle_minutes opts) d h)
            (filter (\<lambda>d. recomputes opts d h) [c..to]) \<and>
   (\<forall>d. get_daily_row d h' =
      (if c \<le> d \<and> d \<le> to \<and> recomputes opts d h
       then Some (compute_daily_row now (do_gap_minutes opts) (do_idle_minutes opts) d h)
       else get_daily_row d h)) \<and>
   hs_events h' = hs_events h \<and> (\<forall>d. d < c \<or> to < d \<longrightarrow> day_samples d h' = day_samples d h) \<and>
   (now - do_retention_days opts * MS_PER_DAY \<le> day_start c \<longrightarrow> hs_samples h' = hs_samples h)"
proof (induction "nat (to + 1 - c)" arbitrary: c h rows h')
  case 0
  then show ?case by (auto simp: range_step)
next
  case (Suc n)
  then have le: "c \<le> to" by simp
  obtain r1 h1 where t: "downsample_turn now opts c h = (r1, h1)" by fastforce
  obtain r2 where r2: "downsample_range now opts (c + 1) to h1 = (r2, h')" and rows: "rows = r1 @ r2"
    using Suc.prems le t by (auto simp: range_step [of now opts c] split: prod.splits)
  have n: "n = nat (to + 1 - (c + 1))" using Suc.hyps(2) by simp
  note IH = Suc.hyps(1) [OF n r2] and turn = turn_spec [OF t]
  have same: "compute_daily_row now (do_gap_minutes opts) (do_idle_minutes opts) d h1 =
      compute_daily_row now (do_gap_minutes opts) (do_idle_minutes opts) d h" if "d \<noteq> c" for d
    using compute_frame [OF turn(4) [OF that] turn(3)] .
  have re: "recomputes opts d h1 = recomputes opts d h" if "d \<noteq> c" for d
    using turn(2) [of d] that by (simp add: recomputes_def)
  have later: "day_start (c + 1) \<ge> day_start c" by (simp add: day_start_def MS_PER_DAY_def)
  have "map (\<lambda>d. compute_daily_row now (do_gap_minutes opts) (do_idle_minutes opts) d h1)
        (filter (\<lambda>d. recomputes opts d h1) [c + 1..to]) =
      map (\<lambda>d. compute_daily_row now (do_gap_minutes opts) (do_idle_minutes opts) d h)
        (filter (\<lambda>d. recomputes opts d h) [c + 1..to])"
    by (rule map_cong) (auto simp: same intro!: filter_cong re)
  then have "rows = map (\<lambda>d. compute_daily_row now (do_gap_minutes opts) (do_idle_minutes opts) d h)
            (filter (\<lambda>d. recomputes opts d h) [c..to])"
    using rows turn(1) IH upto_rec1 [OF le] by simp
  moreover have "get_daily_row d h' =
      (if c \<le> d \<and> d \<le> to \<and> recomputes opts d h
       then Some (compute_daily_row now (do_gap_minutes opts) (do_idle_minutes opts) d h)
       else get_daily_row d h)" for d
    using IH turn(2) [of d] same [of d] re [of d] le by (cases "d = c") auto
  moreover have "hs_events h' = hs_events h" using IH turn(3) by simp
  moreover have "\<forall>d. d < c \<or> to < d \<longrightarrow> day_samples d h' = day_samples d h"
    using IH turn(4) le by auto
  moreover have "hs_samples h' = hs_samples h"
    if "now - do_retention_days opts * MS_PER_DAY \<le> day_start c"
    using IH turn(5) [OF that] that later by simp
  ultimately show ?case by blast
qed

text \<open>
  A range of days is computed from the samples found at its start. The loop ends, its rows are
  those of the days without a row, or of all days when forced, in order, each computed from the
  history as it was although samples are pruned on the way; the table holds exactly these rows
  besides the old ones, and days outside the range keep their samples.
\<close>

theorem downsampled_range:
  "case downsample_range now opts from to h of (rows, h') \<Rightarrow>
     rows = map (\<lambda>d. compute_daily_row now (do_gap_minutes opts) (do_idle_minutes opts) d h)
              (filter (\<lambda>d. do_force opts \<or> get_daily_row d h = None) [from..to]) \<and>
     (\<forall>d. get_daily_row d h' =
        (if from \<le> d \<and> d \<le> to \<and> (do_force opts \<or> get_daily_row d h = None)
         then Some (compute_daily_row now (do_gap_minutes opts) (do_idle_minutes opts) d h)
         else get_daily_row d h)) \<and>
     (\<forall>d. day_samples d h' = day_samples d h \<or> from \<le> d \<and> d \<le> to)"
proof -
  obtain rows h' where r: "downsample_range now opts from to h = (rows, h')" by fastforce
  show ?thesis using range_spec [OF r] by (force simp: r recomputes_def not_less)
qed

subsection \<open>The daily job\<close>

lemma prune_frame [simp]:
  "get_daily_row d (snd (prune_old_samples now r h)) = get_daily_row d h"
  "hs_events (snd (prune_old_samples now r h)) = hs_events h"
  by (simp_all add: prune_old_samples_def delete_samples_older_than_def get_daily_row_def Let_def)

lemma prune_keeps_days:
  "now - r * MS_PER_DAY \<le> day_start d \<Longrightarrow> day_samples d (snd (prune_old_samples now r h)) = day_samples d h"
  by (auto simp: day_samples_def prune_old_samples_def delete_samples_older_than_def in_days_def Let_def
      intro!: filter_cong)

lemma today_start: "day_start (day_utc_of now) \<le> now" "now < day_start (day_utc_of now) + MS_PER_DAY"
  by (simp_all add: day_start_def day_utc_of_def MS_PER_DAY_def)

text \<open>
  C32: The daily job replaces a row only by one computed from all the samples of its day. With a
  retention of at least one day, a row of a day before the last retention days stays as it is; the
  rows of the last retention days are computed from the samples found, and these samples all stay,
  so that the next job finds them again.
\<close>

theorem daily_job_spares_cut_days:
  assumes "1 \<le> hy_retention_days cfg"
  shows "let h' = run_daily_downsample now cfg h;
             today = day_utc_of now; cutoff = today - (hy_retention_days cfg - 1)
         in (\<forall>d<cutoff. get_daily_row d h \<noteq> None \<longrightarrow> get_daily_row d h' = get_daily_row d h) \<and>
            (\<forall>d. cutoff \<le> d \<and> d \<le> today \<longrightarrow>
               get_daily_row d h' =
                 Some (compute_daily_row now (hy_gap_minutes cfg) (hy_idle_minutes cfg) d h)) \<and>
            (\<forall>d\<ge>cutoff. day_samples d h' = day_samples d h)"
proof -
  let ?r = "hy_retention_days cfg"
  define today where "today = day_utc_of now"
  define cutoff where "cutoff = add_days today (- (?r - 1))"
  define opts where "opts = (\<lambda>force. \<lparr>do_gap_minutes = hy_gap_minutes cfg, do_idle_minutes = hy_idle_minutes cfg,
    do_retention_days = ?r, do_force = force\<rparr>)"
  define start where "start = (case get_earliest_sample_day h of Some d \<Rightarrow> d | None \<Rightarrow> add_days today (- ?r))"
  define h1 where "h1 = (if start < cutoff then snd (downsample_range now (opts False) start (add_days cutoff (-1)) h) else h)"
  define h2 where "h2 = snd (downsample_range now (opts True) cutoff today h1)"
  have job: "run_daily_downsample now cfg h = snd (prune_old_samples now ?r h2)"
    unfolding run_daily_downsample_def h2_def h1_def start_def cutoff_def today_def opts_def Let_def by (rule refl)
  have cutoff: "cutoff = today - (?r - 1)" by (simp add: cutoff_def)
  have "now < day_start today + MS_PER_DAY" using today_start by (simp add: today_def)
  then have kept: "now - ?r * MS_PER_DAY \<le> day_start d" if "cutoff \<le> d" for d
  proof -
    have "cutoff * MS_PER_DAY \<le> d * MS_PER_DAY" using that by (simp add: MS_PER_DAY_def)
    then show ?thesis
      using \<open>now < day_start today + MS_PER_DAY\<close> by (simp add: day_start_def cutoff algebra_simps)
  qed
  obtain r1 where r1: "start < cutoff \<Longrightarrow> downsample_range now (opts False) start (cutoff - 1) h = (r1, h1)"
    by (cases "downsample_range now (opts False) start (cutoff - 1) h") (simp add: h1_def)
  have s1: "get_daily_row d h \<noteq> None \<or> cutoff \<le> d \<Longrightarrow> get_daily_row d h1 = get_daily_row d h"
    "hs_events h1 = hs_events h" "cutoff \<le> d \<Longrightarrow> day_samples d h1 = day_samples d h" for d
    using range_spec [OF r1] by (cases "start < cutoff"; auto simp: h1_def recomputes_def opts_def)+
  obtain r2 where r2: "downsample_range now (opts True) cutoff today h1 = (r2, h2)"
    by (cases "downsample_range now (opts True) cutoff today h1") (simp add: h2_def)
  have begin_kept: "now - do_retention_days (opts True) * MS_PER_DAY \<le> day_start cutoff"
    using kept [of cutoff] by (simp add: opts_def)
  note s2 = range_spec [OF r2]
  have same: "day_samples d h2 = day_samples d h1" for d
    using s2 begin_kept by (simp add: day_samples_def)
  have "get_daily_row d h2 = get_daily_row d h" if "d < cutoff" "get_daily_row d h \<noteq> None" for d
    using s1(1) [of d] s2 that by simp
  moreover have "get_daily_row d h2 =
      Some (compute_daily_row now (hy_gap_minutes cfg) (hy_idle_minutes cfg) d h)" if "cutoff \<le> d" "d \<le> today" for d
    using s2 that compute_frame [OF s1(3) [OF that(1)] s1(2)] by (simp add: recomputes_def opts_def)
  moreover have "day_samples d (snd (prune_old_samples now ?r h2)) = day_samples d h" if "cutoff \<le> d" for d
    by (simp only: prune_keeps_days [OF kept [OF that]] same s1(3) [OF that])
  ultimately show ?thesis
    unfolding job Let_def today_def [symmetric] cutoff [symmetric] by simp
qed

definition cut_day_history :: "daily_usage history" where
  "cut_day_history =
     \<lparr>hs_samples = [], hs_sample_seq = 9, hs_events = [], hs_event_seq = 0,
      hs_daily = [(90, missing_day 5 [])], hs_last_key = None\<rparr>"

theorem daily_job_spares_cut_days_witness:
  "let cfg = \<lparr>hy_retention_days = 3, hy_gap_minutes = 5, hy_idle_minutes = 10\<rparr>;
       h' = run_daily_downsample (100 * 86400000) cfg cut_day_history
   in get_daily_row 90 h' = Some (missing_day 5 []) \<and>
      get_daily_row 98 h' = Some (compute_daily_row (100 * 86400000) 5 10 98 cut_day_history)"
  using daily_job_spares_cut_days
    [of "\<lparr>hy_retention_days = 3, hy_gap_minutes = 5, hy_idle_minutes = 10\<rparr>" "100 * 86400000" cut_day_history]
  by (simp add: Let_def day_utc_of_def MS_PER_DAY_def cut_day_history_def get_daily_row_def)

end
