(* ===== verification/History_Props.thy ===== *)
theory History_Props
  imports Daily_Props
begin

text \<open>
  The recorder of the usage history: the samples are the changes of the ambient state, each once, and
  the events of each kind form the chains that the daily rows follow from an onset to its end.
\<close>

subsection \<open>Changes\<close>

lemma remdups_adj_snoc:
  "remdups_adj (xs @ [x]) = (if xs \<noteq> [] \<and> last xs = x then remdups_adj xs else remdups_adj xs @ [x])"
  by (induction xs rule: remdups_adj.induct) auto

lemma neighbours_snoc: "xs \<noteq> [] \<Longrightarrow> neighbours (xs @ [x]) = neighbours xs @ [(last xs, x)]"
  by (induction xs rule: induct_list012) simp_all

lemma changes_differ: "distinct_adj (map f xs) \<Longrightarrow> list_all (\<lambda>(x, y). f x \<noteq> f y) (neighbours xs)"
  by (induction xs rule: induct_list012) simp_all

subsection \<open>Samples\<close>

datatype sample_input = Snapped int ambient | Reopened

fun sample_input_step :: "sample_input \<Rightarrow> 'd history \<Rightarrow> 'd history" where
  "sample_input_step (Snapped tm a) h = snd (history_snapshot tm a h)"
| "sample_input_step Reopened h = open_history h"

definition empty_history :: "'d history" where
  "empty_history = \<lparr>hs_samples = [], hs_sample_seq = 0, hs_events = [], hs_event_seq = 0, hs_daily = [],
                    hs_last_key = None\<rparr>"

text \<open>The successful snapshots of a run, as pairs of time and state.\<close>

fun ok_snapshot :: "sample_input \<Rightarrow> ambient option" where
  "ok_snapshot (Snapped tm a) = (if am_ok a then Some a else None)"
| "ok_snapshot Reopened = None"

definition samples_follow :: "ambient list \<Rightarrow> 'd history \<Rightarrow> bool" where
  "samples_follow seen h \<longleftrightarrow>
     map sm_ambient (hs_samples h) = remdups_adj seen \<and>
     map sm_id (hs_samples h) = [1..<hs_sample_seq h + 1] \<and>
     hs_last_key h = (if seen = [] then None else Some (last seen))"

lemma samples_follow_step:
  assumes "samples_follow seen h"
  shows "samples_follow (seen @ (case ok_snapshot i of None \<Rightarrow> [] | Some a \<Rightarrow> [a])) (sample_input_step i h)"
proof (cases i)
  case (Snapped tm a)
  then show ?thesis using assms
    by (auto simp: samples_follow_def history_snapshot_def remdups_adj_snoc)
next
  case Reopened
  have "last (map sm_ambient (hs_samples h)) = last seen" if "seen \<noteq> []"
    using assms that by (simp add: samples_follow_def)
  moreover have "hs_samples h = [] \<longleftrightarrow> seen = []"
    using assms by (metis samples_follow_def map_is_Nil_conv remdups_adj_Nil_iff)
  ultimately show ?thesis using assms Reopened
    by (auto simp: samples_follow_def open_history_def last_map)
qed

lemma samples_follow_run:
  "samples_follow seen h \<Longrightarrow>
   samples_follow (seen @ List.map_filter ok_snapshot inputs) (fold sample_input_step inputs h)"
proof (induction inputs arbitrary: seen h)
  case Nil
  then show ?case by (simp add: List.map_filter_def)
next
  case (Cons i inputs)
  from Cons.IH [OF samples_follow_step [OF Cons.prems, of i]] show ?case
    by (cases "ok_snapshot i") (simp_all add: List.map_filter_def)
qed

text \<open>
  C34: The samples are the changes. Whatever snapshots arrive and however often the store is opened
  again, the rows hold the states of the successful snapshots with every run of equal states
  written once, numbered from 1 in order; so no two neighbouring rows are equal, and a stretch in
  which nothing changes leaves no row behind.
\<close>

theorem samples_are_the_changes:
  "let h = fold sample_input_step inputs (empty_history :: 'd history)
   in map sm_ambient (hs_samples h) = remdups_adj (List.map_filter ok_snapshot inputs) \<and>
      map sm_id (hs_samples h) = [1..<length (hs_samples h) + 1] \<and>
      list_all (\<lambda>(x, y). sm_ambient x \<noteq> sm_ambient y) (neighbours (hs_samples h))"
proof -
  let ?h = "fold sample_input_step inputs (empty_history :: 'd history)"
  have "samples_follow [] (empty_history :: 'd history)"
    by (simp add: samples_follow_def empty_history_def)
  from samples_follow_run [OF this, of inputs]
  have rows: "map sm_ambient (hs_samples ?h) = remdups_adj (List.map_filter ok_snapshot inputs)"
    and ids: "map sm_id (hs_samples ?h) = [1..<hs_sample_seq ?h + 1]"
    by (simp_all add: samples_follow_def)
  have "length (hs_samples ?h) = hs_sample_seq ?h" using arg_cong [OF ids, of length] by simp
  moreover have "list_all (\<lambda>(x, y). sm_ambient x \<noteq> sm_ambient y) (neighbours (hs_samples ?h))"
    by (rule changes_differ) (simp add: rows)
  ultimately show ?thesis using rows ids by (simp add: Let_def)
qed

subsection \<open>Events\<close>

text \<open>What the chains of one kind promise: the states of the kind, the events and their links.\<close>

fun ban_phase :: "bool \<Rightarrow> event_transition list \<Rightarrow> bool option" where
  "ban_phase banned [] = Some banned"
| "ban_phase banned (tr # trs) =
     (case (banned, tr) of
        (False, Onset) \<Rightarrow> ban_phase True trs
      | (True, Morph) \<Rightarrow> ban_phase True trs
      | (True, Resolved) \<Rightarrow> ban_phase False trs
      | _ \<Rightarrow> None)"

fun links_from :: "nat option \<Rightarrow> event_row list \<Rightarrow> nat option list" where
  "links_from prev [] = []"
| "links_from prev (e # evs) =
     (if ue_transition e = Onset then None else prev) # links_from (Some (ue_id e)) evs"

definition chain_of :: "('t \<Rightarrow> bool) \<Rightarrow> 't list \<Rightarrow> event_row list \<Rightarrow> bool" where
  "chain_of dflt states evs \<longleftrightarrow>
     map ue_transition evs =
       map (\<lambda>(x, y). transition_of (dflt x) (dflt y)) (neighbours (remdups_adj states)) \<and>
     map ue_previous evs = links_from None evs \<and>
     (if states = [] then evs = []
      else ban_phase (\<not> dflt (hd states)) (map ue_transition evs) = Some (\<not> dflt (last states)))"

definition kind_events :: "tuple_kind \<Rightarrow> 'd history \<Rightarrow> event_row list" where
  "kind_events kind h = filter (\<lambda>e. ue_kind e = kind) (hs_events h)"

lemma ban_phase_snoc:
  "ban_phase b (trs @ [tr]) = (case ban_phase b trs of None \<Rightarrow> None | Some b' \<Rightarrow> ban_phase b' [tr])"
  by (induction b trs rule: ban_phase.induct) (simp_all split: bool.splits event_transition.splits)

lemma links_from_snoc:
  "links_from prev (evs @ [e]) = links_from prev evs @
     [if ue_transition e = Onset then None else if evs = [] then prev else Some (ue_id (last evs))]"
  by (induction evs arbitrary: prev) simp_all

lemma chain_of_snoc:
  assumes "chain_of dflt states evs" "states \<noteq> []" "last states \<noteq> t" "\<And>x y. dflt x \<Longrightarrow> dflt y \<Longrightarrow> x = y"
    and "ue_transition e = transition_of (dflt (last states)) (dflt t)"
    and "ue_previous e = (if ue_transition e = Onset then None
           else if evs = [] then None else Some (ue_id (last evs)))"
  shows "chain_of dflt (states @ [t]) (evs @ [e])"
  using assms
  by (auto simp: chain_of_def remdups_adj_snoc neighbours_snoc links_from_snoc ban_phase_snoc transition_of_def)

lemma chain_of_same: "chain_of dflt states evs \<Longrightarrow> states \<noteq> [] \<Longrightarrow> chain_of dflt (states @ [last states]) evs"
  by (auto simp: chain_of_def remdups_adj_snoc)

text \<open>
  The events are numbered in order and refer to earlier ones of their kind, so the open event of a
  kind is the newest of it.
\<close>

definition events_numbered :: "'d history \<Rightarrow> bool" where
  "events_numbered h \<longleftrightarrow>
     map ue_id (hs_events h) = [1..<hs_event_seq h + 1] \<and>
     (\<forall>v\<in>set (hs_events h). \<forall>p. ue_previous v = Some p \<longrightarrow>
        p < ue_id v \<and> (\<exists>e\<in>set (hs_events h). ue_id e = p \<and> ue_kind e = ue_kind v))"

lemma events_numbered_sorted:
  assumes "events_numbered h" "hs_events h = us @ e # vs" "v \<in> set us"
  shows "ue_id v < ue_id e"
proof -
  have "sorted_wrt (<) (map ue_id (us @ e # vs))"
    using assms(1,2) unfolding events_numbered_def by (metis sorted_wrt_upt)
  then show ?thesis using assms(3) by (auto simp: sorted_wrt_append)
qed

lemma events_numbered_inj:
  assumes "events_numbered h" "v \<in> set (hs_events h)" "e \<in> set (hs_events h)" "ue_id v = ue_id e"
  shows "v = e"
  using assms unfolding events_numbered_def by (metis distinct_map distinct_upt inj_onD)

lemma find_append: "find P (xs @ ys) = (case find P xs of None \<Rightarrow> find P ys | Some x \<Rightarrow> Some x)"
  by (induction xs) simp_all

lemma open_event_is_newest:
  assumes inv: "events_numbered h"
  shows "get_open_event kind h = (if kind_events kind h = [] then None else Some (last (kind_events kind h)))"
proof (cases "\<exists>e\<in>set (hs_events h). ue_kind e = kind")
  case False
  then show ?thesis
    by (auto simp: get_open_event_def kind_events_def find_None_iff Let_def filter_empty_conv)
next
  case True
  from split_list_last_prop [OF this] obtain us e vs where split: "hs_events h = us @ e # vs"
    and kind: "ue_kind e = kind" and later: "\<And>v. v \<in> set vs \<Longrightarrow> ue_kind v \<noteq> kind" by auto
  have "ue_previous v \<noteq> Some (ue_id e)" if v: "v \<in> set (hs_events h)" for v
  proof
    assume prev: "ue_previous v = Some (ue_id e)"
    then have lt: "ue_id e < ue_id v" and "ue_kind v = kind"
      using inv v kind events_numbered_inj [OF inv, of _ e] split unfolding events_numbered_def
      by (fastforce)+
    then have "v \<in> set us" using later v split kind prev by auto
    then show False using events_numbered_sorted [OF inv split] lt by fastforce
  qed
  then have "ue_id e \<notin> set (List.map_filter ue_previous (hs_events h))"
    by (force simp: List.map_filter_def)
  moreover have "find (\<lambda>e. ue_kind e = kind \<and> ue_id e \<notin> set cs) (rev vs) = None" for cs
    using later by (auto simp: find_None_iff)
  moreover have "last (kind_events kind h) = e" "kind_events kind h \<noteq> []"
    using later kind split by (simp_all add: kind_events_def filter_empty_conv)
  ultimately show ?thesis
    using kind by (simp add: get_open_event_def split find_append Let_def)
qed

text \<open>One more event.\<close>

lemma emit_event_spec:
  assumes inv: "events_numbered h" and emit: "emit_event tm a kind pd cd h = (tr, h')"
  obtains e where "events_numbered h'" "kind_events kind h' = kind_events kind h @ [e]"
    "\<And>k. k \<noteq> kind \<Longrightarrow> kind_events k h' = kind_events k h"
    "ue_transition e = transition_of pd cd"
    "ue_previous e = (if ue_transition e = Onset then None
       else if kind_events kind h = [] then None else Some (ue_id (last (kind_events kind h))))"
proof
  define e where "e = \<lparr>ue_id = hs_event_seq h + 1, ue_at = tm, ue_transition = transition_of pd cd, ue_kind = kind,
      ue_previous = (if transition_of pd cd = Onset then None
        else if kind_events kind h = [] then None else Some (ue_id (last (kind_events kind h)))),
      ue_ambient = a, ue_cache_rate = derive_cache_hit_rate a\<rparr>"
  have h': "h' = h\<lparr>hs_event_seq := hs_event_seq h + 1, hs_events := hs_events h @ [e]\<rparr>"
    using emit by (auto simp: emit_event_def record_event_def e_def open_event_is_newest [OF inv] Let_def)
  show "kind_events kind h' = kind_events kind h @ [e]"
    by (simp add: kind_events_def h' e_def)
  show "kind_events k h' = kind_events k h" if "k \<noteq> kind" for k
    using that by (auto simp: kind_events_def h' e_def)
  show "ue_transition e = transition_of pd cd" by (simp add: e_def)
  show "ue_previous e = (if ue_transition e = Onset then None
       else if kind_events kind h = [] then None else Some (ue_id (last (kind_events kind h))))"
    by (simp add: e_def)
  have newest: "last (kind_events kind h) \<in> set (hs_events h)" "ue_kind (last (kind_events kind h)) = kind"
    if "kind_events kind h \<noteq> []"
    using last_in_set [OF that] by (simp_all add: kind_events_def)
  have "ue_id v \<le> hs_event_seq h" if "v \<in> set (hs_events h)" for v
  proof -
    have "ue_id v \<in> set [1..<hs_event_seq h + 1]"
      using inv that unfolding events_numbered_def by (metis image_eqI list.set_map)
    then show ?thesis by auto
  qed
  then have "p < ue_id e \<and> (\<exists>v\<in>set (hs_events h). ue_id v = p \<and> ue_kind v = ue_kind e)"
    if "ue_previous e = Some p" for p
    using that newest by (auto simp: e_def le_imp_less_Suc split: if_splits)
  then show "events_numbered h'"
    using inv by (auto simp: events_numbered_def h' e_def)
qed

subsection \<open>Runs of the detector\<close>

definition detector_step :: "int \<times> ambient \<Rightarrow> detector \<times> 'd history \<Rightarrow> detector \<times> 'd history" where
  "detector_step input st = snd (detector_snapshot (fst input) (snd input) (fst st) (snd st))"

definition chains_follow :: "ambient list \<Rightarrow> detector \<times> 'd history \<Rightarrow> bool" where
  "chains_follow seen st \<longleftrightarrow>
     events_numbered (snd st) \<and>
     chain_of is_default_priority (map priority_tuple_of seen) (kind_events Priority (snd st)) \<and>
     chain_of is_default_service (map service_tuple_of seen) (kind_events Service_Mode (snd st)) \<and>
     dt_priority (fst st) = (if seen = [] then None else Some (priority_tuple_of (last seen))) \<and>
     dt_service (fst st) = (if seen = [] then None else Some (service_tuple_of (last seen)))"

lemma default_unique:
  "is_default_priority x \<Longrightarrow> is_default_priority y \<Longrightarrow> x = y"
  "is_default_service x' \<Longrightarrow> is_default_service y' \<Longrightarrow> x' = y'"
  by (simp_all add: is_default_priority_def is_default_service_def)

text \<open>The change of one kind, as the two branches of the detector make it.\<close>

definition detect :: "int \<Rightarrow> ambient \<Rightarrow> tuple_kind \<Rightarrow> ('t \<Rightarrow> bool) \<Rightarrow> 't \<Rightarrow> 't \<Rightarrow> 'd history \<Rightarrow> 'd history" where
  "detect tm a kind dflt old new h =
     (if new \<noteq> old then snd (emit_event tm a kind (dflt old) (dflt new) h) else h)"

lemma detect_chain:
  assumes "events_numbered h" "chain_of dflt states (kind_events kind h)" "states \<noteq> []"
    and "\<And>x y. dflt x \<Longrightarrow> dflt y \<Longrightarrow> x = y"
  shows "events_numbered (detect tm a kind dflt (last states) t h)"
    "chain_of dflt (states @ [t]) (kind_events kind (detect tm a kind dflt (last states) t h))"
    "k \<noteq> kind \<Longrightarrow> kind_events k (detect tm a kind dflt (last states) t h) = kind_events k h"
proof (atomize (full), cases "t = last states")
  case True
  then show "events_numbered (detect tm a kind dflt (last states) t h) \<and>
    chain_of dflt (states @ [t]) (kind_events kind (detect tm a kind dflt (last states) t h)) \<and>
    (k \<noteq> kind \<longrightarrow> kind_events k (detect tm a kind dflt (last states) t h) = kind_events k h)"
    using assms chain_of_same [OF assms(2,3)] by (simp add: detect_def)
next
  case False
  let ?h = "snd (emit_event tm a kind (dflt (last states)) (dflt t) h)"
  obtain tr where emit: "emit_event tm a kind (dflt (last states)) (dflt t) h = (tr, ?h)"
    by (metis prod.collapse)
  from emit_event_spec [OF assms(1) emit] obtain e where e: "events_numbered ?h"
    "kind_events kind ?h = kind_events kind h @ [e]" "\<And>k. k \<noteq> kind \<Longrightarrow> kind_events k ?h = kind_events k h"
    "ue_transition e = transition_of (dflt (last states)) (dflt t)"
    "ue_previous e = (if ue_transition e = Onset then None
       else if kind_events kind h = [] then None else Some (ue_id (last (kind_events kind h))))" by metis
  have "chain_of dflt (states @ [t]) (kind_events kind ?h)"
    unfolding e(2) using chain_of_snoc [OF assms(2,3) False [symmetric] assms(4) e(4,5)] .
  then show "events_numbered (detect tm a kind dflt (last states) t h) \<and>
    chain_of dflt (states @ [t]) (kind_events kind (detect tm a kind dflt (last states) t h)) \<and>
    (k \<noteq> kind \<longrightarrow> kind_events k (detect tm a kind dflt (last states) t h) = kind_events k h)"
    using False e by (simp add: detect_def)
qed

lemma detector_step_detects:
  assumes "dt_priority d = Some p" "dt_service d = Some s" "am_ok a"
  shows "detector_step (tm, a) (d, h) =
    (d\<lparr>dt_priority := Some (priority_tuple_of a), dt_service := Some (service_tuple_of a)\<rparr>,
     detect tm a Service_Mode is_default_service s (service_tuple_of a)
       (detect tm a Priority is_default_priority p (priority_tuple_of a) h))"
  using assms
  by (auto simp: detector_step_def detector_snapshot_def detect_def Let_def split: prod.splits)

lemma chains_follow_step:
  assumes "chains_follow seen (d, h)"
  shows "chains_follow (seen @ (if am_ok a then [a] else [])) (detector_step (tm, a) (d, h))"
proof (cases "am_ok a")
  case False
  then show ?thesis using assms by (simp add: detector_step_def detector_snapshot_def Let_def)
next
  case True
  show ?thesis
  proof (cases "seen = []")
    case True
    then show ?thesis using assms \<open>am_ok a\<close>
      by (auto simp: chains_follow_def detector_step_def detector_snapshot_def chain_of_def Let_def)
  next
    case False
    note inv = assms [unfolded chains_follow_def fst_conv snd_conv]
    let ?h1 = "detect tm a Priority is_default_priority (priority_tuple_of (last seen)) (priority_tuple_of a) h"
    have ne: "map priority_tuple_of seen \<noteq> []" "map service_tuple_of seen \<noteq> []" using False by simp_all
    have p: "events_numbered h" "chain_of is_default_priority (map priority_tuple_of seen) (kind_events Priority h)"
      "chain_of is_default_service (map service_tuple_of seen) (kind_events Service_Mode h)" using inv by blast+
    note one = detect_chain [OF p(1,2) ne(1) default_unique(1), where tm = tm and a = a and t = "priority_tuple_of a",
        unfolded last_map [OF False]]
    have s: "chain_of is_default_service (map service_tuple_of seen) (kind_events Service_Mode ?h1)"
      using one(3) [where k = Service_Mode] p(3) by simp
    note two = detect_chain [OF one(1) s ne(2) default_unique(2), where tm = tm and a = a and t = "service_tuple_of a",
        unfolded last_map [OF False]]
    have "detector_step (tm, a) (d, h) =
      (d\<lparr>dt_priority := Some (priority_tuple_of a), dt_service := Some (service_tuple_of a)\<rparr>,
       detect tm a Service_Mode is_default_service (service_tuple_of (last seen)) (service_tuple_of a) ?h1)"
      using detector_step_detects [of d _ _ a tm h] inv False \<open>am_ok a\<close> by simp
    then show ?thesis
      using one(2) two(1,2) two(3) [where k = Priority] \<open>am_ok a\<close> by (simp add: chains_follow_def)
  qed
qed

lemma chains_follow_run:
  "chains_follow seen st \<Longrightarrow>
   chains_follow (seen @ filter am_ok (map snd snaps)) (fold detector_step snaps st)"
proof (induction snaps arbitrary: seen st)
  case (Cons i snaps)
  obtain tm a where i: "i = (tm, a)" by (cases i)
  obtain d h where st: "st = (d, h)" by (cases st)
  from Cons.IH [OF chains_follow_step [OF Cons.prems [unfolded st], of a tm]] show ?case
    by (cases "am_ok a") (simp_all add: i st)
qed simp

text \<open>
  C33: The events of each kind form chains. Run on any snapshots from an empty store, the detector
  writes one event for every change of the kind's state between neighbouring successful snapshots;
  the events alternate as phases of a ban: an onset only out of the default state, morphs and one
  end only inside, and the phase after them is that of the current state; an onset refers to no
  event and every other event to the one before it of the same kind. All events are numbered
  from 1 in order.
\<close>

theorem events_form_chains:
  "let (d, h) = fold detector_step snaps (new_detector, empty_history :: 'd history);
       seen = filter am_ok (map snd snaps)
   in chain_of is_default_priority (map priority_tuple_of seen) (kind_events Priority h) \<and>
      chain_of is_default_service (map service_tuple_of seen) (kind_events Service_Mode h) \<and>
      map ue_id (hs_events h) = [1..<length (hs_events h) + 1]"
proof -
  have "chains_follow [] (new_detector, empty_history :: 'd history)"
    by (simp add: chains_follow_def chain_of_def events_numbered_def kind_events_def empty_history_def
        new_detector_def)
  from chains_follow_run [OF this, of snaps]
  have inv: "chains_follow (filter am_ok (map snd snaps))
      (fold detector_step snaps (new_detector, empty_history :: 'd history))" by simp
  obtain d h where st: "fold detector_step snaps (new_detector, empty_history :: 'd history) = (d, h)" by fastforce
  have ids: "map ue_id (hs_events h) = [1..<hs_event_seq h + 1]"
    using inv st by (simp add: chains_follow_def events_numbered_def)
  then have "length (hs_events h) = hs_event_seq h" by (metis length_map length_upt add_diff_cancel_right')
  then show ?thesis using inv ids by (simp add: st chains_follow_def Let_def)
qed

end
