(* ===== verification/Proxy_Stream.thy ===== *)
theory Proxy_Stream
  imports Usage_Extract Requests
begin

text \<open>
  Streaming a response to the client (the last part of \<open>forwardUpstream\<close> in \<open>src/proxy.ts\<close>): every
  chunk is passed on while a copy is decoded for the capture, and the end of the stream, an abort
  or the permit watchdog closes the capture and returns the permit. A chunk is a list of bytes.
  The text decoder of the platform and \<open>JSON.parse\<close> are arguments, with no assumption on either; a
  write that throws is caught where the code catches it. Dashboard messages are left out but for
  the one that marks the first chunk.
\<close>

subsection \<open>Base64\<close>

definition base64_alphabet :: string where
  "base64_alphabet = ''ABCDEFGHIJKLMNOPQRSTUVWXYZabcdefghijklmnopqrstuvwxyz0123456789+/''"

definition base64_char :: "nat \<Rightarrow> char" where
  "base64_char n = base64_alphabet ! (n mod 64)"

fun base64 :: "nat list \<Rightarrow> string" where
  "base64 [] = []"
| "base64 [a] = [base64_char (a div 4), base64_char (a mod 4 * 16), CHR ''='', CHR ''='']"
| "base64 [a, b] =
     [base64_char (a div 4), base64_char (a mod 4 * 16 + b div 16), base64_char (b mod 16 * 4), CHR ''='']"
| "base64 (a # b # c # bs) =
     [base64_char (a div 4), base64_char (a mod 4 * 16 + b div 16), base64_char (b mod 16 * 4 + c div 64),
      base64_char (c mod 64)] @ base64 bs"

text \<open>\<open>decodeText\<close>: the text of a whole body, or a marked base64 text.\<close>

definition decode_text :: "(nat list \<Rightarrow> string option) \<Rightarrow> nat list \<Rightarrow> string" where
  "decode_text decode buf = (case decode buf of Some s \<Rightarrow> s | None \<Rightarrow> ''__B64__'' @ base64 buf)"

subsection \<open>Incidents of a response\<close>

text \<open>\<open>extractUpstreamReason\<close>: the reason recorded for a failed response.\<close>

definition upstream_error_text :: "json \<Rightarrow> string option" where
  "upstream_error_text v =
     (case jget v ''error'' of
        Some err \<Rightarrow>
          (case (jget err ''type'', jget err ''message'') of
             (Some (JStr t), Some (JStr m)) \<Rightarrow> Some (t @ '': '' @ m)
           | _ \<Rightarrow> None)
      | None \<Rightarrow> None)"

definition extract_upstream_reason :: "(string \<Rightarrow> json option) \<Rightarrow> string option \<Rightarrow> string option" where
  "extract_upstream_reason parse body =
     (case body of
        None \<Rightarrow> None
      | Some b \<Rightarrow>
          if b = [] then None
          else (case parse b of
                  None \<Rightarrow> Some (take 200 b)
                | Some v \<Rightarrow>
                    (case upstream_error_text v of Some t \<Rightarrow> Some (take 200 t) | None \<Rightarrow> Some (take 200 b))))"

record incident_row =
  ir_party :: responsible_party
  ir_type :: incident_type
  ir_upstream :: "nat option"
  ir_served :: "nat option"
  ir_reason :: "string option"

definition maybe_upstream_incident ::
  "(string \<Rightarrow> json option) \<Rightarrow> nat \<Rightarrow> status_source option \<Rightarrow> bool \<Rightarrow> string option \<Rightarrow> incident_row list" where
  "maybe_upstream_incident parse status source clientAborted body =
     (if source \<noteq> Some FromUpstream \<or> status < 400 then []
      else (let (party, kind) = derive_incident status FromUpstream clientAborted
            in [\<lparr>ir_party = party, ir_type = kind, ir_upstream = Some status, ir_served = Some status,
                 ir_reason = extract_upstream_reason parse body\<rparr>]))"

subsection \<open>State\<close>

text \<open>What is fixed when streaming starts; \<open>se_decode\<close> is \<open>decode(chunk, {stream: true})\<close>, \<open>se_finish\<close> the
  final \<open>decode()\<close>, both \<open>None\<close> when they throw.\<close>

record 'd stream_env =
  se_cap :: nat
  se_openai :: bool
  se_sse :: bool
  se_status :: nat
  se_started_at :: int
  se_request_body :: string
  se_parse :: "string \<Rightarrow> json option"
  se_decode :: "'d \<Rightarrow> nat list \<Rightarrow> string option \<times> 'd"
  se_finish :: "'d \<Rightarrow> string option"

record capture_update =
  cu_body :: string
  cu_size :: nat
  cu_duration :: int
  cu_finished :: int
  cu_model :: "string option"
  cu_usage :: "usage_metrics option"

datatype stream_effect =
    Queue_Capture capture_update
  | Record_Incident incident_row
  | Return_Permit
  | Show_First_Chunk int

record 'd stream =
  st_parts :: "string list"
  st_timed :: "timed_chunk list"
  st_total :: nat
  st_flushed :: bool
  st_first_sent :: bool
  st_decoder :: 'd
  st_released :: bool
  st_client_aborted :: bool
  st_client_listening :: bool
  st_upstream_listening :: bool
  st_broken :: bool
  st_client :: "nat list list"
  st_effects :: "stream_effect list"

definition within_cap :: "'d stream_env \<Rightarrow> nat \<Rightarrow> bool" where
  "within_cap env seen = (se_cap env = 0 \<or> seen \<le> se_cap env)"

definition tell :: "stream_effect list \<Rightarrow> 'd stream \<Rightarrow> 'd stream" where
  "tell es st = st\<lparr>st_effects := st_effects st @ es\<rparr>"

subsection \<open>Closing\<close>

definition usage_request_of :: "'d stream_env \<Rightarrow> int \<Rightarrow> string \<Rightarrow> timed_chunk list \<Rightarrow> usage_request" where
  "usage_request_of env now body timed =
     \<lparr>ur_provider = (if se_openai env then OpenAi else Anthropic), ur_streaming = se_sse env,
      ur_request_body = se_request_body env, ur_response_body = body,
      ur_duration = of_int (now - se_started_at env), ur_started_at = of_int (se_started_at env),
      ur_chunks = (if se_sse env then Some timed else None)\<rparr>"

definition capture_update_of :: "'d stream_env \<Rightarrow> int \<Rightarrow> string \<Rightarrow> nat \<Rightarrow> timed_chunk list \<Rightarrow> capture_update" where
  "capture_update_of env now body seen timed =
     (let found = (case extract_usage (se_parse env) (usage_request_of env now body timed) of
                     Some r \<Rightarrow> r | None \<Rightarrow> None)
      in \<lparr>cu_body = body, cu_size = seen, cu_duration = now - se_started_at env, cu_finished = now,
          cu_model = map_option fst found, cu_usage = map_option snd found\<rparr>)"

definition flush_capture :: "'d stream_env \<Rightarrow> int \<Rightarrow> 'd stream \<Rightarrow> 'd stream" where
  "flush_capture env now st =
     (if st_flushed st then st
      else
        (let tail = (if within_cap env (st_total st) then
                       (case se_finish env (st_decoder st) of Some t \<Rightarrow> t | None \<Rightarrow> [])
                     else []);
             fullBody = concat (st_parts st) @ tail
         in tell (Queue_Capture (capture_update_of env now fullBody (st_total st) (st_timed st)) #
                  map Record_Incident
                    (maybe_upstream_incident (se_parse env) (se_status env) (Some FromUpstream) False
                       (Some fullBody)))
              (st\<lparr>st_flushed := True\<rparr>)))"

definition return_permit :: "'d stream \<Rightarrow> 'd stream" where
  "return_permit st = (if st_released st then st else tell [Return_Permit] (st\<lparr>st_released := True\<rparr>))"

definition on_abort :: "'d stream_env \<Rightarrow> int \<Rightarrow> 'd stream \<Rightarrow> 'd stream" where
  "on_abort env now st =
     (if st_released st then st
      else
        (let st1 = return_permit (flush_capture env now st)
         in if st_client_aborted st1 then
              tell [Record_Incident \<lparr>ir_party = Client, ir_type = ClientAborted,
                      ir_upstream = Some (se_status env), ir_served = Some 499,
                      ir_reason = Some ''Client disconnected mid-stream''\<rparr>] st1
            else st1))"

subsection \<open>Events\<close>

definition take_chunk :: "'d stream_env \<Rightarrow> int \<Rightarrow> nat list \<Rightarrow> 'd stream \<Rightarrow> 'd stream" where
  "take_chunk env now bytes st =
     (let seen = st_total st + length bytes;
          st1 = st\<lparr>st_total := seen\<rparr>;
          st2 = (if within_cap env seen then
                   (case se_decode env (st_decoder st) bytes of
                      (Some s, d) \<Rightarrow>
                        st1\<lparr>st_decoder := d, st_parts := st_parts st @ [s],
                            st_timed := st_timed st @ (if s = [] then [] else [\<lparr>tc_text = s, tc_time = of_int now\<rparr>])\<rparr>
                    | (None, d) \<Rightarrow> st1\<lparr>st_decoder := d, st_parts := st_parts st @ [base64 bytes]\<rparr>)
                 else st1);
          st3 = (if st_first_sent st then st2
                 else tell [Show_First_Chunk (now - se_started_at env)] (st2\<lparr>st_first_sent := True\<rparr>))
      in st3\<lparr>st_client := st_client st3 @ [bytes]\<rparr>)"

text \<open>
  \<open>Upstream_Fails\<close> is an error of the upstream body: it breaks the pipe, so that neither \<open>transform\<close> nor
  \<open>flush\<close> of the capture runs again, and no listener hears of it.
\<close>

datatype stream_event =
    Chunk int "nat list"
  | Stream_End int
  | Upstream_Fails
  | Client_Aborts int
  | Upstream_Aborts int
  | Watchdog_Fires int

fun stream_step :: "'d stream_env \<Rightarrow> stream_event \<Rightarrow> 'd stream \<Rightarrow> 'd stream" where
  "stream_step env (Chunk now bytes) st = (if st_broken st then st else take_chunk env now bytes st)"
| "stream_step env (Stream_End now) st =
     (if st_broken st then st
      else return_permit
        ((flush_capture env now st)\<lparr>st_client_listening := False, st_upstream_listening := False\<rparr>))"
| "stream_step env Upstream_Fails st = st\<lparr>st_broken := True\<rparr>"
| "stream_step env (Client_Aborts now) st =
     (let st1 = st\<lparr>st_client_aborted := True\<rparr>
      in if st_client_listening st1 then on_abort env now (st1\<lparr>st_client_listening := False\<rparr>) else st1)"
| "stream_step env (Upstream_Aborts now) st =
     (if st_upstream_listening st then on_abort env now (st\<lparr>st_upstream_listening := False\<rparr>) else st)"
| "stream_step env (Watchdog_Fires now) st =
     (if st_released st then st else return_permit (flush_capture env now st))"

text \<open>
  Streaming starts with the permit held, or returned already by the watchdog, which is armed with the
  permit and finds nothing to flush before the response is there; and with either signal possibly
  aborted already.
\<close>

definition new_stream :: "'d \<Rightarrow> bool \<Rightarrow> bool \<Rightarrow> 'd stream" where
  "new_stream d held clientAborted =
     \<lparr>st_parts = [], st_timed = [], st_total = 0, st_flushed = False, st_first_sent = False, st_decoder = d,
      st_released = (\<not> held), st_client_aborted = clientAborted, st_client_listening = False,
      st_upstream_listening = False, st_broken = False, st_client = [], st_effects = []\<rparr>"

definition start_stream :: "'d stream_env \<Rightarrow> int \<Rightarrow> 'd \<Rightarrow> bool \<Rightarrow> bool \<Rightarrow> bool \<Rightarrow> 'd stream" where
  "start_stream env now d held clientAborted upstreamAborted =
     (let st0 = new_stream d held clientAborted;
          st1 = (if clientAborted then return_permit (flush_capture env now st0)
                 else st0\<lparr>st_client_listening := True\<rparr>)
      in if upstreamAborted then on_abort env now st1 else st1\<lparr>st_upstream_listening := True\<rparr>)"

end
