(* ===== verification/Proxy_Admission.thy ===== *)
theory Proxy_Admission
  imports Proxy_Stream Body_Stamps Json_Text Gate RateLimit Ttft_Ladder
begin

text \<open>
  The way of a request through the proxy (\<open>handleProxy\<close> in \<open>src/proxy.ts\<close>): parsing and stamping the
  body, the forwarded headers, the request limit, the concurrency gate, the forwarding and the
  streaming. The retry ladder and the stream are the models of \<open>Ttft_Ladder\<close> and \<open>Proxy_Stream\<close>; the
  promise of the gate, the attempts and the stream events are observations. A text is encoded
  character by character. The vision handoff, which may replace the body in between, dashboard
  messages and log lines are left out; a write to the database or the queue that throws is not
  modelled where the code catches it.
\<close>

subsection \<open>Target and headers\<close>

text \<open>The parts of the inbound URL; \<open>uv_beta\<close> is the parameter \<open>beta\<close> of the target URL as the URL
  parser reports it.\<close>

record url_view =
  uv_pathname :: string
  uv_search :: string
  uv_beta :: "string option"

record proxy_config =
  pc_target :: string
  pc_openai_path :: string
  pc_claude_code :: bool
  pc_margin :: jsnum
  pc_use_hard_cap :: bool
  pc_never_limit :: bool

definition is_open_ai :: "proxy_config \<Rightarrow> url_view \<Rightarrow> bool" where
  "is_open_ai cfg url = js_includes (uv_pathname url) (pc_openai_path cfg)"

definition stamps_beta :: "proxy_config \<Rightarrow> url_view \<Rightarrow> bool" where
  "stamps_beta cfg url =
     (pc_claude_code cfg \<and> \<not> is_open_ai cfg url \<and> uv_pathname url = ''/v1/messages'')"

definition final_target_url :: "proxy_config \<Rightarrow> url_view \<Rightarrow> string" where
  "final_target_url cfg url =
     (let targetUrl = pc_target cfg @ uv_pathname url @ uv_search url
      in if stamps_beta cfg url \<and> uv_beta url \<noteq> Some ''true''
         then targetUrl @ (if js_includes targetUrl ''?'' then ''&'' else ''?'') @ ''beta=true''
         else targetUrl)"

definition STAMP_ANTHROPIC_BETA_HEADER :: string where
  "STAMP_ANTHROPIC_BETA_HEADER =
     ''claude-code-20250219,interleaved-thinking-2025-05-14,redact-thinking-2026-02-12,'' @
     ''thinking-token-count-2026-05-13,context-management-2025-06-27,prompt-caching-scope-2026-01-05,'' @
     ''mid-conversation-system-2026-04-07,advisor-tool-2026-03-01,effort-2025-11-24,'' @
     ''extended-cache-ttl-2025-04-11''"

definition forward_headers :: "bool \<Rightarrow> string obj \<Rightarrow> string obj" where
  "forward_headers stampBeta raw =
     (let fwd = obj_set (filter (\<lambda>(k, v). k \<notin> set HOP) raw) ''accept-encoding'' ''identity''
      in if stampBeta then
           [(''anthropic-beta'', STAMP_ANTHROPIC_BETA_HEADER), (''anthropic-version'', ''2023-06-01'')] @
           filter (\<lambda>(k, v). k \<noteq> ''anthropic-beta'' \<and> k \<noteq> ''anthropic-version'') fwd
         else fwd)"

subsection \<open>The body\<close>

definition text_bytes :: "string \<Rightarrow> nat list" where
  "text_bytes s = map of_char s"

text \<open>\<open>parseJsonBody\<close>; \<open>decode\<close> is the strict decoder, \<open>None\<close> when it throws.\<close>

definition parse_json_body ::
  "(nat list \<Rightarrow> string option) \<Rightarrow> (string \<Rightarrow> json option) \<Rightarrow> nat list \<Rightarrow> string obj \<Rightarrow> json option" where
  "parse_json_body decode parse buf headers =
     (let ct = (case obj_get headers ''content-type'' of Some s \<Rightarrow> s | None \<Rightarrow> [])
      in if \<not> js_includes ct ''json'' \<and> (buf = [] \<or> hd buf \<noteq> 123) then None
         else (case decode buf of Some s \<Rightarrow> parse s | None \<Rightarrow> None))"

record inbound_request =
  rq_method :: string
  rq_url :: url_view
  rq_headers :: "string obj"
  rq_bytes :: "nat list"
  rq_aborted :: bool

record inbound =
  ib_buf :: "nat list option"
  ib_model :: "string option"
  ib_headers :: "string obj"

text \<open>\<open>parseInbound\<close>: \<open>None\<close> is the answer 499 to a client that has left.\<close>

definition parse_inbound ::
  "(nat list \<Rightarrow> string option) \<Rightarrow> (string \<Rightarrow> json option) \<Rightarrow> (rat \<Rightarrow> string) \<Rightarrow> proxy_config \<Rightarrow> stamp_context \<Rightarrow>
   inbound_request \<Rightarrow> inbound option" where
  "parse_inbound decode parse num_text cfg ctx rq =
     (let buf = (if rq_method rq \<noteq> ''GET'' \<and> rq_method rq \<noteq> ''HEAD'' then Some (rq_bytes rq) else None)
      in if rq_aborted rq then None
         else
           (let body = (case buf of
                          Some b \<Rightarrow> if b = [] then None else parse_json_body decode parse b (rq_headers rq)
                        | None \<Rightarrow> None);
                live = (case body of Some v \<Rightarrow> if truthy v then Some v else None | None \<Rightarrow> None);
                model = (case live of Some v \<Rightarrow> extract_model_name v | None \<Rightarrow> None);
                stamped = (case live of
                             Some v \<Rightarrow>
                               if is_object v then run_steps STAMP_PIPELINE (ctx\<lparr>ctx_model_name := model\<rparr>) v
                               else None
                           | None \<Rightarrow> None)
            in Some \<lparr>ib_buf = (case stamped of
                                 Some (v, True) \<Rightarrow> Some (text_bytes (json_text num_text v)) | _ \<Rightarrow> buf),
                     ib_model = model,
                     ib_headers = forward_headers (stamps_beta cfg (rq_url rq)) (rq_headers rq)\<rparr>))"

subsection \<open>Effects\<close>

record gate_update =
  gu_status :: nat
  gu_error :: string
  gu_text :: string
  gu_reason :: string

datatype proxy_effect =
    Insert_Capture
  | Gate_Update gate_update
  | Gate_Incident incident_row
  | Mark_Streaming
  | Take_Permit
  | Give_Permit
  | Of_Ladder effect
  | Of_Stream stream_effect
  | Empty_Body_Update nat

record proxy_answer =
  pa_status :: nat
  pa_headers :: "string obj"
  pa_body :: "string option"

text \<open>The row of a decision of the gateway: nothing came from the upstream.\<close>

definition gate_row :: "responsible_party \<Rightarrow> incident_type \<Rightarrow> nat \<Rightarrow> string \<Rightarrow> incident_row" where
  "gate_row party kind served reason =
     \<lparr>ir_party = party, ir_type = kind, ir_upstream = None, ir_served = Some served, ir_reason = Some reason\<rparr>"

subsection \<open>The request limit\<close>

text \<open>What the status of the gate reports of the upstream window; its length in seconds, when known.\<close>

record window_view =
  wv_stats :: request_gate_stats
  wv_seconds :: "rat option"

definition limit_refusal :: "(rat \<Rightarrow> string) \<Rightarrow> rat \<Rightarrow> proxy_answer \<times> proxy_effect list" where
  "limit_refusal num_text retryAfter =
     (let reason = ''Rate limit exceeded -- retry after '' @ num_text retryAfter @ ''s'';
          body = json_text num_text
                   (JObj [(''error'', JStr ''rate_limit_exceeded''), (''retry_after'', JNum retryAfter)])
      in (\<lparr>pa_status = 503, pa_headers = [(''content-type'', ''application/json''),
             (''retry-after'', num_text retryAfter)], pa_body = Some body\<rparr>,
          [Gate_Update \<lparr>gu_status = 503, gu_error = ''rate_limit_exceeded'', gu_text = body, gu_reason = reason\<rparr>,
           Gate_Incident (gate_row Proxy RateLimited 503 reason)]))"

text \<open>The limiter of the gateway, used unless limiting is switched off.\<close>

definition local_limit ::
  "(rat \<Rightarrow> string) \<Rightarrow> proxy_config \<Rightarrow> rat \<Rightarrow> int \<Rightarrow> rate_limiter option \<Rightarrow>
   (proxy_answer \<times> proxy_effect list) option \<times> rate_limiter option" where
  "local_limit num_text cfg weight now limiter =
     (if pc_never_limit cfg then (None, limiter)
      else case limiter of
             None \<Rightarrow> (None, None)
           | Some rl \<Rightarrow>
               (let (rl', rc) = rl_check weight now rl
                in (if rc_allowed rc then None
                    else Some (limit_refusal num_text
                           (case rc_retry_after rc of Some s \<Rightarrow> of_int s | None \<Rightarrow> 0)), Some rl')))"

text \<open>\<open>checkRateLimit\<close>: the upstream window first, then the limiter of the gateway.\<close>

definition check_rate_limit ::
  "(rat \<Rightarrow> string) \<Rightarrow> proxy_config \<Rightarrow> window_view option \<Rightarrow> rat \<Rightarrow> int \<Rightarrow> rate_limiter option \<Rightarrow>
   (proxy_answer \<times> proxy_effect list) option \<times> rate_limiter option" where
  "check_rate_limit num_text cfg window weight now limiter =
     (case window of
        Some w \<Rightarrow>
          if rg_block (request_gate_decide (wv_stats w) (pc_margin cfg) (pc_use_hard_cap cfg))
          then (Some (limit_refusal num_text (case wv_seconds w of Some s \<Rightarrow> s | None \<Rightarrow> 60)), limiter)
          else local_limit num_text cfg weight now limiter
      | None \<Rightarrow> local_limit num_text cfg weight now limiter)"

subsection \<open>The permit\<close>

definition gate_error_code :: "gate_error \<Rightarrow> string" where
  "gate_error_code e = (case e of InvalidWeight \<Rightarrow> ''invalid_weight'' | CircuitOpen \<Rightarrow> ''circuit_open''
     | QueueFull \<Rightarrow> ''queue_full'' | QueueTimeout \<Rightarrow> ''timeout'' | Aborted \<Rightarrow> ''aborted''
     | ShuttingDown \<Rightarrow> ''shutdown'')"

definition gate_error_message :: "gate_error \<Rightarrow> string" where
  "gate_error_message e = (case e of InvalidWeight \<Rightarrow> ''weight must be positive''
     | CircuitOpen \<Rightarrow> ''Circuit breaker open'' | QueueFull \<Rightarrow> ''Concurrency queue full''
     | QueueTimeout \<Rightarrow> ''Queue timeout exceeded'' | Aborted \<Rightarrow> ''Client disconnected while enqueued''
     | ShuttingDown \<Rightarrow> ''Shutting down'')"

definition gate_status :: "gate_error \<Rightarrow> nat" where
  "gate_status e =
     (if e = Aborted then 499
      else if e = CircuitOpen \<or> e = QueueFull \<or> e = QueueTimeout then 503 else 502)"

definition gate_reason :: "gate_error \<Rightarrow> string" where
  "gate_reason e =
     (case e of
        Aborted \<Rightarrow> ''Client disconnected while enqueued''
      | CircuitOpen \<Rightarrow> ''Circuit breaker open -- upstream concurrency 429s exceeded threshold''
      | QueueFull \<Rightarrow> ''Concurrency queue full -- too many requests waiting for a slot''
      | QueueTimeout \<Rightarrow> ''Queue timeout -- request waited too long for a concurrency slot''
      | InvalidWeight \<Rightarrow> ''Invalid weight -- model weight must be positive''
      | ShuttingDown \<Rightarrow> gate_error_message e)"

text \<open>\<open>acquirePermit\<close> when the gate rejects the request.\<close>

definition gate_refusal :: "(rat \<Rightarrow> string) \<Rightarrow> gate_error \<Rightarrow> proxy_answer \<times> proxy_effect list" where
  "gate_refusal num_text e =
     (let (party, kind) = derive_incident (gate_status e) FromGate (e = Aborted)
      in ((if e = Aborted then \<lparr>pa_status = 499, pa_headers = [], pa_body = None\<rparr>
           else \<lparr>pa_status = gate_status e, pa_headers = [(''content-type'', ''application/json'')],
                  pa_body = Some (json_text num_text (JObj [(''error'', JStr (gate_error_code e)),
                    (''message'', JStr (gate_error_message e))]))\<rparr>),
          [Gate_Update \<lparr>gu_status = gate_status e, gu_error = gate_error_code e,
             gu_text = (if e = Aborted then [] else gate_error_message e), gu_reason = gate_reason e\<rparr>,
           Gate_Incident (gate_row party kind (gate_status e) (gate_reason e))]))"

subsection \<open>Forwarding\<close>

text \<open>
  How forwarding ends: the ladder answers or has a response, which is streamed, or an exception
  leaves \<open>forwardUpstream\<close> after the given effects. Exceptions the ladder knows of are among what its
  attempts observe.
\<close>

datatype 'd forwarding =
    Attempts "attempt_obs list" "'d stream_env" 'd int bool bool "stream_event list"
  | Throws "effect list" string

text \<open>What the handler answers when an exception leaves \<open>forwardUpstream\<close>.\<close>

definition internal_error ::
  "(rat \<Rightarrow> string) \<Rightarrow> effect list \<Rightarrow> string \<Rightarrow> proxy_answer \<times> proxy_effect list \<times> bool" where
  "internal_error num_text es message =
     (\<lparr>pa_status = 500, pa_headers = [(''content-type'', ''application/json'')],
       pa_body = Some (json_text num_text
         (JObj [(''error'', JStr ''internal_error''), (''message'', JStr message)]))\<rparr>,
      map Of_Ladder es @
        [Gate_Update \<lparr>gu_status = 500, gu_error = ''internal_error'',
           gu_text = ''Internal error: '' @ message, gu_reason = ''Internal proxy error -- '' @ message\<rparr>],
      False)"

text \<open>
  The effects of forwarding and whether the response is being streamed, in which case the stream
  returns the permit. A response without a body is answered at once. \<open>held\<close> says whether the permit
  is still held when the ladder is done: the watchdog can have returned it before.
\<close>

definition forward_upstream ::
  "(rat \<Rightarrow> string) \<Rightarrow> ladder_config \<Rightarrow> ladder_request \<Rightarrow> bool \<Rightarrow> 'd forwarding \<Rightarrow>
   (proxy_answer \<times> proxy_effect list \<times> bool) option" where
  "forward_upstream num_text lcfg lrq held fw =
     (case fw of
        Throws es message \<Rightarrow> Some (internal_error num_text es message)
      | Attempts obs env d now clientAborted upstreamAborted events \<Rightarrow>
          (case ladder_loop lcfg lrq obs new_ladder of
             Some (Respond status h st) \<Rightarrow>
               Some (\<lparr>pa_status = status, pa_headers = h, pa_body = None\<rparr>, map Of_Ladder (ld_effects st), False)
           | Some (Fail message st) \<Rightarrow> Some (internal_error num_text (ld_effects st) message)
           | Some (Stream resp h st) \<Rightarrow>
               if rs_has_body resp then
                 Some (\<lparr>pa_status = rs_status resp, pa_headers = h, pa_body = None\<rparr>,
                       map Of_Ladder (ld_effects st) @
                         map Of_Stream (st_effects (fold (stream_step env) events
                           (start_stream env now d held clientAborted upstreamAborted))),
                       True)
               else
                 Some (\<lparr>pa_status = rs_status resp, pa_headers = h, pa_body = None\<rparr>,
                       map Of_Ladder (ld_effects st) @ [Empty_Body_Update (rs_status resp)] @
                         map Gate_Incident
                           (maybe_upstream_incident (se_parse env) (rs_status resp) (Some FromUpstream) False None),
                       False)
           | _ \<Rightarrow> None))"

subsection \<open>The handler\<close>

text \<open>
  What a request meets. \<open>ob_watchdog\<close>: the permit watchdog, armed with the permit, fires before the
  response is streamed and returns the permit; its return is listed next to the permit, wherever in
  the attempts it happens.
\<close>

record 'd observed =
  ob_window :: "window_view option"
  ob_weight :: rat
  ob_now :: int
  ob_settlement :: settlement
  ob_watchdog :: bool
  ob_forwarding :: "'d forwarding"

text \<open>\<open>None\<close> while the attempts observed do not decide the answer.\<close>

definition handle_proxy ::
  "(nat list \<Rightarrow> string option) \<Rightarrow> (string \<Rightarrow> json option) \<Rightarrow> (rat \<Rightarrow> string) \<Rightarrow> proxy_config \<Rightarrow> stamp_context \<Rightarrow>
   ladder_config \<Rightarrow> ladder_request \<Rightarrow> inbound_request \<Rightarrow> 'd observed \<Rightarrow> rate_limiter option \<Rightarrow>
   (proxy_answer \<times> proxy_effect list \<times> rate_limiter option) option" where
  "handle_proxy decode parse num_text cfg ctx lcfg lrq rq obs limiter =
     (case parse_inbound decode parse num_text cfg ctx rq of
        None \<Rightarrow> Some (\<lparr>pa_status = 499, pa_headers = [], pa_body = None\<rparr>, [], limiter)
      | Some inb \<Rightarrow>
          (case check_rate_limit num_text cfg (ob_window obs) (ob_weight obs) (ob_now obs) limiter of
             (Some (answer, es), limiter') \<Rightarrow> Some (answer, Insert_Capture # es, limiter')
           | (None, limiter') \<Rightarrow>
               (case ob_settlement obs of
                  Rejected e \<Rightarrow>
                    (let (answer, es) = gate_refusal num_text e
                     in Some (answer, Insert_Capture # es, limiter'))
                | Acquired \<Rightarrow>
                    (case forward_upstream num_text lcfg lrq (\<not> ob_watchdog obs) (ob_forwarding obs) of
                       None \<Rightarrow> None
                     | Some (answer, es, streaming) \<Rightarrow>
                         Some (answer,
                               Insert_Capture # Mark_Streaming # Take_Permit #
                                 (if ob_watchdog obs then [Give_Permit] else []) @ es @
                                 (if streaming \<or> ob_watchdog obs then [] else [Give_Permit]),
                               limiter')))))"

end
