(* ===== verification/Stream_Props.thy ===== *)
theory Stream_Props
  imports Proxy_Stream
begin

text \<open>
  Streaming to the client: what closes a stream queues the capture once and returns the permit once
  after it, the client gets every chunk, and the recorded body is the decoded text of the chunks
  within the cap.
\<close>

subsection \<open>What is recorded\<close>

fun decode_pieces :: "'d stream_env \<Rightarrow> 'd \<Rightarrow> nat list list \<Rightarrow> string list \<times> 'd" where
  "decode_pieces env d [] = ([], d)"
| "decode_pieces env d (c # cs) =
     (let (r, d1) = se_decode env d c; (ps, d2) = decode_pieces env d1 cs
      in ((case r of Some s \<Rightarrow> s | None \<Rightarrow> base64 c) # ps, d2))"

text \<open>The chunks up to the first one that makes the response larger than the cap.\<close>

fun capped :: "'d stream_env \<Rightarrow> nat \<Rightarrow> nat list list \<Rightarrow> nat list list" where
  "capped env seen [] = []"
| "capped env seen (c # cs) =
     (if within_cap env (seen + length c) then c # capped env (seen + length c) cs else [])"

definition bytes_of :: "nat list list \<Rightarrow> nat" where
  "bytes_of cs = sum_list (map length cs)"

definition recorded_body :: "'d stream_env \<Rightarrow> 'd \<Rightarrow> nat list list \<Rightarrow> string" where
  "recorded_body env d cs =
     (let (ps, d1) = decode_pieces env d (capped env 0 cs)
      in concat ps @
         (if within_cap env (bytes_of cs) then (case se_finish env d1 of Some t \<Rightarrow> t | None \<Rightarrow> []) else []))"

lemma bytes_of_simps [simp]:
  "bytes_of [] = 0" "bytes_of (c # cs) = length c + bytes_of cs" "bytes_of (cs @ ds) = bytes_of cs + bytes_of ds"
  by (simp_all add: bytes_of_def)

lemma within_cap_mono: "within_cap env (a + b) \<Longrightarrow> within_cap env a"
  by (auto simp: within_cap_def)

lemma capped_snoc:
  "capped env t (cs @ [c]) =
     capped env t cs @ (if within_cap env (t + bytes_of cs + length c) then [c] else [])"
proof (induction cs arbitrary: t)
  case (Cons a cs)
  have "within_cap env (t + length a)" if "within_cap env (t + length a + bytes_of cs + length c)"
    using that within_cap_mono by (metis add.assoc)
  then show ?case using Cons by (auto simp: add.assoc)
qed simp

lemma decode_pieces_snoc:
  "decode_pieces env d (cs @ [c]) =
     (let (ps, d1) = decode_pieces env d cs; (r, d2) = se_decode env d1 c
      in (ps @ [case r of Some s \<Rightarrow> s | None \<Rightarrow> base64 c], d2))"
  by (induction cs arbitrary: d) (simp_all add: case_prod_unfold Let_def)

subsection \<open>Phases\<close>

fun chunk_of :: "stream_event \<Rightarrow> nat list option" where
  "chunk_of (Chunk now b) = Some b"
| "chunk_of _ = None"

definition chunks_of :: "stream_event list \<Rightarrow> nat list list" where
  "chunks_of evs = List.map_filter chunk_of evs"

text \<open>The chunks the upstream sent before its body failed, if it did.\<close>

definition sent_on :: "stream_event list \<Rightarrow> nat list list" where
  "sent_on evs = chunks_of (takeWhile (\<lambda>e. e \<noteq> Upstream_Fails) evs)"

text \<open>
  The chunks a stream has passed on when the first event closes it, \<open>None\<close> while none has. A regular end
  closes any stream whose body has not failed; an abort or the watchdog one that holds its permit.
\<close>

fun until_close :: "bool \<Rightarrow> bool \<Rightarrow> stream_event list \<Rightarrow> nat list list option" where
  "until_close held broken [] = None"
| "until_close held broken (e # evs) =
     (case e of
        Chunk now b \<Rightarrow>
          (if broken then until_close held broken evs
           else map_option ((#) b) (until_close held broken evs))
      | Stream_End now \<Rightarrow> (if broken then until_close held broken evs else Some [])
      | Upstream_Fails \<Rightarrow> until_close held True evs
      | _ \<Rightarrow> (if held then Some [] else until_close held broken evs))"

definition closed_with :: "bool \<Rightarrow> bool \<Rightarrow> bool \<Rightarrow> stream_event list \<Rightarrow> nat list list option" where
  "closed_with held ca ua evs = (if ca \<or> ua \<and> held then Some [] else until_close held False evs)"

text \<open>The effects that close a request, and the rows that blame the client.\<close>

definition closing :: "stream_effect list \<Rightarrow> stream_effect list" where
  "closing es = filter (\<lambda>e. case e of Queue_Capture _ \<Rightarrow> True | Return_Permit \<Rightarrow> True | _ \<Rightarrow> False) es"

definition client_rows :: "stream_effect list \<Rightarrow> nat" where
  "client_rows es =
     length (filter (\<lambda>e. case e of Record_Incident r \<Rightarrow> ir_type r = ClientAborted | _ \<Rightarrow> False) es)"

lemma chunks_of_simps [simp]:
  "chunks_of [] = []" "chunks_of (e # evs) = (case chunk_of e of None \<Rightarrow> [] | Some b \<Rightarrow> [b]) @ chunks_of evs"
  by (simp_all add: chunks_of_def List.map_filter_def split: option.split)

lemma sent_on_simps [simp]:
  "sent_on [] = []"
  "sent_on (e # evs) =
     (if e = Upstream_Fails then [] else (case chunk_of e of None \<Rightarrow> [] | Some b \<Rightarrow> [b]) @ sent_on evs)"
  by (simp_all add: sent_on_def)

lemma closing_simps [simp]:
  "closing [] = []" "closing (es @ es') = closing es @ closing es'"
  "closing (Queue_Capture u # es) = Queue_Capture u # closing es" "closing (Return_Permit # es) = Return_Permit # closing es"
  "closing (Record_Incident r # es) = closing es" "closing (Show_First_Chunk t # es) = closing es"
  "closing (map Record_Incident rs) = []"
  by (auto simp: closing_def filter_empty_conv)

lemma client_rows_simps [simp]:
  "client_rows [] = 0" "client_rows (es @ es') = client_rows es + client_rows es'"
  "client_rows (Queue_Capture u # es) = client_rows es" "client_rows (Return_Permit # es) = client_rows es"
  "client_rows (Record_Incident r # es) = (if ir_type r = ClientAborted then 1 else 0) + client_rows es"
  "client_rows (Show_First_Chunk t # es) = client_rows es"
  "client_rows (map Record_Incident (maybe_upstream_incident p s (Some FromUpstream) False b)) = 0"
  by (auto simp: client_rows_def maybe_upstream_incident_def derive_incident_def)

text \<open>
  A stream that has not closed, after the chunks \<open>cs\<close>: an abort will close it when it holds its permit,
  and every abort is still listened to then.
\<close>

definition open_stream :: "'d stream_env \<Rightarrow> 'd \<Rightarrow> bool \<Rightarrow> nat list list \<Rightarrow> 'd stream \<Rightarrow> bool" where
  "open_stream env d held cs st \<longleftrightarrow>
     \<not> st_flushed st \<and> st_released st = (\<not> held) \<and>
     st_total st = bytes_of cs \<and> (st_parts st, st_decoder st) = decode_pieces env d (capped env 0 cs) \<and>
     closing (st_effects st) = [] \<and> client_rows (st_effects st) = 0"

definition listening :: "'d stream \<Rightarrow> bool" where
  "listening st = (\<not> st_client_aborted st \<and> st_client_listening st \<and> st_upstream_listening st)"

definition closed_stream :: "capture_update \<Rightarrow> bool \<Rightarrow> 'd stream \<Rightarrow> bool" where
  "closed_stream u held st \<longleftrightarrow>
     st_flushed st \<and> st_released st \<and>
     closing (st_effects st) = Queue_Capture u # (if held then [Return_Permit] else []) \<and>
     client_rows (st_effects st) \<le> 1"

definition records :: "'d stream_env \<Rightarrow> 'd \<Rightarrow> nat list list \<Rightarrow> capture_update \<Rightarrow> bool" where
  "records env d cs u \<longleftrightarrow> cu_body u = recorded_body env d cs \<and> cu_size u = bytes_of cs"

lemma take_chunk_open:
  "open_stream env d held cs st \<Longrightarrow> open_stream env d held (cs @ [b]) (take_chunk env now b st)"
  by (cases "decode_pieces env d (capped env 0 cs)"; cases "se_decode env (st_decoder st) b")
    (auto simp: open_stream_def take_chunk_def tell_def capped_snoc decode_pieces_snoc Let_def split: option.splits)

lemma take_chunk_frame [simp]:
  "listening (take_chunk env now b st) = listening st"
  "st_broken (take_chunk env now b st) = st_broken st"
  "st_client (take_chunk env now b st) = st_client st @ [b]"
  by (auto simp: listening_def take_chunk_def tell_def Let_def split: option.splits prod.splits)

lemma take_chunk_closed:
  "closed_stream u held st \<Longrightarrow> closed_stream u held (take_chunk env now b st)"
  by (auto simp: closed_stream_def take_chunk_def tell_def Let_def split: option.splits prod.splits)

lemmas closing_ops = flush_capture_def return_permit_def on_abort_def tell_def

lemma closing_ops_frame [simp]:
  "st_client (flush_capture env now st) = st_client st" "st_client (return_permit st) = st_client st"
  "st_client (on_abort env now st) = st_client st"
  "st_broken (flush_capture env now st) = st_broken st" "st_broken (return_permit st) = st_broken st"
  "st_broken (on_abort env now st) = st_broken st"
  by (simp_all add: closing_ops Let_def)

lemma stream_step_closed: "closed_stream u held st \<Longrightarrow> closed_stream u held (stream_step env e st)"
  by (cases e) (auto simp: take_chunk_closed, auto simp: closed_stream_def closing_ops Let_def)

lemma closed_run: "closed_stream u held st \<Longrightarrow> closed_stream u held (fold (stream_step env) evs st)"
  by (induction evs arbitrary: st) (simp_all add: stream_step_closed)

text \<open>The client gets what the upstream delivers, in every state.\<close>

lemma client_gets:
  "st_client (fold (stream_step env) evs st) = st_client st @ (if st_broken st then [] else sent_on evs)"
proof (induction evs arbitrary: st)
  case (Cons e evs)
  have "st_client (stream_step env e st) = st_client st @
      (if st_broken st then [] else case chunk_of e of None \<Rightarrow> [] | Some b \<Rightarrow> [b])"
    "st_broken (stream_step env e st) = (st_broken st \<or> e = Upstream_Fails)"
    by (cases e; simp add: Let_def)+
  then show ?case using Cons.IH [of "stream_step env e st"] by auto
qed simp

lemma flush_records:
  assumes "open_stream env d held cs st"
  obtains u where "records env d cs u"
    "st_effects (flush_capture env now st) = st_effects st @ Queue_Capture u # map Record_Incident
       (maybe_upstream_incident (se_parse env) (se_status env) (Some FromUpstream) False (Some (cu_body u)))"
proof (rule that)
  let ?u = "capture_update_of env now (recorded_body env d cs) (bytes_of cs) (st_timed st)"
  show "records env d cs ?u" by (simp add: records_def capture_update_of_def Let_def)
  show "st_effects (flush_capture env now st) = st_effects st @ Queue_Capture ?u # map Record_Incident
       (maybe_upstream_incident (se_parse env) (se_status env) (Some FromUpstream) False (Some (cu_body ?u)))"
    using assms
    by (cases "decode_pieces env d (capped env 0 cs)")
      (simp add: open_stream_def flush_capture_def tell_def recorded_body_def capture_update_of_def Let_def)
qed

lemma open_stream_flags [simp]:
  "open_stream env d held cs (st\<lparr>st_client_listening := a\<rparr>) = open_stream env d held cs st"
  "open_stream env d held cs (st\<lparr>st_upstream_listening := a\<rparr>) = open_stream env d held cs st"
  "open_stream env d held cs (st\<lparr>st_client_aborted := a\<rparr>) = open_stream env d held cs st"
  "open_stream env d held cs (st\<lparr>st_broken := a\<rparr>) = open_stream env d held cs st"
  by (simp_all add: open_stream_def)

lemma closed_stream_flags [simp]:
  "closed_stream u held (st\<lparr>st_client_listening := a\<rparr>) = closed_stream u held st"
  "closed_stream u held (st\<lparr>st_upstream_listening := a\<rparr>) = closed_stream u held st"
  by (simp_all add: closed_stream_def)

lemma return_permit_flags [simp]:
  "return_permit (st\<lparr>st_client_listening := a\<rparr>) = (return_permit st)\<lparr>st_client_listening := a\<rparr>"
  "return_permit (st\<lparr>st_upstream_listening := a\<rparr>) = (return_permit st)\<lparr>st_upstream_listening := a\<rparr>"
  by (simp_all add: return_permit_def tell_def)

lemma flush_closes:
  assumes "open_stream env d held cs st"
  shows "\<exists>u. records env d cs u \<and> closed_stream u held (return_permit (flush_capture env now st))"
proof -
  obtain u where u: "records env d cs u"
    "st_effects (flush_capture env now st) = st_effects st @ Queue_Capture u # map Record_Incident
       (maybe_upstream_incident (se_parse env) (se_status env) (Some FromUpstream) False (Some (cu_body u)))"
    by (rule flush_records [OF assms])
  have "st_flushed (flush_capture env now st)" "st_released (flush_capture env now st) = (\<not> held)"
    using assms by (auto simp: flush_capture_def open_stream_def tell_def Let_def)
  then have "closed_stream u held (return_permit (flush_capture env now st))"
    using assms u(2) by (simp add: closed_stream_def return_permit_def tell_def open_stream_def)
  then show ?thesis using u(1) by blast
qed

lemma abort_closes:
  assumes "open_stream env d True cs st"
  shows "\<exists>u. records env d cs u \<and> closed_stream u True (on_abort env now st)"
proof -
  obtain u where u: "records env d cs u" "closed_stream u True (return_permit (flush_capture env now st))"
    using flush_closes [OF assms] by blast
  moreover have "client_rows (st_effects (return_permit (flush_capture env now st))) = 0"
    using assms by (simp add: return_permit_def flush_capture_def tell_def open_stream_def Let_def)
  ultimately have "closed_stream u True (on_abort env now st)"
    using assms by (simp add: on_abort_def open_stream_def closed_stream_def tell_def Let_def)
  then show ?thesis using u(1) by blast
qed

text \<open>Without its permit an open stream ignores every abort and the watchdog.\<close>

lemma unheld_step:
  assumes "open_stream env d False cs st" and "chunk_of e = None" and "\<And>now. e \<noteq> Stream_End now"
  shows "open_stream env d False cs (stream_step env e st)"
    "st_broken (stream_step env e st) = (st_broken st \<or> e = Upstream_Fails)"
  using assms by (cases e; auto simp: on_abort_def open_stream_def Let_def)+

subsection \<open>Runs\<close>

lemma stream_run:
  "open_stream env d held cs st \<Longrightarrow> (if held then listening st else True) \<Longrightarrow>
   case until_close held (st_broken st) evs of
     None \<Rightarrow> \<exists>cs'. open_stream env d held cs' (fold (stream_step env) evs st)
   | Some seen \<Rightarrow> \<exists>u. records env d (cs @ seen) u \<and> closed_stream u held (fold (stream_step env) evs st)"
proof (induction evs arbitrary: cs st)
  case (Cons e evs)
  have close: "case until_close held (st_broken st) (e # evs) of
      None \<Rightarrow> \<exists>cs'. open_stream env d held cs' (fold (stream_step env) (e # evs) st)
    | Some seen \<Rightarrow> \<exists>u. records env d (cs @ seen) u \<and> closed_stream u held (fold (stream_step env) (e # evs) st)"
    if "until_close held (st_broken st) (e # evs) = Some []"
      "\<exists>u. records env d cs u \<and> closed_stream u held (stream_step env e st)"
    using that closed_run [where evs = evs and env = env] by fastforce
  note IH = Cons.IH [of cs "stream_step env e st"]
  show ?case
  proof (cases e)
    case (Chunk now b)
    show ?thesis
    proof (cases "st_broken st")
      case True
      then show ?thesis using Cons.IH [OF Cons.prems] by (auto simp: Chunk split: option.splits)
    next
      case False
      have "if held then listening (take_chunk env now b st) else True" using Cons.prems(2) by simp
      from Cons.IH [OF take_chunk_open [OF Cons.prems(1)] this] show ?thesis
        using False by (auto simp: Chunk split: option.splits)
    qed
  next
    case (Stream_End now)
    show ?thesis
    proof (cases "st_broken st")
      case True
      then show ?thesis using Cons.IH [OF Cons.prems] by (auto simp: Stream_End split: option.splits)
    next
      case False
      show ?thesis
        by (rule close) (use False flush_closes [OF Cons.prems(1), of now] in \<open>simp_all add: Stream_End\<close>)
    qed
  next
    case Upstream_Fails
    have "open_stream env d held cs (stream_step env e st)"
      "if held then listening (stream_step env e st) else True"
      using Cons.prems by (auto simp: Upstream_Fails listening_def split: if_splits)
    from IH [OF this] show ?thesis by (auto simp: Upstream_Fails split: option.splits)
  next
    case (Client_Aborts now)
    show ?thesis
    proof (cases held)
      case True
      have "open_stream env d True cs (st\<lparr>st_client_aborted := True, st_client_listening := False\<rparr>)"
        using Cons.prems(1) True by simp
      from abort_closes [OF this, of now] show ?thesis
        by (intro close) (use Cons.prems(2) True in \<open>simp_all add: Client_Aborts listening_def Let_def\<close>)
    next
      case False
      then show ?thesis
        using IH unheld_step [of env d cs st e] Cons.prems by (auto simp: Client_Aborts simp del: stream_step.simps split: option.splits)
    qed
  next
    case (Upstream_Aborts now)
    show ?thesis
    proof (cases held)
      case True
      have "open_stream env d True cs (st\<lparr>st_upstream_listening := False\<rparr>)" using Cons.prems(1) True by simp
      from abort_closes [OF this, of now] show ?thesis
        by (intro close) (use Cons.prems(2) True in \<open>simp_all add: Upstream_Aborts listening_def\<close>)
    next
      case False
      then show ?thesis
        using IH unheld_step [of env d cs st e] Cons.prems by (auto simp: Upstream_Aborts simp del: stream_step.simps split: option.splits)
    qed
  next
    case (Watchdog_Fires now)
    show ?thesis
    proof (cases held)
      case True
      show ?thesis
        by (rule close) (use True flush_closes [OF Cons.prems(1), of now] Cons.prems(1)
          in \<open>simp_all add: Watchdog_Fires open_stream_def\<close>)
    next
      case False
      then show ?thesis
        using IH unheld_step [of env d cs st e] Cons.prems by (auto simp: Watchdog_Fires simp del: stream_step.simps split: option.splits)
    qed
  qed
qed auto

lemma new_stream_open: "open_stream env d held [] (new_stream d held ca)"
  by (simp add: open_stream_def new_stream_def)

text \<open>A whole stream: what it has queued and returned is decided by what closed it.\<close>

lemma stream_outcome:
  fixes env :: "'d stream_env"
  assumes st_def: "st = fold (stream_step env) evs (start_stream env now d held ca ua)"
  shows "case closed_with held ca ua evs of
      None \<Rightarrow> closing (st_effects st) = [] \<and> client_rows (st_effects st) = 0
    | Some seen \<Rightarrow> \<exists>u. records env d seen u \<and> closed_stream u held st"
proof -
  let ?st = "start_stream env now d held ca ua"
  have op: "open_stream env d held [] (new_stream d held ca)" by (rule new_stream_open)
  show ?thesis
  proof (cases "ca \<or> ua \<and> held")
    case True
    have "\<exists>u. records env d [] u \<and> closed_stream u held ?st"
    proof (cases ca)
      case True
      then show ?thesis
        using flush_closes [OF op, of now]
        by (auto simp: start_stream_def on_abort_def closed_stream_def Let_def)
    next
      case False
      then show ?thesis
        using True abort_closes [of env d "[]" "(new_stream d held ca)\<lparr>st_client_listening := True\<rparr>" now] op
        by (simp add: start_stream_def Let_def)
    qed
    then show ?thesis using True closed_run [where evs = evs and env = env] by (fastforce simp: closed_with_def st_def)
  next
    case False
    have "open_stream env d held [] ?st" "if held then listening ?st else True" "\<not> st_broken ?st"
      using False op
      by (auto simp: start_stream_def on_abort_def listening_def new_stream_def open_stream_def Let_def)
    with stream_run [where evs = evs, OF this(1,2)] False show ?thesis
      by (auto simp: closed_with_def st_def open_stream_def split: option.splits)
  qed
qed

text \<open>
  C36: A stream is closed at most once, and by what. The client gets every chunk the upstream delivers, in
  order. A stream found aborted at its start with the permit in hand, or with the client gone, closes
  there; otherwise the regular end closes it, or, as long as it holds its permit, the first abort or the
  permit watchdog. Closing queues the capture exactly once, with the size of the chunks that came before and their text
  decoded one by one as far as the cap allows, and then returns the permit exactly once if the
  watchdog had not returned it before; nothing is queued or returned otherwise. In particular an
  error of the upstream body closes nothing, and a stream whose permit was returned before it started
  is left without its capture when the client aborts. At most one row blames the client.
\<close>

theorem stream_closes_once:
  "let st = fold (stream_step env) evs (start_stream env now d held ca ua)
   in st_client st = sent_on evs \<and> client_rows (st_effects st) \<le> 1 \<and>
      (case (if ca \<or> ua \<and> held then Some [] else until_close held False evs) of
         None \<Rightarrow> closing (st_effects st) = []
       | Some seen \<Rightarrow>
           (\<exists>u. closing (st_effects st) = Queue_Capture u # (if held then [Return_Permit] else []) \<and>
              cu_body u = recorded_body env d seen \<and> cu_size u = bytes_of seen))"
proof -
  let ?st = "start_stream env now d held ca ua"
  have new: "st_client ?st = []" "\<not> st_broken ?st"
    by (simp_all add: start_stream_def new_stream_def Let_def)
  show ?thesis
    using stream_outcome [OF refl, where held = held and ca = ca and ua = ua and evs = evs and env = env and now = now and d = d] new
    by (auto simp: client_gets closed_with_def closed_stream_def records_def Let_def split: option.splits)
qed

end
