(* ===== verification/Admission_Props.thy ===== *)
theory Admission_Props
  imports Stamp_Props Proxy_Admission Stream_Props Ladder_Props
begin

text \<open>
  The whole way of a request: every captured request whose stream is closed is booked once and gives
  its permit back once, on every path; and the headers sent upstream carry no hop-by-hop header and never offer a
  compression.
\<close>

subsection \<open>Headers\<close>

lemma obj_set_filter_fresh: "obj_get d k = None \<Longrightarrow> obj_set d k v = d @ [(k, v)]"
  by (induction d) (auto split: if_splits prod.splits)

lemma obj_get_filter:
  "obj_get (filter (\<lambda>(k, v). P k) d) k = (if P k then obj_get d k else None)"
  by (induction d) (auto split: if_splits)

text \<open>
  The headers sent upstream. Nothing hop-by-hop and no host is forwarded, no compression is offered,
  a stamped request carries the two Anthropic headers of the stamp, and every other header,
  the credentials included, reaches the upstream with the value it came with.
\<close>

theorem forwarded_headers:
  "obj_get (forward_headers stampBeta raw) k =
     (if stampBeta \<and> k = ''anthropic-beta'' then Some STAMP_ANTHROPIC_BETA_HEADER
      else if stampBeta \<and> k = ''anthropic-version'' then Some ''2023-06-01''
      else if k = ''accept-encoding'' then Some ''identity''
      else if k \<in> set HOP then None else obj_get raw k)"
proof -
  have "obj_get (obj_set (filter (\<lambda>(k, v). k \<notin> set HOP) raw) ''accept-encoding'' ''identity'') k =
      (if k = ''accept-encoding'' then Some ''identity'' else if k \<in> set HOP then None else obj_get raw k)"
    using obj_get_filter [of "\<lambda>k. k \<notin> set HOP" raw k] by (simp add: obj_get_set)
  moreover have "obj_get (filter (\<lambda>(k, v). k \<noteq> ''anthropic-beta'' \<and> k \<noteq> ''anthropic-version'') d) k =
      (if k \<noteq> ''anthropic-beta'' \<and> k \<noteq> ''anthropic-version'' then obj_get d k else None)" for d :: "string obj"
    by (rule obj_get_filter)
  ultimately show ?thesis by (auto simp: forward_headers_def Let_def)
qed

subsection \<open>Counting\<close>

definition bookings :: "proxy_effect list \<Rightarrow> nat" where
  "bookings es = length (filter (\<lambda>e. case e of
     Gate_Update _ \<Rightarrow> True | Empty_Body_Update _ \<Rightarrow> True | Of_Ladder (Queue_Update _ _ _ _ _) \<Rightarrow> True
   | Of_Stream (Queue_Capture _) \<Rightarrow> True | _ \<Rightarrow> False) es)"

definition taken :: "proxy_effect list \<Rightarrow> nat" where
  "taken es = length (filter (\<lambda>e. e = Take_Permit) es)"

definition given_back :: "proxy_effect list \<Rightarrow> nat" where
  "given_back es = length (filter (\<lambda>e. e = Give_Permit \<or> e = Of_Stream Return_Permit) es)"

lemma bookings_simps [simp]:
  "bookings [] = 0" "bookings (es @ fs) = bookings es + bookings fs"
  "bookings (Insert_Capture # es) = bookings es" "bookings (Mark_Streaming # es) = bookings es"
  "bookings (Take_Permit # es) = bookings es" "bookings (Give_Permit # es) = bookings es"
  "bookings (Gate_Update u # es) = Suc (bookings es)" "bookings (Gate_Incident r # es) = bookings es"
  "bookings (Empty_Body_Update s # es) = Suc (bookings es)"
  "bookings (map Gate_Incident rs) = 0"
  by (auto simp: bookings_def filter_empty_conv)

lemma bookings_ladder [simp]: "bookings (map Of_Ladder es) = length (updates es)"
  by (induction es) (auto simp: bookings_def updates_def List.map_filter_def split: effect.splits)

lemma bookings_stream [simp]:
  "bookings (map Of_Stream es) =
     length (filter (\<lambda>e. case e of Queue_Capture _ \<Rightarrow> True | _ \<Rightarrow> False) (closing es))"
  by (induction es) (auto simp: bookings_def closing_def split: stream_effect.splits)

lemma taken_simps [simp]:
  "taken [] = 0" "taken (es @ fs) = taken es + taken fs" "taken (Take_Permit # es) = Suc (taken es)"
  "taken (Insert_Capture # es) = taken es" "taken (Mark_Streaming # es) = taken es"
  "taken (Give_Permit # es) = taken es" "taken (Gate_Update u # es) = taken es"
  "taken (Gate_Incident r # es) = taken es" "taken (Empty_Body_Update s # es) = taken es"
  "taken (map Gate_Incident rs) = 0" "taken (map Of_Ladder ls) = 0" "taken (map Of_Stream ss) = 0"
  by (auto simp: taken_def filter_empty_conv)

lemma given_back_simps [simp]:
  "given_back [] = 0" "given_back (es @ fs) = given_back es + given_back fs"
  "given_back (Give_Permit # es) = Suc (given_back es)"
  "given_back (Take_Permit # es) = given_back es"
  "given_back (Insert_Capture # es) = given_back es" "given_back (Mark_Streaming # es) = given_back es"
  "given_back (Gate_Update u # es) = given_back es" "given_back (Gate_Incident r # es) = given_back es"
  "given_back (Empty_Body_Update s # es) = given_back es"
  "given_back (map Gate_Incident rs) = 0" "given_back (map Of_Ladder ls) = 0"
  by (auto simp: given_back_def filter_empty_conv)

lemma given_back_stream [simp]:
  "given_back (map Of_Stream es) = length (filter (\<lambda>e. e = Return_Permit) (closing es))"
  by (induction es) (auto simp: given_back_def closing_def split: stream_effect.splits)

subsection \<open>Forwarding\<close>

text \<open>
  Nothing has closed the stream of an observation yet: it is still going, its body has failed with the
  permit in hand, or its permit was returned before it started and it has not ended regularly.
\<close>

definition left_open :: "bool \<Rightarrow> 'd forwarding \<Rightarrow> bool" where
  "left_open held fw =
     (case fw of Attempts obs env d now ca ua evs \<Rightarrow> closed_with held ca ua evs = None | _ \<Rightarrow> False)"

fun booked_before_throw :: "'d forwarding \<Rightarrow> nat" where
  "booked_before_throw (Throws es m) = length (updates es)"
| "booked_before_throw _ = 0"

lemma stream_counts:
  fixes env :: "'d stream_env"
  assumes "es = st_effects (fold (stream_step env) evs (start_stream env now d held ca ua))"
  shows "if closed_with held ca ua evs = None then closing es = []
    else \<exists>u. closing es = Queue_Capture u # (if held then [Return_Permit] else [])"
  using stream_outcome [OF refl, where held = held and ca = ca and ua = ua and evs = evs and env = env and now = now and d = d] assms
  by (auto simp: closed_stream_def split: option.splits)

lemma forward_counts:
  assumes "forward_upstream num_text lcfg lrq held fw = Some (answer, es, streaming)"
  shows "taken es = 0 \<and>
    (if streaming \<and> left_open held fw then bookings es = 0 \<and> given_back es = 0
     else bookings es = Suc (booked_before_throw fw) \<and> given_back es = (if streaming \<and> held then 1 else 0))"
proof (cases fw)
  case (Throws ls m)
  then show ?thesis using assms by (auto simp: forward_upstream_def internal_error_def)
next
  case (Attempts obs env d now ca ua evs)
  obtain t where t: "ladder_loop lcfg lrq obs new_ladder = Some t"
    using assms Attempts by (cases "ladder_loop lcfg lrq obs new_ladder") (auto simp: forward_upstream_def)
  note cl = ladder_loop_closed [OF books_new, of lcfg lrq obs, unfolded t, simplified]
  show ?thesis
  proof (cases t)
    case (Continue st)
    then show ?thesis using assms Attempts t by (simp add: forward_upstream_def)
  next
    case (Respond status h st)
    then show ?thesis using assms Attempts t cl by (auto simp: forward_upstream_def closed_def)
  next
    case (Fail m st)
    then show ?thesis using assms Attempts t cl by (auto simp: forward_upstream_def internal_error_def closed_def)
  next
    case (Stream resp h st)
    then have "updates (ld_effects st) = []" using cl by (auto simp: closed_def)
    then show ?thesis
      using assms Attempts t Stream
        stream_counts [OF refl, where env = env and evs = evs and now = now and d = d and ca = ca and ua = ua and held = held]
      by (auto simp: forward_upstream_def left_open_def split: if_splits)
  qed
qed

lemma forward_no_insert:
  "forward_upstream num_text lcfg lrq held fw = Some (answer, es, streaming) \<Longrightarrow> Insert_Capture \<notin> set es"
  by (auto simp: forward_upstream_def internal_error_def split: forwarding.splits option.splits turn.splits if_splits)

lemma refusal_counts:
  "bookings (snd (limit_refusal num_text r)) = 1" "taken (snd (limit_refusal num_text r)) = 0"
  "given_back (snd (limit_refusal num_text r)) = 0" "bookings (snd (gate_refusal num_text e)) = 1"
  "taken (snd (gate_refusal num_text e)) = 0" "given_back (snd (gate_refusal num_text e)) = 0"
  by (simp_all add: limit_refusal_def gate_refusal_def Let_def case_prod_unfold)

lemma limit_check_refuses:
  assumes "check_rate_limit num_text cfg w weight now limiter = (Some r, limiter')"
  obtains s where "r = limit_refusal num_text s"
  using assms that
  by (auto simp: check_rate_limit_def local_limit_def case_prod_unfold Let_def split: option.splits if_splits)

text \<open>
  C35: Every request is booked once and gives its permit back once. A client that left before its body
  was read leaves nothing behind. Every other request gets exactly one capture row and takes at most
  one permit. Unless it is a streamed one whose stream nothing has closed, it then has exactly one
  final update and exactly as many returned permits as taken ones. A stream that nothing has closed
  has no final update, and its permit is out except where the watchdog returned it before the
  response was there. Only an exception after an update can book a request twice.
\<close>

theorem requests_settle:
  assumes "handle_proxy decode parse num_text cfg ctx lcfg lrq rq obs limiter = Some (answer, es, limiter')"
  shows "if rq_aborted rq then es = []
    else (\<exists>tail. es = Insert_Capture # tail \<and> Insert_Capture \<notin> set tail) \<and> taken es \<le> 1 \<and>
      (if taken es = 1 \<and> bookings es = 0
       then left_open (\<not> ob_watchdog obs) (ob_forwarding obs) \<and>
            given_back es = (if ob_watchdog obs then 1 else 0)
       else given_back es = taken es \<and>
            bookings es = (if taken es = 1 then Suc (booked_before_throw (ob_forwarding obs)) else 1))"
proof (cases "parse_inbound decode parse num_text cfg ctx rq")
  case None
  then show ?thesis using assms by (auto simp: handle_proxy_def parse_inbound_def Let_def split: if_splits)
next
  case (Some inb)
  then have there: "\<not> rq_aborted rq" by (auto simp: parse_inbound_def Let_def split: if_splits)
  obtain r limiter1 where limit: "check_rate_limit num_text cfg (ob_window obs) (ob_weight obs) (ob_now obs) limiter
      = (r, limiter1)" by fastforce
  show ?thesis
  proof (cases r)
    case (Some a)
    then obtain s where "a = limit_refusal num_text s" using limit limit_check_refuses by metis
    then show ?thesis
      using assms \<open>parse_inbound _ _ _ _ _ _ = Some inb\<close> limit Some there refusal_counts(1-3) [of num_text s]
      by (auto simp: handle_proxy_def case_prod_unfold limit_refusal_def Let_def)
  next
    case None
    show ?thesis
    proof (cases "ob_settlement obs")
      case (Rejected e)
      then show ?thesis
        using assms \<open>parse_inbound _ _ _ _ _ _ = Some inb\<close> limit None there refusal_counts(4-6) [of num_text e]
        by (auto simp: handle_proxy_def case_prod_unfold gate_refusal_def Let_def)
    next
      case Acquired
      obtain a fs streaming where fw: "forward_upstream num_text lcfg lrq (\<not> ob_watchdog obs) (ob_forwarding obs) =
          Some (a, fs, streaming)"
        and es: "es = Insert_Capture # Mark_Streaming # Take_Permit #
          (if ob_watchdog obs then [Give_Permit] else []) @ fs @
          (if streaming \<or> ob_watchdog obs then [] else [Give_Permit])"
        using assms \<open>parse_inbound _ _ _ _ _ _ = Some inb\<close> limit None Acquired
        by (auto simp: handle_proxy_def split: option.splits)
      have "Insert_Capture \<notin> set fs" using fw by (rule forward_no_insert)
      then show ?thesis using there forward_counts [OF fw] by (auto simp: es split: if_splits)
    qed
  qed
qed

definition demo_streaming :: "bool observed" where
  "demo_streaming =
     \<lparr>ob_window = None, ob_weight = 1, ob_now = 0, ob_settlement = Acquired, ob_watchdog = False,
      ob_forwarding = Attempts
        [\<lparr>ob_fetch = Inr \<lparr>rs_status = 200, rs_headers = [], rs_sse = False, rs_has_body = True\<rparr>,
          ob_fetch_watch = \<lparr>w_client_aborted = False, w_ttft_aborted = False, w_stats = None\<rparr>,
          ob_overload_error = None, ob_overloaded = False, ob_rewrite = None, ob_read = None,
          ob_read_watch = \<lparr>w_client_aborted = False, w_ttft_aborted = False, w_stats = None\<rparr>,
          ob_final_stats = None\<rparr>]
        \<lparr>se_cap = 0, se_openai = False, se_sse = False, se_status = 200, se_started_at = 0,
         se_request_body = ''{}'', se_parse = (\<lambda>_. None), se_decode = (\<lambda>d b. (Some (map char_of b), d)),
         se_finish = (\<lambda>_. None)\<rparr>
        True 1 False False [Chunk 2 [104, 105], Client_Aborts 3, Stream_End 4]\<rparr>"

definition demo_post :: inbound_request where
  "demo_post =
     \<lparr>rq_method = ''POST'', rq_url = \<lparr>uv_pathname = ''/v1/messages'', uv_search = [], uv_beta = None\<rparr>,
      rq_headers = [(''host'', ''localhost'')], rq_bytes = [123, 125], rq_aborted = False\<rparr>"

definition demo_proxy_config :: proxy_config where
  "demo_proxy_config =
     \<lparr>pc_target = ''https://up'', pc_openai_path = ''/v1/chat/completions'', pc_claude_code = False,
      pc_margin = Fin 0, pc_use_hard_cap = False, pc_never_limit = True\<rparr>"

text \<open>A client that leaves in the middle of a stream: one update, and the permit comes back.\<close>

theorem requests_settle_witness:
  "\<exists>answer es limiter'.
     handle_proxy (\<lambda>b. Some (map char_of b)) (\<lambda>_. None) (\<lambda>_. []) demo_proxy_config demo_ctx demo_ladder_config
       \<lparr>lq_experiment = False, lq_session = False\<rparr> demo_post demo_streaming None = Some (answer, es, limiter') \<and>
     bookings es = 1 \<and> taken es = 1 \<and> given_back es = 1"
proof -
  let ?run = "handle_proxy (\<lambda>b. Some (map char_of b)) (\<lambda>_. None) (\<lambda>_. []) demo_proxy_config demo_ctx demo_ladder_config
       \<lparr>lq_experiment = False, lq_session = False\<rparr> demo_post demo_streaming None"
  obtain inb where inb: "parse_inbound (\<lambda>b. Some (map char_of b)) (\<lambda>_. None) (\<lambda>_. []) demo_proxy_config demo_ctx
      demo_post = Some inb" by (auto simp: parse_inbound_def demo_post_def Let_def)
  have never: "pc_never_limit demo_proxy_config" by (simp add: demo_proxy_config_def)
  have "\<exists>answer es limiter'. ?run = Some (answer, es, limiter') \<and> taken es = 1"
    by (simp add: handle_proxy_def inb check_rate_limit_def local_limit_def demo_streaming_def never
        forward_upstream_def ladder_turn_def new_ladder_def read_first_chunk_def rewrite_on_overload_def
        demo_ladder_config_def Let_def)
  then obtain answer es limiter' where run: "?run = Some (answer, es, limiter')" and "taken es = 1" by blast
  moreover have "\<not> left_open (\<not> ob_watchdog demo_streaming) (ob_forwarding demo_streaming)"
    "booked_before_throw (ob_forwarding demo_streaming) = 0" "\<not> rq_aborted demo_post"
    by (simp_all add: demo_streaming_def left_open_def closed_with_def demo_post_def)
  ultimately show ?thesis using requests_settle [OF run] by (auto split: if_splits)
qed

end
