(* ===== verification/Id_Rewrite.thy ===== *)
theory Id_Rewrite
  imports Proxy_Stream Json_Text
begin

text \<open>
  The id rewriting experiment (\<open>src/experiments/rewrite-ids.ts\<close>), its tables (\<open>src/db.ts\<close>) and the retry
  that uses it (\<open>attemptRewriteRetry\<close> in \<open>src/proxy.ts\<close>). The hash is an argument, the hexadecimal SHA-256
  of the concatenated parts; so are the salts the code draws at random and what the fetch returns.
  The foreign key of the mappings is enforced: \<open>None\<close> is the exception of a violating insert.
\<close>

subsection \<open>Tables\<close>

record rewrite_session =
  ws_harness :: string
  ws_salt :: string
  ws_version :: nat
  ws_first_seen :: int
  ws_last_502 :: int
  ws_consecutive :: nat
  ws_expires :: int
  ws_request_size :: "nat option"
  ws_error_body :: "string option"

record rewrite_mapping =
  wm_session :: string
  wm_version :: nat
  wm_original :: string
  wm_rewritten :: string
  wm_type :: string

record rewrite_audit =
  wa_capture :: nat
  wa_session :: string
  wa_at :: int
  wa_version :: nat
  wa_fields :: "string list"
  wa_count :: nat

record rewrite_db =
  rw_sessions :: "rewrite_session obj"
  rw_mappings :: "rewrite_mapping list"
  rw_audits :: "rewrite_audit list"

definition record_rewrite_session ::
  "int \<Rightarrow> string \<Rightarrow> string \<Rightarrow> string \<Rightarrow> int \<Rightarrow> nat option \<Rightarrow> string option \<Rightarrow> rewrite_db \<Rightarrow> rewrite_db" where
  "record_rewrite_session now sessionId harness salt ttlMs requestSize errorBody db =
     db\<lparr>rw_sessions := obj_set (rw_sessions db) sessionId
          (case obj_get (rw_sessions db) sessionId of
             Some s \<Rightarrow> s\<lparr>ws_last_502 := now, ws_consecutive := ws_consecutive s + 1,
                         ws_request_size := requestSize, ws_error_body := errorBody\<rparr>
           | None \<Rightarrow> \<lparr>ws_harness = harness, ws_salt = salt, ws_version = 1, ws_first_seen = now,
                      ws_last_502 = now, ws_consecutive = 1, ws_expires = now + ttlMs,
                      ws_request_size = requestSize, ws_error_body = errorBody\<rparr>)\<rparr>"

definition get_rewrite_session :: "string \<Rightarrow> rewrite_db \<Rightarrow> rewrite_session option" where
  "get_rewrite_session sessionId db = obj_get (rw_sessions db) sessionId"

definition escalate_rewrite_salt :: "int \<Rightarrow> string \<Rightarrow> string \<Rightarrow> rewrite_db \<Rightarrow> rewrite_db" where
  "escalate_rewrite_salt now sessionId newSalt db =
     (case obj_get (rw_sessions db) sessionId of
        Some s \<Rightarrow> db\<lparr>rw_sessions := obj_set (rw_sessions db) sessionId
                      (s\<lparr>ws_salt := newSalt, ws_version := ws_version s + 1, ws_last_502 := now\<rparr>)\<rparr>
      | None \<Rightarrow> db)"

definition clear_rewrite_session :: "string \<Rightarrow> rewrite_db \<Rightarrow> rewrite_db" where
  "clear_rewrite_session sessionId db =
     db\<lparr>rw_mappings := filter (\<lambda>m. wm_session m \<noteq> sessionId) (rw_mappings db),
        rw_sessions := obj_del (rw_sessions db) sessionId\<rparr>"

definition mapping_key :: "rewrite_mapping \<Rightarrow> string \<times> string \<times> string \<times> nat" where
  "mapping_key m = (wm_session m, wm_original m, wm_type m, wm_version m)"

definition get_rewrite_mapping :: "string \<times> string \<times> string \<times> nat \<Rightarrow> rewrite_db \<Rightarrow> string option" where
  "get_rewrite_mapping key db = map_option wm_rewritten (find (\<lambda>m. mapping_key m = key) (rw_mappings db))"

text \<open>\<open>INSERT OR IGNORE\<close>: a row with the same key stays.\<close>

definition set_rewrite_mapping :: "rewrite_mapping \<Rightarrow> rewrite_db \<Rightarrow> rewrite_db option" where
  "set_rewrite_mapping m db =
     (if mapping_key m \<in> set (map mapping_key (rw_mappings db)) then Some db
      else if obj_get (rw_sessions db) (wm_session m) = None then None
      else Some (db\<lparr>rw_mappings := rw_mappings db @ [m]\<rparr>))"

definition prune_expired_sessions :: "int \<Rightarrow> rewrite_db \<Rightarrow> nat \<times> rewrite_db" where
  "prune_expired_sessions now db =
     (let expired = map fst (filter (\<lambda>(k, s). ws_expires s < now) (rw_sessions db))
      in (length expired,
          db\<lparr>rw_mappings := filter (\<lambda>m. wm_session m \<notin> set expired) (rw_mappings db),
             rw_sessions := filter (\<lambda>(k, s). \<not> ws_expires s < now) (rw_sessions db)\<rparr>))"

subsection \<open>Ids in a text\<close>

definition is_alnum :: "char \<Rightarrow> bool" where
  "is_alnum c =
     (let n = of_char c :: nat in (48 \<le> n \<and> n \<le> 57) \<or> (65 \<le> n \<and> n \<le> 90) \<or> (97 \<le> n \<and> n \<le> 122))"

text \<open>The length of a tool use id at the start of the text.\<close>

definition id_at :: "string \<Rightarrow> nat option" where
  "id_at s =
     (let ok = (\<lambda>p. starts_with s p \<and> length (takeWhile is_alnum (drop (length p) s)) \<ge> 24)
      in if ok ''call_'' then Some 29 else if ok ''toolu_'' then Some 30 else None)"

function scan_ids :: "string \<Rightarrow> string list" where
  "scan_ids s =
     (if s = [] then []
      else case id_at s of Some n \<Rightarrow> take n s # scan_ids (drop n s) | None \<Rightarrow> scan_ids (tl s))"
  by pat_completeness auto
termination
  by (relation "measure length") (auto simp: id_at_def Let_def neq_Nil_conv split: if_splits)

declare scan_ids.simps [simp del]

text \<open>A set keeps the first of equal members.\<close>

definition members_in_order :: "'a list \<Rightarrow> 'a list" where
  "members_in_order xs = rev (remdups (rev xs))"

text \<open>\<open>text.split(a).join(b)\<close> for a non-empty \<open>a\<close>.\<close>

function replace_every :: "string \<Rightarrow> string \<Rightarrow> string \<Rightarrow> string" where
  "replace_every a b s =
     (if s = [] then []
      else if a \<noteq> [] \<and> starts_with s a then b @ replace_every a b (drop (length a) s)
      else hd s # replace_every a b (tl s))"
  by pat_completeness auto
termination
  by (relation "measure (\<lambda>(a, b, s). length s)") (auto simp: neq_Nil_conv)

declare replace_every.simps [simp del]

definition extract_prefix :: "string \<Rightarrow> string" where
  "extract_prefix i =
     (if starts_with i ''call_'' then ''call'' else if starts_with i ''toolu_'' then ''toolu'' else ''call'')"

definition deterministic_rewrite :: "(string \<Rightarrow> string) \<Rightarrow> string \<Rightarrow> string \<Rightarrow> nat \<Rightarrow> string \<Rightarrow> string" where
  "deterministic_rewrite hash originalId salt version kind =
     kind @ ''_'' @ take 24 (hash (salt @ digits_of version @ originalId))"

subsection \<open>Sessions\<close>

datatype harness = Opencode | Claude_Code | Unknown_Harness

definition harness_text :: "harness \<Rightarrow> string" where
  "harness_text h = (case h of Opencode \<Rightarrow> ''opencode'' | Claude_Code \<Rightarrow> ''claude-code''
     | Unknown_Harness \<Rightarrow> ''unknown'')"

definition detect_harness :: "string obj \<Rightarrow> harness" where
  "detect_harness headers =
     (let ua = to_lower (case obj_get headers ''user-agent'' of Some s \<Rightarrow> s | None \<Rightarrow> [])
      in if js_includes ua ''opencode'' then Opencode
         else if js_includes ua ''claude-code'' \<or> js_includes ua ''claude code'' then Claude_Code
         else Unknown_Harness)"

definition is_session_id :: "string \<Rightarrow> bool" where
  "is_session_id s = (starts_with s ''ses_'' \<and> length (drop 4 s) \<ge> 16 \<and> list_all is_alnum (drop 4 s))"

definition session_header :: "string obj \<Rightarrow> string option" where
  "session_header headers =
     (case obj_get headers ''x-session-id'' of
        Some s \<Rightarrow> Some s | None \<Rightarrow> obj_get headers ''x-session-affinity'')"

definition extract_session_id :: "string obj \<Rightarrow> string option" where
  "extract_session_id headers =
     (case session_header headers of Some s \<Rightarrow> if is_session_id s then Some s else None | None \<Rightarrow> None)"

definition rewrite_eligible :: "harness \<Rightarrow> string option \<Rightarrow> bool" where
  "rewrite_eligible h sid = (h = Opencode \<and> sid \<noteq> None)"

record session_state =
  ss_salt :: string
  ss_version :: nat
  ss_consecutive :: nat

definition get_or_create_session ::
  "int \<Rightarrow> int \<Rightarrow> string \<Rightarrow> string \<Rightarrow> harness \<Rightarrow> nat option \<Rightarrow> string option \<Rightarrow> rewrite_db \<Rightarrow>
   session_state \<times> rewrite_db" where
  "get_or_create_session now ttlMs newSalt sessionId h requestSize errorBody db =
     (case get_rewrite_session sessionId db of
        Some s \<Rightarrow>
          if ws_expires s > now then
            (let db1 = record_rewrite_session now sessionId (harness_text h) (ws_salt s) ttlMs requestSize errorBody db
             in (\<lparr>ss_salt = ws_salt s, ss_version = ws_version s,
                  ss_consecutive = (case get_rewrite_session sessionId db1 of
                     Some u \<Rightarrow> ws_consecutive u | None \<Rightarrow> ws_consecutive s)\<rparr>, db1))
          else
            (\<lparr>ss_salt = newSalt, ss_version = 1, ss_consecutive = 1\<rparr>,
             record_rewrite_session now sessionId (harness_text h) newSalt ttlMs requestSize errorBody
               (clear_rewrite_session sessionId db))
      | None \<Rightarrow>
          (\<lparr>ss_salt = newSalt, ss_version = 1, ss_consecutive = 1\<rparr>,
           record_rewrite_session now sessionId (harness_text h) newSalt ttlMs requestSize errorBody db))"

definition escalate_session :: "int \<Rightarrow> int \<Rightarrow> string \<Rightarrow> string \<Rightarrow> rewrite_db \<Rightarrow> session_state \<times> rewrite_db" where
  "escalate_session now ttlMs newSalt sessionId db =
     (case get_rewrite_session sessionId db of
        None \<Rightarrow>
          (\<lparr>ss_salt = newSalt, ss_version = 1, ss_consecutive = 1\<rparr>,
           record_rewrite_session now sessionId ''opencode'' newSalt ttlMs None None db)
      | Some s \<Rightarrow>
          (let db1 = escalate_rewrite_salt now sessionId newSalt db
           in (\<lparr>ss_salt = newSalt,
                ss_version = (case get_rewrite_session sessionId db1 of Some u \<Rightarrow> ws_version u | None \<Rightarrow> ws_version s),
                ss_consecutive = (case get_rewrite_session sessionId db1 of
                  Some u \<Rightarrow> ws_consecutive u | None \<Rightarrow> ws_consecutive s)\<rparr>, db1)))"

definition should_escalate :: "nat \<Rightarrow> bool" where
  "should_escalate consecutive = (consecutive \<ge> 2 \<and> consecutive mod 2 = 0)"

subsection \<open>Rewriting\<close>

record rewrite_result =
  rr_rewritten :: bool
  rr_body :: string
  rr_fields :: "string list"
  rr_count :: nat

text \<open>One id of the body: its mapping, kept or made, and the replacement.\<close>

definition rewrite_one_id ::
  "(string \<Rightarrow> string) \<Rightarrow> string \<Rightarrow> session_state \<Rightarrow> string \<Rightarrow> string \<times> rewrite_db \<Rightarrow> (string \<times> rewrite_db) option" where
  "rewrite_one_id hash sessionId state originalId st =
     (let (text, db) = st;
          existing = get_rewrite_mapping (sessionId, originalId, ''tool_use_id'', ss_version state) db;
          rewritten = (case existing of
                         Some r \<Rightarrow> r
                       | None \<Rightarrow> deterministic_rewrite hash originalId (ss_salt state) (ss_version state)
                                   (extract_prefix originalId));
          m = \<lparr>wm_session = sessionId, wm_version = ss_version state, wm_original = originalId,
               wm_rewritten = rewritten, wm_type = ''tool_use_id''\<rparr>
      in case (if existing = None \<or> existing = Some [] then set_rewrite_mapping m db else Some db) of
           None \<Rightarrow> None
         | Some db' \<Rightarrow> Some (replace_every originalId rewritten text, db'))"

fun rewrite_ids ::
  "(string \<Rightarrow> string) \<Rightarrow> string \<Rightarrow> session_state \<Rightarrow> string list \<Rightarrow> string \<times> rewrite_db \<Rightarrow>
   (string \<times> rewrite_db) option" where
  "rewrite_ids hash sessionId state [] st = Some st"
| "rewrite_ids hash sessionId state (i # is) st =
     (case rewrite_one_id hash sessionId state i st of
        None \<Rightarrow> None | Some st' \<Rightarrow> rewrite_ids hash sessionId state is st')"

definition rewrite_body ::
  "(string \<Rightarrow> string) \<Rightarrow> string \<Rightarrow> string obj \<Rightarrow> string \<Rightarrow> session_state \<Rightarrow> rewrite_db \<Rightarrow>
   (rewrite_result \<times> rewrite_db) option" where
  "rewrite_body hash bodyText headers sessionId state db =
     (let ids = members_in_order (scan_ids bodyText);
          sidField = (case session_header headers of
                        Some sid \<Rightarrow> if sid \<noteq> [] \<and> sid = sessionId then [''x-session-id''] else []
                      | None \<Rightarrow> []);
          names = sidField @ (if ids = [] then [] else [''tool_use_ids''])
      in case rewrite_ids hash sessionId state ids (bodyText, db) of
           None \<Rightarrow> None
         | Some (text, db') \<Rightarrow>
             Some (\<lparr>rr_rewritten = (names \<noteq> []), rr_body = text, rr_fields = names, rr_count = length ids\<rparr>, db'))"

text \<open>The two session headers, rewritten to one mapped id.\<close>

definition rewrite_header ::
  "(string \<Rightarrow> string) \<Rightarrow> string \<Rightarrow> session_state \<Rightarrow> string \<Rightarrow>
   string obj \<times> string option \<times> rewrite_db \<Rightarrow> (string obj \<times> string option \<times> rewrite_db) option" where
  "rewrite_header hash sessionId state key st =
     (let (out, newId, db) = st
      in case obj_get out key of
           None \<Rightarrow> Some st
         | Some val \<Rightarrow>
             if val = [] \<or> val \<noteq> sessionId then Some st
             else (case newId of
                     Some n \<Rightarrow> Some (obj_set out key n, Some n, db)
                   | None \<Rightarrow>
                       (let mapped = get_rewrite_mapping (sessionId, val, ''session_id'', ss_version state) db;
                            fresh = deterministic_rewrite hash val (ss_salt state) (ss_version state) ''ses'';
                            n = (if mapped = None \<or> mapped = Some [] then fresh else the mapped)
                        in case (if mapped = None \<or> mapped = Some []
                                 then set_rewrite_mapping
                                   \<lparr>wm_session = sessionId, wm_version = ss_version state, wm_original = val,
                                    wm_rewritten = fresh, wm_type = ''session_id''\<rparr> db
                                 else Some db) of
                             None \<Rightarrow> None
                           | Some db' \<Rightarrow> Some (obj_set out key n, Some n, db'))))"

definition rewrite_headers ::
  "(string \<Rightarrow> string) \<Rightarrow> string obj \<Rightarrow> string \<Rightarrow> session_state \<Rightarrow> rewrite_db \<Rightarrow>
   (string obj \<times> string option \<times> rewrite_db) option" where
  "rewrite_headers hash headers sessionId state db =
     (case rewrite_header hash sessionId state ''x-session-id'' (headers, None, db) of
        None \<Rightarrow> None
      | Some st \<Rightarrow> rewrite_header hash sessionId state ''x-session-affinity'' st)"

subsection \<open>The retry\<close>

record rewrite_request =
  rx_capture :: nat
  rx_session :: string
  rx_harness :: harness
  rx_text :: string
  rx_size :: nat
  rx_headers :: "string obj"
  rx_force :: bool

text \<open>What the retry meets: the time, two fresh salts, and the status of the response, if one came.\<close>

record rewrite_world =
  rx_now :: int
  rx_salt :: string
  rx_escalated_salt :: string
  rx_status :: "nat option"

text \<open>The request a retry sends.\<close>

record rewrite_sent =
  rx_sent_body :: string
  rx_sent_headers :: "string obj"

definition current_session ::
  "int \<Rightarrow> rewrite_request \<Rightarrow> rewrite_world \<Rightarrow> rewrite_db \<Rightarrow> session_state \<times> rewrite_db" where
  "current_session ttlMs rq w db =
     (let (state, db1) = get_or_create_session (rx_now w) ttlMs (rx_salt w) (rx_session rq) (rx_harness rq)
                           (Some (rx_size rq)) (Some (take 500 (rx_text rq))) db
      in if rx_force rq \<or> should_escalate (ss_consecutive state)
         then escalate_session (rx_now w) ttlMs (rx_escalated_salt w) (rx_session rq) db1
         else (state, db1))"

text \<open>
  \<open>attemptRewriteRetry\<close>: what was sent, whether a response came back, the incidents and the tables.
  Nothing is sent when nothing was rewritten; an exception of the tables leaves the function (\<open>None\<close>).
\<close>

definition attempt_rewrite_retry ::
  "(string \<Rightarrow> string) \<Rightarrow> int \<Rightarrow> rewrite_request \<Rightarrow> rewrite_world \<Rightarrow> rewrite_db \<Rightarrow>
   (rewrite_sent option \<times> nat option \<times> incident_row list \<times> rewrite_db) option" where
  "attempt_rewrite_retry hash ttlMs rq w db =
     (let (state, db1) = current_session ttlMs rq w db
      in case rewrite_body hash (rx_text rq) (rx_headers rq) (rx_session rq) state db1 of
           None \<Rightarrow> None
         | Some (r, db2) \<Rightarrow>
             (case rewrite_headers hash (rx_headers rq) (rx_session rq) state db2 of
                None \<Rightarrow> None
              | Some (headers, _, db3) \<Rightarrow>
                  if \<not> rr_rewritten r then Some (None, None, [], db3)
                  else
                    (let sent = \<lparr>rx_sent_body = rr_body r,
                           rx_sent_headers = obj_set (obj_set headers ''content-length''
                             (digits_of (length (rr_body r)))) ''accept-encoding'' ''identity''\<rparr>
                     in case rx_status w of
                          None \<Rightarrow> Some (Some sent, None, [], db3)
                        | Some status \<Rightarrow>
                            (let db4 = db3\<lparr>rw_audits := rw_audits db3 @
                                   [\<lparr>wa_capture = rx_capture rq, wa_session = rx_session rq, wa_at = rx_now w,
                                     wa_version = ss_version state, wa_fields = rr_fields r,
                                     wa_count = rr_count r\<rparr>]\<rparr>
                             in if status < 400
                                then Some (Some sent, Some status, [], clear_rewrite_session (rx_session rq) db4)
                                else Some (Some sent, Some status,
                                       [\<lparr>ir_party = Proxy, ir_type = IdRewrite, ir_upstream = Some status,
                                         ir_served = Some status,
                                         ir_reason = Some (''ID rewrite retry failed (salt v'' @
                                           digits_of (ss_version state) @ '', '' @ sep_commas (rr_fields r) @ '')'')\<rparr>],
                                       db4)))))"

end
