(* ===== verification/Rewrite_Props.thy ===== *)
theory Rewrite_Props
  imports Id_Rewrite
begin

text \<open>
  The id rewriting experiment: its tables stay sound, no retry fails on them, and what a retry sends is
  a function of the request and the salt in force, so the table of mappings only caches.
\<close>

declare map_of_eq_Some_iff [simp del]

subsection \<open>The reference\<close>

definition reference_body :: "(string \<Rightarrow> string) \<Rightarrow> session_state \<Rightarrow> string \<Rightarrow> string" where
  "reference_body hash state body =
     fold (\<lambda>i. replace_every i
              (deterministic_rewrite hash i (ss_salt state) (ss_version state) (extract_prefix i)))
       (members_in_order (scan_ids body)) body"

definition reference_header :: "(string \<Rightarrow> string) \<Rightarrow> session_state \<Rightarrow> string \<Rightarrow> string \<Rightarrow> string obj \<Rightarrow> string obj" where
  "reference_header hash state sessionId key headers =
     (if sessionId \<noteq> [] \<and> obj_get headers key = Some sessionId
      then obj_set headers key (deterministic_rewrite hash sessionId (ss_salt state) (ss_version state) ''ses'')
      else headers)"

subsection \<open>The invariant\<close>

definition expected_id :: "(string \<Rightarrow> string) \<Rightarrow> string \<Rightarrow> rewrite_mapping \<Rightarrow> string" where
  "expected_id hash salt m =
     deterministic_rewrite hash (wm_original m) salt (wm_version m)
       (if wm_type m = ''session_id'' then ''ses'' else extract_prefix (wm_original m))"

definition mapping_sound :: "(string \<Rightarrow> string) \<Rightarrow> rewrite_db \<Rightarrow> rewrite_mapping \<Rightarrow> bool" where
  "mapping_sound hash db m \<longleftrightarrow>
     (\<exists>s. get_rewrite_session (wm_session m) db = Some s \<and> wm_version m \<le> ws_version s \<and>
        (wm_version m = ws_version s \<longrightarrow> wm_rewritten m = expected_id hash (ws_salt s) m))"

definition rewrite_sound :: "(string \<Rightarrow> string) \<Rightarrow> rewrite_db \<Rightarrow> bool" where
  "rewrite_sound hash db \<longleftrightarrow>
     distinct (obj_keys (rw_sessions db)) \<and> distinct (map mapping_key (rw_mappings db)) \<and>
     (\<forall>m\<in>set (rw_mappings db). mapping_sound hash db m)"

text \<open>The salt and version of the state are those of the session's row.\<close>

definition in_force :: "string \<Rightarrow> session_state \<Rightarrow> rewrite_db \<Rightarrow> bool" where
  "in_force sid state db \<longleftrightarrow>
     (\<exists>s. get_rewrite_session sid db = Some s \<and> ws_salt s = ss_salt state \<and> ws_version s = ss_version state)"

lemmas session_ops = get_rewrite_session_def record_rewrite_session_def escalate_rewrite_salt_def
  clear_rewrite_session_def

lemma obj_set_distinct: "distinct (obj_keys d) \<Longrightarrow> distinct (obj_keys (obj_set d k v))"
proof (induction d)
  case (Cons x d)
  have "fst ` set (obj_set e k v) \<subseteq> insert k (fst ` set e)" for e by (induction e) auto
  then show ?case using Cons by (cases x) fastforce
qed simp

lemma record_session_sound:
  assumes "rewrite_sound hash db"
  shows "rewrite_sound hash (record_rewrite_session now sid h salt ttl rs eb db)"
    "in_force sid \<lparr>ss_salt = (case get_rewrite_session sid db of Some s \<Rightarrow> ws_salt s | None \<Rightarrow> salt),
       ss_version = (case get_rewrite_session sid db of Some s \<Rightarrow> ws_version s | None \<Rightarrow> 1), ss_consecutive = c\<rparr>
       (record_rewrite_session now sid h salt ttl rs eb db)"
  using assms
  by (auto simp: rewrite_sound_def mapping_sound_def in_force_def session_ops obj_set_distinct
      split: option.split)

lemma clear_session_sound:
  assumes "rewrite_sound hash db"
  shows "rewrite_sound hash (clear_rewrite_session sid db)" "get_rewrite_session sid (clear_rewrite_session sid db) = None"
proof -
  have get: "obj_get (obj_del d k) j = (if j = k then None else obj_get d j)" for d :: "rewrite_session obj" and j k
    unfolding obj_del_def by (induction d) auto
  have "distinct (map mapping_key (filter P (rw_mappings db)))" for P
    using assms by (simp add: rewrite_sound_def distinct_map_filter)
  moreover have "distinct (obj_keys (obj_del (rw_sessions db) sid))"
    using assms by (simp add: rewrite_sound_def obj_del_def distinct_map_filter)
  ultimately show "rewrite_sound hash (clear_rewrite_session sid db)"
    using assms by (auto simp: rewrite_sound_def mapping_sound_def session_ops get)
  show "get_rewrite_session sid (clear_rewrite_session sid db) = None" by (simp add: session_ops get)
qed

lemma escalate_salt_sound:
  assumes "rewrite_sound hash db"
  shows "rewrite_sound hash (escalate_rewrite_salt now sid salt db)"
  using assms
  by (auto simp: rewrite_sound_def mapping_sound_def session_ops obj_set_distinct split: option.split)

lemma prune_sound:
  assumes "rewrite_sound hash db"
  shows "rewrite_sound hash (snd (prune_expired_sessions now db))"
proof -
  have d: "distinct (obj_keys (rw_sessions db))" using assms by (simp add: rewrite_sound_def)
  have get: "obj_get (filter (\<lambda>(k, s). \<not> ws_expires s < now) (rw_sessions db)) k = Some s"
    if "obj_get (rw_sessions db) k = Some s" "\<not> ws_expires s < now" for k s
    using that d by (simp add: map_of_eq_Some_iff distinct_map_filter)
  have live: "\<not> ws_expires s < now"
    if "obj_get (rw_sessions db) k = Some s"
      "k \<notin> set (map fst (filter (\<lambda>(k, s). ws_expires s < now) (rw_sessions db)))" for k s
    using that map_of_SomeD [OF that(1)] by force
  have "distinct (map mapping_key (filter P (rw_mappings db)))" for P
    using assms by (simp add: rewrite_sound_def distinct_map_filter)
  then show ?thesis
    using assms get live d
    by (fastforce simp: rewrite_sound_def mapping_sound_def prune_expired_sessions_def get_rewrite_session_def
        distinct_map_filter Let_def)
qed

lemma get_or_create_sound:
  assumes "rewrite_sound hash db" "get_or_create_session now ttl salt sid h rs eb db = (state, db')"
  shows "rewrite_sound hash db' \<and> in_force sid state db'"
proof (cases "get_rewrite_session sid db")
  case None
  then show ?thesis
    using assms(2) record_session_sound(1) [OF assms(1), where sid = sid and salt = salt]
      record_session_sound(2) [OF assms(1), where sid = sid and salt = salt and c = 1]
    by (auto simp: get_or_create_session_def)
next
  case (Some s)
  show ?thesis
  proof (cases "ws_expires s > now")
    case True
    then show ?thesis
      using assms(2) Some record_session_sound(1) [OF assms(1), where sid = sid and salt = "ws_salt s"]
      record_session_sound(2) [OF assms(1), where sid = sid and salt = "ws_salt s" and c = "ss_consecutive state"]
      by (auto simp: get_or_create_session_def Let_def in_force_def)
  next
    case False
    note cl = clear_session_sound [OF assms(1), of sid]
    show ?thesis
      using assms(2) Some False cl(2) record_session_sound(1) [OF cl(1), where sid = sid and salt = salt]
      record_session_sound(2) [OF cl(1), where sid = sid and salt = salt and c = 1]
      by (auto simp: get_or_create_session_def Let_def)
  qed
qed

lemma escalate_session_sound:
  assumes "rewrite_sound hash db" "escalate_session now ttl salt sid db = (state, db')"
  shows "rewrite_sound hash db' \<and> in_force sid state db'"
proof (cases "get_rewrite_session sid db")
  case None
  then show ?thesis
    using assms(2) record_session_sound(1) [OF assms(1), where sid = sid and salt = salt]
      record_session_sound(2) [OF assms(1), where sid = sid and salt = salt and c = 1]
    by (auto simp: escalate_session_def)
next
  case (Some s)
  then show ?thesis
    using assms(2) escalate_salt_sound [OF assms(1), of now sid salt]
    by (auto simp: escalate_session_def Let_def in_force_def session_ops)
qed

lemma current_session_sound:
  assumes "rewrite_sound hash db" "current_session ttl rq w db = (state, db')"
  shows "rewrite_sound hash db' \<and> in_force (rx_session rq) state db'"
proof -
  obtain s1 db1 where one: "get_or_create_session (rx_now w) ttl (rx_salt w) (rx_session rq) (rx_harness rq)
      (Some (rx_size rq)) (Some (take 500 (rx_text rq))) db = (s1, db1)" by fastforce
  note sound = get_or_create_sound [OF assms(1) one]
  show ?thesis
    using assms(2) one sound escalate_session_sound [of hash db1]
    by (auto simp: current_session_def Let_def split: if_splits)
qed

subsection \<open>Rewriting\<close>

lemma lookup_expected:
  assumes "rewrite_sound hash db" "in_force sid state db"
    and "get_rewrite_mapping (sid, i, kind, ss_version state) db = Some r"
  shows "r = deterministic_rewrite hash i (ss_salt state) (ss_version state)
           (if kind = ''session_id'' then ''ses'' else extract_prefix i)"
proof -
  obtain m where m: "m \<in> set (rw_mappings db)" "mapping_key m = (sid, i, kind, ss_version state)" "wm_rewritten m = r"
    using assms(3) by (auto simp: get_rewrite_mapping_def find_Some_iff) (metis nth_mem)
  then show ?thesis
    using assms(1,2) by (auto simp: rewrite_sound_def mapping_sound_def in_force_def mapping_key_def expected_id_def)
qed

lemma set_mapping_sound:
  assumes "rewrite_sound hash db" "in_force sid state db"
    and "wm_session m = sid" "wm_version m = ss_version state" "wm_rewritten m = expected_id hash (ss_salt state) m"
  shows "\<exists>db'. set_rewrite_mapping m db = Some db' \<and> rewrite_sound hash db' \<and> in_force sid state db'"
proof -
  obtain s where s: "get_rewrite_session sid db = Some s" "ws_salt s = ss_salt state" "ws_version s = ss_version state"
    using assms(2) by (auto simp: in_force_def)
  then have "mapping_sound hash db m" using assms(3-5) by (auto simp: mapping_sound_def)
  then show ?thesis using assms(1-3) s
    by (auto simp: set_rewrite_mapping_def rewrite_sound_def mapping_sound_def in_force_def get_rewrite_session_def)
qed

lemma rewrite_one_id_sound:
  assumes sound: "rewrite_sound hash db" "in_force sid state db"
  shows "\<exists>db'. rewrite_one_id hash sid state i (text', db) =
      Some (replace_every i (deterministic_rewrite hash i (ss_salt state) (ss_version state) (extract_prefix i)) text', db')
    \<and> rewrite_sound hash db' \<and> in_force sid state db'"
proof -
  let ?r = "deterministic_rewrite hash i (ss_salt state) (ss_version state) (extract_prefix i)"
  let ?m = "\<lparr>wm_session = sid, wm_version = ss_version state, wm_original = i, wm_rewritten = ?r,
    wm_type = ''tool_use_id''\<rparr>"
  have "get_rewrite_mapping (sid, i, ''tool_use_id'', ss_version state) db \<in> {None, Some ?r}"
    using lookup_expected [OF sound, of i "''tool_use_id''"]
    by (cases "get_rewrite_mapping (sid, i, ''tool_use_id'', ss_version state) db") auto
  moreover have "wm_rewritten ?m = expected_id hash (ss_salt state) ?m" by (simp add: expected_id_def)
  then obtain db' where "set_rewrite_mapping ?m db = Some db'" "rewrite_sound hash db'" "in_force sid state db'"
    using set_mapping_sound [OF sound, of ?m] by auto
  ultimately show ?thesis using sound by (auto simp: rewrite_one_id_def Let_def)
qed

lemma rewrite_ids_sound:
  "rewrite_sound hash db \<Longrightarrow> in_force sid state db \<Longrightarrow>
   \<exists>db'. rewrite_ids hash sid state is (text', db) =
     Some (fold (\<lambda>i. replace_every i
             (deterministic_rewrite hash i (ss_salt state) (ss_version state) (extract_prefix i))) is text', db')
     \<and> rewrite_sound hash db' \<and> in_force sid state db'"
proof (induction "is" arbitrary: text' db)
  case (Cons i "is")
  obtain db1 where one: "rewrite_one_id hash sid state i (text', db) =
      Some (replace_every i (deterministic_rewrite hash i (ss_salt state) (ss_version state) (extract_prefix i)) text', db1)"
    "rewrite_sound hash db1" "in_force sid state db1"
    using rewrite_one_id_sound [OF Cons.prems] by blast
  then show ?case using Cons.IH [OF one(2,3)] by simp
qed simp

lemma rewrite_header_sound:
  assumes sound: "rewrite_sound hash db" "in_force sid state db"
    and "n = None \<or> n = Some (deterministic_rewrite hash sid (ss_salt state) (ss_version state) ''ses'')"
  shows "\<exists>n' db'. rewrite_header hash sid state key (headers, n, db) =
      Some (reference_header hash state sid key headers, n', db') \<and>
    (n' = None \<or> n' = Some (deterministic_rewrite hash sid (ss_salt state) (ss_version state) ''ses'')) \<and>
    rewrite_sound hash db' \<and> in_force sid state db'"
proof -
  let ?r = "deterministic_rewrite hash sid (ss_salt state) (ss_version state) ''ses''"
  let ?m = "\<lparr>wm_session = sid, wm_version = ss_version state, wm_original = sid, wm_rewritten = ?r,
    wm_type = ''session_id''\<rparr>"
  have "get_rewrite_mapping (sid, sid, ''session_id'', ss_version state) db \<in> {None, Some ?r}"
    using lookup_expected [OF sound, of sid "''session_id''"]
    by (cases "get_rewrite_mapping (sid, sid, ''session_id'', ss_version state) db") auto
  moreover have "wm_rewritten ?m = expected_id hash (ss_salt state) ?m" by (simp add: expected_id_def)
  then obtain db' where "set_rewrite_mapping ?m db = Some db'" "rewrite_sound hash db'" "in_force sid state db'"
    using set_mapping_sound [OF sound, of ?m] by auto
  moreover have "?r \<noteq> []" by (simp add: deterministic_rewrite_def)
  ultimately show ?thesis
    using sound assms(3)
    by (auto simp: rewrite_header_def reference_header_def Let_def split: option.split)
qed

lemma rewrite_headers_sound:
  assumes "rewrite_sound hash db" "in_force sid state db"
  shows "\<exists>n db'. rewrite_headers hash headers sid state db =
      Some (reference_header hash state sid ''x-session-affinity''
              (reference_header hash state sid ''x-session-id'' headers), n, db') \<and> rewrite_sound hash db'"
proof -
  obtain n db1 where one: "rewrite_header hash sid state ''x-session-id'' (headers, None, db) =
      Some (reference_header hash state sid ''x-session-id'' headers, n, db1)"
    "n = None \<or> n = Some (deterministic_rewrite hash sid (ss_salt state) (ss_version state) ''ses'')"
    "rewrite_sound hash db1" "in_force sid state db1"
    using rewrite_header_sound [OF assms, of None] by blast
  then show ?thesis using rewrite_header_sound [OF one(3,4,2)] by (fastforce simp: rewrite_headers_def)
qed

subsection \<open>Runs\<close>

datatype rewrite_event = Retry_With rewrite_request rewrite_world | Prune_At int

fun rewrite_run :: "(string \<Rightarrow> string) \<Rightarrow> int \<Rightarrow> rewrite_event list \<Rightarrow> rewrite_db \<Rightarrow> rewrite_db option" where
  "rewrite_run hash ttl [] db = Some db"
| "rewrite_run hash ttl (Prune_At now # evs) db = rewrite_run hash ttl evs (snd (prune_expired_sessions now db))"
| "rewrite_run hash ttl (Retry_With rq w # evs) db =
     (case attempt_rewrite_retry hash ttl rq w db of
        None \<Rightarrow> None | Some (sent, status, rows, db') \<Rightarrow> rewrite_run hash ttl evs db')"

definition no_rewrites :: rewrite_db where
  "no_rewrites = \<lparr>rw_sessions = [], rw_mappings = [], rw_audits = []\<rparr>"

text \<open>What a retry should send.\<close>

definition reference_sent ::
  "(string \<Rightarrow> string) \<Rightarrow> session_state \<Rightarrow> rewrite_request \<Rightarrow> rewrite_sent" where
  "reference_sent hash state rq =
     (let body = reference_body hash state (rx_text rq);
          headers = reference_header hash state (rx_session rq) ''x-session-affinity''
                      (reference_header hash state (rx_session rq) ''x-session-id'' (rx_headers rq))
      in \<lparr>rx_sent_body = body,
          rx_sent_headers = obj_set (obj_set headers ''content-length'' (digits_of (length body)))
            ''accept-encoding'' ''identity''\<rparr>)"

lemma rewrite_sound_audits [simp]: "rewrite_sound hash (db\<lparr>rw_audits := as\<rparr>) = rewrite_sound hash db"
  by (simp add: rewrite_sound_def mapping_sound_def get_rewrite_session_def)

lemma attempt_sound:
  assumes "rewrite_sound hash db"
  shows "\<exists>sent status rows db'. attempt_rewrite_retry hash ttl rq w db = Some (sent, status, rows, db') \<and>
    rewrite_sound hash db' \<and>
    (sent = None \<or> sent = Some (reference_sent hash (fst (current_session ttl rq w db)) rq))"
proof -
  obtain state db1 where cur: "current_session ttl rq w db = (state, db1)" by fastforce
  note s1 = current_session_sound [OF assms cur]
  obtain db2 where ids: "rewrite_ids hash (rx_session rq) state (members_in_order (scan_ids (rx_text rq)))
      (rx_text rq, db1) = Some (reference_body hash state (rx_text rq), db2)"
    "rewrite_sound hash db2" "in_force (rx_session rq) state db2"
    using rewrite_ids_sound [of hash db1] s1 unfolding reference_body_def by blast
  obtain n db3 where hs: "rewrite_headers hash (rx_headers rq) (rx_session rq) state db2 =
      Some (reference_header hash state (rx_session rq) ''x-session-affinity''
              (reference_header hash state (rx_session rq) ''x-session-id'' (rx_headers rq)), n, db3)"
    "rewrite_sound hash db3"
    using rewrite_headers_sound [OF ids(2,3)] by blast
  show ?thesis
    using cur ids(1) hs clear_session_sound(1) [of hash "db3\<lparr>rw_audits := as\<rparr>" for as]
    by (auto simp: attempt_rewrite_retry_def rewrite_body_def reference_sent_def Let_def split: option.split)
qed

lemma rewrite_run_sound:
  "rewrite_sound hash db \<Longrightarrow> \<exists>db'. rewrite_run hash ttl evs db = Some db' \<and> rewrite_sound hash db'"
proof (induction evs arbitrary: db)
  case (Cons e evs)
  show ?case
  proof (cases e)
    case (Prune_At now)
    then show ?thesis using Cons.IH [OF prune_sound [OF Cons.prems]] by simp
  next
    case (Retry_With rq w)
    then show ?thesis using attempt_sound [OF Cons.prems, of ttl rq w] Cons.IH by fastforce
  qed
qed simp

text \<open>
  C37: A retry sends the reference rewriting, and the tables never fail it. After any retries, whether
  forced, answered or not, and prunings, on any hash, salts and times, a further retry does not
  violate a key; what it sends, if it sends anything, is the body with each id replaced, one
  after another, by the hash under the salt and version now in force, with the session headers
  replaced the same way and the length and encoding headers set: the mappings found in the
  table never change the outcome.
\<close>

theorem retries_send_the_reference:
  "\<exists>db sent status rows db'. rewrite_run hash ttl evs no_rewrites = Some db \<and>
     attempt_rewrite_retry hash ttl rq w db = Some (sent, status, rows, db') \<and>
     distinct (map mapping_key (rw_mappings db')) \<and>
     sent \<in> {None, Some (reference_sent hash (fst (current_session ttl rq w db)) rq)}"
proof -
  have "rewrite_sound hash no_rewrites" by (simp add: rewrite_sound_def no_rewrites_def)
  from rewrite_run_sound [OF this] obtain db where db: "rewrite_run hash ttl evs no_rewrites = Some db"
    "rewrite_sound hash db" by blast
  from attempt_sound [OF db(2), of ttl rq w] show ?thesis
    using db(1) by (auto simp: rewrite_sound_def)
qed

end
