(* ===== verification/Model_Catalog.thy ===== *)
theory Model_Catalog
  imports Body_Stamps Vision_Detect
begin

text \<open>
  The model catalogue: the parser of the model information (\<open>src/model-info-parser.ts\<close>) and the client
  that fetches the list of models, derives their weights and refreshes itself, with its retries
  after a cold start (\<open>src/models.ts\<close>). What a fetch brings is an observation; timers are events,
  numbered as they are set, so that one that is not cleared stays alive. Log lines are left out.
\<close>

subsection \<open>Model information\<close>

definition text_or :: "string \<Rightarrow> json option \<Rightarrow> string" where
  "text_or d v = (case v of Some (JStr s) \<Rightarrow> s | _ \<Rightarrow> d)"

text \<open>A number, infinite ones included, or zero.\<close>

definition number_or_zero :: "json option \<Rightarrow> json" where
  "number_or_zero v = (case v of Some (JNum r) \<Rightarrow> JNum r | Some (JInf b) \<Rightarrow> JInf b | _ \<Rightarrow> JNum 0)"

definition is_true :: "json option \<Rightarrow> bool" where
  "is_true v = (v = Some (JBool True))"

text \<open>\<open>v ?? {}\<close>\<close>

definition or_empty :: "json option \<Rightarrow> json" where
  "or_empty v = (if is_nullish v then JObj [] else the v)"

record parsed_model_info =
  mi_name :: string
  mi_display_name :: string
  mi_description :: string
  mi_base_name :: string
  mi_base_provider :: "string option"
  mi_base_family :: "string option"
  mi_base_oss :: "string option"
  mi_max_completion :: json
  mi_recommended_max :: json
  mi_context_window :: json
  mi_vision :: vision_tristate
  mi_tools :: bool
  mi_reasoning :: bool
  mi_can_disable :: bool
  mi_levels :: "string list"
  mi_default_level :: "string option"
  mi_benchmarks :: json
  mi_precision :: "string option"
  mi_hf_url :: "string option"
  mi_stage :: "string option"
  mi_lifecycle :: "(string option \<times> string option) option"
  mi_stamps :: stamp_policy

definition parse_model_entry :: "string \<Rightarrow> json \<Rightarrow> parsed_model_info" where
  "parse_model_entry key v =
     (let caps = or_empty (jget v ''capabilities'');
          bm = or_empty (jget v ''base_model'');
          w = or_empty (jget v ''weights'');
          sv = jget caps ''supports_vision'';
          reasoning = or_empty (jget caps ''reasoning'');
          levels = (case jget reasoning ''levels'' of
                      Some (JArr vs) \<Rightarrow> List.map_filter (\<lambda>l. jstr (Some l)) vs | _ \<Rightarrow> []);
          nm = text_or key (jget v ''name'')
      in \<lparr>mi_name = nm, mi_display_name = text_or [] (jget v ''display_name''),
          mi_description = text_or [] (jget v ''description''),
          mi_base_name = text_or [] (jget bm ''name''), mi_base_provider = jstr (jget bm ''provider''),
          mi_base_family = jstr (jget bm ''family''), mi_base_oss = jstr (jget bm ''oss_base''),
          mi_max_completion = number_or_zero (jget caps ''max_completion_tokens''),
          mi_recommended_max = number_or_zero (jget caps ''recommended_max_tokens''),
          mi_context_window = number_or_zero (jget caps ''context_window''),
          mi_vision = (if is_true sv then Sees
                       else if sv = Some (JStr ''via-handoff'') then Via_Handoff else Blind),
          mi_tools = is_true (jget caps ''supports_tools''),
          mi_reasoning = is_true (jget reasoning ''supported''),
          mi_can_disable = is_true (jget reasoning ''can_disable''), mi_levels = levels,
          mi_default_level = jstr (jget reasoning ''default_level''),
          mi_benchmarks = (case jget v ''benchmarks'' of
                             Some b \<Rightarrow> if is_object b then b else JObj [] | None \<Rightarrow> JObj []),
          mi_precision = jstr (jget w ''precision''), mi_hf_url = jstr (jget w ''hf_url''),
          mi_stage = jstr (jget v ''stage''),
          mi_lifecycle = (case jget v ''lifecycle'' of
                            Some l \<Rightarrow> if truthy l then Some (jstr (jget l ''production_start_date''),
                                                          jstr (jget l ''playground_start_date'')) else None
                          | None \<Rightarrow> None),
          mi_stamps = (match_stamp_overlay nm)\<lparr>sp_can_disable := is_true (jget reasoning ''can_disable'')\<rparr>\<rparr>)"

definition parse_model_info_response :: "json \<Rightarrow> parsed_model_info obj" where
  "parse_model_info_response body =
     (if is_object body then
        fold (\<lambda>(key, v) out. if is_object v then obj_set out key (parse_model_entry key v) else out)
          (spread body) []
      else [])"

subsection \<open>The list of models\<close>

definition CHEAP_OUTPUT_THRESHOLD :: rat where
  "CHEAP_OUTPUT_THRESHOLD = 2"

definition CHEAP_MODEL_WEIGHT :: rat where
  "CHEAP_MODEL_WEIGHT = 1 / 2"

definition CHEAPEST_OUTPUT_THRESHOLD :: rat where
  "CHEAPEST_OUTPUT_THRESHOLD = 9 / 10"

definition CHEAPEST_MODEL_WEIGHT :: rat where
  "CHEAPEST_MODEL_WEIGHT = 1 / 4"

definition DEFAULT_MODEL_WEIGHT :: rat where
  "DEFAULT_MODEL_WEIGHT = 1"

record catalog_entry =
  ce_id :: string
  ce_context :: json
  ce_pricing :: "(json \<times> json) option"
  ce_weight :: rat
  ce_info :: "parsed_model_info option"

fun number_below :: "json \<Rightarrow> rat \<Rightarrow> bool" where
  "number_below (JNum r) b = (r < b)"
| "number_below (JInf positive) b = (\<not> positive)"
| "number_below _ b = False"

definition model_weight :: "(json \<times> json) option \<Rightarrow> rat" where
  "model_weight pricing =
     (case pricing of
        None \<Rightarrow> DEFAULT_MODEL_WEIGHT
      | Some (inp, outp) \<Rightarrow>
          if number_below outp CHEAPEST_OUTPUT_THRESHOLD then CHEAPEST_MODEL_WEIGHT
          else if number_below outp CHEAP_OUTPUT_THRESHOLD then CHEAP_MODEL_WEIGHT
          else DEFAULT_MODEL_WEIGHT)"

text \<open>One element of \<open>data\<close>; the outer \<open>None\<close> is the exception on \<open>null\<close>.\<close>

definition catalog_entry_of :: "parsed_model_info obj \<Rightarrow> json \<Rightarrow> catalog_entry option option" where
  "catalog_entry_of info raw =
     (if raw = JNull then None
      else Some (case jget raw ''id'' of
        Some (JStr i) \<Rightarrow>
          if i = [] then None
          else
            (let pricing = (case jget raw ''pricing'' of
                              Some p \<Rightarrow> if is_object p then Some (number_or_zero (jget p ''input''),
                                                              number_or_zero (jget p ''output'')) else None
                            | None \<Rightarrow> None)
             in Some \<lparr>ce_id = i, ce_context = number_or_zero (jget raw ''context_length''), ce_pricing = pricing,
                      ce_weight = model_weight pricing, ce_info = obj_get info i\<rparr>)
      | _ \<Rightarrow> None))"

fun catalog_entries ::
  "parsed_model_info obj \<Rightarrow> json list \<Rightarrow> catalog_entry obj \<Rightarrow> catalog_entry obj option" where
  "catalog_entries info [] out = Some out"
| "catalog_entries info (raw # raws) out =
     (case catalog_entry_of info raw of
        None \<Rightarrow> None
      | Some None \<Rightarrow> catalog_entries info raws out
      | Some (Some e) \<Rightarrow> catalog_entries info raws (obj_set out (ce_id e) e))"

subsection \<open>The client\<close>

datatype interval_kind = Cold_Interval | Steady_Interval

datatype refresh_waiter = Kickoff | Cold_Tick | Steady_Tick

text \<open>What the two fetches of a refresh bring: the parsed list, or a failure before it is there, and the
  model information, if it could be fetched.\<close>

record fetched =
  ft_list :: "json option"
  ft_info :: "json option"

record models_client =
  mc_entries :: "catalog_entry obj"
  mc_catalog :: "parsed_model_info obj"
  mc_fetched_at :: int
  mc_ok :: bool
  mc_started :: bool
  mc_retry :: nat
  mc_timer :: "nat option"
  mc_live :: "(nat \<times> interval_kind) list"
  mc_next_id :: nat
  mc_fetching :: bool
  mc_waiters :: "refresh_waiter list"
  mc_changes :: nat

definition new_models_client :: models_client where
  "new_models_client =
     \<lparr>mc_entries = [], mc_catalog = [], mc_fetched_at = 0, mc_ok = False, mc_started = False, mc_retry = 0,
      mc_timer = None, mc_live = [], mc_next_id = 0, mc_fetching = False, mc_waiters = [], mc_changes = 0\<rparr>"

definition COLD_START_MAX_RETRIES :: nat where
  "COLD_START_MAX_RETRIES = 10"

text \<open>The end of \<open>doFetch\<close>: whether it succeeded. The time is positive.\<close>

definition finish_fetch :: "int \<Rightarrow> fetched \<Rightarrow> models_client \<Rightarrow> bool \<times> models_client" where
  "finish_fetch now f m =
     (let failed = (\<lambda>m. (False, m\<lparr>mc_ok := False, mc_changes := mc_changes m + 1\<rparr>))
      in case ft_list f of
           None \<Rightarrow> failed m
         | Some parsed \<Rightarrow>
             (case jget parsed ''data'' of
                Some (JArr raws) \<Rightarrow>
                  (let info = (case ft_info f of Some b \<Rightarrow> parse_model_info_response b | None \<Rightarrow> []);
                       m1 = m\<lparr>mc_catalog := info\<rparr>
                   in case catalog_entries info raws [] of
                        None \<Rightarrow> failed m1
                      | Some next_entries \<Rightarrow>
                          (True, m1\<lparr>mc_entries := next_entries, mc_fetched_at := now, mc_ok := True,
                                   mc_changes := mc_changes m1 + 1\<rparr>))
              | _ \<Rightarrow> failed m))"

text \<open>\<open>refresh\<close>: callers share the fetch in progress.\<close>

definition await_refresh :: "refresh_waiter \<Rightarrow> models_client \<Rightarrow> models_client" where
  "await_refresh k m = m\<lparr>mc_fetching := True, mc_waiters := mc_waiters m @ [k]\<rparr>"

definition clear_interval :: "models_client \<Rightarrow> models_client" where
  "clear_interval m =
     (case mc_timer m of
        None \<Rightarrow> m
      | Some i \<Rightarrow> m\<lparr>mc_live := filter (\<lambda>(j, k). j \<noteq> i) (mc_live m), mc_timer := None\<rparr>)"

definition set_interval :: "interval_kind \<Rightarrow> models_client \<Rightarrow> models_client" where
  "set_interval k m =
     m\<lparr>mc_timer := Some (mc_next_id m), mc_live := mc_live m @ [(mc_next_id m, k)], mc_next_id := mc_next_id m + 1\<rparr>"

definition begin_steady_state :: "models_client \<Rightarrow> models_client" where
  "begin_steady_state m = set_interval Steady_Interval (clear_interval m)"

text \<open>A caller of \<open>refresh\<close> goes on with its result.\<close>

definition resume_waiter :: "bool \<Rightarrow> refresh_waiter \<Rightarrow> models_client \<Rightarrow> models_client" where
  "resume_waiter success k m =
     (case k of
        Kickoff \<Rightarrow>
          if \<not> mc_started m then m
          else if success \<or> mc_fetched_at m > 0 \<or> mc_retry m \<ge> COLD_START_MAX_RETRIES then begin_steady_state m
          else set_interval Cold_Interval m
      | Cold_Tick \<Rightarrow>
          if \<not> mc_started m then m
          else if success \<or> mc_fetched_at m > 0 \<or> mc_retry m \<ge> COLD_START_MAX_RETRIES then begin_steady_state m
          else m
      | Steady_Tick \<Rightarrow> m)"

definition cold_start_tick :: "models_client \<Rightarrow> models_client" where
  "cold_start_tick m =
     (if \<not> mc_started m then m
      else if mc_fetched_at m > 0 then begin_steady_state m
      else await_refresh Cold_Tick (m\<lparr>mc_retry := mc_retry m + 1\<rparr>))"

datatype models_event = Models_Start | Interval_Fires nat | Fetch_Ends int fetched | Models_Stop

fun models_step :: "models_event \<Rightarrow> models_client \<Rightarrow> models_client" where
  "models_step Models_Start m =
     (if mc_started m then m else await_refresh Kickoff (m\<lparr>mc_started := True\<rparr>))"
| "models_step (Interval_Fires i) m =
     (case map_of (mc_live m) i of
        None \<Rightarrow> m
      | Some Cold_Interval \<Rightarrow> cold_start_tick m
      | Some Steady_Interval \<Rightarrow> await_refresh Steady_Tick m)"
| "models_step (Fetch_Ends now f) m =
     (if \<not> mc_fetching m then m
      else (let (success, m1) = finish_fetch now f m
            in fold (resume_waiter success) (mc_waiters m) (m1\<lparr>mc_fetching := False, mc_waiters := []\<rparr>)))"
| "models_step Models_Stop m = clear_interval (m\<lparr>mc_started := False\<rparr>)"

subsection \<open>Lookups\<close>

definition get_model_weight :: "models_client \<Rightarrow> string \<Rightarrow> rat" where
  "get_model_weight m modelId =
     (case obj_get (mc_entries m) modelId of Some e \<Rightarrow> ce_weight e | None \<Rightarrow> DEFAULT_MODEL_WEIGHT)"

definition get_vision_support :: "models_client \<Rightarrow> string \<Rightarrow> vision_tristate option" where
  "get_vision_support m modelName =
     (case obj_get (mc_entries m) modelName of
        Some e \<Rightarrow> map_option mi_vision (ce_info e) | None \<Rightarrow> None)"

definition catalog_ready :: "models_client \<Rightarrow> bool" where
  "catalog_ready m = (mc_fetched_at m > 0)"

end
