(* ===== verification/Catalog_Props.thy ===== *)
theory Catalog_Props
  imports Model_Catalog Requests
begin

text \<open>
  The catalogue of models: every weight it hands out is one of the three tiers, and a client that has been
  started keeps exactly one timer alive.
\<close>

subsection \<open>Weights\<close>

definition weight_tiers :: "rat set" where
  "weight_tiers = {CHEAPEST_MODEL_WEIGHT, CHEAP_MODEL_WEIGHT, DEFAULT_MODEL_WEIGHT}"

definition weights_tiered :: "catalog_entry obj \<Rightarrow> bool" where
  "weights_tiered es \<longleftrightarrow> (\<forall>k e. obj_get es k = Some e \<longrightarrow> ce_weight e \<in> weight_tiers)"

lemma model_weight_tier: "model_weight p \<in> weight_tiers"
  by (auto simp: model_weight_def weight_tiers_def split: option.split)

lemma catalog_entries_tiered:
  "weights_tiered out \<Longrightarrow> catalog_entries info raws out = Some es \<Longrightarrow> weights_tiered es"
proof (induction raws arbitrary: out)
  case (Cons raw raws)
  show ?case
  proof (cases "catalog_entry_of info raw")
    case None
    then show ?thesis using Cons.prems by simp
  next
    case (Some e)
    show ?thesis
    proof (cases e)
      case None
      then show ?thesis using Cons Some by simp
    next
      case (Some x)
      then have "ce_weight x \<in> weight_tiers"
        using \<open>catalog_entry_of info raw = Some e\<close>
        by (auto simp: catalog_entry_of_def model_weight_tier Let_def split: if_splits option.splits json.splits)
      then have "weights_tiered (obj_set out (ce_id x) x)"
        using Cons.prems(1) by (auto simp: weights_tiered_def)
      then show ?thesis
        using Cons.IH Cons.prems(2) \<open>catalog_entry_of info raw = Some e\<close> Some by simp
    qed
  qed
qed simp

lemma finish_fetch_tiered:
  "weights_tiered (mc_entries m) \<Longrightarrow> weights_tiered (mc_entries (snd (finish_fetch now f m)))"
  using catalog_entries_tiered [of "[]"]
  by (auto simp: finish_fetch_def weights_tiered_def Let_def split: option.splits json.splits)

lemmas timer_ops = set_interval_def clear_interval_def begin_steady_state_def await_refresh_def

lemma resume_waiter_entries [simp]: "mc_entries (resume_waiter s k m) = mc_entries m"
  by (auto simp: resume_waiter_def timer_ops split: refresh_waiter.splits option.splits)

lemma resume_waiters_entries [simp]: "mc_entries (fold (resume_waiter s) ks m) = mc_entries m"
  by (induction ks arbitrary: m) simp_all

lemma models_step_tiered: "weights_tiered (mc_entries m) \<Longrightarrow> weights_tiered (mc_entries (models_step e m))"
proof (cases e)
  case (Fetch_Ends now f)
  assume "weights_tiered (mc_entries m)"
  from finish_fetch_tiered [OF this, of now f] this Fetch_Ends show ?thesis
    by (auto simp: case_prod_unfold Let_def)
qed (auto simp: timer_ops cold_start_tick_def split: option.splits interval_kind.splits)

lemma models_run_tiered: "weights_tiered (mc_entries m) \<Longrightarrow> weights_tiered (mc_entries (fold models_step evs m))"
  by (induction evs arbitrary: m) (simp_all add: models_step_tiered)

text \<open>
  C38: The gate never sees a weight outside the three tiers. Whatever the upstream has answered, failures
  and prices of any size included, a request for any model, or for none, weighs a quarter, a
  half or one; so the gate never turns a request down for its weight.
\<close>

theorem request_weights_are_tiers:
  "request_weight name (Some (get_model_weight (fold models_step evs new_models_client))) \<in> {1 / 4, 1 / 2, 1}"
proof -
  have "weights_tiered (mc_entries (fold models_step evs new_models_client))"
    by (rule models_run_tiered) (simp add: weights_tiered_def new_models_client_def)
  then have "get_model_weight (fold models_step evs new_models_client) m \<in> {1 / 4, 1 / 2, 1}" for m
    by (auto simp: get_model_weight_def weights_tiered_def weight_tiers_def CHEAPEST_MODEL_WEIGHT_def
        CHEAP_MODEL_WEIGHT_def DEFAULT_MODEL_WEIGHT_def split: option.split)
  then show ?thesis by (auto simp: request_weight_def split: option.split)
qed

subsection \<open>Timers\<close>

definition one_timer :: "models_client \<Rightarrow> bool" where
  "one_timer m \<longleftrightarrow> (\<exists>i k. mc_live m = [(i, k)] \<and> mc_timer m = Some i)"

definition kept_alive :: "models_client \<Rightarrow> bool" where
  "kept_alive m \<longleftrightarrow> mc_started m \<and>
     (mc_waiters m = [Kickoff] \<and> mc_fetching m \<and> mc_live m = [] \<and> mc_timer m = None \<or>
      Kickoff \<notin> set (mc_waiters m) \<and> one_timer m)"

lemma begin_steady_one: "one_timer m \<or> mc_live m = [] \<and> mc_timer m = None \<Longrightarrow> one_timer (begin_steady_state m)"
  by (auto simp: one_timer_def timer_ops)

lemma set_interval_one: "mc_live m = [] \<Longrightarrow> one_timer (set_interval k m)"
  by (simp add: one_timer_def timer_ops)

lemma timer_flags [simp]:
  "mc_started (set_interval k m) = mc_started m" "mc_waiters (set_interval k m) = mc_waiters m"
  "mc_started (begin_steady_state m) = mc_started m" "mc_waiters (begin_steady_state m) = mc_waiters m"
  by (auto simp: timer_ops split: option.split)

lemma resume_waiter_one:
  assumes "mc_started m" "k \<noteq> Kickoff" "one_timer m"
  shows "one_timer (resume_waiter s k m) \<and> mc_started (resume_waiter s k m) \<and>
    mc_waiters (resume_waiter s k m) = mc_waiters m"
  using assms begin_steady_one [of m] by (auto simp: resume_waiter_def split: refresh_waiter.splits)

lemma resume_waiters_one:
  "mc_started m \<Longrightarrow> Kickoff \<notin> set ks \<Longrightarrow> one_timer m \<Longrightarrow>
   one_timer (fold (resume_waiter s) ks m) \<and> mc_started (fold (resume_waiter s) ks m) \<and>
   mc_waiters (fold (resume_waiter s) ks m) = mc_waiters m"
proof (induction ks arbitrary: m)
  case (Cons k ks)
  have one: "one_timer (resume_waiter s k m)" "mc_started (resume_waiter s k m)"
    "mc_waiters (resume_waiter s k m) = mc_waiters m"
    using resume_waiter_one [of m k s] Cons.prems(1,3) list.set_intros(1) [of k ks] Cons.prems(2) by metis+
  show ?case using Cons.IH [OF one(2) _ one(1)] Cons.prems(2) by (simp add: one(3))
qed simp

lemma finish_fetch_timers:
  "mc_started (snd (finish_fetch now f m)) = mc_started m" "mc_live (snd (finish_fetch now f m)) = mc_live m"
  "mc_timer (snd (finish_fetch now f m)) = mc_timer m" "mc_waiters (snd (finish_fetch now f m)) = mc_waiters m"
  by (auto simp: finish_fetch_def Let_def split: option.splits json.splits)

lemma fetch_ends_alive:
  assumes "kept_alive m"
  shows "kept_alive (models_step (Fetch_Ends now f) m)"
proof (cases "mc_fetching m")
  case True
  obtain s m1 where ff: "finish_fetch now f m = (s, m1)" by fastforce
  note same = finish_fetch_timers [of now f m, unfolded ff snd_conv]
  let ?m = "m1\<lparr>mc_fetching := False, mc_waiters := []\<rparr>"
  have step: "models_step (Fetch_Ends now f) m = fold (resume_waiter s) (mc_waiters m) ?m" using True ff by simp
  show ?thesis
  proof (cases "mc_waiters m = [Kickoff]")
    case kick: True
    then have "mc_live ?m = [] \<and> mc_timer ?m = None \<and> mc_started ?m"
      using assms same by (auto simp: kept_alive_def)
    then show ?thesis
      unfolding step using kick begin_steady_one [of ?m] set_interval_one [of ?m]
      by (simp add: kept_alive_def resume_waiter_def)
  next
    case False
    then have "mc_started ?m" "Kickoff \<notin> set (mc_waiters m)" "one_timer ?m"
      using assms same by (auto simp: kept_alive_def one_timer_def)
    from resume_waiters_one [OF this, of s] show ?thesis unfolding step by (simp add: kept_alive_def)
  qed
qed (use assms in simp)

lemma models_step_alive:
  assumes "kept_alive m" "e \<noteq> Models_Stop"
  shows "kept_alive (models_step e m)"
proof (cases e)
  case Models_Start
  then show ?thesis using assms by (simp add: kept_alive_def)
next
  case (Interval_Fires i)
  show ?thesis
  proof (cases "one_timer m")
    case True
    then have "Kickoff \<notin> set (mc_waiters m)" "mc_started m"
      using assms(1) by (auto simp: kept_alive_def one_timer_def)
    then show ?thesis
      using True begin_steady_one [of m] Interval_Fires
      by (auto simp: kept_alive_def cold_start_tick_def await_refresh_def one_timer_def
          split: option.splits interval_kind.splits)
  next
    case False
    then have "mc_live m = []" using assms(1) by (auto simp: kept_alive_def)
    then show ?thesis using assms(1) Interval_Fires by simp
  qed
next
  case (Fetch_Ends now f)
  then show ?thesis using fetch_ends_alive [OF assms(1)] by simp
qed (use assms(2) in simp)

text \<open>
  C39: A started client keeps refreshing. From its start on, until it is stopped, and whatever the fetches
  bring and however ticks and fetches overlap, either the first fetch is still running or exactly
  one interval is alive and it is the one the client would clear.
\<close>

theorem catalog_keeps_refreshing:
  "let m = fold models_step evs (models_step Models_Start new_models_client)
   in if list_all (\<lambda>e. e \<noteq> Models_Stop) evs
      then (if Kickoff \<in> set (mc_waiters m) then mc_fetching m \<and> mc_live m = []
            else \<exists>i k. mc_live m = [(i, k)] \<and> mc_timer m = Some i)
      else True"
proof -
  have run: "kept_alive (fold models_step evs m)" if "kept_alive m" "list_all (\<lambda>e. e \<noteq> Models_Stop) evs" for m
    using that by (induction evs arbitrary: m) (simp_all add: models_step_alive)
  have "kept_alive (models_step Models_Start new_models_client)"
    by (simp add: kept_alive_def new_models_client_def await_refresh_def)
  from run [OF this] show ?thesis by (auto simp: Let_def kept_alive_def one_timer_def)
qed

end
