(* ===== verification/Capture_Rows.thy ===== *)
theory Capture_Rows
  imports Capture_Db Requests
begin

text \<open>
  The rows of the captures table as the dashboard sees them: the statements of \<open>db.ts\<close> that insert,
  update and list them with all their columns, the compression of the payload columns
  (\<open>compress.ts\<close>), the summaries sent to the dashboard (\<open>shared/capture-summary.ts\<close>) and the
  tracker of running cooldowns that enriches a list of them (\<open>in-flight-cooldowns.ts\<close>). The
  compression itself is an argument.
\<close>

subsection \<open>Payload columns\<close>

datatype stored = Plain string | Packed "nat list"

definition COMPRESSION_THRESHOLD :: nat where
  "COMPRESSION_THRESHOLD = 256"

text \<open>On ASCII the characters of a text are its bytes.\<close>

definition compress_text :: "(string \<Rightarrow> nat list) \<Rightarrow> bool \<Rightarrow> string option \<Rightarrow> stored option" where
  "compress_text pack enabled value =
     (case value of
        None \<Rightarrow> None
      | Some t \<Rightarrow> if \<not> enabled then Some (Plain t)
                 else if length t \<ge> COMPRESSION_THRESHOLD then Some (Packed (pack t))
                 else Some (Plain t))"

definition decompress_text :: "(nat list \<Rightarrow> string option) \<Rightarrow> stored option \<Rightarrow> string option" where
  "decompress_text unpack value =
     (case value of None \<Rightarrow> None | Some (Plain t) \<Rightarrow> Some t | Some (Packed b) \<Rightarrow> unpack b)"

subsection \<open>Requests, responses and rows\<close>

record request_meta =
  rq_meta_method :: string
  rq_meta_path :: string
  rq_meta_size :: nat
  rq_meta_started :: rat

record response_meta =
  re_status :: nat
  re_headers :: string
  re_body :: string
  re_size :: nat
  re_content_type :: string
  re_sse :: nat
  re_duration :: rat
  re_finished :: rat
  re_source :: "status_source option"
  re_reason :: "string option"
  re_usage :: "usage_metrics option"
  re_model :: "string option"
  re_retry :: "nat option"
  re_ttft_exceeded :: "nat option"
  re_ttft_p50 :: "rat option"
  re_tps_p50 :: "rat option"

record insert_params =
  in_method :: string
  in_path :: string
  in_url :: string
  in_headers :: string
  in_body :: string
  in_size :: nat
  in_started :: rat
  in_state :: string
  in_incoming :: string
  in_upstream :: string

record capture_row =
  cr_id :: nat
  cr_method :: string
  cr_path :: string
  cr_url :: string
  cr_request_headers :: "stored option"
  cr_request_body :: "stored option"
  cr_request_size :: nat
  cr_status :: "nat option"
  cr_response_headers :: "stored option"
  cr_response_body :: "stored option"
  cr_response_size :: nat
  cr_content_type :: "string option"
  cr_sse :: nat
  cr_duration :: rat
  cr_state :: string
  cr_started :: "rat option"
  cr_finished :: "rat option"
  cr_incoming :: "string option"
  cr_upstream :: "string option"
  cr_provider :: "provider option"
  cr_model :: "string option"
  cr_streaming :: "nat option"
  cr_input :: "rat option"
  cr_output :: "rat option"
  cr_cache_creation :: "rat option"
  cr_cache_read :: "rat option"
  cr_total_input :: "rat option"
  cr_total_output :: "rat option"
  cr_ttft :: "rat option"
  cr_tps :: "rat option"
  cr_usage_missing :: "nat option"
  cr_extracted :: "rat option"
  cr_vision :: nat
  cr_source :: "status_source option"
  cr_reason :: "string option"
  cr_retry :: "nat option"
  cr_ttft_exceeded :: "nat option"
  cr_ttft_p50 :: "rat option"
  cr_tps_p50 :: "rat option"

text \<open>The inserted row, the other columns with their defaults.\<close>

definition inserted_row :: "(string \<Rightarrow> nat list) \<Rightarrow> bool \<Rightarrow> nat \<Rightarrow> insert_params \<Rightarrow> capture_row" where
  "inserted_row pack enabled i p =
     \<lparr>cr_id = i, cr_method = in_method p, cr_path = in_path p, cr_url = in_url p,
      cr_request_headers = compress_text pack enabled (Some (in_headers p)),
      cr_request_body = compress_text pack enabled (Some (in_body p)), cr_request_size = in_size p,
      cr_status = None, cr_response_headers = None, cr_response_body = None, cr_response_size = 0,
      cr_content_type = None, cr_sse = 0, cr_duration = 0, cr_state = in_state p,
      cr_started = Some (in_started p), cr_finished = None, cr_incoming = Some (in_incoming p),
      cr_upstream = Some (in_upstream p), cr_provider = None, cr_model = None, cr_streaming = Some 0,
      cr_input = None, cr_output = None, cr_cache_creation = None, cr_cache_read = None,
      cr_total_input = None, cr_total_output = None, cr_ttft = None, cr_tps = None,
      cr_usage_missing = Some 0, cr_extracted = None, cr_vision = 0, cr_source = None, cr_reason = None,
      cr_retry = None, cr_ttft_exceeded = None, cr_ttft_p50 = None, cr_tps_p50 = None\<rparr>"

definition coalesce_column :: "'a option \<Rightarrow> 'a option \<Rightarrow> 'a option" where
  "coalesce_column a b = (case a of Some x \<Rightarrow> Some x | None \<Rightarrow> b)"

text \<open>The update of a finished request, but for its thinking columns.\<close>

definition finished_row :: "(string \<Rightarrow> nat list) \<Rightarrow> bool \<Rightarrow> rat \<Rightarrow> response_meta \<Rightarrow> capture_row \<Rightarrow> capture_row" where
  "finished_row pack enabled now res r =
     (let u = re_usage res
      in r\<lparr>cr_status := Some (re_status res),
           cr_response_headers := compress_text pack enabled (Some (re_headers res)),
           cr_response_body := compress_text pack enabled (Some (re_body res)),
           cr_response_size := re_size res, cr_content_type := Some (re_content_type res),
           cr_sse := re_sse res, cr_duration := re_duration res, cr_state := ''done'',
           cr_finished := Some (re_finished res), cr_source := re_source res, cr_reason := re_reason res,
           cr_provider := map_option um_provider u, cr_model := re_model res,
           cr_streaming := map_option (\<lambda>m. if um_streaming m then 1 else 0) u,
           cr_input := Option.bind u um_input, cr_output := Option.bind u um_output,
           cr_cache_creation := Option.bind u um_cache_creation, cr_cache_read := Option.bind u um_cache_read,
           cr_total_input := Option.bind u um_total_input, cr_total_output := Option.bind u um_total_output,
           cr_ttft := Option.bind u um_ttft, cr_tps := Option.bind u um_tps,
           cr_usage_missing := map_option (\<lambda>m. if um_usage_missing m then 1 else 0) u,
           cr_extracted := map_option (\<lambda>m. now) u,
           cr_retry := re_retry res, cr_ttft_exceeded := re_ttft_exceeded res,
           cr_ttft_p50 := coalesce_column (re_ttft_p50 res) (cr_ttft_p50 r),
           cr_tps_p50 := coalesce_column (re_tps_p50 res) (cr_tps_p50 r)\<rparr>)"

definition update_where :: "nat \<Rightarrow> (capture_row \<Rightarrow> capture_row) \<Rightarrow> capture_row list \<Rightarrow> capture_row list" where
  "update_where i f rows = map (\<lambda>r. if cr_id r = i then f r else r) rows"

definition find_row :: "nat \<Rightarrow> capture_row list \<Rightarrow> capture_row option" where
  "find_row i rows = find (\<lambda>r. cr_id r = i) rows"

text \<open>\<open>getUpstreamP50\<close>\<close>

definition upstream_p50 :: "nat \<Rightarrow> capture_row list \<Rightarrow> (rat option \<times> rat option) option" where
  "upstream_p50 i rows = map_option (\<lambda>r. (cr_ttft_p50 r, cr_tps_p50 r)) (find_row i rows)"

text \<open>\<open>get\<close>: the row with its four payload columns.\<close>

definition capture_detail ::
  "(nat list \<Rightarrow> string option) \<Rightarrow> nat \<Rightarrow> capture_row list \<Rightarrow> (capture_row \<times> string option list) option" where
  "capture_detail unpack i rows =
     map_option (\<lambda>r. (r, map (decompress_text unpack)
       [cr_request_headers r, cr_request_body r, cr_response_headers r, cr_response_body r])) (find_row i rows)"

text \<open>\<open>list\<close>; a negative limit is none.\<close>

definition list_rows :: "int \<Rightarrow> capture_row list \<Rightarrow> capture_row list" where
  "list_rows limit rows =
     (let newest = rev (sort_key cr_id rows); cap = min limit 1000
      in if cap < 0 then newest else take (nat cap) newest)"

subsection \<open>Summaries\<close>

record capture_summary =
  su_id :: nat
  su_method :: string
  su_path :: string
  su_status :: "nat option"
  su_sse :: bool
  su_content_type :: "string option"
  su_request_size :: nat
  su_response_size :: nat
  su_duration :: rat
  su_state :: string
  su_started :: "rat option"
  su_finished :: "rat option"
  su_incoming :: string
  su_upstream :: string
  su_model :: "string option"
  su_usage_missing :: "bool option"
  su_ttft :: "rat option"
  su_tps :: "rat option"
  su_cache_creation :: "rat option"
  su_cache_read :: "rat option"
  su_total_input :: "rat option"
  su_output :: "rat option"
  su_total_output :: "rat option"
  su_vision :: bool
  su_source :: "status_source option"
  su_reason :: "string option"
  su_retry :: "nat option"
  su_ttft_exceeded :: "nat option"
  su_ttft_p50 :: "rat option"
  su_tps_p50 :: "rat option"

definition text_or_empty :: "string option \<Rightarrow> string" where
  "text_or_empty t = (case t of Some s \<Rightarrow> s | None \<Rightarrow> [])"

text \<open>\<open>summary\<close>\<close>

definition summary_of_row :: "capture_row \<Rightarrow> capture_summary" where
  "summary_of_row r =
     \<lparr>su_id = cr_id r, su_method = cr_method r, su_path = cr_path r, su_status = cr_status r,
      su_sse = (cr_sse r \<noteq> 0), su_content_type = cr_content_type r, su_request_size = cr_request_size r,
      su_response_size = cr_response_size r, su_duration = cr_duration r, su_state = cr_state r,
      su_started = cr_started r, su_finished = cr_finished r, su_incoming = text_or_empty (cr_incoming r),
      su_upstream = text_or_empty (cr_upstream r), su_model = cr_model r,
      su_usage_missing = map_option (\<lambda>n. n \<noteq> 0) (cr_usage_missing r), su_ttft = cr_ttft r, su_tps = cr_tps r,
      su_cache_creation = cr_cache_creation r, su_cache_read = cr_cache_read r,
      su_total_input = cr_total_input r, su_output = cr_output r, su_total_output = cr_total_output r,
      su_vision = (cr_vision r \<noteq> 0), su_source = cr_source r, su_reason = cr_reason r, su_retry = cr_retry r,
      su_ttft_exceeded = cr_ttft_exceeded r, su_ttft_p50 = cr_ttft_p50 r, su_tps_p50 = cr_tps_p50 r\<rparr>"

record protocols =
  pt_incoming :: string
  pt_upstream :: string

definition new_summary ::
  "nat \<Rightarrow> request_meta \<Rightarrow> protocols \<Rightarrow> string \<Rightarrow> string option \<Rightarrow> capture_summary" where
  "new_summary i meta cfg state model =
     \<lparr>su_id = i, su_method = rq_meta_method meta, su_path = rq_meta_path meta, su_status = None, su_sse = False,
      su_content_type = None, su_request_size = rq_meta_size meta, su_response_size = 0, su_duration = 0,
      su_state = state, su_started = Some (rq_meta_started meta), su_finished = None,
      su_incoming = pt_incoming cfg, su_upstream = pt_upstream cfg, su_model = model, su_usage_missing = None,
      su_ttft = None, su_tps = None, su_cache_creation = None, su_cache_read = None, su_total_input = None,
      su_output = None, su_total_output = None, su_vision = False, su_source = None, su_reason = None,
      su_retry = None, su_ttft_exceeded = None, su_ttft_p50 = None, su_tps_p50 = None\<rparr>"

definition build_summary ::
  "nat \<Rightarrow> request_meta \<Rightarrow> response_meta \<Rightarrow> protocols \<Rightarrow> (rat option \<times> rat option) option \<Rightarrow> capture_summary" where
  "build_summary i meta res cfg p50 =
     (let u = re_usage res
      in \<lparr>su_id = i, su_method = rq_meta_method meta, su_path = rq_meta_path meta,
          su_status = Some (re_status res), su_sse = (re_sse res \<noteq> 0),
          su_content_type = Some (re_content_type res), su_request_size = rq_meta_size meta,
          su_response_size = re_size res, su_duration = re_duration res, su_state = ''done'',
          su_started = Some (rq_meta_started meta), su_finished = Some (re_finished res),
          su_incoming = pt_incoming cfg, su_upstream = pt_upstream cfg, su_model = re_model res,
          su_usage_missing = map_option um_usage_missing u, su_ttft = Option.bind u um_ttft,
          su_tps = Option.bind u um_tps, su_cache_creation = Option.bind u um_cache_creation,
          su_cache_read = Option.bind u um_cache_read, su_total_input = Option.bind u um_total_input,
          su_output = Option.bind u um_output, su_total_output = Option.bind u um_total_output,
          su_vision = False, su_source = re_source res, su_reason = re_reason res, su_retry = re_retry res,
          su_ttft_exceeded = re_ttft_exceeded res,
          su_ttft_p50 = coalesce_column (Option.bind p50 fst) (re_ttft_p50 res),
          su_tps_p50 = coalesce_column (Option.bind p50 snd) (re_tps_p50 res)\<rparr>)"

subsection \<open>Running cooldowns\<close>

record in_flight_cooldown =
  fc_retry :: nat
  fc_ends :: rat
  fc_threshold :: "rat option"

type_synonym in_flight_cooldowns = "(nat \<times> in_flight_cooldown) list"

text \<open>What the list route answers with, and the dashboard keeps: a summary with the transient fields.\<close>

record shown_capture =
  sh_summary :: capture_summary
  sh_retry :: "nat option"
  sh_ends :: "rat option"
  sh_threshold :: "rat option"

definition plain_shown :: "capture_summary \<Rightarrow> shown_capture" where
  "plain_shown s = \<lparr>sh_summary = s, sh_retry = None, sh_ends = None, sh_threshold = None\<rparr>"

definition start_cooldown :: "nat \<Rightarrow> in_flight_cooldown \<Rightarrow> in_flight_cooldowns \<Rightarrow> in_flight_cooldowns" where
  "start_cooldown i cd tracker = obj_set tracker i cd"

definition clear_cooldown :: "nat \<Rightarrow> in_flight_cooldowns \<Rightarrow> in_flight_cooldowns" where
  "clear_cooldown i tracker = obj_del tracker i"

definition enrich_one ::
  "rat \<Rightarrow> shown_capture \<Rightarrow> in_flight_cooldowns \<Rightarrow> in_flight_cooldowns \<times> shown_capture" where
  "enrich_one now s tracker =
     (let i = su_id (sh_summary s)
      in case obj_get tracker i of
           None \<Rightarrow> (tracker, s)
         | Some cd \<Rightarrow>
             if fc_ends cd \<le> now then (obj_del tracker i, s)
             else if su_state (sh_summary s) \<noteq> ''streaming'' \<and> su_state (sh_summary s) \<noteq> ''enqueued''
             then (tracker, s)
             else (tracker,
                   \<lparr>sh_summary = (sh_summary s)\<lparr>su_state := ''cooling_down''\<rparr>, sh_retry = Some (fc_retry cd),
                    sh_ends = Some (fc_ends cd), sh_threshold = fc_threshold cd\<rparr>))"

fun enrich ::
  "rat \<Rightarrow> shown_capture list \<Rightarrow> in_flight_cooldowns \<Rightarrow> in_flight_cooldowns \<times> shown_capture list" where
  "enrich now [] tracker = (tracker, [])"
| "enrich now (s # ss) tracker =
     (let (tracker1, s') = enrich_one now s tracker; (tracker2, ss') = enrich now ss tracker1
      in (tracker2, s' # ss'))"

text \<open>\<open>GET /api/captures\<close>\<close>

definition captures_route ::
  "rat \<Rightarrow> int \<Rightarrow> capture_row list \<Rightarrow> in_flight_cooldowns \<Rightarrow> in_flight_cooldowns \<times> shown_capture list" where
  "captures_route now limit rows tracker =
     enrich now (map (plain_shown \<circ> summary_of_row) (list_rows limit rows)) tracker"

end
