(* ===== verification/Dashboard_List.thy ===== *)
theory Dashboard_List
  imports Capture_Rows
begin

text \<open>
  The list of captures a dashboard shows, kept by the messages of its socket
  (\<open>dashboard/src/hooks/use-captures.ts\<close>, \<open>use-captures-socket.ts\<close>, \<open>use-capture-list.ts\<close>), and the
  server operations that change the rows together with the messages they broadcast (the calls of
  \<open>broadcast\<close> in \<open>proxy.ts\<close>, \<open>queue.ts\<close>, \<open>viewer.ts\<close> and \<open>index.ts\<close>). Rows of vision calls are not
  part of it.
\<close>

subsection \<open>Messages\<close>

record state_patch =
  sp_id :: nat
  sp_state :: string
  sp_retry :: "nat option"
  sp_ends :: "rat option"
  sp_threshold :: "rat option"
  sp_status :: "nat option"
  sp_source :: "status_source option"

datatype list_message =
    Upsert capture_summary
  | Patch_State state_patch
  | Prune "nat list"
  | Clear_List
  | Vision_Clear

definition plain_patch :: "nat \<Rightarrow> string \<Rightarrow> nat option \<Rightarrow> state_patch" where
  "plain_patch i state retry =
     \<lparr>sp_id = i, sp_state = state, sp_retry = retry, sp_ends = None, sp_threshold = None, sp_status = None,
      sp_source = None\<rparr>"

subsection \<open>The dashboard\<close>

definition MAX_CAPTURES :: nat where
  "MAX_CAPTURES = 200"

text \<open>\<open>{...next[i], ...capture}\<close> with the values that a null does not replace.\<close>

definition merge_summary :: "capture_summary \<Rightarrow> capture_summary \<Rightarrow> capture_summary" where
  "merge_summary old s =
     s\<lparr>su_status := coalesce_column (su_status s) (su_status old),
       su_source := coalesce_column (su_source s) (su_source old),
       su_model := coalesce_column (su_model s) (su_model old),
       su_ttft_p50 := coalesce_column (su_ttft_p50 s) (su_ttft_p50 old),
       su_tps_p50 := coalesce_column (su_tps_p50 s) (su_tps_p50 old)\<rparr>"

definition shown_id :: "shown_capture \<Rightarrow> nat" where
  "shown_id e = su_id (sh_summary e)"

text \<open>The first entry with the id is replaced.\<close>

fun update_first :: "nat \<Rightarrow> (shown_capture \<Rightarrow> shown_capture) \<Rightarrow> shown_capture list \<Rightarrow> shown_capture list" where
  "update_first i f [] = []"
| "update_first i f (e # es) = (if shown_id e = i then f e # es else e # update_first i f es)"

definition upsert :: "capture_summary \<Rightarrow> shown_capture list \<Rightarrow> shown_capture list" where
  "upsert s es =
     (if su_id s \<in> set (map shown_id es)
      then update_first (su_id s) (\<lambda>e. e\<lparr>sh_summary := merge_summary (sh_summary e) s\<rparr>) es
      else take MAX_CAPTURES (plain_shown s # es))"

definition patch_entry :: "state_patch \<Rightarrow> shown_capture \<Rightarrow> shown_capture" where
  "patch_entry p e =
     (let s = (sh_summary e)\<lparr>su_state := sp_state p\<rparr>;
          s = (case sp_status p of None \<Rightarrow> s | Some n \<Rightarrow> s\<lparr>su_status := Some n\<rparr>);
          s = (case sp_source p of None \<Rightarrow> s | Some n \<Rightarrow> s\<lparr>su_source := Some n\<rparr>);
          cooling = (sp_state p = ''cooling_down'')
      in \<lparr>sh_summary = s, sh_retry = sp_retry p, sh_ends = (if cooling then sp_ends p else None),
          sh_threshold = (if cooling then sp_threshold p else sh_threshold e)\<rparr>)"

fun on_message :: "list_message \<Rightarrow> shown_capture list \<Rightarrow> shown_capture list" where
  "on_message (Upsert s) es = upsert s es"
| "on_message (Patch_State p) es = update_first (sp_id p) (patch_entry p) es"
| "on_message (Prune ids) es = filter (\<lambda>e. shown_id e \<notin> set ids) es"
| "on_message Clear_List es = []"
| "on_message Vision_Clear es = filter (\<lambda>e. \<not> su_vision (sh_summary e)) es"

subsection \<open>The server\<close>

text \<open>The rows, the request of each capture with the model it asks for, and the captures with a final
  update in the store.\<close>

record list_server =
  ls_rows :: "capture_row list"
  ls_next :: nat
  ls_count :: nat
  ls_max :: nat
  ls_requests :: "(nat \<times> (request_meta \<times> string option)) list"
  ls_settled :: "nat list"
  ls_cooldowns :: in_flight_cooldowns

definition new_list_server :: "nat \<Rightarrow> list_server" where
  "new_list_server maxCaptures =
     \<lparr>ls_rows = [], ls_next = 1, ls_count = 0, ls_max = maxCaptures, ls_requests = [], ls_settled = [],
      ls_cooldowns = []\<rparr>"

record row_world =
  rw_pack :: "string \<Rightarrow> nat list"
  rw_compress :: bool
  rw_protocols :: protocols

datatype list_op =
    Insert_Early request_meta string string string "string option"
  | Permit_Granted nat
  | Body_Replaced nat string nat
  | P50_Learned nat rat "rat option"
  | Cooldown_Starts nat in_flight_cooldown
  | Cooldown_Over nat nat
  | Response_Arrived nat nat
  | First_Chunk_Seen nat rat
  | Batch_Written rat "(nat \<times> response_meta) list"
  | Update_Dropped nat
  | Captures_Cleared

definition modify_row :: "nat \<Rightarrow> (capture_row \<Rightarrow> capture_row) \<Rightarrow> list_server \<Rightarrow> list_server" where
  "modify_row i f sv = sv\<lparr>ls_rows := update_where i f (ls_rows sv)\<rparr>"

definition insert_early ::
  "row_world \<Rightarrow> request_meta \<Rightarrow> string \<Rightarrow> string \<Rightarrow> string \<Rightarrow> string option \<Rightarrow> list_server \<Rightarrow>
   list_server \<times> list_message list" where
  "insert_early w meta url headers body model sv =
     (let i = ls_next sv;
          cfg = rw_protocols w;
          p = \<lparr>in_method = rq_meta_method meta, in_path = rq_meta_path meta, in_url = url, in_headers = headers,
               in_body = body, in_size = rq_meta_size meta, in_started = rq_meta_started meta,
               in_state = ''enqueued'', in_incoming = pt_incoming cfg, in_upstream = pt_upstream cfg\<rparr>;
          rows = ls_rows sv @ [inserted_row (rw_pack w) (rw_compress w) i p];
          excess = (ls_count sv + 1) - ls_max sv;
          pruned = (if excess > 0 then map cr_id (take excess (drop (ls_max sv) (rev (sort_key cr_id rows)))) else []);
          sv1 = sv\<lparr>ls_rows := filter (\<lambda>r. cr_id r \<notin> set pruned) rows, ls_next := i + 1,
                  ls_count := (if excess > 0 then ls_max sv else ls_count sv + 1),
                  ls_requests := obj_set (ls_requests sv) i (meta, model)\<rparr>
      in (sv1, (if pruned = [] then [] else [Prune pruned]) @
               [Upsert (new_summary i meta cfg ''enqueued'' model)]))"

definition body_replaced ::
  "row_world \<Rightarrow> nat \<Rightarrow> string \<Rightarrow> nat \<Rightarrow> list_server \<Rightarrow> list_server \<times> list_message list" where
  "body_replaced w i body sz sv =
     (case obj_get (ls_requests sv) i of
        None \<Rightarrow> (sv, [])
      | Some (meta, model) \<Rightarrow>
          (let meta' = meta\<lparr>rq_meta_size := sz\<rparr>;
               sv1 = modify_row i (\<lambda>r. r\<lparr>cr_request_body := compress_text (rw_pack w) (rw_compress w) (Some body),
                                        cr_request_size := sz\<rparr>) sv
           in (sv1\<lparr>ls_requests := obj_set (ls_requests sv1) i (meta', model)\<rparr>,
               [Upsert (new_summary i meta' (rw_protocols w) ''enqueued'' model)])))"

definition p50_learned :: "nat \<Rightarrow> rat \<Rightarrow> rat option \<Rightarrow> list_server \<Rightarrow> list_server \<times> list_message list" where
  "p50_learned i ttft tps sv =
     (let sv1 = modify_row i (\<lambda>r. r\<lparr>cr_ttft_p50 := Some ttft, cr_tps_p50 := tps\<rparr>) sv
      in (sv1, (case find_row i (ls_rows sv1) of None \<Rightarrow> [] | Some r \<Rightarrow> [Upsert (summary_of_row r)])))"

definition first_chunk_seen ::
  "row_world \<Rightarrow> nat \<Rightarrow> rat \<Rightarrow> list_server \<Rightarrow> list_server \<times> list_message list" where
  "first_chunk_seen w i ttft sv =
     (case obj_get (ls_requests sv) i of
        None \<Rightarrow> (sv, [])
      | Some (meta, model) \<Rightarrow>
          (sv, [Upsert ((new_summary i meta (rw_protocols w) ''streaming'' model)\<lparr>su_ttft := Some ttft\<rparr>)]))"

text \<open>The messages of a flush are built from the queued updates, not from the rows.\<close>

definition flush_message :: "row_world \<Rightarrow> list_server \<Rightarrow> nat \<times> response_meta \<Rightarrow> list_message list" where
  "flush_message w sv it =
     (case obj_get (ls_requests sv) (fst it) of
        None \<Rightarrow> []
      | Some (meta, model) \<Rightarrow>
          [Upsert (build_summary (fst it) meta (snd it) (rw_protocols w) (upstream_p50 (fst it) (ls_rows sv)))])"

definition batch_written ::
  "row_world \<Rightarrow> rat \<Rightarrow> (nat \<times> response_meta) list \<Rightarrow> list_server \<Rightarrow> list_server \<times> list_message list" where
  "batch_written w now items sv =
     (let sv1 = fold (\<lambda>(i, res). modify_row i (finished_row (rw_pack w) (rw_compress w) now res)) items sv;
          sv2 = sv1\<lparr>ls_settled := map fst items @ ls_settled sv1\<rparr>
      in (sv2, concat (map (flush_message w sv2) items)))"

fun list_step :: "row_world \<Rightarrow> list_op \<Rightarrow> list_server \<Rightarrow> list_server \<times> list_message list" where
  "list_step w (Insert_Early meta url headers body model) sv = insert_early w meta url headers body model sv"
| "list_step w (Permit_Granted i) sv =
     (modify_row i (\<lambda>r. r\<lparr>cr_state := ''streaming''\<rparr>) sv, [Patch_State (plain_patch i ''streaming'' None)])"
| "list_step w (Body_Replaced i body sz) sv = body_replaced w i body sz sv"
| "list_step w (P50_Learned i ttft tps) sv = p50_learned i ttft tps sv"
| "list_step w (Cooldown_Starts i cd) sv =
     (sv\<lparr>ls_cooldowns := start_cooldown i cd (ls_cooldowns sv)\<rparr>,
      [Patch_State \<lparr>sp_id = i, sp_state = ''cooling_down'', sp_retry = Some (fc_retry cd),
                    sp_ends = Some (fc_ends cd), sp_threshold = fc_threshold cd, sp_status = None,
                    sp_source = None\<rparr>])"
| "list_step w (Cooldown_Over i retry) sv =
     (sv\<lparr>ls_cooldowns := clear_cooldown i (ls_cooldowns sv)\<rparr>,
      [Patch_State (plain_patch i ''streaming'' (Some retry))])"
| "list_step w (Response_Arrived i status) sv =
     (sv, [Patch_State ((plain_patch i ''streaming'' None)\<lparr>sp_status := Some status, sp_source := Some FromUpstream\<rparr>)])"
| "list_step w (First_Chunk_Seen i ttft) sv = first_chunk_seen w i ttft sv"
| "list_step w (Batch_Written now items) sv = batch_written w now items sv"
| "list_step w (Update_Dropped i) sv =
     (modify_row i (\<lambda>r. r\<lparr>cr_state := ''failed''\<rparr>) sv, [Patch_State (plain_patch i ''failed'' None)])"
| "list_step w Captures_Cleared sv = (sv\<lparr>ls_rows := [], ls_count := 0\<rparr>, [Clear_List])"

text \<open>
  The order of a request's operations: what it does before its final update comes before that update
  is stored, and updates are of captures that were made. One path breaks it: a stream the permit
  watchdog flushes before its first chunk announces that chunk afterwards.
\<close>

fun in_order :: "list_op \<Rightarrow> list_server \<Rightarrow> bool" where
  "in_order (Permit_Granted i) sv = (i \<notin> set (ls_settled sv))"
| "in_order (Body_Replaced i body sz) sv = (i \<notin> set (ls_settled sv))"
| "in_order (Cooldown_Starts i cd) sv = (i \<notin> set (ls_settled sv))"
| "in_order (Cooldown_Over i retry) sv = (i \<notin> set (ls_settled sv))"
| "in_order (Response_Arrived i status) sv = (i \<notin> set (ls_settled sv))"
| "in_order (First_Chunk_Seen i ttft) sv = (i \<notin> set (ls_settled sv))"
| "in_order (Batch_Written now items) sv = list_all (\<lambda>it. fst it < ls_next sv) items"
| "in_order _ sv = True"

text \<open>
  \<open>loadList\<close>: the server answers the query with the rows of that moment, the dashboard sorts the
  answer newest first when it arrives and replaces its list by it.
\<close>

definition load_list :: "rat \<Rightarrow> list_server \<Rightarrow> list_server \<times> shown_capture list" where
  "load_list now sv =
     (let (tracker, es) = captures_route now (int MAX_CAPTURES) (ls_rows sv) (ls_cooldowns sv)
      in (sv\<lparr>ls_cooldowns := tracker\<rparr>, rev (sort_key shown_id es)))"

text \<open>
  A server and a dashboard: \<open>lv_wire\<close> are the messages under way on the socket, \<open>lv_answers\<close> the answers
  to queries that have not arrived, each with the number of operations done when it was computed.
  Messages arrive in the order they were sent, answers at any time and in any order.
\<close>

record live_state =
  lv_server :: list_server
  lv_operations :: nat
  lv_wire :: "list_message list"
  lv_answers :: "(nat \<times> shown_capture list) list"
  lv_list :: "shown_capture list"

definition new_live :: "nat \<Rightarrow> live_state" where
  "new_live maxCaptures =
     \<lparr>lv_server = new_list_server maxCaptures, lv_operations = 0, lv_wire = [], lv_answers = [], lv_list = []\<rparr>"

datatype live_event =
    Operation list_op
  | Message_Arrives
  | List_Asked rat
  | List_Arrives nat

fun live_step :: "row_world \<Rightarrow> live_event \<Rightarrow> live_state \<Rightarrow> live_state" where
  "live_step w (Operation e) st =
     (let (sv, ms) = list_step w e (lv_server st)
      in st\<lparr>lv_server := sv, lv_operations := lv_operations st + 1, lv_wire := lv_wire st @ ms\<rparr>)"
| "live_step w Message_Arrives st =
     (case lv_wire st of
        [] \<Rightarrow> st
      | m # ms \<Rightarrow> st\<lparr>lv_wire := ms, lv_list := on_message m (lv_list st)\<rparr>)"
| "live_step w (List_Asked now) st =
     (let (sv, es) = load_list now (lv_server st)
      in st\<lparr>lv_server := sv, lv_answers := lv_answers st @ [(lv_operations st, es)]\<rparr>)"
| "live_step w (List_Arrives k) st =
     (if k < length (lv_answers st)
      then st\<lparr>lv_answers := take k (lv_answers st) @ drop (Suc k) (lv_answers st),
              lv_list := snd (lv_answers st ! k)\<rparr>
      else st)"

definition live_run :: "row_world \<Rightarrow> live_event list \<Rightarrow> live_state \<Rightarrow> live_state" where
  "live_run w evs st = fold (live_step w) evs st"

text \<open>
  A run in which every request keeps its order, and every answer arrives before the server does anything
  else and with no message under way.
\<close>

fun orderly :: "live_event \<Rightarrow> live_state \<Rightarrow> bool" where
  "orderly (Operation e) st = in_order e (lv_server st)"
| "orderly Message_Arrives st = True"
| "orderly (List_Asked now) st = True"
| "orderly (List_Arrives k) st =
     (k < length (lv_answers st) \<and> fst (lv_answers st ! k) = lv_operations st \<and> lv_wire st = [])"

fun orderly_run :: "row_world \<Rightarrow> live_event list \<Rightarrow> live_state \<Rightarrow> bool" where
  "orderly_run w [] st = True"
| "orderly_run w (ev # evs) st = (orderly ev st \<and> orderly_run w evs (live_step w ev st))"

end
