(* ===== verification/Dashboard_Props.thy ===== *)
theory Dashboard_Props
  imports Dashboard_List
begin

text \<open>
  The list of a dashboard follows the rows of the store: what the messages of the socket leave on it
  is what loading the list anew would put there.
\<close>

subsection \<open>Merging\<close>

definition same_request :: "protocols \<Rightarrow> request_meta \<Rightarrow> capture_summary \<Rightarrow> bool" where
  "same_request cfg meta s \<longleftrightarrow>
     su_method s = rq_meta_method meta \<and> su_path s = rq_meta_path meta \<and> su_request_size s = rq_meta_size meta \<and>
     su_started s = Some (rq_meta_started meta) \<and> su_incoming s = pt_incoming cfg \<and>
     su_upstream s = pt_upstream cfg \<and> \<not> su_vision s"

lemma coalesce_simps [simp]:
  "coalesce_column a (coalesce_column a b) = coalesce_column a b" "coalesce_column a a = a"
  "coalesce_column (coalesce_column a b) a = coalesce_column a b"
  by (simp_all add: coalesce_column_def split: option.split)

lemma merge_id [simp]: "su_id (merge_summary old s) = su_id s"
  by (simp add: merge_summary_def)

lemma merge_self [simp]: "merge_summary s s = s"
  by (simp add: merge_summary_def)

lemma merge_again [simp]: "merge_summary (merge_summary old s) s = merge_summary old s"
  by (simp add: merge_summary_def)

lemma same_request_merge [simp]: "same_request cfg meta (merge_summary old s) = same_request cfg meta s"
  by (simp add: merge_summary_def same_request_def)

lemma same_request_state [simp]: "same_request cfg meta (s\<lparr>su_state := x\<rparr>) = same_request cfg meta s"
  "same_request cfg meta (s\<lparr>su_ttft := y\<rparr>) = same_request cfg meta s"
  by (simp_all add: same_request_def)

lemma same_request_new [simp]: "same_request cfg meta (new_summary i meta cfg st model)"
  "su_id (new_summary i meta cfg st model) = i"
  by (simp_all add: same_request_def new_summary_def)

lemma same_request_build [simp]: "same_request cfg meta (build_summary i meta res cfg p50)"
  "su_id (build_summary i meta res cfg p50) = i"
  by (simp_all add: same_request_def build_summary_def Let_def)

lemma summary_id [simp]: "su_id (summary_of_row r) = cr_id r"
  by (simp add: summary_of_row_def)

subsection \<open>Messages\<close>

lemma shown_id_simps [simp]: "shown_id (e\<lparr>sh_summary := s\<rparr>) = su_id s" "shown_id (plain_shown s) = su_id s"
  by (simp_all add: shown_id_def plain_shown_def)

lemma update_first_ids:
  "(\<And>e. shown_id e = i \<Longrightarrow> shown_id (f e) = i) \<Longrightarrow> map shown_id (update_first i f es) = map shown_id es"
  by (induction es) auto

lemma update_first_mem:
  "\<lbrakk>e \<in> set (update_first i f es); distinct (map shown_id es); \<And>e. shown_id e = i \<Longrightarrow> shown_id (f e) = i\<rbrakk>
   \<Longrightarrow> (e \<in> set es \<and> shown_id e \<noteq> i) \<or> (\<exists>e0 \<in> set es. shown_id e0 = i \<and> e = f e0)"
  by (induction es) (auto split: if_splits simp: image_iff)

lemma upsert_mem:
  assumes "e \<in> set (upsert s es)" "distinct (map shown_id es)"
  shows "(e \<in> set es \<and> shown_id e \<noteq> su_id s) \<or> (shown_id e = su_id s \<and> (\<exists>old. sh_summary e = merge_summary old s))"
proof (cases "su_id s \<in> set (map shown_id es)")
  case True
  with assms have e: "e \<in> set (update_first (su_id s) (\<lambda>e. e\<lparr>sh_summary := merge_summary (sh_summary e) s\<rparr>) es)"
    by (simp only: upsert_def if_True)
  show ?thesis using update_first_mem [OF e assms(2)] by auto
next
  case False
  then have "e = plain_shown s \<or> e \<in> set es"
    using assms(1) by (auto simp: upsert_def simp del: take_Suc_Cons dest: in_set_takeD)
  moreover have "sh_summary (plain_shown s) = merge_summary s s" by (simp add: plain_shown_def)
  ultimately show ?thesis using False by (metis image_eqI list.set_map shown_id_simps(2))
qed

lemma upsert_map:
  "map shown_id (upsert s es) =
     (if su_id s \<in> set (map shown_id es) then map shown_id es else take MAX_CAPTURES (su_id s # map shown_id es))"
proof -
  have "map shown_id (update_first (su_id s) (\<lambda>e. e\<lparr>sh_summary := merge_summary (sh_summary e) s\<rparr>) es)
      = map shown_id es" by (rule update_first_ids) simp
  then show ?thesis by (simp add: upsert_def take_map [symmetric] del: take_Suc_Cons)
qed

lemma upsert_ids:
  "set (map shown_id (upsert s es)) \<subseteq> insert (su_id s) (set (map shown_id es))"
  "distinct (map shown_id es) \<Longrightarrow> distinct (map shown_id (upsert s es))"
  "length es < MAX_CAPTURES \<Longrightarrow> set (map shown_id (upsert s es)) = insert (su_id s) (set (map shown_id es))"
proof -
  show "set (map shown_id (upsert s es)) \<subseteq> insert (su_id s) (set (map shown_id es))"
    unfolding upsert_map using set_take_subset [of MAX_CAPTURES "su_id s # map shown_id es"] by auto
  show "distinct (map shown_id es) \<Longrightarrow> distinct (map shown_id (upsert s es))"
    unfolding upsert_map by (metis distinct.simps(2) distinct_take)
  show "length es < MAX_CAPTURES \<Longrightarrow> set (map shown_id (upsert s es)) = insert (su_id s) (set (map shown_id es))"
    unfolding upsert_map by auto
qed

lemma patch_id [simp]: "shown_id (patch_entry p e) = shown_id e"
  by (simp add: patch_entry_def shown_id_def Let_def split: option.split)

lemma same_request_patch [simp]: "same_request cfg meta (sh_summary (patch_entry p e)) = same_request cfg meta (sh_summary e)"
  by (simp add: patch_entry_def same_request_def Let_def split: option.split)

lemma patch_ids [simp]: "map shown_id (update_first i (patch_entry p) es) = map shown_id es"
  by (rule update_first_ids) simp

lemma patch_mem:
  "\<lbrakk>e \<in> set (update_first i (patch_entry p) es); distinct (map shown_id es)\<rbrakk>
   \<Longrightarrow> (e \<in> set es \<and> shown_id e \<noteq> i) \<or> (\<exists>e0 \<in> set es. shown_id e0 = i \<and> shown_id e = i \<and> e = patch_entry p e0)"
  by (drule update_first_mem) auto

subsection \<open>The invariant\<close>

definition rows_ok :: "row_world \<Rightarrow> list_server \<Rightarrow> bool" where
  "rows_ok w sv \<longleftrightarrow>
     0 < ls_next sv \<and> distinct (map cr_id (ls_rows sv)) \<and>
     (\<forall>r \<in> set (ls_rows sv). \<exists>meta model. obj_get (ls_requests sv) (cr_id r) = Some (meta, model) \<and>
        same_request (rw_protocols w) meta (summary_of_row r)) \<and>
     (\<forall>i. obj_get (ls_requests sv) i \<noteq> None \<longrightarrow> 0 < i \<and> i < ls_next sv) \<and>
     (\<forall>i \<in> set (ls_settled sv). i < ls_next sv) \<and>
     (\<forall>r \<in> set (ls_rows sv). cr_id r \<in> set (ls_settled sv) \<longrightarrow> cr_state r = ''done'' \<or> cr_state r = ''failed'')"

definition fits ::
  "row_world \<Rightarrow> (nat \<times> (request_meta \<times> string option)) list \<Rightarrow> nat \<Rightarrow> capture_summary \<Rightarrow> bool" where
  "fits w requests i s \<longleftrightarrow> (\<exists>meta model. obj_get requests i = Some (meta, model) \<and>
     same_request (rw_protocols w) meta s)"

text \<open>The entries of a list agree with the rows, but for those of the captures of a set.\<close>

definition list_ok :: "row_world \<Rightarrow> nat set \<Rightarrow> list_server \<Rightarrow> shown_capture list \<Rightarrow> bool" where
  "list_ok w X sv es \<longleftrightarrow>
     distinct (map shown_id es) \<and>
     (\<forall>e \<in> set es. obj_get (ls_requests sv) (shown_id e) \<noteq> None \<and>
        (shown_id e \<notin> X \<longrightarrow> fits w (ls_requests sv) (shown_id e) (sh_summary e))) \<and>
     (\<forall>r \<in> set (ls_rows sv). \<forall>e \<in> set es.
        shown_id e = cr_id r \<and> cr_id r \<in> set (ls_settled sv) \<and> cr_id r \<notin> X \<longrightarrow>
        merge_summary (sh_summary e) (summary_of_row r) = sh_summary e) \<and>
     (ls_next sv \<le> MAX_CAPTURES + 1 \<longrightarrow> cr_id ` set (ls_rows sv) \<subseteq> shown_id ` set es)"

lemma rows_ok_request:
  "\<lbrakk>rows_ok w sv; r \<in> set (ls_rows sv)\<rbrakk> \<Longrightarrow> \<exists>meta model. obj_get (ls_requests sv) (cr_id r) = Some (meta, model) \<and>
     same_request (rw_protocols w) meta (summary_of_row r)"
  by (simp add: rows_ok_def)

lemma rows_ok_range: "\<lbrakk>rows_ok w sv; obj_get (ls_requests sv) i \<noteq> None\<rbrakk> \<Longrightarrow> 0 < i \<and> i < ls_next sv"
  by (simp add: rows_ok_def)

lemma list_ok_entry:
  "\<lbrakk>list_ok w X sv es; e \<in> set es\<rbrakk> \<Longrightarrow> obj_get (ls_requests sv) (shown_id e) \<noteq> None \<and>
     (shown_id e \<notin> X \<longrightarrow> fits w (ls_requests sv) (shown_id e) (sh_summary e))"
  by (simp add: list_ok_def)

lemma list_ok_row:
  "\<lbrakk>list_ok w X sv es; r \<in> set (ls_rows sv); e \<in> set es; shown_id e = cr_id r; cr_id r \<in> set (ls_settled sv);
    cr_id r \<notin> X\<rbrakk> \<Longrightarrow> merge_summary (sh_summary e) (summary_of_row r) = sh_summary e"
  by (simp add: list_ok_def)

lemma few_entries:
  assumes rows: "rows_ok w sv" and es: "list_ok w X sv es" and few: "ls_next sv \<le> MAX_CAPTURES + 1"
    and new: "obj_get (ls_requests sv) i \<noteq> None" "i \<notin> set (map shown_id es)"
  shows "length es < MAX_CAPTURES"
proof -
  have "insert i (set (map shown_id es)) \<subseteq> {1..<ls_next sv}"
  proof
    fix j assume "j \<in> insert i (set (map shown_id es))"
    then have "obj_get (ls_requests sv) j \<noteq> None" using new list_ok_entry [OF es] by fastforce
    from rows_ok_range [OF rows this] show "j \<in> {1..<ls_next sv}" by simp
  qed
  then have "card (insert i (set (map shown_id es))) \<le> card {1..<ls_next sv}"
    by (rule card_mono [OF finite_atLeastLessThan])
  moreover have "card (set (map shown_id es)) = length es"
    using es distinct_card [of "map shown_id es"] by (simp add: list_ok_def)
  ultimately show ?thesis using new(2) few by simp
qed

lemma upsert_ok:
  assumes rows: "rows_ok w sv" and es: "list_ok w X sv es"
    and request: "obj_get (ls_requests sv) (su_id s) = Some (meta, model)" "same_request (rw_protocols w) meta s"
    and row: "\<And>r. \<lbrakk>r \<in> set (ls_rows sv); cr_id r = su_id s; cr_id r \<in> set (ls_settled sv); cr_id r \<notin> Y\<rbrakk>
      \<Longrightarrow> s = summary_of_row r"
    and less: "X \<subseteq> insert (su_id s) Y"
  shows "list_ok w Y sv (upsert s es)"
  unfolding list_ok_def
proof (intro conjI ballI impI)
  have d: "distinct (map shown_id es)" using es by (simp add: list_ok_def)
  show "distinct (map shown_id (upsert s es))" by (rule upsert_ids(2) [OF d])
  show "obj_get (ls_requests sv) (shown_id e) \<noteq> None"
    "shown_id e \<notin> Y \<Longrightarrow> fits w (ls_requests sv) (shown_id e) (sh_summary e)" if e: "e \<in> set (upsert s es)" for e
    using upsert_mem [OF e d] list_ok_entry [OF es, of e] less request by (auto simp: fits_def)
  show "merge_summary (sh_summary e) (summary_of_row r) = sh_summary e"
    if e: "e \<in> set (upsert s es)" and r: "r \<in> set (ls_rows sv)"
      and same: "shown_id e = cr_id r \<and> cr_id r \<in> set (ls_settled sv) \<and> cr_id r \<notin> Y" for e r
    using upsert_mem [OF e d]
  proof (elim disjE conjE exE)
    assume "e \<in> set es" "shown_id e \<noteq> su_id s"
    then show ?thesis using list_ok_row [OF es r] same less by auto
  next
    fix old assume "shown_id e = su_id s" "sh_summary e = merge_summary old s"
    moreover have "s = summary_of_row r" using row [OF r] same \<open>shown_id e = su_id s\<close> by simp
    ultimately show ?thesis by simp
  qed
  show "cr_id ` set (ls_rows sv) \<subseteq> shown_id ` set (upsert s es)" if few: "ls_next sv \<le> MAX_CAPTURES + 1"
  proof -
    have old: "cr_id ` set (ls_rows sv) \<subseteq> shown_id ` set es" using es few by (simp add: list_ok_def)
    show ?thesis
    proof (cases "su_id s \<in> set (map shown_id es)")
      case True
      then have "set (map shown_id (upsert s es)) = set (map shown_id es)" by (simp only: upsert_map if_True)
      then show ?thesis using old by simp
    next
      case False
      then have "length es < MAX_CAPTURES" by (intro few_entries [OF rows es few, of "su_id s"]) (simp_all add: request)
      from upsert_ids(3) [OF this] show ?thesis using old by auto
    qed
  qed
qed

lemma fits_patch [simp]: "fits w requests i (sh_summary (patch_entry p e)) = fits w requests i (sh_summary e)"
  by (simp add: fits_def)

lemma patch_ok:
  assumes "list_ok w X sv es" "i \<notin> set (ls_settled sv)"
  shows "list_ok w X sv (update_first i (patch_entry p) es)"
proof -
  have d: "distinct (map shown_id es)" using assms(1) by (simp add: list_ok_def)
  have ids: "shown_id ` set (update_first i (patch_entry p) es) = shown_id ` set es"
    using patch_ids [of i p es] by (metis list.set_map)
  show ?thesis
    using assms d by (auto simp: list_ok_def ids dest!: patch_mem [OF _ d])
qed

subsection \<open>Changing rows\<close>

lemma update_where_mem:
  "r \<in> set (update_where i f rows) \<longleftrightarrow> (\<exists>r0 \<in> set rows. r = (if cr_id r0 = i then f r0 else r0))"
  unfolding update_where_def list.set_map image_iff ..

lemma update_where_ids: "(\<And>r. cr_id (f r) = cr_id r) \<Longrightarrow> map cr_id (update_where i f rows) = map cr_id rows"
  by (simp add: update_where_def comp_def)

lemma modify_simps [simp]:
  "ls_rows (modify_row i f sv) = update_where i f (ls_rows sv)" "ls_next (modify_row i f sv) = ls_next sv"
  "ls_requests (modify_row i f sv) = ls_requests sv" "ls_settled (modify_row i f sv) = ls_settled sv"
  by (simp_all add: modify_row_def)

text \<open>A change of the row of a capture that keeps its request.\<close>

lemma modify_rows_ok:
  assumes rows: "rows_ok w sv" and f: "\<And>r. cr_id (f r) = cr_id r"
    "\<And>r meta. cr_id r = i \<Longrightarrow> same_request (rw_protocols w) meta (summary_of_row r) \<Longrightarrow>
       same_request (rw_protocols w) meta (summary_of_row (f r))"
    "\<And>r. i \<in> set (ls_settled sv) \<Longrightarrow> cr_state r = ''done'' \<or> cr_state r = ''failed'' \<Longrightarrow>
       cr_state (f r) = ''done'' \<or> cr_state (f r) = ''failed''"
  shows "rows_ok w (modify_row i f sv)"
proof -
  have ids: "map cr_id (update_where i f (ls_rows sv)) = map cr_id (ls_rows sv)" by (rule update_where_ids [OF f(1)])
  have clauses: "(\<exists>meta model. obj_get (ls_requests sv) (cr_id r) = Some (meta, model) \<and>
        same_request (rw_protocols w) meta (summary_of_row r)) \<and>
      (cr_id r \<in> set (ls_settled sv) \<longrightarrow> cr_state r = ''done'' \<or> cr_state r = ''failed'')"
    if "r \<in> set (update_where i f (ls_rows sv))" for r
  proof -
    from that obtain r0 where r0: "r0 \<in> set (ls_rows sv)" "r = (if cr_id r0 = i then f r0 else r0)"
      by (auto simp: update_where_mem)
    moreover from rows_ok_request [OF rows r0(1)] obtain meta model where
      "obj_get (ls_requests sv) (cr_id r0) = Some (meta, model)"
      "same_request (rw_protocols w) meta (summary_of_row r0)" by blast
    moreover have "cr_id r0 \<in> set (ls_settled sv) \<Longrightarrow> cr_state r0 = ''done'' \<or> cr_state r0 = ''failed''"
      using rows r0(1) by (simp add: rows_ok_def)
    ultimately show ?thesis using f by auto
  qed
  show ?thesis
    using rows clauses unfolding rows_ok_def modify_simps ids by simp
qed

lemma modify_list_ok:
  assumes es: "list_ok w X sv es" and f: "\<And>r. cr_id (f r) = cr_id r"
    and i: "i \<in> X \<or> i \<notin> set (ls_settled sv)"
  shows "list_ok w X (modify_row i f sv) es"
proof -
  have ids: "cr_id ` set (update_where i f (ls_rows sv)) = cr_id ` set (ls_rows sv)"
    using update_where_ids [OF f, of i "ls_rows sv"] by (metis list.set_map)
  show ?thesis
    unfolding list_ok_def modify_simps ids
  proof (intro conjI)
    show "\<forall>r \<in> set (update_where i f (ls_rows sv)). \<forall>e \<in> set es.
        shown_id e = cr_id r \<and> cr_id r \<in> set (ls_settled sv) \<and> cr_id r \<notin> X \<longrightarrow>
        merge_summary (sh_summary e) (summary_of_row r) = sh_summary e"
    proof (intro ballI impI)
      fix r e assume "r \<in> set (update_where i f (ls_rows sv))" and e: "e \<in> set es"
        and same: "shown_id e = cr_id r \<and> cr_id r \<in> set (ls_settled sv) \<and> cr_id r \<notin> X"
      then obtain r0 where r0: "r0 \<in> set (ls_rows sv)" "r = (if cr_id r0 = i then f r0 else r0)"
        by (auto simp: update_where_mem)
      then have "r = r0" using same i f by (auto split: if_splits)
      then show "merge_summary (sh_summary e) (summary_of_row r) = sh_summary e"
        using list_ok_row [OF es r0(1) e] same by simp
    qed
  qed (use es in \<open>simp_all add: list_ok_def\<close>)
qed

lemma list_ok_mono: "\<lbrakk>list_ok w X sv es; X \<subseteq> Y\<rbrakk> \<Longrightarrow> list_ok w Y sv es"
  by (auto simp: list_ok_def)

lemma find_row_mem: "find_row i rows = Some r \<Longrightarrow> r \<in> set rows \<and> cr_id r = i"
  by (auto simp: find_row_def find_Some_iff)

lemma find_row_distinct: "\<lbrakk>distinct (map cr_id rows); r \<in> set rows\<rbrakk> \<Longrightarrow> find_row (cr_id r) rows = Some r"
  by (induction rows) (auto simp: find_row_def image_iff)

lemma same_row: "\<lbrakk>rows_ok w sv; r \<in> set (ls_rows sv); find_row (cr_id r) (ls_rows sv) = Some r'\<rbrakk> \<Longrightarrow> r' = r"
  using find_row_distinct by (fastforce simp: rows_ok_def)

subsection \<open>A flush\<close>

definition last_response :: "(nat \<times> response_meta) list \<Rightarrow> nat \<Rightarrow> response_meta option" where
  "last_response items = map_of (rev items)"

lemma last_response_simps [simp]:
  "last_response [] i = None"
  "last_response (items @ [(j, res)]) i = (if i = j then Some res else last_response items i)"
  by (simp_all add: last_response_def)

lemma last_response_Cons:
  "last_response (it # items) i =
     (case last_response items i of Some res \<Rightarrow> Some res | None \<Rightarrow> if i = fst it then Some (snd it) else None)"
  by (cases it) (auto simp: last_response_def map_add_def split: option.split)

lemma last_response_None: "last_response items i = None \<longleftrightarrow> i \<notin> fst ` set items"
  by (auto simp: last_response_def map_of_eq_None_iff)

lemma finished_simps [simp]:
  "cr_id (finished_row pack c now res r) = cr_id r" "cr_state (finished_row pack c now res r) = ''done''"
  "same_request cfg meta (summary_of_row (finished_row pack c now res r)) = same_request cfg meta (summary_of_row r)"
  by (simp_all add: finished_row_def same_request_def summary_of_row_def Let_def)

text \<open>What is broadcast after a flush is the summary of the row it wrote.\<close>

lemma built_is_row:
  assumes "same_request cfg meta (summary_of_row r)" "r = finished_row pack c now res r0"
  shows "build_summary (cr_id r) meta res cfg (Some (cr_ttft_p50 r, cr_tps_p50 r)) = summary_of_row r"
  using assms
  by (auto simp: build_summary_def summary_of_row_def finished_row_def same_request_def Let_def option.map_comp
      comp_def intro!: option.map_cong0)

lemma written_rows:
  assumes "sv' = fold (\<lambda>(i, res). modify_row i (finished_row pack c now res)) items sv"
  shows "ls_next sv' = ls_next sv \<and> ls_requests sv' = ls_requests sv \<and> ls_settled sv' = ls_settled sv \<and>
    (\<forall>r \<in> set (ls_rows sv'). case last_response items (cr_id r) of
       None \<Rightarrow> r \<in> set (ls_rows sv) | Some res \<Rightarrow> \<exists>r0. r = finished_row pack c now res r0)"
  using assms
proof (induction items arbitrary: sv' rule: rev_induct)
  case (snoc it items)
  obtain j res where it: "it = (j, res)" by (cases it)
  let ?sv = "fold (\<lambda>(i, res). modify_row i (finished_row pack c now res)) items sv"
  have sv': "sv' = modify_row j (finished_row pack c now res) ?sv" using snoc.prems it by simp
  have "case last_response (items @ [it]) (cr_id r) of
      None \<Rightarrow> r \<in> set (ls_rows sv) | Some res \<Rightarrow> \<exists>r0. r = finished_row pack c now res r0"
    if "r \<in> set (ls_rows sv')" for r
  proof -
    from that obtain r0 where "r0 \<in> set (ls_rows ?sv)"
      "r = (if cr_id r0 = j then finished_row pack c now res r0 else r0)"
      by (auto simp: sv' update_where_mem)
    then show ?thesis using snoc.IH [OF refl] it by (cases "cr_id r0 = j") auto
  qed
  then show ?case using snoc.IH [OF refl] by (simp add: sv')
qed simp

lemma finish_rows_ok: "rows_ok w sv \<Longrightarrow> rows_ok w (modify_row i (finished_row pack c now res) sv)"
  by (rule modify_rows_ok) simp_all

lemma written_rows_ok:
  "rows_ok w sv \<Longrightarrow> rows_ok w (fold (\<lambda>(i, res). modify_row i (finished_row pack c now res)) items sv)"
  by (induction items arbitrary: sv) (auto simp: finish_rows_ok)

lemma flush_messages_ok:
  assumes rows: "rows_ok w sv"
    and es: "list_ok w (fst ` set items) sv es"
    and built: "\<And>r res. \<lbrakk>r \<in> set (ls_rows sv); last_response items (cr_id r) = Some res\<rbrakk> \<Longrightarrow>
      \<exists>r0. r = finished_row (rw_pack w) (rw_compress w) now res r0"
  shows "list_ok w {} sv (fold on_message (concat (map (flush_message w sv) items)) es)"
  using es built
proof (induction items arbitrary: es)
  case (Cons it items)
  obtain j res where it: "it = (j, res)" by (cases it)
  let ?es = "fold on_message (flush_message w sv it) es"
  have "list_ok w (fst ` set items) sv ?es"
  proof (cases "obj_get (ls_requests sv) j")
    case None
    then have "cr_id r \<noteq> j" if "r \<in> set (ls_rows sv)" for r using rows_ok_request [OF rows that] by auto
    moreover have "shown_id e \<noteq> j" if "e \<in> set es" for e using list_ok_entry [OF Cons.prems(1) that] None by auto
    ultimately have "list_ok w (fst ` set items) sv es" using Cons.prems(1) by (auto simp: list_ok_def it)
    then show ?thesis using None by (simp add: flush_message_def it)
  next
    case (Some mm)
    obtain meta model where mm: "mm = (meta, model)" by (cases mm)
    let ?s = "build_summary j meta res (rw_protocols w) (upstream_p50 j (ls_rows sv))"
    have "list_ok w (fst ` set items) sv (upsert ?s es)"
    proof (rule upsert_ok [OF rows Cons.prems(1)])
      show "?s = summary_of_row r" if r: "r \<in> set (ls_rows sv)" "cr_id r = su_id ?s" "cr_id r \<notin> fst ` set items" for r
      proof -
        have "last_response (it # items) (cr_id r) = Some res"
          using r(2,3) by (simp add: last_response_Cons last_response_None [THEN iffD2] it)
        then obtain r0 where r0: "r = finished_row (rw_pack w) (rw_compress w) now res r0"
          using Cons.prems(2) r(1) by blast
        have "find_row j (ls_rows sv) = Some r"
          using find_row_distinct [of "ls_rows sv" r] rows r(1,2) by (simp add: rows_ok_def)
        moreover have "same_request (rw_protocols w) meta (summary_of_row r)"
          using rows_ok_request [OF rows r(1)] r(2) Some mm by auto
        ultimately show ?thesis using built_is_row [OF _ r0] r(2) by (simp add: upstream_p50_def)
      qed
    qed (use Some mm it in auto)
    then show ?thesis using Some mm by (simp add: flush_message_def it)
  qed
  from Cons.IH [OF this] Cons.prems(2) show ?case by (simp add: last_response_Cons)
qed simp

lemma batch_ok:
  assumes rows: "rows_ok w sv" and es: "list_ok w {} sv es"
    and order: "list_all (\<lambda>it. fst it < ls_next sv) items"
  shows "rows_ok w (fst (batch_written w now items sv)) \<and>
    list_ok w {} (fst (batch_written w now items sv)) (fold on_message (snd (batch_written w now items sv)) es)"
proof -
  let ?sv = "fold (\<lambda>(i, res). modify_row i (finished_row (rw_pack w) (rw_compress w) now res)) items sv"
  let ?sv' = "?sv\<lparr>ls_settled := map fst items @ ls_settled ?sv\<rparr>"
  note kept = written_rows [OF refl, of "rw_pack w" "rw_compress w" now items sv]
  have r1: "rows_ok w ?sv" by (rule written_rows_ok [OF rows])
  have settled: "cr_state r = ''done''" if "r \<in> set (ls_rows ?sv)" "cr_id r \<in> fst ` set items" for r
    using kept that last_response_None [of items "cr_id r"] by (auto split: option.splits dest!: bspec)
  have r2: "rows_ok w ?sv'"
    using r1 settled order kept by (auto simp: rows_ok_def list_all_iff)
  have l1: "list_ok w (fst ` set items) ?sv es"
    using es
  proof (induction items arbitrary: sv rule: rev_induct)
    case (snoc it items)
    obtain j res where it: "it = (j, res)" by (cases it)
    let ?sv = "fold (\<lambda>(i, res). modify_row i (finished_row (rw_pack w) (rw_compress w) now res)) items sv"
    have "list_ok w (fst ` set items) ?sv es" by (rule snoc.IH [OF snoc.prems])
    then have "list_ok w (fst ` set (items @ [it])) ?sv es" by (rule list_ok_mono) auto
    then have "list_ok w (fst ` set (items @ [it])) (modify_row j (finished_row (rw_pack w) (rw_compress w) now res) ?sv) es"
      by (rule modify_list_ok) (simp_all add: it)
    then show ?case by (simp add: it)
  qed simp
  have l2: "list_ok w (fst ` set items) ?sv' es"
    using l1 by (auto simp: list_ok_def)
  have "list_ok w {} ?sv' (fold on_message (concat (map (flush_message w ?sv') items)) es)"
  proof (rule flush_messages_ok [OF r2 l2])
    show "\<exists>r0. r = finished_row (rw_pack w) (rw_compress w) now res r0"
      if "r \<in> set (ls_rows ?sv')" "last_response items (cr_id r) = Some res" for r res
      using kept that by (auto dest!: bspec)
  qed
  with r2 show ?thesis by (simp add: batch_written_def Let_def)
qed

subsection \<open>A new capture\<close>

lemma prune_ok:
  "list_ok w X sv es \<Longrightarrow> list_ok w X (sv\<lparr>ls_rows := filter (\<lambda>r. cr_id r \<notin> set ids) (ls_rows sv)\<rparr>)
     (filter (\<lambda>e. shown_id e \<notin> set ids) es)"
  by (auto simp: list_ok_def distinct_map_filter)

lemma add_row_ok:
  "\<lbrakk>list_ok w X sv es; cr_id r \<notin> set (ls_settled sv); cr_id r \<in> shown_id ` set es\<rbrakk>
   \<Longrightarrow> list_ok w X (sv\<lparr>ls_rows := ls_rows sv @ [r]\<rparr>) es"
  by (auto simp: list_ok_def)

lemma upsert_has: "su_id s \<in> shown_id ` set (upsert s es)"
proof -
  have "su_id s \<in> set (map shown_id (upsert s es))" unfolding upsert_map by (simp add: MAX_CAPTURES_def)
  then show ?thesis by simp
qed

lemma inserted_simps [simp]:
  "cr_id (inserted_row pack c i p) = i" "cr_state (inserted_row pack c i p) = in_state p"
  by (simp_all add: inserted_row_def)

lemma same_request_inserted:
  "\<lbrakk>in_method p = rq_meta_method meta; in_path p = rq_meta_path meta; in_size p = rq_meta_size meta;
    in_started p = rq_meta_started meta; in_incoming p = pt_incoming cfg; in_upstream p = pt_upstream cfg\<rbrakk>
   \<Longrightarrow> same_request cfg meta (summary_of_row (inserted_row pack c i p))"
  by (simp add: same_request_def summary_of_row_def inserted_row_def text_or_empty_def)

lemma request_made:
  assumes rows: "rows_ok w sv" and es: "list_ok w {} sv es" and i: "i = ls_next sv"
  shows "rows_ok w (sv\<lparr>ls_next := Suc i, ls_requests := obj_set (ls_requests sv) i (meta, model), ls_count := n\<rparr>)"
    "list_ok w {} (sv\<lparr>ls_next := Suc i, ls_requests := obj_set (ls_requests sv) i (meta, model), ls_count := n\<rparr>) es"
proof -
  have fresh: "obj_get (ls_requests sv) i = None" using rows_ok_range [OF rows, of i] i by (cases "obj_get (ls_requests sv) i") auto
  show "rows_ok w (sv\<lparr>ls_next := Suc i, ls_requests := obj_set (ls_requests sv) i (meta, model), ls_count := n\<rparr>)"
    using rows fresh i by (fastforce simp: rows_ok_def obj_get_set)
  show "list_ok w {} (sv\<lparr>ls_next := Suc i, ls_requests := obj_set (ls_requests sv) i (meta, model), ls_count := n\<rparr>) es"
  proof -
    have "obj_get (obj_set (ls_requests sv) i (meta, model)) (shown_id e) \<noteq> None \<and>
        fits w (obj_set (ls_requests sv) i (meta, model)) (shown_id e) (sh_summary e)" if "e \<in> set es" for e
      using list_ok_entry [OF es that] fresh by (auto simp: fits_def obj_get_set)
    then show ?thesis using es i by (simp add: list_ok_def)
  qed
qed

lemma insert_ok:
  assumes rows: "rows_ok w sv" and es: "list_ok w {} sv es"
    and step: "insert_early w meta url headers body model sv = (sv', ms)"
  shows "rows_ok w sv' \<and> list_ok w {} sv' (fold on_message ms es)"
proof -
  define i where "i = ls_next sv"
  define p where "p = \<lparr>in_method = rq_meta_method meta, in_path = rq_meta_path meta, in_url = url,
    in_headers = headers, in_body = body, in_size = rq_meta_size meta, in_started = rq_meta_started meta,
    in_state = ''enqueued'', in_incoming = pt_incoming (rw_protocols w), in_upstream = pt_upstream (rw_protocols w)\<rparr>"
  define r where "r = inserted_row (rw_pack w) (rw_compress w) i p"
  define excess where "excess = (ls_count sv + 1) - ls_max sv"
  define ids where "ids = (if excess > 0
    then map cr_id (take excess (drop (ls_max sv) (rev (sort_key cr_id (ls_rows sv @ [r]))))) else [])"
  define n where "n = (if excess > 0 then ls_max sv else ls_count sv + 1)"
  note parts = p_def [symmetric] i_def [symmetric] r_def [symmetric] excess_def [symmetric] ids_def [symmetric]
    n_def [symmetric]
  have sv': "sv' = sv\<lparr>ls_rows := filter (\<lambda>r. cr_id r \<notin> set ids) (ls_rows sv @ [r]), ls_next := Suc i, ls_count := n,
                  ls_requests := obj_set (ls_requests sv) i (meta, model)\<rparr>"
    and ms: "ms = (if ids = [] then [] else [Prune ids]) @ [Upsert (new_summary i meta (rw_protocols w) ''enqueued'' model)]"
    using step unfolding insert_early_def Let_def parts by simp_all
  have r: "cr_id r = i" "cr_state r = ''enqueued''" "same_request (rw_protocols w) meta (summary_of_row r)"
    by (simp_all add: r_def p_def same_request_inserted)
  define s1 where "s1 = sv\<lparr>ls_next := Suc i, ls_requests := obj_set (ls_requests sv) i (meta, model), ls_count := n\<rparr>"
  define s2 where "s2 = s1\<lparr>ls_rows := filter (\<lambda>r. cr_id r \<notin> set ids) (ls_rows s1)\<rparr>"
  define es2 where "es2 = filter (\<lambda>e. shown_id e \<notin> set ids) es"
  note made = request_made [OF rows es i_def, where meta = meta and model = model and n = n, folded s1_def]
  have ok2: "rows_ok w s2" "list_ok w {} s2 es2"
    using made(1) prune_ok [OF made(2), of ids]
    by (auto simp: rows_ok_def s2_def es2_def distinct_map_filter)
  let ?s = "new_summary i meta (rw_protocols w) ''enqueued'' model"
  have unsettled: "i \<notin> set (ls_settled sv)" using rows by (auto simp: rows_ok_def i_def)
  have no_row: "i \<notin> cr_id ` set (ls_rows s2)"
    using rows_ok_range [OF rows, of i] rows_ok_request [OF rows] by (fastforce simp: s2_def s1_def i_def)
  have request: "obj_get (ls_requests s2) i = Some (meta, model)" by (simp add: s2_def s1_def obj_get_set)
  have l3: "list_ok w {} s2 (upsert ?s es2)"
    by (rule upsert_ok [OF ok2, where meta = meta and model = model]) (use request no_row in auto)
  have fold: "fold on_message ms es = upsert ?s es2"
    by (cases "ids = []") (simp_all add: ms es2_def)
  show ?thesis
  proof (cases "i \<in> set ids")
    case True
    then have "sv' = s2" by (simp add: sv' s2_def s1_def r)
    then show ?thesis using ok2 l3 fold by simp
  next
    case False
    then have s': "sv' = s2\<lparr>ls_rows := ls_rows s2 @ [r]\<rparr>" by (simp add: sv' s2_def s1_def r)
    have "list_ok w {} sv' (upsert ?s es2)"
      unfolding s' by (rule add_row_ok [OF l3]) (use unsettled upsert_has [of ?s es2] r in \<open>auto simp: s2_def s1_def\<close>)
    moreover have "rows_ok w sv'"
      using ok2(1) no_row r request unsettled unfolding s' by (auto simp: rows_ok_def s2_def s1_def)
    ultimately show ?thesis using fold by simp
  qed
qed

subsection \<open>Loading the list\<close>

lemma enrich_one_mem:
  "enrich_one now s tracker = (tracker', s') \<Longrightarrow> s' = s \<or>
     (su_state (sh_summary s) \<in> {''streaming'', ''enqueued''} \<and>
      sh_summary s' = (sh_summary s)\<lparr>su_state := ''cooling_down''\<rparr>)"
  by (auto simp: enrich_one_def Let_def split: option.splits if_splits)

lemma enrich_ids: "map shown_id (snd (enrich now ss tracker)) = map shown_id ss"
proof (induction ss arbitrary: tracker)
  case (Cons s ss)
  obtain tracker' s' where one: "enrich_one now s tracker = (tracker', s')" by fastforce
  have "shown_id s' = shown_id s" using enrich_one_mem [OF one] by (auto simp: shown_id_def)
  then show ?case using Cons.IH [of tracker'] by (simp add: one case_prod_unfold Let_def)
qed simp

lemma enrich_mem:
  "e \<in> set (snd (enrich now ss tracker)) \<Longrightarrow> \<exists>s \<in> set ss. e = s \<or>
     (su_state (sh_summary s) \<in> {''streaming'', ''enqueued''} \<and>
      sh_summary e = (sh_summary s)\<lparr>su_state := ''cooling_down''\<rparr>)"
proof (induction ss arbitrary: tracker)
  case (Cons s ss)
  obtain tracker' s' where one: "enrich_one now s tracker = (tracker', s')" by fastforce
  have "e = s' \<or> e \<in> set (snd (enrich now ss tracker'))"
    using Cons.prems by (simp add: one case_prod_unfold Let_def)
  then show ?case
  proof
    assume "e = s'"
    then show ?thesis using enrich_one_mem [OF one] by auto
  next
    assume "e \<in> set (snd (enrich now ss tracker'))"
    from Cons.IH [OF this] show ?thesis by auto
  qed
qed simp

lemma list_rows_max: "list_rows (int MAX_CAPTURES) rows = take MAX_CAPTURES (rev (sort_key cr_id rows))"
  by (simp add: list_rows_def MAX_CAPTURES_def Let_def)

lemma load_list_step:
  assumes "load_list now sv = (sv', es)"
  shows "ls_rows sv' = ls_rows sv" "ls_next sv' = ls_next sv" "ls_requests sv' = ls_requests sv"
    "ls_settled sv' = ls_settled sv"
    "set (map shown_id es) = set (map cr_id (take MAX_CAPTURES (rev (sort_key cr_id (ls_rows sv)))))"
    "length es = min MAX_CAPTURES (length (ls_rows sv))"
    "e \<in> set es \<Longrightarrow> \<exists>r \<in> set (ls_rows sv). shown_id e = cr_id r \<and> (sh_summary e = summary_of_row r \<or>
       (cr_state r \<in> {''streaming'', ''enqueued''} \<and> sh_summary e = (summary_of_row r)\<lparr>su_state := ''cooling_down''\<rparr>))"
proof -
  let ?rows = "take MAX_CAPTURES (rev (sort_key cr_id (ls_rows sv)))"
  let ?ss = "map (plain_shown \<circ> summary_of_row) ?rows"
  let ?out = "snd (enrich now ?ss (ls_cooldowns sv))"
  have es: "es = rev (sort_key shown_id ?out)" and "sv' = sv\<lparr>ls_cooldowns := fst (enrich now ?ss (ls_cooldowns sv))\<rparr>"
    using assms by (auto simp: load_list_def captures_route_def list_rows_max case_prod_unfold Let_def)
  then show "ls_rows sv' = ls_rows sv" "ls_next sv' = ls_next sv" "ls_requests sv' = ls_requests sv"
    "ls_settled sv' = ls_settled sv" by simp_all
  have ids: "map shown_id ?out = map cr_id ?rows" unfolding enrich_ids by (simp add: comp_def)
  have "set (map shown_id es) = set (map shown_id ?out)" by (simp add: es)
  then show "set (map shown_id es) = set (map cr_id ?rows)" by (simp only: ids)
  have "length es = length ?out" by (simp add: es)
  then show "length es = min MAX_CAPTURES (length (ls_rows sv))"
    using arg_cong [OF ids, of length] by simp
  show "\<exists>r \<in> set (ls_rows sv). shown_id e = cr_id r \<and> (sh_summary e = summary_of_row r \<or>
       (cr_state r \<in> {''streaming'', ''enqueued''} \<and> sh_summary e = (summary_of_row r)\<lparr>su_state := ''cooling_down''\<rparr>))"
    if "e \<in> set es"
  proof -
    from that have "e \<in> set ?out" by (simp add: es)
    from enrich_mem [OF this] obtain s where s: "s \<in> set ?ss" "e = s \<or>
        (su_state (sh_summary s) \<in> {''streaming'', ''enqueued''} \<and>
         sh_summary e = (sh_summary s)\<lparr>su_state := ''cooling_down''\<rparr>)" by blast
    from s(1) obtain r where "r \<in> set ?rows" "s = plain_shown (summary_of_row r)" by auto
    moreover from this(1) have "r \<in> set (ls_rows sv)" using set_take_subset by fastforce
    ultimately show ?thesis using s(2)
      by (intro bexI [of _ r]) (auto simp: shown_id_def plain_shown_def summary_of_row_def)
  qed
qed

lemma load_distinct:
  assumes d: "distinct (map cr_id (ls_rows sv))" and step: "load_list now sv = (sv', es)"
  shows "distinct (map shown_id es)" "length es \<le> MAX_CAPTURES"
proof -
  note ld = load_list_step [OF step]
  have "distinct (map cr_id (rev (sort_key cr_id (ls_rows sv))))" using d by (simp add: distinct_map)
  from distinct_take [OF this, of MAX_CAPTURES]
  have "distinct (map cr_id (take MAX_CAPTURES (rev (sort_key cr_id (ls_rows sv)))))" by (simp only: take_map)
  from distinct_card [OF this] have "card (set (map shown_id es)) = length es"
    unfolding ld(5) using ld(6) by simp
  then show "distinct (map shown_id es)" by (simp add: card_distinct)
  show "length es \<le> MAX_CAPTURES" using ld(6) by simp
qed

lemma load_ok:
  assumes rows: "rows_ok w sv" and step: "load_list now sv = (sv', es)"
  shows "rows_ok w sv' \<and> list_ok w {} sv' es"
proof -
  note ld = load_list_step [OF step]
  let ?rows = "take MAX_CAPTURES (rev (sort_key cr_id (ls_rows sv)))"
  have d: "distinct (map cr_id (ls_rows sv))" using rows by (simp add: rows_ok_def)
  have "list_ok w {} sv' es"
    unfolding list_ok_def ld(1,2,4)
  proof (intro conjI ballI impI)
    show "distinct (map shown_id es)" by (rule load_distinct(1) [OF d step])
    show "obj_get (ls_requests sv') (shown_id e) \<noteq> None" "fits w (ls_requests sv') (shown_id e) (sh_summary e)" if "e \<in> set es" for e
    proof -
      from ld(7) [OF that] obtain r where r: "r \<in> set (ls_rows sv)" "shown_id e = cr_id r"
        "sh_summary e = summary_of_row r \<or> sh_summary e = (summary_of_row r)\<lparr>su_state := ''cooling_down''\<rparr>" by blast
      from rows_ok_request [OF rows r(1)] r(2,3)
      show "obj_get (ls_requests sv') (shown_id e) \<noteq> None" "fits w (ls_requests sv') (shown_id e) (sh_summary e)"
        by (auto simp: fits_def ld(3))
    qed
    show "merge_summary (sh_summary e) (summary_of_row r) = sh_summary e"
      if r: "r \<in> set (ls_rows sv)" and e: "e \<in> set es"
        and same: "shown_id e = cr_id r \<and> cr_id r \<in> set (ls_settled sv) \<and> cr_id r \<notin> {}" for r e
    proof -
      from ld(7) [OF e] obtain r' where r': "r' \<in> set (ls_rows sv)" "shown_id e = cr_id r'"
        "sh_summary e = summary_of_row r' \<or> (cr_state r' \<in> {''streaming'', ''enqueued''} \<and>
           sh_summary e = (summary_of_row r')\<lparr>su_state := ''cooling_down''\<rparr>)" by blast
      have "r' = r" using d r r'(1,2) same by (metis distinct_map inj_onD)
      moreover have "cr_state r = ''done'' \<or> cr_state r = ''failed''" using rows r same by (simp add: rows_ok_def)
      ultimately show ?thesis using r'(3) by auto
    qed
    show "cr_id ` set (ls_rows sv) \<subseteq> shown_id ` set es" if few: "ls_next sv \<le> MAX_CAPTURES + 1"
    proof -
      have "cr_id ` set (ls_rows sv) \<subseteq> {1..<ls_next sv}"
      proof
        fix i assume "i \<in> cr_id ` set (ls_rows sv)"
        then have "obj_get (ls_requests sv) i \<noteq> None" using rows_ok_request [OF rows] by fastforce
        from rows_ok_range [OF rows this] show "i \<in> {1..<ls_next sv}" by simp
      qed
      from card_mono [OF finite_atLeastLessThan this] have "card (cr_id ` set (ls_rows sv)) \<le> MAX_CAPTURES"
        using few by simp
      moreover have "card (set (map cr_id (ls_rows sv))) = length (ls_rows sv)" using distinct_card [OF d] by simp
      ultimately have "?rows = rev (sort_key cr_id (ls_rows sv))" by simp
      then show ?thesis using ld(5) by simp
    qed
  qed
  moreover have "rows_ok w sv'" using rows by (simp add: rows_ok_def ld)
  ultimately show ?thesis by simp
qed

subsection \<open>Runs\<close>

lemma p50_ok:
  assumes rows: "rows_ok w sv" and es: "list_ok w {} sv es" and step: "p50_learned i ttft tps sv = (sv', ms)"
  shows "rows_ok w sv' \<and> list_ok w {} sv' (fold on_message ms es)"
proof -
  let ?f = "\<lambda>r. r\<lparr>cr_ttft_p50 := Some ttft, cr_tps_p50 := tps\<rparr>"
  have sv': "sv' = modify_row i ?f sv"
    and ms: "ms = (case find_row i (ls_rows sv') of None \<Rightarrow> [] | Some r \<Rightarrow> [Upsert (summary_of_row r)])"
    using step by (auto simp: p50_learned_def Let_def)
  have r1: "rows_ok w sv'"
    unfolding sv' by (rule modify_rows_ok [OF rows]) (auto simp: same_request_def summary_of_row_def)
  have l1: "list_ok w {i} sv' es"
    unfolding sv' by (rule modify_list_ok [OF list_ok_mono [OF es]]) simp_all
  show ?thesis
  proof (cases "find_row i (ls_rows sv')")
    case None
    then have "cr_id r \<noteq> i" if "r \<in> set (ls_rows sv')" for r using that by (auto simp: find_row_def find_None_iff)
    moreover have "fits w (ls_requests sv') (shown_id e) (sh_summary e)" if "e \<in> set es" for e
      using list_ok_entry [OF es that] by (simp add: sv')
    ultimately have "list_ok w {} sv' es" using l1 by (auto simp: list_ok_def)
    then show ?thesis using r1 None ms by simp
  next
    case (Some r)
    then have r: "r \<in> set (ls_rows sv')" "cr_id r = i" using find_row_mem by blast+
    obtain meta model where request: "obj_get (ls_requests sv') (cr_id r) = Some (meta, model)"
      "same_request (rw_protocols w) meta (summary_of_row r)" using rows_ok_request [OF r1 r(1)] by blast
    have "list_ok w {} sv' (upsert (summary_of_row r) es)"
    proof (rule upsert_ok [OF r1 l1])
      show "summary_of_row r = summary_of_row r'" if "r' \<in> set (ls_rows sv')" "cr_id r' = su_id (summary_of_row r)" for r'
        using same_row [OF r1 that(1)] that(2) Some r(2) by simp
    qed (use request r in auto)
    then show ?thesis using r1 Some ms by simp
  qed
qed

lemma upsert_unsettled_ok:
  assumes "rows_ok w sv" "list_ok w {} sv es" "obj_get (ls_requests sv) (su_id s) = Some (meta, model)"
    "same_request (rw_protocols w) meta s" "su_id s \<notin> set (ls_settled sv)"
  shows "list_ok w {} sv (upsert s es)"
  by (rule upsert_ok [OF assms(1-4)]) (use assms(5) in auto)

lemma body_replaced_ok:
  assumes rows: "rows_ok w sv" and es: "list_ok w {} sv es" and i: "i \<notin> set (ls_settled sv)"
    and step: "body_replaced w i body sz sv = (sv', ms)"
  shows "rows_ok w sv' \<and> list_ok w {} sv' (fold on_message ms es)"
proof (cases "obj_get (ls_requests sv) i")
  case None
  then show ?thesis using step rows es by (simp add: body_replaced_def)
next
  case (Some mm)
  obtain meta model where mm: "mm = (meta, model)" by (cases mm)
  let ?meta = "meta\<lparr>rq_meta_size := sz\<rparr>"
  let ?f = "\<lambda>r. r\<lparr>cr_request_body := compress_text (rw_pack w) (rw_compress w) (Some body), cr_request_size := sz\<rparr>"
  let ?s = "new_summary i ?meta (rw_protocols w) ''enqueued'' model"
  have sv': "sv' = sv\<lparr>ls_rows := update_where i ?f (ls_rows sv), ls_requests := obj_set (ls_requests sv) i (?meta, model)\<rparr>"
    and ms: "ms = [Upsert ?s]"
    using step Some mm by (auto simp: body_replaced_def modify_row_def Let_def)
  have sized: "same_request (rw_protocols w) ?meta (summary_of_row (?f r))"
    if "same_request (rw_protocols w) meta (summary_of_row r)" for r
    using that by (simp add: same_request_def summary_of_row_def)
  have ids: "map cr_id (update_where i ?f (ls_rows sv)) = map cr_id (ls_rows sv)" by (rule update_where_ids) simp
  have r1: "rows_ok w sv'"
  proof -
    have "(\<exists>meta' model'. obj_get (ls_requests sv') (cr_id r) = Some (meta', model') \<and>
          same_request (rw_protocols w) meta' (summary_of_row r)) \<and>
        (cr_id r \<in> set (ls_settled sv') \<longrightarrow> cr_state r = ''done'' \<or> cr_state r = ''failed'')"
      if "r \<in> set (ls_rows sv')" for r
    proof -
      from that obtain r0 where r0: "r0 \<in> set (ls_rows sv)" "r = (if cr_id r0 = i then ?f r0 else r0)"
        by (auto simp: sv' update_where_mem)
      moreover have "cr_id r0 \<in> set (ls_settled sv) \<Longrightarrow> cr_state r0 = ''done'' \<or> cr_state r0 = ''failed''"
        using rows r0(1) by (simp add: rows_ok_def)
      ultimately show ?thesis
        using rows_ok_request [OF rows r0(1)] sized [of r0] Some mm i by (auto simp: sv' obj_get_set)
    qed
    moreover have "obj_get (ls_requests sv') j \<noteq> None \<Longrightarrow> obj_get (ls_requests sv) j \<noteq> None" for j
      using Some by (auto simp: sv' obj_get_set split: if_splits)
    moreover have "map cr_id (ls_rows sv') = map cr_id (ls_rows sv)" by (simp add: sv' ids)
    ultimately show ?thesis using rows unfolding rows_ok_def by (simp add: sv')
  qed
  have "list_ok w {i} (modify_row i ?f sv) es"
    by (rule modify_list_ok [OF list_ok_mono [OF es]]) simp_all
  then have l1: "list_ok w {i} sv' es"
    using Some mm by (auto simp: list_ok_def sv' obj_get_set fits_def)
  have "list_ok w {} sv' (upsert ?s es)"
    by (rule upsert_ok [OF r1 l1, of _ ?meta model]) (use i in \<open>auto simp: sv' obj_get_set\<close>)
  then show ?thesis using r1 ms by simp
qed

lemma plain_patch_id [simp]: "sp_id (plain_patch i st retry) = i"
  by (simp add: plain_patch_def)

lemma quiet_step_ok: "\<lbrakk>rows_ok w sv; list_ok w {} sv es\<rbrakk> \<Longrightarrow>
    rows_ok w (sv\<lparr>ls_cooldowns := c\<rparr>) \<and> list_ok w {} (sv\<lparr>ls_cooldowns := c\<rparr>) es"
  by (simp add: rows_ok_def list_ok_def)

lemma granted_ok:
  assumes "rows_ok w sv" "list_ok w {} sv es" "i \<notin> set (ls_settled sv)"
  shows "rows_ok w (modify_row i (\<lambda>r. r\<lparr>cr_state := st\<rparr>) sv) \<and>
    list_ok w {} (modify_row i (\<lambda>r. r\<lparr>cr_state := st\<rparr>) sv) (update_first i (patch_entry p) es)"
proof -
  have "rows_ok w (modify_row i (\<lambda>r. r\<lparr>cr_state := st\<rparr>) sv)"
    by (rule modify_rows_ok [OF assms(1)]) (use assms(3) in \<open>simp_all add: same_request_def summary_of_row_def\<close>)
  moreover have "list_ok w {} (modify_row i (\<lambda>r. r\<lparr>cr_state := st\<rparr>) sv) es"
    by (rule modify_list_ok [OF assms(2)]) (use assms(3) in simp_all)
  ultimately show ?thesis using patch_ok assms(3) by simp
qed

lemma plain_patch_summary:
  "sh_summary (patch_entry (plain_patch i st retry) e) = (sh_summary e)\<lparr>su_state := st\<rparr>"
  by (simp add: patch_entry_def plain_patch_def Let_def)

lemma merge_state: "merge_summary (a\<lparr>su_state := x\<rparr>) (b\<lparr>su_state := x\<rparr>) = (merge_summary a b)\<lparr>su_state := x\<rparr>"
  by (simp add: merge_summary_def)

lemma summary_state: "summary_of_row (r\<lparr>cr_state := x\<rparr>) = (summary_of_row r)\<lparr>su_state := x\<rparr>"
  by (simp add: summary_of_row_def)

lemma dropped_ok:
  assumes rows: "rows_ok w sv" and es: "list_ok w {} sv es"
  shows "rows_ok w (modify_row i (\<lambda>r. r\<lparr>cr_state := ''failed''\<rparr>) sv) \<and>
    list_ok w {} (modify_row i (\<lambda>r. r\<lparr>cr_state := ''failed''\<rparr>) sv)
      (update_first i (patch_entry (plain_patch i ''failed'' None)) es)"
proof -
  let ?f = "\<lambda>r. r\<lparr>cr_state := ''failed''\<rparr>" and ?p = "plain_patch i ''failed'' None"
  have d: "distinct (map shown_id es)" using es by (simp add: list_ok_def)
  have ids: "shown_id ` set (update_first i (patch_entry ?p) es) = shown_id ` set es"
    using patch_ids [of i ?p es] by (metis list.set_map)
  have row_ids: "cr_id ` set (update_where i ?f (ls_rows sv)) = cr_id ` set (ls_rows sv)"
  proof -
    have "map cr_id (update_where i ?f (ls_rows sv)) = map cr_id (ls_rows sv)" by (rule update_where_ids) simp
    from arg_cong [OF this, of set] show ?thesis by simp
  qed
  have merged: "merge_summary (sh_summary e) (summary_of_row r) = sh_summary e"
    if r: "r \<in> set (update_where i ?f (ls_rows sv))" and e: "e \<in> set (update_first i (patch_entry ?p) es)"
      and same: "shown_id e = cr_id r" "cr_id r \<in> set (ls_settled sv)" for r e
  proof -
    obtain r0 where r0: "r0 \<in> set (ls_rows sv)" "r = (if cr_id r0 = i then ?f r0 else r0)"
      using r by (auto simp: update_where_mem)
    have r0_id: "cr_id r0 = cr_id r" unfolding r0(2) by simp
    show ?thesis
      using patch_mem [OF e d]
    proof (elim disjE conjE bexE)
      assume other: "e \<in> set es" "shown_id e \<noteq> i"
      then have "cr_id r0 \<noteq> i" by (simp only: same(1) r0_id not_False_eq_True)
      then have "r = r0" by (simp only: r0(2) if_False)
      then show ?thesis using list_ok_row [OF es r0(1) other(1)] same by simp
    next
      fix e0 assume e0: "e0 \<in> set es" "shown_id e0 = i" "shown_id e = i" "e = patch_entry ?p e0"
      have "merge_summary (sh_summary e0) (summary_of_row r0) = sh_summary e0"
        using list_ok_row [OF es r0(1) e0(1)] r0_id e0(2,3) same by simp
      moreover have "cr_id r0 = i" by (simp only: r0_id e0(3) same(1)[symmetric])
      then have "r = ?f r0" by (simp only: r0(2) if_True refl)
      ultimately show ?thesis by (simp only: e0(4) plain_patch_summary summary_state merge_state)
    qed
  qed
  have entries: "obj_get (ls_requests sv) (shown_id e) \<noteq> None \<and> fits w (ls_requests sv) (shown_id e) (sh_summary e)"
    if e: "e \<in> set (update_first i (patch_entry ?p) es)" for e
    using patch_mem [OF e d]
  proof (elim disjE conjE bexE)
    fix e0 assume "e0 \<in> set es" "shown_id e0 = i" "shown_id e = i" "e = patch_entry ?p e0"
    then show ?thesis using list_ok_entry [OF es, of e0] by simp
  qed (use list_ok_entry [OF es] in simp)
  have "list_ok w {} (modify_row i ?f sv) (update_first i (patch_entry ?p) es)"
    unfolding list_ok_def modify_simps ids row_ids patch_ids
  proof (intro conjI ballI impI)
    show "ls_next sv \<le> MAX_CAPTURES + 1 \<Longrightarrow> cr_id ` set (ls_rows sv) \<subseteq> shown_id ` set es"
      using es by (simp add: list_ok_def)
  qed (use d merged entries in simp_all)
  moreover have "rows_ok w (modify_row i ?f sv)"
    by (rule modify_rows_ok [OF rows]) (simp_all add: same_request_def summary_of_row_def)
  ultimately show ?thesis by simp
qed

lemma first_chunk_ok:
  assumes "rows_ok w sv" "list_ok w {} sv es" "i \<notin> set (ls_settled sv)"
  shows "rows_ok w (fst (first_chunk_seen w i ttft sv)) \<and>
    list_ok w {} (fst (first_chunk_seen w i ttft sv)) (fold on_message (snd (first_chunk_seen w i ttft sv)) es)"
proof (cases "obj_get (ls_requests sv) i")
  case None
  then show ?thesis using assms by (simp add: first_chunk_seen_def)
next
  case (Some mm)
  obtain meta model where mm: "mm = (meta, model)" by (cases mm)
  let ?s = "(new_summary i meta (rw_protocols w) ''streaming'' model)\<lparr>su_ttft := Some ttft\<rparr>"
  have "su_id ?s = i" by (simp add: new_summary_def)
  moreover have "same_request (rw_protocols w) meta ?s" by simp
  ultimately have "list_ok w {} sv (upsert ?s es)"
    using upsert_unsettled_ok [OF assms(1,2), of ?s meta model] Some mm assms(3) by (simp only: simp_thms)
  then show ?thesis using assms(1) Some mm by (simp add: first_chunk_seen_def)
qed

lemma operation_ok:
  assumes "rows_ok w sv" "list_ok w {} sv es" "in_order e sv"
  shows "rows_ok w (fst (list_step w e sv)) \<and>
    list_ok w {} (fst (list_step w e sv)) (fold on_message (snd (list_step w e sv)) es)"
proof (cases e)
  case (Insert_Early meta url headers body model)
  then show ?thesis using insert_ok [OF assms(1,2) prod.collapse [symmetric]] by simp
next
  case (Permit_Granted i)
  then show ?thesis using granted_ok [OF assms(1,2)] assms(3) by simp
next
  case (Body_Replaced i body sz)
  then show ?thesis using body_replaced_ok [OF assms(1,2) _ prod.collapse [symmetric]] assms(3) by simp
next
  case (P50_Learned i ttft tps)
  then show ?thesis using p50_ok [OF assms(1,2) prod.collapse [symmetric]] by simp
next
  case (Cooldown_Starts i cd)
  then show ?thesis using quiet_step_ok [OF assms(1) patch_ok [OF assms(2)]] assms(3) by simp
next
  case (Cooldown_Over i retry)
  then show ?thesis using quiet_step_ok [OF assms(1) patch_ok [OF assms(2)]] assms(3) by simp
next
  case (Response_Arrived i status)
  then show ?thesis using assms patch_ok [OF assms(2)] by (simp add: plain_patch_def)
next
  case (First_Chunk_Seen i ttft)
  then show ?thesis using first_chunk_ok [OF assms(1,2)] assms(3) by simp
next
  case (Batch_Written now items)
  then show ?thesis using batch_ok [OF assms(1,2)] assms(3) by simp
next
  case (Update_Dropped i)
  then show ?thesis using dropped_ok [OF assms(1,2)] by (simp add: plain_patch_def)
next
  case Captures_Cleared
  then show ?thesis using assms(1) by (simp add: rows_ok_def list_ok_def)
qed

text \<open>Whatever happens, no id is used twice, in the rows or in a list, and a list is short.\<close>

definition rows_distinct :: "list_server \<Rightarrow> bool" where
  "rows_distinct sv = (distinct (map cr_id (ls_rows sv)) \<and> (\<forall>r\<in>set (ls_rows sv). cr_id r < ls_next sv))"

definition short_list :: "shown_capture list \<Rightarrow> bool" where
  "short_list es = (distinct (map shown_id es) \<and> length es \<le> MAX_CAPTURES)"

lemma rows_distinct_modify [simp]:
  assumes "\<And>r. cr_id (f r) = cr_id r"
  shows "rows_distinct (modify_row i f sv) = rows_distinct sv"
proof -
  have ids: "map cr_id (update_where i f (ls_rows sv)) = map cr_id (ls_rows sv)"
    by (rule update_where_ids [OF assms])
  have range: "(\<forall>r\<in>set rows. cr_id r < n) = list_all (\<lambda>j. j < n) (map cr_id rows)" for rows n
    by (auto simp: list_all_iff)
  show ?thesis unfolding rows_distinct_def range modify_simps ids ..
qed

lemma rows_distinct_frame [simp]:
  "rows_distinct (sv\<lparr>ls_cooldowns := c\<rparr>) = rows_distinct sv"
  "rows_distinct (sv\<lparr>ls_settled := ss\<rparr>) = rows_distinct sv"
  "rows_distinct (sv\<lparr>ls_requests := rs\<rparr>) = rows_distinct sv"
  by (simp_all add: rows_distinct_def)

lemma insert_rows_distinct: "rows_distinct sv \<Longrightarrow> rows_distinct (fst (insert_early w meta url headers body model sv))"
  by (auto simp: insert_early_def rows_distinct_def Let_def distinct_map_filter)

lemma written_rows_distinct:
  "rows_distinct (fold (\<lambda>(i, res). modify_row i (finished_row pack c now res)) items sv) = rows_distinct sv"
  by (induction items arbitrary: sv) (auto simp: case_prod_unfold)

lemma operation_rows_distinct: "rows_distinct sv \<Longrightarrow> rows_distinct (fst (list_step w e sv))"
  by (cases e)
    (auto simp: insert_rows_distinct written_rows_distinct body_replaced_def p50_learned_def first_chunk_seen_def
      batch_written_def Let_def split: option.split,
     auto simp: rows_distinct_def)

lemma message_short: "short_list es \<Longrightarrow> short_list (on_message m es)"
proof (cases m)
  case (Upsert s)
  assume short: "short_list es"
  have "length (upsert s es) \<le> MAX_CAPTURES"
    using short arg_cong [OF upsert_map, of length s es] by (simp add: short_list_def split: if_splits)
  then show ?thesis using short upsert_ids(2) by (simp add: Upsert short_list_def)
next
  case (Patch_State p)
  assume short: "short_list es"
  have "length (update_first (sp_id p) (patch_entry p) es) = length es"
    by (rule map_eq_imp_length_eq [OF patch_ids])
  then show ?thesis using short by (simp add: Patch_State short_list_def del: length_map)
qed (auto simp: short_list_def distinct_map_filter intro: le_trans [OF length_filter_le])

lemma messages_short: "short_list es \<Longrightarrow> short_list (fold on_message ms es)"
  by (induction ms arbitrary: es) (simp_all add: message_short)

definition live_short :: "live_state \<Rightarrow> bool" where
  "live_short st =
     (rows_distinct (lv_server st) \<and> short_list (lv_list st) \<and> (\<forall>a\<in>set (lv_answers st). short_list (snd a)))"

lemma live_step_short: "live_short st \<Longrightarrow> live_short (live_step w ev st)"
proof (cases ev)
  case (List_Asked now)
  assume short: "live_short st"
  obtain sv es where load: "load_list now (lv_server st) = (sv, es)" by fastforce
  have "rows_distinct sv" using short load_list_step(1,2) [OF load] by (simp add: live_short_def rows_distinct_def)
  moreover have "short_list es"
    using short load_distinct [OF _ load] by (simp add: live_short_def rows_distinct_def short_list_def)
  ultimately show ?thesis using short by (auto simp: List_Asked load live_short_def)
next
  case (List_Arrives k)
  assume short: "live_short st"
  then show ?thesis
    by (auto simp: List_Arrives live_short_def dest: in_set_takeD in_set_dropD nth_mem)
qed (auto simp: live_short_def operation_rows_distinct message_short case_prod_unfold Let_def split: list.split)

lemma live_run_short: "live_short st \<Longrightarrow> live_short (live_run w evs st)"
  unfolding live_run_def by (induction evs arbitrary: st) (simp_all add: live_step_short)

text \<open>
  In an orderly run the list, once the messages under way have arrived, agrees with the rows, and so does
  an answer under way as long as nothing else has happened.
\<close>

definition live_ok :: "row_world \<Rightarrow> live_state \<Rightarrow> bool" where
  "live_ok w st =
     (rows_ok w (lv_server st) \<and> list_ok w {} (lv_server st) (fold on_message (lv_wire st) (lv_list st)) \<and>
      (\<forall>(n, es)\<in>set (lv_answers st). n \<le> lv_operations st \<and>
         (n = lv_operations st \<longrightarrow> list_ok w {} (lv_server st) es)))"

lemma live_step_ok:
  assumes ok: "live_ok w st" and "orderly ev st"
  shows "live_ok w (live_step w ev st)"
proof (cases ev)
  case (Operation e)
  obtain sv ms where step: "list_step w e (lv_server st) = (sv, ms)" by fastforce
  have "rows_ok w sv \<and> list_ok w {} sv (fold on_message ms (fold on_message (lv_wire st) (lv_list st)))"
    using operation_ok [of w "lv_server st" "fold on_message (lv_wire st) (lv_list st)" e] assms
    by (simp add: Operation live_ok_def step)
  then show ?thesis using ok by (fastforce simp: Operation step live_ok_def)
next
  case Message_Arrives
  then show ?thesis using ok by (cases "lv_wire st") (simp_all add: live_ok_def)
next
  case (List_Asked now)
  obtain sv es where load: "load_list now (lv_server st) = (sv, es)" by fastforce
  have rows: "rows_ok w (lv_server st)" using ok by (simp add: live_ok_def)
  have frame: "list_ok w {} sv es' = list_ok w {} (lv_server st) es'" for es'
    by (simp add: list_ok_def load_list_step(1-4) [OF load])
  show ?thesis using ok load_ok [OF rows load] by (auto simp: List_Asked load live_ok_def frame)
next
  case (List_Arrives k)
  then have k: "k < length (lv_answers st)" "fst (lv_answers st ! k) = lv_operations st" "lv_wire st = []"
    using assms(2) by simp_all
  obtain n es where ne: "lv_answers st ! k = (n, es)" by fastforce
  have "(n, es) \<in> set (lv_answers st)" using nth_mem [OF k(1)] ne by simp
  then have "list_ok w {} (lv_server st) es" using ok k(2) ne by (auto simp: live_ok_def)
  then show ?thesis
    using ok k(1,3) ne by (auto simp: List_Arrives live_ok_def dest: in_set_takeD in_set_dropD)
qed

lemma live_run_ok: "live_ok w st \<Longrightarrow> orderly_run w evs st \<Longrightarrow> live_ok w (live_run w evs st)"
  unfolding live_run_def by (induction evs arbitrary: st) (simp_all add: live_step_ok)

lemma new_live_ok: "live_ok w (new_live n)" "live_short (new_live n)"
  by (simp_all add: live_ok_def live_short_def rows_ok_def list_ok_def rows_distinct_def short_list_def
      new_live_def new_list_server_def)

text \<open>
  C40: The list of a dashboard follows the rows of the store. Whatever requests, answers, flushes, prunings and
  reloads follow each other, no capture is listed twice and at most 200 are listed. In a run in which every
  request keeps the order of its operations (the permit watchdog does not flush a stream before its first
  chunk) and no list is loaded while the server goes on (an answer to a reload arrives before the next
  operation and with no message under way), the list, once the messages under way have arrived, agrees
  with the rows: an entry of a capture whose final update is stored is what merging its row into it would
  give, so the message built from the queued update says what the row says; and as long as no more than
  200 captures have been made, every capture of the store is listed.
\<close>

theorem dashboard_follows_the_rows:
  "let st = live_run w evs (new_live maxCaptures);
       sv = lv_server st;
       es = fold on_message (lv_wire st) (lv_list st)
   in distinct (map shown_id (lv_list st)) \<and> length (lv_list st) \<le> MAX_CAPTURES \<and>
      (if orderly_run w evs (new_live maxCaptures)
       then list_all (\<lambda>r. list_all (\<lambda>e.
              if shown_id e = cr_id r \<and> cr_id r \<in> set (ls_settled sv)
              then merge_summary (sh_summary e) (summary_of_row r) = sh_summary e else True) es) (ls_rows sv) \<and>
            (if ls_next sv \<le> MAX_CAPTURES + 1 then set (map cr_id (ls_rows sv)) \<subseteq> set (map shown_id es) else True)
       else True)"
proof -
  have "short_list (lv_list (live_run w evs (new_live maxCaptures)))"
    using live_run_short [OF new_live_ok(2)] by (simp add: live_short_def)
  moreover have "live_ok w (live_run w evs (new_live maxCaptures))"
    if "orderly_run w evs (new_live maxCaptures)"
    by (rule live_run_ok [OF new_live_ok(1) that])
  ultimately show ?thesis
    by (auto simp: Let_def short_list_def live_ok_def list_ok_def list_all_iff)
qed

text \<open>A capture from its request to its final update, with a reload while it runs.\<close>

definition demo_world :: row_world where
  "demo_world = \<lparr>rw_pack = map of_char, rw_compress = False,
     rw_protocols = \<lparr>pt_incoming = ''http1.1'', pt_upstream = ''http2''\<rparr>\<rparr>"

definition demo_final :: response_meta where
  "demo_final =
     \<lparr>re_status = 200, re_headers = ''{}'', re_body = ''hi'', re_size = 2, re_content_type = ''text/plain'', re_sse = 0,
      re_duration = 4, re_finished = 9, re_source = Some FromUpstream, re_reason = None, re_usage = None,
      re_model = None, re_retry = None, re_ttft_exceeded = None, re_ttft_p50 = None, re_tps_p50 = None\<rparr>"

definition demo_life :: "live_event list" where
  "demo_life =
     [Operation (Insert_Early \<lparr>rq_meta_method = ''POST'', rq_meta_path = ''/v1/messages'', rq_meta_size = 2,
        rq_meta_started = 5\<rparr> ''url'' ''{}'' ''{}'' None), Message_Arrives,
      Operation (Permit_Granted 1), Message_Arrives, List_Asked 6, List_Arrives 0,
      Operation (Batch_Written 9 [(1, demo_final)])]"

lemmas demo_life_simps = demo_life_def live_run_def new_live_def new_list_server_def insert_early_def
  modify_row_def update_where_def batch_written_def flush_message_def load_list_def Let_def case_prod_unfold

theorem dashboard_follows_the_rows_witness:
  "1 \<in> set (map shown_id (fold on_message (lv_wire (live_run demo_world demo_life (new_live 100)))
     (lv_list (live_run demo_world demo_life (new_live 100)))))"
proof -
  let ?st = "live_run demo_world demo_life (new_live 100)"
  have "orderly_run demo_world demo_life (new_live 100)"
    by (simp add: demo_life_simps)
  moreover have "ls_next (lv_server ?st) = 2" "map cr_id (ls_rows (lv_server ?st)) = [1]"
    by (simp_all add: demo_life_simps)
  ultimately show ?thesis
    using dashboard_follows_the_rows [of demo_world demo_life 100] by (simp add: Let_def MAX_CAPTURES_def)
qed

subsection \<open>Captures that come back\<close>

text \<open>The update of a capture that was pruned or cleared away puts it back, at the head of the list.\<close>

lemma pruned_capture_returns:
  assumes "obj_get (ls_requests sv) i = Some (meta, model)" "i \<notin> cr_id ` set (ls_rows sv)"
    "i \<notin> set (map shown_id es)"
  shows "\<exists>s rest. fold on_message (snd (batch_written w now [(i, res)] sv)) es = plain_shown s # rest \<and> su_id s = i \<and>
    i \<notin> cr_id ` set (ls_rows (fst (batch_written w now [(i, res)] sv)))"
proof -
  have rows: "update_where i f (ls_rows sv) = ls_rows sv" for f
    using assms(2) by (auto simp: update_where_def intro!: map_idI)
  show ?thesis
    using assms by (auto simp: batch_written_def flush_message_def upsert_def MAX_CAPTURES_def rows Let_def
        numeral_eq_Suc)
qed

subsection \<open>Payloads\<close>

text \<open>
  A payload reads back as it was written, compressed or not, when the compression is the inverse of the
  decompression, as that of zstd is.
\<close>

lemma payload_reads_back:
  assumes "\<And>t. unpack (pack t) = Some t"
  shows "decompress_text unpack (compress_text pack enabled value) = value"
  using assms by (auto simp: decompress_text_def compress_text_def split: option.split)

end
