(* ===== verification/Spec2Isabelle.thy ===== *)
theory Spec2Isabelle
  imports Gate_Props RateLimit Requests Write_Queue Stamp_Props Config_Props Reload_Props
    Usage_Props Capture_Props Ladder_Props Vision_Props Flight_Props
    Usage_Poll Limits_Props Door_Props History_Props Admission_Props Rewrite_Props Catalog_Props Dashboard_Props
begin

text \<open>
  umans-gate is a local gateway between coding agents and an LLM provider. A request passes the
  request gate and the limiters, waits for a slot of the concurrency gate, has its body stamped
  (prompt cache breakpoints, thinking and reasoning settings), is forwarded, and its response is
  streamed back while a copy is kept: the token usage is extracted from the copy, put in a write
  queue, stored in the capture database and accounted into the daily usage with its price. A
  config file drives all of it and can be reloaded while the gateway runs. Before a request for a
  model without vision is forwarded, the vision handoff has its images described by another model
  and replaces them by the descriptions, which are cached in memory and in the database.

  \<^bold>\<open>Theories and the code they model\<close> (paths under \<open>src/\<close>)

  \<^item> \<open>Js_Prelude\<close>, \<open>Js_Text\<close>, \<open>Json\<close>: the JavaScript values the code computes with: numbers that may
    be NaN or infinite, rounding, insertion-ordered objects with their get, set and merge laws,
    text primitives, \<open>Number(s)\<close>, JSON values with property access and spread.
  \<^item> \<open>Breaker\<close> (\<open>limiter/circuit-breaker.ts\<close>): the breaker as a record with explicit time; it trips
    at its threshold and lets one probe through.
  \<^item> \<open>Semaphore\<close>, \<open>Semaphore_Laws\<close>, \<open>Gate\<close>, \<open>Gate_Laws\<close>, \<open>Gate_Props\<close> (\<open>limiter/gate.ts\<close>,
    \<open>limiter/types.ts\<close>): scaled weights, reservations, queue, drain, resize; then the gate with
    permits, promises and timers as events. \<open>Gate_Laws\<close> has the invariant that books every slot
    and that each event keeps it; \<open>Gate_Props\<close> states what follows for reachable gates: slots are
    conserved, grants stay in the limit, drains are complete and in order, settlements final.
  \<^item> \<open>RateLimit\<close> (\<open>rate.ts\<close>, \<open>auth.ts\<close>), \<open>Requests\<close> (\<open>request-gate.ts\<close>, \<open>shared/\<close>, \<open>incidents.ts\<close>): the
    sliding window refines a history, every answer with its retry delay; request gate decisions,
    header redaction.
  \<^item> \<open>Cache_Stamps\<close>, \<open>Body_Stamps\<close>, \<open>Stamp_Props\<close> (\<open>restamp-breakpoints.ts\<close>, \<open>stamp*.ts\<close>,
    \<open>stamp-pipeline.ts\<close>, the overlay of \<open>proxy.ts\<close>): every stamp as a function on JSON bodies and
    the pipeline as their fold; the locales \<open>settling_step\<close> and \<open>framed_step\<close> state what a stamp
    owes the pipeline.
  \<^item> \<open>Config_Values\<close>, \<open>Config_Loader\<close>, \<open>Config_Validation\<close>, \<open>Config_Reload\<close>, \<open>Config_Laws\<close>,
    \<open>Config_Load_Laws\<close>, \<open>Config_Props\<close>, \<open>Reload_Props\<close> (\<open>config/\<close>, the reload in \<open>index.ts\<close>): all
    settings, their rules and defaults; saving and loading round trips, an accepted config gives
    the gate options its invariants assume, a hot reload reaches the state of a fresh load.
  \<^item> \<open>Write_Queue\<close> (\<open>queue.ts\<close>): updates, timers, store answers and continuations as events; no
    update is duplicated or, without a direct \<open>flushNow\<close>, reordered; none is stranded unless the
    announcement of a written batch throws; and where some are lost.
  \<^item> \<open>Ttft_Ladder\<close>, \<open>Ladder_Props\<close> (\<open>forwardUpstream\<close> in \<open>proxy.ts\<close>): the retry loop around the first
    byte of a response, one turn per attempt, as a function of what the attempt observes; it ends
    within the configured attempts and every request leaves it with one recorded answer, a response,
    or an exception that has recorded none.
  \<^item> \<open>Sse\<close>, \<open>Sse_Props\<close> (\<open>usage/sse-parse.ts\<close>), \<open>Usage_Extract\<close>, \<open>Usage_Props\<close> (\<open>usage/extract.ts\<close>,
    \<open>usage/helpers.ts\<close>): the stream parsers, with their loop as \<open>while_option\<close>, and the usage of a
    response. The locale \<open>sse_reader\<close> carries the reference cut of a text to both formats: the
    chunks of the transport do not matter, and the parsers always end.
  \<^item> \<open>Economics\<close>, \<open>Economics_Queries\<close>, \<open>Economics_Laws\<close> (\<open>economics.ts\<close>), \<open>Capture_Db\<close>,
    \<open>Capture_Db_Laws\<close>, \<open>Capture_Props\<close> (\<open>db.ts\<close>): tables as lists of rows and mappings, statements
    as functions on them. The ledger of a run ties the daily totals to the captures accounted;
    the locale \<open>usage_column\<close> does it once for every summed column.

  \<^item> \<open>Js_Regex\<close>, \<open>Json_Text\<close>: regular expressions with a derivative matcher proved equal to their
    language, and \<open>JSON.stringify\<close> with the order and quoting laws the cheap image test needs.
  \<^item> \<open>Vision_Detect\<close>, \<open>Vision_Wrapper\<close>, \<open>Vision_Call\<close>, \<open>Vision_Handoff\<close>, \<open>Vision_Laws\<close>, \<open>Vision_Props\<close>
    (\<open>vision/detect.ts\<close>, \<open>triage.ts\<close>, \<open>wrapper.ts\<close>, \<open>craft.ts\<close>, \<open>decompose.ts\<close>, \<open>handoff.ts\<close>): what the
    handoff does to a body. \<open>Vision_Laws\<close> reads a body as its content blocks and shows which block
    each description lands on; \<open>Vision_Props\<close> states what is described and what is left.
  \<^item> \<open>Vision_Store\<close>, \<open>Vision_Cache\<close>, \<open>Store_Props\<close> (\<open>vision-description-store.ts\<close>,
    \<open>vision/persistent-cache.ts\<close>, \<open>vision/cache.ts\<close>): table, write buffer and two-tier cache; the
    locale \<open>expiring_store\<close> states what a store promises, evictions included, and the buffered store
    provides it.
  \<^item> \<open>Vision_Images\<close>, \<open>Vision_Flight\<close>, \<open>Flight_Props\<close> (\<open>vision/image-processor.ts\<close>): the processing of
    one image cut at its awaits, and the jobs of concurrent requests as a step relation over the
    shared map of images in flight, with its invariant.
  \<^item> \<open>Usage_Snapshot\<close>, \<open>Usage_Poll\<close> (\<open>usage/parser.ts\<close>, \<open>aggregator.ts\<close>, \<open>reconciler.ts\<close>, \<open>budget.ts\<close>),
    \<open>Limits_Sync\<close>, \<open>Limits_Props\<close> (the listeners of \<open>index.ts\<close>): the provider's usage as snapshots, the
    polling client as events, and how reported limits reach the gate and the request limiter.
    \<open>Usage_Poll\<close> follows the limits through any run of the client, \<open>Limits_Props\<close> through the server.
  \<^item> \<open>Dispatch\<close>, \<open>Viewer\<close>, \<open>Door_Props\<close> (\<open>index.ts\<close>, \<open>viewer.ts\<close>, \<open>auth.ts\<close>): which request reaches
    which handler, authentication with its lockout, and the config routes. The bound on guesses
    rests on the lockout law of \<open>RateLimit\<close>; the config answers hide the secrets.
  \<^item> \<open>Proxy_Admission\<close>, \<open>Proxy_Stream\<close>, \<open>Stream_Props\<close>, \<open>Admission_Props\<close> (\<open>handleProxy\<close> and its phases
    in \<open>proxy.ts\<close>): body, target and headers of a request, the refusals of limiter and gate, then the
    streaming with its capture as events, the permit watchdog before and during it and a failing
    upstream body included. What closes a stream closes it once, and every request whose stream is
    closed is booked once and returns its permit.
  \<^item> \<open>Id_Rewrite\<close>, \<open>Rewrite_Props\<close> (\<open>experiments/rewrite-ids.ts\<close>, its tables in \<open>db.ts\<close>, the retry in
    \<open>proxy.ts\<close>): sessions, salts and mappings; a retry sends the reference rewriting of its request.
  \<^item> \<open>Usage_History\<close>, \<open>Usage_Daily\<close>, \<open>Daily_Props\<close>, \<open>History_Props\<close> (\<open>usage-history/\<close>): samples, events
    and daily rows. Samples are the changes, events form chains, the minutes of a day fit into it,
    and the daily job spares the days whose samples it has pruned.
  \<^item> \<open>Model_Catalog\<close>, \<open>Catalog_Props\<close> (\<open>models.ts\<close>, \<open>model-info-parser.ts\<close>): the list of models with its
    weights and timers; weights stay in their tiers and a started client keeps refreshing.
  \<^item> \<open>Capture_Rows\<close>, \<open>Dashboard_List\<close>, \<open>Dashboard_Props\<close> (the statements of \<open>db.ts\<close>, \<open>compress.ts\<close>,
    \<open>shared/capture-summary.ts\<close>, \<open>in-flight-cooldowns.ts\<close>, the hooks \<open>use-captures\<close>,
    \<open>use-captures-socket\<close> and \<open>use-capture-list\<close> of the dashboard): all columns of a capture, the
    messages broadcast about it and the list a dashboard keeps from them and from the answers to its
    queries, both on their way for a while. The list follows the rows when answers do not arrive late.

  \<^bold>\<open>How state and effects are modelled\<close>

  Classes are records passed through functions; timers, promises and sockets are events of a
  run, with the clock an argument. An exception, a rejected save or a rolled back transaction is
  \<open>None\<close>, or a value the code returns for it. What runs outside the repository is an argument:
  \<open>JSON.parse\<close> of a response is an arbitrary function from texts to values, and so are base64, the
  hash, the text of a number, the image library and the LRU map of the vision cache. Loops over a list are
  structural; the loops of the stream parsers are \<open>while_option\<close>, proved to return; no definition
  uses fuel.

  Numbers are exact: counters and times are \<open>int\<close>, \<open>nat\<close> or \<open>rat\<close>, also where the code has doubles
  or SQL REAL columns; rounding errors of doubles are outside the model. Texts are ASCII.
  A value that overflows to infinity is kept as such where the code tests for it.

  Days are numbers of days; a text of a date stands for its number.

  \<^bold>\<open>Not modelled\<close>

  The vision handoff inside the proxy handler is modelled on its own (\<open>Vision_Handoff\<close>), not as a phase
  of \<open>handle_proxy\<close>; image transcoding and the row sink of vision calls (\<open>vision/transcode.ts\<close>,
  \<open>vision/sink.ts\<close>) rest on an image library. The performance query, the incident and vision lists and
  the schemas are SQL text. The socket set and the status page client (\<open>ws.ts\<close>, \<open>status-client.ts\<close>)
  enter as messages delivered in order and as observations. Of the dashboard only the list of
  captures has a model, the rest renders. The updater, the service installers, the command line,
  logging, metrics, the connection warmer and the write worker's messages, which no setting turns
  on, are input and output around what is modelled. File permissions are left out.
\<close>

end
